(* ===== verification/Prelude.thy ===== *)
theory Prelude
  imports Main "HOL-Library.Sublist" "HOL-Library.Char_ord" "HOL-Library.List_Lexorder"
begin

text \<open>
  Shared vocabulary of the development: Go error values, 64-bit arithmetic with its wrap-around,
  and the generic facts on lists, options and sums the component theories use.
\<close>

named_theorems exec_defs "definitions a run of a handler unfolds"
named_theorems wp_rules "rules of the weakest-precondition calculus for effectful handlers"
named_theorems keeps_rules "rules for invariants of effectful handlers, by structure of the program"
named_theorems table_simps "facts about SQL tables represented as lists of rows"
named_theorems redis_simps "facts about reads after writes on the Redis store"

section \<open>Errors\<close>

text \<open>
  A Go error is a value.  \<open>IoErr\<close> is any failure of MySQL, Redis or Kafka, \<open>DupKey k\<close> MySQL's
  error 1062 on the unique key \<open>k\<close>, \<open>Msg t\<close> an \<open>errors.New\<close>/\<open>fmt.Errorf\<close> with text \<open>t\<close>, \<open>Wrapped e t\<close>
  an \<open>fmt.Errorf\<close> with a \<open>%w\<close> verb, and \<open>Coded c t\<close> the \<open>*Error\<close> of the task and community services,
  whose code becomes the HTTP status.
\<close>

datatype gerr =
    IoErr
  | DupKey string
  | Msg string
  | Wrapped gerr string
  | Coded int string
  | VersionConflict string int

text \<open>\<open>errors.Is\<close> follows the chain of wrapped errors.\<close>

primrec err_is :: "gerr \<Rightarrow> gerr \<Rightarrow> bool" where
  "err_is IoErr t = (t = IoErr)"
| "err_is (DupKey k) t = (t = DupKey k)"
| "err_is (Msg s) t = (t = Msg s)"
| "err_is (Wrapped e s) t = (t = Wrapped e s \<or> err_is e t)"
| "err_is (Coded c s) t = (t = Coded c s)"
| "err_is (VersionConflict s v) t = (t = VersionConflict s v)"

lemma err_is_refl [simp]: "err_is e e"
  by (cases e) simp_all

definition is_dup_key :: "gerr \<Rightarrow> bool" where
  "is_dup_key e = (case e of DupKey _ \<Rightarrow> True | _ \<Rightarrow> False)"

lemma is_dup_key_simps [simp]:
  "is_dup_key (DupKey k)" "\<not> is_dup_key IoErr" "\<not> is_dup_key (Msg s)"
  by (simp_all add: is_dup_key_def)

section \<open>64-bit integers\<close>

text \<open>
  Go's \<open>int64\<close> (and MySQL's \<open>BIGINT\<close>) are integers in \<open>[-2^63, 2^63)\<close>; Go's \<open>+\<close> and \<open>-\<close> wrap.
\<close>

definition i64 :: "int \<Rightarrow> int" where
  "i64 x = (x + 2 ^ 63) mod 2 ^ 64 - 2 ^ 63"

definition in_i64 :: "int \<Rightarrow> bool" where
  "in_i64 x \<longleftrightarrow> - (2 ^ 63) \<le> x \<and> x < 2 ^ 63"

lemma i64_range: "in_i64 (i64 x)"
  by (simp add: i64_def in_i64_def)

lemma i64_id: "in_i64 x \<Longrightarrow> i64 x = x"
  by (simp add: i64_def in_i64_def mod_pos_pos_trivial)

lemma i64_eq: "- (2 ^ 63) \<le> x \<Longrightarrow> x < 2 ^ 63 \<Longrightarrow> i64 x = x"
  by (rule i64_id) (simp add: in_i64_def)

text \<open>Adding two non-negative 64-bit numbers either is exact or comes out negative.\<close>

lemma i64_add_nonneg:
  assumes "0 \<le> a" "a < 2 ^ 63" "0 \<le> b" "b < 2 ^ 63" "0 \<le> i64 (a + b)"
  shows "i64 (a + b) = a + b"
proof (cases "a + b < 2 ^ 63")
  case True
  with assms show ?thesis by (intro i64_eq) auto
next
  case False
  have "(a + b + 2 ^ 63) mod 2 ^ 64 = a + b + 2 ^ 63 - 2 ^ 64"
    using False assms minus_mod_self2 [of "a + b + 2 ^ 63" "2 ^ 64"]
    by (simp add: mod_pos_pos_trivial)
  then have "i64 (a + b) = a + b - 2 ^ 64" by (simp add: i64_def)
  with assms have False by simp
  then show ?thesis ..
qed

section \<open>Lists and options\<close>

lemma find_Some_iff_in: "find P xs = Some x \<Longrightarrow> x \<in> set xs \<and> P x"
  by (induction xs) (auto split: if_splits)

lemma find_None_iff_all: "find P xs = None \<longleftrightarrow> (\<forall>x\<in>set xs. \<not> P x)"
  by (induction xs) auto

lemma find_append: "find P (xs @ ys) = (case find P xs of None \<Rightarrow> find P ys | Some x \<Rightarrow> Some x)"
  by (induction xs) auto

lemma find_cong_set: "(\<And>x. x \<in> set xs \<Longrightarrow> P x = Q x) \<Longrightarrow> find P xs = find Q xs"
  by (induction xs) auto

lemma sum_list_map_cong_set:
  "(\<And>x. x \<in> set xs \<Longrightarrow> f x = g x) \<Longrightarrow> sum_list (map f xs) = sum_list (map g xs)"
  by (induction xs) auto

text \<open>Changing one row of a list with distinct keys changes a sum over the list by that row's change.\<close>

lemma sum_list_update_one:
  fixes g :: "'r \<Rightarrow> int"
  assumes "distinct (map key xs)" and "x \<in> set xs"
  shows "sum_list (map (\<lambda>r. if key r = key x then g' r else g r) xs)
         = sum_list (map g xs) - g x + g' x"
  using assms
proof (induction xs)
  case Nil
  then show ?case by simp
next
  case (Cons y ys)
  show ?case
  proof (cases "x = y")
    case True
    with Cons.prems have "\<And>r. r \<in> set ys \<Longrightarrow> key r \<noteq> key x" by (force simp: image_iff)
    then have "sum_list (map (\<lambda>r. if key r = key x then g' r else g r) ys) = sum_list (map g ys)"
      by (intro sum_list_map_cong_set) auto
    with True show ?thesis by simp
  next
    case False
    with Cons have "key y \<noteq> key x" by (auto simp: rev_image_eqI)
    with Cons False show ?thesis by simp
  qed
qed

end
