(* ===== verification/Io.thy ===== *)
theory Io
  imports Prelude "HOL-Library.State_Monad"
begin

text \<open>
  Effectful handlers.  A handler is a state-monad program over a shared world \<open>'w\<close> (the MySQL tables,
  the Redis keys, what was published) and a counter of the external calls made so far.  The environment
  decides, call by call, what other processes did to the world just before the call, what the clock
  shows, and whether the call succeeds, fails without effect, or fails although its effect happened
  (a lost reply).  Quantifying over the environment covers every interleaving with other
  processes at call granularity and every pattern of failures.
\<close>

section \<open>Calls\<close>

datatype outcome = Up | Down | Lost

record 'w env =
  interfere :: "nat \<Rightarrow> 'w \<Rightarrow> 'w"
  fault :: "nat \<Rightarrow> outcome"
  clock_at :: "nat \<Rightarrow> int"

type_synonym ('w, 'a) io = "(nat \<times> 'w, 'a) state"

text \<open>A call whose operation may itself answer with an error.\<close>

definition exec :: "'w env \<Rightarrow> ('w \<Rightarrow> (gerr + 'a) \<times> 'w) \<Rightarrow> ('w, gerr + 'a) io" where
  "exec env opn = State (\<lambda>(n, w).
     let w1 = interfere env n w in
     case fault env n of
       Up \<Rightarrow> (case opn w1 of (r, w2) \<Rightarrow> (r, (Suc n, w2)))
     | Down \<Rightarrow> (Inl IoErr, (Suc n, w1))
     | Lost \<Rightarrow> (case opn w1 of (r, w2) \<Rightarrow> (Inl IoErr, (Suc n, w2))))"

definition query :: "'w env \<Rightarrow> ('w \<Rightarrow> 'a) \<Rightarrow> ('w, gerr + 'a) io" where
  "query env f = exec env (\<lambda>w. (Inr (f w), w))"

definition update_w :: "'w env \<Rightarrow> ('w \<Rightarrow> 'w) \<Rightarrow> ('w, gerr + unit) io" where
  "update_w env g = exec env (\<lambda>w. (Inr (), g w))"

definition clock :: "'w env \<Rightarrow> ('w, int) io" where
  "clock env = State (\<lambda>(n, w). (clock_at env n, (Suc n, w)))"

definition ok :: "'a \<Rightarrow> ('w, gerr + 'a) io" where
  "ok a = State_Monad.return (Inr a)"

definition err :: "gerr \<Rightarrow> ('w, gerr + 'a) io" where
  "err e = State_Monad.return (Inl e)"

text \<open>\<open>if err != nil { return err }\<close>\<close>

definition then_ok :: "('w, gerr + 'a) io \<Rightarrow> ('a \<Rightarrow> ('w, gerr + 'b) io) \<Rightarrow> ('w, gerr + 'b) io" where
  "then_ok m k = State_Monad.bind m (\<lambda>r. case r of Inl e \<Rightarrow> err e | Inr a \<Rightarrow> k a)"

text \<open>\<open>_ = call()\<close>: the error is dropped.\<close>

definition ignore :: "('w, 'a) io \<Rightarrow> ('w, 'b) io \<Rightarrow> ('w, 'b) io" where
  "ignore m k = State_Monad.bind m (\<lambda>_. k)"

text \<open>A loop over a list that stops at the first error.\<close>

fun each :: "('a \<Rightarrow> ('w, gerr + unit) io) \<Rightarrow> 'a list \<Rightarrow> ('w, gerr + unit) io" where
  "each f [] = ok ()"
| "each f (x # xs) = then_ok (f x) (\<lambda>_. each f xs)"

section \<open>Transactions\<close>

text \<open>
  The body of a transaction ends by rolling back or by committing, and returns a result either way.  The rows a transaction works on are locked (\<open>FOR UPDATE\<close>), so its statements run
  without interference from the moment it starts; each of them may still fail.  A failed commit may
  or may not have taken effect.
\<close>

datatype 'a tx_end = Rollback "gerr + 'a" | Commit "gerr + 'a"

definition quiet :: "'w env \<Rightarrow> 'w env" where
  "quiet env = env\<lparr>interfere := \<lambda>_ w. w\<rparr>"

definition then_tx :: "('w, gerr + 'a) io \<Rightarrow> ('a \<Rightarrow> ('w, 'b tx_end) io) \<Rightarrow> ('w, 'b tx_end) io" where
  "then_tx m k = State_Monad.bind m (\<lambda>r. case r of Inl e \<Rightarrow> State_Monad.return (Rollback (Inl e)) | Inr a \<Rightarrow> k a)"

definition in_tx :: "'w env \<Rightarrow> ('w env \<Rightarrow> ('w, 'a tx_end) io) \<Rightarrow> ('w, gerr + 'a) io" where
  "in_tx env body = State (\<lambda>(n, w).
     let w0 = interfere env n w in
     if fault env n \<noteq> Up then (Inl IoErr, (Suc n, w0))
     else case run_state (body (quiet env)) (Suc n, w0) of
       (Rollback r, (m, w1)) \<Rightarrow> (r, (m, w0))
     | (Commit r, (m, w1)) \<Rightarrow>
         (case fault env m of
            Up \<Rightarrow> (r, (Suc m, w1))
          | Down \<Rightarrow> (Inl IoErr, (Suc m, w0))
          | Lost \<Rightarrow> (Inl IoErr, (Suc m, w1))))"

text \<open>An environment without failures or interference, whose clock stands at \<open>t\<close>.\<close>

definition calm :: "int \<Rightarrow> 'w env" where
  "calm t = \<lparr>interfere = \<lambda>_ w. w, fault = \<lambda>_. Up, clock_at = \<lambda>_. t\<rparr>"

lemma calm_simps [simp]:
  "interfere (calm t) n w = w" "fault (calm t) n = Up" "clock_at (calm t) n = t" "quiet (calm t) = calm t"
  by (simp_all add: calm_def quiet_def)

lemma quiet_simps [simp]:
  "interfere (quiet env) n w = w" "fault (quiet env) n = fault env n" "clock_at (quiet env) n = clock_at env n"
  "quiet (quiet env) = quiet env"
  by (simp_all add: quiet_def)

section \<open>Weakest preconditions\<close>

text \<open>\<open>wp m Q w\<close>: from the world \<open>w\<close>, whatever the call counter shows, \<open>m\<close> ends in a result and a world with \<open>Q\<close>.\<close>

definition wp :: "('w, 'a) io \<Rightarrow> ('a \<Rightarrow> 'w \<Rightarrow> bool) \<Rightarrow> 'w \<Rightarrow> bool" where
  "wp m Q w \<longleftrightarrow> (\<forall>n. case run_state m (n, w) of (a, (n', w')) \<Rightarrow> Q a w')"

definition relies :: "'w env \<Rightarrow> ('w \<Rightarrow> bool) \<Rightarrow> bool" where
  "relies env I \<longleftrightarrow> (\<forall>n w. I w \<longrightarrow> I (interfere env n w))"

definition keeps :: "('w \<Rightarrow> bool) \<Rightarrow> ('w, 'a) io \<Rightarrow> bool" where
  "keeps I m \<longleftrightarrow> (\<forall>w. I w \<longrightarrow> wp m (\<lambda>_. I) w)"

lemma wpD: "wp m Q w \<Longrightarrow> run_state m (n, w) = (a, (n', w')) \<Longrightarrow> Q a w'"
  by (auto simp: wp_def dest: spec [of _ n])

lemma wp_run:
  assumes "wp m Q w" "fst (run_state m (n, w)) = a"
  shows "\<exists>n' s. run_state m (n, w) = (a, (n', s)) \<and> Q a s"
  using assms by (cases "run_state m (n, w)") (auto dest: wpD)

lemma wpI: "(\<And>n a n' w'. run_state m (n, w) = (a, (n', w')) \<Longrightarrow> Q a w') \<Longrightarrow> wp m Q w"
  by (auto simp: wp_def split: prod.splits)

lemma wp_mono: "wp m Q w \<Longrightarrow> (\<And>a w'. Q a w' \<Longrightarrow> R a w') \<Longrightarrow> wp m R w"
  by (fastforce simp: wp_def split: prod.splits)

lemma wp_conj: "wp m Q w \<Longrightarrow> wp m R w \<Longrightarrow> wp m (\<lambda>a w'. Q a w' \<and> R a w') w"
  by (fastforce simp: wp_def split: prod.splits)

lemma wp_trivial [simp]: "wp m (\<lambda>_ _. True) w"
  by (simp add: wp_def split: prod.split)

lemma wp_return [wp_rules]: "Q a w \<Longrightarrow> wp (State_Monad.return a) Q w"
  by (simp add: wp_def)

lemma wp_ok [wp_rules]: "Q (Inr a) w \<Longrightarrow> wp (ok a) Q w"
  by (simp add: ok_def wp_return)

lemma wp_err [wp_rules]: "Q (Inl e) w \<Longrightarrow> wp (err e) Q w"
  by (simp add: err_def wp_return)

lemma wp_bind [wp_rules]: "wp m (\<lambda>a. wp (k a) Q) w \<Longrightarrow> wp (State_Monad.bind m k) Q w"
  by (fastforce simp: wp_def split: prod.splits)

lemma wp_then_ok [wp_rules]:
  "wp m (\<lambda>r w'. (\<forall>e. r = Inl e \<longrightarrow> Q (Inl e) w') \<and> (\<forall>a. r = Inr a \<longrightarrow> wp (k a) Q w')) w
   \<Longrightarrow> wp (then_ok m k) Q w"
  unfolding then_ok_def
  by (rule wp_bind, erule wp_mono) (auto split: sum.split intro: wp_err)

lemma wp_then_tx [wp_rules]:
  "wp m (\<lambda>r w'. (\<forall>e. r = Inl e \<longrightarrow> Q (Rollback (Inl e)) w') \<and> (\<forall>a. r = Inr a \<longrightarrow> wp (k a) Q w')) w
   \<Longrightarrow> wp (then_tx m k) Q w"
  unfolding then_tx_def
  by (rule wp_bind, erule wp_mono) (auto split: sum.split intro: wp_return)

lemma wp_ignore [wp_rules]: "wp m (\<lambda>_. wp k Q) w \<Longrightarrow> wp (ignore m k) Q w"
  by (simp add: ignore_def wp_bind)

text \<open>The rules of sequencing with the intermediate assertion given by a lemma on the first part.\<close>

lemma wp_bindI: "wp m R w \<Longrightarrow> (\<And>a s. R a s \<Longrightarrow> wp (k a) Q s) \<Longrightarrow> wp (State_Monad.bind m k) Q w"
  by (rule wp_bind, erule wp_mono) simp

lemma wp_then_okI:
  "wp m R w \<Longrightarrow> (\<And>e s. R (Inl e) s \<Longrightarrow> Q (Inl e) s) \<Longrightarrow> (\<And>a s. R (Inr a) s \<Longrightarrow> wp (k a) Q s)
   \<Longrightarrow> wp (then_ok m k) Q w"
  by (rule wp_then_ok, erule wp_mono) auto

lemma wp_then_txI:
  "wp m R w \<Longrightarrow> (\<And>e s. R (Inl e) s \<Longrightarrow> Q (Rollback (Inl e)) s) \<Longrightarrow> (\<And>a s. R (Inr a) s \<Longrightarrow> wp (k a) Q s)
   \<Longrightarrow> wp (then_tx m k) Q w"
  by (rule wp_then_tx, erule wp_mono) auto

lemma wp_ignoreI: "wp m R w \<Longrightarrow> (\<And>a s. R a s \<Longrightarrow> wp k Q s) \<Longrightarrow> wp (ignore m k) Q w"
  by (rule wp_ignore, erule wp_mono) simp

lemma wp_if [wp_rules]: "(b \<Longrightarrow> wp m Q w) \<Longrightarrow> (\<not> b \<Longrightarrow> wp m' Q w) \<Longrightarrow> wp (if b then m else m') Q w"
  by simp

lemma wp_case_sum [wp_rules]:
  "(\<And>e. r = Inl e \<Longrightarrow> wp (f e) Q w) \<Longrightarrow> (\<And>a. r = Inr a \<Longrightarrow> wp (g a) Q w)
   \<Longrightarrow> wp (case r of Inl e \<Rightarrow> f e | Inr a \<Rightarrow> g a) Q w"
  by (cases r) auto

lemma wp_case_option [wp_rules]:
  "(r = None \<Longrightarrow> wp m Q w) \<Longrightarrow> (\<And>a. r = Some a \<Longrightarrow> wp (g a) Q w)
   \<Longrightarrow> wp (case r of None \<Rightarrow> m | Some a \<Rightarrow> g a) Q w"
  by (cases r) auto

lemma wp_case_prod [wp_rules]:
  "(\<And>a b. r = (a, b) \<Longrightarrow> wp (g a b) Q w) \<Longrightarrow> wp (case r of (a, b) \<Rightarrow> g a b) Q w"
  by (cases r) auto

lemma wp_let [wp_rules]: "(\<And>x. x = e \<Longrightarrow> wp (f x) Q w) \<Longrightarrow> wp (let x = e in f x) Q w"
  by simp

lemma wp_clock [wp_rules]: "(\<And>t. Q t w) \<Longrightarrow> wp (clock env) Q w"
  by (simp add: wp_def clock_def)

lemma wp_clock_at: "(\<And>n. Q (clock_at env n) w) \<Longrightarrow> wp (clock env) Q w"
  by (simp add: wp_def clock_def)

text \<open>A call: interference first, then success, failure, or failure with the effect.\<close>

lemma wp_exec:
  "(\<And>n. Q (Inl IoErr) (interfere env n w))
   \<Longrightarrow> (\<And>n. case opn (interfere env n w) of (r, w2) \<Rightarrow> Q r w2 \<and> Q (Inl IoErr) w2)
   \<Longrightarrow> wp (exec env opn) Q w"
  by (force simp: wp_def exec_def Let_def split: outcome.splits prod.splits)

lemma wp_exec_stable:
  assumes st: "relies env I" and "I w"
    and "\<And>w'. I w' \<Longrightarrow> Q (Inl IoErr) w'"
    and "\<And>w' r w2. I w' \<Longrightarrow> opn w' = (r, w2) \<Longrightarrow> Q r w2 \<and> Q (Inl IoErr) w2"
  shows "wp (exec env opn) Q w"
proof (rule wp_exec)
  fix n
  from st \<open>I w\<close> have I: "I (interfere env n w)" by (simp add: relies_def)
  then show "Q (Inl IoErr) (interfere env n w)" by (rule assms(3))
  show "case opn (interfere env n w) of (r, w2) \<Rightarrow> Q r w2 \<and> Q (Inl IoErr) w2"
    using assms(4) [OF I] by (cases "opn (interfere env n w)") auto
qed

lemma wp_query:
  "(\<And>n. Q (Inl IoErr) (interfere env n w)) \<Longrightarrow> (\<And>n. Q (Inr (f (interfere env n w))) (interfere env n w))
   \<Longrightarrow> wp (query env f) Q w"
  unfolding query_def by (rule wp_exec) auto

lemma wp_update_w:
  "(\<And>n. Q (Inl IoErr) (interfere env n w)) \<Longrightarrow> (\<And>n. Q (Inr ()) (g (interfere env n w)))
   \<Longrightarrow> (\<And>n. Q (Inl IoErr) (g (interfere env n w))) \<Longrightarrow> wp (update_w env g) Q w"
  unfolding update_w_def by (rule wp_exec) auto

lemma wp_query_stable:
  "relies env I \<Longrightarrow> I w \<Longrightarrow> (\<And>w'. I w' \<Longrightarrow> Q (Inl IoErr) w') \<Longrightarrow> (\<And>w'. I w' \<Longrightarrow> Q (Inr (f w')) w')
   \<Longrightarrow> wp (query env f) Q w"
  by (rule wp_query) (auto simp: relies_def)

lemma wp_update_stable:
  "relies env I \<Longrightarrow> I w \<Longrightarrow> (\<And>w'. I w' \<Longrightarrow> Q (Inl IoErr) w') \<Longrightarrow> (\<And>w'. I w' \<Longrightarrow> Q (Inr ()) (g w'))
   \<Longrightarrow> (\<And>w'. I w' \<Longrightarrow> Q (Inl IoErr) (g w')) \<Longrightarrow> wp (update_w env g) Q w"
  by (rule wp_update_w) (auto simp: relies_def)

text \<open>
  A transaction, seen from outside: it fails and leaves the world as it found it, or its body ran
  undisturbed to a commit.
\<close>

lemma wp_in_tx:
  assumes "\<And>n. Q (Inl IoErr) (interfere env n w)"
    and "\<And>n. wp (body (quiet env))
           (\<lambda>r w1. case r of Rollback x \<Rightarrow> Q x (interfere env n w)
                  | Commit a \<Rightarrow> Q a w1 \<and> Q (Inl IoErr) w1) (interfere env n w)"
  shows "wp (in_tx env body) Q w"
proof (rule wpI)
  fix n a n' w'
  assume run: "run_state (in_tx env body) (n, w) = (a, (n', w'))"
  let ?w0 = "interfere env n w"
  obtain r m w1 where b: "run_state (body (quiet env)) (Suc n, ?w0) = (r, (m, w1))"
    by (metis prod_cases3)
  have "case r of Rollback x \<Rightarrow> Q x ?w0 | Commit x \<Rightarrow> Q x w1 \<and> Q (Inl IoErr) w1"
    using wpD [OF assms(2) b] .
  with run b assms(1) [of n] show "Q a w'"
    by (auto simp: in_tx_def Let_def split: if_splits tx_end.splits outcome.splits)
qed

lemma wp_in_tx_stable:
  assumes "relies env I" "I w" and "\<And>w'. I w' \<Longrightarrow> Q (Inl IoErr) w'"
    and "\<And>w'. I w' \<Longrightarrow> wp (body (quiet env))
           (\<lambda>r w1. case r of Rollback x \<Rightarrow> Q x w' | Commit a \<Rightarrow> Q a w1 \<and> Q (Inl IoErr) w1) w'"
  shows "wp (in_tx env body) Q w"
  by (rule wp_in_tx) (use assms in \<open>simp_all add: relies_def\<close>)

section \<open>Invariants of handlers\<close>

lemma keepsD: "keeps I m \<Longrightarrow> I w \<Longrightarrow> run_state m (n, w) = (a, (n', w')) \<Longrightarrow> I w'"
  unfolding keeps_def by (blast dest: wpD)

lemma keepsI: "(\<And>w. I w \<Longrightarrow> wp m (\<lambda>_. I) w) \<Longrightarrow> keeps I m"
  by (simp add: keeps_def)

lemma keeps_wp: "keeps I m \<Longrightarrow> I w \<Longrightarrow> wp m (\<lambda>_. I) w"
  by (simp add: keeps_def)

lemma keeps_return [keeps_rules]: "keeps I (State_Monad.return a)"
  by (simp add: keeps_def wp_return)

lemma keeps_ok [keeps_rules]: "keeps I (ok a)"
  by (simp add: ok_def keeps_return)

lemma keeps_err [keeps_rules]: "keeps I (err e)"
  by (simp add: err_def keeps_return)

lemma keeps_bind [keeps_rules]: "keeps I m \<Longrightarrow> (\<And>a. keeps I (k a)) \<Longrightarrow> keeps I (State_Monad.bind m k)"
proof (rule keepsI, rule wp_bind)
  fix w
  assume m: "keeps I m" and k: "\<And>a. keeps I (k a)" and "I w"
  from keeps_wp [OF m \<open>I w\<close>] show "wp m (\<lambda>a. wp (k a) (\<lambda>_. I)) w"
    by (rule wp_mono) (rule keeps_wp [OF k])
qed

lemma keeps_if [keeps_rules]: "(b \<Longrightarrow> keeps I m) \<Longrightarrow> (\<not> b \<Longrightarrow> keeps I m') \<Longrightarrow> keeps I (if b then m else m')"
  by simp

lemma keeps_case_sum [keeps_rules]:
  "(\<And>e. r = Inl e \<Longrightarrow> keeps I (f e)) \<Longrightarrow> (\<And>a. r = Inr a \<Longrightarrow> keeps I (g a))
   \<Longrightarrow> keeps I (case r of Inl e \<Rightarrow> f e | Inr a \<Rightarrow> g a)"
  by (cases r) auto

lemma keeps_case_option [keeps_rules]:
  "(r = None \<Longrightarrow> keeps I m) \<Longrightarrow> (\<And>a. r = Some a \<Longrightarrow> keeps I (g a))
   \<Longrightarrow> keeps I (case r of None \<Rightarrow> m | Some a \<Rightarrow> g a)"
  by (cases r) auto

lemma keeps_case_prod [keeps_rules]: "(\<And>a b. r = (a, b) \<Longrightarrow> keeps I (g a b)) \<Longrightarrow> keeps I (case r of (a, b) \<Rightarrow> g a b)"
  by (cases r) auto

lemma keeps_let [keeps_rules]: "(\<And>x. x = e \<Longrightarrow> keeps I (f x)) \<Longrightarrow> keeps I (let x = e in f x)"
  by simp

lemma keeps_then_ok [keeps_rules]: "keeps I m \<Longrightarrow> (\<And>a. keeps I (k a)) \<Longrightarrow> keeps I (then_ok m k)"
  unfolding then_ok_def by (intro keeps_bind keeps_case_sum keeps_err)

lemma keeps_then_tx [keeps_rules]: "keeps I m \<Longrightarrow> (\<And>a. keeps I (k a)) \<Longrightarrow> keeps I (then_tx m k)"
  unfolding then_tx_def by (intro keeps_bind keeps_case_sum keeps_return)

lemma keeps_ignore [keeps_rules]: "keeps I m \<Longrightarrow> keeps I k \<Longrightarrow> keeps I (ignore m k)"
  unfolding ignore_def by (rule keeps_bind)

lemma keeps_clock [keeps_rules]: "keeps I (clock env)"
  by (simp add: keeps_def wp_clock)

lemma keeps_exec: "relies env I \<Longrightarrow> (\<And>w r w'. I w \<Longrightarrow> opn w = (r, w') \<Longrightarrow> I w') \<Longrightarrow> keeps I (exec env opn)"
  by (rule keepsI, rule wp_exec_stable [where I = I]) auto

lemma keeps_query [keeps_rules]: "relies env I \<Longrightarrow> keeps I (query env f)"
  unfolding query_def by (rule keeps_exec) auto

lemma keeps_update: "relies env I \<Longrightarrow> (\<And>w. I w \<Longrightarrow> I (g w)) \<Longrightarrow> keeps I (update_w env g)"
  unfolding update_w_def by (rule keeps_exec) auto

lemma keeps_each [keeps_rules]: "(\<And>x. x \<in> set xs \<Longrightarrow> keeps I (f x)) \<Longrightarrow> keeps I (each f xs)"
  by (induction xs) (auto intro: keeps_ok keeps_then_ok)

lemma stable_quiet [simp]: "relies (quiet env) I"
  by (simp add: relies_def)

lemma stable_calm [simp]: "relies (calm t) I"
  by (simp add: relies_def)

lemma keeps_in_tx:
  assumes "relies env I" and "\<And>w. I w \<Longrightarrow> wp (body (quiet env)) (\<lambda>r w1. case r of Rollback e \<Rightarrow> True | Commit a \<Rightarrow> I w1) w"
  shows "keeps I (in_tx env body)"
proof (rule keepsI, rule wp_in_tx)
  fix w n assume "I w"
  with assms(1) show I0: "I (interfere env n w)" by (simp add: relies_def)
  show "wp (body (quiet env)) (\<lambda>r w1. case r of Rollback e \<Rightarrow> I (interfere env n w) | Commit a \<Rightarrow> I w1 \<and> I w1) (interfere env n w)"
    using assms(2) [OF I0] I0 by (auto elim!: wp_mono split: tx_end.splits)
qed

text \<open>
  Inside a transaction nothing interferes: a query returns its value and changes nothing, an update that
  succeeds has exactly its effect.
\<close>

lemma wp_query_quiet: "wp (query (quiet env) f) (\<lambda>r w'. w' = w \<and> (\<forall>x. r = Inr x \<longrightarrow> x = f w)) w"
  by (rule wp_query) simp_all

lemma wp_update_quiet: "wp (update_w (quiet env) g) (\<lambda>r w'. r = Inr () \<longrightarrow> w' = g w) w"
  by (rule wp_update_w) simp_all

text \<open>
  \<open>closed_under step I\<close>: the condition is an invariant of the steps of a specification.  A transaction that commits
  only such steps keeps it.
\<close>

definition closed_under :: "('w \<Rightarrow> 'w \<Rightarrow> bool) \<Rightarrow> ('w \<Rightarrow> bool) \<Rightarrow> bool" where
  "closed_under step I \<longleftrightarrow> (\<forall>s s'. step s s' \<longrightarrow> I s \<longrightarrow> I s')"

lemma keeps_in_tx_steps:
  assumes "relies env I" "closed_under step I"
    and "\<And>s. I s \<Longrightarrow> wp (body (quiet env)) (\<lambda>r s'. case r of Rollback _ \<Rightarrow> True | Commit _ \<Rightarrow> step s s') s"
  shows "keeps I (in_tx env body)"
proof (rule keeps_in_tx [OF assms(1)])
  fix s assume I: "I s"
  show "wp (body (quiet env)) (\<lambda>r w1. case r of Rollback e \<Rightarrow> True | Commit a \<Rightarrow> I w1) s"
    by (rule wp_mono [OF assms(3) [OF I]]) (use assms(2) I in \<open>auto simp: closed_under_def split: tx_end.splits\<close>)
qed

section \<open>Invariants that read a part of the world\<close>

text \<open>\<open>reads v I\<close>: the condition \<open>I\<close> depends on the view \<open>v\<close> only, so what leaves the view alone keeps it.\<close>

definition reads :: "('w \<Rightarrow> 'v) \<Rightarrow> ('w \<Rightarrow> bool) \<Rightarrow> bool" where
  "reads v I \<longleftrightarrow> (\<forall>s s'. v s = v s' \<longrightarrow> I s \<longrightarrow> I s')"

lemma readsD: "reads v I \<Longrightarrow> I s \<Longrightarrow> v s' = v s \<Longrightarrow> I s'"
  unfolding reads_def by metis

lemma reads_conj: "reads v I \<Longrightarrow> reads v J \<Longrightarrow> reads v (\<lambda>s. I s \<and> J s)"
  unfolding reads_def by blast

lemma keeps_exec_reads:
  "relies env I \<Longrightarrow> reads v I \<Longrightarrow> (\<And>s. v (snd (opn s)) = v s) \<Longrightarrow> keeps I (exec env opn)"
  by (rule keeps_exec) (metis readsD snd_conv)+

lemma keeps_update_reads:
  "relies env I \<Longrightarrow> reads v I \<Longrightarrow> (\<And>s. v (g s) = v s) \<Longrightarrow> keeps I (update_w env g)"
  by (rule keeps_update) (metis readsD)+

text \<open>One element of a loop establishes a condition the others keep.\<close>

lemma wp_each_establish:
  assumes "\<And>y. y \<in> set xs \<Longrightarrow> keeps I (f y)" and "\<And>y. y \<in> set xs \<Longrightarrow> keeps P (f y)"
    and "\<And>w. I w \<Longrightarrow> wp (f x) (\<lambda>r s. r = Inr () \<longrightarrow> P s) w"
    and "I w" "x \<in> set xs \<or> P w"
  shows "wp (each f xs) (\<lambda>r s. r = Inr () \<longrightarrow> P s) w"
  using assms(1,2,4,5)
proof (induction xs arbitrary: w)
  case Nil
  then show ?case by (simp add: wp_ok)
next
  case (Cons y ys)
  have hd: "wp (f y) (\<lambda>r s. I s \<and> (r = Inr () \<longrightarrow> x \<in> set ys \<or> P s)) w"
  proof (rule wp_conj [OF keeps_wp])
    show "keeps I (f y)" "I w" using Cons.prems by auto
    show "wp (f y) (\<lambda>r s. r = Inr () \<longrightarrow> x \<in> set ys \<or> P s) w"
    proof (cases "x = y")
      case True
      show ?thesis by (rule wp_mono [OF assms(3) [OF \<open>I w\<close>, unfolded True]]) simp
    next
      case False
      show ?thesis
      proof (cases "P w")
        case True
        show ?thesis by (rule wp_mono [OF keeps_wp [OF Cons.prems(2) True]]) simp_all
      next
        case False
        with Cons.prems \<open>x \<noteq> y\<close> have "x \<in> set ys" by simp
        then show ?thesis by (intro wpI) simp
      qed
    qed
  qed
  show ?case
    unfolding each.simps
    by (rule wp_then_okI [OF hd]) (use Cons in auto)
qed

section \<open>Environments without failures\<close>

text \<open>Other processes may interfere, but every call succeeds.\<close>

definition reliable :: "'w env \<Rightarrow> bool" where
  "reliable env \<longleftrightarrow> (\<forall>n. fault env n = Up)"

lemma reliable_calm [simp]: "reliable (calm t)"
  by (simp add: reliable_def)

lemma wp_exec_up:
  assumes "reliable env" "relies env I" "I w"
    and "\<And>w' r w2. I w' \<Longrightarrow> opn w' = (r, w2) \<Longrightarrow> Q r w2"
  shows "wp (exec env opn) Q w"
proof (rule wpI)
  fix n a n' w'
  assume run: "run_state (exec env opn) (n, w) = (a, (n', w'))"
  obtain r w2 where o: "opn (interfere env n w) = (r, w2)" by (cases "opn (interfere env n w)")
  with assms(4) [OF _ o] assms(1-3) run show "Q a w'"
    by (auto simp: exec_def Let_def reliable_def relies_def)
qed

lemma wp_query_up:
  "reliable env \<Longrightarrow> relies env I \<Longrightarrow> I w \<Longrightarrow> (\<And>w'. I w' \<Longrightarrow> Q (Inr (f w')) w') \<Longrightarrow> wp (query env f) Q w"
  unfolding query_def by (rule wp_exec_up [where I = I]) auto

lemma wp_update_up:
  "reliable env \<Longrightarrow> relies env I \<Longrightarrow> I w \<Longrightarrow> (\<And>w'. I w' \<Longrightarrow> Q (Inr ()) (g w')) \<Longrightarrow> wp (update_w env g) Q w"
  unfolding update_w_def by (rule wp_exec_up [where I = I]) auto

lemma wp_in_tx_up:
  assumes "reliable env" "relies env I" "I w"
    and "\<And>w'. I w' \<Longrightarrow> wp (body (quiet env)) (\<lambda>r w1. case r of Rollback x \<Rightarrow> Q x w' | Commit x \<Rightarrow> Q x w1) w'"
  shows "wp (in_tx env body) Q w"
proof (rule wpI)
  fix n a n' w'
  assume run: "run_state (in_tx env body) (n, w) = (a, (n', w'))"
  let ?w0 = "interfere env n w"
  obtain r m w1 where b: "run_state (body (quiet env)) (Suc n, ?w0) = (r, (m, w1))"
    by (metis prod_cases3)
  have "I ?w0" using assms(2,3) by (simp add: relies_def)
  from wpD [OF assms(4) [OF this] b] run b assms(1) show "Q a w'"
    by (auto simp: in_tx_def Let_def reliable_def split: tx_end.splits)
qed

lemma reliable_quiet [simp]: "reliable (quiet env) = reliable env"
  by (simp add: reliable_def)

text \<open>Inside a transaction a successful query only reads.\<close>

lemma wp_query_quiet_up: "reliable env \<Longrightarrow> Q (Inr (f w)) w \<Longrightarrow> wp (query (quiet env) f) Q w"
  by (rule wp_query_up [where I = "\<lambda>w'. w' = w"]) simp_all

section \<open>Running a handler\<close>

text \<open>
  Rewrite rules that run a handler symbolically, one call at a time; the congruences keep the simplifier out
  of the continuations until their argument is known, so that a run takes time linear in the calls made.
\<close>

named_theorems run "running the primitives"
named_theorems lazy_cong "congruences that leave continuations alone"

lemma lazy_bind [lazy_cong]: "m = m' \<Longrightarrow> State_Monad.bind m k = State_Monad.bind m' k"
  by simp

lemma lazy_then_ok [lazy_cong]: "m = m' \<Longrightarrow> then_ok m k = then_ok m' k"
  by simp

lemma lazy_then_tx [lazy_cong]: "m = m' \<Longrightarrow> then_tx m k = then_tx m' k"
  by simp

lemma lazy_ignore [lazy_cong]: "m = m' \<Longrightarrow> ignore m n = ignore m' n"
  by simp

lemma run_exec [run]:
  "run_state (exec env opn) (n, w) = (case fault env n of
       Up \<Rightarrow> (case opn (interfere env n w) of (r, w2) \<Rightarrow> (r, (Suc n, w2)))
     | Down \<Rightarrow> (Inl IoErr, (Suc n, interfere env n w))
     | Lost \<Rightarrow> (case opn (interfere env n w) of (r, w2) \<Rightarrow> (Inl IoErr, (Suc n, w2))))"
  by (simp add: exec_def Let_def)

lemma run_in_tx [run]:
  "run_state (in_tx env body) (n, w) =
     (if fault env n \<noteq> Up then (Inl IoErr, (Suc n, interfere env n w))
      else case run_state (body (quiet env)) (Suc n, interfere env n w) of (e, (m, w1)) \<Rightarrow>
        (case e of
           Rollback r \<Rightarrow> (r, (m, interfere env n w))
         | Commit r \<Rightarrow> (case fault env m of
              Up \<Rightarrow> (r, (Suc m, w1))
            | Down \<Rightarrow> (Inl IoErr, (Suc m, interfere env n w))
            | Lost \<Rightarrow> (Inl IoErr, (Suc m, w1)))))"
  by (simp add: in_tx_def Let_def split: prod.split tx_end.split)

lemma run_bind [run]: "run_state (State_Monad.bind m k) c = (case run_state m c of (a, c') \<Rightarrow> run_state (k a) c')"
  by (cases m) simp

lemma run_clock [run]: "run_state (clock env) (n, w) = (clock_at env n, (Suc n, w))"
  by (simp add: clock_def)

lemma run_ok [run]: "run_state (ok a) c = (Inr a, c)"
  by (simp add: ok_def)

lemma run_err [run]: "run_state (err e) c = (Inl e, c)"
  by (simp add: err_def)

lemma run_then_ok [run]:
  "run_state (then_ok m k) c = (case run_state m c of (r, c') \<Rightarrow> (case r of Inl e \<Rightarrow> (Inl e, c') | Inr a \<Rightarrow> run_state (k a) c'))"
  by (simp add: then_ok_def run split: prod.split sum.split)

lemma run_then_tx [run]:
  "run_state (then_tx m k) c = (case run_state m c of (r, c') \<Rightarrow> (case r of Inl e \<Rightarrow> (Rollback (Inl e), c') | Inr a \<Rightarrow> run_state (k a) c'))"
  by (simp add: then_tx_def run split: prod.split sum.split)

lemma run_ignore [run]: "run_state (ignore m k) c = (case run_state m c of (_, c') \<Rightarrow> run_state k c')"
  by (simp add: ignore_def run)

lemmas run_calls = run query_def update_w_def Let_def

text \<open>Every call succeeds until the \<open>k\<close>-th, and none from then on.\<close>

definition fails_from :: "nat \<Rightarrow> int \<Rightarrow> 'w env" where
  "fails_from k t = (calm t)\<lparr>fault := \<lambda>n. if n < k then Up else Down\<rparr>"

lemma fails_from_simps [simp]:
  "interfere (fails_from k t) n w = w" "fault (fails_from k t) n = (if n < k then Up else Down)"
  "clock_at (fails_from k t) n = t" "quiet (fails_from k t) = fails_from k t"
  by (simp_all add: fails_from_def calm_def quiet_def)

lemma relies_undisturbed [simp]: "relies (calm t) I" "relies (fails_from k t) I"
  by (simp_all add: relies_def)

end
