(* ===== verification/Sql.thy ===== *)
theory Sql
  imports Prelude
begin

text \<open>
  The SQL statements of the source on tables represented as lists of rows in insertion order.  The
  definitions give the documented meaning of the statement forms the source uses: point selects, ordered
  and limited selects, updates with their affected-row count (MySQL counts rows that really change,
  the source's DSN does not set \<open>clientFoundRows\<close>), inserts checked against the table's unique keys,
  and \<open>INSERT ... ON DUPLICATE KEY UPDATE\<close>.
\<close>

definition upd :: "('r \<Rightarrow> bool) \<Rightarrow> ('r \<Rightarrow> 'r) \<Rightarrow> 'r list \<Rightarrow> 'r list" where
  "upd p f rows = map (\<lambda>r. if p r then f r else r) rows"

definition affected :: "('r \<Rightarrow> bool) \<Rightarrow> ('r \<Rightarrow> 'r) \<Rightarrow> 'r list \<Rightarrow> nat" where
  "affected p f rows = length (filter (\<lambda>r. p r \<and> f r \<noteq> r) rows)"

definition del :: "('r \<Rightarrow> bool) \<Rightarrow> 'r list \<Rightarrow> 'r list" where
  "del p rows = filter (\<lambda>r. \<not> p r) rows"

text \<open>A unique key is its name and the relation "these two rows have the same, non-null key".\<close>

type_synonym 'r unique_key = "string \<times> ('r \<Rightarrow> 'r \<Rightarrow> bool)"

definition clash :: "'r unique_key list \<Rightarrow> 'r \<Rightarrow> 'r list \<Rightarrow> string option" where
  "clash keys r rows = map_option fst (find (\<lambda>(_, same). list_ex (same r) rows) keys)"

definition ins :: "'r unique_key list \<Rightarrow> 'r \<Rightarrow> 'r list \<Rightarrow> gerr + 'r list" where
  "ins keys r rows = (case clash keys r rows of Some k \<Rightarrow> Inl (DupKey k) | None \<Rightarrow> Inr (rows @ [r]))"

text \<open>\<open>INSERT IGNORE\<close>\<close>

definition ins_ignore :: "'r unique_key list \<Rightarrow> 'r \<Rightarrow> 'r list \<Rightarrow> 'r list" where
  "ins_ignore keys r rows = (case clash keys r rows of Some _ \<Rightarrow> rows | None \<Rightarrow> rows @ [r])"

definition upsert :: "('r \<Rightarrow> 'r \<Rightarrow> bool) \<Rightarrow> ('r \<Rightarrow> 'r) \<Rightarrow> 'r \<Rightarrow> 'r list \<Rightarrow> 'r list" where
  "upsert same f r rows = (if list_ex (same r) rows then upd (same r) f rows else rows @ [r])"

text \<open>\<open>ORDER BY k ASC\<close> and \<open>ORDER BY k DESC\<close> (stable sorts; ties keep the insertion order).\<close>

definition order_asc :: "('r \<Rightarrow> 'k::linorder) \<Rightarrow> 'r list \<Rightarrow> 'r list" where
  "order_asc k rows = sort_key k rows"

definition order_desc :: "('r \<Rightarrow> 'k::linorder) \<Rightarrow> 'r list \<Rightarrow> 'r list" where
  "order_desc k rows = rev (sort_key k (rev rows))"

definition max_or_0 :: "int list \<Rightarrow> int" where
  "max_or_0 xs = (case xs of [] \<Rightarrow> 0 | _ \<Rightarrow> Max (set xs))"

section \<open>Updates\<close>

lemma length_upd [table_simps]: "length (upd p f rows) = length rows"
  by (simp add: upd_def)

lemma upd_Nil [table_simps]: "upd p f [] = []"
  by (simp add: upd_def)

lemma upd_Cons [table_simps]: "upd p f (r # rows) = (if p r then f r else r) # upd p f rows"
  by (simp add: upd_def)

lemma upd_append [table_simps]: "upd p f (xs @ ys) = upd p f xs @ upd p f ys"
  by (simp add: upd_def)

lemma set_upd [table_simps]: "set (upd p f rows) = (\<lambda>r. if p r then f r else r) ` set rows"
  by (simp add: upd_def)

lemma in_upd_iff: "x \<in> set (upd p f rows) \<longleftrightarrow> (\<exists>r\<in>set rows. x = (if p r then f r else r))"
  by (auto simp: upd_def)

lemma map_key_upd: "(\<And>r. r \<in> set rows \<Longrightarrow> p r \<Longrightarrow> key (f r) = key r) \<Longrightarrow> map key (upd p f rows) = map key rows"
  by (simp add: upd_def)

lemma upd_none: "(\<And>r. r \<in> set rows \<Longrightarrow> \<not> p r) \<Longrightarrow> upd p f rows = rows"
  by (induction rows) (simp_all add: upd_def)

lemma affected_none: "(\<And>r. r \<in> set rows \<Longrightarrow> \<not> p r) \<Longrightarrow> affected p f rows = 0"
  by (simp add: affected_def)

lemma affected_0_iff: "affected p f rows = 0 \<longleftrightarrow> (\<forall>r\<in>set rows. p r \<longrightarrow> f r = r)"
  by (auto simp: affected_def filter_empty_conv)

lemma affected_pos_iff: "0 < affected p f rows \<longleftrightarrow> (\<exists>r\<in>set rows. p r \<and> f r \<noteq> r)"
  by (auto simp: affected_def filter_empty_conv simp flip: length_greater_0_conv)

text \<open>With a primary key in the condition at most one row is affected.\<close>

lemma affected_by_key:
  assumes "distinct (map key rows)" and "x \<in> set rows" and "\<And>r. p r \<Longrightarrow> key r = key x"
  shows "affected p f rows = (if p x \<and> f x \<noteq> x then 1 else 0)"
  using assms(1,2)
proof (induction rows)
  case Nil
  then show ?case by simp
next
  case (Cons y ys)
  show ?case
  proof (cases "x = y")
    case True
    with Cons.prems assms(3) have "\<And>r. r \<in> set ys \<Longrightarrow> \<not> p r" by (force simp: image_iff)
    then have "filter (\<lambda>r. p r \<and> f r \<noteq> r) ys = []" by (simp add: filter_empty_conv)
    with True show ?thesis by (simp add: affected_def)
  next
    case False
    with Cons.prems have "key y \<noteq> key x" by (auto simp: image_iff)
    then have "\<not> p y" using assms(3) by blast
    with Cons False show ?thesis by (simp add: affected_def)
  qed
qed

lemma find_upd:
  assumes "\<And>r. r \<in> set rows \<Longrightarrow> p r \<Longrightarrow> q (f r) = q r"
  shows "find q (upd p f rows) = map_option (\<lambda>r. if p r then f r else r) (find q rows)"
  using assms by (induction rows) (auto simp: upd_def)

text \<open>The row of a key, in a table whose keys are distinct.\<close>

lemma find_key:
  "distinct (map key rows) \<Longrightarrow> x \<in> set rows \<Longrightarrow> find (\<lambda>r. key r = key x) rows = Some x"
  by (induction rows) (auto simp: image_iff)

lemma key_row_unique:
  "distinct (map key rows) \<Longrightarrow> x \<in> set rows \<Longrightarrow> y \<in> set rows \<Longrightarrow> key x = key y \<Longrightarrow> x = y"
  by (metis find_key option.inject)

lemma sum_upd_key:
  fixes g :: "'r \<Rightarrow> int"
  assumes "distinct (map key rows)" and "x \<in> set rows"
  shows "sum_list (map g (upd (\<lambda>r. key r = key x) f rows)) = sum_list (map g rows) - g x + g (f x)"
proof -
  have eq: "f r = f x" if "r \<in> set rows" "key r = key x" for r
    using key_row_unique [OF assms(1) that(1) assms(2) that(2)] by simp
  have "map g (upd (\<lambda>r. key r = key x) f rows) = map (\<lambda>r. if key r = key x then g (f x) else g r) rows"
    by (simp add: upd_def eq)
  then show ?thesis by (simp add: sum_list_update_one [OF assms])
qed

section \<open>Inserts\<close>

lemma clash_None_iff: "clash keys r rows = None \<longleftrightarrow> (\<forall>(k, same) \<in> set keys. \<forall>x \<in> set rows. \<not> same r x)"
  by (auto simp: clash_def find_None_iff_all list_ex_iff)

lemma ins_Inr_iff: "ins keys r rows = Inr rows' \<longleftrightarrow> clash keys r rows = None \<and> rows' = rows @ [r]"
  by (auto simp: ins_def split: option.splits)

lemma ins_Inl_D: "ins keys r rows = Inl e \<Longrightarrow> \<exists>k. e = DupKey k \<and> clash keys r rows = Some k"
  by (auto simp: ins_def split: option.splits)

lemma clash_Some_key: "clash keys r rows = Some k \<Longrightarrow> k \<in> fst ` set keys"
  by (force simp: clash_def dest!: find_Some_iff_in)

lemma clash_Some_D:
  "clash keys r rows = Some k \<Longrightarrow> \<exists>same x. (k, same) \<in> set keys \<and> x \<in> set rows \<and> same r x"
  by (auto simp: clash_def list_ex_iff dest!: find_Some_iff_in)

lemma set_ins_ignore: "set rows \<subseteq> set (ins_ignore keys r rows)"
  by (auto simp: ins_ignore_def split: option.splits)

lemma ins_distinct:
  assumes "ins keys r rows = Inr rows'" and "(k, \<lambda>a b. key a = key b) \<in> set keys" and "distinct (map key rows)"
  shows "distinct (map key rows')"
  using assms by (force simp: ins_Inr_iff clash_None_iff)

lemma map_key_upsert:
  assumes "\<And>a b. same a b \<longleftrightarrow> key a = key b" and "\<And>x. key (f x) = key x" and "distinct (map key rows)"
  shows "distinct (map key (upsert same f r rows))"
proof (cases "list_ex (same r) rows")
  case True
  then show ?thesis using assms by (simp add: upsert_def map_key_upd)
next
  case False
  then show ?thesis using assms by (auto simp: upsert_def list_ex_iff)
qed

section \<open>Orders and limits\<close>

lemma set_order_desc [simp]: "set (order_desc k rows) = set rows"
  by (simp add: order_desc_def)

lemma set_order_asc [simp]: "set (order_asc k rows) = set rows"
  by (simp add: order_asc_def)

lemma sorted_order_asc: "sorted (map k (order_asc k rows))"
  by (simp add: order_asc_def)

lemma sorted_order_desc: "sorted (map k (rev (order_desc k rows)))"
  by (simp add: order_desc_def)

lemma max_or_0_ge: "x \<in> set xs \<Longrightarrow> x \<le> max_or_0 xs"
  by (cases xs) (auto simp: max_or_0_def)

lemma max_or_0_in: "max_or_0 xs \<in> insert 0 (set xs)"
proof (cases xs)
  case Nil
  then show ?thesis by (simp add: max_or_0_def)
next
  case (Cons a list)
  have "Max (set xs) \<in> set xs" by (rule Max_in) (use Cons in auto)
  with Cons show ?thesis by (simp add: max_or_0_def)
qed

lemma order_desc_filter: "order_desc k (filter P rows) = filter P (order_desc k rows)"
  by (simp add: order_desc_def filter_sort rev_filter [symmetric])

text \<open>In a strictly descending list, the rows before a key are those after its row.\<close>

lemma filter_below:
  assumes "sorted_wrt (\<lambda>a b. k b < k a) ys" "i < length ys"
  shows "filter (\<lambda>r. k r < (k (ys ! i) :: 'k::linorder)) ys = drop (Suc i) ys"
  using assms
proof (induction ys arbitrary: i)
  case (Cons y ys)
  show ?case
  proof (cases i)
    case 0
    with Cons.prems show ?thesis by (auto simp: filter_id_conv)
  next
    case (Suc j)
    with Cons.prems have j: "j < length ys" by simp
    have "k (ys ! j) < k y" using Cons.prems(1) nth_mem [OF j] by simp
    then have "\<not> k y < k (ys ! j)" by (rule less_not_sym)
    moreover have "filter (\<lambda>r. k r < k (ys ! j)) ys = drop (Suc j) ys" by (rule Cons.IH [OF _ j]) (use Cons.prems in simp)
    ultimately show ?thesis by (simp add: Suc)
  qed
qed simp

lemma order_desc_strict:
  assumes "distinct (map k rows)"
  shows "sorted_wrt (\<lambda>a b. k b < (k a :: 'k::linorder)) (order_desc k rows)"
proof -
  have "sorted (map k (sort_key k (rev rows)))" "distinct (map k (sort_key k (rev rows)))"
    using assms by (simp_all add: distinct_map)
  then have "sorted_wrt (<) (map k (sort_key k (rev rows)))" by (simp add: strict_sorted_iff)
  then show ?thesis by (simp add: order_desc_def sorted_wrt_rev sorted_wrt_map)
qed

lemma order_asc_rev_desc:
  assumes "distinct (map k rows)"
  shows "order_asc k rows = rev (order_desc k (rows :: 'r list))"
proof -
  have "inj_on k (set rows)" using assms by (simp add: distinct_map)
  then show ?thesis
    using assms
    by (intro map_sorted_distinct_set_unique [where f = k]) (auto simp: order_asc_def order_desc_def distinct_map)
qed

text \<open>What a run unfolds.\<close>

lemmas sql_run [exec_defs] =
  upd_def affected_def del_def clash_def ins_def ins_ignore_def upsert_def order_asc_def
  order_desc_def max_or_0_def

end
