(* ===== verification/Redis_Store.thy ===== *)
theory Redis_Store
  imports Prelude "HOL-Library.Product_Lexorder"
begin

text \<open>
  The Redis keys the program uses, by type of value, and the commands it issues on them.  The key
  families of the source start with different words, so no key is used with two types.  A value is a text, a
  decimal number, or the JSON text of a \<open>clientMessageRecord\<close>, which is represented by the record.
  A sorted set is the list of its (score, member) pairs in Redis's order, by score and then by
  member.  Expiry is not a command of the store: a key that expires is a change made by the environment.
\<close>

record client_message_record =
  rec_MessageID :: string
  rec_ClientMsgID :: string
  rec_SessionID :: string
  rec_Seq :: int
  rec_TraceID :: string
  rec_Status :: string

datatype rvalue = Txt string | Num int | Rec client_message_record

record redis =
  strs :: "string \<Rightarrow> rvalue option"
  hashes :: "string \<Rightarrow> string \<Rightarrow> rvalue option"
  zsets :: "string \<Rightarrow> (int \<times> string) list"
  rsets :: "string \<Rightarrow> string list"

definition empty_redis :: redis where
  "empty_redis = \<lparr>strs = \<lambda>_. None, hashes = \<lambda>_ _. None, zsets = \<lambda>_. [], rsets = \<lambda>_. []\<rparr>"

section \<open>Strings\<close>

definition r_set :: "string \<Rightarrow> rvalue \<Rightarrow> redis \<Rightarrow> redis" where
  "r_set k v r = r\<lparr>strs := (strs r)(k := Some v)\<rparr>"

definition r_setnx :: "string \<Rightarrow> rvalue \<Rightarrow> redis \<Rightarrow> bool \<times> redis" where
  "r_setnx k v r = (if strs r k = None then (True, r_set k v r) else (False, r))"

definition r_setxx :: "string \<Rightarrow> rvalue \<Rightarrow> redis \<Rightarrow> redis" where
  "r_setxx k v r = (if strs r k = None then r else r_set k v r)"

definition r_del :: "string \<Rightarrow> redis \<Rightarrow> redis" where
  "r_del k r = r\<lparr>strs := (strs r)(k := None)\<rparr>"

text \<open>\<open>INCR\<close>: a missing key counts as 0; a value that is no number is an error.\<close>

definition r_incr :: "string \<Rightarrow> redis \<Rightarrow> (gerr + int) \<times> redis" where
  "r_incr k r = (case strs r k of
      None \<Rightarrow> (Inr 1, r_set k (Num 1) r)
    | Some (Num n) \<Rightarrow> if n < 2 ^ 63 - 1 then (Inr (n + 1), r_set k (Num (n + 1)) r)
                      else (Inl (Msg ''ERR increment or decrement would overflow''), r)
    | Some _ \<Rightarrow> (Inl (Msg ''ERR value is not an integer or out of range''), r))"

section \<open>Hashes\<close>

definition r_hset :: "string \<Rightarrow> string \<Rightarrow> rvalue \<Rightarrow> redis \<Rightarrow> redis" where
  "r_hset k f v r = r\<lparr>hashes := (hashes r)(k := (hashes r k)(f := Some v))\<rparr>"

definition r_hsetnx :: "string \<Rightarrow> string \<Rightarrow> rvalue \<Rightarrow> redis \<Rightarrow> redis" where
  "r_hsetnx k f v r = (if hashes r k f = None then r_hset k f v r else r)"

definition r_hdel :: "string \<Rightarrow> string \<Rightarrow> redis \<Rightarrow> redis" where
  "r_hdel k f r = r\<lparr>hashes := (hashes r)(k := (hashes r k)(f := None))\<rparr>"

definition r_hincrby :: "string \<Rightarrow> string \<Rightarrow> int \<Rightarrow> redis \<Rightarrow> (gerr + int) \<times> redis" where
  "r_hincrby k f d r = (case hashes r k f of
      None \<Rightarrow> (Inr d, r_hset k f (Num d) r)
    | Some (Num n) \<Rightarrow> (Inr (n + d), r_hset k f (Num (n + d)) r)
    | Some _ \<Rightarrow> (Inl (Msg ''ERR hash value is not an integer''), r))"

section \<open>Sorted sets\<close>

definition z_put :: "int \<Rightarrow> string \<Rightarrow> (int \<times> string) list \<Rightarrow> (int \<times> string) list" where
  "z_put s m z = insort (s, m) (filter (\<lambda>x. snd x \<noteq> m) z)"

definition z_score :: "string \<Rightarrow> (int \<times> string) list \<Rightarrow> int option" where
  "z_score m z = map_option fst (find (\<lambda>x. snd x = m) z)"

definition r_zadd :: "string \<Rightarrow> int \<Rightarrow> string \<Rightarrow> redis \<Rightarrow> redis" where
  "r_zadd k s m r = r\<lparr>zsets := (zsets r)(k := z_put s m (zsets r k))\<rparr>"

definition r_zadd_nx :: "string \<Rightarrow> int \<Rightarrow> string \<Rightarrow> redis \<Rightarrow> redis" where
  "r_zadd_nx k s m r = (if z_score m (zsets r k) = None then r_zadd k s m r else r)"

definition r_zadd_gt :: "string \<Rightarrow> int \<Rightarrow> string \<Rightarrow> redis \<Rightarrow> redis" where
  "r_zadd_gt k s m r = (case z_score m (zsets r k) of
      None \<Rightarrow> r_zadd k s m r
    | Some old \<Rightarrow> if old < s then r_zadd k s m r else r)"

definition r_zrem :: "string \<Rightarrow> string \<Rightarrow> redis \<Rightarrow> redis" where
  "r_zrem k m r = r\<lparr>zsets := (zsets r)(k := filter (\<lambda>x. snd x \<noteq> m) (zsets r k))\<rparr>"

definition r_zrange :: "string \<Rightarrow> redis \<Rightarrow> string list" where
  "r_zrange k r = map snd (zsets r k)"

text \<open>\<open>ZRANGEBYSCORE k (lo +inf LIMIT 0 n\<close> and \<open>ZRANGEBYSCORE k -inf hi LIMIT 0 n\<close>.\<close>

definition r_zrange_above :: "string \<Rightarrow> int \<Rightarrow> nat \<Rightarrow> redis \<Rightarrow> string list" where
  "r_zrange_above k lo n r = take n (map snd (filter (\<lambda>x. lo < fst x) (zsets r k)))"

definition r_zrange_upto :: "string \<Rightarrow> int \<Rightarrow> nat \<Rightarrow> redis \<Rightarrow> string list" where
  "r_zrange_upto k hi n r = take n (map snd (filter (\<lambda>x. fst x \<le> hi) (zsets r k)))"

text \<open>\<open>ZREVRANGE k 0 n-1 WITHSCORES\<close>.\<close>

definition r_zrevrange :: "string \<Rightarrow> nat \<Rightarrow> redis \<Rightarrow> (int \<times> string) list" where
  "r_zrevrange k n r = take n (rev (zsets r k))"

section \<open>Sets\<close>

definition r_sadd :: "string \<Rightarrow> string \<Rightarrow> redis \<Rightarrow> redis" where
  "r_sadd k m r = r\<lparr>rsets := (rsets r)(k := List.insert m (rsets r k))\<rparr>"

definition r_srem :: "string \<Rightarrow> string \<Rightarrow> redis \<Rightarrow> redis" where
  "r_srem k m r = r\<lparr>rsets := (rsets r)(k := filter (\<lambda>x. x \<noteq> m) (rsets r k))\<rparr>"

section \<open>Reads after writes\<close>

lemma strs_simps [redis_simps]:
  "strs (r_set k v r) = (strs r)(k := Some v)"
  "strs (r_del k r) = (strs r)(k := None)"
  "strs (r_hset hk f v r) = strs r"
  "strs (r_hsetnx hk f v r) = strs r"
  "strs (r_hdel hk f r) = strs r"
  "strs (r_zadd zk s m r) = strs r"
  "strs (r_zadd_nx zk s m r) = strs r"
  "strs (r_zadd_gt zk s m r) = strs r"
  "strs (r_zrem zk m r) = strs r"
  "strs (r_sadd sk m r) = strs r"
  "strs (r_srem sk m r) = strs r"
  by (simp_all add: r_set_def r_del_def r_hset_def r_hsetnx_def r_hdel_def r_zadd_def r_zadd_nx_def
      r_zadd_gt_def r_zrem_def r_sadd_def r_srem_def split: option.split)

lemma hashes_simps [redis_simps]:
  "hashes (r_set k v r) = hashes r"
  "hashes (r_setxx k v r) = hashes r"
  "hashes (snd (r_setnx k v r)) = hashes r"
  "hashes (r_del k r) = hashes r"
  "hashes (r_hset hk f v r) = (hashes r)(hk := (hashes r hk)(f := Some v))"
  "hashes (r_hdel hk f r) = (hashes r)(hk := (hashes r hk)(f := None))"
  "hashes (r_zadd zk s m r) = hashes r"
  "hashes (r_zadd_nx zk s m r) = hashes r"
  "hashes (r_zadd_gt zk s m r) = hashes r"
  "hashes (r_zrem zk m r) = hashes r"
  "hashes (r_sadd sk m r) = hashes r"
  "hashes (r_srem sk m r) = hashes r"
  by (simp_all add: r_set_def r_setxx_def r_setnx_def r_del_def r_hset_def r_hdel_def r_zadd_def r_zadd_nx_def
      r_zadd_gt_def r_zrem_def r_sadd_def r_srem_def split: option.split)

lemma zsets_simps [redis_simps]:
  "zsets (r_set k v r) = zsets r"
  "zsets (r_setxx k v r) = zsets r"
  "zsets (snd (r_setnx k v r)) = zsets r"
  "zsets (r_del k r) = zsets r"
  "zsets (r_hset hk f v r) = zsets r"
  "zsets (r_hsetnx hk f v r) = zsets r"
  "zsets (r_hdel hk f r) = zsets r"
  "zsets (r_zadd zk s m r) = (zsets r)(zk := z_put s m (zsets r zk))"
  "zsets (r_zrem zk m r) = (zsets r)(zk := filter (\<lambda>x. snd x \<noteq> m) (zsets r zk))"
  "zsets (r_sadd sk m r) = zsets r"
  "zsets (r_srem sk m r) = zsets r"
  by (simp_all add: r_set_def r_setxx_def r_setnx_def r_del_def r_hset_def r_hsetnx_def r_hdel_def r_zadd_def
      r_zrem_def r_sadd_def r_srem_def)

lemma rsets_simps [redis_simps]:
  "rsets (r_set k v r) = rsets r"
  "rsets (r_setxx k v r) = rsets r"
  "rsets (r_del k r) = rsets r"
  "rsets (r_hset hk f v r) = rsets r"
  "rsets (r_hsetnx hk f v r) = rsets r"
  "rsets (r_hdel hk f r) = rsets r"
  "rsets (r_zadd zk s m r) = rsets r"
  "rsets (r_zadd_nx zk s m r) = rsets r"
  "rsets (r_zrem zk m r) = rsets r"
  "rsets (r_sadd sk m r) = (rsets r)(sk := List.insert m (rsets r sk))"
  "rsets (r_srem sk m r) = (rsets r)(sk := filter (\<lambda>x. x \<noteq> m) (rsets r sk))"
  by (simp_all add: r_set_def r_setxx_def r_del_def r_hset_def r_hsetnx_def r_hdel_def r_zadd_def r_zadd_nx_def
      r_zrem_def r_sadd_def r_srem_def)

lemma set_z_put [redis_simps]: "set (z_put s m z) = insert (s, m) {x \<in> set z. snd x \<noteq> m}"
  by (auto simp: z_put_def set_insort_key)

lemma z_score_None_iff: "z_score m z = None \<longleftrightarrow> m \<notin> snd ` set z"
  by (auto simp: z_score_def find_None_iff_all)

text \<open>Well-formed sorted sets: in order, each member once.\<close>

definition z_ok :: "(int \<times> string) list \<Rightarrow> bool" where
  "z_ok z \<longleftrightarrow> sorted z \<and> distinct (map snd z)"

lemma z_ok_Nil [simp]: "z_ok []"
  by (simp add: z_ok_def)

lemma z_ok_filter: "z_ok z \<Longrightarrow> z_ok (filter p z)"
  by (simp add: z_ok_def distinct_map_filter sorted_filter [where f = id, simplified])

lemma distinct_snd_insort: "distinct (map snd (insort x z)) \<longleftrightarrow> snd x \<notin> snd ` set z \<and> distinct (map snd z)"
  by (induction z) (auto simp: set_insort_key)

lemma z_ok_put: "z_ok z \<Longrightarrow> z_ok (z_put s m z)"
  using z_ok_filter [of z "\<lambda>x. snd x \<noteq> m"]
  by (auto simp: z_ok_def z_put_def distinct_snd_insort sorted_insort)

text \<open>What a run unfolds.\<close>

lemmas redis_store_run [exec_defs] =
  empty_redis_def r_set_def r_setnx_def r_setxx_def r_del_def r_incr_def r_hset_def r_hsetnx_def
  r_hdel_def r_hincrby_def z_put_def z_score_def r_zadd_def r_zadd_nx_def r_zadd_gt_def r_zrem_def
  r_zrange_def r_zrange_above_def r_zrange_upto_def r_zrevrange_def r_sadd_def r_srem_def

end
