(* ===== verification/Go_Text.thy ===== *)
theory Go_Text
  imports Prelude
begin

text \<open>
  The parts of Go's \<open>strings\<close>, \<open>unicode/utf8\<close>, \<open>strconv\<close> and \<open>encoding/base64\<close> packages the source uses.
  A Go string is a sequence of bytes, here a \<^typ>\<open>string\<close> whose characters are the bytes.
\<close>

section \<open>Prefixes and white space\<close>

definition bytes :: "nat list \<Rightarrow> string" where
  "bytes ns = map char_of ns"

definition has_prefix :: "string \<Rightarrow> string \<Rightarrow> bool" where
  "has_prefix s p = prefix p s"

definition trim_prefix :: "string \<Rightarrow> string \<Rightarrow> string" where
  "trim_prefix s p = (if has_prefix s p then drop (length p) s else s)"

text \<open>The UTF-8 encodings of the characters \<open>unicode.IsSpace\<close> accepts.\<close>

definition ws_runes :: "string list" where
  "ws_runes = map bytes
     ([[9], [10], [11], [12], [13], [32], [194, 133], [194, 160], [225, 154, 128]]
      @ map (\<lambda>b. [226, 128, b]) ([128..<139] @ [168, 169, 175])
      @ [[226, 129, 159], [227, 128, 128]])"

definition strip_ws :: "string list \<Rightarrow> string \<Rightarrow> string option" where
  "strip_ws ws s = map_option (\<lambda>p. drop (length p) s) (find (\<lambda>p. p \<noteq> [] \<and> prefix p s) ws)"

lemma strip_ws_shorter: "strip_ws ws s = Some r \<Longrightarrow> length r < length s"
  by (fastforce simp: strip_ws_def prefix_def dest!: find_Some_iff_in)

function trim_left :: "string list \<Rightarrow> string \<Rightarrow> string" where
  "trim_left ws s = (case strip_ws ws s of None \<Rightarrow> s | Some r \<Rightarrow> trim_left ws r)"
  by pat_completeness auto
termination
  by (relation "measure (\<lambda>(ws, s). length s)") (auto dest: strip_ws_shorter)

declare trim_left.simps [simp del]

definition trim_right :: "string list \<Rightarrow> string \<Rightarrow> string" where
  "trim_right ws s = rev (trim_left (map rev ws) (rev s))"

text \<open>\<open>strings.TrimSpace\<close>\<close>

definition trim_space :: "string \<Rightarrow> string" where
  "trim_space s = trim_right ws_runes (trim_left ws_runes s)"

lemma trim_left_Nil [simp]: "trim_left ws [] = []"
  by (subst trim_left.simps) (auto simp: strip_ws_def find_None_iff split: option.splits
      dest: find_Some_iff_in)

lemma trim_space_Nil [simp]: "trim_space [] = []"
  by (simp add: trim_space_def trim_right_def)

lemma trim_left_fixed: "strip_ws ws (trim_left ws s) = None"
proof (induction ws s rule: trim_left.induct)
  case (1 ws s)
  show ?case
    by (subst trim_left.simps) (simp add: 1 split: option.split)
qed

lemma trim_left_idem [simp]: "trim_left ws (trim_left ws s) = trim_left ws s"
  by (subst trim_left.simps) (simp add: trim_left_fixed)

lemma trim_left_suffix: "\<exists>p. s = p @ trim_left ws s"
proof (induction ws s rule: trim_left.induct)
  case (1 ws s)
  show ?case
  proof (cases "strip_ws ws s")
    case None
    then show ?thesis by (subst trim_left.simps) simp
  next
    case (Some r)
    then obtain k where "r = drop k s" by (auto simp: strip_ws_def)
    moreover obtain p where "r = p @ trim_left ws r" using 1 [OF Some] by blast
    ultimately have "s = (take k s @ p) @ trim_left ws r"
      using append_take_drop_id [of k s] by (metis append_assoc)
    moreover have "trim_left ws s = trim_left ws r" using Some by (subst trim_left.simps) simp
    ultimately show ?thesis by metis
  qed
qed

lemma trim_space_length: "length (trim_space s) \<le> length s"
proof -
  have le: "length (trim_left ws t) \<le> length t" for ws t
    using trim_left_suffix [of t ws] by (metis length_append le_add2)
  show ?thesis
    using le [of "map rev ws_runes" "rev (trim_left ws_runes s)"] le [of ws_runes s]
    by (simp add: trim_space_def trim_right_def)
qed

lemma strip_ws_prefix: "strip_ws ws (s @ t) = None \<Longrightarrow> strip_ws ws s = None"
  by (auto simp: strip_ws_def find_None_iff_all)

lemma trim_right_prefix: "\<exists>q. s = trim_right ws s @ q"
proof -
  obtain p where "rev s = p @ trim_left (map rev ws) (rev s)" using trim_left_suffix by blast
  then have "s = rev (trim_left (map rev ws) (rev s)) @ rev p" by (metis rev_append rev_rev_ident)
  then show ?thesis unfolding trim_right_def by blast
qed

lemma trim_space_idem [simp]: "trim_space (trim_space s) = trim_space s"
proof -
  let ?l = "trim_left ws_runes s"
  obtain q where "?l = trim_right ws_runes ?l @ q" using trim_right_prefix by blast
  then have "strip_ws ws_runes (trim_right ws_runes ?l) = None"
    using trim_left_fixed [of ws_runes s] by (metis strip_ws_prefix)
  then have "trim_left ws_runes (trim_right ws_runes ?l) = trim_right ws_runes ?l"
    by (subst trim_left.simps) simp
  then show ?thesis by (simp add: trim_space_def trim_right_def)
qed

text \<open>Text of printable ASCII characters has nothing to trim.\<close>

definition graphic :: "char \<Rightarrow> bool" where
  "graphic c \<longleftrightarrow> 33 \<le> (of_char c :: nat) \<and> (of_char c :: nat) < 127"

lemma ws_runes_not_graphic: "\<forall>p\<in>set ws_runes. p \<noteq> [] \<and> \<not> graphic (hd p) \<and> \<not> graphic (hd (rev p))"
  by (simp add: ws_runes_def bytes_def graphic_def upt_rec)

lemma strip_ws_graphic:
  assumes "\<forall>p\<in>set ws. p \<noteq> [] \<longrightarrow> \<not> graphic (hd p)" "s \<noteq> [] \<Longrightarrow> graphic (hd s)"
  shows "strip_ws ws s = None"
proof -
  have "\<not> prefix p s" if "p \<in> set ws" "p \<noteq> []" for p
    using assms that by (cases p; cases s) auto
  then show ?thesis by (auto simp: strip_ws_def find_None_iff_all)
qed

lemma trim_space_graphic: "(s \<noteq> [] \<Longrightarrow> graphic (hd s) \<and> graphic (last s)) \<Longrightarrow> trim_space s = s"
proof -
  assume g: "s \<noteq> [] \<Longrightarrow> graphic (hd s) \<and> graphic (last s)"
  have "strip_ws ws_runes s = None"
    by (rule strip_ws_graphic) (use g ws_runes_not_graphic in auto)
  moreover have "strip_ws (map rev ws_runes) (rev s) = None"
    by (rule strip_ws_graphic) (use g ws_runes_not_graphic in \<open>auto simp: hd_rev\<close>)
  ultimately show ?thesis
    by (simp add: trim_space_def trim_right_def trim_left.simps [of ws_runes s] trim_left.simps [of _ "rev s"])
qed

section \<open>Case\<close>

text \<open>
  \<open>strings.ToLower\<close> and \<open>strings.ToUpper\<close>: ASCII letters, and for \<open>ToLower\<close> the two non-ASCII letters
  whose lower case is ASCII (U+212A and U+0130).  The callers compare the result with ASCII constants, which
  no other non-ASCII letter can produce; such letters are left as they are.
\<close>

definition lower_char :: "char \<Rightarrow> char" where
  "lower_char c = (let n = of_char c :: nat in if 65 \<le> n \<and> n \<le> 90 then char_of (n + 32) else c)"

definition upper_char :: "char \<Rightarrow> char" where
  "upper_char c = (let n = of_char c :: nat in if 97 \<le> n \<and> n \<le> 122 then char_of (n - 32) else c)"

fun to_lower :: "string \<Rightarrow> string" where
  "to_lower (a # b # c # s) =
     (if [a, b, c] = bytes [226, 132, 170] then CHR ''k'' # to_lower s
      else if [a, b] = bytes [196, 176] then CHR ''i'' # to_lower (c # s)
      else lower_char a # to_lower (b # c # s))"
| "to_lower [a, b] = (if [a, b] = bytes [196, 176] then [CHR ''i''] else [lower_char a, lower_char b])"
| "to_lower [a] = [lower_char a]"
| "to_lower [] = []"

definition to_upper :: "string \<Rightarrow> string" where
  "to_upper s = map upper_char s"

section \<open>Runes\<close>

text \<open>
  The size in bytes of the first rune of a non-empty string as \<open>utf8.DecodeRuneInString\<close> finds it:
  an invalid or truncated sequence is one rune of one byte.
\<close>

definition cont_byte :: "nat \<Rightarrow> bool" where
  "cont_byte b \<longleftrightarrow> 128 \<le> b \<and> b \<le> 191"

fun rune_size :: "nat list \<Rightarrow> nat" where
  "rune_size [] = 0"
| "rune_size (a # bs) =
     (if a < 128 then 1
      else if 194 \<le> a \<and> a \<le> 223 then
        (case bs of b # _ \<Rightarrow> (if cont_byte b then 2 else 1) | _ \<Rightarrow> 1)
      else if 224 \<le> a \<and> a \<le> 239 then
        (case bs of b # c # _ \<Rightarrow>
           (if (if a = 224 then 160 \<le> b \<and> b \<le> 191 else if a = 237 then 128 \<le> b \<and> b \<le> 159 else cont_byte b)
               \<and> cont_byte c then 3 else 1) | _ \<Rightarrow> 1)
      else if 240 \<le> a \<and> a \<le> 244 then
        (case bs of b # c # d # _ \<Rightarrow>
           (if (if a = 240 then 144 \<le> b \<and> b \<le> 191 else if a = 244 then 128 \<le> b \<and> b \<le> 143 else cont_byte b)
               \<and> cont_byte c \<and> cont_byte d then 4 else 1) | _ \<Rightarrow> 1)
      else 1)"

lemma rune_size_pos: "xs \<noteq> [] \<Longrightarrow> 0 < rune_size xs"
  by (cases xs) (auto split: list.splits)

text \<open>\<open>utf8.RuneCountInString\<close>\<close>

function rune_count_bytes :: "nat list \<Rightarrow> nat" where
  "rune_count_bytes xs =
     (if xs = [] then 0 else Suc (rune_count_bytes (drop (rune_size xs) xs)))"
  by pat_completeness auto
termination
  by (relation "measure length") (auto simp: rune_size_pos)

declare rune_count_bytes.simps [simp del]

definition rune_count :: "string \<Rightarrow> nat" where
  "rune_count s = rune_count_bytes (map of_char s)"

text \<open>\<open>utf8.ValidString\<close>, the check MySQL's \<open>utf8mb4\<close> columns make: no one-byte rune at a byte \<open>\<ge> 128\<close>.\<close>

function valid_utf8_bytes :: "nat list \<Rightarrow> bool" where
  "valid_utf8_bytes xs =
     (if xs = [] then True
      else (hd xs < 128 \<or> 1 < rune_size xs) \<and> valid_utf8_bytes (drop (rune_size xs) xs))"
  by pat_completeness auto
termination
  by (relation "measure length") (auto simp: rune_size_pos)

declare valid_utf8_bytes.simps [simp del]

definition valid_utf8 :: "string \<Rightarrow> bool" where
  "valid_utf8 s = valid_utf8_bytes (map of_char s)"

lemma rune_count_bytes_le: "rune_count_bytes xs \<le> length xs"
proof (induction xs rule: rune_count_bytes.induct)
  case (1 xs)
  show ?case
  proof (cases "xs = []")
    case True
    then show ?thesis by (subst rune_count_bytes.simps) simp
  next
    case False
    with rune_size_pos have "0 < rune_size xs" by blast
    with 1 [OF False] False have "Suc (rune_count_bytes (drop (rune_size xs) xs)) \<le> length xs"
      by (cases xs) auto
    with False show ?thesis by (subst rune_count_bytes.simps) simp
  qed
qed

lemma rune_count_le_length: "rune_count s \<le> length s"
  using rune_count_bytes_le [of "map of_char s"] by (simp add: rune_count_def)

section \<open>Numbers as text\<close>

text \<open>\<open>strconv.FormatInt(n, 10)\<close> and the \<open>%d\<close> verb.\<close>

fun digits_of :: "nat \<Rightarrow> string" where
  "digits_of n = (if n < 10 then [char_of (48 + n)] else digits_of (n div 10) @ [char_of (48 + n mod 10)])"

declare digits_of.simps [simp del]

definition itoa :: "int \<Rightarrow> string" where
  "itoa n = (if n < 0 then CHR ''-'' # digits_of (nat (- n)) else digits_of (nat n))"

definition digit_val :: "char \<Rightarrow> nat option" where
  "digit_val c = (let n = of_char c :: nat in if 48 \<le> n \<and> n \<le> 57 then Some (n - 48) else None)"

text \<open>A run of decimal digits, read left to right.\<close>

fun read_digits :: "nat \<Rightarrow> string \<Rightarrow> nat option" where
  "read_digits acc [] = Some acc"
| "read_digits acc (c # cs) =
     (case digit_val c of None \<Rightarrow> None | Some d \<Rightarrow> read_digits (10 * acc + d) cs)"

text \<open>\<open>strconv.ParseInt(s, 10, 64)\<close>: an optional sign, at least one digit, in range; \<open>None\<close> is the error.\<close>

definition parse_int :: "string \<Rightarrow> int option" where
  "parse_int s =
     (let (neg, body) = (case s of c # cs \<Rightarrow> if c = CHR ''-'' then (True, cs)
                                             else if c = CHR ''+'' then (False, cs) else (False, s)
                                  | [] \<Rightarrow> (False, []))
      in if body = [] then None
         else case read_digits 0 body of
                None \<Rightarrow> None
              | Some n \<Rightarrow> (let v = (if neg then - int n else int n)
                          in if in_i64 v then Some v else None))"

lemma digit_val_digit: "d < 10 \<Longrightarrow> digit_val (char_of (48 + d)) = Some d"
  by (simp add: digit_val_def)

lemma read_digits_append:
  "read_digits acc (xs @ ys) = (case read_digits acc xs of None \<Rightarrow> None | Some a \<Rightarrow> read_digits a ys)"
  by (induction acc xs rule: read_digits.induct) (auto split: option.splits)

lemma read_digits_of: "read_digits 0 (digits_of n) = Some n"
proof (induction n rule: digits_of.induct)
  case (1 n)
  show ?case
  proof (cases "n < 10")
    case True
    then show ?thesis by (subst digits_of.simps) (simp add: digit_val_digit)
  next
    case False
    then show ?thesis
      by (subst digits_of.simps)
         (simp add: 1 read_digits_append digit_val_digit)
  qed
qed

lemma digits_of_Cons: "\<exists>c cs. digits_of n = c # cs \<and> digit_val c \<noteq> None"
proof (induction n rule: digits_of.induct)
  case (1 n)
  show ?case
  proof (cases "n < 10")
    case True
    then show ?thesis by (subst digits_of.simps) (simp add: digit_val_digit)
  next
    case False
    with 1 obtain c cs where "digits_of (n div 10) = c # cs" "digit_val c \<noteq> None" by blast
    with False show ?thesis by (subst digits_of.simps) simp
  qed
qed

lemma parse_int_itoa: "in_i64 n \<Longrightarrow> parse_int (itoa n) = Some n"
proof -
  assume r: "in_i64 n"
  obtain c cs where d: "digits_of (nat n) = c # cs" and c: "digit_val c \<noteq> None"
    using digits_of_Cons by blast
  have "c \<noteq> CHR ''-''" "c \<noteq> CHR ''+''" using c by (auto simp: digit_val_def)
  moreover have "digits_of (nat (- n)) \<noteq> []" using digits_of_Cons [of "nat (- n)"] by auto
  ultimately show ?thesis
    using r d read_digits_of [of "nat n"] read_digits_of [of "nat (- n)"]
    by (auto simp: parse_int_def itoa_def Let_def)
qed

lemma itoa_inject: "in_i64 a \<Longrightarrow> in_i64 b \<Longrightarrow> itoa a = itoa b \<Longrightarrow> a = b"
  by (metis option.inject parse_int_itoa)

section \<open>Searching and splitting\<close>

text \<open>\<open>strings.Contains\<close>\<close>

fun contains_sub :: "string \<Rightarrow> string \<Rightarrow> bool" where
  "contains_sub [] t = (t = [])"
| "contains_sub (c # s) t = (prefix t (c # s) \<or> contains_sub s t)"

text \<open>\<open>strings.Split(s, sep)\<close> for a separator of one byte.\<close>

fun split_on :: "char \<Rightarrow> string \<Rightarrow> string list" where
  "split_on d [] = [[]]"
| "split_on d (c # s) =
     (if c = d then [] # split_on d s
      else case split_on d s of [] \<Rightarrow> [[c]] | x # xs \<Rightarrow> (c # x) # xs)"

text \<open>\<open>strings.Join(xs, sep)\<close>\<close>

fun join_with :: "string \<Rightarrow> string list \<Rightarrow> string" where
  "join_with sep [] = []"
| "join_with sep [x] = x"
| "join_with sep (x # y # ys) = x @ sep @ join_with sep (y # ys)"

lemma contains_sub_append: "contains_sub (a @ t @ b) t"
proof (induction a)
  case Nil
  show ?case using prefixI [of "t @ b" t b] by (cases "t @ b") simp_all
qed simp

lemma contains_sub_set: "contains_sub s t \<Longrightarrow> set t \<subseteq> set s"
  by (induction s) (fastforce dest: set_mono_prefix)+

lemma to_lower_ascii: "\<forall>c\<in>set s. of_char c < (128::nat) \<Longrightarrow> to_lower s = map lower_char s"
proof (induction s rule: to_lower.induct)
  case (1 a b c s)
  have "a \<noteq> char_of (226::nat)" "a \<noteq> char_of (196::nat)" using "1.prems" by auto
  with 1 show ?case by (simp add: bytes_def)
next
  case (2 a b)
  have "a \<noteq> char_of (196::nat)" using "2.prems" by auto
  then show ?case by (simp add: bytes_def)
qed simp_all

lemma to_lower_set: "c \<in> set (to_lower s) \<Longrightarrow> c = CHR ''k'' \<or> c = CHR ''i'' \<or> (\<exists>d\<in>set s. lower_char d = c)"
  by (induction s rule: to_lower.induct) (auto split: if_splits)

lemma lower_char_inv:
  assumes "lower_char d = char_of (n::nat)" "97 \<le> n" "n \<le> 122"
  shows "d = char_of n \<or> d = char_of (n - 32)"
proof (cases "65 \<le> (of_char d :: nat) \<and> (of_char d :: nat) \<le> 90")
  case True
  then have "char_of ((of_char d :: nat) + 32) = char_of n" using assms(1) by (simp add: lower_char_def)
  then have "((of_char d :: nat) + 32) mod 256 = n mod 256" by (metis of_char_of)
  then have "n - 32 = of_char d" using True assms(2,3) by simp
  then show ?thesis by simp
next
  case False
  then show ?thesis using assms(1) by (auto simp: lower_char_def Let_def)
qed

text \<open>A text without the letter \<open>w\<close>, or without \<open>x\<close>, contains no word with it in any case.\<close>

lemma not_contains_lower:
  assumes "contains_sub (to_lower s) t" "char_of (n::nat) \<in> set t" "97 \<le> n" "n \<le> 122" "n \<noteq> 107" "n \<noteq> 105"
  shows "char_of n \<in> set s \<or> char_of (n - 32) \<in> set s"
proof -
  have "char_of n \<in> set (to_lower s)" using contains_sub_set [OF assms(1)] assms(2) by blast
  moreover have "char_of n \<noteq> CHR ''k''" "char_of n \<noteq> CHR ''i''"
    using assms by (auto dest!: arg_cong [where f = "of_char :: char \<Rightarrow> nat"])
  ultimately obtain d where "d \<in> set s" "lower_char d = char_of n" using to_lower_set by blast
  then show ?thesis using lower_char_inv assms(3,4) by metis
qed

lemma split_on_neq_Nil [simp]: "split_on d s \<noteq> []"
  by (induction s) (auto split: list.split)

lemma split_on_no_sep: "d \<notin> set s \<Longrightarrow> split_on d s = [s]"
  by (induction s) auto

lemma split_on_append: "d \<notin> set a \<Longrightarrow> split_on d (a @ d # b) = a # split_on d b"
  by (induction a) auto

lemma join_split: "join_with [d] (split_on d s) = s"
proof (induction s)
  case (Cons c s)
  then show ?case by (cases "split_on d s"; cases "tl (split_on d s)") auto
qed simp

lemma split_on_three:
  assumes "split_on c s = [x, y, z]"
  shows "s = x @ c # y @ c # z"
proof -
  have "join_with [c] (split_on c s) = s" by (rule join_split)
  with assms show ?thesis by simp
qed

section \<open>Base64\<close>

text \<open>\<open>base64.StdEncoding\<close>: padded, and line breaks are skipped when decoding.\<close>

definition b64_char :: "nat \<Rightarrow> char" where
  "b64_char n = char_of (if n < 26 then 65 + n else if n < 52 then 71 + n else if n < 62 then n - 4
                         else if n = 62 then 43 else 47)"

definition b64_val :: "char \<Rightarrow> nat option" where
  "b64_val c = (let n = of_char c :: nat in
     if 65 \<le> n \<and> n \<le> 90 then Some (n - 65) else if 97 \<le> n \<and> n \<le> 122 then Some (n - 71)
     else if 48 \<le> n \<and> n \<le> 57 then Some (n + 4) else if n = 43 then Some 62
     else if n = 47 then Some 63 else None)"

fun b64_enc :: "nat list \<Rightarrow> string" where
  "b64_enc (a # b # c # xs) =
     [b64_char (a div 4), b64_char (a mod 4 * 16 + b div 16), b64_char (b mod 16 * 4 + c div 64), b64_char (c mod 64)]
     @ b64_enc xs"
| "b64_enc [a, b] = [b64_char (a div 4), b64_char (a mod 4 * 16 + b div 16), b64_char (b mod 16 * 4), CHR ''='']"
| "b64_enc [a] = [b64_char (a div 4), b64_char (a mod 4 * 16), CHR ''='', CHR ''='']"
| "b64_enc [] = []"

fun b64_dec :: "string \<Rightarrow> nat list option" where
  "b64_dec [] = Some []"
| "b64_dec (w # x # y # z # rest) =
     (case (b64_val w, b64_val x) of
        (Some a, Some b) \<Rightarrow>
          (case (b64_val y, b64_val z) of
             (Some c, Some d) \<Rightarrow>
               map_option (\<lambda>t. [a * 4 + b div 16, b mod 16 * 16 + c div 4, c mod 4 * 64 + d] @ t) (b64_dec rest)
           | (Some c, None) \<Rightarrow>
               if z = CHR ''='' \<and> rest = [] then Some [a * 4 + b div 16, b mod 16 * 16 + c div 4] else None
           | _ \<Rightarrow> if y = CHR ''='' \<and> z = CHR ''='' \<and> rest = [] then Some [a * 4 + b div 16] else None)
      | _ \<Rightarrow> None)"
| "b64_dec _ = None"

definition base64_encode :: "string \<Rightarrow> string" where
  "base64_encode s = b64_enc (map of_char s)"

definition base64_decode :: "string \<Rightarrow> string option" where
  "base64_decode s = map_option bytes (b64_dec (filter (\<lambda>c. c \<noteq> char_of (10::nat) \<and> c \<noteq> char_of (13::nat)) s))"

lemma b64_val_char: "n < 64 \<Longrightarrow> b64_val (b64_char n) = Some n"
  by (auto simp: b64_val_def b64_char_def Let_def)

lemma b64_val_pad [simp]: "b64_val (CHR ''='') = None"
  by (simp add: b64_val_def)

text \<open>The four 6-bit groups of three bytes, and back.\<close>

lemma b64_groups:
  assumes "a < 256" "b < 256" "c < (256::nat)"
  shows "a div 4 < 64" "a mod 4 * 16 + b div 16 < 64" "b mod 16 * 4 + c div 64 < 64" "c mod 64 < 64"
    "a mod 4 * 16 < 64" "b mod 16 * 4 < 64"
    "a div 4 * 4 + (a mod 4 * 16 + b div 16) div 16 = a"
    "(a mod 4 * 16 + b div 16) mod 16 * 16 + (b mod 16 * 4 + c div 64) div 4 = b"
    "(b mod 16 * 4 + c div 64) mod 4 * 64 + c mod 64 = c"
    "(a mod 4 * 16 + b div 16) mod 16 * 16 + b mod 16 * 4 div 4 = b"
    "a div 4 * 4 + a mod 4 * 16 div 16 = a"
  using assms by (simp_all; presburger)+

lemma b64_dec_enc: "(\<forall>x\<in>set xs. x < 256) \<Longrightarrow> b64_dec (b64_enc xs) = Some xs"
proof (induction xs rule: b64_enc.induct)
  case (1 a b c xs)
  then show ?case using b64_groups [of a b c] by (simp add: b64_val_char)
next
  case (2 a b)
  then show ?case using b64_groups [of a b 0] by (simp add: b64_val_char)
next
  case (3 a)
  then show ?case using b64_groups [of a 0 0] by (simp add: b64_val_char)
qed simp

lemma b64_char_no_break: "n < 64 \<Longrightarrow> b64_char n \<noteq> char_of (10::nat) \<and> b64_char n \<noteq> char_of (13::nat)"
  using b64_val_char [of n] by (auto simp: b64_val_def)

lemma pad_no_break: "CHR ''='' \<noteq> char_of (10::nat)" "CHR ''='' \<noteq> char_of (13::nat)"
  by (simp_all add: char_of_def bit_iff_odd)

lemma b64_enc_no_breaks:
  "(\<forall>x\<in>set xs. x < 256) \<Longrightarrow> c \<in> set (b64_enc xs) \<Longrightarrow> c \<noteq> char_of (10::nat) \<and> c \<noteq> char_of (13::nat)"
proof (induction xs rule: b64_enc.induct)
  case (1 a b d xs)
  then show ?case
    using b64_groups(1-4) [of a b d] by (auto simp: b64_char_no_break)
next
  case (2 a b)
  then show ?case using b64_groups(1,2,6) [of a b 0] by (auto simp: b64_char_no_break pad_no_break)
next
  case (3 a)
  then show ?case using b64_groups(1,5) [of a 0 0] by (auto simp: b64_char_no_break pad_no_break)
qed simp

lemma base64_roundtrip [simp]: "base64_decode (base64_encode s) = Some s"
proof -
  let ?xs = "map of_char s :: nat list"
  have b: "\<forall>x\<in>set ?xs. x < 256" by auto
  have "filter (\<lambda>c. c \<noteq> char_of (10::nat) \<and> c \<noteq> char_of (13::nat)) (b64_enc ?xs) = b64_enc ?xs"
    using b64_enc_no_breaks [OF b] by (intro filter_True) blast
  then show ?thesis
    by (simp add: base64_decode_def base64_encode_def b64_dec_enc [OF b] bytes_def comp_def)
qed

section \<open>Base64 for URLs\<close>

text \<open>\<open>base64.RawURLEncoding\<close>: the alphabet with \<open>-\<close> and \<open>_\<close> and no padding; line breaks are skipped when decoding.\<close>

definition url_char :: "char \<Rightarrow> char" where
  "url_char ch = (if ch = CHR ''+'' then CHR ''-'' else if ch = CHR ''/'' then CHR ''_'' else ch)"

definition std_char :: "char \<Rightarrow> char" where
  "std_char ch = (if ch = CHR ''-'' then CHR ''+'' else if ch = CHR ''_'' then CHR ''/'' else ch)"

definition raw_url_encode :: "string \<Rightarrow> string" where
  "raw_url_encode s = map url_char (filter (\<lambda>ch. ch \<noteq> CHR ''='') (base64_encode s))"

definition raw_url_decode :: "string \<Rightarrow> string option" where
  "raw_url_decode s =
     (let s = filter (\<lambda>ch. ch \<noteq> char_of (10::nat) \<and> ch \<noteq> char_of (13::nat)) s in
      if CHR ''='' \<in> set s \<or> CHR ''+'' \<in> set s \<or> CHR ''/'' \<in> set s then None
      else base64_decode (map std_char s @ replicate ((4 - length s mod 4) mod 4) (CHR ''='')))"

definition alphabet :: "char set" where
  "alphabet = b64_char ` {..<64}"

lemma alphabet_plain: "ch \<in> alphabet \<Longrightarrow> ch \<notin> {CHR ''-'', CHR ''_'', CHR ''='', char_of (10::nat), char_of (13::nat)}"
proof -
  assume "ch \<in> alphabet"
  then obtain n where n: "n < 64" "ch = b64_char n" by (auto simp: alphabet_def)
  have "b64_val ch = Some n" using b64_val_char n by simp
  moreover have "b64_val x = None" if "x \<in> {CHR ''-'', CHR ''_'', CHR ''='', char_of (10::nat), char_of (13::nat)}" for x
    using that by (auto simp: b64_val_def)
  ultimately show ?thesis by force
qed

lemma url_char_back: "ch \<in> alphabet \<Longrightarrow> std_char (url_char ch) = ch"
  using alphabet_plain [of ch] by (simp add: std_char_def url_char_def)

lemma url_char_clean: "ch \<in> alphabet \<Longrightarrow> url_char ch \<notin> {CHR ''='', CHR ''+'', CHR ''/'', char_of (10::nat), char_of (13::nat)}"
  using alphabet_plain [of ch] by (auto simp: url_char_def char_of_def bit_iff_odd)

text \<open>The encoding is a body of alphabet characters and its padding to a multiple of four.\<close>

lemma b64_enc_shape:
  "(\<forall>x\<in>set xs. x < 256) \<Longrightarrow> \<exists>body k. b64_enc xs = body @ replicate k (CHR ''='') \<and> k < 4 \<and> (length body + k) mod 4 = 0
     \<and> set body \<subseteq> alphabet"
proof (induction xs rule: b64_enc.induct)
  case (1 a b c xs)
  then obtain body k where ih: "b64_enc xs = body @ replicate k (CHR ''='')" "k < 4" "(length body + k) mod 4 = 0" "set body \<subseteq> alphabet"
    by auto
  let ?g = "[b64_char (a div 4), b64_char (a mod 4 * 16 + b div 16), b64_char (b mod 16 * 4 + c div 64), b64_char (c mod 64)]"
  have "set ?g \<subseteq> alphabet" using b64_groups(1-4) [of a b c] 1(2) by (auto simp: alphabet_def)
  moreover have "(length (?g @ body) + k) mod 4 = 0" using ih(3) by simp
  ultimately show ?case using ih by (intro exI [of _ "?g @ body"] exI [of _ k]) auto
next
  case (2 a b)
  let ?g = "[b64_char (a div 4), b64_char (a mod 4 * 16 + b div 16), b64_char (b mod 16 * 4)]"
  have "set ?g \<subseteq> alphabet" using b64_groups(1,2,6) [of a b 0] 2 by (auto simp: alphabet_def)
  then show ?case by (intro exI [of _ ?g] exI [of _ 1]) auto
next
  case (3 a)
  let ?g = "[b64_char (a div 4), b64_char (a mod 4 * 16)]"
  have "set ?g \<subseteq> alphabet" using b64_groups(1,5) [of a 0 0] 3 by (auto simp: alphabet_def)
  moreover have "replicate 2 (CHR ''='') = [CHR ''='', CHR ''='']" by (simp add: numeral_2_eq_2)
  ultimately show ?case by (intro exI [of _ ?g] exI [of _ 2]) simp
next
  case 4
  show ?case by (intro exI [of _ "[]"] exI [of _ 0]) simp
qed

lemma pad_length:
  assumes "k < 4" "(n + k) mod 4 = 0"
  shows "(4 - n mod 4) mod 4 = (k::nat)"
proof -
  define r where "r = n mod 4"
  have r: "r < 4" "(r + k) mod 4 = 0" using assms(2) by (simp_all add: r_def mod_add_left_eq)
  from r(1) have "r = 0 \<or> r = 1 \<or> r = 2 \<or> r = 3" by linarith
  moreover from assms(1) have "k = 0 \<or> k = 1 \<or> k = 2 \<or> k = 3" by linarith
  ultimately have "(4 - r) mod 4 = k" using r(2) by (elim disjE) simp_all
  then show ?thesis by (simp add: r_def)
qed

lemma raw_url_roundtrip [simp]: "raw_url_decode (raw_url_encode s) = Some s"
proof -
  obtain body k where e: "base64_encode s = body @ replicate k (CHR ''='')" "k < 4" "(length body + k) mod 4 = 0" "set body \<subseteq> alphabet"
    unfolding base64_encode_def using b64_enc_shape [of "map of_char s"] by auto
  have body: "ch \<in> alphabet" if "ch \<in> set body" for ch using e(4) that by blast
  have "filter (\<lambda>ch. ch \<noteq> CHR ''='') (base64_encode s) = body"
    using alphabet_plain body by (auto simp: e(1) filter_id_conv)
  then have enc: "raw_url_encode s = map url_char body" by (simp add: raw_url_encode_def)
  have clean: "ch \<noteq> CHR ''='' \<and> ch \<noteq> CHR ''+'' \<and> ch \<noteq> CHR ''/'' \<and> ch \<noteq> char_of (10::nat) \<and> ch \<noteq> char_of (13::nat)"
    if "ch \<in> set (map url_char body)" for ch
  proof -
    from that obtain x where "x \<in> set body" "ch = url_char x" unfolding set_map by (elim imageE)
    with url_char_clean [OF body] show ?thesis by simp
  qed
  have f: "filter (\<lambda>ch. ch \<noteq> char_of (10::nat) \<and> ch \<noteq> char_of (13::nat)) (map url_char body) = map url_char body"
    unfolding filter_id_conv using clean by blast
  have "map std_char (map url_char body) = body" using url_char_back body by (simp add: map_idI)
  moreover have "(4 - length body mod 4) mod 4 = k" by (rule pad_length [OF e(2,3)])
  moreover have "CHR ''='' \<notin> set (map url_char body)" "CHR ''+'' \<notin> set (map url_char body)" "CHR ''/'' \<notin> set (map url_char body)"
    using clean by blast+
  moreover have "base64_decode (body @ replicate k (CHR ''='')) = Some s"
    using base64_roundtrip [of s] unfolding e(1) .
  ultimately show ?thesis unfolding raw_url_decode_def enc Let_def f by (simp only: if_False simp_thms length_map)
qed

lemma raw_url_encode_nonempty: "s \<noteq> [] \<Longrightarrow> raw_url_encode s \<noteq> []"
proof
  assume "s \<noteq> []" "raw_url_encode s = []"
  then show False using raw_url_roundtrip [of s] raw_url_roundtrip [of "[]"]
    by (simp add: raw_url_encode_def base64_encode_def)
qed

lemmas go_text_run [exec_defs] = has_prefix_def trim_prefix_def

section \<open>Paths and hexadecimal text\<close>

text \<open>\<open>filepath.Base\<close> and \<open>filepath.Ext\<close> on Unix, and \<open>hex.EncodeToString\<close>.\<close>

definition path_base :: "string \<Rightarrow> string" where
  "path_base p = (if p = [] then ''.'' else
     let q = rev (dropWhile (\<lambda>c. c = CHR ''/'') (rev p)); b = rev (takeWhile (\<lambda>c. c \<noteq> CHR ''/'') (rev q)) in
     if b = [] then ''/'' else b)"

definition path_ext :: "string \<Rightarrow> string" where
  "path_ext p = (let r = takeWhile (\<lambda>c. c \<noteq> CHR ''/'' \<and> c \<noteq> CHR ''.'') (rev p) in
     case drop (length r) (rev p) of [] \<Rightarrow> [] | c # _ \<Rightarrow> if c = CHR ''.'' then CHR ''.'' # rev r else [])"

definition hex_digit :: "nat \<Rightarrow> char" where
  "hex_digit n = ''0123456789abcdef'' ! n"

definition hex_encode :: "string \<Rightarrow> string" where
  "hex_encode s = concat (map (\<lambda>c. [hex_digit (of_char c div 16), hex_digit (of_char c mod 16)]) s)"

lemma hex_encode_chars: "c \<in> set (hex_encode s) \<Longrightarrow> c \<in> set ''0123456789abcdef''"
proof -
  have digit: "hex_digit n \<in> set ''0123456789abcdef''" if "n < 16" for n
    unfolding hex_digit_def by (rule nth_mem) (use that in simp)
  assume "c \<in> set (hex_encode s)"
  then obtain d :: char where "c = hex_digit (of_char d div 16) \<or> c = hex_digit (of_char d mod 16)"
    by (auto simp: hex_encode_def)
  moreover have "(of_char d :: nat) div 16 < 16" by (simp add: less_mult_imp_div_less)
  ultimately show ?thesis using digit by fastforce
qed

lemma hex_encode_Nil [simp]: "hex_encode s = [] \<longleftrightarrow> s = []"
  by (cases s) (simp_all add: hex_encode_def)

lemma path_base_plain:
  assumes "CHR ''/'' \<notin> set p" "p \<noteq> []"
  shows "path_base p = p"
proof -
  have "takeWhile (\<lambda>c. c \<noteq> CHR ''/'') (rev p) = rev p"
    using assms(1) by (subst takeWhile_eq_all_conv) auto
  moreover have "dropWhile (\<lambda>c. c = CHR ''/'') (rev p) = rev p"
    using assms by (cases p rule: rev_cases) auto
  ultimately show ?thesis using assms(2) by (simp add: path_base_def del: takeWhile_eq_all_conv)
qed

section \<open>Texts as runes\<close>

text \<open>
  The runes of a string as chunks of its bytes.  Converting through \<open>[]rune\<close> replaces every invalid byte by the
  encoding of U+FFFD, which \<open>rune_text\<close> does for one rune.
\<close>

function runes_of :: "string \<Rightarrow> string list" where
  "runes_of s = (if s = [] then [] else let n = rune_size (map of_char s) in take n s # runes_of (drop n s))"
  by pat_completeness auto
termination
  by (relation "measure length") (auto simp: Let_def rune_size_pos)

declare runes_of.simps [simp del]

definition rune_text :: "string \<Rightarrow> string" where
  "rune_text r = (case r of [c] \<Rightarrow> if of_char c < (128::nat) then r else bytes [239, 191, 189] | _ \<Rightarrow> r)"

definition of_runes :: "string list \<Rightarrow> string" where
  "of_runes rs = concat (map rune_text rs)"

lemma runes_of_Nil [simp]: "runes_of [] = []"
  by (simp add: runes_of.simps)

lemma concat_runes_of: "concat (runes_of s) = s"
  by (induction s rule: runes_of.induct) (subst runes_of.simps, simp add: Let_def)

lemma length_runes_of: "length (runes_of s) = rune_count s"
proof (induction s rule: runes_of.induct)
  case (1 s)
  show ?case
    by (cases "s = []") (simp_all add: rune_count_def rune_count_bytes.simps [of "map of_char s"] runes_of.simps [of s] Let_def 1 drop_map
      rune_count_bytes.simps)
qed

lemma runes_of_ascii: "\<forall>c\<in>set s. of_char c < (128::nat) \<Longrightarrow> runes_of s = map (\<lambda>c. [c]) s"
proof (induction s)
  case (Cons c s)
  then show ?case by (subst runes_of.simps) (simp add: Let_def)
qed simp

lemma of_runes_ascii: "\<forall>c\<in>set s. of_char c < (128::nat) \<Longrightarrow> of_runes (map (\<lambda>c. [c]) s) = s"
  by (induction s) (simp_all add: of_runes_def rune_text_def)

section \<open>Counting and finding\<close>

text \<open>\<open>strings.Count\<close> and \<open>strings.Index\<close> of a non-empty string.\<close>

fun count_sub :: "nat \<Rightarrow> string \<Rightarrow> string \<Rightarrow> nat" where
  "count_sub skip [] t = 0"
| "count_sub (Suc k) (c # s) t = count_sub k s t"
| "count_sub 0 (c # s) t = (if prefix t (c # s) then Suc (count_sub (length t - 1) s t) else count_sub 0 s t)"

fun index_sub :: "string \<Rightarrow> string \<Rightarrow> nat option" where
  "index_sub [] t = (if t = [] then Some 0 else None)"
| "index_sub (c # s) t = (if prefix t (c # s) then Some 0 else map_option Suc (index_sub s t))"

lemma index_sub_le: "index_sub s t = Some i \<Longrightarrow> i + length t \<le> length s"
  by (induction s arbitrary: i) (auto split: if_splits dest: prefix_length_le)

end
