(* ===== verification/Schema.thy ===== *)
theory Schema
  imports Io Sql Redis_Store Go_Text
begin

text \<open>
  The shared state of the messaging services: the rows of the MySQL tables of \<open>sql/init.sql\<close> they read
  and write, the Redis keys, and what was handed to Redis pub/sub and to Kafka.  A table is
  the list of its rows in insertion order; a field \<open>x :: _ option\<close> is a column that may be \<open>NULL\<close>.
  The auto-increment primary keys of the message table are not modelled, those of the outbox tables
  are, because the workers address rows by them.
\<close>

section \<open>Wire messages\<close>

text \<open>The protobuf message \<open>api.WireMessage\<close> (api/message.proto) as the Go code sees it.\<close>

datatype msg_type = NORMAL | HEARTBEAT | ACK | SYSTEM | OTHER_TYPE int

record wire =
  MessageId :: string
  SessionId :: string
  SeqNo :: int
  From :: string
  To :: string
  ToType :: string
  MsgType :: msg_type
  Body :: string
  SentAt :: int
  AckMessageId :: string
  ClientMsgId :: string
  TraceId :: string
  LastSeq :: int

definition empty_wire :: wire where
  "empty_wire = \<lparr>MessageId = [], SessionId = [], SeqNo = 0, From = [], To = [], ToType = [],
     MsgType = NORMAL, Body = [], SentAt = 0, AckMessageId = [], ClientMsgId = [], TraceId = [], LastSeq = 0\<rparr>"

section \<open>Rows\<close>

record friend_row =
  fr_user :: string
  fr_friend :: string
  fr_status :: string
  fr_updated_at :: int

record group_row =
  gr_id :: string
  gr_name :: string
  gr_owner :: string
  gr_status :: string
  gr_created_at :: int

record member_row =
  gm_group :: string
  gm_user :: string
  gm_role :: string
  gm_mute_until :: int
  gm_status :: string
  gm_joined_at :: int

record msg_row =
  ms_message_id :: string
  ms_client_msg_id :: "string option"
  ms_conversation_id :: string
  ms_session_id :: string
  ms_seq :: int
  ms_from :: string
  ms_to :: string
  ms_to_type :: string
  ms_content :: string
  ms_create_time :: int

record conv_row =
  cv_id :: string
  cv_type :: string
  cv_created_at :: int
  cv_updated_at :: int
  cv_last_seq :: int

record conv_member_row =
  cm_conversation :: string
  cm_user :: string
  cm_read_seq :: int
  cm_acked_seq :: int
  cm_joined_at :: int

datatype ob_status = Pending | Processing | Finished | Dead | Skipped

record conv_outbox_row =
  co_id :: int
  co_message_id :: string
  co_session_id :: string
  co_from :: string
  co_to :: string
  co_to_type :: string
  co_seq :: int
  co_sent_at :: int
  co_status :: ob_status
  co_attempts :: int
  co_available_at :: int
  co_last_error :: string
  co_processed_at :: "int option"

text \<open>\<open>recipients_json\<close> is the JSON text of a list of user ids; a row whose text does not parse is \<open>None\<close>.\<close>

record deliv_row =
  do_id :: int
  do_message_id :: string
  do_trace_id :: string
  do_recipients :: "string list option"
  do_status :: ob_status
  do_attempts :: int
  do_available_at :: int
  do_last_error :: string
  do_updated_at :: int
  do_processed_at :: "int option"

record attachment_row =
  at_id :: string
  at_group :: string
  at_uploader :: string
  at_file_name :: string
  at_mime :: string
  at_size :: int
  at_sha256 :: string
  at_storage_key :: string
  at_status :: string
  at_created_at :: int

section \<open>The state\<close>

record rels =
  friend_rows :: "friend_row list"
  group_rows :: "group_row list"
  member_rows :: "member_row list"

text \<open>What is published on a gateway's channel: the \<open>PushEnvelope\<close> of internal/server/manager.go.\<close>

record push_envelope =
  pe_Kind :: string
  pe_TargetID :: string
  pe_MessageID :: string
  pe_SessionID :: string
  pe_Seq :: int
  pe_TraceID :: string
  pe_GatewayID :: string
  pe_RouteValue :: string
  pe_SentAt :: int
  pe_PayloadB64 :: string

text \<open>
  \<open>subscribers c\<close> is the number of subscribers Redis reports for channel \<open>c\<close>; \<open>published\<close> and
  \<open>dispatched\<close> record, in order, what was handed to pub/sub and to the group dispatch topic, and \<open>ws_out\<close>
  what was written to which websocket connection.
\<close>

record im = rels +
  msgs :: "msg_row list"
  convs :: "conv_row list"
  conv_members :: "conv_member_row list"
  conv_outbox :: "conv_outbox_row list"
  deliv_outbox :: "deliv_row list"
  attachments :: "attachment_row list"
  rds :: redis
  subscribers :: "string \<Rightarrow> int"
  published :: "(string \<times> push_envelope) list"
  dispatched :: "(wire \<times> string list) list"
  ws_out :: "(string \<times> string) list"

definition empty_im :: im where
  "empty_im = \<lparr>friend_rows = [], group_rows = [], member_rows = [], msgs = [], convs = [],
     conv_members = [], conv_outbox = [], deliv_outbox = [], attachments = [], rds = empty_redis,
     subscribers = \<lambda>_. 0, published = [], dispatched = [], ws_out = []\<rparr>"

text \<open>A Redis command as a call on the state.\<close>

definition on_rds :: "(redis \<Rightarrow> redis) \<Rightarrow> 'b im_scheme \<Rightarrow> 'b im_scheme" where
  "on_rds f s = s\<lparr>rds := f (rds s)\<rparr>"

definition on_rds_res :: "(redis \<Rightarrow> (gerr + 'a) \<times> redis) \<Rightarrow> 'b im_scheme \<Rightarrow> (gerr + 'a) \<times> 'b im_scheme" where
  "on_rds_res f s = (case f (rds s) of (r, d) \<Rightarrow> (r, s\<lparr>rds := d\<rparr>))"

lemma on_rds_simps [simp]:
  "rds (on_rds f s) = f (rds s)" "msgs (on_rds f s) = msgs s" "convs (on_rds f s) = convs s"
  "conv_members (on_rds f s) = conv_members s" "conv_outbox (on_rds f s) = conv_outbox s"
  "deliv_outbox (on_rds f s) = deliv_outbox s" "attachments (on_rds f s) = attachments s"
  "subscribers (on_rds f s) = subscribers s" "published (on_rds f s) = published s"
  "dispatched (on_rds f s) = dispatched s" "ws_out (on_rds f s) = ws_out s" "friend_rows (on_rds f s) = friend_rows s"
  "group_rows (on_rds f s) = group_rows s" "member_rows (on_rds f s) = member_rows s"
  by (simp_all add: on_rds_def)

lemma on_rds_res_cases:
  assumes "on_rds_res f s = (r, s')"
  obtains d where "f (rds s) = (r, d)" "s' = s\<lparr>rds := d\<rparr>"
  using assms by (cases "f (rds s)") (auto simp: on_rds_res_def)

section \<open>Unique keys of \<open>sql/init.sql\<close>\<close>

definition all_messages_keys :: "msg_row unique_key list" where
  "all_messages_keys =
     [(''messages.uk_message_id'', \<lambda>a b. ms_message_id a = ms_message_id b),
      (''messages.uk_sender_client_msg'', \<lambda>a b. ms_from a = ms_from b \<and> ms_client_msg_id a \<noteq> None
         \<and> ms_client_msg_id a = ms_client_msg_id b),
      (''messages.uk_conversation_seq'', \<lambda>a b. ms_conversation_id a = ms_conversation_id b \<and> ms_seq a = ms_seq b)]"

section \<open>Configuration of the logic service\<close>

text \<open>
  The fields of \<open>LogicHandler\<close> (internal/logic/handler.go) that are capabilities, the parts of the
  deployed schema the code probes for, and the third-party codec: protobuf's \<open>Marshal\<close> and
  \<open>Unmarshal\<close> and the JSON reading of an attachment body, as functions.  \<open>fresh_id\<close> stands for the
  random part of \<open>ids.NewTraceID\<close>, drawn at a given call.
\<close>

record cfg =
  has_db :: bool
  has_rdb :: bool
  ConversationOutbox :: bool
  DeliveryOutbox :: bool
  has_dispatcher :: bool
  missing_columns :: "string list"
  missing_tables :: "string list"
  marshal :: "wire \<Rightarrow> gerr + string"
  unmarshal :: "string \<Rightarrow> gerr + wire"
  attachment_ref :: "string \<Rightarrow> string option"
  attachment_json :: "attachment_row \<Rightarrow> string"
  fresh_id :: "nat \<Rightarrow> string"

text \<open>Protobuf's documented round trip: what was marshalled unmarshals to the same message.\<close>

definition codec_ok :: "cfg \<Rightarrow> bool" where
  "codec_ok h \<longleftrightarrow> (\<forall>f p. marshal h f = Inr p \<longrightarrow> unmarshal h p = Inr f)"

text \<open>The text of MySQL's error for a statement on a missing column or table.\<close>

definition sql_quote :: "string \<Rightarrow> string" where
  "sql_quote t = CHR 0x27 # t @ [CHR 0x27]"

definition schema_error :: "cfg \<Rightarrow> string list \<Rightarrow> string list \<Rightarrow> gerr option" where
  "schema_error h tables columns =
     (case find (\<lambda>t. t \<in> set (missing_tables h)) tables of
        Some t \<Rightarrow> Some (Msg (''Error 1146 (42S02): Table '' @ sql_quote (''linkgo_im.'' @ t) @ '' doesn't exist''))
      | None \<Rightarrow> (case find (\<lambda>c. c \<in> set (missing_columns h)) columns of
          Some c \<Rightarrow> Some (Msg (''Error 1054 (42S22): Unknown column '' @ sql_quote c @ '' in '' @ sql_quote ''field list''))
        | None \<Rightarrow> None))"

text \<open>The keys of the message table, without those on a column the deployed schema lacks.\<close>

definition messages_keys :: "cfg \<Rightarrow> msg_row unique_key list" where
  "messages_keys h = filter (\<lambda>(k, _).
      (k = ''messages.uk_sender_client_msg'' \<longrightarrow> ''client_msg_id'' \<notin> set (missing_columns h)) \<and>
      (k = ''messages.uk_conversation_seq'' \<longrightarrow> ''conversation_id'' \<notin> set (missing_columns h))) all_messages_keys"

text \<open>A statement is refused when it names a missing table or column, and runs otherwise.\<close>

definition on_schema :: "cfg \<Rightarrow> string list \<Rightarrow> string list \<Rightarrow> ('w \<Rightarrow> (gerr + 'a) \<times> 'w) \<Rightarrow> 'w \<Rightarrow> (gerr + 'a) \<times> 'w" where
  "on_schema h tables columns opn w = (case schema_error h tables columns of Some e \<Rightarrow> (Inl e, w) | None \<Rightarrow> opn w)"

text \<open>An \<open>INSERT\<close> or an \<open>INSERT ... ON DUPLICATE KEY UPDATE\<close> into one table, and an \<open>UPDATE\<close> with its affected-row count.\<close>

definition run_insert :: "('w \<Rightarrow> 'r list) \<Rightarrow> (('r list \<Rightarrow> 'r list) \<Rightarrow> 'w \<Rightarrow> 'w) \<Rightarrow> ('r list \<Rightarrow> gerr + 'r list) \<Rightarrow> 'w
    \<Rightarrow> (gerr + unit) \<times> 'w" where
  "run_insert tbl set_tbl f w = (case f (tbl w) of Inl e \<Rightarrow> (Inl e, w) | Inr rows \<Rightarrow> (Inr (), set_tbl (\<lambda>_. rows) w))"

definition run_update :: "('w \<Rightarrow> 'r list) \<Rightarrow> (('r list \<Rightarrow> 'r list) \<Rightarrow> 'w \<Rightarrow> 'w) \<Rightarrow> ('r \<Rightarrow> bool) \<Rightarrow> ('r \<Rightarrow> 'r) \<Rightarrow> 'w
    \<Rightarrow> (gerr + nat) \<times> 'w" where
  "run_update tbl set_tbl p f w = (Inr (affected p f (tbl w)), set_tbl (upd p f) w)"

lemma run_insert_cases:
  assumes "run_insert tbl set_tbl f w = (r, w')"
  obtains e where "f (tbl w) = Inl e" "r = Inl e" "w' = w"
    | rows where "f (tbl w) = Inr rows" "r = Inr ()" "w' = set_tbl (\<lambda>_. rows) w"
  using assms by (auto simp: run_insert_def split: sum.splits)

lemma wp_insert_quiet:
  "wp (exec (quiet env) (run_insert tbl set_tbl f)) (\<lambda>r w'. \<not> isl r \<longrightarrow> (\<exists>rows. f (tbl w) = Inr rows \<and> w' = set_tbl (\<lambda>_. rows) w)) w"
  by (rule wp_exec) (auto simp: run_insert_def split: sum.split)

text \<open>The text of an error, \<open>err.Error()\<close>; the text of an I/O failure is not specified and names no column.\<close>

primrec err_text :: "gerr \<Rightarrow> string" where
  "err_text IoErr = ''invalid connection''"
| "err_text (DupKey k) = ''Error 1062 (23000): Duplicate entry for key '' @ sql_quote k"
| "err_text (Msg t) = t"
| "err_text (Wrapped e t) = t"
| "err_text (Coded c t) = t"
| "err_text (VersionConflict t v) = t"

text \<open>\<open>sql.ErrNoRows\<close>\<close>

definition ErrNoRows :: gerr where
  "ErrNoRows = Msg ''sql: no rows in result set''"

section \<open>Drawing random identifiers\<close>

definition draw :: "(nat \<Rightarrow> 'a) \<Rightarrow> ('w, 'a) io" where
  "draw g = State (\<lambda>(n, w). (g n, (Suc n, w)))"

lemma wp_draw [wp_rules]: "(\<And>n. Q (g n) w) \<Longrightarrow> wp (draw g) Q w"
  by (simp add: wp_def draw_def)

lemma keeps_draw [keeps_rules]: "keeps I (draw g)"
  by (simp add: keeps_def wp_draw)

lemma on_schema_cases:
  assumes "on_schema h ts cs opn w = (r, w')"
  obtains e where "schema_error h ts cs = Some e" "r = Inl e" "w' = w"
    | "schema_error h ts cs = None" "opn w = (r, w')"
  using assms by (auto simp: on_schema_def split: option.splits)

text \<open>What a run unfolds.\<close>

lemmas schema_run [exec_defs] =
  empty_wire_def empty_im_def on_rds_def on_rds_res_def all_messages_keys_def messages_keys_def
  run_insert_def run_update_def draw_def

end
