(* ===== verification/Knowledge.thy ===== *)
theory Knowledge
  imports Schema
begin

text \<open>
  The knowledge base of the AI assistant (internal/ai/knowledge_base.go), with the texts it shares with the other AI
  parts: \<open>truncateRunes\<close> of internal/ai/mock_provider.go and \<open>RedactSensitive\<close> of internal/ai/redact.go.  Unicode's
  tables and the file system are parameters.  A search cuts its snippet out of the text at a byte position
  found in the lower-cased text; where the two differ in length that is out of range, and Go panics: the result \<open>None\<close>.
\<close>

section \<open>Unicode\<close>

text \<open>\<open>unicode.ToLower\<close>, \<open>unicode.Is(unicode.Han, r)\<close>, \<open>unicode.IsLetter\<close> and \<open>unicode.IsDigit\<close> on the encoding of a rune.\<close>

record unicode =
  lower_rune :: "string \<Rightarrow> string"
  is_han :: "string \<Rightarrow> bool"
  is_letter :: "string \<Rightarrow> bool"
  is_digit :: "string \<Rightarrow> bool"

text \<open>\<open>strings.ToLower\<close>\<close>

definition lower_text :: "unicode \<Rightarrow> string \<Rightarrow> string" where
  "lower_text u s = concat (map (\<lambda>r. lower_rune u (rune_text r)) (runes_of s))"

definition truncateRunes :: "string \<Rightarrow> int \<Rightarrow> string" where
  "truncateRunes value limit = (if limit \<le> 0 \<or> int (rune_count value) \<le> limit then value
     else of_runes (take (nat limit) (runes_of value)) @ ''...'')"

section \<open>Redaction\<close>

text \<open>
  The two regular expressions, which ignore case: under Unicode's simple folding the letter k also matches U+212A and the letter s
  U+017F.  The first alternative that fits is the only one at each position, so matching needs no search.
\<close>

definition eat_letter :: "char \<Rightarrow> string \<Rightarrow> string option" where
  "eat_letter c s = (case s of [] \<Rightarrow> None | d # r \<Rightarrow>
     if lower_char d = c then Some r
     else if c = CHR ''k'' \<and> prefix (bytes [226, 132, 170]) s then Some (drop 3 s)
     else if c = CHR ''s'' \<and> prefix (bytes [197, 191]) s then Some (drop 2 s) else None)"

fun eat_word :: "string \<Rightarrow> string \<Rightarrow> string option" where
  "eat_word [] s = Some s"
| "eat_word (c # w) s = (case eat_letter c s of None \<Rightarrow> None | Some r \<Rightarrow> eat_word w r)"

definition regex_space :: "char \<Rightarrow> bool" where
  "regex_space c \<longleftrightarrow> (of_char c :: nat) \<in> {9, 10, 12, 13, 32}"

definition token_char :: "char \<Rightarrow> bool" where
  "token_char c \<longleftrightarrow> (let n = of_char (lower_char c) :: nat in 97 \<le> n \<and> n \<le> 122 \<or> 48 \<le> n \<and> n \<le> 57)
     \<or> c \<in> {CHR ''.'', CHR ''_'', CHR ''-''}"

fun eat_token :: "string \<Rightarrow> string" where
  "eat_token (a # b # c # s) = (if token_char a then eat_token (b # c # s)
     else if [a, b, c] = bytes [226, 132, 170] then eat_token s
     else if [a, b] = bytes [197, 191] then eat_token (c # s) else a # b # c # s)"
| "eat_token [a, b] = (if token_char a then eat_token [b] else if [a, b] = bytes [197, 191] then [] else [a, b])"
| "eat_token [a] = (if token_char a then [] else [a])"
| "eat_token [] = []"

definition match_bearer :: "string \<Rightarrow> string option" where
  "match_bearer s = (case eat_word ''bearer'' s of None \<Rightarrow> None | Some r1 \<Rightarrow>
     let r2 = dropWhile regex_space r1; r3 = eat_token r2 in if r2 = r1 \<or> r3 = r2 then None else Some r3)"

definition eat_key :: "string \<Rightarrow> string option" where
  "eat_key s = (case eat_word ''api'' s of
       Some r \<Rightarrow> (case r of c # r' \<Rightarrow> if c = CHR ''_'' \<or> c = CHR ''-'' then eat_word ''key'' r' else eat_word ''key'' r | [] \<Rightarrow> None)
     | None \<Rightarrow> (case eat_word ''token'' s of Some r \<Rightarrow> Some r
       | None \<Rightarrow> (case eat_word ''password'' s of Some r \<Rightarrow> Some r | None \<Rightarrow> eat_word ''secret'' s)))"

text \<open>The part of a match before its separator, and the text after the match.\<close>

definition match_secret :: "string \<Rightarrow> (string \<times> string) option" where
  "match_secret s = (case eat_key s of None \<Rightarrow> None | Some r1 \<Rightarrow>
     (case dropWhile regex_space r1 of [] \<Rightarrow> None | c # r3 \<Rightarrow>
        if c \<noteq> CHR '':'' \<and> c \<noteq> CHR ''='' then None
        else let v = dropWhile regex_space r3; stop = (\<lambda>d. d = CHR '','' \<or> d = CHR '';'' \<or> regex_space d); rest = dropWhile (\<lambda>d. \<not> stop d) v in
          if rest = v then None else Some (take (length s - length (c # r3)) s, rest)))"

lemma length_eat_letter: "eat_letter c s = Some r \<Longrightarrow> length r < length s"
  by (cases s) (auto simp: eat_letter_def split: if_splits)

lemma length_eat_word: "eat_word w s = Some r \<Longrightarrow> length r \<le> length s"
  by (induction w s rule: eat_word.induct) (auto split: option.splits dest: length_eat_letter)

lemma length_eat_word_less: "eat_word (c # w) s = Some r \<Longrightarrow> length r < length s"
  by (auto split: option.splits dest!: length_eat_letter length_eat_word)

lemma length_eat_token: "length (eat_token s) \<le> length s"
  by (induction s rule: eat_token.induct) auto

lemma length_match_bearer: "match_bearer s = Some r \<Longrightarrow> length r < length s"
proof -
  assume "match_bearer s = Some r"
  then obtain r1 where "eat_word ''bearer'' s = Some r1" "r = eat_token (dropWhile regex_space r1)"
    by (auto simp: match_bearer_def Let_def split: option.splits if_splits)
  then show ?thesis
    using length_eat_word_less [of "CHR ''b''" "''earer''" s r1] length_eat_token [of "dropWhile regex_space r1"]
      length_dropWhile_le [of regex_space r1] by simp
qed

lemma length_eat_key: "eat_key s = Some r \<Longrightarrow> length r < length s"
  by (auto simp del: eat_word.simps simp: eat_key_def split: option.splits list.splits if_splits dest!: length_eat_word_less)

lemma length_match_secret: "match_secret s = Some (k, r) \<Longrightarrow> length r < length s"
proof -
  assume "match_secret s = Some (k, r)"
  then obtain r1 c r3 where 1: "eat_key s = Some r1" "dropWhile regex_space r1 = c # r3"
      "r = dropWhile (\<lambda>d. \<not> (d = CHR '','' \<or> d = CHR '';'' \<or> regex_space d)) (dropWhile regex_space r3)"
    by (auto simp: match_secret_def Let_def split: option.splits list.splits if_splits)
  have "length r \<le> length r3" unfolding 1(3) by (meson le_trans length_dropWhile_le)
  also have "\<dots> < length r1" using length_dropWhile_le [of regex_space r1] 1(2) by simp
  finally show ?thesis using length_eat_key [OF 1(1)] by simp
qed

function redact_bearer :: "string \<Rightarrow> string" where
  "redact_bearer s = (case s of [] \<Rightarrow> [] | c # r \<Rightarrow>
     (case match_bearer s of Some rest \<Rightarrow> ''Bearer [REDACTED]'' @ redact_bearer rest | None \<Rightarrow> c # redact_bearer r))"
  by pat_completeness auto
termination
  by (relation "measure length") (auto dest: length_match_bearer)

function redact_secret :: "string \<Rightarrow> string" where
  "redact_secret s = (case s of [] \<Rightarrow> [] | c # r \<Rightarrow>
     (case match_secret s of Some (key, rest) \<Rightarrow> key @ ''=[REDACTED]'' @ redact_secret rest | None \<Rightarrow> c # redact_secret r))"
  by pat_completeness auto
termination
  by (relation "measure length") (auto dest: length_match_secret)

declare redact_bearer.simps [simp del] redact_secret.simps [simp del]

definition RedactSensitive :: "string \<Rightarrow> string" where
  "RedactSensitive value = redact_secret (redact_bearer value)"

section \<open>Search terms\<close>

definition searchRuneClass :: "unicode \<Rightarrow> string \<Rightarrow> nat" where
  "searchRuneClass u r = (if is_han u r then 1 else if is_letter u r \<or> is_digit u r then 2 else 0)"

definition containsHan :: "unicode \<Rightarrow> string \<Rightarrow> bool" where
  "containsHan u s = list_ex (\<lambda>r. is_han u (rune_text r)) (runes_of s)"

text \<open>The tokens found so far, the runes of the current one and their class.\<close>

type_synonym token_state = "string list \<times> string list \<times> nat"

definition flush_token :: "unicode \<Rightarrow> token_state \<Rightarrow> token_state" where
  "flush_token u st = (case st of (tokens, current, cls) \<Rightarrow>
     if current = [] then (tokens, current, cls)
     else let token = trim_space (concat current) in
       (if rune_count token > 1 \<or> containsHan u token then tokens @ [token] else tokens, [], 0))"

definition token_rune :: "unicode \<Rightarrow> string \<Rightarrow> token_state \<Rightarrow> token_state" where
  "token_rune u r0 st =
     (let r = rune_text r0; cls = searchRuneClass u r in
      if cls = 0 then flush_token u st
      else case (if snd (snd st) \<noteq> 0 \<and> cls \<noteq> snd (snd st) then flush_token u st else st) of
        (tokens, current, _) \<Rightarrow> (tokens, current @ [r], cls))"

definition splitSearchTokens :: "unicode \<Rightarrow> string \<Rightarrow> string list" where
  "splitSearchTokens u question = fst (flush_token u (fold (token_rune u) (runes_of question) ([], [], 0)))"

definition add_term :: "string \<Rightarrow> string list \<Rightarrow> string list" where
  "add_term t0 terms = (let t = trim_space t0 in if t = [] \<or> t \<in> set terms then terms else terms @ [t])"

definition add_token :: "unicode \<Rightarrow> string \<Rightarrow> string list \<Rightarrow> string list" where
  "add_token u token terms =
     (let runes = runes_of token; terms1 = add_term token terms in
      if length runes \<ge> 2 \<and> containsHan u token
      then fold (\<lambda>i. add_term (of_runes [runes ! i, runes ! Suc i])) [0..<length runes - 1] terms1 else terms1)"

definition extractSearchTerms :: "unicode \<Rightarrow> string \<Rightarrow> string list" where
  "extractSearchTerms u question0 =
     (let question = lower_text u (trim_space question0) in
      if question = [] then [] else fold (add_token u) (splitSearchTokens u question) [])"

section \<open>Documents\<close>

record knowledge_document =
  kd_Path :: string
  kd_Title :: string
  kd_Content :: string

record knowledge_source =
  ks_Path :: string
  ks_Title :: string
  ks_Snippet :: string
  ks_Score :: nat

definition defaultKnowledgePaths :: "string list" where
  "defaultKnowledgePaths = [''docs/knowledge/IM_FAQ.md'', ''docs/knowledge/ARCHITECTURE.md'', ''docs/knowledge/MESSAGE_RELIABILITY.md'']"

text \<open>The sections of a Markdown text: the documents, the current title and the lines under it.\<close>

type_synonym section_state = "knowledge_document list \<times> string \<times> string list"

definition newline :: string where "newline = [char_of (10 :: nat)]"

definition flush_section :: "string \<Rightarrow> section_state \<Rightarrow> section_state" where
  "flush_section path st = (case st of (docs, title, current) \<Rightarrow>
     let content = trim_space (join_with newline current) in
     if content = [] then (docs, title, current)
     else (docs @ [\<lparr>kd_Path = path, kd_Title = title, kd_Content = content\<rparr>], title, []))"

definition section_line :: "string \<Rightarrow> string \<Rightarrow> section_state \<Rightarrow> section_state" where
  "section_line path line st =
     (let trimmed = trim_space line in
      if has_prefix trimmed ''#''
      then (case flush_section path st of (docs, _, current) \<Rightarrow> (docs, trim_space (dropWhile (\<lambda>c. c = CHR ''#'') trimmed), current))
      else case st of (docs, title, current) \<Rightarrow> (docs, title, current @ [line]))"

definition splitMarkdownKnowledge :: "string \<Rightarrow> string \<Rightarrow> knowledge_document list" where
  "splitMarkdownKnowledge path body =
     (let docs = fst (flush_section path (fold (section_line path) (split_on (char_of (10 :: nat)) body) ([], path_base path, []))) in
      if docs = [] then [\<lparr>kd_Path = path, kd_Title = path_base path, kd_Content = body\<rparr>] else docs)"

definition loadKnowledgeDocuments :: "(string \<Rightarrow> gerr + string) \<Rightarrow> string \<Rightarrow> gerr + knowledge_document list" where
  "loadKnowledgeDocuments read path = (case read path of
       Inl e \<Rightarrow> Inl e
     | Inr content \<Rightarrow> let body = trim_space content in
         if body = [] then Inl (Msg ''empty file'')
         else if map lower_char (path_ext path) = ''.md'' then Inr (splitMarkdownKnowledge path body)
         else Inr [\<lparr>kd_Path = path, kd_Title = path_base path, kd_Content = body\<rparr>])"

text \<open>The documents, and the error that is returned beside them.\<close>

definition load_paths :: "(string \<Rightarrow> gerr + string) \<Rightarrow> string list \<Rightarrow> knowledge_document list \<times> string list" where
  "load_paths read paths = fold (\<lambda>raw (docs, failed). let path = trim_space raw in
       if path = [] then (docs, failed)
       else case loadKnowledgeDocuments read path of
         Inl e \<Rightarrow> (docs, failed @ [path @ '': '' @ err_text e]) | Inr ds \<Rightarrow> (docs @ ds, failed)) paths ([], [])"

definition NewKnowledgeBase :: "(string \<Rightarrow> gerr + string) \<Rightarrow> string list \<Rightarrow> knowledge_document list \<times> gerr option" where
  "NewKnowledgeBase read paths0 =
     (let paths = (if paths0 = [] then defaultKnowledgePaths else paths0) in
      case load_paths read paths of (docs, failed) \<Rightarrow>
      (docs, if docs = [] then Some (Msg (if failed = [] then ''ai knowledge base is empty'' else ''ai knowledge base is empty: '' @ join_with ''; '' failed))
             else if failed \<noteq> [] then Some (Msg (''ai knowledge base loaded with partial failures: '' @ join_with ''; '' failed)) else None))"

section \<open>Search\<close>

definition term_score :: "string \<Rightarrow> string \<Rightarrow> string \<Rightarrow> string \<Rightarrow> nat" where
  "term_score title path content t = (if t = [] then 0 else
     (if contains_sub title t then 8 else 0) + (if contains_sub path t then 5 else 0) + count_sub 0 content t * 2)"

definition scoreKnowledgeDocument :: "unicode \<Rightarrow> knowledge_document \<Rightarrow> string \<Rightarrow> string list \<Rightarrow> nat" where
  "scoreKnowledgeDocument u doc question terms =
     (let title = lower_text u (kd_Title doc); path = lower_text u (kd_Path doc); content = lower_text u (kd_Content doc);
          fullQuestion = lower_text u (trim_space question) in
      (if fullQuestion \<noteq> [] \<and> contains_sub content fullQuestion then 12 else 0) + sum_list (map (term_score title path content) terms))"

text \<open>The snippet around byte \<open>idx\<close>; slicing past the end of the text, or backwards, panics.\<close>

definition snippet_at :: "string \<Rightarrow> nat \<Rightarrow> string option" where
  "snippet_at content idx =
     (if idx > length content then None
      else let prefixRunes = rune_count (take idx content); runes = runes_of content;
               start = prefixRunes - 40; stop = min (prefixRunes + 120) (length runes) in
        if start > stop then None
        else let cut = trim_space (of_runes (drop start (take stop runes))) in
          Some ((if start > 0 then ''...'' else []) @ cut @ (if stop < length runes then ''...'' else [])))"

definition buildSnippet :: "unicode \<Rightarrow> string \<Rightarrow> string list \<Rightarrow> string option" where
  "buildSnippet u content0 terms =
     (let content = trim_space content0; lowerContent = lower_text u content in
      if content = [] then Some []
      else case find (\<lambda>t. t \<noteq> [] \<and> index_sub lowerContent t \<noteq> None) terms of
        None \<Rightarrow> Some (truncateRunes content 180)
      | Some t \<Rightarrow> snippet_at content (the (index_sub lowerContent t)))"

text \<open>\<open>for _, doc := range kb.documents\<close>\<close>

fun score_documents :: "unicode \<Rightarrow> string \<Rightarrow> string list \<Rightarrow> knowledge_document list \<Rightarrow> knowledge_source list option" where
  "score_documents u question terms [] = Some []"
| "score_documents u question terms (doc # docs) =
     (let score = scoreKnowledgeDocument u doc question terms in
      if score = 0 then score_documents u question terms docs
      else case buildSnippet u (kd_Content doc) terms of
        None \<Rightarrow> None
      | Some snippet \<Rightarrow> map_option (Cons \<lparr>ks_Path = kd_Path doc, ks_Title = kd_Title doc, ks_Snippet = snippet, ks_Score = score\<rparr>)
          (score_documents u question terms docs))"

text \<open>\<open>sort.Slice\<close>, which leaves open in what order sources of the same score, path and title come.\<close>

definition source_rank :: "knowledge_source \<Rightarrow> int \<times> string \<times> string" where
  "source_rank k = (- int (ks_Score k), ks_Path k, ks_Title k)"

definition Search :: "unicode \<Rightarrow> knowledge_document list \<Rightarrow> string \<Rightarrow> int \<Rightarrow> knowledge_source list option" where
  "Search u docs question0 limit0 =
     (let question = trim_space question0; limit = (if limit0 \<le> 0 then 3 else nat limit0); terms = extractSearchTerms u question in
      if docs = [] \<or> question = [] \<or> terms = [] then Some []
      else map_option (\<lambda>scored. take limit (sort_key source_rank scored)) (score_documents u question terms docs))"

section \<open>A cut text has hardly more runes\<close>

lemma rune_size_take: "rune_size xs \<le> i \<Longrightarrow> xs \<noteq> [] \<Longrightarrow> rune_size (take i xs) = rune_size xs"
proof (cases xs)
  case (Cons a bs)
  assume i: "rune_size xs \<le> i"
  obtain j where j: "i = Suc j" using rune_size_pos [of xs] i Cons by (cases i) auto
  note i = i [unfolded Cons j]
  consider "a < 128 \<or> (128 \<le> a \<and> a < 194) \<or> 244 < a" | "194 \<le> a" "a \<le> 223" | "224 \<le> a" "a \<le> 239" | "240 \<le> a" "a \<le> 244" by linarith
  then have "rune_size (a # take j bs) = rune_size (a # bs)"
  proof cases
    case 1
    then show ?thesis by auto
  next
    case 2
    with i show ?thesis by (cases bs; cases j) auto
  next
    case 3
    define ok where "ok b \<longleftrightarrow> (if a = 224 then 160 \<le> b \<and> b \<le> 191 else if a = 237 then 128 \<le> b \<and> b \<le> 159 else cont_byte b)" for b
    have r: "rune_size (a # cs) = (case cs of b # c # _ \<Rightarrow> if ok b \<and> cont_byte c then 3 else 1 | _ \<Rightarrow> 1)" for cs
      using 3 by (simp add: ok_def split: list.split)
    show ?thesis using i unfolding r by (cases bs; cases "tl bs"; cases j; cases "j - 1") (auto split: if_splits)
  next
    case 4
    define ok where "ok b \<longleftrightarrow> (if a = 240 then 144 \<le> b \<and> b \<le> 191 else if a = 244 then 128 \<le> b \<and> b \<le> 143 else cont_byte b)" for b
    have r: "rune_size (a # cs) = (case cs of b # c # d # _ \<Rightarrow> if ok b \<and> cont_byte c \<and> cont_byte d then 4 else 1 | _ \<Rightarrow> 1)" for cs
      using 4 by (simp add: ok_def split: list.split)
    show ?thesis using i unfolding r by (cases bs; cases "tl bs"; cases "tl (tl bs)"; cases j; cases "j - 1"; cases "j - 2") (auto split: if_splits)
  qed
  then show ?thesis by (simp add: Cons j)
qed simp

lemma rune_count_take: "rune_count_bytes (take i xs) \<le> rune_count_bytes xs + 3"
proof (induction xs arbitrary: i rule: rune_count_bytes.induct)
  case (1 xs)
  show ?case
  proof (cases "xs = [] \<or> take i xs = []")
    case False
    then have xs: "xs \<noteq> []" "take i xs \<noteq> []" by simp_all
    have four: "rune_size xs \<le> 4" by (cases xs) (auto split: list.splits)
    show ?thesis
    proof (cases "rune_size xs \<le> i")
      case True
      have "rune_count_bytes (take i xs) = Suc (rune_count_bytes (take (i - rune_size xs) (drop (rune_size xs) xs)))"
        using xs rune_size_take [OF True xs(1)] by (subst rune_count_bytes.simps) (simp add: drop_take)
      also have "\<dots> \<le> Suc (rune_count_bytes (drop (rune_size xs) xs) + 3)" using 1 [OF xs(1), of "i - rune_size xs"] by linarith
      also have "\<dots> = rune_count_bytes xs + 3" using xs(1) by (subst (2) rune_count_bytes.simps) simp
      finally show ?thesis .
    next
      case False
      have "rune_count_bytes (take i xs) \<le> i" using rune_count_bytes_le [of "take i xs"] by simp
      with False four show ?thesis by simp
    qed
  next
    case True
    then have "length (take i xs) = 0" by auto
    then show ?thesis using rune_count_bytes_le [of "take i xs"] by (metis add_leD2 le_0_eq le_add1 zero_le)
  qed
qed

lemma snippet_at_Some: "idx \<le> length content \<Longrightarrow> snippet_at content idx \<noteq> None"
  using rune_count_take [of idx "map of_char content"]
  by (auto simp: snippet_at_def Let_def rune_count_def length_runes_of take_map)

section \<open>What a search finds\<close>

definition keeps_length :: "unicode \<Rightarrow> knowledge_document \<Rightarrow> bool" where
  "keeps_length u d \<longleftrightarrow> length (lower_text u (trim_space (kd_Content d))) = length (trim_space (kd_Content d))"

lemma buildSnippet_Some:
  assumes "keeps_length u d"
  shows "buildSnippet u (kd_Content d) terms \<noteq> None"
proof -
  have "snippet_at (trim_space (kd_Content d)) i \<noteq> None" if "index_sub (lower_text u (trim_space (kd_Content d))) t = Some i" for t i
    using index_sub_le [OF that] assms by (intro snippet_at_Some) (simp add: keeps_length_def)
  then show ?thesis by (auto simp: buildSnippet_def Let_def dest!: find_Some_iff_in split: option.split)
qed

text \<open>The source of a document, when it has one.\<close>

definition source_of :: "unicode \<Rightarrow> string \<Rightarrow> string list \<Rightarrow> knowledge_document \<Rightarrow> knowledge_source" where
  "source_of u question terms d = \<lparr>ks_Path = kd_Path d, ks_Title = kd_Title d, ks_Snippet = the (buildSnippet u (kd_Content d) terms),
     ks_Score = scoreKnowledgeDocument u d question terms\<rparr>"

lemma score_documents_eq:
  "\<forall>d\<in>set docs. keeps_length u d \<Longrightarrow> score_documents u question terms docs
     = Some (map (source_of u question terms) (filter (\<lambda>d. 0 < scoreKnowledgeDocument u d question terms) docs))"
proof (induction docs)
  case (Cons d docs)
  from Cons.prems buildSnippet_Some [of u d terms] obtain sn where "buildSnippet u (kd_Content d) terms = Some sn" by auto
  with Cons show ?case by (simp add: source_of_def Let_def)
qed simp

lemma take_sorted_best:
  fixes f :: "'a \<Rightarrow> 'k::linorder"
  assumes "x \<in> set xs" "x \<notin> set (take n (sort_key f xs))"
  shows "length (take n (sort_key f xs)) = n \<and> (\<forall>y\<in>set (take n (sort_key f xs)). f y \<le> f x)"
proof -
  let ?s = "sort_key f xs"
  have x: "x \<in> set (drop n ?s)" using assms append_take_drop_id [of n ?s] by (metis Un_iff set_append set_sort)
  then have "n < length ?s" by (cases "n < length ?s") auto
  moreover have "sorted (map f (take n ?s) @ map f (drop n ?s))" by (simp flip: map_append)
  ultimately show ?thesis using x by (auto simp: sorted_append)
qed

text \<open>The terms of a question, and the source a document would be.\<close>

definition terms_of :: "unicode \<Rightarrow> string \<Rightarrow> string list" where
  "terms_of u question = (if trim_space question = [] then [] else extractSearchTerms u (trim_space question))"

definition source_for :: "unicode \<Rightarrow> string \<Rightarrow> knowledge_document \<Rightarrow> knowledge_source" where
  "source_for u question = source_of u (trim_space question) (terms_of u question)"

text \<open>C38. A search returns the best sections: when lower-casing keeps the length of the documents' texts, it does not panic
  and returns at most as many sources as asked for, all of positive score, by falling score; and every
  document that matches is among them, unless as many are there that score at least as much.\<close>

theorem search_returns_the_best:
  assumes "\<forall>d\<in>set docs. keeps_length u d" "n = (if limit \<le> 0 then 3 else nat limit)"
  shows "\<exists>rs. Search u docs question limit = Some rs \<and> length rs \<le> n \<and> sorted_wrt (\<lambda>a b. ks_Score b \<le> ks_Score a) rs
     \<and> (\<forall>k\<in>set rs. 0 < ks_Score k \<and> k \<in> source_for u question ` set docs)
     \<and> (\<forall>d\<in>set docs. terms_of u question \<noteq> [] \<and> 0 < ks_Score (source_for u question d) \<longrightarrow> source_for u question d \<in> set rs
          \<or> (length rs = n \<and> (\<forall>k\<in>set rs. ks_Score (source_for u question d) \<le> ks_Score k)))"
proof (cases "docs = [] \<or> terms_of u question = []")
  case True
  then show ?thesis by (auto simp: Search_def Let_def terms_of_def split: if_splits)
next
  case False
  let ?all = "map (source_for u question) (filter (\<lambda>d. 0 < ks_Score (source_for u question d)) docs)"
  let ?rs = "take n (sort_key source_rank ?all)"
  have run: "Search u docs question limit = Some ?rs"
    using False score_documents_eq [OF assms(1)]
    by (simp add: Search_def Let_def terms_of_def assms(2) source_for_def source_of_def split: if_splits)
  have score: "ks_Score b \<le> ks_Score a" if "source_rank a \<le> source_rank b" for a b
    using that by (auto simp: source_rank_def less_eq_prod_def)
  have "sorted_wrt (\<lambda>a b. source_rank a \<le> source_rank b) ?rs"
    by (rule sorted_wrt_take) (metis sorted_map sorted_sort_key)
  then have "sorted_wrt (\<lambda>a b. ks_Score b \<le> ks_Score a) ?rs" by (rule sorted_wrt_mono_rel [rotated]) (rule score)
  moreover have "0 < ks_Score k \<and> k \<in> source_for u question ` set docs" if "k \<in> set ?rs" for k
    using in_set_takeD [OF that] by auto
  moreover have "source_for u question d \<in> set ?rs \<or> (length ?rs = n \<and> (\<forall>k\<in>set ?rs. ks_Score (source_for u question d) \<le> ks_Score k))"
    if "d \<in> set docs" "0 < ks_Score (source_for u question d)" for d
    using take_sorted_best [of "source_for u question d" ?all n source_rank] that score by auto
  moreover have "length ?rs \<le> n" by simp
  ultimately show ?thesis using run by blast
qed

text \<open>A Unicode that knows ASCII letters and digits and the letter U+023A, whose lower case U+2C65 is one byte longer.\<close>

definition demo_unicode :: unicode where
  "demo_unicode = \<lparr>lower_rune = (\<lambda>r. if r = bytes [200, 186] then bytes [226, 177, 165] else map lower_char r), is_han = \<lambda>_. False,
     is_letter = (\<lambda>r. \<exists>c\<in>set r. 97 \<le> (of_char c :: nat) \<and> (of_char c :: nat) \<le> 122), is_digit = \<lambda>_. False\<rparr>"

definition demo_documents :: "knowledge_document list" where
  "demo_documents = [\<lparr>kd_Path = ''a.md'', kd_Title = ''Kafka'', kd_Content = ''Kafka carries group messages''\<rparr>,
     \<lparr>kd_Path = ''b.md'', kd_Title = ''Redis'', kd_Content = ''Redis keeps routes''\<rparr>]"

lemma lower_text_ascii: "\<forall>c\<in>set s. of_char c < (128::nat) \<Longrightarrow> lower_text demo_unicode s = map lower_char s"
proof -
  assume "\<forall>c\<in>set s. of_char c < (128::nat)"
  moreover from this have "concat (map (\<lambda>r. lower_rune demo_unicode (rune_text r)) (map (\<lambda>c. [c]) s)) = map lower_char s"
    by (induction s) (auto simp: rune_text_def demo_unicode_def bytes_def)
  ultimately show ?thesis by (simp add: lower_text_def runes_of_ascii)
qed

lemma demo_keeps_length: "\<forall>d\<in>set demo_documents. keeps_length demo_unicode d"
  by (simp add: demo_documents_def keeps_length_def trim_space_graphic graphic_def lower_text_ascii)

theorem search_returns_the_best_witness:
  "\<exists>rs. Search demo_unicode demo_documents ''redis'' 1 = Some rs \<and> length rs \<le> 1 \<and> sorted_wrt (\<lambda>a b. ks_Score b \<le> ks_Score a) rs
     \<and> (\<forall>k\<in>set rs. 0 < ks_Score k \<and> k \<in> source_for demo_unicode ''redis'' ` set demo_documents)
     \<and> (\<forall>d\<in>set demo_documents. terms_of demo_unicode ''redis'' \<noteq> [] \<and> 0 < ks_Score (source_for demo_unicode ''redis'' d)
          \<longrightarrow> source_for demo_unicode ''redis'' d \<in> set rs
          \<or> (length rs = 1 \<and> (\<forall>k\<in>set rs. ks_Score (source_for demo_unicode ''redis'' d) \<le> ks_Score k)))"
  by (rule search_returns_the_best [OF demo_keeps_length]) simp

text \<open>A text with six letters that grow when lower-cased makes the search panic.\<close>

lemma lower_text_grows: "lower_text demo_unicode (bytes [200, 186] @ s) = bytes [226, 177, 165] @ lower_text demo_unicode s"
  by (subst lower_text_def, subst runes_of.simps)
    (simp add: Let_def bytes_def lower_text_def rune_text_def demo_unicode_def cont_byte_def)

definition growing_text :: string where
  "growing_text = (let a = bytes [200, 186] in ''x'' @ a @ a @ a @ a @ a @ a @ ''redis'')"

lemma growing_text_panics: "buildSnippet demo_unicode growing_text [''redis''] = None"
proof -
  have "lower_text demo_unicode (CHR ''x'' # s) = CHR ''x'' # lower_text demo_unicode s" for s
    by (subst lower_text_def, subst runes_of.simps)
      (simp add: Let_def lower_text_def rune_text_def demo_unicode_def lower_char_def bytes_def)
  then have "lower_text demo_unicode growing_text = (let a = bytes [226, 177, 165] in ''x'' @ a @ a @ a @ a @ a @ a @ ''redis'')"
    by (simp add: growing_text_def Let_def lower_text_grows lower_text_ascii lower_char_def)
  moreover have "trim_space growing_text = growing_text"
    by (rule trim_space_graphic) (simp add: growing_text_def Let_def graphic_def)
  moreover have "length growing_text = 18" "growing_text \<noteq> []" by (simp_all add: growing_text_def Let_def bytes_def)
  moreover have "index_sub (let a = bytes [226, 177, 165] in ''x'' @ a @ a @ a @ a @ a @ a @ ''redis'') ''redis'' = Some 19"
    by code_simp
  ultimately show ?thesis by (simp add: buildSnippet_def snippet_at_def Let_def)
qed

end
