(* ===== verification/Demo.thy ===== *)
theory Demo
  imports Schema
begin

text \<open>
  A small concrete deployment on which the properties are instantiated: two friends, \<open>al\<close> and \<open>bo\<close>, a group
  \<open>g1\<close> of which both are members, and a codec that knows four messages.
\<close>

definition demo_chat :: wire where
  "demo_chat = empty_wire\<lparr>To := ''bo'', ToType := ''user'', Body := ''hi'', ClientMsgId := ''c1''\<rparr>"

definition demo_sent :: wire where
  "demo_sent = demo_chat\<lparr>From := ''al'', SessionId := ''al:bo'', SeqNo := 1, MessageId := ''al:bo-1'', TraceId := ''t'',
     SentAt := 1000\<rparr>"

definition demo_group :: wire where
  "demo_group = empty_wire\<lparr>To := ''g1'', ToType := ''group'', Body := ''hello'', ClientMsgId := ''c2''\<rparr>"

text \<open>A message to a friend that names a conversation of two other users.\<close>

definition demo_forged :: wire where
  "demo_forged = demo_chat\<lparr>SessionId := ''c2c:cy:di''\<rparr>"

definition demo_codec :: "(wire \<times> string) list" where
  "demo_codec = [(demo_chat, ''p1''), (demo_sent, ''p2''), (demo_group, ''p3''), (demo_forged, ''p4'')]"

definition demo_marshal :: "wire \<Rightarrow> gerr + string" where
  "demo_marshal f = (case map_of demo_codec f of Some p \<Rightarrow> Inr p | None \<Rightarrow> Inl (Msg ''marshal''))"

definition demo_unmarshal :: "string \<Rightarrow> gerr + wire" where
  "demo_unmarshal p = (case map_of (map (\<lambda>(f, p). (p, f)) demo_codec) p of
     Some f \<Rightarrow> Inr f | None \<Rightarrow> Inl (Msg ''unmarshal''))"

definition demo :: cfg where
  "demo = \<lparr>has_db = True, has_rdb = True, ConversationOutbox = True, DeliveryOutbox = True,
     has_dispatcher = True, missing_columns = [], missing_tables = [],
     marshal = demo_marshal, unmarshal = demo_unmarshal,
     attachment_ref = \<lambda>_. None, attachment_json = \<lambda>_. [], fresh_id = \<lambda>_. ''t''\<rparr>"

definition demo_world :: im where
  "demo_world = empty_im\<lparr>
     friend_rows := [\<lparr>fr_user = ''al'', fr_friend = ''bo'', fr_status = ''normal'', fr_updated_at = 1\<rparr>,
                     \<lparr>fr_user = ''bo'', fr_friend = ''al'', fr_status = ''normal'', fr_updated_at = 1\<rparr>],
     member_rows := [\<lparr>gm_group = ''g1'', gm_user = ''al'', gm_role = ''owner'', gm_mute_until = 0,
                      gm_status = ''active'', gm_joined_at = 1\<rparr>,
                     \<lparr>gm_group = ''g1'', gm_user = ''bo'', gm_role = ''member'', gm_mute_until = 0,
                      gm_status = ''active'', gm_joined_at = 2\<rparr>]\<rparr>"

lemma demo_codec_ok: "codec_ok demo"
  by (auto simp: codec_ok_def demo_def demo_marshal_def demo_unmarshal_def demo_codec_def demo_chat_def demo_sent_def
      demo_group_def demo_forged_def empty_wire_def split: if_splits)

lemma demo_simps [exec_defs]:
  "has_db demo" "has_rdb demo" "ConversationOutbox demo" "DeliveryOutbox demo" "has_dispatcher demo"
  "missing_columns demo = []" "missing_tables demo = []" "marshal demo = demo_marshal"
  "unmarshal demo = demo_unmarshal" "attachment_ref demo = (\<lambda>_. None)" "fresh_id demo = (\<lambda>_. ''t'')"
  by (simp_all add: demo_def)

lemma schema_error_demo [exec_defs]: "schema_error demo ts cs = None"
  by (simp add: schema_error_def demo_simps find_None_iff split: option.split)

lemma on_schema_demo [exec_defs]: "on_schema demo ts cs opn w = opn w"
  by (simp add: on_schema_def schema_error_demo)

lemma demo_world_simps [exec_defs]:
  "friend_rows demo_world = [\<lparr>fr_user = ''al'', fr_friend = ''bo'', fr_status = ''normal'', fr_updated_at = 1\<rparr>,
     \<lparr>fr_user = ''bo'', fr_friend = ''al'', fr_status = ''normal'', fr_updated_at = 1\<rparr>]"
  "member_rows demo_world =
     [\<lparr>gm_group = ''g1'', gm_user = ''al'', gm_role = ''owner'', gm_mute_until = 0, gm_status = ''active'', gm_joined_at = 1\<rparr>,
      \<lparr>gm_group = ''g1'', gm_user = ''bo'', gm_role = ''member'', gm_mute_until = 0, gm_status = ''active'', gm_joined_at = 2\<rparr>]"
  "rds demo_world = empty_redis" "msgs demo_world = []" "convs demo_world = []" "conv_members demo_world = []"
  "conv_outbox demo_world = []" "deliv_outbox demo_world = []" "attachments demo_world = []"
  "published demo_world = []" "dispatched demo_world = []" "ws_out demo_world = []" "subscribers demo_world = (\<lambda>_. 0)"
  by (simp_all add: demo_world_def empty_im_def)

lemmas demo_run [exec_defs] = demo_chat_def demo_sent_def demo_group_def demo_forged_def demo_codec_def demo_marshal_def demo_unmarshal_def

end
