(* ===== verification/Message_Ids.thy ===== *)
theory Message_Ids
  imports Demo
begin

text \<open>
  Addressing (internal/logic/handler_ids.go) and the normalisation of an incoming frame
  (\<open>normalizeFrame\<close> of internal/logic/handler.go).  The lemmas show when two conversations get the same
  session id, and that a normalised frame is one the sender may own.
\<close>

definition normalizeGroupID :: "string \<Rightarrow> string" where
  "normalizeGroupID target = trim_prefix target ''group:''"

definition buildSessionID :: "string \<Rightarrow> string \<Rightarrow> string \<Rightarrow> string" where
  "buildSessionID frm to toType =
     (if toType = ''group'' then ''group:'' @ normalizeGroupID to
      else ''c2c:'' @ join_with '':'' (sort [frm, to]))"

definition targetType :: "string \<Rightarrow> string" where
  "targetType target =
     (if has_prefix (to_upper target) ''G'' \<or> has_prefix target ''group:'' \<or> has_prefix target ''c-''
      then ''group'' else ''user'')"

definition normalizeFrame :: "string \<Rightarrow> wire \<Rightarrow> gerr + wire" where
  "normalizeFrame sender frame0 =
    (let frame = (if From frame0 = [] then frame0\<lparr>From := sender\<rparr> else frame0) in
     if From frame \<noteq> sender then Inl (Msg ''sender mismatch'')
     else if To frame = [] \<or> Body frame = [] then Inl (Msg ''to and body are required'')
     else let frame = (if ToType frame = [] then frame\<lparr>ToType := targetType (To frame)\<rparr> else frame) in
       if ToType frame \<noteq> ''user'' \<and> ToType frame \<noteq> ''group'' then Inl (Msg ''unsupported to_type'')
       else Inr (frame\<lparr>MsgType := NORMAL\<rparr>))"

section \<open>Session ids\<close>

lemma buildSessionID_user:
  "t \<noteq> ''group'' \<Longrightarrow> buildSessionID a b t = (if a \<le> b then ''c2c:'' @ a @ '':'' @ b else ''c2c:'' @ b @ '':'' @ a)"
  by (simp add: buildSessionID_def)

lemma buildSessionID_sym: "t \<noteq> ''group'' \<Longrightarrow> buildSessionID a b t = buildSessionID b a t"
  by (auto simp: buildSessionID_user)

lemma append_sep_inject:
  assumes "d \<notin> set a" "d \<notin> set a'" "a @ d # b = a' @ d # b'"
  shows "a = a' \<and> b = b'"
  using assms
proof (induction a arbitrary: a')
  case Nil
  then show ?case by (cases a') auto
next
  case (Cons x xs)
  then show ?case by (cases a') auto
qed

lemma buildSessionID_user_inject:
  assumes "t \<noteq> ''group''" "t' \<noteq> ''group''"
    and "CHR '':'' \<notin> set a \<union> set b \<union> set a' \<union> set b'"
    and "buildSessionID a b t = buildSessionID a' b' t'"
  shows "{a, b} = {a', b'}"
  using assms by (auto simp: buildSessionID_user split: if_splits dest!: append_sep_inject [rotated 2])

lemma normalizeGroupID_idem_on_ids: "\<not> has_prefix g ''group:'' \<Longrightarrow> normalizeGroupID (''group:'' @ g) = g"
  by (simp add: normalizeGroupID_def trim_prefix_def has_prefix_def)

section \<open>Normalised frames\<close>

lemma normalizeFrame_Inr:
  assumes "normalizeFrame u f0 = Inr f"
  shows "From f = u" "To f = To f0" "To f \<noteq> []" "Body f = Body f0" "Body f \<noteq> []" "MsgType f = NORMAL"
    "ToType f = ''user'' \<or> ToType f = ''group''" "ClientMsgId f = ClientMsgId f0" "MessageId f = MessageId f0"
    "SessionId f = SessionId f0" "SeqNo f = SeqNo f0" "TraceId f = TraceId f0"
  using assms by (auto simp: normalizeFrame_def Let_def split: if_splits)

text \<open>What a run unfolds.\<close>

lemmas message_ids_run [exec_defs] =
  normalizeGroupID_def buildSessionID_def targetType_def normalizeFrame_def

section \<open>Properties\<close>

text \<open>A session id identifies the conversation: for user ids without a colon, two one-to-one conversations
  get the same session id exactly when they are between the same two users, whoever sends, and none gets the
  id of a group conversation.\<close>

theorem session_id_identifies_conversation:
  assumes "CHR '':'' \<notin> set a \<union> set b \<union> set a' \<union> set b'"
  shows "(buildSessionID a b ''user'' = buildSessionID a' b' ''user'' \<longleftrightarrow> {a, b} = {a', b'})
       \<and> buildSessionID a b ''user'' \<noteq> buildSessionID x g ''group''"
proof (intro conjI iffI)
  show "{a, b} = {a', b'}" if "buildSessionID a b ''user'' = buildSessionID a' b' ''user''"
    by (rule buildSessionID_user_inject [OF _ _ assms that]) simp_all
  show "buildSessionID a b ''user'' = buildSessionID a' b' ''user''" if "{a, b} = {a', b'}"
    using that by (auto simp: doubleton_eq_iff intro: buildSessionID_sym)
  show "buildSessionID a b ''user'' \<noteq> buildSessionID x g ''group''"
    by (simp add: buildSessionID_def)
qed

theorem session_id_identifies_conversation_witness:
  "buildSessionID ''al'' ''bo'' ''user'' = buildSessionID ''bo'' ''al'' ''user''
     \<and> buildSessionID ''al'' ''bo'' ''user'' \<noteq> buildSessionID ''al'' ''cy'' ''user''"
  using session_id_identifies_conversation [of "''al''" "''bo''" "''bo''" "''al''"]
    session_id_identifies_conversation [of "''al''" "''bo''" "''al''" "''cy''"]
  by (simp add: doubleton_eq_iff)

end
