(* ===== verification/Relations.thy ===== *)
theory Relations
  imports Message_Ids
begin

text \<open>
  Who may send to whom: internal/logic/relations.go, and the attachment check of
  internal/attachment/store.go (\<open>CanonicalizeMessage\<close>) that every message body passes.  The lemmas show
  that a granted permission is backed by a relation row at the moment of the check, and that a body
  naming an attachment only passes when the attachment belongs to the group and the sender is a member.
\<close>

section \<open>Friends and members\<close>

definition isNormalFriend :: "('b rels_scheme) env \<Rightarrow> string \<Rightarrow> string \<Rightarrow> ('b rels_scheme, gerr + bool) io" where
  "isNormalFriend env uid friendID =
     then_ok (query env (\<lambda>s. find (\<lambda>r. fr_user r = uid \<and> fr_friend r = friendID) (friend_rows s)))
       (\<lambda>row. ok (case row of Some r \<Rightarrow> fr_status r = ''normal'' | None \<Rightarrow> False))"

definition member_row_of :: "string \<Rightarrow> string \<Rightarrow> 'b rels_scheme \<Rightarrow> member_row option" where
  "member_row_of groupID uid s = find (\<lambda>r. gm_group r = groupID \<and> gm_user r = uid) (member_rows s)"

definition isActiveGroupMember :: "('b rels_scheme) env \<Rightarrow> string \<Rightarrow> string \<Rightarrow> ('b rels_scheme, gerr + bool) io" where
  "isActiveGroupMember env groupID uid =
     then_ok (query env (member_row_of groupID uid)) (\<lambda>row. case row of
       Some r \<Rightarrow> State_Monad.bind (clock env) (\<lambda>now.
         ok (gm_status r = ''active'' \<and> (gm_mute_until r \<le> 0 \<or> gm_mute_until r \<le> now)))
     | None \<Rightarrow> ok False)"

definition isCurrentGroupMember :: "bool \<Rightarrow> ('b rels_scheme) env \<Rightarrow> string \<Rightarrow> string \<Rightarrow> ('b rels_scheme, gerr + bool) io" where
  "isCurrentGroupMember db env groupID uid =
     (if \<not> db then err (Msg ''group membership store is unavailable'')
      else then_ok (query env (member_row_of groupID uid))
        (\<lambda>row. ok (case row of Some r \<Rightarrow> gm_status r = ''active'' | None \<Rightarrow> False)))"

definition loadGroupRecipientsFromDB :: "('b rels_scheme) env \<Rightarrow> string \<Rightarrow> string \<Rightarrow> ('b rels_scheme, gerr + string list) io" where
  "loadGroupRecipientsFromDB env groupID senderID =
     then_ok (query env (\<lambda>s. map gm_user (order_asc gm_joined_at
         (filter (\<lambda>r. gm_group r = groupID \<and> gm_status r = ''active'' \<and> gm_user r \<noteq> senderID) (member_rows s)))))
       (\<lambda>us. ok (filter (\<lambda>u. u \<noteq> []) us))"

definition validateSendPermission :: "cfg \<Rightarrow> ('b rels_scheme) env \<Rightarrow> wire \<Rightarrow> ('b rels_scheme, gerr + unit) io" where
  "validateSendPermission h env frame =
     (if \<not> has_db h then err (Msg ''relationship store is unavailable'')
      else if ToType frame = ''group'' then
        then_ok (isActiveGroupMember env (To frame) (From frame)) (\<lambda>okay.
          if \<not> okay then err (Msg ''sender is not an active group member'') else ok ())
      else then_ok (isNormalFriend env (From frame) (To frame)) (\<lambda>okay.
          if \<not> okay then err (Msg ''target user is not a normal friend'') else ok ()))"

text \<open>The relation a permission stands for, in the state \<open>s\<close> at time \<open>t\<close>.\<close>

definition may_send :: "int \<Rightarrow> wire \<Rightarrow> 'b rels_scheme \<Rightarrow> bool" where
  "may_send t frame s \<longleftrightarrow>
     (if ToType frame = ''group''
      then \<exists>r\<in>set (member_rows s). gm_group r = To frame \<and> gm_user r = From frame \<and> gm_status r = ''active''
             \<and> (gm_mute_until r \<le> 0 \<or> gm_mute_until r \<le> t)
      else \<exists>r\<in>set (friend_rows s). fr_user r = From frame \<and> fr_friend r = To frame \<and> fr_status r = ''normal'')"

section \<open>Attachments in a message\<close>

definition ErrForbidden :: gerr where
  "ErrForbidden = Msg ''group membership required''"

definition CanonicalizeMessage :: "cfg \<Rightarrow> ('b im_scheme) env \<Rightarrow> string \<Rightarrow> string \<Rightarrow> string \<Rightarrow> ('b im_scheme, gerr + string) io" where
  "CanonicalizeMessage h env sender groupID body =
     (case attachment_ref h body of None \<Rightarrow> ok body
      | Some aid \<Rightarrow> State_Monad.bind (query env (\<lambda>s. find (\<lambda>r. at_id r = aid \<and> at_status r = ''ready'') (attachments s)))
          (\<lambda>res. case res of
             Inr (Some meta) \<Rightarrow>
               if at_group meta \<noteq> groupID \<or> groupID = [] then err ErrForbidden
               else State_Monad.bind (query env (\<lambda>s. length (filter (\<lambda>r. gm_group r = groupID \<and> gm_user r = sender
                       \<and> gm_status r = ''active'') (member_rows s))))
                 (\<lambda>active. case active of Inr n \<Rightarrow> if n = 0 then err ErrForbidden else ok (attachment_json h meta)
                    | Inl _ \<Rightarrow> err ErrForbidden)
           | _ \<Rightarrow> err (Msg ''attachment is unavailable'')))"

section \<open>Correctness\<close>

lemma wp_query_now:
  "(\<And>w'. Q (Inl IoErr) w') \<Longrightarrow> (\<And>w'. Q (Inr (f w')) w') \<Longrightarrow> wp (query env f) Q w"
  by (rule wp_query) auto

lemma isNormalFriend_sound:
  "wp (isNormalFriend env u v) (\<lambda>r s. r = Inr True \<longrightarrow>
     (\<exists>x\<in>set (friend_rows s). fr_user x = u \<and> fr_friend x = v \<and> fr_status x = ''normal'')) w"
  unfolding isNormalFriend_def
  by (rule wp_then_ok, rule wp_query_now)
     (auto intro!: wp_ok split: option.splits dest: find_Some_iff_in)

lemma isActiveGroupMember_sound:
  "wp (isActiveGroupMember env g u) (\<lambda>r s. r = Inr True \<longrightarrow>
     (\<exists>t\<in>range (clock_at env). \<exists>x\<in>set (member_rows s). gm_group x = g \<and> gm_user x = u \<and> gm_status x = ''active''
        \<and> (gm_mute_until x \<le> 0 \<or> gm_mute_until x \<le> t))) w"
  unfolding isActiveGroupMember_def
  by (rule wp_then_ok, rule wp_query_now)
     (auto intro!: wp_ok wp_bind wp_clock_at split: option.splits simp: member_row_of_def dest!: find_Some_iff_in)

lemma isCurrentGroupMember_sound:
  "wp (isCurrentGroupMember db env g u) (\<lambda>r s. r = Inr True \<longrightarrow>
     (\<exists>x\<in>set (member_rows s). gm_group x = g \<and> gm_user x = u \<and> gm_status x = ''active'')) w"
  unfolding isCurrentGroupMember_def
  by (rule wp_if, (rule wp_err; simp), rule wp_then_ok, rule wp_query_now)
     (auto intro!: wp_ok split: option.splits simp: member_row_of_def dest!: find_Some_iff_in)

lemma validateSendPermission_sound:
  "wp (validateSendPermission h env f) (\<lambda>r s. r = Inr () \<longrightarrow> has_db h \<and> (\<exists>t\<in>range (clock_at env). may_send t f s)) w"
  unfolding validateSendPermission_def
  apply (rule wp_if, (rule wp_err; simp), rule wp_if)
   apply (rule wp_then_ok, rule wp_mono [OF isActiveGroupMember_sound])
   apply (auto intro!: wp_ok wp_err simp: may_send_def split: if_splits) [1]
  apply (rule wp_then_ok, rule wp_mono [OF isNormalFriend_sound])
  apply (auto intro!: wp_ok wp_err simp: may_send_def split: if_splits) [1]
  done

lemma keeps_isNormalFriend [keeps_rules]: "relies env I \<Longrightarrow> keeps I (isNormalFriend env u v)"
  unfolding isNormalFriend_def by (intro keeps_rules)

lemma keeps_isActiveGroupMember [keeps_rules]: "relies env I \<Longrightarrow> keeps I (isActiveGroupMember env g u)"
  unfolding isActiveGroupMember_def by (intro keeps_rules)

lemma keeps_isCurrentGroupMember [keeps_rules]: "relies env I \<Longrightarrow> keeps I (isCurrentGroupMember db env g u)"
  unfolding isCurrentGroupMember_def by (intro keeps_rules)

lemma keeps_loadGroupRecipientsFromDB [keeps_rules]: "relies env I \<Longrightarrow> keeps I (loadGroupRecipientsFromDB env g u)"
  unfolding loadGroupRecipientsFromDB_def by (intro keeps_rules)

lemma keeps_validateSendPermission [keeps_rules]: "relies env I \<Longrightarrow> keeps I (validateSendPermission h env f)"
  unfolding validateSendPermission_def by (intro keeps_rules)

lemma keeps_CanonicalizeMessage [keeps_rules]: "relies env I \<Longrightarrow> keeps I (CanonicalizeMessage h env u g b)"
  unfolding CanonicalizeMessage_def by (intro keeps_rules)

text \<open>What a run unfolds.\<close>

lemmas relations_run [exec_defs] =
  isNormalFriend_def member_row_of_def isActiveGroupMember_def isCurrentGroupMember_def
  loadGroupRecipientsFromDB_def validateSendPermission_def ErrForbidden_def CanonicalizeMessage_def

section \<open>Properties\<close>

text \<open>A granted permission is backed by the tables: when \<open>validateSendPermission\<close> lets a message pass, the state it
  leaves has an active membership of the sender in the group, not muted at a time the clock showed, or a normal
  friendship of the sender with the recipient, whatever other processes do and whatever calls fail.\<close>

theorem permission_is_backed:
  "wp (validateSendPermission h env f) (\<lambda>r s. r = Inr () \<longrightarrow> has_db h \<and> (\<exists>t\<in>range (clock_at env). may_send t f s)) w"
  by (rule validateSendPermission_sound)

theorem permission_is_backed_witness:
  "\<exists>n s. run_state (validateSendPermission demo (calm 5) (demo_group\<lparr>From := ''al''\<rparr>)) (0, demo_world) = (Inr (), n, s)
     \<and> may_send 5 (demo_group\<lparr>From := ''al''\<rparr>) s"
proof -
  have "fst (run_state (validateSendPermission demo (calm 5) (demo_group\<lparr>From := ''al''\<rparr>)) (0, demo_world)) = Inr ()"
    by (simp add: exec_defs run_calls cong: lazy_cong)
  from wp_run [OF permission_is_backed this] show ?thesis by auto
qed

text \<open>A body that names an attachment is rewritten from the table, for members only: if \<open>CanonicalizeMessage\<close> accepts
  such a body, the result is the canonical text of a ready attachment of that id and that group, not the text
  the client sent, and the sender is an active member of the group.\<close>

theorem attachment_body_is_canonical:
  assumes "attachment_ref h body = Some aid" "\<And>x. relies env (\<lambda>s. x \<in> set (attachments s))"
  shows "wp (CanonicalizeMessage h env u g body) (\<lambda>r s. \<forall>b. r = Inr b \<longrightarrow>
           (\<exists>x\<in>set (attachments s). at_id x = aid \<and> at_status x = ''ready'' \<and> at_group x = g \<and> b = attachment_json h x)
         \<and> (\<exists>x\<in>set (member_rows s). gm_group x = g \<and> gm_user x = u \<and> gm_status x = ''active'')) w"
proof -
  have members: "wp (query env (\<lambda>s. length (filter (\<lambda>r. gm_group r = g' \<and> gm_user r = u \<and> gm_status r = ''active'') (member_rows s))))
      (\<lambda>r s. (\<exists>n. r = Inr n \<and> n \<noteq> 0) \<longrightarrow> x \<in> set (attachments s)
         \<and> (\<exists>x\<in>set (member_rows s). gm_group x = g' \<and> gm_user x = u \<and> gm_status x = ''active'')) w'"
    if "x \<in> set (attachments w')" for x w' g'
    by (rule wp_query_stable [OF assms(2) that]) (auto simp: filter_empty_conv)
  show ?thesis
    unfolding CanonicalizeMessage_def assms(1) option.case
    apply (rule wp_bind, rule wp_query_now, simp add: wp_err)
    apply (auto simp: wp_err split: option.split dest!: find_Some_iff_in)
    apply (rule wp_bindI [OF members], assumption)
    apply (auto intro!: wp_err wp_ok wp_if split: sum.split)
    done
qed

definition demo_upload :: attachment_row where
  "demo_upload = \<lparr>at_id = ''a1'', at_group = ''g1'', at_uploader = ''al'', at_file_name = ''x.pdf'', at_mime = ''application/pdf'',
     at_size = 4, at_sha256 = [], at_storage_key = ''a1'', at_status = ''ready'', at_created_at = 1\<rparr>"

theorem attachment_body_is_canonical_witness:
  "\<exists>n s. run_state (CanonicalizeMessage (demo\<lparr>attachment_ref := \<lambda>b. Some ''a1'', attachment_json := at_file_name\<rparr>) (calm 5) ''bo'' ''g1'' ''{}'')
      (0, demo_world\<lparr>attachments := [demo_upload]\<rparr>) = (Inr ''x.pdf'', n, s)
     \<and> (\<exists>x\<in>set (member_rows s). gm_group x = ''g1'' \<and> gm_user x = ''bo'' \<and> gm_status x = ''active'')"
proof -
  let ?h = "demo\<lparr>attachment_ref := \<lambda>b. Some ''a1'', attachment_json := at_file_name\<rparr>"
  let ?w = "demo_world\<lparr>attachments := [demo_upload]\<rparr>"
  have run: "fst (run_state (CanonicalizeMessage ?h (calm 5) ''bo'' ''g1'' ''{}'') (0, ?w)) = Inr ''x.pdf''"
    by (simp add: exec_defs run_calls demo_upload_def cong: lazy_cong)
  have "wp (CanonicalizeMessage ?h (calm 5) ''bo'' ''g1'' ''{}'') (\<lambda>r s. \<forall>b. r = Inr b \<longrightarrow>
           (\<exists>x\<in>set (attachments s). at_id x = ''a1'' \<and> at_status x = ''ready'' \<and> at_group x = ''g1'' \<and> b = attachment_json ?h x)
         \<and> (\<exists>x\<in>set (member_rows s). gm_group x = ''g1'' \<and> gm_user x = ''bo'' \<and> gm_status x = ''active'')) ?w"
    by (rule attachment_body_is_canonical) simp_all
  from wp_run [OF this run] show ?thesis by auto
qed

end
