(* ===== verification/Sequence.thy ===== *)
theory Sequence
  imports Idempotency
begin

text \<open>
  Allocation of per-session sequence numbers: internal/logic/handler_sequence.go.  The counter lives in
  Redis; when the key is missing it is seeded from the largest persisted number.  The lemmas show that as
  long as the counter is never behind the table, a new number is larger than every persisted one, and
  that allocation keeps the counter ahead.
\<close>

definition seq_key :: "string \<Rightarrow> string" where
  "seq_key sessionID = ''seq:'' @ sessionID"

definition max_seq :: "string \<Rightarrow> 'b im_scheme \<Rightarrow> int" where
  "max_seq sessionID s = max_or_0 (map ms_seq (filter (\<lambda>r. ms_session_id r = sessionID) (msgs s)))"

definition ensureSequenceInitialized :: "cfg \<Rightarrow> ('b im_scheme) env \<Rightarrow> string \<Rightarrow> string \<Rightarrow> ('b im_scheme, gerr + unit) io" where
  "ensureSequenceInitialized h env key sessionID =
     (if \<not> has_db h then ok ()
      else then_ok (query env (\<lambda>s. strs (rds s) key \<noteq> None)) (\<lambda>exists.
        if exists then ok ()
        else then_ok (query env (max_seq sessionID)) (\<lambda>maxSeq.
          if maxSeq \<le> 0 then ok ()
          else update_w env (on_rds (\<lambda>r. snd (r_setnx key (Num maxSeq) r))))))"

definition nextSequence :: "cfg \<Rightarrow> ('b im_scheme) env \<Rightarrow> string \<Rightarrow> ('b im_scheme, gerr + int) io" where
  "nextSequence h env sessionID =
     (if \<not> has_rdb h then err (Msg ''redis is required for sequence allocation'')
      else let key = seq_key sessionID in
        then_ok (ensureSequenceInitialized h env key sessionID) (\<lambda>_.
          exec env (on_rds_res (r_incr key))))"

section \<open>Numbers are fresh\<close>

text \<open>
  \<open>seq_within sid m\<close>: the session's counter, where present, is not behind the table, and where it is
  missing (never set, or expired) no row is numbered above \<open>m\<close>.
\<close>

definition seq_within :: "string \<Rightarrow> int \<Rightarrow> 'b im_scheme \<Rightarrow> bool" where
  "seq_within sid m s \<longleftrightarrow> (case strs (rds s) (seq_key sid) of
      None \<Rightarrow> max_seq sid s \<le> m | Some (Num n) \<Rightarrow> max_seq sid s \<le> n | Some _ \<Rightarrow> True)"

text \<open>
  What allocation relies on: no other process stores a message of the session and leaves the session's
  counter missing or behind.
\<close>

definition seq_rely :: "string \<Rightarrow> ('b im_scheme) env \<Rightarrow> bool" where
  "seq_rely sid env \<longleftrightarrow> (\<forall>m. relies env (seq_within sid m))"

lemma max_seq_on_rds [simp]: "max_seq sid (on_rds f s) = max_seq sid s"
  by (simp add: max_seq_def)

lemma max_seq_rds [simp]: "max_seq sid (s\<lparr>rds := d\<rparr>) = max_seq sid s"
  by (simp add: max_seq_def)

lemma max_seq_ge: "r \<in> set (msgs s) \<Longrightarrow> ms_session_id r = sid \<Longrightarrow> ms_seq r \<le> max_seq sid s"
  unfolding max_seq_def by (rule max_or_0_ge) auto

lemma max_seq_nonneg: "(\<forall>r\<in>set (msgs s). 0 \<le> ms_seq r) \<Longrightarrow> 0 \<le> max_seq sid s"
  using max_or_0_in [of "map ms_seq (filter (\<lambda>r. ms_session_id r = sid) (msgs s))"]
  by (auto simp: max_seq_def)

lemma seq_within_self: "seq_within sid m s \<Longrightarrow> seq_within sid (max_seq sid s) s"
  by (auto simp: seq_within_def split: option.splits)

lemma seq_within_present: "seq_within sid m s \<Longrightarrow> strs (rds s) (seq_key sid) \<noteq> None \<Longrightarrow> seq_within sid m' s"
  by (auto simp: seq_within_def split: option.splits)

lemma seq_within_seed:
  "seq_within sid m s \<Longrightarrow> seq_within sid m' (on_rds (\<lambda>r. snd (r_setnx (seq_key sid) (Num m) r)) s)"
  by (auto simp: seq_within_def r_setnx_def r_set_def split: option.splits rvalue.splits)

lemma seq_within_incr:
  assumes "seq_within sid 0 s" "on_rds_res (r_incr (seq_key sid)) s = (r, s')"
  shows "seq_within sid 0 s' \<and> (\<forall>n. r = Inr n \<longrightarrow> max_seq sid s' < n)"
  using assms
  by (auto simp: seq_within_def on_rds_res_def r_incr_def r_set_def split: option.splits rvalue.splits if_splits prod.splits)

lemma ensureSequenceInitialized_ahead:
  assumes rely: "seq_rely sid env" and "has_db h" and "seq_within sid m w"
  shows "wp (ensureSequenceInitialized h env (seq_key sid) sid)
           (\<lambda>r s. (\<exists>m. seq_within sid m s) \<and> (r = Inr () \<longrightarrow> seq_within sid 0 s)) w"
proof -
  have st: "relies env (seq_within sid m)" for m using rely by (simp add: seq_rely_def)
  have seed: "wp (update_w env (on_rds (\<lambda>r. snd (r_setnx (seq_key sid) (Num k) r))))
      (\<lambda>r s. (\<exists>m. seq_within sid m s) \<and> (r = Inr () \<longrightarrow> seq_within sid 0 s)) s'"
    if "seq_within sid k s'" for k s'
    by (rule wp_update_stable [OF st [of k] that]) (auto intro: seq_within_seed)
  have read: "wp (query env (max_seq sid)) (\<lambda>r s. (\<forall>e. r = Inl e \<longrightarrow> (\<exists>m. seq_within sid m s))
      \<and> (\<forall>k. r = Inr k \<longrightarrow> seq_within sid k s)) s'" if "seq_within sid m s'" for s'
    by (rule wp_query_stable [OF st [of m] that]) (auto dest: seq_within_self)
  show ?thesis
    unfolding ensureSequenceInitialized_def using \<open>has_db h\<close>
    apply simp
    apply (rule wp_then_ok, rule wp_query_stable [OF st [of m] \<open>seq_within sid m w\<close>])
     apply (auto intro!: wp_if wp_ok wp_then_ok dest: seq_within_present [where m' = 0])
    apply (rule wp_mono [OF read], assumption)
    apply (auto intro!: wp_if wp_ok seed)
    apply (auto simp: seq_within_def split: option.splits)
    done
qed

lemma nextSequence_above:
  assumes "seq_rely sid env" and "has_db h" and "seq_within sid m w"
  shows "wp (nextSequence h env sid)
           (\<lambda>r s. (\<exists>m. seq_within sid m s) \<and> (\<forall>n. r = Inr n \<longrightarrow> max_seq sid s < n)) w"
proof -
  have st: "relies env (seq_within sid 0)" using assms(1) by (simp add: seq_rely_def)
  have incr: "wp (exec env (on_rds_res (r_incr (seq_key sid))))
      (\<lambda>r s. (\<exists>m. seq_within sid m s) \<and> (\<forall>n. r = Inr n \<longrightarrow> max_seq sid s < n)) s'"
    if "seq_within sid 0 s'" for s'
    by (rule wp_exec_stable [OF st that]) (auto dest: seq_within_incr)
  show ?thesis
    unfolding nextSequence_def Let_def
    apply (rule wp_if)
     apply (use assms(3) in \<open>auto intro!: wp_err\<close>)
    apply (rule wp_then_ok, rule wp_mono [OF ensureSequenceInitialized_ahead [OF assms]])
    apply (auto intro!: incr)
    done
qed

text \<open>What a run unfolds.\<close>

lemmas sequence_run [exec_defs] =
  seq_key_def max_seq_def ensureSequenceInitialized_def nextSequence_def

section \<open>Properties\<close>

text \<open>C19. Sequence numbers are fresh: whatever fails and whatever other processes do (as long as none of them leaves the session's
  counter missing or behind the table), a number \<open>nextSequence\<close> hands out is above that of every message of
  the session already stored, also after the counter was lost from Redis and re-seeded from MySQL.\<close>

theorem sequence_above_stored:
  assumes "seq_rely sid env" "has_db h" "seq_within sid m w"
  shows "wp (nextSequence h env sid) (\<lambda>r s. \<forall>n. r = Inr n \<longrightarrow> (\<forall>x\<in>set (msgs s). ms_session_id x = sid \<longrightarrow> ms_seq x < n)) w"
  by (rule wp_mono [OF nextSequence_above [OF assms]]) (auto dest: max_seq_ge)

definition row_of_seq :: "int \<Rightarrow> msg_row" where
  "row_of_seq n = \<lparr>ms_message_id = ''m'', ms_client_msg_id = Some ''c'', ms_conversation_id = ''al:bo'', ms_session_id = ''al:bo'',
     ms_seq = n, ms_from = ''al'', ms_to = ''bo'', ms_to_type = ''user'', ms_content = ''x'', ms_create_time = 1\<rparr>"

text \<open>The counter is gone from Redis and the table has a message with number 7.\<close>

theorem sequence_above_stored_witness:
  "\<exists>n s. run_state (nextSequence demo (calm 5) ''al:bo'') (0, demo_world\<lparr>msgs := [row_of_seq 7]\<rparr>) = (Inr 8, n, s)
     \<and> (\<forall>x\<in>set (msgs s). ms_session_id x = ''al:bo'' \<longrightarrow> ms_seq x < 8)"
proof -
  let ?w = "demo_world\<lparr>msgs := [row_of_seq 7]\<rparr>"
  have "fst (run_state (nextSequence demo (calm 5) ''al:bo'') (0, ?w)) = Inr 8"
    by (simp add: exec_defs run_calls row_of_seq_def cong: lazy_cong)
  moreover have "wp (nextSequence demo (calm 5) ''al:bo'')
      (\<lambda>r s. \<forall>n. r = Inr n \<longrightarrow> (\<forall>x\<in>set (msgs s). ms_session_id x = ''al:bo'' \<longrightarrow> ms_seq x < n)) ?w"
    by (rule sequence_above_stored [where m = 7])
       (simp_all add: seq_rely_def demo_simps seq_within_def max_seq_def max_or_0_def row_of_seq_def demo_world_simps empty_redis_def)
  ultimately show ?thesis by (auto dest: wp_run)
qed

end
