(* ===== verification/Message_Store.thy ===== *)
theory Message_Store
  imports Sequence
begin

text \<open>
  Persistence of a message: internal/logic/handler_store.go.  A message is one row of \<open>messages\<close>; with the
  outboxes enabled the conversation event and the delivery event commit in the same transaction.  Errors
  of MySQL are told apart by their text, as the code does, and a lost race on the client-message key is turned
  into a read of the row that won.
\<close>

section \<open>Telling errors apart\<close>

definition isUnknownColumn :: "gerr \<Rightarrow> string \<Rightarrow> bool" where
  "isUnknownColumn e column \<longleftrightarrow> column \<noteq> [] \<and>
     (let message = to_lower (err_text e) in
        contains_sub message (to_lower column) \<and> contains_sub message ''unknown column'')"

definition isMissingTable :: "gerr \<Rightarrow> string \<Rightarrow> bool" where
  "isMissingTable e table \<longleftrightarrow> table \<noteq> [] \<and>
     (let message = to_lower (err_text e) in
        contains_sub message ''table'' \<and> contains_sub message (to_lower table) \<and>
        (contains_sub message ''doesn't exist'' \<or> contains_sub message ''does not exist''))"

definition isDuplicateEntry :: "gerr \<Rightarrow> bool" where
  "isDuplicateEntry e \<longleftrightarrow> is_dup_key e \<or> contains_sub (to_lower (err_text e)) ''duplicate entry''"

definition isDuplicateClientMessage :: "gerr \<Rightarrow> bool" where
  "isDuplicateClientMessage e \<longleftrightarrow> isDuplicateEntry e \<and>
     (let message = to_lower (err_text e) in
        contains_sub message ''uk_sender_client_msg'' \<or>
        (contains_sub message ''from_uid'' \<and> contains_sub message ''client_msg_id''))"

text \<open>Neither a lost connection nor a duplicate key is taken for a schema that is not migrated.\<close>

lemma no_w_no_unknown_column:
  assumes "CHR ''w'' \<notin> set (err_text e)" "CHR ''W'' \<notin> set (err_text e)"
  shows "\<not> isUnknownColumn e c"
proof
  assume "isUnknownColumn e c"
  then have "contains_sub (to_lower (err_text e)) ''unknown column''" by (simp add: isUnknownColumn_def Let_def)
  from not_contains_lower [OF this, of 119] show False using assms by (simp add: char_of_def bit_iff_odd)
qed

lemma no_x_no_missing_table:
  assumes "CHR ''x'' \<notin> set (err_text e)" "CHR ''X'' \<notin> set (err_text e)"
  shows "\<not> isMissingTable e t"
proof
  assume "isMissingTable e t"
  then have *: "contains_sub (to_lower (err_text e)) ''doesn't exist'' \<or> contains_sub (to_lower (err_text e)) ''does not exist''"
    by (simp add: isMissingTable_def Let_def)
  have "\<not> contains_sub (to_lower (err_text e)) t'" if "CHR ''x'' \<in> set t'" for t'
    using not_contains_lower [of "err_text e" t' 120] assms that by (auto simp: char_of_def bit_iff_odd)
  from this [of "''doesn't exist''"] this [of "''does not exist''"] * show False by simp
qed

lemma schema_errors_told_apart:
  "\<not> isUnknownColumn IoErr c" "\<not> isMissingTable IoErr t"
  "k \<in> fst ` set all_messages_keys \<Longrightarrow> \<not> isUnknownColumn (DupKey k) c"
  "k \<in> fst ` set all_messages_keys \<Longrightarrow> \<not> isMissingTable (DupKey k) t"
  by (auto simp: no_w_no_unknown_column no_x_no_missing_table all_messages_keys_def sql_quote_def)

section \<open>Rows and frames\<close>

definition row_of_frame :: "wire \<Rightarrow> msg_row" where
  "row_of_frame f = \<lparr>ms_message_id = MessageId f, ms_client_msg_id = Some (ClientMsgId f),
     ms_conversation_id = SessionId f, ms_session_id = SessionId f, ms_seq = SeqNo f, ms_from = From f,
     ms_to = To f, ms_to_type = ToType f, ms_content = Body f, ms_create_time = SentAt f\<rparr>"

definition frame_of_row :: "msg_row \<Rightarrow> wire" where
  "frame_of_row r = empty_wire\<lparr>MessageId := ms_message_id r,
     ClientMsgId := (case ms_client_msg_id r of Some c \<Rightarrow> c | None \<Rightarrow> []), SessionId := ms_session_id r,
     SeqNo := ms_seq r, From := ms_from r, To := ms_to r, ToType := ms_to_type r, Body := ms_content r,
     SentAt := ms_create_time r, MsgType := NORMAL\<rparr>"

definition loadMessageByClientMsgID :: "cfg \<Rightarrow> ('b im_scheme) env \<Rightarrow> string \<Rightarrow> string \<Rightarrow> ('b im_scheme, gerr + wire option) io" where
  "loadMessageByClientMsgID h env senderID clientMsgID =
     (if \<not> has_db h \<or> senderID = [] \<or> clientMsgID = [] then ok None
      else State_Monad.bind
        (exec env (on_schema h [''messages''] [''client_msg_id'', ''conversation_id''] (\<lambda>s.
           (Inr (find (\<lambda>r. ms_from r = senderID \<and> ms_client_msg_id r = Some clientMsgID) (msgs s)), s))))
        (\<lambda>res. case res of
           Inr row \<Rightarrow> ok (map_option frame_of_row row)
         | Inl e \<Rightarrow> if isUnknownColumn e ''client_msg_id'' \<or> isUnknownColumn e ''conversation_id'' then ok None else err e))"

section \<open>The three plain inserts\<close>

definition saveMessageLegacy :: "cfg \<Rightarrow> ('b im_scheme) env \<Rightarrow> wire \<Rightarrow> ('b im_scheme, gerr + bool \<times> wire) io" where
  "saveMessageLegacy h env frame =
     then_ok (exec env (on_schema h [''messages''] [] (run_insert msgs msgs_update
        (ins (messages_keys h) ((row_of_frame frame)\<lparr>ms_client_msg_id := None\<rparr>)))))
      (\<lambda>_. ok (True, frame))"

definition saveMessageWithoutClientID :: "cfg \<Rightarrow> ('b im_scheme) env \<Rightarrow> wire \<Rightarrow> ('b im_scheme, gerr + bool \<times> wire) io" where
  "saveMessageWithoutClientID h env frame =
     State_Monad.bind (exec env (on_schema h [''messages''] [''conversation_id''] (run_insert msgs msgs_update
        (ins (messages_keys h) ((row_of_frame frame)\<lparr>ms_client_msg_id := None\<rparr>)))))
      (\<lambda>res. case res of
         Inl e \<Rightarrow> if isUnknownColumn e ''conversation_id'' then saveMessageLegacy h env frame else err e
       | Inr _ \<Rightarrow> ok (True, frame))"

text \<open>
  The answer of a save: whether this call stored the message, and the frame, replaced by the stored
  message when another request of the same client message won the race.
\<close>

definition after_failed_insert :: "cfg \<Rightarrow> ('b im_scheme) env \<Rightarrow> wire \<Rightarrow> gerr \<Rightarrow> ('b im_scheme, gerr + bool \<times> wire) io" where
  "after_failed_insert h env frame e =
     (if isDuplicateClientMessage e then
        then_ok (loadMessageByClientMsgID h env (From frame) (ClientMsgId frame))
          (\<lambda>existing. case existing of Some m \<Rightarrow> ok (False, m) | None \<Rightarrow> err e)
      else err e)"

definition saveMessageWithoutOutbox :: "cfg \<Rightarrow> ('b im_scheme) env \<Rightarrow> wire \<Rightarrow> ('b im_scheme, gerr + bool \<times> wire) io" where
  "saveMessageWithoutOutbox h env frame =
     (if \<not> has_db h then ok (True, frame)
      else State_Monad.bind
        (exec env (on_schema h [''messages''] [''client_msg_id'', ''conversation_id''] (run_insert msgs msgs_update
           (ins (messages_keys h) (row_of_frame frame)))))
        (\<lambda>res. case res of
           Inl e \<Rightarrow> if isUnknownColumn e ''client_msg_id'' then saveMessageWithoutClientID h env frame
                    else if isUnknownColumn e ''conversation_id'' then saveMessageLegacy h env frame
                    else after_failed_insert h env frame e
         | Inr _ \<Rightarrow> ok (True, frame)))"

section \<open>Message and outbox events in one transaction\<close>

definition next_id :: "('r \<Rightarrow> int) \<Rightarrow> 'r list \<Rightarrow> int" where
  "next_id key rows = max_or_0 (map key rows) + 1"

definition enqueue_conversation :: "wire \<Rightarrow> conv_outbox_row list \<Rightarrow> conv_outbox_row list" where
  "enqueue_conversation f rows = upsert (\<lambda>a b. co_message_id a = co_message_id b) id
     \<lparr>co_id = next_id co_id rows, co_message_id = MessageId f, co_session_id = SessionId f, co_from = From f,
      co_to = To f, co_to_type = ToType f, co_seq = SeqNo f, co_sent_at = SentAt f, co_status = Pending,
      co_attempts = 0, co_available_at = SentAt f, co_last_error = [], co_processed_at = None\<rparr> rows"

definition enqueue_delivery :: "wire \<Rightarrow> string list \<Rightarrow> deliv_row list \<Rightarrow> deliv_row list" where
  "enqueue_delivery f recipients rows = upsert (\<lambda>a b. do_message_id a = do_message_id b) id
     \<lparr>do_id = next_id do_id rows, do_message_id = MessageId f, do_trace_id = TraceId f,
      do_recipients = Some recipients, do_status = Pending, do_attempts = 0, do_available_at = SentAt f,
      do_last_error = [], do_updated_at = SentAt f, do_processed_at = None\<rparr> rows"

text \<open>How the transaction of \<open>saveMessageWithOutbox\<close> ends, before the code that runs after a rollback.\<close>

datatype tx_stage = Stored | NotHandled | InsertFailed gerr

definition outbox_tx :: "cfg \<Rightarrow> wire \<Rightarrow> string list \<Rightarrow> ('b im_scheme) env \<Rightarrow> ('b im_scheme, tx_stage tx_end) io" where
  "outbox_tx h frame recipients tx =
     State_Monad.bind
       (exec tx (on_schema h [''messages''] [''client_msg_id'', ''conversation_id''] (run_insert msgs msgs_update
          (ins (messages_keys h) (row_of_frame frame)))))
       (\<lambda>res. case res of
          Inl e \<Rightarrow> State_Monad.return (Rollback (Inr
            (if isUnknownColumn e ''client_msg_id'' \<or> isUnknownColumn e ''conversation_id''
                \<or> isMissingTable e ''conversation_outbox'' then NotHandled else InsertFailed e)))
        | Inr _ \<Rightarrow>
          State_Monad.bind
            (exec tx (on_schema h [''conversation_outbox''] []
               (\<lambda>s. (Inr (), s\<lparr>conv_outbox := enqueue_conversation frame (conv_outbox s)\<rparr>))))
            (\<lambda>res. case res of
               Inl e \<Rightarrow> State_Monad.return (Rollback
                 (if isMissingTable e ''conversation_outbox'' then Inr NotHandled else Inl e))
             | Inr _ \<Rightarrow>
               if DeliveryOutbox h then
                 then_tx (exec tx (on_schema h [''delivery_outbox''] []
                    (\<lambda>s. (Inr (), s\<lparr>deliv_outbox := enqueue_delivery frame recipients (deliv_outbox s)\<rparr>))))
                   (\<lambda>_. State_Monad.return (Commit (Inr Stored)))
               else State_Monad.return (Commit (Inr Stored))))"

text \<open>\<open>None\<close> is \<open>handled = false\<close>: the schema has no outbox.\<close>

definition saveMessageWithOutbox :: "cfg \<Rightarrow> ('b im_scheme) env \<Rightarrow> wire \<Rightarrow> string list \<Rightarrow> ('b im_scheme, gerr + (bool \<times> wire) option) io" where
  "saveMessageWithOutbox h env frame recipients =
     then_ok (in_tx env (outbox_tx h frame recipients)) (\<lambda>stage. case stage of
        Stored \<Rightarrow> ok (Some (True, frame))
      | NotHandled \<Rightarrow> ok None
      | InsertFailed e \<Rightarrow> then_ok (after_failed_insert h env frame e) (\<lambda>r. ok (Some r)))"

definition saveMessageWithRecipients :: "cfg \<Rightarrow> ('b im_scheme) env \<Rightarrow> wire \<Rightarrow> string list \<Rightarrow> ('b im_scheme, gerr + bool \<times> wire) io" where
  "saveMessageWithRecipients h env frame recipients =
     (if ConversationOutbox h \<and> has_db h then
        then_ok (saveMessageWithOutbox h env frame recipients) (\<lambda>r. case r of
          Some res \<Rightarrow> ok res | None \<Rightarrow> saveMessageWithoutOutbox h env frame)
      else saveMessageWithoutOutbox h env frame)"

definition saveMessage :: "cfg \<Rightarrow> ('b im_scheme) env \<Rightarrow> wire \<Rightarrow> ('b im_scheme, gerr + bool \<times> wire) io" where
  "saveMessage h env frame = saveMessageWithRecipients h env frame []"

section \<open>Durability\<close>

text \<open>The configuration of the production service (cmd/logic/main.go) on the schema of \<open>sql/init.sql\<close>.\<close>

definition production :: "cfg \<Rightarrow> bool" where
  "production h \<longleftrightarrow> has_db h \<and> has_rdb h \<and> ConversationOutbox h \<and> DeliveryOutbox h
     \<and> missing_columns h = [] \<and> missing_tables h = []"

lemma schema_error_production: "production h \<Longrightarrow> schema_error h ts cs = None"
  by (simp add: production_def schema_error_def find_None_iff_all split: option.splits)

lemma on_schema_production: "production h \<Longrightarrow> on_schema h ts cs opn w = opn w"
  by (simp add: on_schema_def schema_error_production)

lemma messages_keys_production: "production h \<Longrightarrow> messages_keys h = all_messages_keys"
  by (auto simp: messages_keys_def production_def)

text \<open>A message of sender \<open>u\<close> with client id \<open>c\<close> is durable: its row and its delivery event exist.\<close>

definition has_event :: "msg_row \<Rightarrow> 'b im_scheme \<Rightarrow> bool" where
  "has_event r s \<longleftrightarrow> ms_message_id r \<in> do_message_id ` set (deliv_outbox s)"

definition durable :: "string \<Rightarrow> string \<Rightarrow> 'b im_scheme \<Rightarrow> bool" where
  "durable u c s \<longleftrightarrow> (\<exists>r\<in>set (msgs s). ms_from r = u \<and> ms_client_msg_id r = Some c \<and> has_event r s)"

definition outbox_complete :: "'b im_scheme \<Rightarrow> bool" where
  "outbox_complete s \<longleftrightarrow> (\<forall>r\<in>set (msgs s). ms_client_msg_id r \<noteq> None \<longrightarrow> has_event r s)"

text \<open>A committed idempotency record in Redis is backed by a durable message.\<close>

definition committed_sound :: "'b im_scheme \<Rightarrow> bool" where
  "committed_sound s \<longleftrightarrow> (\<forall>u c v. CHR '':'' \<notin> set u \<longrightarrow> strs (rds s) (clientMessageKey u c) = Some v
     \<longrightarrow> finished_value v \<longrightarrow> durable u c s)"

definition accept_inv :: "'b im_scheme \<Rightarrow> bool" where
  "accept_inv s \<longleftrightarrow> outbox_complete s \<and> committed_sound s"

text \<open>
  The part of the state these conditions read.  An operation that leaves it alone keeps each of them,
  and so does every other process on which a handler relies.
\<close>

definition core :: "'b im_scheme \<Rightarrow> msg_row list \<times> string list \<times> (string \<Rightarrow> rvalue option)" where
  "core s = (msgs s, map do_message_id (deliv_outbox s), \<lambda>k. strs (rds s) (''client_msg:'' @ k))"

definition of_core :: "('b im_scheme \<Rightarrow> bool) \<Rightarrow> bool" where
  "of_core I \<longleftrightarrow> reads core I"

lemma core_eqD:
  assumes "core s = core s'"
  shows "msgs s = msgs s'" "do_message_id ` set (deliv_outbox s) = do_message_id ` set (deliv_outbox s')"
    "strs (rds s) (clientMessageKey u c) = strs (rds s') (clientMessageKey u c)"
proof -
  show "msgs s = msgs s'" using assms by (simp add: core_def)
  have "map do_message_id (deliv_outbox s) = map do_message_id (deliv_outbox s')" using assms by (simp add: core_def)
  then show "do_message_id ` set (deliv_outbox s) = do_message_id ` set (deliv_outbox s')"
    by (metis set_map)
  have "(\<lambda>k. strs (rds s) (''client_msg:'' @ k)) = (\<lambda>k. strs (rds s') (''client_msg:'' @ k))"
    using assms by (simp add: core_def)
  from fun_cong [OF this, of "u @ '':'' @ c"]
  show "strs (rds s) (clientMessageKey u c) = strs (rds s') (clientMessageKey u c)"
    by (simp add: clientMessageKey_def)
qed

lemma of_core_durable: "of_core (durable u c)"
  unfolding of_core_def reads_def durable_def has_event_def using core_eqD(1,2) by metis

lemma of_core_accept_inv: "of_core accept_inv"
proof -
  have "accept_inv s'" if "core s = core s'" "accept_inv s" for s s' :: "'a im_scheme"
    using that(2) core_eqD [OF that(1)]
    by (simp add: accept_inv_def outbox_complete_def committed_sound_def durable_def has_event_def)
  then show ?thesis unfolding of_core_def reads_def by blast
qed

lemma of_core_conj: "of_core I \<Longrightarrow> of_core J \<Longrightarrow> of_core (\<lambda>s. I s \<and> J s)"
  unfolding of_core_def by (rule reads_conj)

text \<open>Operations outside the core.\<close>

lemma core_on_rds:
  "(\<And>k d. strs (f d) (''client_msg:'' @ k) = strs d (''client_msg:'' @ k)) \<Longrightarrow> core (on_rds f s) = core s"
  by (simp add: core_def)

lemma core_rds: "(\<And>k. strs d (''client_msg:'' @ k) = strs (rds s) (''client_msg:'' @ k)) \<Longrightarrow> core (s\<lparr>rds := d\<rparr>) = core s"
  by (simp add: core_def)

lemma keeps_exec_core:
  "relies env I \<Longrightarrow> of_core I \<Longrightarrow> (\<And>s. core (snd (opn s)) = core s) \<Longrightarrow> keeps I (exec env opn)"
  unfolding of_core_def by (rule keeps_exec_reads)

lemma keeps_update_core:
  "relies env I \<Longrightarrow> of_core I \<Longrightarrow> (\<And>s. core (g s) = core s) \<Longrightarrow> keeps I (update_w env g)"
  unfolding of_core_def by (rule keeps_update_reads)

lemma keeps_rds_core:
  "relies env I \<Longrightarrow> of_core I \<Longrightarrow> (\<And>k d. strs (f d) (''client_msg:'' @ k) = strs d (''client_msg:'' @ k))
   \<Longrightarrow> keeps I (update_w env (on_rds f))"
  by (rule keeps_update_core) (auto simp: core_on_rds)

section \<open>What a save guarantees\<close>

lemma loadMessageByClientMsgID_sound:
  "wp (loadMessageByClientMsgID h env u c) (\<lambda>r s. \<forall>m. r = Inr (Some m) \<longrightarrow>
      (\<exists>x\<in>set (msgs s). ms_from x = u \<and> ms_client_msg_id x = Some c \<and> m = frame_of_row x)) w"
  unfolding loadMessageByClientMsgID_def
  by (rule wp_if, simp add: wp_ok, rule wp_bind, rule wp_exec)
     (auto intro!: wp_ok wp_err wp_if simp: on_schema_def split: option.splits dest!: find_Some_iff_in)

lemma keeps_load [keeps_rules]: "relies env I \<Longrightarrow> keeps I (loadMessageByClientMsgID h env u c)"
  unfolding loadMessageByClientMsgID_def
  by (intro keeps_if keeps_ok keeps_bind keeps_case_sum keeps_err keeps_exec)
     (auto simp: on_schema_def split: option.splits)

lemma keeps_after_failed_insert [keeps_rules]: "relies env I \<Longrightarrow> keeps I (after_failed_insert h env f e)"
  unfolding after_failed_insert_def by (intro keeps_rules)

text \<open>The effect of a committed outbox transaction.\<close>

definition stored_state :: "wire \<Rightarrow> string list \<Rightarrow> 'b im_scheme \<Rightarrow> 'b im_scheme" where
  "stored_state f recipients s = s\<lparr>msgs := msgs s @ [row_of_frame f],
     conv_outbox := enqueue_conversation f (conv_outbox s),
     deliv_outbox := enqueue_delivery f recipients (deliv_outbox s)\<rparr>"

lemma outbox_tx_end:
  assumes "production h"
  shows "wp (outbox_tx h f rs (quiet env)) (\<lambda>r s. case r of
             Commit a \<Rightarrow> a = Inr Stored \<and> clash all_messages_keys (row_of_frame f) (msgs w) = None
               \<and> s = stored_state f rs w
           | Rollback x \<Rightarrow> x \<noteq> Inr Stored \<and> x \<noteq> Inr NotHandled) w"
proof -
  have del: "DeliveryOutbox h" using assms by (simp add: production_def)
  have dup: "\<not> isUnknownColumn e c \<and> \<not> isMissingTable e t"
    if "ins all_messages_keys r rows = Inl e" for e r rows c t
    using that by (metis ins_Inl_D clash_Some_key schema_errors_told_apart(3,4))
  show ?thesis
    unfolding outbox_tx_def on_schema_production [OF assms] messages_keys_production [OF assms]
    apply (rule wp_bind, rule wp_exec)
     apply (simp add: wp_return schema_errors_told_apart)
    apply (auto simp: run_insert_def wp_return schema_errors_told_apart dup del split: sum.split)
    apply (rule wp_bind, rule wp_exec)
     apply (simp add: wp_return schema_errors_told_apart)
    apply (simp add: wp_return schema_errors_told_apart)
    apply (rule wp_then_tx, rule wp_exec)
     apply (auto simp: stored_state_def ins_Inr_iff intro!: wp_return)
    done
qed

lemma do_ids_enqueue: "do_message_id ` set (enqueue_delivery f rs rows) = insert (MessageId f) (do_message_id ` set rows)"
  by (auto simp: enqueue_delivery_def upsert_def list_ex_iff upd_def image_iff)

lemma msgs_stored [simp]: "msgs (stored_state f rs s) = msgs s @ [row_of_frame f]"
  by (simp add: stored_state_def)

lemma rds_stored [simp]: "rds (stored_state f rs s) = rds s"
  by (simp add: stored_state_def)

lemma has_event_stored: "has_event r s \<Longrightarrow> has_event r (stored_state f rs s)"
  by (simp add: has_event_def stored_state_def do_ids_enqueue)

lemma has_event_new: "has_event (row_of_frame f) (stored_state f rs s)"
  by (simp add: has_event_def stored_state_def do_ids_enqueue row_of_frame_def)

lemma durable_stored: "durable u c s \<Longrightarrow> durable u c (stored_state f rs s)"
  by (auto simp: durable_def intro: has_event_stored)

lemma durable_new: "durable (From f) (ClientMsgId f) (stored_state f rs s)"
  by (auto simp: durable_def row_of_frame_def intro: has_event_new [unfolded row_of_frame_def])

lemma accept_inv_stored: "accept_inv s \<Longrightarrow> accept_inv (stored_state f rs s)"
  by (auto simp: accept_inv_def outbox_complete_def committed_sound_def
      intro: has_event_stored has_event_new durable_stored)

lemma durable_if_row:
  "accept_inv s \<Longrightarrow> x \<in> set (msgs s) \<Longrightarrow> ms_from x = u \<Longrightarrow> ms_client_msg_id x = Some c \<Longrightarrow> durable u c s"
  unfolding accept_inv_def outbox_complete_def durable_def by (metis option.distinct(1))

lemma after_failed_insert_durable:
  assumes "relies env accept_inv" "accept_inv w"
  shows "wp (after_failed_insert h env f e) (\<lambda>r s. accept_inv s \<and> (\<forall>b f'. r = Inr (b, f') \<longrightarrow>
           \<not> b \<and> durable (From f) (ClientMsgId f) s \<and> From f' = From f \<and> ClientMsgId f' = ClientMsgId f)) w"
proof -
  have load: "wp (loadMessageByClientMsgID h env (From f) (ClientMsgId f))
      (\<lambda>r s. (\<forall>m. r = Inr (Some m) \<longrightarrow> (\<exists>x\<in>set (msgs s). ms_from x = From f
         \<and> ms_client_msg_id x = Some (ClientMsgId f) \<and> m = frame_of_row x)) \<and> accept_inv s) w"
    by (intro wp_conj loadMessageByClientMsgID_sound keeps_wp [OF keeps_load] assms)
  show ?thesis
    unfolding after_failed_insert_def
    apply (rule wp_if)
     apply (rule wp_then_okI [OF load], simp)
    subgoal for e s by (cases e) (auto intro!: wp_ok wp_err simp: frame_of_row_def intro: durable_if_row)
    using assms(2) by (auto intro: wp_err)
qed

lemma saveMessageWithOutbox_durable:
  assumes "production h" "relies env accept_inv" "accept_inv w"
  shows "wp (saveMessageWithOutbox h env f rs) (\<lambda>r s. accept_inv s \<and> r \<noteq> Inr None \<and> (\<forall>b f'. r = Inr (Some (b, f')) \<longrightarrow>
           durable (From f) (ClientMsgId f) s \<and> From f' = From f \<and> ClientMsgId f' = ClientMsgId f \<and> (b \<longrightarrow> f' = f))) w"
proof -
  have inv: "accept_inv (interfere env n w)" for n using assms(2,3) by (simp add: relies_def)
  have tx: "wp (in_tx env (outbox_tx h f rs)) (\<lambda>r s. accept_inv s \<and> r \<noteq> Inr NotHandled
      \<and> (r = Inr Stored \<longrightarrow> durable (From f) (ClientMsgId f) s)) w"
  proof (rule wp_in_tx, goal_cases)
    case (1 n)
    then show ?case using inv by simp
  next
    case (2 n)
    show ?case
      by (rule wp_mono [OF outbox_tx_end [OF assms(1)]])
         (auto split: tx_end.splits simp: inv accept_inv_stored durable_new)
  qed
  show ?thesis
    unfolding saveMessageWithOutbox_def
    apply (rule wp_then_okI [OF tx], simp)
    subgoal for stage s
      apply (cases stage)
        apply (simp_all add: wp_ok)
      apply (rule wp_then_okI [OF after_failed_insert_durable [OF assms(2)]])
        apply (auto intro!: wp_ok)
      done
    done
qed

lemma saveMessageWithRecipients_durable:
  assumes "production h" "relies env accept_inv" "accept_inv w"
  shows "wp (saveMessageWithRecipients h env f rs) (\<lambda>r s. accept_inv s \<and> (\<forall>b f'. r = Inr (b, f') \<longrightarrow>
           durable (From f) (ClientMsgId f) s \<and> From f' = From f \<and> ClientMsgId f' = ClientMsgId f \<and> (b \<longrightarrow> f' = f))) w"
  unfolding saveMessageWithRecipients_def
  apply (rule wp_if)
   apply (rule wp_then_okI [OF saveMessageWithOutbox_durable [OF assms]], simp)
  subgoal for r s by (cases r) (auto intro!: wp_ok)
  using assms(1) by (simp add: production_def)

text \<open>What a run unfolds.\<close>

lemmas message_store_run [exec_defs] =
  isUnknownColumn_def isMissingTable_def isDuplicateEntry_def isDuplicateClientMessage_def
  row_of_frame_def frame_of_row_def loadMessageByClientMsgID_def saveMessageLegacy_def
  saveMessageWithoutClientID_def after_failed_insert_def saveMessageWithoutOutbox_def next_id_def
  enqueue_conversation_def enqueue_delivery_def outbox_tx_def saveMessageWithOutbox_def
  saveMessageWithRecipients_def saveMessage_def

section \<open>Properties\<close>

text \<open>Storing is all or nothing: in the production configuration and with no interference, whatever calls fail,
  \<open>saveMessageWithOutbox\<close> leaves the state either as it was or with the message row, its conversation event
  and its delivery event all added; and when it answers that it stored the message, they are.\<close>

theorem save_is_atomic:
  assumes "production h" "\<And>n s. interfere env n s = s"
  shows "wp (saveMessageWithOutbox h env f rs) (\<lambda>r s. (s = w \<or> s = stored_state f rs w)
           \<and> (\<forall>f'. r = Inr (Some (True, f')) \<longrightarrow> s = stored_state f rs w \<and> f' = f)) w"
proof -
  have tx: "wp (in_tx env (outbox_tx h f rs)) (\<lambda>r s. (s = w \<or> s = stored_state f rs w) \<and> (r = Inr Stored \<longrightarrow> s = stored_state f rs w)) w"
    by (rule wp_in_tx, simp add: assms(2), rule wp_mono [OF outbox_tx_end [OF assms(1)]])
       (auto split: tx_end.splits simp: assms(2))
  have rest: "wp (after_failed_insert h env f e) (\<lambda>r s. s = s0 \<and> (\<forall>b f'. r = Inr (b, f') \<longrightarrow> \<not> b)) s0" for e s0
  proof -
    have "relies env (\<lambda>s. s = s0)" by (simp add: relies_def assms(2))
    from keeps_wp [OF keeps_load [OF this] refl]
    have load: "wp (loadMessageByClientMsgID h env (From f) (ClientMsgId f)) (\<lambda>_ s. s = s0) s0" .
    show ?thesis
      unfolding after_failed_insert_def
      by (rule wp_if, rule wp_then_okI [OF load]) (auto split: option.split intro!: wp_ok wp_err)
  qed
  show ?thesis
    unfolding saveMessageWithOutbox_def
    apply (rule wp_then_okI [OF tx], simp)
    subgoal for stage s
      apply (cases stage)
        apply (simp_all add: wp_ok)
      apply (rule wp_then_okI [OF rest])
       apply (auto intro!: wp_ok)
      done
    done
qed

theorem save_is_atomic_witness:
  "\<exists>n. run_state (saveMessageWithOutbox demo (calm 5) demo_sent [''bo'']) (0, demo_world)
     = (Inr (Some (True, demo_sent)), n, stored_state demo_sent [''bo''] demo_world)"
proof -
  have "fst (run_state (saveMessageWithOutbox demo (calm 5) demo_sent [''bo'']) (0, demo_world)) = Inr (Some (True, demo_sent))"
    by (simp add: exec_defs run_calls ins_def clash_def cong: lazy_cong)
  from wp_run [OF save_is_atomic [of demo "calm 5"] this] show ?thesis
    by (auto simp: production_def demo_simps)
qed

end
