(* ===== verification/Route.thy ===== *)
theory Route
  imports Message_Store
begin

text \<open>
  The routing table in Redis: internal/server/route.go, and \<open>RouteMatchesConnection\<close> and \<open>MarkOffline\<close> of
  internal/server/manager.go.  A user's route names the gateway and the connection of the latest login.  The locale
  \<open>owned_cell\<close> states what the gateways rely on: a claim replaces the owner, and a refresh or a clear by a
  connection that no longer owns the route changes nothing.
\<close>

section \<open>Keys and route values\<close>

definition RouteKey :: "string \<Rightarrow> string" where "RouteKey uid = ''route:'' @ uid"
definition GatewayUsersKey :: "string \<Rightarrow> string" where "GatewayUsersKey g = ''gateway_users:'' @ g"
definition GatewayConnKey :: "string \<Rightarrow> string \<Rightarrow> string" where
  "GatewayConnKey g sid = ''gateway_conn:'' @ g @ '':'' @ sid"
definition GatewayLiveKey :: "string \<Rightarrow> string" where "GatewayLiveKey g = ''gateway_live:'' @ g"
definition PendingAckKey :: "string \<Rightarrow> string" where "PendingAckKey uid = ''pending_ack:'' @ uid"
definition AckIndexKey :: "string \<Rightarrow> string" where "AckIndexKey uid = ''ack_idx:'' @ uid"
definition AckRetryKey :: "string \<Rightarrow> string" where "AckRetryKey uid = ''ack_retry:'' @ uid"
definition OfflineMessageKey :: "string \<Rightarrow> string" where "OfflineMessageKey uid = ''offline_msg:'' @ uid"
definition SessionTimelineKey :: "string \<Rightarrow> string" where "SessionTimelineKey sid = ''session_timeline:'' @ sid"
definition MessagePayloadKey :: "string \<Rightarrow> string" where "MessagePayloadKey mid = ''message_payload:'' @ mid"
definition UserConversationsKey :: "string \<Rightarrow> string" where "UserConversationsKey uid = ''user:conversations:'' @ uid"
definition ConversationMembersKey :: "string \<Rightarrow> string" where "ConversationMembersKey c = ''conversation:members:'' @ c"
definition ConversationLastKey :: "string \<Rightarrow> string" where "ConversationLastKey c = ''conversation:last:'' @ c"
definition UserConversationReadKey :: "string \<Rightarrow> string" where "UserConversationReadKey uid = ''user:conversation:read:'' @ uid"
definition UserConversationAckedKey :: "string \<Rightarrow> string" where "UserConversationAckedKey uid = ''user:conversation:acked:'' @ uid"
definition ChannelForGateway :: "string \<Rightarrow> string" where "ChannelForGateway g = ''im_message_push:'' @ g"

lemmas key_defs = RouteKey_def GatewayUsersKey_def GatewayConnKey_def GatewayLiveKey_def PendingAckKey_def
  AckIndexKey_def AckRetryKey_def OfflineMessageKey_def SessionTimelineKey_def MessagePayloadKey_def
  UserConversationsKey_def ConversationMembersKey_def ConversationLastKey_def UserConversationReadKey_def
  UserConversationAckedKey_def

definition routeSeparator :: char where "routeSeparator = CHR ''|''"

definition BuildRouteValue :: "string \<Rightarrow> string \<Rightarrow> string" where
  "BuildRouteValue gatewayID sessionID = gatewayID @ [routeSeparator] @ sessionID"

definition ParseRoute :: "string \<Rightarrow> string \<times> string" where
  "ParseRoute routeValue =
     (let gw = takeWhile (\<lambda>c. c \<noteq> routeSeparator) routeValue in
      if routeSeparator \<in> set routeValue then (gw, drop (length gw + 1) routeValue) else (routeValue, []))"

definition ParseGatewayID :: "string \<Rightarrow> string" where
  "ParseGatewayID routeValue = fst (ParseRoute routeValue)"

definition RouteMatchesConnection :: "string \<Rightarrow> string \<Rightarrow> string \<Rightarrow> bool" where
  "RouteMatchesConnection routeValue gatewayID sessionID =
     (case ParseRoute routeValue of (g, s) \<Rightarrow>
        if g = [] \<or> g \<noteq> gatewayID then False else s = [] \<or> s = sessionID)"

section \<open>Claim, refresh, clear\<close>

definition claim_route :: "string \<Rightarrow> string \<Rightarrow> int \<Rightarrow> redis \<Rightarrow> redis" where
  "claim_route uid routeValue now r =
     (case ParseRoute routeValue of (gatewayID, sessionID) \<Rightarrow>
        if gatewayID = [] then r_set (RouteKey uid) (Txt routeValue) r
        else let r1 = r_sadd (GatewayUsersKey gatewayID) uid (r_set (RouteKey uid) (Txt routeValue) r);
                 r2 = (if sessionID \<noteq> [] then r_set (GatewayConnKey gatewayID sessionID) (Txt uid) r1 else r1)
             in r_set (GatewayLiveKey gatewayID) (Num now) r2)"

definition ClaimRoute :: "('b im_scheme) env \<Rightarrow> string \<Rightarrow> string \<Rightarrow> ('b im_scheme, gerr + unit) io" where
  "ClaimRoute env uid routeValue = State_Monad.bind (clock env) (\<lambda>now. update_w env (on_rds (claim_route uid routeValue now)))"

definition refresh_route :: "string \<Rightarrow> string \<Rightarrow> int \<Rightarrow> redis \<Rightarrow> bool \<times> redis" where
  "refresh_route uid routeValue now r =
     (case ParseRoute routeValue of (gatewayID, sessionID) \<Rightarrow>
        if strs r (RouteKey uid) \<noteq> Some (Txt routeValue) then (False, r)
        else let r1 = r_sadd (GatewayUsersKey gatewayID) uid r;
                 r2 = (if sessionID \<noteq> [] then r_set (GatewayConnKey gatewayID sessionID) (Txt uid) r1 else r1)
             in (True, r_set (GatewayLiveKey gatewayID) (Num now) r2))"

definition RefreshRouteIfMatch :: "('b im_scheme) env \<Rightarrow> string \<Rightarrow> string \<Rightarrow> int \<Rightarrow> ('b im_scheme, gerr + bool) io" where
  "RefreshRouteIfMatch env uid routeValue ttl =
     (if ParseGatewayID routeValue = [] \<or> ttl \<le> 0 then ok False
      else State_Monad.bind (clock env) (\<lambda>now.
        exec env (on_rds_res (\<lambda>r. case refresh_route uid routeValue now r of (b, r') \<Rightarrow> (Inr b, r')))))"

definition clear_route :: "string \<Rightarrow> string \<Rightarrow> redis \<Rightarrow> bool \<times> redis" where
  "clear_route uid routeValue r =
     (case ParseRoute routeValue of (gatewayID, sessionID) \<Rightarrow>
        if strs r (RouteKey uid) = Some (Txt routeValue) then
          let r1 = r_srem (GatewayUsersKey gatewayID) uid (r_del (RouteKey uid) r) in
          (True, if sessionID \<noteq> [] then r_del (GatewayConnKey gatewayID sessionID) r1 else r1)
        else (False, r))"

definition ClearRouteIfMatch :: "('b im_scheme) env \<Rightarrow> string \<Rightarrow> string \<Rightarrow> ('b im_scheme, gerr + unit) io" where
  "ClearRouteIfMatch env uid routeValue = update_w env (on_rds (\<lambda>r. snd (clear_route uid routeValue r)))"

definition MarkOffline :: "('b im_scheme) env \<Rightarrow> string \<Rightarrow> string \<Rightarrow> int \<Rightarrow> ('b im_scheme, unit) io" where
  "MarkOffline env uid messageID sentAt =
     (if uid = [] \<or> messageID = [] then State_Monad.return ()
      else State_Monad.bind (if sentAt \<le> 0 then clock env else State_Monad.return sentAt) (\<lambda>at.
        ignore (update_w env (on_rds (r_zadd (OfflineMessageKey uid) at messageID))) (State_Monad.return ())))"

section \<open>Cleaning up after a gateway\<close>

text \<open>
  Each user of the gateway's reverse index is checked before the route is cleared, because the user may have moved.
\<close>

fun cleanup_users :: "('b im_scheme) env \<Rightarrow> string \<Rightarrow> string list \<Rightarrow> int \<Rightarrow> ('b im_scheme, (gerr \<times> int) + int) io" where
  "cleanup_users env gatewayID [] cleaned = State_Monad.return (Inr cleaned)"
| "cleanup_users env gatewayID (uid # users) cleaned =
     State_Monad.bind (query env (\<lambda>s. strs (rds s) (RouteKey uid))) (\<lambda>res. case res of
        Inl e \<Rightarrow> State_Monad.return (Inl (e, cleaned))
      | Inr None \<Rightarrow> ignore (update_w env (on_rds (r_srem (GatewayUsersKey gatewayID) uid))) (cleanup_users env gatewayID users cleaned)
      | Inr (Some v) \<Rightarrow> (case v of
          Txt routeValue \<Rightarrow>
            if ParseGatewayID routeValue \<noteq> gatewayID
            then ignore (update_w env (on_rds (r_srem (GatewayUsersKey gatewayID) uid))) (cleanup_users env gatewayID users cleaned)
            else State_Monad.bind (ClearRouteIfMatch env uid routeValue) (\<lambda>c. case c of
               Inl e \<Rightarrow> State_Monad.return (Inl (e, cleaned)) | Inr _ \<Rightarrow> cleanup_users env gatewayID users (cleaned + 1))
        | _ \<Rightarrow> ignore (update_w env (on_rds (r_srem (GatewayUsersKey gatewayID) uid))) (cleanup_users env gatewayID users cleaned)))"

definition pulse :: "('b im_scheme) env \<Rightarrow> string \<Rightarrow> ('b im_scheme, unit) io" where
  "pulse env gatewayID = State_Monad.bind (clock env) (\<lambda>now.
     ignore (update_w env (on_rds (r_set (GatewayLiveKey gatewayID) (Num now)))) (State_Monad.return ()))"

section \<open>Route values\<close>

lemma ParseRoute_Build: "routeSeparator \<notin> set g \<Longrightarrow> ParseRoute (BuildRouteValue g sid) = (g, sid)"
  by (auto simp: ParseRoute_def BuildRouteValue_def Let_def takeWhile_append)

lemma RouteMatches_Build:
  "routeSeparator \<notin> set g \<Longrightarrow> RouteMatchesConnection (BuildRouteValue g sid) gw conn \<longleftrightarrow>
     g \<noteq> [] \<and> g = gw \<and> (sid = [] \<or> sid = conn)"
  by (auto simp: RouteMatchesConnection_def ParseRoute_Build)

section \<open>Ownership\<close>

text \<open>
  A cell with an owner: what \<open>ClaimRoute\<close>, \<open>RefreshRouteIfMatch\<close> and \<open>ClearRouteIfMatch\<close> promise about the route
  of a user, whatever else they write.
\<close>

datatype 'v cell_op = OpClaim int 'v | OpRefresh int 'v | OpClear 'v

locale owned_cell =
  fixes owner :: "'s \<Rightarrow> 'v option"
    and claim :: "int \<Rightarrow> 'v \<Rightarrow> 's \<Rightarrow> 's"
    and refresh :: "int \<Rightarrow> 'v \<Rightarrow> 's \<Rightarrow> bool \<times> 's"
    and clear :: "'v \<Rightarrow> 's \<Rightarrow> bool \<times> 's"
  assumes owner_claim: "owner (claim t v s) = Some v"
    and owner_refresh: "owner (snd (refresh t v s)) = owner s"
    and fst_refresh: "fst (refresh t v s) \<longleftrightarrow> owner s = Some v"
    and refresh_stale: "owner s \<noteq> Some v \<Longrightarrow> snd (refresh t v s) = s"
    and owner_clear: "owner (snd (clear v s)) = (if owner s = Some v then None else owner s)"
    and clear_stale: "owner s \<noteq> Some v \<Longrightarrow> clear v s = (False, s)"
begin

fun cell_step :: "'v cell_op \<Rightarrow> 's \<Rightarrow> 's" where
  "cell_step (OpClaim t v) s = claim t v s"
| "cell_step (OpRefresh t v) s = snd (refresh t v s)"
| "cell_step (OpClear v) s = snd (clear v s)"

text \<open>Refreshes and clears by others, and the owner's own refreshes, in any order, leave the owner in place.\<close>

lemma owner_survives:
  assumes "owner s = Some v"
    and "\<forall>op\<in>set ops. (\<exists>t x. op = OpRefresh t x) \<or> (\<exists>x. op = OpClear x \<and> x \<noteq> v)"
  shows "owner (fold cell_step ops s) = Some v"
  using assms
proof (induction ops arbitrary: s)
  case (Cons op ops)
  then have "owner (cell_step op s) = Some v" by (auto simp: owner_refresh owner_clear)
  then show ?case using Cons by simp
qed simp

lemma latest_claim_owns:
  assumes "\<forall>op\<in>set ops. (\<exists>t x. op = OpRefresh t x) \<or> (\<exists>x. op = OpClear x \<and> x \<noteq> v)"
  shows "owner (fold cell_step (earlier @ OpClaim t v # ops) s) = Some v"
  using owner_survives [OF owner_claim assms] by simp

lemma stale_ops_no_effect:
  assumes "owner s = Some v"
    and "\<forall>op\<in>set ops. \<exists>x. x \<noteq> v \<and> ((\<exists>t. op = OpRefresh t x) \<or> op = OpClear x)"
  shows "fold cell_step ops s = s"
  using assms(2)
proof (induction ops)
  case (Cons op ops)
  then have "cell_step op s = s" using assms(1) by (auto simp: refresh_stale clear_stale)
  then show ?case using Cons by simp
qed simp

end

text \<open>The route of a user in Redis is such a cell.\<close>

definition route_owner :: "string \<Rightarrow> redis \<Rightarrow> string option" where
  "route_owner uid r = (case strs r (RouteKey uid) of Some (Txt v) \<Rightarrow> Some v | _ \<Rightarrow> None)"

lemma route_owner_Some: "route_owner uid r = Some v \<longleftrightarrow> strs r (RouteKey uid) = Some (Txt v)"
  by (auto simp: route_owner_def split: option.splits rvalue.splits)

lemma keys_apart [simp]:
  "RouteKey u \<noteq> GatewayConnKey g s" "RouteKey u \<noteq> GatewayLiveKey g"
  "GatewayConnKey g s \<noteq> RouteKey u" "GatewayLiveKey g \<noteq> RouteKey u"
  "RouteKey u \<noteq> clientMessageKey v c" "MessagePayloadKey m \<noteq> RouteKey u"
  by (simp_all add: key_defs clientMessageKey_def)

interpretation route: owned_cell "route_owner uid" "\<lambda>t v. claim_route uid v t"
  "\<lambda>t v. refresh_route uid v t" "clear_route uid" for uid
proof unfold_locales
  fix now v s
  show "route_owner uid (claim_route uid v now s) = Some v"
    by (auto simp: claim_route_def route_owner_Some redis_simps Let_def split: prod.splits)
  have "strs (snd (refresh_route uid v now s)) (RouteKey uid) = strs s (RouteKey uid)"
    by (auto simp: refresh_route_def redis_simps Let_def split: prod.splits)
  then show "route_owner uid (snd (refresh_route uid v now s)) = route_owner uid s" by (simp add: route_owner_def)
  show "fst (refresh_route uid v now s) \<longleftrightarrow> route_owner uid s = Some v"
    by (auto simp: refresh_route_def route_owner_Some Let_def split: prod.splits)
  show "snd (refresh_route uid v now s) = s" if "route_owner uid s \<noteq> Some v"
    using that by (auto simp: refresh_route_def route_owner_Some split: prod.splits)
  show "clear_route uid v s = (False, s)" if "route_owner uid s \<noteq> Some v"
    using that by (auto simp: clear_route_def route_owner_Some split: prod.splits)
  show "route_owner uid (snd (clear_route uid v s)) = (if route_owner uid s = Some v then None else route_owner uid s)"
  proof (cases "route_owner uid s = Some v")
    case True
    then have "strs (snd (clear_route uid v s)) (RouteKey uid) = None"
      by (auto simp: clear_route_def route_owner_Some redis_simps Let_def split: prod.splits)
    then show ?thesis using True by (simp add: route_owner_def)
  next
    case False
    then show ?thesis by (auto simp: clear_route_def route_owner_Some split: prod.splits)
  qed
qed

section \<open>Routing leaves the message core alone\<close>

lemma strs_clear_route: "strs (snd (clear_route uid v r)) (''client_msg:'' @ k) = strs r (''client_msg:'' @ k)"
  by (auto simp: clear_route_def redis_simps Let_def key_defs split: prod.splits)

lemma keeps_case_rvalue [keeps_rules]:
  "(\<And>t. keeps I (f t)) \<Longrightarrow> (\<And>n. keeps I (g n)) \<Longrightarrow> (\<And>r. keeps I (k r)) \<Longrightarrow> keeps I (case v of Txt t \<Rightarrow> f t | Num n \<Rightarrow> g n | Rec r \<Rightarrow> k r)"
  by (cases v) auto

lemma keeps_ClearRouteIfMatch [keeps_rules]: "relies env I \<Longrightarrow> of_core I \<Longrightarrow> keeps I (ClearRouteIfMatch env uid v)"
  unfolding ClearRouteIfMatch_def by (rule keeps_rds_core [OF _ _ strs_clear_route])

lemma keeps_MarkOffline [keeps_rules]: "relies env I \<Longrightarrow> of_core I \<Longrightarrow> keeps I (MarkOffline env uid m t)"
  unfolding MarkOffline_def
  by (intro keeps_if keeps_return keeps_bind keeps_clock keeps_ignore keeps_rds_core) (auto simp: redis_simps)

text \<open>What a run unfolds.\<close>

lemmas route_run [exec_defs] =
  RouteKey_def GatewayUsersKey_def GatewayConnKey_def GatewayLiveKey_def PendingAckKey_def
  AckIndexKey_def AckRetryKey_def OfflineMessageKey_def SessionTimelineKey_def
  MessagePayloadKey_def UserConversationsKey_def ConversationMembersKey_def ConversationLastKey_def
  UserConversationReadKey_def UserConversationAckedKey_def ChannelForGateway_def routeSeparator_def
  BuildRouteValue_def ParseRoute_def ParseGatewayID_def RouteMatchesConnection_def claim_route_def
  ClaimRoute_def refresh_route_def RefreshRouteIfMatch_def clear_route_def ClearRouteIfMatch_def
  MarkOffline_def pulse_def

section \<open>Properties\<close>

text \<open>The scripts as steps on the Redis state, with the time of the call.\<close>

fun route_step :: "string \<Rightarrow> string cell_op \<Rightarrow> redis \<Rightarrow> redis" where
  "route_step uid (OpClaim t v) r = claim_route uid v t r"
| "route_step uid (OpRefresh t v) r = snd (refresh_route uid v t r)"
| "route_step uid (OpClear v) r = snd (clear_route uid v r)"

lemma route_step_is_cell_step: "route_step uid = route.cell_step uid"
proof (intro ext)
  show "route_step uid op r = route.cell_step uid op r" for op r
    by (cases op) simp_all
qed

text \<open>A route value names its gateway and connection: parsing what \<open>BuildRouteValue\<close> built gives them back,
  provided the gateway id has no separator in it.\<close>

theorem route_value_roundtrip:
  assumes "routeSeparator \<notin> set g"
  shows "ParseRoute (BuildRouteValue g sid) = (g, sid) \<and> ParseGatewayID (BuildRouteValue g sid) = g"
  using ParseRoute_Build [OF assms] by (simp add: ParseGatewayID_def)

theorem route_value_roundtrip_witness:
  "ParseRoute (BuildRouteValue ''gw1'' ''s|9'') = (''gw1'', ''s|9'') \<and> ParseGatewayID (BuildRouteValue ''gw1'' ''s|9'') = ''gw1''"
  by (rule route_value_roundtrip) (simp add: routeSeparator_def)

text \<open>C5. A newer login owns the route: after a connection claimed the route with the value \<open>v\<close>, the late refreshes
  and clears of any other connection, in any number and order, change nothing at all in Redis, and the
  route still names \<open>v\<close>.\<close>

theorem stale_connections_harmless:
  assumes "\<forall>op\<in>set ops. \<exists>x. x \<noteq> v \<and> ((\<exists>t. op = OpRefresh t x) \<or> op = OpClear x)"
  shows "fold (route_step uid) (OpClaim t0 v # ops) r = claim_route uid v t0 r
       \<and> strs (fold (route_step uid) (OpClaim t0 v # ops) r) (RouteKey uid) = Some (Txt v)"
  using route.stale_ops_no_effect [OF route.owner_claim assms] route.owner_claim [where s = r and v = v and t = t0 and uid = uid]
  by (simp add: route_step_is_cell_step route_owner_Some)

theorem stale_connections_harmless_witness:
  "fold (route_step ''al'') [OpClaim 5 ''gw2|b'', OpRefresh 6 ''gw1|a'', OpClear ''gw1|a''] (claim_route ''al'' ''gw1|a'' 1 empty_redis)
     = claim_route ''al'' ''gw2|b'' 5 (claim_route ''al'' ''gw1|a'' 1 empty_redis)"
  using stale_connections_harmless [of "[OpRefresh 6 ''gw1|a'', OpClear ''gw1|a'']" "''gw2|b''" "''al''" 5
      "claim_route ''al'' ''gw1|a'' 1 empty_redis"] by simp

end
