(* ===== verification/Delivery.thy ===== *)
theory Delivery
  imports Route
begin

text \<open>
  Delivery to one recipient: internal/delivery/redis.go, the acknowledgement of internal/server/ack.go and the
  timeline of internal/server/sync.go (\<open>RememberSessionMessage\<close>).  A message is first put into the
  recipient's pending set with its payload, then pushed to the gateway that holds the route, and marked
  offline when there is none.  The lemmas show that a delivered message is pending, and stays so until it
  is acknowledged, whatever happens to the push.
\<close>

section \<open>Pending messages\<close>

definition track_pending :: "string \<Rightarrow> string \<Rightarrow> string \<Rightarrow> int \<Rightarrow> redis \<Rightarrow> redis" where
  "track_pending uid mid encoded now r =
     r_hsetnx (AckRetryKey uid) mid (Num 0)
       (r_hsetnx (AckIndexKey uid) mid (Txt encoded) (r_zadd_nx (PendingAckKey uid) now mid r))"

definition trackPendingAck :: "('b im_scheme) env \<Rightarrow> string \<Rightarrow> string \<Rightarrow> string \<Rightarrow> int \<Rightarrow> ('b im_scheme, gerr + unit) io" where
  "trackPendingAck env targetID messageID encoded now =
     update_w env (on_rds (track_pending targetID messageID encoded now))"

definition DecodeWireMessage :: "cfg \<Rightarrow> string \<Rightarrow> wire option" where
  "DecodeWireMessage h payload = (case unmarshal h payload of Inr f \<Rightarrow> Some f | Inl _ \<Rightarrow> None)"

definition envelope_of :: "string \<Rightarrow> string \<Rightarrow> wire option \<Rightarrow> string \<Rightarrow> string \<Rightarrow> int \<Rightarrow> string \<Rightarrow> push_envelope" where
  "envelope_of targetID messageID frame gatewayID routeValue now encoded =
     \<lparr>pe_Kind = [], pe_TargetID = targetID, pe_MessageID = messageID,
      pe_SessionID = (case frame of Some f \<Rightarrow> SessionId f | None \<Rightarrow> []),
      pe_Seq = (case frame of Some f \<Rightarrow> SeqNo f | None \<Rightarrow> 0),
      pe_TraceID = (case frame of Some f \<Rightarrow> TraceId f | None \<Rightarrow> []),
      pe_GatewayID = gatewayID, pe_RouteValue = routeValue, pe_SentAt = now, pe_PayloadB64 = encoded\<rparr>"

text \<open>\<open>PUBLISH\<close> answers the number of subscribers that received the message.\<close>

definition publish_on :: "('b im_scheme) env \<Rightarrow> string \<Rightarrow> push_envelope \<Rightarrow> ('b im_scheme, gerr + int) io" where
  "publish_on env channel envelope =
     exec env (\<lambda>s. (Inr (subscribers s channel), s\<lparr>published := published s @ [(channel, envelope)]\<rparr>))"

definition Deliver :: "cfg \<Rightarrow> ('b im_scheme) env \<Rightarrow> string \<Rightarrow> string \<Rightarrow> string \<Rightarrow> int \<Rightarrow> ('b im_scheme, gerr + unit) io" where
  "Deliver h env targetID messageID payload now =
    (let encoded = base64_encode payload;
         frame = DecodeWireMessage h payload;
         fallbackOffline = ignore (MarkOffline env targetID messageID now) (ok ()) in
     then_ok (trackPendingAck env targetID messageID encoded now) (\<lambda>_.
       State_Monad.bind (query env (\<lambda>s. strs (rds s) (RouteKey targetID))) (\<lambda>res. case res of
         Inr (Some (Txt routeValue)) \<Rightarrow>
           if routeValue = [] then fallbackOffline
           else let gatewayID = ParseGatewayID routeValue in
             if gatewayID = [] then fallbackOffline
             else State_Monad.bind
               (publish_on env (ChannelForGateway gatewayID)
                  (envelope_of targetID messageID frame gatewayID routeValue now encoded))
               (\<lambda>res. let subs = (case res of Inr n \<Rightarrow> n | Inl _ \<Rightarrow> 0) in
                  if \<not> isl res \<and> 0 < subs then ok ()
                  else if subs = 0 then ignore (ClearRouteIfMatch env targetID routeValue) fallbackOffline
                  else fallbackOffline)
       | _ \<Rightarrow> fallbackOffline)))"

section \<open>Acknowledgement\<close>

definition mark_cursor :: "string \<Rightarrow> string \<Rightarrow> int \<Rightarrow> redis \<Rightarrow> redis" where
  "mark_cursor key conversationID seq r =
     (case hashes r key conversationID of
        None \<Rightarrow> r_hset key conversationID (Num seq) r
      | Some (Num current) \<Rightarrow> if current < seq then r_hset key conversationID (Num seq) r else r
      | Some _ \<Rightarrow> r)"

definition MarkConversationRead :: "bool \<Rightarrow> ('b im_scheme) env \<Rightarrow> string \<Rightarrow> string \<Rightarrow> int \<Rightarrow> ('b im_scheme, gerr + unit) io" where
  "MarkConversationRead rdb env uid conversationID seq =
     (if \<not> rdb \<or> uid = [] \<or> conversationID = [] \<or> seq \<le> 0 then ok ()
      else update_w env (on_rds (mark_cursor (UserConversationReadKey uid) conversationID seq)))"

definition MarkConversationAcked :: "bool \<Rightarrow> ('b im_scheme) env \<Rightarrow> string \<Rightarrow> string \<Rightarrow> int \<Rightarrow> ('b im_scheme, gerr + unit) io" where
  "MarkConversationAcked rdb env uid conversationID seq =
     (if \<not> rdb \<or> uid = [] \<or> conversationID = [] \<or> seq \<le> 0 then ok ()
      else update_w env (on_rds (mark_cursor (UserConversationAckedKey uid) conversationID seq)))"

definition ackFrameFromIndex :: "cfg \<Rightarrow> ('b im_scheme) env \<Rightarrow> string \<Rightarrow> string \<Rightarrow> ('b im_scheme, wire option) io" where
  "ackFrameFromIndex h env uid messageID =
     State_Monad.bind (query env (\<lambda>s. hashes (rds s) (AckIndexKey uid) messageID)) (\<lambda>res.
       State_Monad.return (case res of
         Inr (Some (Txt encoded)) \<Rightarrow> (case base64_decode encoded of
           Some payload \<Rightarrow> (case DecodeWireMessage h payload of
             Some f \<Rightarrow> if SessionId f = [] \<or> SeqNo f \<le> 0 then None else Some f
           | None \<Rightarrow> None) | None \<Rightarrow> None)
       | _ \<Rightarrow> None))"

definition acknowledge :: "string \<Rightarrow> string \<Rightarrow> redis \<Rightarrow> bool \<times> redis" where
  "acknowledge uid mid r =
     (if hashes r (AckIndexKey uid) mid = None then (False, r)
      else (True, r_hdel (AckRetryKey uid) mid (r_hdel (AckIndexKey uid) mid
              (r_zrem (OfflineMessageKey uid) mid (r_zrem (PendingAckKey uid) mid r)))))"

definition AckMessageWithDB :: "cfg \<Rightarrow> ('b im_scheme) env \<Rightarrow> bool \<Rightarrow> string \<Rightarrow> string \<Rightarrow> ('b im_scheme, unit) io" where
  "AckMessageWithDB h env db uid messageID =
     (if messageID = [] then State_Monad.return ()
      else State_Monad.bind (ackFrameFromIndex h env uid messageID) (\<lambda>frame.
        ignore (case frame of Some f \<Rightarrow> MarkConversationAcked True env uid (SessionId f) (SeqNo f) | None \<Rightarrow> ok ())
          (State_Monad.bind (exec env (on_rds_res (\<lambda>r. case acknowledge uid messageID r of (b, r') \<Rightarrow> (Inr b, r'))))
            (\<lambda>removed. case removed of
               Inl _ \<Rightarrow> State_Monad.return ()
             | Inr False \<Rightarrow> State_Monad.return ()
             | Inr True \<Rightarrow> (case frame of
                 Some f \<Rightarrow> if db \<and> SessionId f \<noteq> [] \<and> 0 < SeqNo f
                   then ignore (exec env (run_update conv_members conv_members_update
                          (\<lambda>r. cm_conversation r = SessionId f \<and> cm_user r = uid)
                          (\<lambda>r. r\<lparr>cm_acked_seq := max (cm_acked_seq r) (SeqNo f)\<rparr>)))
                        (State_Monad.return ())
                   else State_Monad.return ()
               | None \<Rightarrow> State_Monad.return ())))))"

definition AckMessage :: "cfg \<Rightarrow> ('b im_scheme) env \<Rightarrow> string \<Rightarrow> string \<Rightarrow> ('b im_scheme, unit) io" where
  "AckMessage h env uid messageID = AckMessageWithDB h env False uid messageID"

section \<open>The session timeline\<close>

definition remember_message :: "string \<Rightarrow> wire \<Rightarrow> redis \<Rightarrow> redis" where
  "remember_message encoded f r =
     r_zadd_nx (SessionTimelineKey (SessionId f)) (SeqNo f) (MessageId f)
       (snd (r_setnx (MessagePayloadKey (MessageId f)) (Txt encoded) r))"

definition RememberSessionMessage :: "bool \<Rightarrow> ('b im_scheme) env \<Rightarrow> wire \<Rightarrow> string \<Rightarrow> ('b im_scheme, unit) io" where
  "RememberSessionMessage rdb env f payload =
     (if \<not> rdb \<or> MessageId f = [] \<or> SessionId f = [] then State_Monad.return ()
      else ignore (update_w env (on_rds (remember_message (base64_encode payload) f))) (State_Monad.return ()))"

section \<open>Interfaces\<close>

text \<open>A cursor that only moves forward: whatever the order of the marks, the largest wins.\<close>

locale monotone_cursor =
  fixes valid :: "'s \<Rightarrow> bool"
    and cursor :: "'s \<Rightarrow> int option"
    and mark :: "int \<Rightarrow> 's \<Rightarrow> 's"
  assumes valid_mark: "valid s \<Longrightarrow> valid (mark n s)"
    and cursor_mark: "valid s \<Longrightarrow> cursor (mark n s) = Some (case cursor s of None \<Rightarrow> n | Some c \<Rightarrow> max c n)"
begin

lemma valid_fold: "valid s \<Longrightarrow> valid (fold mark ns s)"
  by (induction ns arbitrary: s) (auto simp: valid_mark)

lemma cursor_fold_from: "valid s \<Longrightarrow> cursor s = Some c \<Longrightarrow> cursor (fold mark ns s) = Some (fold max ns c)"
  by (induction ns arbitrary: s c) (auto simp: valid_mark cursor_mark max.commute)

lemma cursor_fold:
  assumes "valid s" "cursor s = Some c"
  shows "cursor (fold mark ns s) = Some (Max (insert c (set ns)))"
  using cursor_fold_from [OF assms] by (simp add: Max.set_eq_fold flip: list.set(2))

lemma cursor_never_back: "valid s \<Longrightarrow> cursor s = Some c \<Longrightarrow> \<exists>c'. cursor (fold mark ns s) = Some c' \<and> c \<le> c'"
  by (auto simp: cursor_fold)

lemma cursor_order_irrelevant:
  assumes "valid s" "cursor s = Some c" "set ns = set ms"
  shows "cursor (fold mark ns s) = cursor (fold mark ms s)"
  using assms by (simp add: cursor_fold)

end

text \<open>
  A store of messages that wait for an acknowledgement: a tracked message waits, with the payload it was
  first tracked with, until it is acknowledged.
\<close>

datatype pend_op = OpTrack int string string | OpAck string

locale pending_store =
  fixes waiting :: "'s \<Rightarrow> string \<Rightarrow> bool"
    and stored :: "'s \<Rightarrow> string \<Rightarrow> string option"
    and track :: "int \<Rightarrow> string \<Rightarrow> string \<Rightarrow> 's \<Rightarrow> 's"
    and ack :: "string \<Rightarrow> 's \<Rightarrow> 's"
  assumes track_waiting: "waiting (track t m p s) m' \<longleftrightarrow> m' = m \<or> waiting s m'"
    and track_stored: "stored (track t m p s) m' = (if m' = m \<and> stored s m = None then Some p else stored s m')"
    and ack_waiting: "m' \<noteq> m \<Longrightarrow> waiting (ack m s) m' \<longleftrightarrow> waiting s m'"
    and ack_stored: "stored (ack m s) m' = (if m' = m then None else stored s m')"
begin

definition replayable :: "string \<Rightarrow> string \<Rightarrow> 's \<Rightarrow> bool" where
  "replayable m p s \<longleftrightarrow> waiting s m \<and> stored s m = Some p"

fun pend_step :: "pend_op \<Rightarrow> 's \<Rightarrow> 's" where
  "pend_step (OpTrack t m p) s = track t m p s"
| "pend_step (OpAck m) s = ack m s"

lemma replayable_track: "stored s m = None \<Longrightarrow> replayable m p (track t m p s)"
  by (simp add: replayable_def track_waiting track_stored)

lemma replayable_until_ack:
  assumes "replayable m p s" "OpAck m \<notin> set ops"
  shows "replayable m p (fold pend_step ops s)"
  using assms
proof (induction ops arbitrary: s)
  case (Cons op ops)
  from Cons.prems have "replayable m p (pend_step op s)"
    by (cases op) (auto simp: replayable_def track_waiting track_stored ack_waiting ack_stored)
  then show ?case using Cons by simp
qed simp

lemma acked_gone: "\<not> replayable m p (ack m s)"
  by (simp add: replayable_def ack_stored)

end

section \<open>The Redis structures provide them\<close>

definition cursor_of :: "string \<Rightarrow> string \<Rightarrow> redis \<Rightarrow> int option" where
  "cursor_of key c r = (case hashes r key c of Some (Num n) \<Rightarrow> Some n | _ \<Rightarrow> None)"

definition cursor_valid :: "string \<Rightarrow> string \<Rightarrow> redis \<Rightarrow> bool" where
  "cursor_valid key c r \<longleftrightarrow> (case hashes r key c of None \<Rightarrow> True | Some (Num _) \<Rightarrow> True | _ \<Rightarrow> False)"

interpretation redis_cursor: monotone_cursor "cursor_valid key c" "cursor_of key c" "mark_cursor key c" for key c
  by unfold_locales
     (auto simp: cursor_valid_def cursor_of_def mark_cursor_def redis_simps split: option.splits rvalue.splits)

definition sql_acked :: "string \<Rightarrow> string \<Rightarrow> conv_member_row list \<Rightarrow> int option" where
  "sql_acked c u rows = map_option cm_acked_seq (find (\<lambda>r. cm_conversation r = c \<and> cm_user r = u) rows)"

definition sql_mark_acked :: "string \<Rightarrow> string \<Rightarrow> int \<Rightarrow> conv_member_row list \<Rightarrow> conv_member_row list" where
  "sql_mark_acked c u n = upd (\<lambda>r. cm_conversation r = c \<and> cm_user r = u) (\<lambda>r. r\<lparr>cm_acked_seq := max (cm_acked_seq r) n\<rparr>)"

text \<open>The SQL cursor of a member: \<open>GREATEST\<close> in an \<open>UPDATE\<close>, on an existing row.\<close>

interpretation sql_cursor: monotone_cursor "\<lambda>rows. sql_acked c u rows \<noteq> None" "sql_acked c u" "sql_mark_acked c u" for c u
proof unfold_locales
  fix n rows
  have "find (\<lambda>r. cm_conversation r = c \<and> cm_user r = u) (sql_mark_acked c u n rows)
      = map_option (\<lambda>r. r\<lparr>cm_acked_seq := max (cm_acked_seq r) n\<rparr>) (find (\<lambda>r. cm_conversation r = c \<and> cm_user r = u) rows)"
    by (induction rows) (auto simp: sql_mark_acked_def upd_def)
  then show "sql_acked c u (sql_mark_acked c u n rows) \<noteq> None"
    and "sql_acked c u (sql_mark_acked c u n rows) = Some (case sql_acked c u rows of None \<Rightarrow> n | Some k \<Rightarrow> max k n)"
    if "sql_acked c u rows \<noteq> None"
    using that by (auto simp: sql_acked_def)
qed

definition is_waiting :: "string \<Rightarrow> redis \<Rightarrow> string \<Rightarrow> bool" where
  "is_waiting uid r m \<longleftrightarrow> m \<in> snd ` set (zsets r (PendingAckKey uid))"

definition index_of :: "string \<Rightarrow> redis \<Rightarrow> string \<Rightarrow> string option" where
  "index_of uid r m = (case hashes r (AckIndexKey uid) m of Some (Txt e) \<Rightarrow> Some e | Some _ \<Rightarrow> Some [] | None \<Rightarrow> None)"

lemma zkeys_apart [simp]:
  "PendingAckKey u \<noteq> OfflineMessageKey v" "OfflineMessageKey v \<noteq> PendingAckKey u"
  "AckIndexKey u \<noteq> AckRetryKey v" "AckRetryKey v \<noteq> AckIndexKey u"
  "PendingAckKey u \<noteq> SessionTimelineKey v" "SessionTimelineKey v \<noteq> PendingAckKey u"
  "PendingAckKey u = PendingAckKey v \<longleftrightarrow> u = v" "AckIndexKey u = AckIndexKey v \<longleftrightarrow> u = v"
  by (simp_all add: key_defs)

lemma zsets_hsetnx [redis_simps]: "zsets (r_hsetnx k f v r) = zsets r"
  by (simp add: r_hsetnx_def r_hset_def)

lemma zadd_nx_waiting: "m' \<in> snd ` set (zsets (r_zadd_nx k s m r) k) \<longleftrightarrow> m' = m \<or> m' \<in> snd ` set (zsets r k)"
  by (auto simp: r_zadd_nx_def z_score_None_iff redis_simps image_iff split: if_splits) force+

interpretation pending: pending_store "is_waiting uid" "index_of uid"
  "\<lambda>t m e. track_pending uid m e t" "\<lambda>m r. snd (acknowledge uid m r)" for uid
proof unfold_locales
  fix now m p s m'
  show "is_waiting uid (track_pending uid m p now s) m' \<longleftrightarrow> m' = m \<or> is_waiting uid s m'"
    by (simp add: is_waiting_def track_pending_def redis_simps zadd_nx_waiting)
  show "index_of uid (track_pending uid m p now s) m' = (if m' = m \<and> index_of uid s m = None then Some p else index_of uid s m')"
    by (auto simp: index_of_def track_pending_def r_hsetnx_def r_zadd_nx_def redis_simps split: option.splits rvalue.splits)
  show "is_waiting uid (snd (acknowledge uid m s)) m' \<longleftrightarrow> is_waiting uid s m'" if "m' \<noteq> m"
    using that by (auto simp: is_waiting_def acknowledge_def redis_simps)
  show "index_of uid (snd (acknowledge uid m s)) m' = (if m' = m then None else index_of uid s m')"
    by (auto simp: index_of_def acknowledge_def redis_simps split: option.splits)
qed

section \<open>A delivered message is pending\<close>

definition pending_with :: "string \<Rightarrow> string \<Rightarrow> string \<Rightarrow> 'b im_scheme \<Rightarrow> bool" where
  "pending_with uid m e s \<longleftrightarrow> is_waiting uid (rds s) m \<and> hashes (rds s) (AckIndexKey uid) m = Some (Txt e)"

text \<open>The part of the state that says what waits for an acknowledgement.\<close>

definition pview :: "'b im_scheme \<Rightarrow> (string \<Rightarrow> (int \<times> string) list) \<times> (string \<Rightarrow> string \<Rightarrow> rvalue option)" where
  "pview s = (\<lambda>u. zsets (rds s) (PendingAckKey u), \<lambda>u. hashes (rds s) (AckIndexKey u))"

lemma reads_pending_with: "reads pview (pending_with u m e)"
  unfolding reads_def pview_def pending_with_def is_waiting_def by (simp only: prod.inject) metis

lemma reads_index: "reads pview (\<lambda>s. P (hashes (rds s) (AckIndexKey u) m))"
  unfolding reads_def pview_def by (simp only: prod.inject) metis

lemma pview_on_rds:
  "(\<And>u. zsets (f (rds s)) (PendingAckKey u) = zsets (rds s) (PendingAckKey u))
   \<Longrightarrow> (\<And>u. hashes (f (rds s)) (AckIndexKey u) = hashes (rds s) (AckIndexKey u)) \<Longrightarrow> pview (on_rds f s) = pview s"
  by (simp add: pview_def)

lemma clear_route_collections [redis_simps]:
  "zsets (snd (clear_route u v r)) = zsets r" "hashes (snd (clear_route u v r)) = hashes r"
  by (auto simp: clear_route_def redis_simps Let_def split: prod.splits)

named_theorems pview_rules "operations that leave the pending messages alone"

lemma pview_ClearRouteIfMatch [pview_rules]: "relies env I \<Longrightarrow> reads pview I \<Longrightarrow> keeps I (ClearRouteIfMatch env u v)"
  unfolding ClearRouteIfMatch_def by (rule keeps_update_reads [where v = pview]) (auto simp: pview_on_rds redis_simps)

lemma pview_MarkOffline [pview_rules]: "relies env I \<Longrightarrow> reads pview I \<Longrightarrow> keeps I (MarkOffline env u mid t)"
  unfolding MarkOffline_def
  by (intro keeps_if keeps_return keeps_bind keeps_clock keeps_ignore keeps_update_reads [where v = pview])
     (auto simp: pview_on_rds redis_simps)

lemma pview_publish_on [pview_rules]: "relies env I \<Longrightarrow> reads pview I \<Longrightarrow> keeps I (publish_on env c v)"
  unfolding publish_on_def by (rule keeps_exec_reads [where v = pview]) (auto simp: pview_def)

lemma pview_RememberSessionMessage [pview_rules]:
  "relies env I \<Longrightarrow> reads pview I \<Longrightarrow> keeps I (RememberSessionMessage b env f p)"
  unfolding RememberSessionMessage_def
  by (intro keeps_if keeps_return keeps_ignore keeps_update_reads [where v = pview])
     (auto simp: pview_on_rds remember_message_def r_setnx_def r_zadd_nx_def redis_simps)

lemma mark_cursor_collections [redis_simps]:
  "zsets (mark_cursor k c n r) = zsets r" "k' \<noteq> k \<Longrightarrow> hashes (mark_cursor k c n r) k' = hashes r k'"
  by (auto simp: mark_cursor_def redis_simps split: option.split rvalue.split)

lemma AckIndexKey_apart [simp]:
  "AckIndexKey u \<noteq> UserConversationReadKey v" "AckIndexKey u \<noteq> UserConversationAckedKey v"
  "AckIndexKey u \<noteq> ConversationLastKey v" "PendingAckKey u \<noteq> UserConversationsKey v"
  "UserConversationReadKey u \<noteq> AckIndexKey v"
  by (simp_all add: key_defs)

lemma pview_MarkConversationRead [pview_rules]:
  "relies env I \<Longrightarrow> reads pview I \<Longrightarrow> keeps I (MarkConversationRead b env u c n)"
  unfolding MarkConversationRead_def
  by (intro keeps_if keeps_ok keeps_update_reads [where v = pview]) (auto simp: pview_on_rds redis_simps)

lemma hashes_track:
  "hashes (track_pending uid m e t r) (AckIndexKey uid) m =
     (case hashes r (AckIndexKey uid) m of None \<Rightarrow> Some (Txt e) | Some v \<Rightarrow> Some v)"
  by (auto simp: track_pending_def r_hsetnx_def r_zadd_nx_def redis_simps split: option.split)

text \<open>What a delivery does after the message was tracked.\<close>

lemma Deliver_keeps:
  assumes "relies env I" "reads pview I" "keeps I (trackPendingAck env uid m (base64_encode payload) now)"
  shows "keeps I (Deliver h env uid m payload now)"
proof -
  have off: "keeps I (ignore (MarkOffline env uid m now) (ok ()))"
    by (intro keeps_ignore pview_rules assms(1,2) keeps_ok)
  show ?thesis
    unfolding Deliver_def Let_def
    apply (intro keeps_then_ok assms(3) keeps_bind keeps_query assms(1) keeps_case_sum keeps_case_option off)
    apply (auto split: rvalue.splits intro!: keeps_bind keeps_if keeps_ok pview_rules assms(1,2) off keeps_ignore)
    done
qed

lemma keeps_pending_track:
  "relies env (pending_with uid m e) \<Longrightarrow> keeps (pending_with uid m e) (trackPendingAck env u m' e' now)"
  unfolding trackPendingAck_def
proof (rule keeps_update)
  fix s :: "'a im_scheme"
  assume P: "pending_with uid m e s"
  have "is_waiting uid (track_pending u m' e' now (rds s)) m"
    using P by (cases "u = uid") (auto simp: pending_with_def pending.track_waiting is_waiting_def track_pending_def
        r_zadd_nx_def redis_simps)
  then show "pending_with uid m e (on_rds (track_pending u m' e' now) s)"
    using P by (auto simp: pending_with_def track_pending_def r_hsetnx_def r_zadd_nx_def redis_simps)
qed

definition index_free_for :: "string \<Rightarrow> string \<Rightarrow> string \<Rightarrow> 'b im_scheme \<Rightarrow> bool" where
  "index_free_for uid m e s \<longleftrightarrow> hashes (rds s) (AckIndexKey uid) m \<in> {None, Some (Txt e)}"

lemma keeps_index_track:
  "relies env (index_free_for uid m e) \<Longrightarrow> keeps (index_free_for uid m e) (trackPendingAck env u m e now)"
  unfolding trackPendingAck_def
  by (rule keeps_update)
     (auto simp: index_free_for_def track_pending_def r_hsetnx_def r_zadd_nx_def redis_simps split: if_splits)

lemma Deliver_pending:
  assumes rely: "relies env (index_free_for uid m (base64_encode payload))"
    and rely': "relies env (pending_with uid m (base64_encode payload))"
    and init: "index_free_for uid m (base64_encode payload) w"
  shows "wp (Deliver h env uid m payload now)
           (\<lambda>r s. r = Inr () \<longrightarrow> pending_with uid m (base64_encode payload) s) w"
proof -
  let ?e = "base64_encode payload"
  let ?P = "pending_with uid m ?e"
  have track: "wp (trackPendingAck env uid m ?e now) (\<lambda>r s. r = Inr () \<longrightarrow> ?P s) w"
    unfolding trackPendingAck_def
    by (rule wp_update_stable [OF rely init])
       (auto simp: pending_with_def pending.track_waiting hashes_track index_free_for_def)
  have off: "keeps ?P (ignore (MarkOffline env uid m now) (ok ()))"
    by (intro keeps_ignore pview_rules rely' reads_pending_with keeps_ok)
  have rest: "wp k (\<lambda>r s. r = Inr () \<longrightarrow> ?P s) s" if "keeps ?P k" "?P s" for k :: "('b im_scheme, gerr + unit) io" and s
    by (rule wp_mono [OF keeps_wp [OF that]]) simp
  show ?thesis
    unfolding Deliver_def Let_def
    apply (rule wp_then_okI [OF track], simp)
    apply (rule rest)
     apply (intro keeps_bind keeps_query rely' keeps_case_sum keeps_case_option off)
      apply (auto split: rvalue.splits intro!: keeps_bind keeps_if keeps_ok pview_rules rely' off
        reads_pending_with keeps_ignore)
    done
qed

section \<open>Delivery leaves the message core alone\<close>

lemma strs_track_pending: "strs (track_pending u m e t r) = strs r"
  by (simp add: track_pending_def redis_simps)

lemma keeps_trackPendingAck [keeps_rules]: "relies env I \<Longrightarrow> of_core I \<Longrightarrow> keeps I (trackPendingAck env u m e t)"
  unfolding trackPendingAck_def by (rule keeps_rds_core) (auto simp: strs_track_pending)

lemma keeps_publish_on [keeps_rules]: "relies env I \<Longrightarrow> of_core I \<Longrightarrow> keeps I (publish_on env c v)"
  unfolding publish_on_def by (rule keeps_exec_core) (auto simp: core_def)

lemma keeps_Deliver [keeps_rules]: "relies env I \<Longrightarrow> of_core I \<Longrightarrow> keeps I (Deliver h env u m p t)"
  unfolding Deliver_def Let_def
  by (intro keeps_then_ok keeps_bind keeps_query keeps_trackPendingAck keeps_case_sum keeps_case_option)
     (auto split: rvalue.splits intro!: keeps_bind keeps_if keeps_ok keeps_publish_on
        keeps_ignore keeps_ClearRouteIfMatch keeps_MarkOffline)

lemma strs_remember: "strs (remember_message e f r) (''client_msg:'' @ k) = strs r (''client_msg:'' @ k)"
  by (simp add: remember_message_def redis_simps r_setnx_def key_defs)

lemma keeps_RememberSessionMessage [keeps_rules]:
  "relies env I \<Longrightarrow> of_core I \<Longrightarrow> keeps I (RememberSessionMessage b env f p)"
  unfolding RememberSessionMessage_def
  by (intro keeps_if keeps_return keeps_ignore keeps_rds_core [OF _ _ strs_remember])

lemma strs_mark_cursor [redis_simps]: "strs (mark_cursor k c n r) = strs r"
  by (auto simp: mark_cursor_def redis_simps split: option.split rvalue.split)

lemma keeps_MarkConversationRead [keeps_rules]:
  "relies env I \<Longrightarrow> of_core I \<Longrightarrow> keeps I (MarkConversationRead b env u c n)"
  unfolding MarkConversationRead_def
  by (intro keeps_if keeps_ok keeps_rds_core) (auto simp: redis_simps)

section \<open>Delivery leaves the message tables alone\<close>

definition sqlv :: "'b im_scheme \<Rightarrow> msg_row list \<times> deliv_row list \<times> conv_outbox_row list" where
  "sqlv s = (msgs s, deliv_outbox s, conv_outbox s)"

lemma sqlv_on_rds [simp]: "sqlv (on_rds f s) = sqlv s"
  by (simp add: sqlv_def)

named_theorems sqlv_rules "operations that leave the message and outbox tables alone"

lemma sqlv_rds [sqlv_rules]: "relies env I \<Longrightarrow> reads sqlv I \<Longrightarrow> keeps I (update_w env (on_rds f))"
  by (rule keeps_update_reads [where v = sqlv]) auto

lemma sqlv_publish_on [sqlv_rules]: "relies env I \<Longrightarrow> reads sqlv I \<Longrightarrow> keeps I (publish_on env c v)"
  unfolding publish_on_def by (rule keeps_exec_reads [where v = sqlv]) (auto simp: sqlv_def)

lemma sqlv_MarkOffline [sqlv_rules]: "relies env I \<Longrightarrow> reads sqlv I \<Longrightarrow> keeps I (MarkOffline env u m t)"
  unfolding MarkOffline_def by (intro keeps_if keeps_return keeps_bind keeps_clock keeps_ignore sqlv_rules)

lemma sqlv_Deliver [sqlv_rules]: "relies env I \<Longrightarrow> reads sqlv I \<Longrightarrow> keeps I (Deliver h env u m p t)"
  unfolding Deliver_def Let_def trackPendingAck_def ClearRouteIfMatch_def
  by (intro keeps_then_ok keeps_bind keeps_query sqlv_rules keeps_case_sum keeps_case_option)
     (auto split: rvalue.splits intro!: keeps_bind keeps_if keeps_ok keeps_ignore sqlv_rules)

lemma sqlv_RememberSessionMessage [sqlv_rules]: "relies env I \<Longrightarrow> reads sqlv I \<Longrightarrow> keeps I (RememberSessionMessage b env f p)"
  unfolding RememberSessionMessage_def by (intro keeps_if keeps_return keeps_ignore sqlv_rules)

lemma sqlv_MarkConversationRead [sqlv_rules]: "relies env I \<Longrightarrow> reads sqlv I \<Longrightarrow> keeps I (MarkConversationRead b env u c n)"
  unfolding MarkConversationRead_def by (intro keeps_if keeps_ok sqlv_rules)

text \<open>What a run unfolds.\<close>

lemmas delivery_run [exec_defs] =
  track_pending_def trackPendingAck_def DecodeWireMessage_def envelope_of_def publish_on_def
  Deliver_def mark_cursor_def MarkConversationRead_def MarkConversationAcked_def
  ackFrameFromIndex_def acknowledge_def AckMessageWithDB_def AckMessage_def remember_message_def
  RememberSessionMessage_def

section \<open>Properties\<close>

text \<open>The scripts on the pending set of a user, as steps on the Redis state.\<close>

fun pending_step :: "string \<Rightarrow> pend_op \<Rightarrow> redis \<Rightarrow> redis" where
  "pending_step uid (OpTrack t m e) r = track_pending uid m e t r"
| "pending_step uid (OpAck m) r = snd (acknowledge uid m r)"

lemma pending_step_is_pend_step: "pending_step uid = pending.pend_step uid"
proof (intro ext)
  show "pending_step uid op r = pending.pend_step uid op r" for op r
    by (cases op) simp_all
qed

text \<open>A delivery that reports success has put the message into the recipient's pending set with its
  payload, whether or not a gateway took the push, whatever calls failed after it, and
  whatever other processes did, as long as nobody else acknowledges this message or puts another payload under its id.\<close>

theorem delivered_is_pending:
  assumes "relies env (index_free_for uid m (base64_encode payload))"
    and "relies env (pending_with uid m (base64_encode payload))"
    and "index_free_for uid m (base64_encode payload) w"
  shows "wp (Deliver h env uid m payload now)
           (\<lambda>r s. r = Inr () \<longrightarrow> pending_with uid m (base64_encode payload) s) w"
  using assms by (rule Deliver_pending)

text \<open>Every call after the first fails, and the delivery still succeeds.\<close>

theorem delivered_is_pending_witness:
  "\<exists>n s. run_state (Deliver demo (fails_from 1 7) ''bo'' ''m1'' ''p2'' 7) (0, demo_world) = (Inr (), n, s)
     \<and> pending_with ''bo'' ''m1'' (base64_encode ''p2'') s"
proof -
  have "wp (Deliver demo (fails_from 1 7) ''bo'' ''m1'' ''p2'' 7)
      (\<lambda>r s. r = Inr () \<longrightarrow> pending_with ''bo'' ''m1'' (base64_encode ''p2'') s) demo_world"
    by (rule delivered_is_pending) (simp_all add: index_free_for_def demo_world_simps empty_redis_def)
  moreover have "fst (run_state (Deliver demo (fails_from 1 7) ''bo'' ''m1'' ''p2'' 7) (0, demo_world)) = Inr ()"
    by (simp add: exec_defs run_calls cong: lazy_cong)
  ultimately show ?thesis by (auto dest: wp_run)
qed

text \<open>C4. A tracked message waits for its acknowledgement: after it was first tracked, any number of deliveries of
  this and other messages (with other payloads, even) and acknowledgements of other messages leave it in the
  pending set with the payload it was first tracked with.\<close>

theorem pending_until_acknowledged:
  assumes "hashes r (AckIndexKey uid) m = None" "OpAck m \<notin> set ops"
  shows "is_waiting uid (fold (pending_step uid) (OpTrack t m e # ops) r) m
       \<and> index_of uid (fold (pending_step uid) (OpTrack t m e # ops) r) m = Some e"
proof -
  have "index_of uid r m = None" using assms(1) by (simp add: index_of_def)
  from pending.replayable_until_ack [OF pending.replayable_track [OF this] assms(2)] show ?thesis
    by (simp add: pending_step_is_pend_step pending.replayable_def)
qed

theorem pending_until_acknowledged_witness:
  "is_waiting ''bo'' (fold (pending_step ''bo'') [OpTrack 1 ''m1'' ''AA=='', OpTrack 2 ''m2'' ''BB=='', OpTrack 3 ''m1'' ''CC=='',
     OpAck ''m2''] empty_redis) ''m1''"
  by (rule pending_until_acknowledged [THEN conjunct1]) (simp_all add: empty_redis_def)

text \<open>Acknowledging is final and local: the script takes the message out of the pending set's payload index, a second
  acknowledgement of it reports \<open>miss\<close> and changes nothing, and no other message's entry is touched.\<close>

theorem acknowledge_once:
  "index_of uid (snd (acknowledge uid m r)) m = None
     \<and> acknowledge uid m (snd (acknowledge uid m r)) = (False, snd (acknowledge uid m r))
     \<and> (hashes r (AckIndexKey uid) m \<noteq> None \<longrightarrow> fst (acknowledge uid m r) \<and> \<not> is_waiting uid (snd (acknowledge uid m r)) m)
     \<and> (m' \<noteq> m \<longrightarrow> is_waiting uid (snd (acknowledge uid m r)) m' = is_waiting uid r m'
          \<and> index_of uid (snd (acknowledge uid m r)) m' = index_of uid r m')"
proof (intro conjI impI)
  show idx: "index_of uid (snd (acknowledge uid m r)) m = None"
    by (simp add: pending.ack_stored)
  have "hashes (snd (acknowledge uid m r)) (AckIndexKey uid) m = None"
    using idx by (simp add: index_of_def split: option.splits rvalue.splits)
  then show "acknowledge uid m (snd (acknowledge uid m r)) = (False, snd (acknowledge uid m r))"
    by (simp add: acknowledge_def [of _ _ "snd (acknowledge uid m r)"])
next
  assume "hashes r (AckIndexKey uid) m \<noteq> None"
  then show "fst (acknowledge uid m r)" "\<not> is_waiting uid (snd (acknowledge uid m r)) m"
    by (auto simp: acknowledge_def is_waiting_def redis_simps r_zrem_def image_iff)
next
  assume "m' \<noteq> m"
  then show "is_waiting uid (snd (acknowledge uid m r)) m' = is_waiting uid r m'"
    "index_of uid (snd (acknowledge uid m r)) m' = index_of uid r m'"
    by (simp_all add: pending.ack_stored pending.ack_waiting)
qed

theorem acknowledge_once_witness:
  "fst (acknowledge ''bo'' ''m1'' (track_pending ''bo'' ''m1'' ''AA=='' 1 empty_redis))
     \<and> \<not> is_waiting ''bo'' (snd (acknowledge ''bo'' ''m1'' (track_pending ''bo'' ''m1'' ''AA=='' 1 empty_redis))) ''m1''"
  using acknowledge_once [of "''bo''" "''m1''" "track_pending ''bo'' ''m1'' ''AA=='' 1 empty_redis" "''m2''"]
  by (simp add: hashes_track empty_redis_def)

text \<open>The read and acknowledged cursors in Redis only move forward and do not depend on the order in which marks
  arrive: once set to \<open>k\<close>, after any marks the cursor is the largest of them and \<open>k\<close>.\<close>

theorem redis_cursor_is_maximum:
  assumes "hashes r key c = Some (Num k)"
  shows "hashes (fold (mark_cursor key c) ns r) key c = Some (Num (Max (insert k (set ns))))"
proof -
  have "cursor_valid key c r" "cursor_of key c r = Some k"
    using assms by (simp_all add: cursor_valid_def cursor_of_def)
  from redis_cursor.cursor_fold [OF this, of ns] show ?thesis
    by (auto simp: cursor_of_def split: option.splits rvalue.splits)
qed

theorem redis_cursor_is_maximum_witness:
  "hashes (fold (mark_cursor ''read'' ''c1'') [7, 3, 9, 2] (r_hset ''read'' ''c1'' (Num 5) empty_redis)) ''read'' ''c1'' = Some (Num 9)"
  using redis_cursor_is_maximum [of "r_hset ''read'' ''c1'' (Num 5) empty_redis" "''read''" "''c1''" 5 "[7, 3, 9, 2]"]
  by (simp add: redis_simps)

text \<open>The acknowledged cursor in MySQL obeys the same law: on a member's row, the \<open>GREATEST\<close> updates of any
  acknowledgements, in any order, leave the largest sequence number seen.\<close>

theorem sql_cursor_is_maximum:
  assumes "sql_acked c u rows = Some k"
  shows "sql_acked c u (fold (sql_mark_acked c u) ns rows) = Some (Max (insert k (set ns)))"
  using sql_cursor.cursor_fold [OF _ assms] assms by simp

theorem sql_cursor_is_maximum_witness:
  "sql_acked ''c1'' ''al'' (fold (sql_mark_acked ''c1'' ''al'') [4, 2]
     [\<lparr>cm_conversation = ''c1'', cm_user = ''al'', cm_read_seq = 0, cm_acked_seq = 3, cm_joined_at = 1\<rparr>]) = Some 4"
  using sql_cursor_is_maximum [of "''c1''" "''al''"
      "[\<lparr>cm_conversation = ''c1'', cm_user = ''al'', cm_read_seq = 0, cm_acked_seq = 3, cm_joined_at = 1\<rparr>]" 3 "[4, 2]"]
  by (simp add: sql_acked_def)

end
