(* ===== verification/Conversation.thy ===== *)
theory Conversation
  imports Delivery
begin

text \<open>
  Conversation summaries: internal/logic/conversation.go.  A summary is cached in Redis (a hash per conversation, a
  sorted set per user) and persisted in MySQL, directly or through the conversation outbox.  The lemmas
  show that neither copy ever goes back to an older message, that an event is only done when its summary is
  persisted, and that a listing shows no group the user is not an active member of.

  A background goroutine (\<open>updateConversationState\<close> without the outbox) is run to its end where it is started;
  whatever else may happen between its calls is interference.  The members of a Go map are taken in order
  of insertion.
\<close>

section \<open>Small functions\<close>

definition unreadCount :: "int \<Rightarrow> int \<Rightarrow> int" where
  "unreadCount lastSeq readSeq = (if lastSeq \<le> readSeq then 0 else i64 (lastSeq - readSeq))"

definition parseInt64 :: "string \<Rightarrow> int" where
  "parseInt64 raw = (if raw = [] then 0 else case parse_int raw of Some v \<Rightarrow> v | None \<Rightarrow> 0)"

definition conversationTypeFromID :: "string \<Rightarrow> string" where
  "conversationTypeFromID conversationID = (if has_prefix conversationID ''group:'' then ''group'' else ''user'')"

definition conversationTitle :: "string \<Rightarrow> string \<Rightarrow> string \<Rightarrow> string" where
  "conversationTitle uid conversationID conversationType =
     (if conversationType = ''group'' \<or> has_prefix conversationID ''group:'' then trim_prefix conversationID ''group:''
      else case find (\<lambda>p. p \<noteq> [] \<and> p \<noteq> ''c2c'' \<and> p \<noteq> uid) (rev (split_on (CHR '':'') conversationID)) of
             Some p \<Rightarrow> p | None \<Rightarrow> conversationID)"

definition conversationTitleForUser :: "string \<Rightarrow> string \<Rightarrow> string \<Rightarrow> string \<Rightarrow> string" where
  "conversationTitleForUser uid conversationID conversationType cachedTitle =
     (if conversationType = ''group'' \<or> has_prefix conversationID ''group:''
      then valueOrDefault cachedTitle (conversationTitle uid conversationID conversationType)
      else conversationTitle uid conversationID conversationType)"

definition conversationMembers :: "wire \<Rightarrow> string list \<Rightarrow> string list" where
  "conversationMembers frame recipients =
     remdups (filter (\<lambda>u. u \<noteq> []) (From frame # (if ToType frame = ''user'' then [To frame] else []) @ recipients))"

section \<open>The cached summary\<close>

text \<open>Redis answers texts; a number is read back from its decimal text.\<close>

definition field_num :: "rvalue option \<Rightarrow> int" where
  "field_num v = (case v of Some (Num n) \<Rightarrow> n | Some (Txt t) \<Rightarrow> parseInt64 t | _ \<Rightarrow> 0)"

definition field_text :: "rvalue option \<Rightarrow> string" where
  "field_text v = (case v of Some (Txt t) \<Rightarrow> t | Some (Num n) \<Rightarrow> itoa n | _ \<Rightarrow> [])"

text \<open>\<open>tonumber(redis.call("HGET", ...) or "d")\<close>; comparing a text that is no number is an error of the script.\<close>

definition lua_number :: "rvalue option \<Rightarrow> int \<Rightarrow> int option" where
  "lua_number v d = (case v of None \<Rightarrow> Some d | Some (Num n) \<Rightarrow> Some n | Some _ \<Rightarrow> None)"

definition update_last :: "string \<Rightarrow> int \<Rightarrow> string \<Rightarrow> string \<Rightarrow> string \<Rightarrow> string \<Rightarrow> int \<Rightarrow> string \<Rightarrow> redis \<Rightarrow> (gerr + bool) \<times> redis" where
  "update_last key seq cid type title body sentAt sender r =
    (case lua_number (hashes r key ''last_seq'') (-1) of
       None \<Rightarrow> (Inl (Msg ''ERR attempt to compare nil with number''), r)
     | Some current \<Rightarrow>
       if seq < current then (Inr False, r)
       else (case lua_number (hashes r key ''updated_at'') 0 of
          None \<Rightarrow> (Inl (Msg ''ERR attempt to compare nil with number''), r)
        | Some updated \<Rightarrow>
          (let at = max updated sentAt;
               r1 = r_hset key ''conversation_id'' (Txt cid) r; r2 = r_hset key ''type'' (Txt type) r1;
               r3 = r_hset key ''title'' (Txt title) r2; r4 = r_hset key ''last_msg'' (Txt body) r3;
               r5 = r_hset key ''last_seq'' (Num seq) r4; r6 = r_hset key ''last_msg_time'' (Num at) r5;
               r7 = r_hset key ''updated_at'' (Num at) r6
           in (Inr True, r_hset key ''sender_id'' (Txt sender) r7))))"

definition cacheConversationState :: "cfg \<Rightarrow> ('b im_scheme) env \<Rightarrow> wire \<Rightarrow> string list \<Rightarrow> ('b im_scheme, gerr + unit) io" where
  "cacheConversationState h env frame members =
     then_ok (update_w env (on_rds (\<lambda>r. fold (r_sadd (ConversationMembersKey (SessionId frame))) members r))) (\<lambda>_.
     then_ok (exec env (on_rds_res (update_last (ConversationLastKey (SessionId frame)) (SeqNo frame) (SessionId frame)
          (ToType frame) (conversationTitle (From frame) (SessionId frame) (ToType frame)) (Body frame) (SentAt frame) (From frame))))
       (\<lambda>applied.
     then_ok (if applied
        then update_w env (on_rds (\<lambda>r. fold (\<lambda>u. r_zadd_gt (UserConversationsKey u) (SentAt frame) (SessionId frame)) members r))
        else ok ()) (\<lambda>_.
     MarkConversationRead (has_rdb h) env (From frame) (SessionId frame) (SeqNo frame))))"

section \<open>The persisted summary\<close>

definition upsert_conv :: "wire \<Rightarrow> conv_row list \<Rightarrow> conv_row list" where
  "upsert_conv f = upsert (\<lambda>a b. cv_id a = cv_id b)
     (\<lambda>r. r\<lparr>cv_type := ToType f, cv_updated_at := SentAt f, cv_last_seq := max (cv_last_seq r) (SeqNo f)\<rparr>)
     \<lparr>cv_id = SessionId f, cv_type = ToType f, cv_created_at = SentAt f, cv_updated_at = SentAt f, cv_last_seq = SeqNo f\<rparr>"

definition upsert_conv_member :: "wire \<Rightarrow> string \<Rightarrow> int \<Rightarrow> conv_member_row list \<Rightarrow> conv_member_row list" where
  "upsert_conv_member f member readSeq = upsert (\<lambda>a b. cm_conversation a = cm_conversation b \<and> cm_user a = cm_user b)
     (\<lambda>r. r\<lparr>cm_read_seq := max (cm_read_seq r) readSeq\<rparr>)
     \<lparr>cm_conversation = SessionId f, cm_user = member, cm_read_seq = readSeq, cm_acked_seq = 0, cm_joined_at = SentAt f\<rparr>"

definition persistConversationState :: "('b im_scheme) env \<Rightarrow> wire \<Rightarrow> string list \<Rightarrow> ('b im_scheme, gerr + unit) io" where
  "persistConversationState env frame members =
     then_ok (update_w env (\<lambda>s. s\<lparr>convs := upsert_conv frame (convs s)\<rparr>)) (\<lambda>_.
       if ToType frame = ''group'' then ok ()
       else each (\<lambda>member. update_w env (\<lambda>s. s\<lparr>conv_members :=
              upsert_conv_member frame member (if member = From frame then SeqNo frame else 0) (conv_members s)\<rparr>)) members)"

definition updateConversationState :: "cfg \<Rightarrow> ('b im_scheme) env \<Rightarrow> wire \<Rightarrow> string list \<Rightarrow> ('b im_scheme, unit) io" where
  "updateConversationState h env frame recipients =
     (if SessionId frame = [] then State_Monad.return ()
      else let members = conversationMembers frame recipients in
        ignore (if has_rdb h then cacheConversationState h env frame members else ok ())
          (if has_db h \<and> \<not> ConversationOutbox h
           then ignore (persistConversationState env frame members) (State_Monad.return ())
           else State_Monad.return ()))"

section \<open>The conversation outbox\<close>

definition outboxLease :: int where "outboxLease = 30000"
definition maxOutboxAttempts :: int where "maxOutboxAttempts = 10"

definition outboxRetryDelay :: "int \<Rightarrow> int" where
  "outboxRetryDelay i = (1 + i mod 30) * 1000"

definition co_due :: "int \<Rightarrow> conv_outbox_row \<Rightarrow> bool" where
  "co_due now r \<longleftrightarrow> (co_status r = Pending \<or> co_status r = Processing) \<and> co_available_at r \<le> now"

definition frame_of_event :: "conv_outbox_row \<Rightarrow> wire" where
  "frame_of_event ev = empty_wire\<lparr>MessageId := co_message_id ev, SessionId := co_session_id ev, From := co_from ev,
     To := co_to ev, ToType := co_to_type ev, SeqNo := co_seq ev, SentAt := co_sent_at ev\<rparr>"

definition set_conv_outbox :: "(conv_outbox_row list \<Rightarrow> conv_outbox_row list) \<Rightarrow> 'b im_scheme \<Rightarrow> 'b im_scheme" where
  "set_conv_outbox f s = s\<lparr>conv_outbox := f (conv_outbox s)\<rparr>"

text \<open>One event of the loop; the answer tells whether it counts as processed.\<close>

definition process_conv_event :: "('b im_scheme) env \<Rightarrow> conv_outbox_row \<Rightarrow> ('b im_scheme, gerr + bool) io" where
  "process_conv_event env ev =
     State_Monad.bind (clock env) (\<lambda>t1. State_Monad.bind (clock env) (\<lambda>t2.
     then_ok (exec env (run_update conv_outbox set_conv_outbox (\<lambda>r. co_id r = co_id ev \<and> co_due t2 r)
          (\<lambda>r. r\<lparr>co_status := Processing, co_attempts := co_attempts r + 1, co_available_at := t1 + outboxLease\<rparr>)))
       (\<lambda>claimed. if claimed = 0 then ok False
        else State_Monad.bind (persistConversationState env (frame_of_event ev) (conversationMembers (frame_of_event ev) []))
          (\<lambda>res. case res of
            Inl e \<Rightarrow> State_Monad.bind (clock env) (\<lambda>t3. State_Monad.bind (clock env) (\<lambda>t4.
              let dead = maxOutboxAttempts \<le> co_attempts ev + 1 in
              then_ok (exec env (run_update conv_outbox set_conv_outbox (\<lambda>r. co_id r = co_id ev)
                 (\<lambda>r. r\<lparr>co_status := if dead then Dead else Pending,
                        co_available_at := if dead then t4 else t3 + outboxRetryDelay (co_id ev),
                        co_last_error := err_text e\<rparr>)))
                (\<lambda>_. ok False)))
          | Inr _ \<Rightarrow> State_Monad.bind (clock env) (\<lambda>t5.
              then_ok (exec env (run_update conv_outbox set_conv_outbox (\<lambda>r. co_id r = co_id ev)
                 (\<lambda>r. r\<lparr>co_status := Finished, co_processed_at := Some t5, co_last_error := []\<rparr>)))
                (\<lambda>_. ok True))))))"

fun process_conv_events :: "('b im_scheme) env \<Rightarrow> conv_outbox_row list \<Rightarrow> int \<Rightarrow> ('b im_scheme, int \<times> (gerr + unit)) io" where
  "process_conv_events env [] processed = State_Monad.return (processed, Inr ())"
| "process_conv_events env (ev # evs) processed =
     State_Monad.bind (process_conv_event env ev) (\<lambda>res. case res of
        Inl e \<Rightarrow> State_Monad.return (processed, Inl e)
      | Inr okay \<Rightarrow> process_conv_events env evs (if okay then processed + 1 else processed))"

definition ProcessConversationOutbox :: "cfg \<Rightarrow> ('b im_scheme) env \<Rightarrow> int \<Rightarrow> ('b im_scheme, int \<times> (gerr + unit)) io" where
  "ProcessConversationOutbox h env limit0 =
     (if \<not> has_db h then State_Monad.return (0, Inr ())
      else let limit = (if limit0 \<le> 0 \<or> limit0 > 200 then 100 else limit0) in
        State_Monad.bind (clock env) (\<lambda>now.
        State_Monad.bind (query env (\<lambda>s. take (nat limit) (order_asc co_id (filter (co_due now) (conv_outbox s))))) (\<lambda>res.
          case res of Inl e \<Rightarrow> State_Monad.return (0, Inl e) | Inr events \<Rightarrow> process_conv_events env events 0)))"

section \<open>Listing\<close>

record conversation =
  ConversationId :: string
  ConvType :: string
  Title :: string
  LastMsg :: string
  LastSeqNo :: int
  ReadSeq :: int
  AckedSeq :: int
  UnreadCount :: int
  UpdatedAt :: int

definition readConversationSeq :: "('b im_scheme) env \<Rightarrow> string \<Rightarrow> string \<Rightarrow> ('b im_scheme, int) io" where
  "readConversationSeq env uid c = State_Monad.bind (query env (\<lambda>s. hashes (rds s) (UserConversationReadKey uid) c))
     (\<lambda>res. State_Monad.return (case res of Inl _ \<Rightarrow> 0 | Inr v \<Rightarrow> field_num v))"

definition ackedConversationSeq :: "('b im_scheme) env \<Rightarrow> string \<Rightarrow> string \<Rightarrow> ('b im_scheme, int) io" where
  "ackedConversationSeq env uid c = State_Monad.bind (query env (\<lambda>s. hashes (rds s) (UserConversationAckedKey uid) c))
     (\<lambda>res. State_Monad.return (case res of Inl _ \<Rightarrow> 0 | Inr v \<Rightarrow> field_num v))"

fun loadConversationsFromRedis :: "('b im_scheme) env \<Rightarrow> string \<Rightarrow> (int \<times> string) list \<Rightarrow> ('b im_scheme, gerr + conversation list) io" where
  "loadConversationsFromRedis env uid [] = ok []"
| "loadConversationsFromRedis env uid ((score, cid) # items) =
     (if cid = [] then loadConversationsFromRedis env uid items
      else then_ok (query env (\<lambda>s. hashes (rds s) (ConversationLastKey cid))) (\<lambda>fields.
        State_Monad.bind (readConversationSeq env uid cid) (\<lambda>readSeq.
        State_Monad.bind (ackedConversationSeq env uid cid) (\<lambda>ackedSeq.
        let lastSeq = field_num (fields ''last_seq'');
            updatedAt = (let u = field_num (fields ''updated_at'') in if u = 0 then score else u);
            conversationType = valueOrDefault (field_text (fields ''type'')) (conversationTypeFromID cid)
        in then_ok (loadConversationsFromRedis env uid items) (\<lambda>rest. ok
          (\<lparr>ConversationId = cid, ConvType = conversationType,
            Title = conversationTitleForUser uid cid conversationType (field_text (fields ''title'')),
            LastMsg = field_text (fields ''last_msg''), LastSeqNo = lastSeq, ReadSeq = readSeq, AckedSeq = ackedSeq,
            UnreadCount = unreadCount lastSeq readSeq, UpdatedAt = updatedAt\<rparr> # rest))))))"

text \<open>The join of \<open>conversation_members\<close>, \<open>conversations\<close> and (left) \<open>messages\<close>.\<close>

definition member_conversations :: "string \<Rightarrow> 'b im_scheme \<Rightarrow> (conv_row \<times> conv_member_row \<times> string) list" where
  "member_conversations uid s =
     concat (map (\<lambda>cm. concat (map (\<lambda>c.
         case filter (\<lambda>m. ms_session_id m = cv_id c \<and> ms_seq m = cv_last_seq c) (msgs s) of
           [] \<Rightarrow> [(c, cm, [])] | ms \<Rightarrow> map (\<lambda>m. (c, cm, ms_content m)) ms)
       (filter (\<lambda>c. cv_id c = cm_conversation cm) (convs s)))) (filter (\<lambda>cm. cm_user cm = uid) (conv_members s)))"

definition conversation_of_row :: "string \<Rightarrow> bool \<Rightarrow> conv_row \<times> conv_member_row \<times> string \<Rightarrow> conversation" where
  "conversation_of_row uid legacyAcked row = (case row of (c, cm, content) \<Rightarrow>
     \<lparr>ConversationId = cv_id c, ConvType = cv_type c, Title = conversationTitleForUser uid (cv_id c) (cv_type c) [],
      LastMsg = content, LastSeqNo = cv_last_seq c, ReadSeq = cm_read_seq cm,
      AckedSeq = (if legacyAcked then cm_read_seq cm else cm_acked_seq cm),
      UnreadCount = unreadCount (cv_last_seq c) (cm_read_seq cm), UpdatedAt = cv_updated_at c\<rparr>)"

definition select_conversations :: "cfg \<Rightarrow> ('b im_scheme) env \<Rightarrow> string \<Rightarrow> int \<Rightarrow> string list
    \<Rightarrow> ('b im_scheme, gerr + (conv_row \<times> conv_member_row \<times> string) list) io" where
  "select_conversations h env uid limit columns =
     exec env (on_schema h [''conversation_members'', ''conversations'', ''messages''] columns
       (\<lambda>s. (Inr (take (nat limit) (order_desc (\<lambda>(c, _, _). cv_updated_at c) (member_conversations uid s))), s)))"

definition loadConversationsFromDB :: "cfg \<Rightarrow> ('b im_scheme) env \<Rightarrow> string \<Rightarrow> int \<Rightarrow> ('b im_scheme, gerr + conversation list) io" where
  "loadConversationsFromDB h env uid limit =
     (if \<not> has_db h then ok []
      else State_Monad.bind (select_conversations h env uid limit [''acked_seq'']) (\<lambda>res. case res of
        Inr rows \<Rightarrow> ok (map (conversation_of_row uid False) rows)
      | Inl e \<Rightarrow> if isUnknownColumn e ''acked_seq''
                 then then_ok (select_conversations h env uid limit []) (\<lambda>rows. ok (map (conversation_of_row uid True) rows))
                 else err e))"

definition cache_conversation :: "string \<Rightarrow> conversation \<Rightarrow> redis \<Rightarrow> redis" where
  "cache_conversation uid c r =
     (if ConversationId c = [] then r
      else let k = ConversationLastKey (ConversationId c);
               r1 = r_zadd (UserConversationsKey uid) (UpdatedAt c) (ConversationId c) r;
               r2 = r_hset k ''conversation_id'' (Txt (ConversationId c)) r1; r3 = r_hset k ''type'' (Txt (ConvType c)) r2;
               r4 = r_hset k ''title'' (Txt (Title c)) r3; r5 = r_hset k ''last_msg'' (Txt (LastMsg c)) r4;
               r6 = r_hset k ''last_seq'' (Num (LastSeqNo c)) r5; r7 = r_hset k ''updated_at'' (Num (UpdatedAt c)) r6;
               r8 = r_hset (UserConversationReadKey uid) (ConversationId c) (Num (ReadSeq c)) r7
           in r_hset (UserConversationAckedKey uid) (ConversationId c) (Num (AckedSeq c)) r8)"

definition cacheConversationList :: "('b im_scheme) env \<Rightarrow> string \<Rightarrow> conversation list \<Rightarrow> ('b im_scheme, unit) io" where
  "cacheConversationList env uid conversations =
     ignore (update_w env (on_rds (fold (cache_conversation uid) conversations))) (State_Monad.return ())"

definition filterCommunityConversations :: "cfg \<Rightarrow> ('b im_scheme) env \<Rightarrow> string \<Rightarrow> conversation list \<Rightarrow> ('b im_scheme, gerr + conversation list) io" where
  "filterCommunityConversations h env uid items =
     (if \<not> list_ex (\<lambda>c. has_prefix (ConversationId c) ''group:'') items then ok items
      else if \<not> has_db h then err (Msg ''membership store unavailable'')
      else then_ok (query env (\<lambda>s. map gm_group (filter (\<lambda>m. gm_user m = uid \<and> gm_status m = ''active''
              \<and> list_ex (\<lambda>g. gr_id g = gm_group m \<and> gr_status g = ''active'') (group_rows s)) (member_rows s))))
        (\<lambda>active. ok (filter (\<lambda>c. \<not> has_prefix (ConversationId c) ''group:''
                         \<or> trim_prefix (ConversationId c) ''group:'' \<in> set active) items)))"

definition listConversations :: "cfg \<Rightarrow> ('b im_scheme) env \<Rightarrow> string \<Rightarrow> int \<Rightarrow> ('b im_scheme, gerr + conversation list) io" where
  "listConversations h env uid limit0 =
     (let limit = (if limit0 \<le> 0 then 50 else limit0);
          from_db = then_ok (loadConversationsFromDB h env uid limit) (\<lambda>cs.
            ignore (if has_rdb h \<and> cs \<noteq> [] then cacheConversationList env uid cs else State_Monad.return ())
              (filterCommunityConversations h env uid cs)) in
      if has_rdb h then
        then_ok (query env (\<lambda>s. r_zrevrange (UserConversationsKey uid) (nat limit) (rds s))) (\<lambda>items.
          if items \<noteq> [] then then_ok (loadConversationsFromRedis env uid items) (filterCommunityConversations h env uid)
          else from_db)
      else from_db)"

section \<open>Small functions, correctness\<close>

lemma unreadCount_exact:
  assumes "0 \<le> readSeq" "in_i64 lastSeq"
  shows "unreadCount lastSeq readSeq = max 0 (lastSeq - readSeq)"
  using assms by (auto simp: unreadCount_def in_i64_def intro!: i64_eq)

text \<open>The title of a one-to-one conversation is the other user.\<close>

lemma conversationTitle_peer:
  assumes "CHR '':'' \<notin> set u" "CHR '':'' \<notin> set v" "u \<noteq> v" "v \<noteq> []" "v \<noteq> ''c2c''" "t \<noteq> ''group''"
  shows "conversationTitle u (buildSessionID u v ''user'') t = v"
proof -
  have sp: "split_on (CHR '':'') (''c2c:'' @ a @ '':'' @ b) = [''c2c'', a, b]"
    if "CHR '':'' \<notin> set a" "CHR '':'' \<notin> set b" for a b
    using that split_on_append [of "CHR '':''" "''c2c''" "a @ '':'' @ b"] split_on_append [of "CHR '':''" a b]
      split_on_no_sep [of "CHR '':''" b] by simp
  show ?thesis
    using assms sp [of u v] sp [of v u]
    by (auto simp: conversationTitle_def buildSessionID_user has_prefix_def)
qed

section \<open>Summaries never go back\<close>

definition summary_valid :: "string \<Rightarrow> redis \<Rightarrow> bool" where
  "summary_valid key r \<longleftrightarrow> cursor_valid key ''last_seq'' r \<and> cursor_valid key ''updated_at'' r"

definition seen_seq :: "string \<Rightarrow> redis \<Rightarrow> int option" where
  "seen_seq key r = cursor_of key ''last_seq'' r"

text \<open>The part of an event's summary the order of application must not matter for.\<close>

definition apply_summary :: "string \<Rightarrow> (int \<Rightarrow> wire) \<Rightarrow> int \<Rightarrow> redis \<Rightarrow> redis" where
  "apply_summary key frame n r = snd (update_last key n (SessionId (frame n)) (ToType (frame n))
     (conversationTitle (From (frame n)) (SessionId (frame n)) (ToType (frame n))) (Body (frame n)) (SentAt (frame n))
     (From (frame n)) r)"

lemma lua_number_valid: "cursor_valid key f r \<Longrightarrow> lua_number (hashes r key f) d = Some (case cursor_of key f r of Some n \<Rightarrow> n | None \<Rightarrow> d)"
  by (auto simp: cursor_valid_def cursor_of_def lua_number_def split: option.splits rvalue.splits)

lemma update_last_cursor:
  assumes "summary_valid key r"
  shows "cursor_of key ''last_seq'' (snd (update_last key seq cid ty ti body at u r))
      = (if seq < (case cursor_of key ''last_seq'' r of Some n \<Rightarrow> n | None \<Rightarrow> -1) then cursor_of key ''last_seq'' r else Some seq)"
    and "summary_valid key (snd (update_last key seq cid ty ti body at u r))"
    and "hashes (snd (update_last key seq cid ty ti body at u r)) key ''last_msg''
      = (if seq < (case cursor_of key ''last_seq'' r of Some n \<Rightarrow> n | None \<Rightarrow> -1) then hashes r key ''last_msg'' else Some (Txt body))"
  using assms
  by (auto simp: update_last_def summary_valid_def lua_number_valid redis_simps Let_def cursor_of_def cursor_valid_def)

interpretation summary: monotone_cursor
  "\<lambda>r. summary_valid key r \<and> (\<exists>c. seen_seq key r = Some c)" "seen_seq key" "apply_summary key frame" for key and frame
  by unfold_locales (auto simp: apply_summary_def update_last_cursor seen_seq_def)

section \<open>Members only\<close>

lemma filterCommunityConversations_members:
  "wp (filterCommunityConversations h env uid items) (\<lambda>r s. \<forall>cs. r = Inr cs \<longrightarrow> set cs \<subseteq> set items \<and>
     (\<forall>c\<in>set cs. has_prefix (ConversationId c) ''group:'' \<longrightarrow>
        (\<exists>m\<in>set (member_rows s). \<exists>g\<in>set (group_rows s). gm_user m = uid \<and> gm_status m = ''active'' \<and>
           gm_group m = trim_prefix (ConversationId c) ''group:'' \<and> gr_id g = gm_group m \<and> gr_status g = ''active''))) w"
  unfolding filterCommunityConversations_def
  apply (rule wp_if)
   apply (rule wp_ok)
   apply (auto simp: list_ex_iff) [1]
  apply (rule wp_if, simp add: wp_err)
  apply (rule wp_then_ok, rule wp_query_now)
   apply simp
  apply (auto intro!: wp_ok simp: list_ex_iff)
  apply fastforce
  done

section \<open>The message core is left alone\<close>

lemma strs_fold_same: "(\<And>x r. strs (f x r) = strs r) \<Longrightarrow> strs (fold f xs r) = strs r"
  by (induction xs arbitrary: r) auto

lemma strs_update_last: "strs (snd (update_last k n c ty ti b at u r)) = strs r"
  by (auto simp: update_last_def redis_simps Let_def split: option.split)

lemma keeps_cacheConversationState [keeps_rules]:
  "relies env I \<Longrightarrow> of_core I \<Longrightarrow> keeps I (cacheConversationState h env f ms)"
  unfolding cacheConversationState_def
  apply (intro keeps_then_ok keeps_rds_core keeps_if keeps_ok keeps_MarkConversationRead keeps_exec_core)
          apply (simp_all add: strs_fold_same redis_simps)
  apply (simp add: on_rds_res_def core_def strs_update_last split: prod.split)
  by (metis snd_conv strs_update_last)

lemma keeps_persistConversationState [keeps_rules]:
  "relies env I \<Longrightarrow> of_core I \<Longrightarrow> keeps I (persistConversationState env f ms)"
  unfolding persistConversationState_def
  by (intro keeps_then_ok keeps_update_core keeps_if keeps_ok keeps_each) (auto simp: core_def)

lemma keeps_updateConversationState [keeps_rules]:
  "relies env I \<Longrightarrow> of_core I \<Longrightarrow> keeps I (updateConversationState h env f rs)"
  unfolding updateConversationState_def Let_def
  by (intro keeps_if keeps_return keeps_ignore keeps_ok keeps_cacheConversationState keeps_persistConversationState)

section \<open>The pending messages are left alone\<close>

lemma fold_same: "(\<And>x r. g (f x r) = g r) \<Longrightarrow> g (fold f xs r) = g r"
  by (induction xs arbitrary: r) auto

lemma update_last_collections:
  "zsets (snd (update_last k n c ty ti b at u r)) = zsets r"
  "k' \<noteq> k \<Longrightarrow> hashes (snd (update_last k n c ty ti b at u r)) k' = hashes r k'"
  by (auto simp: update_last_def redis_simps Let_def split: option.split)

lemma zadd_gt_collections [redis_simps]:
  "hashes (r_zadd_gt k s m r) = hashes r" "k' \<noteq> k \<Longrightarrow> zsets (r_zadd_gt k s m r) k' = zsets r k'"
  by (auto simp: r_zadd_gt_def redis_simps split: option.split)

lemma pview_cacheConversationState [pview_rules]:
  "relies env I \<Longrightarrow> reads pview I \<Longrightarrow> keeps I (cacheConversationState h env f ms)"
  unfolding cacheConversationState_def
  apply (intro keeps_then_ok keeps_update_reads [where v = pview] keeps_if keeps_ok pview_rules
      keeps_exec_reads [where v = pview])
          apply (simp_all add: pview_on_rds fold_same redis_simps)
  apply (simp add: on_rds_res_def pview_def update_last_collections split: prod.split)
  apply (metis snd_conv update_last_collections AckIndexKey_apart(3))
  apply (rule pview_on_rds)
   apply (rule fold_same [where g = "\<lambda>r. zsets r (PendingAckKey _)"])
   apply (simp add: redis_simps)
  apply (rule fold_same [where g = "\<lambda>r. hashes r (AckIndexKey _)"])
  apply (simp add: redis_simps)
  done

lemma pview_persistConversationState [pview_rules]:
  "relies env I \<Longrightarrow> reads pview I \<Longrightarrow> keeps I (persistConversationState env f ms)"
  unfolding persistConversationState_def
  by (intro keeps_then_ok keeps_update_reads [where v = pview] keeps_if keeps_ok keeps_each) (auto simp: pview_def)

lemma pview_updateConversationState [pview_rules]:
  "relies env I \<Longrightarrow> reads pview I \<Longrightarrow> keeps I (updateConversationState h env f rs)"
  unfolding updateConversationState_def Let_def
  by (intro keeps_if keeps_return keeps_ignore keeps_ok pview_rules)

section \<open>A done event has its summary persisted\<close>

definition summary_stored :: "wire \<Rightarrow> 'b im_scheme \<Rightarrow> bool" where
  "summary_stored f s \<longleftrightarrow> (\<exists>c\<in>set (convs s). cv_id c = SessionId f \<and> SeqNo f \<le> cv_last_seq c)"

lemma summary_stored_upsert:
  "summary_stored f (s\<lparr>convs := upsert_conv f (convs s)\<rparr>)"
proof (cases "\<exists>b\<in>set (convs s). SessionId f = cv_id b")
  case True
  then obtain b where b: "b \<in> set (convs s)" "SessionId f = cv_id b" by blast
  let ?b = "b\<lparr>cv_type := ToType f, cv_updated_at := SentAt f, cv_last_seq := max (cv_last_seq b) (SeqNo f)\<rparr>"
  have "?b \<in> set (upsert_conv f (convs s))"
    using b by (force simp: upsert_conv_def upsert_def list_ex_iff upd_def)
  then show ?thesis using b(2) by (auto simp: summary_stored_def intro!: bexI [of _ ?b])
next
  case False
  then show ?thesis by (auto simp: summary_stored_def upsert_conv_def upsert_def list_ex_iff)
qed

lemma summary_stored_convs: "convs s' = convs s \<Longrightarrow> summary_stored f s' = summary_stored f s"
  by (simp add: summary_stored_def)

lemma persistConversationState_stores:
  assumes "relies env (summary_stored f)"
  shows "wp (persistConversationState env f ms) (\<lambda>r s. r = Inr () \<longrightarrow> summary_stored f s) w"
proof -
  have k: "keeps (summary_stored f) (if ToType f = ''group'' then ok ()
       else each (\<lambda>m. update_w env (\<lambda>s. s\<lparr>conv_members := upsert_conv_member f m (if m = From f then SeqNo f else 0) (conv_members s)\<rparr>)) ms)"
    by (intro keeps_if keeps_ok keeps_each keeps_update assms) (auto simp: summary_stored_def)
  have first: "wp (update_w env (\<lambda>s. s\<lparr>convs := upsert_conv f (convs s)\<rparr>)) (\<lambda>r s. r = Inr () \<longrightarrow> summary_stored f s) w"
    by (rule wp_update_w) (simp_all add: summary_stored_upsert)
  show ?thesis
    unfolding persistConversationState_def
    apply (rule wp_then_okI [OF first], simp)
    apply (rule wp_mono [OF keeps_wp [OF k]])
     apply simp_all
    done
qed

lemma process_conv_event_done:
  fixes env :: "('b im_scheme) env"
  assumes rely: "relies env (summary_stored (frame_of_event ev))"
  shows "wp (process_conv_event env ev) (\<lambda>r s. r = Inr True \<longrightarrow> summary_stored (frame_of_event ev) s) w"
proof -
  let ?P = "summary_stored (frame_of_event ev)"
  have any: "wp (exec env opn) (\<lambda>r s. True) s'" for opn :: "'b im_scheme \<Rightarrow> (gerr + nat) \<times> 'b im_scheme" and s'
    by (rule wpI) simp
  have settle: "wp (exec env (run_update conv_outbox set_conv_outbox p g)) (\<lambda>r s. ?P s) s'" if "?P s'" for p g s'
    using that by (intro keeps_wp keeps_exec rely) (auto simp: run_update_def set_conv_outbox_def summary_stored_def)
  show ?thesis
    unfolding process_conv_event_def Let_def
    apply (intro wp_bind wp_clock)
    apply (rule wp_then_okI [OF any], simp)
    apply (rule wp_if, simp add: wp_ok)
    apply (rule wp_bindI [OF persistConversationState_stores [OF rely]])
    subgoal for t1 t2 claimed s1 r s
      apply (rule wp_case_sum)
       apply (intro wp_bind wp_clock)
       apply (rule wp_then_okI [OF any])
        apply (simp_all only: wp_ok simp_thms sum.distinct sum.inject)
        apply (simp_all add: wp_ok)
      apply (intro wp_bind wp_clock)
      apply (rule wp_then_okI [OF settle])
        apply (simp_all add: wp_ok)
      done
    done
qed

section \<open>The message tables are left alone\<close>

lemma sqlv_cacheConversationState [sqlv_rules]:
  "relies env I \<Longrightarrow> reads sqlv I \<Longrightarrow> keeps I (cacheConversationState h env f ms)"
  unfolding cacheConversationState_def
  by (intro keeps_then_ok sqlv_rules keeps_if keeps_ok keeps_exec_reads [where v = sqlv])
     (auto simp: on_rds_res_def sqlv_def split: prod.split)

lemma sqlv_updateConversationState [sqlv_rules]:
  "relies env I \<Longrightarrow> reads sqlv I \<Longrightarrow> keeps I (updateConversationState h env f rs)"
  unfolding updateConversationState_def persistConversationState_def Let_def
  by (intro keeps_if keeps_return keeps_ignore keeps_ok keeps_then_ok keeps_each sqlv_rules
      keeps_update_reads [where v = sqlv]) (auto simp: sqlv_def)

text \<open>What a run unfolds.\<close>

lemmas conversation_run [exec_defs] =
  unreadCount_def parseInt64_def conversationTypeFromID_def conversationTitle_def
  conversationTitleForUser_def conversationMembers_def field_num_def field_text_def lua_number_def
  update_last_def cacheConversationState_def upsert_conv_def upsert_conv_member_def
  persistConversationState_def updateConversationState_def outboxLease_def maxOutboxAttempts_def
  outboxRetryDelay_def co_due_def frame_of_event_def set_conv_outbox_def process_conv_event_def
  ProcessConversationOutbox_def readConversationSeq_def ackedConversationSeq_def
  member_conversations_def conversation_of_row_def select_conversations_def
  loadConversationsFromDB_def cache_conversation_def cacheConversationList_def
  filterCommunityConversations_def listConversations_def

section \<open>Properties\<close>

lemma listConversations_members:
  "wp (listConversations h env uid limit) (\<lambda>r s. \<forall>cs. r = Inr cs \<longrightarrow>
     (\<forall>c\<in>set cs. has_prefix (ConversationId c) ''group:'' \<longrightarrow>
        (\<exists>m\<in>set (member_rows s). \<exists>g\<in>set (group_rows s). gm_user m = uid \<and> gm_status m = ''active'' \<and>
           gm_group m = trim_prefix (ConversationId c) ''group:'' \<and> gr_id g = gm_group m \<and> gr_status g = ''active''))) w"
    (is "wp _ ?Q w")
proof -
  have any: "wp m (\<lambda>_ _. True) s" for m :: "('a im_scheme, 'x) io" and s
    by (rule wpI) simp
  have fil: "wp (filterCommunityConversations h env uid cs) ?Q s" for cs s
    by (rule wp_mono [OF filterCommunityConversations_members]) blast
  have db: "wp (then_ok (loadConversationsFromDB h env uid l) (\<lambda>cs.
        ignore (if b cs then cacheConversationList env uid cs else State_Monad.return ()) (filterCommunityConversations h env uid cs))) ?Q s"
    for l b s
    by (rule wp_then_okI [OF any], simp, rule wp_ignoreI [OF any], rule fil)
  show ?thesis
    unfolding listConversations_def Let_def
    apply (rule wp_if)
     apply (rule wp_then_okI [OF any], simp)
     apply (rule wp_if)
      apply (rule wp_then_okI [OF any], simp, rule fil)
     apply (rule db)
    apply (rule db)
    done
qed

text \<open>A listing shows no group the user is not in: every group conversation in the answer of \<open>listConversations\<close>, from
  the cache or from MySQL, is one of an active group in which the user is an active member when
  the answer is made, however stale the cached summaries are.\<close>

theorem listing_shows_member_groups_only:
  "wp (listConversations h env uid limit) (\<lambda>r s. \<forall>cs. r = Inr cs \<longrightarrow>
     (\<forall>c\<in>set cs. has_prefix (ConversationId c) ''group:'' \<longrightarrow>
        (\<exists>m\<in>set (member_rows s). \<exists>g\<in>set (group_rows s). gm_user m = uid \<and> gm_status m = ''active'' \<and>
           gm_group m = trim_prefix (ConversationId c) ''group:'' \<and> gr_id g = gm_group m \<and> gr_status g = ''active''))) w"
  by (rule listConversations_members)

definition demo_listing :: im where
  "demo_listing = demo_world\<lparr>rds := r_zadd (UserConversationsKey ''al'') 1 ''group:g1'' (r_zadd (UserConversationsKey ''al'') 2 ''group:g9'' empty_redis),
     group_rows := [\<lparr>gr_id = ''g1'', gr_name = ''G'', gr_owner = ''al'', gr_status = ''active'', gr_created_at = 1\<rparr>,
                    \<lparr>gr_id = ''g9'', gr_name = ''H'', gr_owner = ''bo'', gr_status = ''active'', gr_created_at = 1\<rparr>]\<rparr>"

text \<open>The cache still lists the group \<open>g9\<close>, which the user has left.\<close>

theorem listing_shows_member_groups_only_witness:
  "\<exists>n s cs. run_state (listConversations demo (calm 5) ''al'' 0) (0, demo_listing) = (Inr cs, n, s)
     \<and> map ConversationId cs = [''group:g1'']
     \<and> (\<exists>m\<in>set (member_rows s). gm_user m = ''al'' \<and> gm_status m = ''active'' \<and> gm_group m = ''g1'')"
proof -
  have "case fst (run_state (listConversations demo (calm 5) ''al'' 0) (0, demo_listing)) of
      Inl e \<Rightarrow> False | Inr cs \<Rightarrow> map ConversationId cs = [''group:g1'']"
    by (simp add: demo_listing_def exec_defs run_calls cong: lazy_cong)
  then obtain cs where run: "fst (run_state (listConversations demo (calm 5) ''al'' 0) (0, demo_listing)) = Inr cs"
    and ids: "map ConversationId cs = [''group:g1'']"
    by (auto split: sum.splits)
  from ids obtain c where "c \<in> set cs" "ConversationId c = ''group:g1''" by auto
  with wp_run [OF listing_shows_member_groups_only run] ids show ?thesis
    by (fastforce simp: has_prefix_def trim_prefix_def)
qed

text \<open>Applying a message to its cached summary, as \<open>cacheConversationState\<close> calls the script.\<close>

definition cache_summary :: "string \<Rightarrow> wire \<Rightarrow> redis \<Rightarrow> redis" where
  "cache_summary key f r = snd (update_last key (SeqNo f) (SessionId f) (ToType f)
     (conversationTitle (From f) (SessionId f) (ToType f)) (Body f) (SentAt f) (From f) r)"

lemma cache_summary_cursor:
  assumes "summary_valid key r"
  shows "cursor_of key ''last_seq'' (cache_summary key f r)
      = (if SeqNo f < (case cursor_of key ''last_seq'' r of Some n \<Rightarrow> n | None \<Rightarrow> -1) then cursor_of key ''last_seq'' r else Some (SeqNo f))"
    and "summary_valid key (cache_summary key f r)"
    and "hashes (cache_summary key f r) key ''last_msg''
      = (if SeqNo f < (case cursor_of key ''last_seq'' r of Some n \<Rightarrow> n | None \<Rightarrow> -1) then hashes r key ''last_msg'' else Some (Txt (Body f)))"
  using update_last_cursor [OF assms] by (simp_all add: cache_summary_def)

text \<open>The cached summary shows the newest message: whatever order the messages of a conversation reach the cache in,
  the summary ends with the largest sequence number among them and the body of a message with that number.\<close>

theorem cached_summary_is_newest:
  assumes "fs \<noteq> []" "\<forall>f\<in>set fs. 0 \<le> SeqNo f" "hashes r key = (\<lambda>_. None)"
  shows "\<exists>f\<in>set fs. SeqNo f = Max (SeqNo ` set fs)
     \<and> hashes (fold (cache_summary key) fs r) key ''last_seq'' = Some (Num (SeqNo f))
     \<and> hashes (fold (cache_summary key) fs r) key ''last_msg'' = Some (Txt (Body f))"
proof -
  have "summary_valid key (fold (cache_summary key) fs r) \<and> (\<exists>f\<in>set fs. SeqNo f = Max (SeqNo ` set fs)
     \<and> cursor_of key ''last_seq'' (fold (cache_summary key) fs r) = Some (SeqNo f)
     \<and> hashes (fold (cache_summary key) fs r) key ''last_msg'' = Some (Txt (Body f)))"
    using assms(1,2)
  proof (induction fs rule: rev_induct)
    case (snoc g fs)
    show ?case
    proof (cases "fs = []")
      case True
      have "summary_valid key r" "cursor_of key ''last_seq'' r = None"
        using assms(3) by (simp_all add: summary_valid_def cursor_valid_def cursor_of_def)
      with True snoc.prems cache_summary_cursor [of key r] show ?thesis by simp
    next
      case False
      with snoc obtain f where f: "summary_valid key (fold (cache_summary key) fs r)" "f \<in> set fs"
        "SeqNo f = Max (SeqNo ` set fs)" "cursor_of key ''last_seq'' (fold (cache_summary key) fs r) = Some (SeqNo f)"
        "hashes (fold (cache_summary key) fs r) key ''last_msg'' = Some (Txt (Body f))"
        by auto
      note u = cache_summary_cursor [OF f(1)]
      have mx: "Max (SeqNo ` set (fs @ [g])) = max (SeqNo g) (SeqNo f)"
        using False f(3) by simp
      show ?thesis
      proof (cases "SeqNo g < SeqNo f")
        case True
        then show ?thesis using u f(2,4,5) mx by (auto intro!: bexI [of _ f])
      next
        case False
        then show ?thesis using u f(4) mx by (auto intro!: bexI [of _ g])
      qed
    qed
  qed simp
  then show ?thesis by (auto simp: cursor_of_def split: option.splits rvalue.splits)
qed

theorem cached_summary_is_newest_witness:
  "\<exists>f\<in>set [demo_sent\<lparr>SeqNo := 2, Body := ''two''\<rparr>, demo_sent\<lparr>SeqNo := 1, Body := ''one''\<rparr>].
     SeqNo f = Max (SeqNo ` set [demo_sent\<lparr>SeqNo := 2, Body := ''two''\<rparr>, demo_sent\<lparr>SeqNo := 1, Body := ''one''\<rparr>])
     \<and> hashes (fold (cache_summary ''k'') [demo_sent\<lparr>SeqNo := 2, Body := ''two''\<rparr>, demo_sent\<lparr>SeqNo := 1, Body := ''one''\<rparr>] empty_redis)
         ''k'' ''last_seq'' = Some (Num (SeqNo f))
     \<and> hashes (fold (cache_summary ''k'') [demo_sent\<lparr>SeqNo := 2, Body := ''two''\<rparr>, demo_sent\<lparr>SeqNo := 1, Body := ''one''\<rparr>] empty_redis)
         ''k'' ''last_msg'' = Some (Txt (Body f))"
  by (rule cached_summary_is_newest) (simp_all add: empty_redis_def)

text \<open>A done conversation event has its summary persisted: when the outbox worker reports an event done, the conversation
  row exists in MySQL with a last sequence number that is not behind the event's, whatever calls failed.\<close>

theorem done_event_has_summary:
  assumes "relies env (summary_stored (frame_of_event ev))"
  shows "wp (process_conv_event env ev) (\<lambda>r s. r = Inr True \<longrightarrow> summary_stored (frame_of_event ev) s) w"
  using assms by (rule process_conv_event_done)

definition demo_conv_event :: conv_outbox_row where
  "demo_conv_event = \<lparr>co_id = 1, co_message_id = ''m'', co_session_id = ''c2c:al:bo'', co_from = ''al'', co_to = ''bo'', co_to_type = ''user'',
     co_seq = 4, co_sent_at = 3, co_status = Pending, co_attempts = 0, co_available_at = 0, co_last_error = [], co_processed_at = None\<rparr>"

theorem done_event_has_summary_witness:
  "\<exists>n s. run_state (process_conv_event (calm 5) demo_conv_event) (0, demo_world\<lparr>conv_outbox := [demo_conv_event]\<rparr>) = (Inr True, n, s)
     \<and> summary_stored (frame_of_event demo_conv_event) s"
proof -
  have "fst (run_state (process_conv_event (calm 5) demo_conv_event) (0, demo_world\<lparr>conv_outbox := [demo_conv_event]\<rparr>)) = Inr True"
    by (simp add: exec_defs run_calls upd_def affected_def demo_conv_event_def cong: lazy_cong)
  moreover have "wp (process_conv_event (calm 5) demo_conv_event)
      (\<lambda>r s. r = Inr True \<longrightarrow> summary_stored (frame_of_event demo_conv_event) s) (demo_world\<lparr>conv_outbox := [demo_conv_event]\<rparr>)"
    by (rule done_event_has_summary) simp
  ultimately show ?thesis by (auto dest: wp_run)
qed

end
