(* ===== verification/Delivery_Outbox.thy ===== *)
theory Delivery_Outbox
  imports Conversation
begin

text \<open>
  The delivery outbox: internal/logic/delivery_outbox.go, and the dispatch to the recipients of
  internal/logic/handler.go it performs.  A worker claims a due event by advancing its attempt counter,
  delivers, and settles the event only while the counter still shows its own claim.  The locale
  \<open>fenced_lease\<close> states that protocol; the lemmas show that a stale worker settles nothing, that a done event
  was delivered, and that a pending event has attempts left.
\<close>

section \<open>Dispatch\<close>

definition publishGroupDispatch :: "('b im_scheme) env \<Rightarrow> wire \<Rightarrow> string list \<Rightarrow> ('b im_scheme, gerr + unit) io" where
  "publishGroupDispatch env frame recipients =
     update_w env (\<lambda>s. s\<lparr>dispatched := dispatched s @ [(frame, recipients)]\<rparr>)"

definition resolveRecipients :: "cfg \<Rightarrow> ('b im_scheme) env \<Rightarrow> wire \<Rightarrow> ('b im_scheme, gerr + string list) io" where
  "resolveRecipients h env frame =
     (if ToType frame = ''user'' then ok [To frame]
      else if \<not> has_db h then err (Msg ''group membership store is unavailable'')
      else loadGroupRecipientsFromDB env (To frame) (From frame))"

definition dispatchToRecipients :: "cfg \<Rightarrow> ('b im_scheme) env \<Rightarrow> wire \<Rightarrow> string list \<Rightarrow> string \<Rightarrow> ('b im_scheme, gerr + unit) io" where
  "dispatchToRecipients h env frame recipients payload =
     each (\<lambda>recipient. Deliver h env recipient (MessageId frame) payload (SentAt frame)) recipients"

definition deliverMessageToRecipients :: "cfg \<Rightarrow> ('b im_scheme) env \<Rightarrow> wire \<Rightarrow> string list \<Rightarrow> ('b im_scheme, gerr + unit) io" where
  "deliverMessageToRecipients h env frame recipients =
     (case marshal h frame of
        Inl e \<Rightarrow> err e
      | Inr payload \<Rightarrow>
          then_ok (if ToType frame = ''group'' \<and> has_dispatcher h then publishGroupDispatch env frame recipients
                   else dispatchToRecipients h env frame recipients payload) (\<lambda>_.
            ignore (RememberSessionMessage (has_rdb h) env frame payload)
              (ignore (updateConversationState h env frame recipients) (ok ()))))"

definition deliverPersistedMessage :: "cfg \<Rightarrow> ('b im_scheme) env \<Rightarrow> wire \<Rightarrow> ('b im_scheme, gerr + unit) io" where
  "deliverPersistedMessage h env frame =
     then_ok (resolveRecipients h env frame) (\<lambda>recipients. deliverMessageToRecipients h env frame recipients)"

section \<open>Claiming, delivering, settling\<close>

record delivery_event =
  ev_ID :: int
  ev_Attempts :: int
  ev_Recipients :: "string list"
  ev_Frame :: wire
  ev_DecodeErr :: "gerr option"

definition deliveryOutboxLease :: int where "deliveryOutboxLease = 30000"
definition maxDeliveryOutboxAttempts :: int where "maxDeliveryOutboxAttempts = 10"

definition deliveryOutboxRetryDelay :: "int \<Rightarrow> int" where
  "deliveryOutboxRetryDelay attempt =
     (let a = (if attempt < 1 then 1 else attempt); a = (if a > 5 then 5 else a) in 2 ^ nat (a - 1) * 1000)"

definition do_due :: "int \<Rightarrow> deliv_row \<Rightarrow> bool" where
  "do_due now r \<longleftrightarrow> (do_status r = Pending \<or> do_status r = Processing) \<and> do_available_at r \<le> now"

definition set_deliv :: "(deliv_row list \<Rightarrow> deliv_row list) \<Rightarrow> 'b im_scheme \<Rightarrow> 'b im_scheme" where
  "set_deliv f s = s\<lparr>deliv_outbox := f (deliv_outbox s)\<rparr>"

definition event_of_join :: "deliv_row \<times> msg_row \<Rightarrow> delivery_event" where
  "event_of_join dm = (case dm of (d, m) \<Rightarrow>
     \<lparr>ev_ID = do_id d, ev_Attempts = do_attempts d,
      ev_Recipients = (case do_recipients d of Some rs \<Rightarrow> rs | None \<Rightarrow> []),
      ev_Frame = (frame_of_row m)\<lparr>TraceId := do_trace_id d\<rparr>,
      ev_DecodeErr = (case do_recipients d of Some _ \<Rightarrow> None | None \<Rightarrow> Some (Msg ''invalid recipients''))\<rparr>)"

definition loadDeliveryOutboxEvents :: "('b im_scheme) env \<Rightarrow> (deliv_row \<Rightarrow> bool) \<Rightarrow> int \<Rightarrow> ('b im_scheme, gerr + delivery_event list) io" where
  "loadDeliveryOutboxEvents env condition limit =
     then_ok (query env (\<lambda>s. take (nat limit) (concat (map (\<lambda>d. map (\<lambda>m. (d, m))
         (filter (\<lambda>m. ms_message_id m = do_message_id d) (msgs s)))
         (order_asc do_id (filter condition (deliv_outbox s)))))))
       (\<lambda>rows. if list_ex (\<lambda>(d, m). ms_client_msg_id m = None) rows
               then err (Msg ''converting NULL to string is unsupported'')
               else ok (map event_of_join rows))"

definition claim_deliv :: "int \<Rightarrow> deliv_row \<Rightarrow> deliv_row" where
  "claim_deliv now r = r\<lparr>do_status := Processing, do_attempts := do_attempts r + 1,
     do_available_at := now + deliveryOutboxLease, do_updated_at := now\<rparr>"

definition owned_deliv :: "int \<Rightarrow> deliv_row \<Rightarrow> bool" where
  "owned_deliv generation r \<longleftrightarrow> do_status r = Processing \<and> do_attempts r = generation"

definition reschedule_deliv :: "ob_status \<Rightarrow> int \<Rightarrow> string \<Rightarrow> int \<Rightarrow> deliv_row \<Rightarrow> deliv_row" where
  "reschedule_deliv status at e now r = r\<lparr>do_status := status, do_available_at := at, do_last_error := e, do_updated_at := now\<rparr>"

definition finish_deliv :: "int \<Rightarrow> int \<Rightarrow> deliv_row \<Rightarrow> deliv_row" where
  "finish_deliv t1 t2 r = r\<lparr>do_status := Finished, do_processed_at := Some t1, do_updated_at := t2, do_last_error := []\<rparr>"

definition processDeliveryOutboxEvent :: "cfg \<Rightarrow> ('b im_scheme) env \<Rightarrow> delivery_event \<Rightarrow> ('b im_scheme, gerr + bool) io" where
  "processDeliveryOutboxEvent h env event =
     State_Monad.bind (clock env) (\<lambda>now.
     then_ok (exec env (run_update deliv_outbox set_deliv (\<lambda>r. do_id r = ev_ID event \<and> do_due now r) (claim_deliv now)))
       (\<lambda>claimed. if claimed = 0 then ok False
        else let claimGeneration = ev_Attempts event + 1 in
          State_Monad.bind (case ev_DecodeErr event of
              Some e \<Rightarrow> err e
            | None \<Rightarrow> deliverMessageToRecipients h env (ev_Frame event) (ev_Recipients event)) (\<lambda>res. case res of
            Inl deliveryErr \<Rightarrow>
              State_Monad.bind (clock env) (\<lambda>t1. State_Monad.bind (clock env) (\<lambda>t2.
              let dead = maxDeliveryOutboxAttempts \<le> ev_Attempts event + 1;
                  status = (if dead then Dead else Pending);
                  availableAt = (if dead then t1 else t1 + deliveryOutboxRetryDelay (ev_Attempts event + 1));
                  lastError = take 512 (err_text deliveryErr) in
              then_ok (exec env (run_update deliv_outbox set_deliv
                  (\<lambda>r. do_id r = ev_ID event \<and> owned_deliv claimGeneration r)
                  (reschedule_deliv status availableAt lastError t2)))
                (\<lambda>updated. if updated = 0 then err (Msg ''delivery outbox lease was lost before retry update'') else ok False)))
          | Inr _ \<Rightarrow>
              State_Monad.bind (clock env) (\<lambda>t1. State_Monad.bind (clock env) (\<lambda>t2.
              then_ok (exec env (run_update deliv_outbox set_deliv
                  (\<lambda>r. do_id r = ev_ID event \<and> owned_deliv claimGeneration r) (finish_deliv t1 t2)))
                (\<lambda>updated. if updated = 0 then err (Msg ''delivery outbox lease was lost before completion'') else ok True))))))"

definition ProcessDeliveryOutboxMessage :: "cfg \<Rightarrow> ('b im_scheme) env \<Rightarrow> string \<Rightarrow> ('b im_scheme, gerr + bool) io" where
  "ProcessDeliveryOutboxMessage h env messageID =
     (if \<not> has_db h \<or> messageID = [] then ok False
      else State_Monad.bind (clock env) (\<lambda>now.
        then_ok (loadDeliveryOutboxEvents env (\<lambda>d. do_message_id d = messageID \<and> do_due now d) 1) (\<lambda>events.
          case events of [] \<Rightarrow> ok False | ev # _ \<Rightarrow> processDeliveryOutboxEvent h env ev)))"

fun process_deliveries :: "cfg \<Rightarrow> ('b im_scheme) env \<Rightarrow> delivery_event list \<Rightarrow> int \<Rightarrow> ('b im_scheme, int \<times> (gerr + unit)) io" where
  "process_deliveries h env [] processed = State_Monad.return (processed, Inr ())"
| "process_deliveries h env (ev # evs) processed =
     State_Monad.bind (processDeliveryOutboxEvent h env ev) (\<lambda>res. case res of
        Inl e \<Rightarrow> State_Monad.return (processed, Inl e)
      | Inr okay \<Rightarrow> process_deliveries h env evs (if okay then processed + 1 else processed))"

definition ProcessDeliveryOutbox :: "cfg \<Rightarrow> ('b im_scheme) env \<Rightarrow> int \<Rightarrow> ('b im_scheme, int \<times> (gerr + unit)) io" where
  "ProcessDeliveryOutbox h env limit0 =
     (if \<not> has_db h then State_Monad.return (0, Inr ())
      else let limit = (if limit0 \<le> 0 \<or> limit0 > 200 then 100 else limit0) in
        State_Monad.bind (clock env) (\<lambda>now.
        State_Monad.bind (loadDeliveryOutboxEvents env (do_due now) limit) (\<lambda>res. case res of
           Inl e \<Rightarrow> State_Monad.return (0, Inl e) | Inr events \<Rightarrow> process_deliveries h env events 0)))"

section \<open>Fenced leases\<close>

text \<open>
  A lease with a generation: a claim takes the lease and advances the generation, and a settlement carries
  the generation of its claim and takes effect only while that claim is the latest and unsettled.
\<close>

datatype 'o lease_op = OpLease int | OpSettle int 'o

locale fenced_lease =
  fixes held :: "'s \<Rightarrow> bool"
    and generation :: "'s \<Rightarrow> int"
    and claim :: "int \<Rightarrow> 's \<Rightarrow> 's"
    and due :: "int \<Rightarrow> 's \<Rightarrow> bool"
    and settle :: "int \<Rightarrow> 'o \<Rightarrow> 's \<Rightarrow> 's"
  assumes claim_due: "due t s \<Longrightarrow> held (claim t s) \<and> generation (claim t s) = generation s + 1"
    and claim_not_due: "\<not> due t s \<Longrightarrow> claim t s = s"
    and settle_stale: "\<not> (held s \<and> generation s = g) \<Longrightarrow> settle g x s = s"
    and settle_own: "held s \<Longrightarrow> generation s = g \<Longrightarrow> \<not> held (settle g x s) \<and> generation (settle g x s) = g"
begin

fun lease_step :: "'o lease_op \<Rightarrow> 's \<Rightarrow> 's" where
  "lease_step (OpLease t) s = claim t s"
| "lease_step (OpSettle g x) s = settle g x s"

lemma generation_step: "generation s \<le> generation (lease_step op s)"
proof (cases op)
  case (OpLease t)
  then show ?thesis by (cases "due t s") (auto simp: claim_due claim_not_due)
next
  case (OpSettle g x)
  then show ?thesis by (cases "held s \<and> generation s = g") (auto simp: settle_own settle_stale)
qed

lemma generation_mono: "generation s \<le> generation (fold lease_step ops s)"
  by (induction ops arbitrary: s) (auto intro: order_trans [OF generation_step])

text \<open>Once a later claim was granted, the earlier worker's settlement changes nothing, ever.\<close>

lemma superseded_settle:
  assumes "generation s = g" "due t s"
  shows "settle g x (fold lease_step ops (claim t s)) = fold lease_step ops (claim t s)"
proof -
  have "g + 1 \<le> generation (fold lease_step ops (claim t s))"
    using generation_mono [of "claim t s" ops] claim_due [OF assms(2)] assms(1) by simp
  then show ?thesis by (intro settle_stale) auto
qed

text \<open>A claim is settled at most once.\<close>

lemma settled_once:
  assumes "held s" "generation s = g"
  shows "settle g y (settle g x s) = settle g x s"
  using settle_own [OF assms, of x] by (intro settle_stale) auto

end

text \<open>The row of an event is such a lease; the two outcomes are the code's two closing \<open>UPDATE\<close>s.\<close>

datatype deliv_outcome = Done int int | Failed bool int string int

definition claim_if_due :: "int \<Rightarrow> deliv_row \<Rightarrow> deliv_row" where
  "claim_if_due now r = (if do_due now r then claim_deliv now r else r)"

definition settle_deliv :: "int \<Rightarrow> deliv_outcome \<Rightarrow> deliv_row \<Rightarrow> deliv_row" where
  "settle_deliv g outcome r = (if owned_deliv g r then (case outcome of
       Done t1 t2 \<Rightarrow> finish_deliv t1 t2 r
     | Failed dead at e now \<Rightarrow> reschedule_deliv (if dead then Dead else Pending) at e now r) else r)"

interpretation deliv_lease: fenced_lease "\<lambda>r. do_status r = Processing" do_attempts claim_if_due do_due settle_deliv
  by unfold_locales
     (auto simp: claim_if_due_def claim_deliv_def settle_deliv_def owned_deliv_def finish_deliv_def reschedule_deliv_def
       split: deliv_outcome.splits)

text \<open>The statements of the worker are these row operations on the event's row.\<close>

definition on_deliv :: "int \<Rightarrow> (deliv_row \<Rightarrow> deliv_row) \<Rightarrow> deliv_row list \<Rightarrow> deliv_row list" where
  "on_deliv i f rows = map (\<lambda>r. if do_id r = i then f r else r) rows"

lemma claim_statement:
  "upd (\<lambda>r. do_id r = i \<and> do_due now r) (claim_deliv now) rows = on_deliv i (claim_if_due now) rows"
  by (auto simp: upd_def on_deliv_def claim_if_due_def)

lemma finish_statement:
  "upd (\<lambda>r. do_id r = i \<and> owned_deliv g r) (finish_deliv t1 t2) rows = on_deliv i (settle_deliv g (Done t1 t2)) rows"
  by (auto simp: upd_def on_deliv_def settle_deliv_def)

lemma retry_statement:
  "upd (\<lambda>r. do_id r = i \<and> owned_deliv g r) (reschedule_deliv (if dead then Dead else Pending) at e now) rows
   = on_deliv i (settle_deliv g (Failed dead at e now)) rows"
  by (auto simp: upd_def on_deliv_def settle_deliv_def)

lemma on_deliv_comp: "(\<And>r. do_id (f r) = do_id r) \<Longrightarrow> on_deliv i g (on_deliv i f rows) = on_deliv i (\<lambda>r. g (f r)) rows"
  by (auto simp: on_deliv_def)

lemma do_id_lease_step: "do_id (deliv_lease.lease_step op r) = do_id r"
  by (cases op) (auto simp: claim_if_due_def claim_deliv_def settle_deliv_def finish_deliv_def reschedule_deliv_def
      split: deliv_outcome.splits)

lemma do_id_fold: "do_id (fold deliv_lease.lease_step ops r) = do_id r"
  by (induction ops arbitrary: r) (auto simp: do_id_lease_step)

section \<open>A done event was delivered\<close>

lemma dispatch_pending:
  assumes "relies env (index_free_for v (MessageId f) (base64_encode p))"
    and "relies env (pending_with v (MessageId f) (base64_encode p))"
    and "index_free_for v (MessageId f) (base64_encode p) w" and "v \<in> set rs"
  shows "wp (dispatchToRecipients h env f rs p) (\<lambda>r s. r = Inr () \<longrightarrow> pending_with v (MessageId f) (base64_encode p) s) w"
  unfolding dispatchToRecipients_def
proof (rule wp_each_establish [where x = v and I = "index_free_for v (MessageId f) (base64_encode p)"], goal_cases)
  case (1 y)
  have "reads pview (index_free_for v (MessageId f) (base64_encode p))"
    unfolding index_free_for_def by (rule reads_index)
  with assms show ?case by (intro Deliver_keeps keeps_index_track)
next
  case (2 y)
  then show ?case using assms by (intro Deliver_keeps keeps_pending_track reads_pending_with)
next
  case (3 w)
  then show ?case using assms by (intro Deliver_pending)
qed (use assms in auto)

lemma deliver_pending:
  assumes "relies env (index_free_for v (MessageId f) (base64_encode p))"
    and "relies env (pending_with v (MessageId f) (base64_encode p))"
    and "index_free_for v (MessageId f) (base64_encode p) w" and "v \<in> set rs"
    and "marshal h f = Inr p" and "ToType f \<noteq> ''group'' \<or> \<not> has_dispatcher h"
  shows "wp (deliverMessageToRecipients h env f rs) (\<lambda>r s. r = Inr () \<longrightarrow> pending_with v (MessageId f) (base64_encode p) s) w"
proof -
  let ?P = "pending_with v (MessageId f) (base64_encode p)"
  have k: "keeps ?P (ignore (RememberSessionMessage (has_rdb h) env f p) (ignore (updateConversationState h env f rs) (ok ())))"
    by (intro keeps_ignore pview_rules assms(2) reads_pending_with keeps_ok)
  have d: "wp (if ToType f = ''group'' \<and> has_dispatcher h then publishGroupDispatch env f rs else dispatchToRecipients h env f rs p)
      (\<lambda>r s. r = Inr () \<longrightarrow> ?P s) w"
    using assms(6) dispatch_pending [OF assms(1-4)] by auto
  show ?thesis
    unfolding deliverMessageToRecipients_def assms(5) sum.case
    apply (rule wp_then_okI [OF d], simp)
    apply (rule wp_mono [OF keeps_wp [OF k]])
     apply auto
    done
qed

lemma event_done_pending:
  fixes env :: "('b im_scheme) env"
  defines "P \<equiv> \<lambda>v f p. pending_with v (MessageId f) (base64_encode p)"
  assumes rely: "relies env (index_free_for v (MessageId (ev_Frame ev)) (base64_encode p))" "relies env (P v (ev_Frame ev) p)"
    and init: "index_free_for v (MessageId (ev_Frame ev)) (base64_encode p) w" and "v \<in> set (ev_Recipients ev)"
    and "marshal h (ev_Frame ev) = Inr p" and "ToType (ev_Frame ev) \<noteq> ''group'' \<or> \<not> has_dispatcher h"
  shows "wp (processDeliveryOutboxEvent h env ev) (\<lambda>r s. r = Inr True \<longrightarrow> P v (ev_Frame ev) p s) w"
proof -
  let ?I = "index_free_for v (MessageId (ev_Frame ev)) (base64_encode p)"
  let ?P = "P v (ev_Frame ev) p"
  have upd_keeps: "keeps J (exec env (run_update deliv_outbox set_deliv q g))"
    if "relies env J" "reads pview J" for J q and g :: "deliv_row \<Rightarrow> deliv_row"
    by (rule keeps_exec_reads [OF that]) (auto simp: run_update_def set_deliv_def pview_def)
  have rI: "reads pview ?I" unfolding index_free_for_def by (rule reads_index)
  have rP: "reads pview ?P" unfolding P_def by (rule reads_pending_with)
  have claim: "wp (exec env (run_update deliv_outbox set_deliv q g)) (\<lambda>_. ?I) w" for q g
    by (rule keeps_wp [OF upd_keeps [OF rely(1) rI] init])
  have settle: "wp (exec env (run_update deliv_outbox set_deliv q g)) (\<lambda>_. ?P) s" if "?P s" for q g s
    by (rule keeps_wp [OF upd_keeps [OF rely(2) rP] that])
  have any: "wp m (\<lambda>_ _. True) s" for m :: "('b im_scheme, 'x) io" and s
    by (rule wpI) simp
  have deliver: "wp (case ev_DecodeErr ev of Some e \<Rightarrow> err e | None \<Rightarrow> deliverMessageToRecipients h env (ev_Frame ev) (ev_Recipients ev))
      (\<lambda>r s. r = Inr () \<longrightarrow> ?P s) s" if "?I s" for s
    using deliver_pending [OF rely(1) rely(2) [unfolded P_def] that assms(5-7)]
    by (cases "ev_DecodeErr ev") (auto simp: P_def wp_err)
  show ?thesis
    unfolding processDeliveryOutboxEvent_def Let_def
    apply (intro wp_bind wp_clock)
    apply (rule wp_then_okI [OF claim], simp)
    apply (rule wp_if, simp add: wp_ok)
    apply (rule wp_bindI [OF deliver], assumption)
    apply (rule wp_case_sum)
     apply (intro wp_bind wp_clock)
     apply (rule wp_then_okI [OF any], simp)
     apply (simp add: wp_ok wp_err)
    apply (intro wp_bind wp_clock)
    apply (rule wp_then_okI [OF settle])
      apply (simp_all add: wp_ok wp_err)
    done
qed

section \<open>Pending events have attempts left\<close>

definition attempts_left :: "deliv_row \<Rightarrow> bool" where
  "attempts_left r \<longleftrightarrow> 0 \<le> do_attempts r \<and> (do_status r = Pending \<longrightarrow> do_attempts r < maxDeliveryOutboxAttempts)"

definition outbox_bounded :: "'b im_scheme \<Rightarrow> bool" where
  "outbox_bounded s \<longleftrightarrow> (\<forall>r\<in>set (deliv_outbox s). attempts_left r)"

lemma outbox_bounded_reads: "reads sqlv outbox_bounded"
  by (auto simp: reads_def outbox_bounded_def sqlv_def)

lemma sqlv_deliverMessageToRecipients [sqlv_rules]:
  "relies env I \<Longrightarrow> reads sqlv I \<Longrightarrow> keeps I (deliverMessageToRecipients h env f rs)"
  unfolding deliverMessageToRecipients_def publishGroupDispatch_def dispatchToRecipients_def
  by (intro keeps_case_sum keeps_err keeps_then_ok keeps_if keeps_each keeps_ignore keeps_ok sqlv_rules
      keeps_update_reads [where v = sqlv]) (auto simp: sqlv_def)

lemma keeps_deliv_update:
  assumes "relies env outbox_bounded" "\<And>r. attempts_left r \<Longrightarrow> p r \<Longrightarrow> attempts_left (f r)"
  shows "keeps outbox_bounded (exec env (run_update deliv_outbox set_deliv p f))"
  using assms by (intro keeps_exec) (auto simp: outbox_bounded_def run_update_def set_deliv_def upd_def)

lemma processDeliveryOutboxEvent_bounded:
  assumes "relies env outbox_bounded"
  shows "keeps outbox_bounded (processDeliveryOutboxEvent h env ev)"
  unfolding processDeliveryOutboxEvent_def Let_def
  by (intro keeps_bind keeps_clock keeps_then_ok keeps_if keeps_ok keeps_err keeps_case_sum keeps_case_option
      sqlv_rules outbox_bounded_reads assms keeps_deliv_update)
     (auto simp: attempts_left_def claim_deliv_def owned_deliv_def reschedule_deliv_def finish_deliv_def)

lemma process_deliveries_bounded:
  "relies env outbox_bounded \<Longrightarrow> keeps outbox_bounded (process_deliveries h env evs k)"
  by (induction evs arbitrary: k)
     (auto intro!: keeps_return keeps_bind keeps_case_sum processDeliveryOutboxEvent_bounded)

lemma ProcessDeliveryOutbox_bounded:
  assumes "relies env outbox_bounded"
  shows "keeps outbox_bounded (ProcessDeliveryOutbox h env limit)"
  unfolding ProcessDeliveryOutbox_def Let_def loadDeliveryOutboxEvents_def
  by (intro keeps_if keeps_return keeps_bind keeps_clock keeps_then_ok keeps_query keeps_err keeps_ok
      keeps_case_sum process_deliveries_bounded assms)

section \<open>The message core\<close>

lemma keeps_deliverMessageToRecipients [keeps_rules]:
  "relies env I \<Longrightarrow> of_core I \<Longrightarrow> keeps I (deliverMessageToRecipients h env f rs)"
  unfolding deliverMessageToRecipients_def publishGroupDispatch_def dispatchToRecipients_def
  by (intro keeps_case_sum keeps_err keeps_then_ok keeps_if keeps_each keeps_ignore keeps_ok
      keeps_Deliver keeps_RememberSessionMessage keeps_updateConversationState keeps_update_core) (auto simp: core_def)

lemma core_run_deliv:
  "(\<And>r. do_message_id (f r) = do_message_id r) \<Longrightarrow> core (snd (run_update deliv_outbox set_deliv p f s)) = core s"
  by (simp add: core_def run_update_def set_deliv_def upd_def)

lemma keeps_processDeliveryOutboxEvent [keeps_rules]:
  "relies env I \<Longrightarrow> of_core I \<Longrightarrow> keeps I (processDeliveryOutboxEvent h env ev)"
  unfolding processDeliveryOutboxEvent_def Let_def
  by (intro keeps_bind keeps_clock keeps_then_ok keeps_if keeps_ok keeps_err keeps_case_sum keeps_case_option
      keeps_deliverMessageToRecipients keeps_exec_core core_run_deliv)
     (auto simp: claim_deliv_def reschedule_deliv_def finish_deliv_def)

lemma keeps_ProcessDeliveryOutboxMessage [keeps_rules]:
  "relies env I \<Longrightarrow> of_core I \<Longrightarrow> keeps I (ProcessDeliveryOutboxMessage h env m)"
  unfolding ProcessDeliveryOutboxMessage_def loadDeliveryOutboxEvents_def
  by (intro keeps_if keeps_ok keeps_bind keeps_clock keeps_then_ok keeps_query keeps_err)
     (auto split: list.split intro!: keeps_ok keeps_processDeliveryOutboxEvent)

lemma keeps_resolveRecipients [keeps_rules]: "relies env I \<Longrightarrow> keeps I (resolveRecipients h env f)"
  unfolding resolveRecipients_def by (intro keeps_if keeps_ok keeps_err keeps_loadGroupRecipientsFromDB)

text \<open>Nobody without a name is among the recipients of a message that is addressed to somebody.\<close>

lemma resolved_recipients_are_named:
  assumes "To f \<noteq> []"
  shows "wp (resolveRecipients h env f) (\<lambda>r _. \<forall>us. r = Inr us \<longrightarrow> [] \<notin> set us) w"
  unfolding resolveRecipients_def loadGroupRecipientsFromDB_def using assms
  by (intro wp_if wp_then_ok wp_query_now wp_ok wp_err) (auto intro: wp_ok)

text \<open>What a run unfolds.\<close>

lemmas delivery_outbox_run [exec_defs] =
  publishGroupDispatch_def resolveRecipients_def dispatchToRecipients_def
  deliverMessageToRecipients_def deliverPersistedMessage_def deliveryOutboxLease_def
  maxDeliveryOutboxAttempts_def deliveryOutboxRetryDelay_def do_due_def set_deliv_def
  event_of_join_def loadDeliveryOutboxEvents_def claim_deliv_def owned_deliv_def
  reschedule_deliv_def finish_deliv_def processDeliveryOutboxEvent_def
  ProcessDeliveryOutboxMessage_def ProcessDeliveryOutbox_def

section \<open>Properties\<close>

text \<open>The workers' three statements on the event with id \<open>i\<close>, as the code issues them.\<close>

fun deliv_statement :: "int \<Rightarrow> deliv_outcome lease_op \<Rightarrow> deliv_row list \<Rightarrow> deliv_row list" where
  "deliv_statement i (OpLease now) = upd (\<lambda>r. do_id r = i \<and> do_due now r) (claim_deliv now)"
| "deliv_statement i (OpSettle g (Done t1 t2)) = upd (\<lambda>r. do_id r = i \<and> owned_deliv g r) (finish_deliv t1 t2)"
| "deliv_statement i (OpSettle g (Failed dead at e now)) =
     upd (\<lambda>r. do_id r = i \<and> owned_deliv g r) (reschedule_deliv (if dead then Dead else Pending) at e now)"

lemma deliv_statement_step: "deliv_statement i op rows = on_deliv i (deliv_lease.lease_step op) rows"
proof (cases op)
  case (OpLease t)
  then show ?thesis by (simp add: claim_statement on_deliv_def)
next
  case (OpSettle g x)
  then show ?thesis by (cases x) (simp_all add: finish_statement retry_statement on_deliv_def)
qed

lemma deliv_statements: "fold (deliv_statement i) ops rows = on_deliv i (fold deliv_lease.lease_step ops) rows"
proof (induction ops arbitrary: rows)
  case Nil
  then show ?case by (simp add: on_deliv_def)
next
  case (Cons op ops)
  then show ?case by (simp add: deliv_statement_step on_deliv_comp do_id_lease_step)
qed

text \<open>A superseded worker settles nothing: when the claim with generation \<open>g\<close> has run out and another worker has
  claimed the event, then whatever claims and settlements follow, the first worker's closing statement, success
  or failure, leaves the outbox table exactly as it is.\<close>

theorem superseded_worker_settles_nothing:
  assumes "\<forall>r\<in>set rows. do_id r = i \<longrightarrow> do_attempts r = g \<and> do_due t r"
  shows "deliv_statement i (OpSettle g x) (fold (deliv_statement i) (OpLease t # ops) rows)
       = fold (deliv_statement i) (OpLease t # ops) rows"
proof -
  have "on_deliv i (deliv_lease.lease_step (OpSettle g x)) (on_deliv i (fold deliv_lease.lease_step (OpLease t # ops)) rows)
      = on_deliv i (fold deliv_lease.lease_step (OpLease t # ops)) rows"
    using assms deliv_lease.superseded_settle [of _ g t x ops]
    by (subst on_deliv_comp) (auto simp: on_deliv_def do_id_fold do_id_lease_step claim_if_due_def claim_deliv_def)
  then show ?thesis by (simp only: deliv_statements deliv_statement_step)
qed

definition demo_event :: deliv_row where
  "demo_event = \<lparr>do_id = 1, do_message_id = ''al:bo-1'', do_trace_id = ''t'', do_recipients = Some [''bo''], do_status = Pending,
     do_attempts = 0, do_available_at = 0, do_last_error = [], do_updated_at = 0, do_processed_at = None\<rparr>"

theorem superseded_worker_settles_nothing_witness:
  "deliv_statement 1 (OpSettle 1 (Done 9 9)) (fold (deliv_statement 1) [OpLease 40000, OpSettle 2 (Failed False 41000 ''x'' 40500)]
      [demo_event\<lparr>do_status := Processing, do_attempts := 1, do_available_at := 30000\<rparr>])
   = fold (deliv_statement 1) [OpLease 40000, OpSettle 2 (Failed False 41000 ''x'' 40500)]
      [demo_event\<lparr>do_status := Processing, do_attempts := 1, do_available_at := 30000\<rparr>]"
  by (rule superseded_worker_settles_nothing) (simp add: do_due_def)

text \<open>C18. A done event was delivered: when the worker reports an event done, each of its recipients has the message in the
  pending set with the payload of this event, for messages not handed to the group dispatcher, whatever calls
  failed, as long as no other process acknowledges this message or puts another payload under its id.\<close>

theorem done_event_is_pending:
  assumes "relies env (index_free_for v (MessageId (ev_Frame ev)) (base64_encode p))"
    and "relies env (pending_with v (MessageId (ev_Frame ev)) (base64_encode p))"
    and "index_free_for v (MessageId (ev_Frame ev)) (base64_encode p) w" and "v \<in> set (ev_Recipients ev)"
    and "marshal h (ev_Frame ev) = Inr p" and "ToType (ev_Frame ev) \<noteq> ''group'' \<or> \<not> has_dispatcher h"
  shows "wp (processDeliveryOutboxEvent h env ev)
           (\<lambda>r s. r = Inr True \<longrightarrow> pending_with v (MessageId (ev_Frame ev)) (base64_encode p) s) w"
  using assms by (rule event_done_pending)

theorem done_event_is_pending_witness:
  "\<exists>n s. run_state (processDeliveryOutboxEvent demo (calm 9) \<lparr>ev_ID = 1, ev_Attempts = 0, ev_Recipients = [''bo''],
        ev_Frame = demo_sent, ev_DecodeErr = None\<rparr>) (0, demo_world\<lparr>deliv_outbox := [demo_event]\<rparr>) = (Inr True, n, s)
     \<and> pending_with ''bo'' ''al:bo-1'' (base64_encode ''p2'') s"
proof -
  let ?ev = "\<lparr>ev_ID = 1, ev_Attempts = 0, ev_Recipients = [''bo''], ev_Frame = demo_sent, ev_DecodeErr = None\<rparr>"
  let ?w = "demo_world\<lparr>deliv_outbox := [demo_event]\<rparr>"
  have "wp (processDeliveryOutboxEvent demo (calm 9) ?ev)
      (\<lambda>r s. r = Inr True \<longrightarrow> pending_with ''bo'' (MessageId (ev_Frame ?ev)) (base64_encode ''p2'') s) ?w"
    by (rule done_event_is_pending)
       (simp_all add: index_free_for_def demo_world_simps empty_redis_def exec_defs)
  moreover have "fst (run_state (processDeliveryOutboxEvent demo (calm 9) ?ev) (0, ?w)) = Inr True"
    by (simp add: exec_defs run_calls upd_def affected_def demo_event_def cong: lazy_cong)
  ultimately show ?thesis by (auto dest: wp_run simp: demo_sent_def)
qed

text \<open>A pending event always has attempts left: the outbox worker keeps, on every path, the invariant that a row
  waiting for another attempt has used fewer than the maximum of ten.\<close>

theorem pending_events_have_attempts:
  assumes "relies env outbox_bounded" "outbox_bounded w"
  shows "wp (ProcessDeliveryOutbox h env limit) (\<lambda>_. outbox_bounded) w"
  by (rule keeps_wp [OF ProcessDeliveryOutbox_bounded [OF assms(1)] assms(2)])

theorem pending_events_have_attempts_witness:
  "wp (ProcessDeliveryOutbox demo (fails_from 1 9) 0) (\<lambda>_. outbox_bounded) (demo_world\<lparr>deliv_outbox := [demo_event\<lparr>do_attempts := 9\<rparr>]\<rparr>)"
  by (rule pending_events_have_attempts)
     (simp_all add: outbox_bounded_def attempts_left_def demo_event_def maxDeliveryOutboxAttempts_def)

text \<open>Another worker claims the event, fails and reschedules it, in one go.\<close>

definition other_worker :: "'b im_scheme \<Rightarrow> 'b im_scheme" where
  "other_worker = set_deliv (\<lambda>rows. deliv_statement 1 (OpSettle 1 (Failed False 8 ''timeout'' 8)) (deliv_statement 1 (OpLease 8) rows))"

text \<open>The generation comes from the snapshot, not from the claim: when another worker claims and reschedules the event between this
  worker's \<open>SELECT\<close> and its claim, this worker's claim succeeds, it delivers, and it is then told that its lease was
  lost although it holds the latest claim; the event stays \<open>processing\<close> until the lease runs out and is delivered again.\<close>

theorem stale_snapshot_loses_own_lease:
  "case run_state (processDeliveryOutboxEvent demo ((calm 9)\<lparr>interfere := \<lambda>n. if n = 1 then other_worker else id\<rparr>)
        \<lparr>ev_ID = 1, ev_Attempts = 0, ev_Recipients = [''bo''], ev_Frame = demo_sent, ev_DecodeErr = None\<rparr>)
      (0, demo_world\<lparr>deliv_outbox := [demo_event]\<rparr>) of (r, n, s) \<Rightarrow>
     r = Inl (Msg ''delivery outbox lease was lost before completion'')
     \<and> map do_status (deliv_outbox s) = [Processing] \<and> map do_attempts (deliv_outbox s) = [2]
     \<and> is_waiting ''bo'' (rds s) ''al:bo-1''"
  by (simp add: exec_defs run_calls upd_def affected_def demo_event_def other_worker_def calm_def is_waiting_def cong: lazy_cong)

end
