(* ===== verification/Push_Message.thy ===== *)
theory Push_Message
  imports Delivery_Outbox
begin

text \<open>
  \<open>LogicHandler.PushMessage\<close> of internal/logic/handler.go: the whole path of a client message from the decoded
  frame to its acceptance.  The main lemma shows that in the production configuration an accepted message is
  durable, whatever calls fail and whatever other processes do in between.  The bot's answer, which a
  goroutine sends afterwards as a message of its own, is not part of the handler.
\<close>

definition fail_release :: "cfg \<Rightarrow> ('b im_scheme) env \<Rightarrow> wire \<Rightarrow> gerr \<Rightarrow> ('b im_scheme, gerr + unit) io" where
  "fail_release h env frame e = ignore (releaseClientMessage h env frame) (err e)"

definition accept_commit :: "cfg \<Rightarrow> ('b im_scheme) env \<Rightarrow> wire \<Rightarrow> ('b im_scheme, gerr + unit) io" where
  "accept_commit h env frame = ignore (commitClientMessage h env frame) (ok ())"

text \<open>The message is already in the table: deliver it again and commit its record.\<close>

definition push_existing :: "cfg \<Rightarrow> ('b im_scheme) env \<Rightarrow> wire \<Rightarrow> wire \<Rightarrow> ('b im_scheme, gerr + unit) io" where
  "push_existing h env frame existing0 =
    (let existing = (if TraceId existing0 = [] then existing0\<lparr>TraceId := TraceId frame\<rparr> else existing0) in
     State_Monad.bind (validateSendPermission h env existing) (\<lambda>perm. case perm of
       Inl e \<Rightarrow> fail_release h env existing e
     | Inr _ \<Rightarrow>
         if DeliveryOutbox h then
           ignore (ProcessDeliveryOutboxMessage h env (MessageId existing)) (accept_commit h env existing)
         else State_Monad.bind (deliverPersistedMessage h env existing) (\<lambda>res. case res of
             Inl e \<Rightarrow> fail_release h env existing e
           | Inr _ \<Rightarrow> accept_commit h env existing)))"

text \<open>Persisting and dispatching a message whose identity is settled.\<close>

definition push_persist :: "cfg \<Rightarrow> ('b im_scheme) env \<Rightarrow> wire \<Rightarrow> string list \<Rightarrow> ('b im_scheme, gerr + unit) io" where
  "push_persist h env frame recipients =
     State_Monad.bind (saveMessageWithRecipients h env frame recipients) (\<lambda>saved. case saved of
       Inl e \<Rightarrow> fail_release h env frame e
     | Inr (persisted, frame) \<Rightarrow>
         State_Monad.bind (if \<not> persisted then validateSendPermission h env frame else ok ()) (\<lambda>perm. case perm of
           Inl e \<Rightarrow> fail_release h env frame e
         | Inr _ \<Rightarrow>
             if DeliveryOutbox h then
               ignore (ProcessDeliveryOutboxMessage h env (MessageId frame)) (accept_commit h env frame)
             else State_Monad.bind (deliverMessageToRecipients h env frame recipients) (\<lambda>res. case res of
                 Inl e \<Rightarrow> fail_release h env frame e
               | Inr _ \<Rightarrow> accept_commit h env frame)))"

definition push_number :: "cfg \<Rightarrow> ('b im_scheme) env \<Rightarrow> wire \<Rightarrow> ('b im_scheme, gerr + wire) io" where
  "push_number h env frame =
     (if SeqNo frame \<le> 0
      then then_ok (nextSequence h env (SessionId frame)) (\<lambda>seq. ok (frame\<lparr>SeqNo := seq\<rparr>))
      else ok frame)"

definition push_fresh :: "cfg \<Rightarrow> ('b im_scheme) env \<Rightarrow> wire \<Rightarrow> ('b im_scheme, gerr + unit) io" where
  "push_fresh h env frame0 =
    (let frame1 = (if SessionId frame0 = []
                   then frame0\<lparr>SessionId := buildSessionID (From frame0) (To frame0) (ToType frame0)\<rparr> else frame0) in
     State_Monad.bind (validateSendPermission h env frame1) (\<lambda>perm. case perm of
       Inl e \<Rightarrow> fail_release h env frame1 e
     | Inr _ \<Rightarrow>
       State_Monad.bind (if has_db h then CanonicalizeMessage h env (From frame1) (To frame1) (Body frame1) else ok (Body frame1))
         (\<lambda>canonical. case canonical of
           Inl e \<Rightarrow> fail_release h env frame1 e
         | Inr body \<Rightarrow>
           State_Monad.bind (push_number h env (frame1\<lparr>Body := body\<rparr>)) (\<lambda>numbered. case numbered of
             Inl e \<Rightarrow> fail_release h env (frame1\<lparr>Body := body\<rparr>) e
           | Inr frame2 \<Rightarrow>
             State_Monad.bind (clock env) (\<lambda>now.
               let frame3 = frame2\<lparr>SentAt := now\<rparr>;
                   frame = (if MessageId frame3 = [] then frame3\<lparr>MessageId := SessionId frame3 @ ''-'' @ itoa (SeqNo frame3)\<rparr>
                            else frame3) in
               ignore (commitClientMessageReservation h env frame)
                 (State_Monad.bind (resolveRecipients h env frame) (\<lambda>resolved. case resolved of
                    Inl e \<Rightarrow> fail_release h env frame e
                  | Inr recipients \<Rightarrow> push_persist h env frame recipients)))))))"

definition push_reserved :: "cfg \<Rightarrow> ('b im_scheme) env \<Rightarrow> wire \<Rightarrow> ('b im_scheme, gerr + unit) io" where
  "push_reserved h env frame =
     State_Monad.bind (loadMessageByClientMsgID h env (From frame) (ClientMsgId frame)) (\<lambda>loaded. case loaded of
       Inl e \<Rightarrow> fail_release h env frame e
     | Inr (Some existing) \<Rightarrow> push_existing h env frame existing
     | Inr None \<Rightarrow> push_fresh h env frame)"

definition PushMessage :: "cfg \<Rightarrow> ('b im_scheme) env \<Rightarrow> string \<Rightarrow> string \<Rightarrow> ('b im_scheme, gerr + unit) io" where
  "PushMessage h env userId content =
     (case unmarshal h content of
        Inl e \<Rightarrow> err (Wrapped e ''invalid protobuf payload'')
      | Inr frame0 \<Rightarrow>
        if MsgType frame0 = HEARTBEAT \<or> MsgType frame0 = ACK then ok ()
        else (case normalizeFrame userId frame0 of
          Inl e \<Rightarrow> err e
        | Inr frame1 \<Rightarrow>
          State_Monad.bind (if TraceId frame1 = [] then draw (fresh_id h) else State_Monad.return (TraceId frame1)) (\<lambda>trace.
            let frame2 = frame1\<lparr>TraceId := trace\<rparr>;
                frame = (if ClientMsgId frame2 = [] then frame2\<lparr>ClientMsgId := MessageId frame2\<rparr> else frame2) in
            if ClientMsgId frame = [] then err (Msg ''client_msg_id is required'')
            else then_ok (reserveClientMessage h env frame) (\<lambda>(duplicate, frame).
              if duplicate then ok () else push_reserved h env frame))))"

section \<open>The idempotency keys\<close>

text \<open>Writing a client-message key keeps the invariant when a finished value is backed by a durable message.\<close>

lemma accept_inv_set_key:
  assumes "accept_inv s" "CHR '':'' \<notin> set u" "finished_value v \<Longrightarrow> durable u c s"
  shows "accept_inv (on_rds (r_set (clientMessageKey u c) v) s)"
proof -
  have d: "durable u' c' (on_rds f s) = durable u' c' s" for u' c' f
    by (simp add: durable_def has_event_def)
  have k: "clientMessageKey u' c' = clientMessageKey u c \<Longrightarrow> CHR '':'' \<notin> set u' \<Longrightarrow> u' = u \<and> c' = c" for u' c'
    using assms(2) clientMessageKey_inject [of u' u c' c] by auto
  show ?thesis
    using assms unfolding accept_inv_def committed_sound_def outbox_complete_def
    by (auto simp: d redis_simps has_event_def dest: k split: if_splits)
qed

lemma accept_inv_del_key: "accept_inv s \<Longrightarrow> accept_inv (on_rds (r_del k) s)"
  unfolding accept_inv_def committed_sound_def outbox_complete_def durable_def has_event_def
  by (auto simp: redis_simps split: if_splits)

lemma committed_soundD:
  "accept_inv s \<Longrightarrow> CHR '':'' \<notin> set u \<Longrightarrow> strs (rds s) (clientMessageKey u c) = Some v \<Longrightarrow> finished_value v \<Longrightarrow> durable u c s"
  unfolding accept_inv_def committed_sound_def by blast

lemma keeps_reserve:
  assumes "relies env accept_inv" "CHR '':'' \<notin> set (From f)"
  shows "keeps accept_inv (reserveClientMessage h env f)"
proof -
  have nx: "accept_inv (s\<lparr>rds := d\<rparr>)"
    if "accept_inv s" "r_setnx (clientMessageKey (From f) (ClientMsgId f)) clientMessagePending (rds s) = (b, d)" for s b d
    using that accept_inv_set_key [OF that(1) assms(2), of clientMessagePending "ClientMsgId f"]
    by (auto simp: r_setnx_def on_rds_def split: if_splits)
  show ?thesis
    unfolding reserveClientMessage_def Let_def
    apply (intro keeps_if keeps_ok keeps_err keeps_then_ok keeps_query assms(1) keeps_case_option)
     apply (rule keeps_exec [OF assms(1)])
     apply (auto split: prod.splits rvalue.splits intro!: nx keeps_if keeps_ok keeps_err)
    done
qed

lemma keeps_release [keeps_rules]: "relies env accept_inv \<Longrightarrow> keeps accept_inv (releaseClientMessage h env f)"
  unfolding releaseClientMessage_def Let_def
  by (intro keeps_if keeps_return keeps_bind keeps_query keeps_case_sum keeps_case_option keeps_ignore keeps_update)
     (auto intro: accept_inv_del_key)

lemma keeps_reservation:
  assumes "relies env accept_inv" "CHR '':'' \<notin> set (From f)"
  shows "keeps accept_inv (commitClientMessageReservation h env f)"
proof -
  have "accept_inv (on_rds (r_setxx (clientMessageKey (From f) (ClientMsgId f)) (Rec (message_record ''pending'' f))) s)"
    if "accept_inv s" "0 < SeqNo f" for s
    using accept_inv_set_key [OF that(1) assms(2), of "Rec (message_record ''pending'' f)" "ClientMsgId f"] that
    by (simp add: r_setxx_def on_rds_def)
  then show ?thesis
    unfolding commitClientMessageReservation_def
    by (intro keeps_if keeps_return keeps_ignore keeps_update assms(1)) auto
qed

section \<open>Accepted means durable\<close>

text \<open>A path of the handler: it keeps the invariant, and an accepting path leaves the message durable.\<close>

definition accepts :: "string \<Rightarrow> string \<Rightarrow> (gerr + unit) \<Rightarrow> 'b im_scheme \<Rightarrow> bool" where
  "accepts u c r s \<longleftrightarrow> accept_inv s \<and> (r = Inr () \<longrightarrow> durable u c s)"

text \<open>What the handler relies on: the configuration, and that other processes keep these conditions too.\<close>

definition accept_env :: "cfg \<Rightarrow> ('b im_scheme) env \<Rightarrow> string \<Rightarrow> string \<Rightarrow> bool" where
  "accept_env h env u c \<longleftrightarrow> production h \<and> relies env accept_inv \<and> relies env (durable u c) \<and> CHR '':'' \<notin> set u"

lemma accept_envD:
  assumes "accept_env h env u c"
  shows "production h" "relies env accept_inv" "relies env (durable u c)" "CHR '':'' \<notin> set u"
    "DeliveryOutbox h" "has_db h" "relies env (\<lambda>s. accept_inv s \<and> durable u c s)"
  using assms by (auto simp: accept_env_def production_def relies_def)

lemma fail_release_accepts: "accept_env h env u c \<Longrightarrow> accept_inv w \<Longrightarrow> wp (fail_release h env f e) (accepts u c) w"
  unfolding fail_release_def
  by (rule wp_ignoreI [OF keeps_wp [OF keeps_release [OF accept_envD(2)]]]) (simp_all add: wp_err accepts_def)

lemma accept_commit_accepts:
  assumes A: "accept_env h env u c" and w: "accept_inv w" "durable u c w" and f: "From f = u" "ClientMsgId f = c"
  shows "wp (accept_commit h env f) (accepts u c) w"
proof -
  have k: "keeps (\<lambda>s. accept_inv s \<and> durable u c s) (commitClientMessage h env f)"
    unfolding commitClientMessage_def
    apply (intro keeps_if keeps_return keeps_ignore keeps_update accept_envD(7) [OF A])
    using accept_inv_set_key [of _ u "Rec (message_record ''committed'' f)" c] f accept_envD(4) [OF A]
    by (auto simp: durable_def has_event_def)
  have "wp (commitClientMessage h env f) (\<lambda>_ s. accept_inv s \<and> durable u c s) w"
    by (rule keeps_wp [OF k]) (use w in simp)
  then show ?thesis
    unfolding accept_commit_def by (rule wp_ignoreI) (simp add: wp_ok accepts_def)
qed

lemma both_core: "of_core (\<lambda>s. accept_inv s \<and> durable u c s)"
  by (intro of_core_conj of_core_accept_inv of_core_durable)

lemma process_then_commit:
  assumes A: "accept_env h env u c" and w: "accept_inv w" "durable u c w" and f: "From f = u" "ClientMsgId f = c"
  shows "wp (ignore (ProcessDeliveryOutboxMessage h env m) (accept_commit h env f)) (accepts u c) w"
proof (rule wp_ignoreI)
  show "wp (ProcessDeliveryOutboxMessage h env m) (\<lambda>_ s. accept_inv s \<and> durable u c s) w"
    using w by (intro keeps_wp [OF keeps_ProcessDeliveryOutboxMessage [OF accept_envD(7) [OF A] both_core]]) simp
qed (use accept_commit_accepts [OF A] f in auto)

lemma push_existing_accepts:
  assumes A: "accept_env h env u c" and w: "accept_inv w" "durable u c w" and x: "From x = u" "ClientMsgId x = c"
  shows "wp (push_existing h env f x) (accepts u c) w"
proof -
  have v: "wp (validateSendPermission h env g) (\<lambda>_ s. accept_inv s \<and> durable u c s) w" for g
    using w by (intro keeps_wp [OF keeps_validateSendPermission [OF accept_envD(7) [OF A]]]) simp
  show ?thesis
    unfolding push_existing_def Let_def
    apply (rule wp_bindI [OF v], rule wp_case_sum)
     apply (simp add: fail_release_accepts [OF A])
    using process_then_commit [OF A] x accept_envD(5) [OF A] by simp
qed

lemma push_persist_accepts:
  assumes A: "accept_env h env u c" and w: "accept_inv w" and f: "From f = u" "ClientMsgId f = c"
  shows "wp (push_persist h env f rs) (accepts u c) w"
proof -
  have v: "wp (if \<not> b then validateSendPermission h env g else ok ()) (\<lambda>_ s. accept_inv s \<and> durable u c s) s"
    if "accept_inv s" "durable u c s" for b g s
    using that by (intro keeps_wp [OF keeps_if [OF keeps_validateSendPermission [OF accept_envD(7) [OF A]] keeps_ok]]) simp
  show ?thesis
    unfolding push_persist_def
    apply (rule wp_bindI [OF saveMessageWithRecipients_durable [OF accept_envD(1,2) [OF A] w]])
    apply (rule wp_case_sum)
     apply (simp add: fail_release_accepts [OF A])
    apply (rule wp_case_prod)
    apply (rule wp_bindI [OF v], simp add: f, simp add: f)
    apply (rule wp_case_sum)
     apply (simp add: fail_release_accepts [OF A])
    using process_then_commit [OF A] accept_envD(5) [OF A] by (simp add: f)
qed

lemma push_number_keeps:
  fixes env :: "('b im_scheme) env"
  assumes rely: "relies env accept_inv"
  shows "keeps accept_inv (push_number h env f)"
proof -
  have seed: "strs (snd (r_setnx (seq_key sid) v r)) (''client_msg:'' @ k) = strs r (''client_msg:'' @ k)" for sid v r k
    by (simp add: r_setnx_def redis_simps seq_key_def)
  have incr: "core (snd (on_rds_res (r_incr (seq_key sid)) s)) = core s" for sid and s :: "'b im_scheme"
    by (auto simp: on_rds_res_def r_incr_def core_def redis_simps seq_key_def split: prod.split option.split rvalue.split)
  show ?thesis
    unfolding push_number_def nextSequence_def ensureSequenceInitialized_def Let_def
    by (intro keeps_if keeps_ok keeps_err keeps_then_ok keeps_query rely keeps_exec_core of_core_accept_inv
        keeps_rds_core seed incr)
qed

lemma push_number_frame:
  "wp (push_number h env f) (\<lambda>r _. \<forall>g. r = Inr g \<longrightarrow> From g = From f \<and> ClientMsgId g = ClientMsgId f) w"
proof -
  have any: "wp (nextSequence h env sid) (\<lambda>_ _. True) w" for sid by (rule wpI) simp
  show ?thesis
    unfolding push_number_def by (rule wp_if, rule wp_then_okI [OF any]) (auto intro!: wp_ok)
qed

lemma push_fresh_accepts:
  assumes A: "accept_env h env u c" and w: "accept_inv w" and f: "From f = u" "ClientMsgId f = c"
  shows "wp (push_fresh h env f) (accepts u c) w"
proof -
  note a = accept_envD [OF A] and fail = fail_release_accepts [OF A]
  have v: "wp (validateSendPermission h env g) (\<lambda>_. accept_inv) s" if "accept_inv s" for g s
    by (rule keeps_wp [OF keeps_validateSendPermission [OF a(2)] that])
  have cn: "wp (CanonicalizeMessage h env x y z) (\<lambda>_. accept_inv) s" if "accept_inv s" for x y z s
    by (rule keeps_wp [OF keeps_CanonicalizeMessage [OF a(2)] that])
  have nm: "wp (push_number h env g) (\<lambda>r s. (\<forall>g'. r = Inr g' \<longrightarrow> From g' = From g \<and> ClientMsgId g' = ClientMsgId g) \<and> accept_inv s) s"
    if "accept_inv s" for g s
    by (rule wp_conj [OF push_number_frame keeps_wp [OF push_number_keeps [OF a(2)] that]])
  have rs: "wp (commitClientMessageReservation h env g) (\<lambda>_. accept_inv) s" if "accept_inv s" "From g = u" for g s
    by (rule keeps_wp [OF keeps_reservation [OF a(2)] that(1)]) (use a(4) that(2) in simp)
  have rv: "wp (resolveRecipients h env g) (\<lambda>_. accept_inv) s" if "accept_inv s" for g s
    by (rule keeps_wp [OF keeps_resolveRecipients [OF a(2)] that])
  have sid: "From (if b then f\<lparr>SessionId := x\<rparr> else f) = u" "ClientMsgId (if b then f\<lparr>SessionId := x\<rparr> else f) = c" for b x
    using f by simp_all
  show ?thesis
    unfolding push_fresh_def Let_def if_P [OF a(6)]
    apply (rule wp_bindI [OF v [OF w]], rule wp_case_sum, simp add: fail)
    apply (rule wp_bindI [OF cn], assumption, rule wp_case_sum, simp add: fail)
    apply (rule wp_bindI [OF nm], assumption, rule wp_case_sum, simp add: fail)
    apply (intro wp_bind wp_clock)
    apply (rule wp_ignoreI [OF rs])
      apply simp
     apply (simp add: sid)
    apply (rule wp_bindI [OF rv], assumption, rule wp_case_sum, simp add: fail)
    apply (rule push_persist_accepts [OF A])
      apply (simp_all add: sid)
    done
qed

lemma push_reserved_accepts:
  assumes A: "accept_env h env u c" and w: "accept_inv w" and f: "From f = u" "ClientMsgId f = c"
  shows "wp (push_reserved h env f) (accepts u c) w"
proof -
  have ld: "wp (loadMessageByClientMsgID h env u c) (\<lambda>r s. (\<forall>m. r = Inr (Some m) \<longrightarrow>
      (\<exists>x\<in>set (msgs s). ms_from x = u \<and> ms_client_msg_id x = Some c \<and> m = frame_of_row x)) \<and> accept_inv s) w"
    by (intro wp_conj loadMessageByClientMsgID_sound keeps_wp [OF keeps_load] accept_envD(2) [OF A] w)
  have ex: "wp (push_existing h env f (frame_of_row x)) (accepts u c) s"
    if "accept_inv s" "x \<in> set (msgs s)" "ms_from x = u" "ms_client_msg_id x = Some c" for x s
    using that by (intro push_existing_accepts [OF A]) (auto simp: frame_of_row_def intro: durable_if_row)
  show ?thesis
    unfolding push_reserved_def f
    apply (rule wp_bindI [OF ld], rule wp_case_sum, simp add: fail_release_accepts [OF A])
    apply (rule wp_case_option)
     apply (simp add: push_fresh_accepts [OF A] f)
    using ex by auto
qed

text \<open>The client id a frame is accepted under.\<close>

definition client_id :: "wire \<Rightarrow> string" where
  "client_id f = (if ClientMsgId f = [] then MessageId f else ClientMsgId f)"

definition control_frame :: "wire \<Rightarrow> bool" where
  "control_frame f \<longleftrightarrow> MsgType f = HEARTBEAT \<or> MsgType f = ACK"

lemma reserve_accepts:
  assumes "relies env accept_inv" "CHR '':'' \<notin> set u" "accept_inv w" "From f = u" "ClientMsgId f \<noteq> []"
  shows "wp (reserveClientMessage h env f) (\<lambda>r s. accept_inv s \<and> (\<forall>d f'. r = Inr (d, f') \<longrightarrow>
           From f' = u \<and> ClientMsgId f' = ClientMsgId f \<and> (d \<longrightarrow> durable u (ClientMsgId f) s))) w"
proof -
  have inv: "wp (reserveClientMessage h env f) (\<lambda>_. accept_inv) w"
    using keeps_wp [OF keeps_reserve] assms by blast
  show ?thesis
  proof (rule wp_mono [OF wp_conj [OF inv wp_conj [OF reserveClientMessage_duplicate [OF assms(5)] reserveClientMessage_frame]]])
    fix r s
    assume *: "accept_inv s \<and> (\<forall>f'. r = Inr (True, f') \<longrightarrow> f' = f \<and>
           (\<exists>v. strs (rds s) (clientMessageKey (From f) (ClientMsgId f)) = Some v \<and> finished_value v)) \<and>
      (\<forall>d f'. r = Inr (d, f') \<longrightarrow> From f' = From f \<and> To f' = To f
       \<and> ClientMsgId f' = ClientMsgId f \<and> ToType f' = ToType f \<and> Body f' = Body f \<and> MsgType f' = MsgType f)"
    have "durable u (ClientMsgId f) s" if r: "r = Inr (True, f')" for f'
    proof -
      from * r obtain v where "strs (rds s) (clientMessageKey u (ClientMsgId f)) = Some v" "finished_value v"
        using assms(4) by blast
      then show ?thesis using * committed_soundD [OF _ assms(2)] by blast
    qed
    with * assms(4) show "accept_inv s \<and> (\<forall>d f'. r = Inr (d, f') \<longrightarrow>
        From f' = u \<and> ClientMsgId f' = ClientMsgId f \<and> (d \<longrightarrow> durable u (ClientMsgId f) s))"
      by (metis (full_types))
  qed
qed

lemma PushMessage_accepts:
  assumes prod: "production h" and rely: "relies env accept_inv" and rely': "\<And>c. relies env (durable u c)"
    and colon: "CHR '':'' \<notin> set u" and w: "accept_inv w"
  shows "wp (PushMessage h env u content) (\<lambda>r s. accept_inv s \<and> (r = Inr () \<longrightarrow>
           (\<exists>f. unmarshal h content = Inr f \<and> (control_frame f \<or> durable u (client_id f) s)))) w"
proof (cases "unmarshal h content")
  case (Inl e)
  then show ?thesis using w by (simp add: PushMessage_def wp_err)
next
  case (Inr f0)
  show ?thesis
  proof (cases "control_frame f0")
    case True
    then show ?thesis using Inr w by (auto simp: PushMessage_def control_frame_def wp_ok)
  next
    case False
    have A: "accept_env h env u (client_id f0)" using prod rely rely' colon by (simp add: accept_env_def)
    have trace: "wp (if TraceId f1 = [] then draw (fresh_id h) else State_Monad.return (TraceId f1)) (\<lambda>_. accept_inv) w" for f1
      using w by (intro wp_if wp_draw wp_return)
    note res = reserve_accepts [OF rely colon]
    show ?thesis
    proof (cases "normalizeFrame u f0")
      case (Inl e)
      then show ?thesis using Inr False w by (simp add: PushMessage_def control_frame_def wp_err)
    next
      case norm: (Inr f1)
      note nf = normalizeFrame_Inr [OF norm]
      have cid: "ClientMsgId (if ClientMsgId (f1\<lparr>TraceId := t\<rparr>) = [] then f1\<lparr>TraceId := t, ClientMsgId := MessageId (f1\<lparr>TraceId := t\<rparr>)\<rparr>
            else f1\<lparr>TraceId := t\<rparr>) = client_id f0"
        for t using nf by (simp add: client_id_def)
      show ?thesis
        unfolding PushMessage_def Inr sum.case norm Let_def
        apply (rule wp_if)
         apply (use False in \<open>simp add: control_frame_def\<close>)
        apply (rule wp_bindI [OF trace])
        apply (rule wp_if, simp add: wp_err)
        apply (rule wp_then_okI [OF res], assumption)
            apply (simp add: nf)
           apply simp
          apply simp
        apply (unfold cid)
        apply (rule wp_case_prod, rule wp_if)
         apply (rule wp_ok)
         apply blast
        apply (rule wp_mono [OF push_reserved_accepts [OF A]])
           apply blast
          apply blast
         apply blast
        apply (simp add: accepts_def Inr)
        done
    qed
  qed
qed

text \<open>What a run unfolds.\<close>

lemmas push_message_run [exec_defs] =
  fail_release_def accept_commit_def push_existing_def push_persist_def push_number_def
  push_fresh_def push_reserved_def PushMessage_def

section \<open>Properties\<close>

lemma accept_inv_demo: "accept_inv demo_world"
  by (simp add: accept_inv_def outbox_complete_def committed_sound_def demo_world_simps empty_redis_def)

lemma production_demo: "production demo"
  by (simp add: production_def demo_simps)

text \<open>C1. A message the service accepts is not lost: in the production configuration, whatever calls fail or
  lose their reply and whatever other processes that keep the invariant do in between, \<open>PushMessage\<close> keeps the
  invariant (every stored message has its delivery event, every committed idempotency record its message), and
  when it answers success, the message of this user with this client id is in the message table and
  has a delivery event, unless the frame was a heartbeat or an acknowledgement.\<close>

theorem accepted_is_durable:
  assumes "production h" "relies env accept_inv" "\<And>c. relies env (durable u c)"
    and "CHR '':'' \<notin> set u" "accept_inv w"
  shows "wp (PushMessage h env u content) (\<lambda>r s. accept_inv s \<and> (r = Inr () \<longrightarrow>
           (\<exists>f. unmarshal h content = Inr f \<and> (control_frame f \<or> durable u (client_id f) s)))) w"
  using assms by (rule PushMessage_accepts)

text \<open>The databases fail right after the message was stored, and the message is accepted all the same.\<close>

theorem accepted_is_durable_witness:
  "\<exists>s. run_state (PushMessage demo (fails_from 15 1000) ''al'' ''p1'') (0, demo_world) = (Inr (), 18, s)
     \<and> durable ''al'' ''c1'' s"
proof -
  have "case run_state (PushMessage demo (fails_from 15 1000) ''al'' ''p1'') (0, demo_world) of (r, n, s) \<Rightarrow> r = Inr () \<and> n = 18"
    by (simp add: exec_defs run_calls cong: lazy_cong)
  then obtain s where run: "run_state (PushMessage demo (fails_from 15 1000) ''al'' ''p1'') (0, demo_world) = (Inr (), 18, s)"
    by (auto split: prod.splits)
  have "wp (PushMessage demo (fails_from 15 1000) ''al'' ''p1'') (\<lambda>r s. accept_inv s \<and> (r = Inr () \<longrightarrow>
           (\<exists>f. unmarshal demo ''p1'' = Inr f \<and> (control_frame f \<or> durable ''al'' (client_id f) s)))) demo_world"
    by (rule accepted_is_durable) (simp_all add: production_demo accept_inv_demo)
  from wpD [OF this run] have "durable ''al'' ''c1'' s"
    by (simp add: demo_simps demo_run control_frame_def client_id_def empty_wire_def)
  with run show ?thesis by blast
qed

text \<open>The permission check looks at sender and recipient only, and a session id in the submitted frame is kept.  A message to
  a friend that names the conversation of two other users is accepted and stored in that conversation.\<close>

lemma forged_session_is_accepted:
  "case run_state (PushMessage demo (fails_from 15 1000) ''al'' ''p4'') (0, demo_world) of (r, _, s) \<Rightarrow>
     r = Inr () \<and> map (\<lambda>m. (ms_from m, ms_to m, ms_session_id m, ms_seq m)) (msgs s) = [(''al'', ''bo'', ''c2c:cy:di'', 1)]
     \<and> buildSessionID ''al'' ''bo'' ''user'' \<noteq> ''c2c:cy:di''"
  by (simp add: exec_defs run_calls cong: lazy_cong)

text \<open>A deployment without the table \<open>conversation_outbox\<close>, and how the handler reads MySQL's answer there.\<close>

definition demo_no_outbox :: cfg where
  "demo_no_outbox = demo\<lparr>missing_tables := [''conversation_outbox'']\<rparr>"

definition no_outbox_error :: gerr where
  "no_outbox_error = Msg (''Error 1146 (42S02): Table '' @ sql_quote (''linkgo_im.'' @ ''conversation_outbox'') @ '' doesn't exist'')"

lemma demo_no_outbox_simps:
  "has_db demo_no_outbox" "has_rdb demo_no_outbox" "ConversationOutbox demo_no_outbox" "DeliveryOutbox demo_no_outbox"
  "has_dispatcher demo_no_outbox" "missing_columns demo_no_outbox = []" "marshal demo_no_outbox = demo_marshal"
  "unmarshal demo_no_outbox = demo_unmarshal" "attachment_ref demo_no_outbox = (\<lambda>_. None)"
  "fresh_id demo_no_outbox = (\<lambda>_. ''t'')"
  by (simp_all add: demo_no_outbox_def demo_simps)

lemma on_schema_no_outbox:
  "on_schema demo_no_outbox ts cs opn w =
     (if ''conversation_outbox'' \<in> set ts then (Inl no_outbox_error, w) else opn w)"
proof -
  have "find (\<lambda>t. t \<in> set (missing_tables demo_no_outbox)) ts
        = (if ''conversation_outbox'' \<in> set ts then Some ''conversation_outbox'' else None)"
    by (induction ts) (auto simp: demo_no_outbox_def)
  moreover have "find (\<lambda>c. c \<in> set (missing_columns demo_no_outbox)) cs = None"
    by (simp add: demo_no_outbox_simps find_None_iff)
  ultimately show ?thesis
    by (simp add: on_schema_def schema_error_def no_outbox_error_def)
qed

lemma no_outbox_error_read:
  "\<not> isUnknownColumn no_outbox_error c" "isMissingTable no_outbox_error ''conversation_outbox''"
proof -
  show "\<not> isUnknownColumn no_outbox_error c"
    by (rule no_w_no_unknown_column) (simp_all add: no_outbox_error_def sql_quote_def)
  have capital_t: "char_of (116 :: nat) = CHR ''t''" by code_simp
  show "isMissingTable no_outbox_error ''conversation_outbox''"
    using capital_t by (simp add: isMissingTable_def no_outbox_error_def sql_quote_def to_lower_ascii lower_char_def del: to_lower.simps)
qed

text \<open>The delivery guarantee depends on the conversation outbox: when only the table \<open>conversation_outbox\<close> is missing, a message
  is stored by the fallback without a delivery event and accepted, although the delivery outbox is switched
  on; nothing is delivered, published or left for a worker.\<close>

theorem missing_conversation_outbox_loses_delivery:
  "case run_state (PushMessage demo_no_outbox (calm 1000) ''al'' ''p1'') (0, demo_world) of (r, _, s) \<Rightarrow>
     r = Inr () \<and> map ms_message_id (msgs s) = [''c2c:al:bo-1''] \<and> deliv_outbox s = [] \<and> published s = [] \<and> dispatched s = []
     \<and> zsets (rds s) (PendingAckKey ''bo'') = []"
proof -
  have "itoa 1 = ''1''" by code_simp
  then show ?thesis
    by (simp add: exec_defs run_calls demo_no_outbox_simps on_schema_no_outbox no_outbox_error_read
        del: isMissingTable_def isUnknownColumn_def cong: lazy_cong)
qed

end
