(* ===== verification/Push_Safety.thy ===== *)
theory Push_Safety
  imports Push_Message
begin

text \<open>
  What the acceptance path stores.  It stores no message for a pair of users, or a user and a group, whose
  relation does not allow it: apart from the insert itself, no step of the path touches the relation and message
  tables.  And a stored message is the one that was submitted, in the conversation and under the number and id the client
  chose.
\<close>

section \<open>The tables the path leaves alone\<close>

definition pv :: "'b im_scheme \<Rightarrow> friend_row list \<times> member_row list \<times> msg_row list" where
  "pv s = (friend_rows s, member_rows s, msgs s)"

named_theorems pv_rules "operations that leave the relation and message tables alone"

lemma pv_on_rds [simp]: "pv (on_rds f s) = pv s"
  by (simp add: pv_def)

lemma pv_rds [pv_rules]: "relies env I \<Longrightarrow> reads pv I \<Longrightarrow> keeps I (update_w env (on_rds f))"
  by (rule keeps_update_reads [where v = pv]) auto

lemma pv_rds_res [pv_rules]: "relies env I \<Longrightarrow> reads pv I \<Longrightarrow> keeps I (exec env (on_rds_res f))"
  by (rule keeps_exec_reads [where v = pv]) (auto simp: on_rds_res_def pv_def split: prod.split)

lemma pv_deliv [pv_rules]:
  "relies env I \<Longrightarrow> reads pv I \<Longrightarrow> keeps I (exec env (run_update deliv_outbox set_deliv p f))"
  by (rule keeps_exec_reads [where v = pv]) (auto simp: run_update_def set_deliv_def pv_def)

lemma pv_publish_on [pv_rules]: "relies env I \<Longrightarrow> reads pv I \<Longrightarrow> keeps I (publish_on env c v)"
  unfolding publish_on_def by (rule keeps_exec_reads [where v = pv]) (auto simp: pv_def)

lemma pv_MarkOffline [pv_rules]: "relies env I \<Longrightarrow> reads pv I \<Longrightarrow> keeps I (MarkOffline env u m t)"
  unfolding MarkOffline_def by (intro keeps_if keeps_return keeps_bind keeps_clock keeps_ignore pv_rules)

lemma pv_Deliver [pv_rules]: "relies env I \<Longrightarrow> reads pv I \<Longrightarrow> keeps I (Deliver h env u m p t)"
  unfolding Deliver_def Let_def trackPendingAck_def ClearRouteIfMatch_def
  by (intro keeps_then_ok keeps_bind keeps_query pv_rules keeps_case_sum keeps_case_option)
     (auto split: rvalue.splits intro!: keeps_bind keeps_if keeps_ok keeps_ignore pv_rules)

lemma pv_updateConversationState [pv_rules]:
  "relies env I \<Longrightarrow> reads pv I \<Longrightarrow> keeps I (updateConversationState h env f rs)"
  unfolding updateConversationState_def persistConversationState_def cacheConversationState_def
    MarkConversationRead_def Let_def
  by (intro keeps_if keeps_return keeps_ignore keeps_ok keeps_then_ok keeps_each pv_rules
      keeps_update_reads [where v = pv]) (auto simp: pv_def)

lemma pv_deliverMessageToRecipients [pv_rules]:
  "relies env I \<Longrightarrow> reads pv I \<Longrightarrow> keeps I (deliverMessageToRecipients h env f rs)"
  unfolding deliverMessageToRecipients_def publishGroupDispatch_def dispatchToRecipients_def RememberSessionMessage_def
  by (intro keeps_case_sum keeps_err keeps_then_ok keeps_if keeps_each keeps_ignore keeps_ok keeps_return pv_rules
      keeps_update_reads [where v = pv]) (auto simp: pv_def)

lemma pv_deliverPersistedMessage [pv_rules]:
  "relies env I \<Longrightarrow> reads pv I \<Longrightarrow> keeps I (deliverPersistedMessage h env f)"
  unfolding deliverPersistedMessage_def resolveRecipients_def
  by (intro keeps_then_ok keeps_if keeps_ok keeps_err keeps_loadGroupRecipientsFromDB pv_rules)

lemma pv_processDeliveryOutboxEvent [pv_rules]:
  "relies env I \<Longrightarrow> reads pv I \<Longrightarrow> keeps I (processDeliveryOutboxEvent h env ev)"
  unfolding processDeliveryOutboxEvent_def Let_def
  by (intro keeps_bind keeps_clock keeps_then_ok keeps_if keeps_ok keeps_err keeps_case_sum keeps_case_option pv_rules)

lemma pv_ProcessDeliveryOutboxMessage [pv_rules]:
  "relies env I \<Longrightarrow> reads pv I \<Longrightarrow> keeps I (ProcessDeliveryOutboxMessage h env m)"
  unfolding ProcessDeliveryOutboxMessage_def loadDeliveryOutboxEvents_def
  by (intro keeps_if keeps_ok keeps_err keeps_bind keeps_clock keeps_then_ok keeps_query)
     (auto split: list.split intro!: keeps_ok pv_rules keeps_if keeps_err keeps_query keeps_then_ok)

text \<open>The idempotency record and the sequence.\<close>

lemma pv_records [pv_rules]:
  assumes "relies env I" "reads pv I"
  shows "keeps I (reserveClientMessage h env f)" "keeps I (commitClientMessage h env f)"
    "keeps I (commitClientMessageReservation h env f)" "keeps I (releaseClientMessage h env f)"
    "keeps I (push_number h env f)"
  unfolding reserveClientMessage_def commitClientMessage_def commitClientMessageReservation_def releaseClientMessage_def
    push_number_def nextSequence_def ensureSequenceInitialized_def Let_def
  by (intro keeps_if keeps_ok keeps_err keeps_return keeps_then_ok keeps_query keeps_case_option keeps_case_sum keeps_bind
      keeps_ignore pv_rules assms;
      auto split: rvalue.splits intro!: keeps_ok keeps_err keeps_if keeps_exec_reads [where v = pv] assms
        simp: on_rds_res_def pv_def split: prod.split)+

section \<open>The insert\<close>

text \<open>\<open>allows I h row\<close>: inserting the row into the message table keeps \<open>I\<close>.\<close>

definition allows :: "('b im_scheme \<Rightarrow> bool) \<Rightarrow> cfg \<Rightarrow> msg_row \<Rightarrow> bool" where
  "allows I h row \<longleftrightarrow>
     (\<forall>s. I s \<longrightarrow> clash (messages_keys h) row (msgs s) = None \<longrightarrow> I (s\<lparr>msgs := msgs s @ [row]\<rparr>))"

definition allows_frame :: "('b im_scheme \<Rightarrow> bool) \<Rightarrow> cfg \<Rightarrow> wire \<Rightarrow> bool" where
  "allows_frame I h f \<longleftrightarrow> allows I h (row_of_frame f) \<and> allows I h ((row_of_frame f)\<lparr>ms_client_msg_id := None\<rparr>)"

lemma keeps_insert:
  assumes "relies env I" "allows I h row"
  shows "keeps I (exec env (on_schema h ts cs (run_insert msgs msgs_update (ins (messages_keys h) row))))"
  using assms(2)
  by (intro keeps_exec assms(1), elim on_schema_cases run_insert_cases)
     (auto simp: allows_def ins_Inr_iff elim!: run_insert_cases)

text \<open>A condition on the tables and on Redis survives the events the transaction adds.\<close>

definition pvr :: "'b im_scheme \<Rightarrow> (friend_row list \<times> member_row list \<times> msg_row list) \<times> redis" where
  "pvr s = (pv s, rds s)"

lemma reads_pvr: "reads pv I \<Longrightarrow> reads pvr I"
  unfolding reads_def pvr_def prod.inject by blast

lemma keeps_outbox_tx:
  fixes env :: "('b im_scheme) env"
  assumes "reads pvr I" "allows I h (row_of_frame f)"
  shows "keeps I (outbox_tx h f rs (quiet env))"
proof -
  have rq: "relies (quiet env) I" by (simp add: relies_def)
  have other: "keeps I (exec (quiet env) (on_schema h ts cs (\<lambda>s. (Inr (), g s))))"
    if "\<And>s. pvr (g s) = pvr s" for ts cs and g :: "'b im_scheme \<Rightarrow> 'b im_scheme"
    using that by (intro keeps_exec_reads [OF rq assms(1)]) (auto simp: on_schema_def split: option.split)
  show ?thesis
    unfolding outbox_tx_def
    by (intro keeps_bind keeps_case_sum keeps_return keeps_if keeps_then_tx other keeps_insert [OF rq assms(2)])
       (simp_all add: pvr_def pv_def)
qed

lemma keeps_save:
  assumes rely: "relies env I" "reads pvr I" and f: "allows_frame I h f"
  shows "keeps I (saveMessageWithRecipients h env f rs)"
proof -
  have row: "allows I h (row_of_frame f)" "allows I h ((row_of_frame f)\<lparr>ms_client_msg_id := None\<rparr>)"
    using f by (simp_all add: allows_frame_def)
  have plain: "keeps I (saveMessageWithoutOutbox h env f)"
    unfolding saveMessageWithoutOutbox_def saveMessageWithoutClientID_def saveMessageLegacy_def
    by (intro keeps_if keeps_ok keeps_err keeps_bind keeps_case_sum keeps_then_ok keeps_insert [OF rely(1)] row
        keeps_after_failed_insert [OF rely(1)])
  have tx: "keeps I (in_tx env (outbox_tx h f rs))"
    by (rule keeps_in_tx [OF rely(1)], rule wp_mono [OF keeps_wp [OF keeps_outbox_tx [OF rely(2) row(1)]]])
       (auto split: tx_end.split)
  show ?thesis
    unfolding saveMessageWithRecipients_def saveMessageWithOutbox_def
    by (intro keeps_if keeps_then_ok tx keeps_case_option plain keeps_ok)
       (auto split: tx_stage.split intro!: keeps_ok keeps_then_ok keeps_after_failed_insert rely)
qed

lemma keeps_existing: "relies env I \<Longrightarrow> reads pv I \<Longrightarrow> keeps I (push_existing h env f x)"
  unfolding push_existing_def fail_release_def accept_commit_def Let_def
  by (intro keeps_bind keeps_case_sum keeps_ignore keeps_if keeps_ok keeps_err keeps_validateSendPermission pv_rules)

lemma keeps_persist:
  assumes "relies env I" "reads pv I" "allows_frame I h f"
  shows "keeps I (push_persist h env f rs)"
  unfolding push_persist_def fail_release_def accept_commit_def
  by (intro keeps_bind keeps_case_sum keeps_case_prod keeps_ignore keeps_if keeps_ok keeps_err keeps_validateSendPermission
      keeps_save reads_pvr pv_rules assms)

text \<open>The whole path keeps what its part for a fresh message keeps.\<close>

lemma PushMessage_keeps:
  assumes "relies env I" "reads pv I" "\<And>f. keeps I (push_fresh h env f)"
  shows "keeps I (PushMessage h env sender content)"
  unfolding PushMessage_def push_reserved_def fail_release_def Let_def
  by (intro keeps_case_sum keeps_case_option keeps_case_prod keeps_if keeps_ok keeps_err keeps_bind keeps_draw keeps_return
      keeps_then_ok keeps_ignore keeps_load keeps_existing pv_rules assms)

section \<open>Messages without a relation\<close>

definition addressed :: "string \<Rightarrow> string \<Rightarrow> string \<Rightarrow> msg_row \<Rightarrow> bool" where
  "addressed u tt v r \<longleftrightarrow> ms_from r = u \<and> ms_to_type r = tt \<and> ms_to r = v"

text \<open>At no time the clock may show does the relation of \<open>u\<close> with \<open>v\<close> allow a message, and none is stored.\<close>

definition barred :: "('b im_scheme) env \<Rightarrow> string \<Rightarrow> string \<Rightarrow> string \<Rightarrow> 'b im_scheme \<Rightarrow> bool" where
  "barred env u tt v s \<longleftrightarrow>
     (\<forall>t\<in>range (clock_at env). \<not> may_send t (empty_wire\<lparr>From := u, To := v, ToType := tt\<rparr>) s)
   \<and> (\<forall>r\<in>set (msgs s). \<not> addressed u tt v r)"

lemma may_send_pv: "pv s = pv s' \<Longrightarrow> may_send t f s = may_send t f s'"
  by (simp add: pv_def may_send_def)

lemma barred_reads: "reads pv (barred env u tt v)"
proof -
  have "barred env u tt v s'" if "pv s = pv s'" "barred env u tt v s" for s s' :: "'a im_scheme"
    using that may_send_pv [OF that(1)] by (simp add: barred_def pv_def)
  then show ?thesis unfolding reads_def by blast
qed

lemma barred_refuses:
  assumes "barred env u tt v s" "may_send t f s" "t \<in> range (clock_at env)"
  shows "(From f, ToType f, To f) \<noteq> (u, tt, v)"
proof
  assume "(From f, ToType f, To f) = (u, tt, v)"
  with assms(2) have "may_send t (empty_wire\<lparr>From := u, To := v, ToType := tt\<rparr>) s"
    by (auto simp: may_send_def)
  with assms(1,3) show False by (auto simp: barred_def)
qed

lemma barred_allows: "(From f, ToType f, To f) \<noteq> (u, tt, v) \<Longrightarrow> allows_frame (barred env u tt v) h f"
  by (auto simp: allows_frame_def allows_def barred_def may_send_def addressed_def row_of_frame_def)

lemma push_number_addresses:
  "wp (push_number h env f) (\<lambda>r _. \<forall>g. r = Inr g \<longrightarrow> From g = From f \<and> To g = To f \<and> ToType g = ToType f) w"
proof -
  have any: "wp (nextSequence h env sid) (\<lambda>_ _. True) w" for sid by (rule wpI) simp
  show ?thesis
    unfolding push_number_def by (rule wp_if, rule wp_then_okI [OF any]) (auto intro!: wp_ok)
qed

lemma barred_fresh:
  assumes rely: "relies env (barred env u tt v)"
  shows "keeps (barred env u tt v) (push_fresh h env f)"
proof (rule keepsI)
  fix w :: "'a im_scheme"
  let ?I = "barred env u tt v"
  assume w: "?I w"
  note pv = pv_rules [OF rely barred_reads]
  have fail: "wp (fail_release h env g e) (\<lambda>_. ?I) s" if "?I s" for g e s
    unfolding fail_release_def by (rule keeps_wp [where I = ?I]) (intro keeps_ignore keeps_err pv that)+
  have perm: "wp (validateSendPermission h env g) (\<lambda>r s. ?I s \<and> (r = Inr () \<longrightarrow> (From g, ToType g, To g) \<noteq> (u, tt, v))) w" for g
    using barred_refuses
    by (intro wp_mono [OF wp_conj [OF keeps_wp [OF keeps_validateSendPermission [OF rely] w] validateSendPermission_sound]]) blast
  have num: "wp (push_number h env g) (\<lambda>r s. ?I s \<and> (\<forall>g'. r = Inr g' \<longrightarrow> From g' = From g \<and> To g' = To g \<and> ToType g' = ToType g)) s"
    if "?I s" for g s
    by (intro wp_mono [OF wp_conj [OF keeps_wp [OF pv_records(5) [OF rely barred_reads] that] push_number_addresses]]) blast
  have canon: "wp (if b then CanonicalizeMessage h env x y z else ok z') (\<lambda>_. ?I) s" if "?I s" for b x y z z' s
    by (rule keeps_wp [OF keeps_if [OF keeps_CanonicalizeMessage [OF rely] keeps_ok] that])
  have res: "wp (resolveRecipients h env g) (\<lambda>_. ?I) s" if "?I s" for g s
    unfolding resolveRecipients_def
    by (rule keeps_wp [where I = ?I]) (intro keeps_if keeps_ok keeps_err keeps_loadGroupRecipientsFromDB rely that)+
  show "wp (push_fresh h env f) (\<lambda>_. ?I) w"
    unfolding push_fresh_def Let_def
    apply (rule wp_bindI [OF perm], rule wp_case_sum, simp add: fail)
    apply (rule wp_bindI [OF canon], simp, rule wp_case_sum, simp add: fail)
    apply (rule wp_bindI [OF num], assumption, rule wp_case_sum, simp add: fail)
    apply (intro wp_bind wp_clock)
    apply (rule wp_ignoreI [OF keeps_wp [OF pv_records(3) [OF rely barred_reads]]], simp)
    apply (rule wp_bindI [OF res], assumption, rule wp_case_sum, simp add: fail)
    apply (rule keeps_wp [OF keeps_persist [OF rely barred_reads]])
     apply (rule barred_allows)
     apply (auto split: if_splits)
    done
qed

section \<open>The keys of the message table\<close>

text \<open>No two rows agree on a unique key: message id, sender and client id, conversation and sequence number.\<close>

fun keyed :: "'r unique_key list \<Rightarrow> 'r list \<Rightarrow> bool" where
  "keyed ks [] \<longleftrightarrow> True"
| "keyed ks (r # rows) \<longleftrightarrow> (\<forall>(k, same)\<in>set ks. \<forall>x\<in>set rows. \<not> same r x) \<and> keyed ks rows"

lemma keyed_snoc:
  "keyed ks (rows @ [x]) \<longleftrightarrow> keyed ks rows \<and> (\<forall>(k, same)\<in>set ks. \<forall>r\<in>set rows. \<not> same r x)"
  by (induction rows) auto

definition messages_keyed :: "'b im_scheme \<Rightarrow> bool" where
  "messages_keyed s \<longleftrightarrow> keyed all_messages_keys (msgs s)"

lemma all_keys_sym: "(k, same) \<in> set all_messages_keys \<Longrightarrow> same a b = same b a"
  by (auto simp: all_messages_keys_def) (rule exI, erule sym)+

lemma keyed_allows:
  assumes "production h"
  shows "allows_frame messages_keyed h f"
  using all_keys_sym unfolding allows_frame_def allows_def messages_keyed_def messages_keys_production [OF assms] clash_None_iff
  by (simp add: keyed_snoc) blast

lemma keyed_reads: "reads pv messages_keyed"
  by (simp add: reads_def messages_keyed_def pv_def)

lemma keyed_fresh:
  assumes "production h" "relies env messages_keyed"
  shows "keeps messages_keyed (push_fresh h env f)"
  unfolding push_fresh_def fail_release_def resolveRecipients_def Let_def
  by (intro keeps_bind keeps_case_sum keeps_ignore keeps_if keeps_ok keeps_err keeps_clock keeps_persist
      keeps_validateSendPermission keeps_CanonicalizeMessage keeps_loadGroupRecipientsFromDB keyed_allows
      pv_rules keyed_reads assms)

text \<open>The production handler keeps the keys, as MySQL's unique indexes promise.\<close>

lemma messages_stay_keyed:
  assumes "production h" "relies env messages_keyed"
  shows "keeps messages_keyed (PushMessage h env sender content)"
  by (rule PushMessage_keeps [OF assms(2) keyed_reads keyed_fresh [OF assms]])

section \<open>Stored as submitted\<close>

definition frame_type :: "wire \<Rightarrow> string" where
  "frame_type f = (if ToType f = [] then targetType (To f) else ToType f)"

text \<open>The conversation: the one the frame names, or the one of sender and target.\<close>

definition session_for :: "string \<Rightarrow> wire \<Rightarrow> string" where
  "session_for u f = (if SessionId f = [] then buildSessionID u (To f) (frame_type f) else SessionId f)"

definition as_submitted :: "cfg \<Rightarrow> string \<Rightarrow> wire \<Rightarrow> msg_row \<Rightarrow> bool" where
  "as_submitted h u f r \<longleftrightarrow> ms_to r = To f \<and> ms_to_type r = frame_type f \<and> ms_session_id r = session_for u f
     \<and> (0 < SeqNo f \<longrightarrow> ms_seq r = SeqNo f) \<and> (MessageId f \<noteq> [] \<longrightarrow> ms_message_id r = MessageId f)
     \<and> (attachment_ref h (Body f) = None \<longrightarrow> ms_content r = Body f)"

text \<open>What is stored and reserved of the user's message with this client id comes from the frame \<open>f\<close>.\<close>

definition submitted :: "cfg \<Rightarrow> string \<Rightarrow> wire \<Rightarrow> 'b im_scheme \<Rightarrow> bool" where
  "submitted h u f s \<longleftrightarrow>
     (\<forall>r\<in>set (msgs s). ms_from r = u \<longrightarrow> ms_client_msg_id r = Some (client_id f) \<longrightarrow> as_submitted h u f r)
   \<and> (\<forall>x. strs (rds s) (clientMessageKey u (client_id f)) = Some (Rec x) \<longrightarrow> rec_Status x = ''pending'' \<longrightarrow>
        rec_SessionID x = session_for u f \<and> (0 < SeqNo f \<longrightarrow> rec_Seq x = SeqNo f) \<and> (MessageId f \<noteq> [] \<longrightarrow> rec_MessageID x = MessageId f))"

text \<open>The frame on its way through the handler.\<close>

definition carries :: "cfg \<Rightarrow> string \<Rightarrow> wire \<Rightarrow> wire \<Rightarrow> bool" where
  "carries h u f g \<longleftrightarrow> From g = u \<and> To g = To f \<and> ToType g = frame_type f \<and> ClientMsgId g = client_id f
     \<and> SessionId g \<in> {SessionId f, session_for u f} \<and> (0 < SeqNo f \<longrightarrow> SeqNo g = SeqNo f)
     \<and> (MessageId f \<noteq> [] \<longrightarrow> MessageId g = MessageId f) \<and> (attachment_ref h (Body f) = None \<longrightarrow> Body g = Body f)"

lemma of_core_submitted: "of_core (submitted h u f)"
  unfolding of_core_def reads_def submitted_def using core_eqD(1,3) by metis

lemma submitted_reads: "reads pvr (submitted h u f)"
  by (simp add: reads_def pvr_def pv_def submitted_def)

lemma submitted_allows:
  assumes "carries h u f g" "SessionId g = session_for u f"
  shows "allows_frame (submitted h u f) h g"
  using assms by (auto simp: allows_frame_def allows_def submitted_def carries_def as_submitted_def row_of_frame_def)

text \<open>Writes to the idempotency record.\<close>

lemma submitted_set:
  "submitted h u f s \<Longrightarrow> (\<And>x. k = clientMessageKey u (client_id f) \<Longrightarrow> v = Rec x \<Longrightarrow> rec_Status x = ''pending'' \<Longrightarrow>
        rec_SessionID x = session_for u f \<and> (0 < SeqNo f \<longrightarrow> rec_Seq x = SeqNo f) \<and> (MessageId f \<noteq> [] \<longrightarrow> rec_MessageID x = MessageId f))
   \<Longrightarrow> submitted h u f (on_rds (r_set k v) s)"
  by (auto simp: submitted_def redis_simps)

lemma submitted_records:
  assumes "relies env (submitted h u f)"
  shows "keeps (submitted h u f) (commitClientMessage c env g)" "keeps (submitted h u f) (releaseClientMessage c env g)"
    "carries h u f g \<Longrightarrow> SessionId g = session_for u f \<Longrightarrow> keeps (submitted h u f) (commitClientMessageReservation c env g)"
proof -
  have del: "submitted h u f (on_rds (r_del k) s)" if "submitted h u f s" for k and s :: "'a im_scheme"
    using that by (auto simp: submitted_def redis_simps split: if_splits)
  show "keeps (submitted h u f) (commitClientMessage c env g)"
    unfolding commitClientMessage_def
    by (intro keeps_rules keeps_update assms) (auto intro!: submitted_set simp: message_record_def)
  show "keeps (submitted h u f) (releaseClientMessage c env g)"
    unfolding releaseClientMessage_def Let_def by (intro keeps_rules keeps_update assms del)
  show "keeps (submitted h u f) (commitClientMessageReservation c env g)" if "carries h u f g" "SessionId g = session_for u f"
  proof -
    have "submitted h u f (on_rds (r_set k (Rec (message_record ''pending'' g))) s)" if "submitted h u f s" for k and s :: "'a im_scheme"
      by (rule submitted_set [OF that]) (use \<open>carries h u f g\<close> \<open>SessionId g = _\<close> in \<open>auto simp: message_record_def carries_def\<close>)
    then have "submitted h u f (on_rds (r_setxx k (Rec (message_record ''pending'' g))) s)" if "submitted h u f s" for k and s :: "'a im_scheme"
      using that by (simp add: r_setxx_def on_rds_def)
    then show ?thesis
      unfolding commitClientMessageReservation_def by (intro keeps_rules keeps_update assms)
  qed
qed

lemma reserve_in_flight:
  fixes env :: "('b im_scheme) env"
  assumes env: "relies env (submitted h u f)" and s: "submitted h u f s" and g: "carries h u f g"
  shows "wp (reserveClientMessage c env g) (\<lambda>r s'. submitted h u f s' \<and> (\<forall>d g'. r = Inr (d, g') \<longrightarrow> carries h u f g')) s"
proof -
  let ?key = "clientMessageKey (From g) (ClientMsgId g)"
  have key: "?key = clientMessageKey u (client_id f)" using g by (simp add: carries_def)
  have setnx: "submitted h u f (s'\<lparr>rds := d\<rparr>)"
    if "submitted h u f s'" "r_setnx k clientMessagePending (rds s') = (b, d)" for s' :: "'b im_scheme" and b d k
    using that submitted_set [OF that(1), of k clientMessagePending]
    by (auto simp: r_setnx_def clientMessagePending_def on_rds_def split: if_splits)
  have pending: "carries h u f (g\<lparr>SessionId := sid, SeqNo := rec_Seq x, MessageId := rec_MessageID x, TraceId := t\<rparr>)"
    if "submitted h u f s'" "strs (rds s') ?key = Some (Rec x)" "rec_Status x = ''pending''" "rec_SessionID x = sid" for s' :: "'b im_scheme" and x t sid
    using that g by (auto simp: submitted_def key carries_def)
  show ?thesis
    unfolding reserveClientMessage_def Let_def
    apply (intro wp_if wp_ok wp_err)
      apply (simp_all add: s g)
    apply (rule wp_then_ok, rule wp_query_stable [OF env s], simp)
    apply (auto intro!: wp_err wp_ok wp_if pending wp_then_ok wp_exec_stable [OF env] split: option.split rvalue.split prod.splits
        simp: g dest: setnx)
    done
qed

lemma canonical_body:
  "wp (CanonicalizeMessage h env x y body) (\<lambda>r _. \<forall>b. r = Inr b \<longrightarrow> attachment_ref h body = None \<longrightarrow> b = body) s"
  by (cases "attachment_ref h body") (simp_all add: CanonicalizeMessage_def wp_ok wpI)

lemma number_in_flight:
  assumes "carries h u f g"
  shows "wp (push_number c env g) (\<lambda>r _. \<forall>g'. r = Inr g' \<longrightarrow> carries h u f g' \<and> SessionId g' = SessionId g) s"
proof -
  have any: "wp (nextSequence c env sid) (\<lambda>_ _. True) s" for sid by (rule wpI) simp
  show ?thesis
    unfolding push_number_def
    by (rule wp_if, rule wp_then_okI [OF any]) (use assms in \<open>auto intro!: wp_ok simp: carries_def\<close>)
qed


lemma submitted_persist:
  assumes "relies env (submitted h u f)" "carries h u f g" "SessionId g = session_for u f"
  shows "keeps (submitted h u f) (push_persist h env g rs)"
  unfolding push_persist_def fail_release_def accept_commit_def
  by (intro keeps_bind keeps_case_sum keeps_case_prod keeps_ignore keeps_if keeps_ok keeps_err keeps_validateSendPermission
      keeps_save submitted_reads submitted_allows submitted_records keeps_ProcessDeliveryOutboxMessage
      keeps_deliverMessageToRecipients of_core_submitted assms)

lemma submitted_existing:
  assumes "relies env (submitted h u f)"
  shows "keeps (submitted h u f) (push_existing h env g x)"
  unfolding push_existing_def fail_release_def accept_commit_def deliverPersistedMessage_def Let_def
  by (intro keeps_bind keeps_case_sum keeps_then_ok keeps_ignore keeps_if keeps_ok keeps_err keeps_validateSendPermission
      submitted_records keeps_ProcessDeliveryOutboxMessage keeps_deliverMessageToRecipients keeps_resolveRecipients
      of_core_submitted assms)

lemma submitted_number:
  assumes "relies env (submitted h u f)"
  shows "keeps (submitted h u f) (push_number c env g)"
proof -
  have seed: "strs (snd (r_setnx (seq_key sid) v r)) (''client_msg:'' @ k) = strs r (''client_msg:'' @ k)" for sid v r k
    by (simp add: r_setnx_def redis_simps seq_key_def)
  have incr: "core (snd (on_rds_res (r_incr (seq_key sid)) s)) = core s" for sid and s :: "'a im_scheme"
    by (auto simp: on_rds_res_def r_incr_def core_def redis_simps seq_key_def split: prod.split option.split rvalue.split)
  show ?thesis
    unfolding push_number_def nextSequence_def ensureSequenceInitialized_def Let_def
    by (intro keeps_if keeps_ok keeps_err keeps_then_ok keeps_query assms keeps_exec_core of_core_submitted
        keeps_rds_core seed incr)
qed

lemma submitted_fresh:
  assumes env: "relies env (submitted h u f)" and g: "carries h u f g" and s: "submitted h u f s"
  shows "wp (push_fresh h env g) (\<lambda>_. submitted h u f) s"
proof -
  let ?I = "submitted h u f"
  let ?g = "if SessionId g = [] then g\<lparr>SessionId := buildSessionID (From g) (To g) (ToType g)\<rparr> else g"
  have named: "carries h u f ?g" "SessionId ?g = session_for u f"
    using g by (auto simp: carries_def session_for_def)
  have fail: "wp (fail_release h env g' e) (\<lambda>_. ?I) s'" if "?I s'" for g' e s'
    unfolding fail_release_def by (rule keeps_wp [where I = ?I]) (intro keeps_ignore keeps_err submitted_records env that)+
  have perm: "wp (validateSendPermission h env g') (\<lambda>_. ?I) s" for g'
    by (rule keeps_wp [OF keeps_validateSendPermission [OF env] s])
  have canon: "wp (if has_db h then CanonicalizeMessage h env x y (Body ?g) else ok (Body ?g))
      (\<lambda>r s'. ?I s' \<and> (\<forall>b. r = Inr b \<longrightarrow> carries h u f (?g\<lparr>Body := b\<rparr>))) s'" if "?I s'" for x y s'
  proof -
    have "wp (if has_db h then CanonicalizeMessage h env x y (Body ?g) else ok (Body ?g))
      (\<lambda>r _. \<forall>b. r = Inr b \<longrightarrow> attachment_ref h (Body ?g) = None \<longrightarrow> b = Body ?g) s'"
      by (rule wp_if [OF canonical_body]) (simp add: wp_ok)
    from wp_conj [OF keeps_wp [OF keeps_if [OF keeps_CanonicalizeMessage [OF env] keeps_ok] that] this]
    show ?thesis by (rule wp_mono) (use named(1) in \<open>auto simp: carries_def\<close>)
  qed
  have num: "wp (push_number h env g') (\<lambda>r s'. ?I s' \<and> (\<forall>x. r = Inr x \<longrightarrow> carries h u f x \<and> SessionId x = session_for u f)) s'"
    if "?I s'" "carries h u f g'" "SessionId g' = session_for u f" for g' s'
    using that
    by (intro wp_mono [OF wp_conj [OF keeps_wp [OF submitted_number [OF env]] number_in_flight [OF that(2)]]]) auto
  have res: "wp (resolveRecipients h env g') (\<lambda>_. ?I) s'" if "?I s'" for g' s'
    by (rule keeps_wp [OF keeps_resolveRecipients [OF env] that])
  have named_id: "carries h u f (if MessageId (x\<lparr>SentAt := t\<rparr>) = [] then x\<lparr>SentAt := t, MessageId := m\<rparr> else x\<lparr>SentAt := t\<rparr>)
      \<and> SessionId (if MessageId (x\<lparr>SentAt := t\<rparr>) = [] then x\<lparr>SentAt := t, MessageId := m\<rparr> else x\<lparr>SentAt := t\<rparr>) = session_for u f"
    if "carries h u f x" "SessionId x = session_for u f" for x t m
    using that by (auto simp: carries_def)
  show ?thesis
    unfolding push_fresh_def Let_def
    apply (rule wp_bindI [OF perm], rule wp_case_sum, simp add: fail)
    apply (rule wp_bindI [OF canon], assumption, rule wp_case_sum, simp add: fail)
    apply (rule wp_bindI [OF num], blast, blast, use named(2) in simp)
    apply (rule wp_case_sum, simp add: fail)
    apply (intro wp_bind wp_clock)
    apply (rule wp_ignoreI [OF keeps_wp [OF submitted_records(3) [OF env]]])
       apply (use named_id in blast)
      apply (use named_id in blast)
     apply blast
    apply (rule wp_bindI [OF res], assumption, rule wp_case_sum, simp add: fail)
    apply (rule keeps_wp [OF submitted_persist [OF env]])
      apply (use named_id in blast)
     apply (use named_id in blast)
    apply assumption
    done
qed

lemma PushMessage_submitted:
  assumes env: "relies env (submitted h u f)" and s: "submitted h u f s" and f: "unmarshal h content = Inr f"
  shows "wp (PushMessage h env u content) (\<lambda>_. submitted h u f) s"
proof -
  let ?I = "submitted h u f"
  have fail: "wp (fail_release h env g' e) (\<lambda>_. ?I) s'" if "?I s'" for g' e s'
    unfolding fail_release_def by (rule keeps_wp [where I = ?I]) (intro keeps_ignore keeps_err submitted_records env that)+
  have reserved: "wp (push_reserved h env g) (\<lambda>_. ?I) s'" if "?I s'" "carries h u f g" for g s'
    unfolding push_reserved_def
    by (rule wp_bindI [OF keeps_wp [OF keeps_load [OF env] that(1)]], rule wp_case_sum, simp add: fail, rule wp_case_option)
       (simp_all add: submitted_fresh [OF env that(2)] keeps_wp [OF submitted_existing [OF env]])
  have trace: "wp (if TraceId g = [] then draw (fresh_id h) else State_Monad.return (TraceId g)) (\<lambda>_. ?I) s" for g
    using s by (intro wp_if wp_draw wp_return)
  show ?thesis
  proof (cases "normalizeFrame u f")
    case (Inl e)
    then show ?thesis using s by (auto simp: PushMessage_def f intro!: wp_if wp_ok wp_err)
  next
    case (Inr g)
    let ?g = "\<lambda>t. if ClientMsgId (g\<lparr>TraceId := t\<rparr>) = [] then g\<lparr>TraceId := t, ClientMsgId := MessageId (g\<lparr>TraceId := t\<rparr>)\<rparr>
        else g\<lparr>TraceId := t\<rparr>"
    have "ToType g = frame_type f"
      using Inr by (auto simp: normalizeFrame_def frame_type_def Let_def split: if_splits)
    then have flight: "carries h u f (?g t)" for t
      using normalizeFrame_Inr [OF Inr] by (auto simp: carries_def client_id_def)
    show ?thesis
      unfolding PushMessage_def f sum.case Inr Let_def
      apply (rule wp_if, rule wp_ok, rule s)
      apply (rule wp_bindI [OF trace])
      apply (rule wp_if, rule wp_err, assumption)
      apply (rule wp_then_okI [OF reserve_in_flight [OF env _ flight]], assumption, simp)
      apply (rule wp_case_prod, rule wp_if)
       apply (rule wp_ok, simp)
      apply (rule reserved)
       apply blast
      apply blast
      done
  qed
qed

section \<open>Properties\<close>

text \<open>C2. No message without a relation: while the tables never allow \<open>u\<close> to write to \<open>v\<close> (no normal friendship, or no
  active membership that is unmuted at a time the clock shows), no call of \<open>PushMessage\<close>, whoever makes
  it and with whatever content, stores a message from \<open>u\<close> to \<open>v\<close>, in every configuration and under every failure.\<close>

theorem unrelated_never_stored:
  assumes "relies env (barred env u tt v)" "barred env u tt v w"
  shows "wp (PushMessage h env sender content) (\<lambda>_ s. \<forall>r\<in>set (msgs s). \<not> addressed u tt v r) w"
  by (rule wp_mono [OF keeps_wp [OF PushMessage_keeps [OF assms(1) barred_reads barred_fresh [OF assms(1)]] assms(2)]])
     (simp add: barred_def)

theorem unrelated_never_stored_witness:
  "wp (PushMessage demo (calm 9) ''al'' ''p3'') (\<lambda>_ s. \<forall>r\<in>set (msgs s). \<not> addressed ''al'' ''group'' ''g1'' r)
     (demo_world\<lparr>member_rows := [\<lparr>gm_group = ''g1'', gm_user = ''al'', gm_role = ''member'', gm_mute_until = 10,
        gm_status = ''active'', gm_joined_at = 1\<rparr>]\<rparr>)"
  by (rule unrelated_never_stored) (simp_all add: barred_def may_send_def demo_world_simps)

text \<open>C22. A message is stored as it was submitted: whatever calls fail and whatever earlier attempts left, every row of the sender with the
  client id of the frame has the frame's target and type, its body unless that names an attachment,
  and the conversation, the sequence number and the message id the frame names, or where it names none the
  conversation of sender and target; and when the production service accepts the frame, such a row is
  stored.  So it is the client who chooses the conversation of a message, although the permission check looks
  at sender and target only.  What other processes store and reserve under the same client id must come from the same frame.\<close>

theorem stored_as_submitted:
  assumes "production h" "relies env accept_inv" "\<And>c. relies env (durable u c)" "CHR '':'' \<notin> set u"
    and "relies env (submitted h u f)" "accept_inv s" "submitted h u f s"
    and "unmarshal h content = Inr f" "\<not> control_frame f"
  shows "wp (PushMessage h env u content) (\<lambda>r s'. submitted h u f s' \<and> (r = Inr () \<longrightarrow>
      (\<exists>row\<in>set (msgs s'). ms_from row = u \<and> ms_client_msg_id row = Some (client_id f) \<and> as_submitted h u f row))) s"
  by (rule wp_mono [OF wp_conj [OF PushMessage_submitted [OF assms(5,7,8)] PushMessage_accepts [OF assms(1-4,6)]]])
     (use assms(8,9) in \<open>auto simp: durable_def submitted_def\<close>)

text \<open>The conversation the stored message to \<open>bo\<close> is in is that of two other users, which its frame names.\<close>

theorem stored_as_submitted_witness:
  "session_for ''al'' demo_forged = ''c2c:cy:di'' \<and>
   wp (PushMessage demo (fails_from 15 1000) ''al'' ''p4'') (\<lambda>r s'. submitted demo ''al'' demo_forged s' \<and> (r = Inr () \<longrightarrow>
      (\<exists>row\<in>set (msgs s'). ms_from row = ''al'' \<and> ms_client_msg_id row = Some (client_id demo_forged) \<and> as_submitted demo ''al'' demo_forged row)))
     demo_world"
proof
  show "session_for ''al'' demo_forged = ''c2c:cy:di''" by (simp add: session_for_def demo_run)
  show "wp (PushMessage demo (fails_from 15 1000) ''al'' ''p4'') (\<lambda>r s'. submitted demo ''al'' demo_forged s' \<and> (r = Inr () \<longrightarrow>
      (\<exists>row\<in>set (msgs s'). ms_from row = ''al'' \<and> ms_client_msg_id row = Some (client_id demo_forged) \<and> as_submitted demo ''al'' demo_forged row)))
     demo_world"
    by (rule stored_as_submitted)
       (simp_all add: production_demo accept_inv_demo submitted_def demo_world_simps empty_redis_def demo_simps demo_run control_frame_def empty_wire_def)
qed

end
