(* ===== verification/Ai_Assistant.thy ===== *)
theory Ai_Assistant
  imports Knowledge Push_Safety
begin

text \<open>
  The AI assistant: the providers (internal/ai/provider.go, mock_provider.go, openai_provider.go, fallback_provider.go with
  the attempts of attempt.go), group summaries (summary_service.go), questions to the knowledge base
  (ask_service.go with audit.go), and the bot that answers messages (internal/logic/bot.go and
  cmd/logic/internal/svc/ai_bot_responder.go).  What is posted to the remote model is part of the
  state; its replies, the JSON codecs, \<open>strconv.Quote\<close> and the deadline of a context are parameters.  The JSON texts of
  lists in the tables are represented by the lists.
\<close>

section \<open>Data\<close>

record ai_message =
  am_MessageID :: string
  am_ConversationID :: string
  am_Seq :: int
  am_FromUID :: string
  am_Content :: string
  am_CreatedAt :: int

record summary_request =
  sq_GroupID :: string
  sq_ConversationID :: string
  sq_OperatorID :: string
  sq_Messages :: "ai_message list"
  sq_IncludeTodos :: bool
  sq_IncludeRisks :: bool

record todo_item =
  td_Title :: string
  td_OwnerID :: string
  td_SourceSeq :: int

record risk_item =
  rk_Level :: string
  rk_Description :: string
  rk_SourceSeq :: int

record summary_result =
  su_SummaryID :: string
  su_GroupID :: string
  su_ConversationID :: string
  su_MessageStartSeq :: int
  su_MessageEndSeq :: int
  su_Summary :: string
  su_Todos :: "todo_item list"
  su_Risks :: "risk_item list"
  su_Provider :: string
  su_CreatedAt :: int

record ask_request =
  aq_OperatorID :: string
  aq_Question :: string
  aq_Sources :: "knowledge_source list"

record ask_result =
  ar_AnswerID :: string
  ar_Question :: string
  ar_Answer :: string
  ar_Sources :: "knowledge_source list"
  ar_KnowledgeHits :: int
  ar_Provider :: string
  ar_CreatedAt :: int

record provider_attempt =
  pa_Provider :: string
  pa_Status :: string
  pa_DurationMs :: int
  pa_ErrorMessage :: string
  pa_CreatedAt :: int

section \<open>State\<close>

record summary_row =
  sm_operator :: string
  sm_result :: summary_result

record call_log =
  cl_CallID :: string
  cl_Provider :: string
  cl_GroupID :: string
  cl_ConversationID :: string
  cl_OperatorID :: string
  cl_MessageCount :: int
  cl_MessageStartSeq :: int
  cl_MessageEndSeq :: int
  cl_DurationMs :: int
  cl_Status :: string
  cl_ErrorMessage :: string
  cl_CreatedAt :: int

record attempt_row =
  at_AttemptID :: string
  at_CallID :: string
  at_Order :: nat
  at_Attempt :: provider_attempt

record qa_row =
  qa_answer_id :: string
  qa_operator :: string
  qa_question :: string
  qa_answer :: string
  qa_sources :: "knowledge_source list"
  qa_provider :: string
  qa_knowledge_hits :: int
  qa_status :: string
  qa_error_message :: string
  qa_created_at :: int

text \<open>\<open>sent_out\<close> holds the address and body of every request to a remote model, in order.\<close>

record ai_db = im +
  ai_summaries :: "summary_row list"
  ai_calls :: "call_log list"
  ai_attempts :: "attempt_row list"
  ai_answers :: "qa_row list"
  sent_out :: "(string \<times> string) list"

record ai_cfg =
  uni :: unicode
  quote :: "string \<Rightarrow> string"
  chat_body :: "string \<Rightarrow> string \<Rightarrow> string \<Rightarrow> string"
  valid_url :: "string \<Rightarrow> bool"
  http_reply :: "nat \<Rightarrow> int \<times> string \<times> string"
  parse_chat :: "string \<Rightarrow> gerr + string list"
  parse_summary :: "string \<Rightarrow> bool \<times> string \<times> todo_item list \<times> risk_item list"
  parse_answer :: "string \<Rightarrow> bool \<times> string \<times> (string \<times> string) list"
  ctx_done :: "nat \<Rightarrow> gerr option"
  rand4 :: "nat \<Rightarrow> string"

section \<open>The mock provider\<close>

definition containsAny :: "unicode \<Rightarrow> string \<Rightarrow> string list \<Rightarrow> bool" where
  "containsAny u value keywords = list_ex (\<lambda>k. contains_sub (lower_text u value) (lower_text u k)) keywords"

definition buildMockSummary :: "ai_message list \<Rightarrow> string" where
  "buildMockSummary messages =
     (let parts = take 3 (map (\<lambda>t. truncateRunes t 32) (filter (\<lambda>t. t \<noteq> []) (map (\<lambda>m. trim_space (am_Content m)) messages)));
          count = bytes [230, 156, 172, 230, 172, 161, 231, 190, 164, 232, 129, 138, 229, 133, 177] @ '' '' @ itoa (int (length messages)) in
      if parts = [] then count @ '' '' @ bytes [230, 157, 161, 230, 182, 136, 230, 129, 175, 239, 188, 140, 228, 184, 187, 232, 166, 129, 228, 184, 186, 233, 157, 158, 230, 150, 135, 230, 156, 172, 230, 136, 150, 231, 169, 186, 229, 134, 133, 229, 174, 185, 227, 128, 130]
      else count @ '' '' @ bytes [230, 157, 161, 230, 182, 136, 230, 129, 175, 239, 188, 140, 230, 160, 184, 229, 191, 131, 229, 134, 133, 229, 174, 185, 229, 140, 133, 230, 139, 172, 239, 188, 154] @ join_with (bytes [239, 188, 155]) parts @ bytes [227, 128, 130])"

definition todo_keywords :: "string list" where
  "todo_keywords = [''todo'', ''TODO'', bytes [229, 190, 133, 229, 138, 158], bytes [233, 156, 128, 232, 166, 129], bytes [232, 175, 183], bytes [232, 180, 159, 232, 180, 163], bytes [230, 152, 142, 229, 164, 169], bytes [228, 187, 138, 229, 164, 169]]"

definition risk_keywords :: "string list" where
  "risk_keywords = [bytes [233, 163, 142, 233, 153, 169], bytes [229, 164, 177, 232, 180, 165], bytes [230, 138, 165, 233, 148, 153], bytes [229, 187, 182, 232, 191, 159], bytes [232, 182, 133, 230, 151, 182], ''blocked'', ''error'', ''fail'']"

definition mentioning :: "unicode \<Rightarrow> string list \<Rightarrow> ai_message list \<Rightarrow> ai_message list" where
  "mentioning u keywords messages =
     take 5 (filter (\<lambda>m. trim_space (am_Content m) \<noteq> [] \<and> containsAny u (trim_space (am_Content m)) keywords) messages)"

definition extractMockTodos :: "unicode \<Rightarrow> ai_message list \<Rightarrow> todo_item list" where
  "extractMockTodos u messages = map (\<lambda>m. \<lparr>td_Title = truncateRunes (trim_space (am_Content m)) 80, td_OwnerID = am_FromUID m,
     td_SourceSeq = am_Seq m\<rparr>) (mentioning u todo_keywords messages)"

definition extractMockRisks :: "unicode \<Rightarrow> ai_message list \<Rightarrow> risk_item list" where
  "extractMockRisks u messages = map (\<lambda>m. \<lparr>rk_Level = ''medium'', rk_Description = truncateRunes (trim_space (am_Content m)) 80,
     rk_SourceSeq = am_Seq m\<rparr>) (mentioning u risk_keywords messages)"

definition buildMockAnswer :: "string \<Rightarrow> knowledge_source list \<Rightarrow> string" where
  "buildMockAnswer question sources =
     (let chosen = take 2 (filter (\<lambda>k. trim_space (ks_Snippet k) \<noteq> []) sources) in
      if chosen = [] then bytes [231, 159, 165, 232, 175, 134, 229, 186, 147, 228, 184, 173, 230, 137, 190, 229, 136, 176, 228, 186, 134, 231, 155, 184, 229, 133, 179, 230, 150, 135, 230, 161, 163, 239, 188, 140, 228, 189, 134, 230, 178, 161, 230, 156, 137, 230, 143, 144, 229, 143, 150, 229, 136, 176, 230, 156, 137, 230, 149, 136, 230, 145, 152, 232, 166, 129, 239, 188, 140, 232, 175, 183, 231, 155, 180, 230, 142, 165, 230, 159, 165, 231, 156, 139, 230, 150, 135, 230, 161, 163, 229, 142, 159, 230, 150, 135, 227, 128, 130]
      else bytes [233, 146, 136, 229, 175, 185, 233, 151, 174, 233, 162, 152, 226, 128, 156] @ truncateRunes (trim_space question) 64 @ bytes [226, 128, 157, 239, 188, 140, 231, 159, 165, 232, 175, 134, 229, 186, 147, 233, 135, 140, 231, 154, 132, 231, 155, 184, 229, 133, 179, 231, 187, 147, 232, 174, 186, 230, 152, 175, 239, 188, 154]
        @ join_with (bytes [239, 188, 155]) (map (\<lambda>k. truncateRunes (trim_space (ks_Snippet k)) 80) chosen)
        @ bytes [227, 128, 130, 229, 187, 186, 232, 174, 174, 228, 188, 152, 229, 133, 136, 230, 159, 165, 231, 156, 139, 239, 188, 154] @ join_with (bytes [227, 128, 129]) (map ks_Title chosen) @ bytes [227, 128, 130])"

definition empty_summary :: "summary_request \<Rightarrow> string \<Rightarrow> summary_result" where
  "empty_summary req provider = \<lparr>su_SummaryID = [], su_GroupID = sq_GroupID req, su_ConversationID = sq_ConversationID req,
     su_MessageStartSeq = 0, su_MessageEndSeq = 0, su_Summary = [], su_Todos = [], su_Risks = [], su_Provider = provider, su_CreatedAt = 0\<rparr>"

definition covering :: "ai_message list \<Rightarrow> summary_result \<Rightarrow> summary_result" where
  "covering messages r = (if messages = [] then r
     else r\<lparr>su_MessageStartSeq := am_Seq (hd messages), su_MessageEndSeq := am_Seq (last messages)\<rparr>)"

definition mock_summary :: "ai_cfg \<Rightarrow> summary_request \<Rightarrow> summary_result" where
  "mock_summary c req =
     (let r = empty_summary req ''mock'' in
      if sq_Messages req = [] then r\<lparr>su_Summary := bytes [230, 156, 172, 230, 172, 161, 231, 190, 164, 232, 129, 138, 230, 154, 130, 230, 151, 160, 229, 143, 175, 230, 128, 187, 231, 187, 147, 230, 182, 136, 230, 129, 175, 227, 128, 130]\<rparr>
      else (covering (sq_Messages req) r)\<lparr>su_Summary := buildMockSummary (sq_Messages req),
        su_Todos := (if sq_IncludeTodos req then extractMockTodos (uni c) (sq_Messages req) else []),
        su_Risks := (if sq_IncludeRisks req then extractMockRisks (uni c) (sq_Messages req) else [])\<rparr>)"

definition mock_answer :: "ask_request \<Rightarrow> ask_result" where
  "mock_answer req = \<lparr>ar_AnswerID = [], ar_Question = aq_Question req,
     ar_Answer = (if aq_Sources req = [] then bytes [231, 159, 165, 232, 175, 134, 229, 186, 147, 228, 184, 173, 230, 154, 130, 230, 156, 170, 230, 137, 190, 229, 136, 176, 231, 155, 184, 229, 133, 179, 232, 181, 132, 230, 150, 153, 239, 188, 140, 232, 175, 183, 229, 176, 157, 232, 175, 149, 230, 143, 144, 228, 190, 155, 230, 155, 180, 229, 133, 183, 228, 189, 147, 231, 154, 132, 230, 168, 161, 229, 157, 151, 229, 144, 141, 227, 128, 129, 233, 147, 190, 232, 183, 175, 230, 136, 150, 229, 133, 179, 233, 148, 174, 232, 175, 141, 227, 128, 130]
       else buildMockAnswer (aq_Question req) (aq_Sources req)),
     ar_Sources = aq_Sources req, ar_KnowledgeHits = int (length (aq_Sources req)), ar_Provider = ''mock'', ar_CreatedAt = 0\<rparr>"

section \<open>The OpenAI-compatible provider\<close>

record openai =
  oa_name :: string
  oa_model :: string
  oa_baseURL :: string
  oa_apiKey :: string

definition NewOpenAICompatibleProvider :: "openai \<Rightarrow> openai" where
  "NewOpenAICompatibleProvider o1 =
     (let name = trim_space (oa_name o1); model = trim_space (oa_model o1);
          baseURL = rev (dropWhile (\<lambda>ch. ch = CHR ''/'') (rev (trim_space (oa_baseURL o1)))) in
      \<lparr>oa_name = (if name = [] then ''openai-compatible'' else name), oa_model = (if model = [] then ''gpt-4o-mini'' else model),
       oa_baseURL = (if baseURL = [] then ''https://api.openai.com/v1'' else baseURL), oa_apiKey = trim_space (oa_apiKey o1)\<rparr>)"

definition buildSummaryPrompt :: "ai_cfg \<Rightarrow> summary_request \<Rightarrow> string" where
  "buildSummaryPrompt c req =
     bytes [232, 175, 183, 230, 128, 187, 231, 187, 147, 228, 184, 139, 233, 157, 162, 231, 154, 132, 231, 190, 164, 232, 129, 138, 230, 182, 136, 230, 129, 175, 239, 188, 140, 232, 190, 147, 229, 135, 186] @ '' JSON'' @ bytes [239, 188, 154] @ ''{'' @ bytes [34] @ ''summary'' @ bytes [34] @ '':'' @ bytes [34] @ ''...'' @ bytes [34] @ '','' @ bytes [34] @ ''todos'' @ bytes [34] @ '':[{'' @ bytes [34] @ ''title'' @ bytes [34] @ '':'' @ bytes [34] @ ''...'' @ bytes [34] @ '','' @ bytes [34] @ ''owner_id'' @ bytes [34] @ '':'' @ bytes [34] @ ''...'' @ bytes [34] @ '','' @ bytes [34] @ ''source_seq'' @ bytes [34] @ '':1}],'' @ bytes [34] @ ''risks'' @ bytes [34] @ '':[{'' @ bytes [34] @ ''level'' @ bytes [34] @ '':'' @ bytes [34] @ ''low|medium|high'' @ bytes [34] @ '','' @ bytes [34] @ ''description'' @ bytes [34] @ '':'' @ bytes [34] @ ''...'' @ bytes [34] @ '','' @ bytes [34] @ ''source_seq'' @ bytes [34] @ '':1}]}'' @ bytes [227, 128, 130, 10] @ (if sq_IncludeTodos req then [] else ''todos '' @ bytes [229, 191, 133, 233, 161, 187, 228, 184, 186, 231, 169, 186, 230, 149, 176, 231, 187, 132, 227, 128, 130, 10]) @ (if sq_IncludeRisks req then [] else ''risks '' @ bytes [229, 191, 133, 233, 161, 187, 228, 184, 186, 231, 169, 186, 230, 149, 176, 231, 187, 132, 227, 128, 130, 10]) @ concat (map (\<lambda>m. ''seq='' @ itoa (am_Seq m) @ '' from='' @ am_FromUID m @ '' content='' @ quote c (am_Content m) @ newline) (sq_Messages req))"

definition buildAskPrompt :: "ai_cfg \<Rightarrow> ask_request \<Rightarrow> string" where
  "buildAskPrompt c req =
     bytes [232, 175, 183, 229, 143, 170, 229, 159, 186, 228, 186, 142, 228, 184, 139, 233, 157, 162, 231, 154, 132, 233, 161, 185, 231, 155, 174, 232, 181, 132, 230, 150, 153, 229, 155, 158, 231, 173, 148, 233, 151, 174, 233, 162, 152, 239, 188, 140, 232, 190, 147, 229, 135, 186] @ '' JSON'' @ bytes [239, 188, 154] @ ''{'' @ bytes [34] @ ''answer'' @ bytes [34] @ '':'' @ bytes [34] @ ''...'' @ bytes [34] @ '','' @ bytes [34] @ ''sources'' @ bytes [34] @ '':[{'' @ bytes [34] @ ''path'' @ bytes [34] @ '':'' @ bytes [34] @ ''...'' @ bytes [34] @ '','' @ bytes [34] @ ''title'' @ bytes [34] @ '':'' @ bytes [34] @ ''...'' @ bytes [34] @ ''}]}'' @ bytes [227, 128, 130, 10] @ (if aq_Sources req = [] then bytes [229, 189, 147, 229, 137, 141, 230, 178, 161, 230, 156, 137, 229, 145, 189, 228, 184, 173, 228, 187, 187, 228, 189, 149, 232, 181, 132, 230, 150, 153, 227, 128, 130, 229, 166, 130, 230, 158, 156, 232, 181, 132, 230, 150, 153, 228, 184, 141, 232, 182, 179, 239, 188, 140, 232, 175, 183, 230, 152, 142, 231, 161, 174, 229, 155, 158, 231, 173, 148, 231, 159, 165, 232, 175, 134, 229, 186, 147, 230, 156, 170, 229, 145, 189, 228, 184, 173, 227, 128, 130, 10] else []) @ bytes [233, 151, 174, 233, 162, 152, 239, 188, 154] @ aq_Question req @ newline
     @ concat (map (\<lambda>(i, k). bytes [232, 181, 132, 230, 150, 153] @ itoa (int i + 1) @ '' path='' @ ks_Path k @ '' title='' @ ks_Title k @ '' snippet='' @ quote c (ks_Snippet k) @ newline)
         (enumerate 0 (aq_Sources req)))"

definition summary_system :: string where
  "summary_system = bytes [228, 189, 160, 230, 152, 175, 228, 188, 129, 228, 184, 154, 231, 160, 148, 229, 143, 145, 229, 141, 143, 229, 144, 140] @ '' IM '' @ bytes [231, 154, 132, 231, 190, 164, 232, 129, 138, 229, 138, 169, 230, 137, 139, 227, 128, 130, 229, 143, 170, 232, 190, 147, 229, 135, 186] @ '' JSON'' @ bytes [239, 188, 140, 228, 184, 141, 232, 166, 129, 232, 190, 147, 229, 135, 186] @ '' Markdown'' @ bytes [227, 128, 130]"

definition ask_system :: string where
  "ask_system = bytes [228, 189, 160, 230, 152, 175, 228, 188, 129, 228, 184, 154, 231, 160, 148, 229, 143, 145, 229, 141, 143, 229, 144, 140] @ '' IM '' @ bytes [231, 154, 132, 231, 159, 165, 232, 175, 134, 229, 186, 147, 233, 151, 174, 231, 173, 148, 229, 138, 169, 230, 137, 139, 227, 128, 130, 229, 143, 170, 232, 131, 189, 229, 159, 186, 228, 186, 142, 231, 187, 153, 229, 174, 154, 232, 181, 132, 230, 150, 153, 229, 155, 158, 231, 173, 148, 239, 188, 140, 232, 190, 147, 229, 135, 186] @ '' JSON'' @ bytes [239, 188, 140, 228, 184, 141, 232, 166, 129, 232, 190, 147, 229, 135, 186] @ '' Markdown'' @ bytes [227, 128, 130]"

text \<open>The call both operations make; the result is the content of the first choice.\<close>

definition chat :: "ai_cfg \<Rightarrow> ('b ai_db_scheme) env \<Rightarrow> openai \<Rightarrow> string \<Rightarrow> string \<Rightarrow> ('b ai_db_scheme, gerr + string) io" where
  "chat c env p system user =
     (if oa_apiKey p = [] then err (Msg ''ai api key is required for openai-compatible provider'')
      else let url = oa_baseURL p @ ''/chat/completions'' in
      if \<not> valid_url c url then err (Msg ''invalid URL'')
      else then_ok (update_w env (\<lambda>s. s\<lparr>sent_out := sent_out s @ [(url, chat_body c (oa_model p) system user)]\<rparr>)) (\<lambda>_.
        State_Monad.bind (draw (http_reply c)) (\<lambda>(code, status, body).
          if code \<ge> 300 then err (Msg (''ai provider returned '' @ status))
          else (case parse_chat c body of
            Inl e \<Rightarrow> err e
          | Inr [] \<Rightarrow> err (Msg ''ai provider returned no choices'')
          | Inr (content # _) \<Rightarrow> ok content))))"

text \<open>A reply that is no JSON, or whose text is blank, is taken as it is; fields decoded before an error stay.\<close>

definition parseOpenAISummary :: "ai_cfg \<Rightarrow> summary_request \<Rightarrow> string \<Rightarrow> string \<Rightarrow> summary_result" where
  "parseOpenAISummary c req raw provider = (case parse_summary c raw of (parsed, summary, todos, risks) \<Rightarrow>
     (covering (sq_Messages req) (empty_summary req provider))
       \<lparr>su_Summary := (if \<not> parsed \<or> trim_space summary = [] then trim_space raw else summary),
        su_Todos := (if sq_IncludeTodos req then todos else []), su_Risks := (if sq_IncludeRisks req then risks else [])\<rparr>)"

definition matchAnswerSources :: "knowledge_source list \<Rightarrow> (string \<times> string) list \<Rightarrow> knowledge_source list" where
  "matchAnswerSources candidates requested = concat (map (\<lambda>(path, title).
     case find (\<lambda>k. ks_Path k = path \<or> (title \<noteq> [] \<and> ks_Title k = title)) candidates of Some k \<Rightarrow> [k] | None \<Rightarrow> []) requested)"

definition parseOpenAIAnswer :: "ai_cfg \<Rightarrow> ask_request \<Rightarrow> string \<Rightarrow> string \<Rightarrow> ask_result" where
  "parseOpenAIAnswer c req raw provider = (case parse_answer c raw of (parsed, answer, requested) \<Rightarrow>
     let matched = matchAnswerSources (aq_Sources req) requested; sources = (if matched = [] then aq_Sources req else matched) in
     \<lparr>ar_AnswerID = [], ar_Question = aq_Question req, ar_Answer = (if \<not> parsed \<or> trim_space answer = [] then trim_space raw else answer),
      ar_Sources = sources, ar_KnowledgeHits = (if aq_Sources req = [] then int (length sources) else int (length (aq_Sources req))),
      ar_Provider = provider, ar_CreatedAt = 0\<rparr>)"

section \<open>Providers\<close>

datatype provider = Mock | OpenAI openai | Fallback provider provider

definition NewProviderWithOptions :: "unicode \<Rightarrow> openai \<Rightarrow> bool \<Rightarrow> provider" where
  "NewProviderWithOptions u opts fallbackToMock =
     (let name = lower_text u (trim_space (oa_name opts)) in
      if name \<in> {''openai'', ''openai-compatible'', ''siliconflow'', ''deepseek''} then
        let baseURL = (if name = ''deepseek'' \<and> trim_space (oa_baseURL opts) = [] then ''https://api.deepseek.com'' else oa_baseURL opts);
            model = (if name = ''deepseek'' \<and> trim_space (oa_model opts) = [] then ''deepseek-v4-flash'' else oa_model opts);
            primary = OpenAI (NewOpenAICompatibleProvider (opts\<lparr>oa_name := name, oa_baseURL := baseURL, oa_model := model\<rparr>)) in
        (if fallbackToMock then Fallback primary Mock else primary)
      else Mock)"

primrec provider_name :: "provider \<Rightarrow> string" where
  "provider_name Mock = ''mock''"
| "provider_name (OpenAI p) = oa_name p"
| "provider_name (Fallback primary fallback) = provider_name primary"

text \<open>\<open>RecordProviderAttempt\<close> at the end of a call that began at \<open>start\<close>.\<close>

definition attempted :: "('b ai_db_scheme) env \<Rightarrow> string \<Rightarrow> int \<Rightarrow> gerr + 'r \<Rightarrow> ('b ai_db_scheme, provider_attempt list \<times> (gerr + 'r)) io" where
  "attempted env name start r =
     State_Monad.bind (clock env) (\<lambda>stop. State_Monad.bind (clock env) (\<lambda>now.
       State_Monad.return ([\<lparr>pa_Provider = name, pa_Status = (case r of Inl _ \<Rightarrow> ''error'' | Inr _ \<Rightarrow> ''success''), pa_DurationMs = stop - start,
         pa_ErrorMessage = RedactSensitive (case r of Inl e \<Rightarrow> err_text e | Inr _ \<Rightarrow> []), pa_CreatedAt = now\<rparr>], r)))"

definition call_mock :: "ai_cfg \<Rightarrow> ('b ai_db_scheme) env \<Rightarrow> 'r \<Rightarrow> ('b ai_db_scheme, provider_attempt list \<times> (gerr + 'r)) io" where
  "call_mock c env result =
     State_Monad.bind (clock env) (\<lambda>start. State_Monad.bind (draw (ctx_done c)) (\<lambda>cancelled.
       attempted env ''mock'' start (case cancelled of Some e \<Rightarrow> Inl e | None \<Rightarrow> Inr result)))"

definition call_openai :: "ai_cfg \<Rightarrow> ('b ai_db_scheme) env \<Rightarrow> openai \<Rightarrow> string \<Rightarrow> string \<Rightarrow> (string \<Rightarrow> 'r)
    \<Rightarrow> ('b ai_db_scheme, provider_attempt list \<times> (gerr + 'r)) io" where
  "call_openai c env p system user parse =
     State_Monad.bind (clock env) (\<lambda>start. State_Monad.bind (chat c env p system user) (\<lambda>r.
       attempted env (oa_name p) start (case r of Inl e \<Rightarrow> Inl e | Inr content \<Rightarrow> Inr (parse content))))"

text \<open>\<open>FallbackProvider\<close>: the second provider is asked when the first one failed, and its result is marked.\<close>

definition with_fallback :: "string \<Rightarrow> string \<Rightarrow> (string \<Rightarrow> 'r \<Rightarrow> 'r) \<Rightarrow> ('w, provider_attempt list \<times> (gerr + 'r)) io
    \<Rightarrow> ('w, provider_attempt list \<times> (gerr + 'r)) io \<Rightarrow> ('w, provider_attempt list \<times> (gerr + 'r)) io" where
  "with_fallback name1 name2 mark first second =
     State_Monad.bind first (\<lambda>(tries, r). case r of
       Inr x \<Rightarrow> State_Monad.return (tries, Inr x)
     | Inl e \<Rightarrow> State_Monad.bind second (\<lambda>(tries2, r2). State_Monad.return (tries @ tries2, case r2 of
           Inl e2 \<Rightarrow> Inl (Wrapped e (name1 @ '' failed: '' @ err_text e @ ''; fallback failed: '' @ err_text e2))
         | Inr x \<Rightarrow> Inr (mark (name1 @ '':fallback:'' @ name2) x))))"

primrec provider_summarize :: "ai_cfg \<Rightarrow> ('b ai_db_scheme) env \<Rightarrow> summary_request \<Rightarrow> provider
    \<Rightarrow> ('b ai_db_scheme, provider_attempt list \<times> (gerr + summary_result)) io" where
  "provider_summarize c env req Mock = call_mock c env (mock_summary c req)"
| "provider_summarize c env req (OpenAI p) =
     call_openai c env p summary_system (buildSummaryPrompt c req) (\<lambda>raw. parseOpenAISummary c req raw (oa_name p))"
| "provider_summarize c env req (Fallback p q) = with_fallback (provider_name p) (provider_name q) (\<lambda>n r. r\<lparr>su_Provider := n\<rparr>)
     (provider_summarize c env req p) (provider_summarize c env req q)"

primrec provider_answer :: "ai_cfg \<Rightarrow> ('b ai_db_scheme) env \<Rightarrow> ask_request \<Rightarrow> provider
    \<Rightarrow> ('b ai_db_scheme, provider_attempt list \<times> (gerr + ask_result)) io" where
  "provider_answer c env req Mock = call_mock c env (mock_answer req)"
| "provider_answer c env req (OpenAI p) =
     call_openai c env p ask_system (buildAskPrompt c req) (\<lambda>raw. parseOpenAIAnswer c req raw (oa_name p))"
| "provider_answer c env req (Fallback p q) = with_fallback (provider_name p) (provider_name q) (\<lambda>n r. r\<lparr>ar_Provider := n\<rparr>)
     (provider_answer c env req p) (provider_answer c env req q)"

section \<open>Audit\<close>

definition newAIRecordID :: "ai_cfg \<Rightarrow> string \<Rightarrow> int \<Rightarrow> ('b ai_db_scheme, string) io" where
  "newAIRecordID c label now = State_Monad.bind (draw (rand4 c)) (\<lambda>suffix.
     State_Monad.return ((if label = [] then ''ai'' else label) @ ''_'' @ itoa now @ ''_'' @ hex_encode suffix))"

definition ensureAttempts :: "('b ai_db_scheme) env \<Rightarrow> string \<Rightarrow> provider_attempt list \<Rightarrow> int \<Rightarrow> string \<Rightarrow> string
    \<Rightarrow> ('b ai_db_scheme, provider_attempt list) io" where
  "ensureAttempts env provider attempts durationMs status errMessage =
     (if attempts \<noteq> [] then State_Monad.return attempts
      else State_Monad.bind (clock env) (\<lambda>now. State_Monad.return [\<lparr>pa_Provider = provider, pa_Status = status, pa_DurationMs = durationMs,
        pa_ErrorMessage = errMessage, pa_CreatedAt = now\<rparr>]))"

text \<open>An \<open>INSERT\<close> that MySQL's strict mode refuses when a text has more characters than its column.\<close>

definition insert_fitting :: "('b ai_db_scheme) env \<Rightarrow> (string \<times> nat) list \<Rightarrow> ('b ai_db_scheme \<Rightarrow> 'r list)
    \<Rightarrow> (('r list \<Rightarrow> 'r list) \<Rightarrow> 'b ai_db_scheme \<Rightarrow> 'b ai_db_scheme) \<Rightarrow> 'r unique_key list \<Rightarrow> 'r \<Rightarrow> ('b ai_db_scheme, gerr + unit) io" where
  "insert_fitting env texts tbl set_tbl keys row = exec env (\<lambda>s.
     if list_ex (\<lambda>(t, n). n < rune_count t) texts then (Inl (Msg ''Error 1406 (22001): Data too long for column''), s)
     else run_insert tbl set_tbl (ins keys row) s)"

fun saveProviderAttempts :: "ai_cfg \<Rightarrow> ('b ai_db_scheme) env \<Rightarrow> string \<Rightarrow> nat \<Rightarrow> provider_attempt list \<Rightarrow> ('b ai_db_scheme, gerr + unit) io" where
  "saveProviderAttempts c env callID idx [] = ok ()"
| "saveProviderAttempts c env callID idx (a # rest) =
     State_Monad.bind (clock env) (\<lambda>now. State_Monad.bind (newAIRecordID c ''aia'' now) (\<lambda>i.
       let message = truncateRunes (RedactSensitive (pa_ErrorMessage a)) 512 in
       then_ok (insert_fitting env [(message, 512)] ai_attempts ai_attempts_update
           [(''ai_provider_attempt_logs.PRIMARY'', \<lambda>x y. at_AttemptID x = at_AttemptID y)]
           \<lparr>at_AttemptID = i, at_CallID = callID, at_Order = idx + 1, at_Attempt = a\<lparr>pa_ErrorMessage := message\<rparr>\<rparr>)
         (\<lambda>_. saveProviderAttempts c env callID (idx + 1) rest)))"

section \<open>Summaries\<close>

definition ErrGroupIDRequired :: gerr where "ErrGroupIDRequired = Msg ''group_id is required''"
definition ErrOperatorRequired :: gerr where "ErrOperatorRequired = Msg ''operator_id is required''"
definition ErrNoMessages :: gerr where "ErrNoMessages = Msg ''no group messages found''"
definition ErrNotMember :: gerr where "ErrNotMember = Msg ''user is not an active group member''"

definition BuildGroupConversationID :: "string \<Rightarrow> string" where
  "BuildGroupConversationID groupID0 =
     (let groupID = trim_space groupID0 in if has_prefix groupID ''group:'' then groupID else ''group:'' @ groupID)"

definition normalizeLimit :: "int \<Rightarrow> int \<Rightarrow> int" where
  "normalizeLimit limit0 maxMessages0 =
     (let maxMessages = (if maxMessages0 \<le> 0 then 100 else maxMessages0); limit = (if limit0 \<le> 0 then 50 else limit0) in
      if limit > maxMessages then maxMessages else limit)"

definition summary_member :: "('b im_scheme) env \<Rightarrow> string \<Rightarrow> string \<Rightarrow> ('b im_scheme, gerr + unit) io" where
  "summary_member env groupID userID =
     then_ok (query env (\<lambda>s. find (\<lambda>m. gm_group m = trim_prefix groupID ''group:'' \<and> gm_user m = userID) (member_rows s))) (\<lambda>found. case found of
       None \<Rightarrow> err ErrNotMember
     | Some m \<Rightarrow> State_Monad.bind (clock env) (\<lambda>now.
         if gm_status m \<noteq> ''active'' \<or> (gm_mute_until m > 0 \<and> gm_mute_until m > now) then err ErrNotMember else ok ()))"

definition newest_messages :: "string \<Rightarrow> int \<Rightarrow> 'b im_scheme \<Rightarrow> ai_message list" where
  "newest_messages conversationID limit s =
     rev (map (\<lambda>r. \<lparr>am_MessageID = ms_message_id r, am_ConversationID = ms_conversation_id r, am_Seq = ms_seq r, am_FromUID = ms_from r,
         am_Content = ms_content r, am_CreatedAt = ms_create_time r\<rparr>)
       (take (nat limit) (order_desc ms_seq (filter (\<lambda>r. ms_conversation_id r = conversationID \<and> ms_to_type r = ''group'') (msgs s)))))"

definition completeSummaryResult :: "ai_cfg \<Rightarrow> summary_result \<Rightarrow> string \<Rightarrow> string \<Rightarrow> string \<Rightarrow> ai_message list \<Rightarrow> int
    \<Rightarrow> ('b ai_db_scheme, summary_result) io" where
  "completeSummaryResult c r groupID conversationID provider messages now =
     State_Monad.bind (if su_SummaryID r = [] then newAIRecordID c ''ais'' now else State_Monad.return (su_SummaryID r)) (\<lambda>i.
       State_Monad.return (r\<lparr>su_SummaryID := i,
         su_GroupID := (if su_GroupID r = [] then groupID else su_GroupID r),
         su_ConversationID := (if su_ConversationID r = [] then conversationID else su_ConversationID r),
         su_Provider := (if su_Provider r = [] then provider else su_Provider r),
         su_CreatedAt := (if su_CreatedAt r = 0 then now else su_CreatedAt r),
         su_MessageStartSeq := (if messages \<noteq> [] \<and> su_MessageStartSeq r = 0 then am_Seq (hd messages) else su_MessageStartSeq r),
         su_MessageEndSeq := (if messages \<noteq> [] \<and> su_MessageEndSeq r = 0 then am_Seq (last messages) else su_MessageEndSeq r)\<rparr>))"

definition saveCallLog :: "('b ai_db_scheme) env \<Rightarrow> string \<Rightarrow> string \<Rightarrow> summary_request \<Rightarrow> summary_result option \<Rightarrow> int \<Rightarrow> string \<Rightarrow> string
    \<Rightarrow> ('b ai_db_scheme, gerr + unit) io" where
  "saveCallLog env callID provider req result durationMs status errMessage =
     State_Monad.bind (clock env) (\<lambda>now.
       let message = truncateRunes (RedactSensitive errMessage) 512; ms = sq_Messages req;
           start = (case result of Some r \<Rightarrow> su_MessageStartSeq r | None \<Rightarrow> if ms = [] then 0 else am_Seq (hd ms));
           stop = (case result of Some r \<Rightarrow> su_MessageEndSeq r | None \<Rightarrow> if ms = [] then 0 else am_Seq (last ms)) in
       insert_fitting env [(message, 512)] ai_calls ai_calls_update [(''ai_call_logs.PRIMARY'', \<lambda>x y. cl_CallID x = cl_CallID y)]
         \<lparr>cl_CallID = callID, cl_Provider = provider, cl_GroupID = sq_GroupID req, cl_ConversationID = sq_ConversationID req,
          cl_OperatorID = sq_OperatorID req, cl_MessageCount = int (length ms), cl_MessageStartSeq = start, cl_MessageEndSeq = stop,
          cl_DurationMs = durationMs, cl_Status = status, cl_ErrorMessage = message, cl_CreatedAt = now\<rparr>)"

definition save_summary :: "('b ai_db_scheme) env \<Rightarrow> string \<Rightarrow> summary_result \<Rightarrow> ('b ai_db_scheme, gerr + unit) io" where
  "save_summary env operatorID r = exec env (run_insert ai_summaries ai_summaries_update
     (ins [(''ai_summary_records.PRIMARY'', \<lambda>x y. su_SummaryID (sm_result x) = su_SummaryID (sm_result y))] \<lparr>sm_operator = operatorID, sm_result = r\<rparr>))"

record summary_params =
  sp_GroupID :: string
  sp_OperatorID :: string
  sp_MessageLimit :: int
  sp_IncludeTodos :: bool
  sp_IncludeRisks :: bool

text \<open>The part of \<open>Generate\<close> after the messages are loaded.\<close>

definition summarize_messages :: "ai_cfg \<Rightarrow> ('b ai_db_scheme) env \<Rightarrow> provider \<Rightarrow> summary_request \<Rightarrow> ('b ai_db_scheme, gerr + summary_result) io" where
  "summarize_messages c env p req =
     State_Monad.bind (clock env) (\<lambda>t0. State_Monad.bind (newAIRecordID c ''aic'' t0) (\<lambda>callID.
     State_Monad.bind (clock env) (\<lambda>start. State_Monad.bind (provider_summarize c env req p) (\<lambda>(tries, r).
     State_Monad.bind (clock env) (\<lambda>stop. case r of
       Inl e \<Rightarrow> ignore (saveCallLog env callID (provider_name p) req None (stop - start) ''error'' (err_text e))
         (State_Monad.bind (ensureAttempts env (provider_name p) tries (stop - start) ''error'' (err_text e)) (\<lambda>attempts.
          ignore (saveProviderAttempts c env callID 0 attempts) (err e)))
     | Inr r0 \<Rightarrow> State_Monad.bind (clock env) (\<lambda>now.
         State_Monad.bind (completeSummaryResult c r0 (sq_GroupID req) (sq_ConversationID req) (provider_name p) (sq_Messages req) now) (\<lambda>result.
         ignore (saveCallLog env callID (su_Provider result) req (Some result) (stop - start) ''success'' [])
         (State_Monad.bind (ensureAttempts env (su_Provider result) tries (stop - start) ''success'' []) (\<lambda>attempts.
          ignore (saveProviderAttempts c env callID 0 attempts)
          (then_ok (save_summary env (sq_OperatorID req) result) (\<lambda>_. ok result)))))))))))"

definition GenerateSummary :: "ai_cfg \<Rightarrow> ('b ai_db_scheme) env \<Rightarrow> provider \<Rightarrow> int \<Rightarrow> summary_params \<Rightarrow> ('b ai_db_scheme, gerr + summary_result) io" where
  "GenerateSummary c env p maxMessages params =
     (let groupID = trim_space (sp_GroupID params); operatorID = trim_space (sp_OperatorID params) in
      if groupID = [] then err ErrGroupIDRequired
      else if operatorID = [] then err ErrOperatorRequired
      else then_ok (summary_member env groupID operatorID) (\<lambda>_.
        let limit = normalizeLimit (sp_MessageLimit params) maxMessages; conversationID = BuildGroupConversationID groupID in
        then_ok (query env (newest_messages conversationID limit)) (\<lambda>messages.
        if messages = [] then err ErrNoMessages
        else summarize_messages c env p \<lparr>sq_GroupID = groupID, sq_ConversationID = conversationID, sq_OperatorID = operatorID,
          sq_Messages = messages, sq_IncludeTodos = sp_IncludeTodos params, sq_IncludeRisks = sp_IncludeRisks params\<rparr>)))"

section \<open>Questions\<close>

definition ErrQuestionRequired :: gerr where "ErrQuestionRequired = Msg ''question is required''"

definition completeAskResult :: "ask_result \<Rightarrow> string \<Rightarrow> string \<Rightarrow> knowledge_source list \<Rightarrow> string \<Rightarrow> int \<Rightarrow> ask_result" where
  "completeAskResult r answerID question sources provider now =
     (let sources' = (if ar_Sources r = [] then sources else ar_Sources r) in
      r\<lparr>ar_AnswerID := (if ar_AnswerID r = [] then answerID else ar_AnswerID r),
        ar_Question := (if ar_Question r = [] then question else ar_Question r), ar_Sources := sources',
        ar_KnowledgeHits := (if ar_KnowledgeHits r = 0 then int (length sources') else ar_KnowledgeHits r),
        ar_Provider := (if ar_Provider r = [] then provider else ar_Provider r),
        ar_CreatedAt := (if ar_CreatedAt r = 0 then now else ar_CreatedAt r)\<rparr>)"

definition save_answer :: "('b ai_db_scheme) env \<Rightarrow> ask_result \<Rightarrow> string \<Rightarrow> string \<Rightarrow> string \<Rightarrow> ('b ai_db_scheme, gerr + unit) io" where
  "save_answer env r operatorID status errMessage =
     (let question = truncateRunes (RedactSensitive (ar_Question r)) 1024; message = truncateRunes (RedactSensitive errMessage) 512 in
      insert_fitting env [(question, 1024), (message, 512)] ai_answers ai_answers_update
        [(''ai_qa_records.PRIMARY'', \<lambda>x y. qa_answer_id x = qa_answer_id y)]
        \<lparr>qa_answer_id = ar_AnswerID r, qa_operator = operatorID, qa_question = question, qa_answer = ar_Answer r, qa_sources = ar_Sources r,
         qa_provider = ar_Provider r, qa_knowledge_hits = ar_KnowledgeHits r, qa_status = status, qa_error_message = message,
         qa_created_at = ar_CreatedAt r\<rparr>)"

text \<open>The part of \<open>Ask\<close> after the search.\<close>

definition answer_from :: "ai_cfg \<Rightarrow> ('b ai_db_scheme) env \<Rightarrow> provider \<Rightarrow> string \<Rightarrow> string \<Rightarrow> knowledge_source list
    \<Rightarrow> ('b ai_db_scheme, gerr + ask_result) io" where
  "answer_from c env p operatorID question sources =
     State_Monad.bind (clock env) (\<lambda>t0. State_Monad.bind (newAIRecordID c ''aiq'' t0) (\<lambda>callID.
     State_Monad.bind (clock env) (\<lambda>start.
     State_Monad.bind (provider_answer c env \<lparr>aq_OperatorID = operatorID, aq_Question = question, aq_Sources = sources\<rparr> p) (\<lambda>(tries, r).
     State_Monad.bind (clock env) (\<lambda>stop. case r of
       Inl e \<Rightarrow> ignore (save_answer env \<lparr>ar_AnswerID = callID, ar_Question = question, ar_Answer = [], ar_Sources = sources,
             ar_KnowledgeHits = int (length sources), ar_Provider = provider_name p, ar_CreatedAt = 0\<rparr> operatorID ''error'' (err_text e))
         (State_Monad.bind (ensureAttempts env (provider_name p) tries (stop - start) ''error'' (err_text e)) (\<lambda>attempts.
          ignore (saveProviderAttempts c env callID 0 attempts) (err e)))
     | Inr r0 \<Rightarrow> State_Monad.bind (clock env) (\<lambda>now.
         let result = completeAskResult r0 callID question sources (provider_name p) now in
         State_Monad.bind (ensureAttempts env (ar_Provider result) tries (stop - start) ''success'' []) (\<lambda>attempts.
         ignore (saveProviderAttempts c env (ar_AnswerID result) 0 attempts)
         (then_ok (save_answer env result operatorID ''success'' []) (\<lambda>_. ok result)))))))))"

definition ask_limit :: "int \<Rightarrow> int \<Rightarrow> int" where
  "ask_limit serviceTopK topK = (if topK > 0 then topK else if serviceTopK > 0 then serviceTopK else 3)"

text \<open>\<open>None\<close> is the panic of the search.\<close>

definition Ask :: "ai_cfg \<Rightarrow> ('b ai_db_scheme) env \<Rightarrow> provider \<Rightarrow> knowledge_document list \<Rightarrow> int \<Rightarrow> string \<Rightarrow> string \<Rightarrow> int
    \<Rightarrow> ('b ai_db_scheme, (gerr + ask_result) option) io" where
  "Ask c env p docs serviceTopK operator0 question0 topK0 =
     (let operatorID = trim_space operator0; question = trim_space question0; topK = ask_limit serviceTopK topK0 in
      if operatorID = [] then State_Monad.return (Some (Inl ErrOperatorRequired))
      else if question = [] then State_Monad.return (Some (Inl ErrQuestionRequired))
      else case Search (uni c) docs question topK of
        None \<Rightarrow> State_Monad.return None
      | Some sources \<Rightarrow> State_Monad.bind (answer_from c env p operatorID question sources) (\<lambda>r. State_Monad.return (Some r)))"

section \<open>The bot\<close>

record bot =
  bot_ID :: string
  bot_Provider :: provider
  bot_Documents :: "knowledge_document list"
  bot_TopK :: int

definition default_reply :: string where
  "default_reply = bytes [230, 136, 145, 229, 183, 178, 231, 187, 143, 230, 148, 182, 229, 136, 176, 228, 189, 160, 231, 154, 132, 230, 182, 136, 230, 129, 175, 227, 128, 130, 229, 189, 147, 229, 137, 141, 231, 137, 136, 230, 156, 172, 228, 188, 154, 228, 188, 152, 229, 133, 136, 229, 155, 158, 231, 173, 148, 233, 161, 185, 231, 155, 174, 231, 159, 165, 232, 175, 134, 227, 128, 129] @ ''IM '' @ bytes [233, 147, 190, 232, 183, 175, 227, 128, 129, 231, 186, 162, 229, 140, 133, 229, 185, 182, 229, 143, 145, 229, 146, 140] @ '' AI '' @ bytes [230, 142, 165, 229, 133, 165, 231, 155, 184, 229, 133, 179, 233, 151, 174, 233, 162, 152, 227, 128, 130]"

definition answerable :: "bot \<Rightarrow> wire \<Rightarrow> bool" where
  "answerable b incoming \<longleftrightarrow> ToType incoming = ''user'' \<and> To incoming = bot_ID b \<and> From incoming \<noteq> bot_ID b \<and> trim_space (Body incoming) \<noteq> []"

definition BuildReply :: "ai_cfg \<Rightarrow> cfg \<Rightarrow> ('b ai_db_scheme) env \<Rightarrow> bot \<Rightarrow> wire \<Rightarrow> ('b ai_db_scheme, (gerr + wire option) option) io" where
  "BuildReply c h env b incoming =
     (if \<not> answerable b incoming then State_Monad.return (Some (Inr None))
      else State_Monad.bind (Ask c env (bot_Provider b) (bot_Documents b) (bot_TopK b) (From incoming) (trim_space (Body incoming)) 0) (\<lambda>r. case r of
        None \<Rightarrow> State_Monad.return None
      | Some (Inl e) \<Rightarrow> State_Monad.return (Some (Inl e))
      | Some (Inr result) \<Rightarrow>
          let answer = (if trim_space (ar_Answer result) \<noteq> [] then ar_Answer result else default_reply) in
          State_Monad.bind (clock env) (\<lambda>t. State_Monad.bind (draw (fresh_id h)) (\<lambda>trace. State_Monad.bind (clock env) (\<lambda>now.
            State_Monad.return (Some (Inr (Some (empty_wire\<lparr>From := bot_ID b, To := From incoming, ToType := ''user'', MsgType := NORMAL,
              Body := answer, ClientMsgId := ''bot:'' @ MessageId incoming @ '':'' @ itoa t, TraceId := trace, SentAt := now\<rparr>)))))))))"

text \<open>What became of a reply; a panic in the goroutine ends the process.\<close>

datatype bot_outcome = NoReply | Replied | ReplyFailed | Crashed

definition triggerBotResponse :: "ai_cfg \<Rightarrow> cfg \<Rightarrow> ('b ai_db_scheme) env \<Rightarrow> bot \<Rightarrow> wire \<Rightarrow> ('b ai_db_scheme, bot_outcome) io" where
  "triggerBotResponse c h env b incoming =
     State_Monad.bind (BuildReply c h env b incoming) (\<lambda>r. case r of
       None \<Rightarrow> State_Monad.return Crashed
     | Some (Inl _) \<Rightarrow> State_Monad.return ReplyFailed
     | Some (Inr None) \<Rightarrow> State_Monad.return NoReply
     | Some (Inr (Some reply)) \<Rightarrow> (case marshal h reply of
         Inl _ \<Rightarrow> State_Monad.return ReplyFailed
       | Inr payload \<Rightarrow> State_Monad.bind (PushMessage h env (From reply) payload) (\<lambda>p. State_Monad.return (case p of
           Inl _ \<Rightarrow> ReplyFailed | Inr _ \<Rightarrow> Replied))))"

section \<open>What is posted\<close>

text \<open>The remote models a provider may ask, in their order, and the request to one of them.\<close>

primrec remotes :: "provider \<Rightarrow> openai list" where
  "remotes Mock = []"
| "remotes (OpenAI p) = [p]"
| "remotes (Fallback p q) = remotes p @ remotes q"

definition chat_request :: "ai_cfg \<Rightarrow> string \<Rightarrow> string \<Rightarrow> openai \<Rightarrow> string \<times> string" where
  "chat_request c system user p = (oa_baseURL p @ ''/chat/completions'', chat_body c (oa_model p) system user)"

text \<open>\<open>posted reqs l s\<close>: beyond \<open>l\<close>, some of the requests \<open>reqs\<close> were posted, in their order and each at most once.\<close>

definition posted :: "(string \<times> string) list \<Rightarrow> (string \<times> string) list \<Rightarrow> 'b ai_db_scheme \<Rightarrow> bool" where
  "posted reqs l s \<longleftrightarrow> (\<exists>ys. subseq ys reqs \<and> sent_out s = l @ ys)"

text \<open>The other processes have their own connections to the model: they leave the record of this one alone.\<close>

definition own_posts :: "('b ai_db_scheme) env \<Rightarrow> bool" where
  "own_posts env \<longleftrightarrow> (\<forall>n s. sent_out (interfere env n s) = sent_out s)"

lemma own_posts_relies: "own_posts env \<Longrightarrow> relies env (\<lambda>s. sent_out s = l)"
  by (simp add: own_posts_def relies_def)

lemma posted_none: "sent_out s = l \<Longrightarrow> posted reqs l s"
  by (auto simp: posted_def)

lemma posted_append: "posted r1 l s \<Longrightarrow> (\<And>l'. sent_out s = l' \<Longrightarrow> posted r2 l' s') \<Longrightarrow> posted (r1 @ r2) l s'"
  unfolding posted_def by (metis append.assoc list_emb_append_mono)

lemma posted_weaken: "posted r1 l s \<Longrightarrow> posted (r1 @ r2) l s"
  unfolding posted_def by (metis append.right_neutral list_emb_Nil list_emb_append_mono)

lemma wp_chat:
  assumes "own_posts env" "sent_out s = l"
  shows "wp (chat c env p system user) (\<lambda>_. posted [chat_request c system user p] l) s"
  unfolding chat_def Let_def
  apply (rule wp_if, rule wp_err, simp add: posted_none assms)
  apply (rule wp_if, rule wp_err, simp add: posted_none assms)
  apply (rule wp_then_okI [where R = "\<lambda>_. posted [chat_request c system user p] l"])
    apply (rule wp_update_stable [OF own_posts_relies [OF assms(1), of l]])
       apply (simp_all add: assms posted_none)
    apply (simp_all add: posted_def chat_request_def)
  apply (rule wp_bindI [where R = "\<lambda>_. posted [chat_request c system user p] l"])
   apply (simp add: wp_def draw_def posted_def chat_request_def)
  apply (auto intro!: wp_err wp_ok wp_case_sum simp: posted_def chat_request_def split: list.split)
  done

lemma wp_attempted:
  assumes "\<And>tries. Q (tries, r) s"
  shows "wp (attempted env name start r) Q s"
  unfolding attempted_def by (intro wp_bind wp_clock wp_return assms)

lemma wp_call_mock: "sent_out s = l \<Longrightarrow> Q (Inr x) s \<Longrightarrow> (\<And>e. Q (Inl e) s) \<Longrightarrow> wp (call_mock c env x) (\<lambda>r s'. posted [] l s' \<and> Q (snd r) s') s"
  unfolding call_mock_def by (intro wp_bind wp_clock wp_draw wp_attempted) (auto simp: posted_none split: option.split)

lemma wp_call_openai:
  assumes "own_posts env" "sent_out s = l" "\<And>content. Q (Inr (parse content))" "\<And>e. Q (Inl e)"
  shows "wp (call_openai c env p system user parse) (\<lambda>r s'. posted [chat_request c system user p] l s' \<and> Q (snd r)) s"
  unfolding call_openai_def
  apply (rule wp_bind, rule wp_clock)
  apply (rule wp_bindI [OF wp_chat [OF assms(1,2)]])
  apply (rule wp_attempted)
  apply (simp add: assms(3,4) split: sum.split)
  done

lemma wp_with_fallback:
  assumes "wp first (\<lambda>r s'. posted r1 l s' \<and> Q (snd r)) s" "\<And>l' s'. sent_out s' = l' \<Longrightarrow> wp second (\<lambda>r s'. posted r2 l' s' \<and> Q (snd r)) s'"
    and "\<And>x n. Q (Inr x) \<Longrightarrow> Q (Inr (mark n x))" "\<And>e. Q (Inl e)"
  shows "wp (with_fallback name1 name2 mark first second) (\<lambda>r s'. posted (r1 @ r2) l s' \<and> Q (snd r)) s"
  unfolding with_fallback_def
proof (rule wp_bindI [OF assms(1)], rule wp_case_prod, rule wp_case_sum, goal_cases)
  case (1 a s1 tries r e)
  then have p: "posted r1 l s1" by simp
  show ?case
    by (rule wp_bindI [OF assms(2) [OF refl]], rule wp_case_prod, rule wp_return)
      (auto simp: assms(3,4) intro: posted_append [OF p] split: sum.split)
next
  case (2 a s1 tries r x)
  then show ?case by (intro wp_return) (simp add: posted_weaken)
qed

lemma wp_provider_summarize:
  assumes "own_posts env"
  shows "sent_out s = l \<Longrightarrow> wp (provider_summarize c env req p)
    (\<lambda>r s'. posted (map (chat_request c summary_system (buildSummaryPrompt c req)) (remotes p)) l s' \<and> True) s"
proof (induction p arbitrary: s l)
  case Mock
  then show ?case unfolding provider_summarize.simps remotes.simps list.map by (rule wp_call_mock) simp_all
next
  case (OpenAI p)
  then show ?case unfolding provider_summarize.simps remotes.simps list.map by (intro wp_call_openai [OF assms]) simp_all
next
  case (Fallback p q)
  then show ?case
    unfolding provider_summarize.simps remotes.simps map_append
    by (intro wp_with_fallback [where Q = "\<lambda>_. True"] Fallback.IH) simp_all
qed

text \<open>An answer rests on the sources it was asked about.\<close>

definition rests_on :: "knowledge_source list \<Rightarrow> gerr + ask_result \<Rightarrow> bool" where
  "rests_on sources r \<longleftrightarrow> (\<forall>a. r = Inr a \<longrightarrow> set (ar_Sources a) \<subseteq> set sources \<and> (ar_Sources a = [] \<longrightarrow> sources = []))"

lemma set_matchAnswerSources: "set (matchAnswerSources candidates requested) \<subseteq> set candidates"
  unfolding matchAnswerSources_def set_concat
  by (rule UN_least) (auto split: option.splits dest: find_Some_iff_in [OF sym])

lemma rests_on_parse: "rests_on (aq_Sources req) (Inr (parseOpenAIAnswer c req raw name))"
  using set_matchAnswerSources [of "aq_Sources req"] by (auto simp: rests_on_def parseOpenAIAnswer_def Let_def split: prod.split)

lemma wp_provider_answer:
  assumes "own_posts env"
  shows "sent_out s = l \<Longrightarrow> wp (provider_answer c env req p)
    (\<lambda>r s'. posted (map (chat_request c ask_system (buildAskPrompt c req)) (remotes p)) l s' \<and> rests_on (aq_Sources req) (snd r)) s"
proof (induction p arbitrary: s l)
  case Mock
  then show ?case unfolding provider_answer.simps remotes.simps list.map
    by (rule wp_call_mock) (simp_all add: rests_on_def mock_answer_def)
next
  case (OpenAI p)
  then show ?case unfolding provider_answer.simps remotes.simps list.map
    by (intro wp_call_openai [OF assms]) (simp_all add: rests_on_parse, simp add: rests_on_def)
next
  case (Fallback p q)
  then show ?case
    unfolding provider_answer.simps remotes.simps map_append
    by (intro wp_with_fallback [where Q = "rests_on (aq_Sources req)"] Fallback.IH) (simp_all add: rests_on_def)
qed

section \<open>The audit posts nothing\<close>

lemma keeps_newAIRecordID [keeps_rules]: "keeps I (newAIRecordID c label now)"
  unfolding newAIRecordID_def by (intro keeps_rules)

lemma keeps_ensureAttempts [keeps_rules]: "keeps I (ensureAttempts env name tries d status message)"
  unfolding ensureAttempts_def by (intro keeps_rules)

lemma keeps_insert_fitting:
  assumes "own_posts env" "\<And>g s. sent_out (set_tbl g s) = sent_out s"
  shows "keeps (posted reqs l) (insert_fitting env texts tbl set_tbl keys row)"
  unfolding insert_fitting_def
  by (rule keeps_exec) (use assms in \<open>auto simp: relies_def own_posts_def posted_def run_insert_def split: if_splits sum.splits\<close>)

lemma keeps_saveProviderAttempts: "own_posts env \<Longrightarrow> keeps (posted reqs l) (saveProviderAttempts c env callID i tries)"
  by (induction tries arbitrary: i) (auto simp: Let_def intro!: keeps_rules keeps_insert_fitting)

lemma keeps_saveCallLog: "own_posts env \<Longrightarrow> keeps (posted reqs l) (saveCallLog env callID name req result d status message)"
  unfolding saveCallLog_def Let_def by (auto intro!: keeps_rules keeps_insert_fitting)

lemma keeps_save_answer: "own_posts env \<Longrightarrow> keeps (posted reqs l) (save_answer env r u status message)"
  unfolding save_answer_def Let_def by (auto intro!: keeps_rules keeps_insert_fitting)

lemma keeps_save_summary: "own_posts env \<Longrightarrow> keeps (posted reqs l) (save_summary env u r)"
  unfolding save_summary_def
  by (rule keeps_exec) (auto simp: relies_def own_posts_def posted_def run_insert_def split: sum.splits)

lemma keeps_completeSummaryResult [keeps_rules]: "keeps I (completeSummaryResult c r g conv name messages now)"
  unfolding completeSummaryResult_def by (intro keeps_rules)

section \<open>Summaries are for members\<close>

definition may_summarize :: "('b ai_db_scheme) env \<Rightarrow> string \<Rightarrow> string \<Rightarrow> 'b ai_db_scheme \<Rightarrow> bool" where
  "may_summarize env g u s \<longleftrightarrow> (\<exists>m\<in>set (member_rows s). gm_group m = trim_prefix (trim_space g) ''group:'' \<and> gm_user m = trim_space u
     \<and> gm_status m = ''active'' \<and> (\<exists>n. gm_mute_until m \<le> 0 \<or> gm_mute_until m \<le> clock_at env n))"

text \<open>The request a summary of the newest messages makes to a remote model.\<close>

definition summary_request_for :: "int \<Rightarrow> summary_params \<Rightarrow> ai_message list \<Rightarrow> summary_request" where
  "summary_request_for maxMessages params messages = \<lparr>sq_GroupID = trim_space (sp_GroupID params),
     sq_ConversationID = BuildGroupConversationID (trim_space (sp_GroupID params)), sq_OperatorID = trim_space (sp_OperatorID params),
     sq_Messages = messages, sq_IncludeTodos = sp_IncludeTodos params, sq_IncludeRisks = sp_IncludeRisks params\<rparr>"

definition shown :: "int \<Rightarrow> summary_params \<Rightarrow> 'b im_scheme \<Rightarrow> ai_message list" where
  "shown maxMessages params =
     newest_messages (BuildGroupConversationID (trim_space (sp_GroupID params))) (normalizeLimit (sp_MessageLimit params) maxMessages)"

lemma keeps_summary_member: "relies env I \<Longrightarrow> keeps I (summary_member env g u)"
  unfolding summary_member_def by (intro keeps_rules) auto

lemma wp_summary_member_refuses:
  assumes "relies env (\<lambda>s. P s \<and> \<not> may_summarize env g u s)" "P s \<and> \<not> may_summarize env g u s"
  shows "wp (summary_member env (trim_space g) (trim_space u)) (\<lambda>r s'. P s' \<and> isl r) s"
  unfolding summary_member_def
  apply (rule wp_then_okI [where R = "\<lambda>r s'. P s' \<and> (\<forall>m. r = Inr (Some m) \<longrightarrow>
      gm_status m = ''active'' \<longrightarrow> 0 < gm_mute_until m \<and> (\<forall>n. clock_at env n < gm_mute_until m))"])
    apply (rule wp_query_stable [OF assms])
     apply simp
    apply (auto simp: may_summarize_def not_le dest!: find_Some_iff_in) [1]
    apply force
   apply simp
  apply (rule wp_case_option, rule wp_err, simp)
  apply (rule wp_bind, rule wp_clock_at)
  apply (auto intro: wp_err wp_ok)
  done

lemma wp_summarize_messages:
  assumes "own_posts env" "sent_out s = l"
  shows "wp (summarize_messages c env p req) (\<lambda>_. posted (map (chat_request c summary_system (buildSummaryPrompt c req)) (remotes p)) l) s"
proof -
  let ?I = "posted (map (chat_request c summary_system (buildSummaryPrompt c req)) (remotes p)) l"
  note audit = keeps_saveProviderAttempts [OF assms(1)] keeps_saveCallLog [OF assms(1)] keeps_save_summary [OF assms(1)]
  have rest: "keeps ?I (case r of
       Inl e \<Rightarrow> ignore (saveCallLog env callID (provider_name p) req None (stop - start) ''error'' (err_text e))
         (State_Monad.bind (ensureAttempts env (provider_name p) tries (stop - start) ''error'' (err_text e)) (\<lambda>attempts.
          ignore (saveProviderAttempts c env callID 0 attempts) (err e)))
     | Inr r0 \<Rightarrow> State_Monad.bind (clock env) (\<lambda>now.
         State_Monad.bind (completeSummaryResult c r0 (sq_GroupID req) (sq_ConversationID req) (provider_name p) (sq_Messages req) now) (\<lambda>result.
         ignore (saveCallLog env callID (su_Provider result) req (Some result) (stop - start) ''success'' [])
         (State_Monad.bind (ensureAttempts env (su_Provider result) tries (stop - start) ''success'' []) (\<lambda>attempts.
          ignore (saveProviderAttempts c env callID 0 attempts)
          (then_ok (save_summary env (sq_OperatorID req) result) (\<lambda>_. ok result)))))))" for r callID stop start tries
    by (intro keeps_rules audit)
  show ?thesis
    unfolding summarize_messages_def
    apply (rule wp_bind, rule wp_clock)
    apply (rule wp_bindI [OF keeps_wp [where I = "\<lambda>s. sent_out s = l", OF keeps_newAIRecordID assms(2)]])
    apply (rule wp_bind, rule wp_clock)
    apply (rule wp_bindI [OF wp_provider_summarize [OF assms(1)]], assumption)
    apply (rule wp_case_prod, rule wp_bind, rule wp_clock)
    apply (rule keeps_wp [OF rest])
    apply simp
    done
qed

text \<open>C12. A group's messages are shown to the remote models for members only: while a user is no active and unmuted member
  of a group, his request for a summary is refused and leaves the world as the other processes do.  What
  a request posts is at most one request to each model that is configured, in their order, and each carries
  the newest messages of the group up to the limit, whatever calls fail.\<close>

theorem summaries_are_for_members:
  assumes "own_posts env" "relies env (\<lambda>s. shown maxMessages params s = messages)" "shown maxMessages params s = messages" "sent_out s = l"
    and "relies env (\<lambda>s. P s \<and> \<not> may_summarize env (sp_GroupID params) (sp_OperatorID params) s)"
  shows "wp (GenerateSummary c env p maxMessages params) (\<lambda>_. posted (map (chat_request c summary_system
       (buildSummaryPrompt c (summary_request_for maxMessages params messages))) (remotes p)) l) s
     \<and> (P s \<and> \<not> may_summarize env (sp_GroupID params) (sp_OperatorID params) s
         \<longrightarrow> wp (GenerateSummary c env p maxMessages params) (\<lambda>r s'. P s' \<and> isl r) s)"
proof (intro conjI impI)
  let ?Q = "\<lambda>_. posted (map (chat_request c summary_system (buildSummaryPrompt c (summary_request_for maxMessages params messages))) (remotes p)) l"
  let ?I = "\<lambda>s. sent_out s = l \<and> shown maxMessages params s = messages"
  have rely: "relies env ?I" using own_posts_relies [OF assms(1), of l] assms(2) by (simp add: relies_def)
  have I: "?I s" using assms(3,4) by simp
  show "wp (GenerateSummary c env p maxMessages params) ?Q s"
    unfolding GenerateSummary_def Let_def
    apply (rule wp_if, rule wp_err, rule posted_none [OF assms(4)])
    apply (rule wp_if, rule wp_err, rule posted_none [OF assms(4)])
    apply (rule wp_then_okI [OF keeps_wp [OF keeps_summary_member [OF rely] I]])
     apply (simp add: posted_none)
    apply (rule wp_then_okI [where R = "\<lambda>r s'. sent_out s' = l \<and> (\<forall>ms. r = Inr ms \<longrightarrow> ms = messages)"])
      apply (rule wp_query_stable [OF rely], assumption)
       apply simp
      apply (simp add: shown_def)
     apply (simp add: posted_none)
    apply (rule wp_if, rule wp_err, simp add: posted_none)
    apply (rule wp_mono [OF wp_summarize_messages [OF assms(1)]], blast)
    apply (simp add: summary_request_for_def)
    done
next
  assume "P s \<and> \<not> may_summarize env (sp_GroupID params) (sp_OperatorID params) s"
  note refused = wp_summary_member_refuses [OF assms(5) this]
  show "wp (GenerateSummary c env p maxMessages params) (\<lambda>r s'. P s' \<and> isl r) s"
    unfolding GenerateSummary_def Let_def
    apply (rule wp_if, rule wp_err, use \<open>P s \<and> _\<close> in simp)
    apply (rule wp_if, rule wp_err, use \<open>P s \<and> _\<close> in simp)
    apply (rule wp_then_okI [OF refused])
     apply simp_all
    done
qed

section \<open>Answers rest on the knowledge base\<close>

text \<open>The row of an answer, with its sources.\<close>

definition answer_recorded :: "string \<Rightarrow> ask_result \<Rightarrow> 'b ai_db_scheme \<Rightarrow> bool" where
  "answer_recorded u a s \<longleftrightarrow> (\<exists>row\<in>set (ai_answers s). qa_answer_id row = ar_AnswerID a \<and> qa_operator row = u \<and> qa_status row = ''success''
     \<and> qa_question row = truncateRunes (RedactSensitive (ar_Question a)) 1024 \<and> qa_answer row = ar_Answer a \<and> qa_sources row = ar_Sources a)"

lemma wp_save_answer: "wp (save_answer env a u ''success'' []) (\<lambda>r s'. r = Inr () \<longrightarrow> answer_recorded u a s') s"
  unfolding save_answer_def Let_def insert_fitting_def
  by (rule wp_exec)
    (auto simp: run_insert_def ins_Inr_iff answer_recorded_def split: if_splits sum.splits)

definition answered :: "string \<Rightarrow> knowledge_source list \<Rightarrow> gerr + ask_result \<Rightarrow> 'b ai_db_scheme \<Rightarrow> bool" where
  "answered u sources r s \<longleftrightarrow> (\<forall>a. r = Inr a \<longrightarrow> rests_on sources (Inr a) \<and> answer_recorded u a s)"

lemma rests_on_complete: "rests_on sources (Inr a) \<Longrightarrow> rests_on sources (Inr (completeAskResult a i question sources name now))"
  by (auto simp: rests_on_def completeAskResult_def Let_def)

lemma wp_answer_from:
  assumes "own_posts env" "sent_out s = l"
  shows "wp (answer_from c env p u question sources) (\<lambda>r s'. posted (map (chat_request c ask_system
      (buildAskPrompt c \<lparr>aq_OperatorID = u, aq_Question = question, aq_Sources = sources\<rparr>)) (remotes p)) l s' \<and> answered u sources r s') s"
proof -
  let ?req = "\<lparr>aq_OperatorID = u, aq_Question = question, aq_Sources = sources\<rparr>"
  let ?I = "posted (map (chat_request c ask_system (buildAskPrompt c ?req)) (remotes p)) l"
  note audit = keeps_saveProviderAttempts [OF assms(1)] keeps_save_answer [OF assms(1)]
  have failed: "wp (ignore (save_answer env a u ''error'' message)
      (State_Monad.bind (ensureAttempts env name tries d ''error'' message) (\<lambda>attempts.
        ignore (saveProviderAttempts c env callID 0 attempts) (err e)))) (\<lambda>r s'. ?I s' \<and> answered u sources r s') s1"
    if "?I s1" for a message name tries d callID e s1
    apply (rule wp_ignoreI [OF keeps_wp [OF audit(2) that]])
    apply (rule wp_bindI [OF keeps_wp [where I = ?I, OF keeps_ensureAttempts]], assumption)
    apply (rule wp_ignoreI [OF keeps_wp [OF audit(1)]], assumption)
    apply (rule wp_err, simp add: answered_def)
    done
  have saved: "wp (State_Monad.bind (ensureAttempts env (ar_Provider a) tries d ''success'' []) (\<lambda>attempts.
        ignore (saveProviderAttempts c env (ar_AnswerID a) 0 attempts)
         (then_ok (save_answer env a u ''success'' []) (\<lambda>_. ok a)))) (\<lambda>r s'. ?I s' \<and> answered u sources r s') s1"
    if "?I s1" "rests_on sources (Inr a)" for a tries d s1
    apply (rule wp_bindI [OF keeps_wp [where I = ?I, OF keeps_ensureAttempts that(1)]])
    apply (rule wp_ignoreI [OF keeps_wp [OF audit(1)]], assumption)
    apply (rule wp_then_okI [OF wp_conj [OF keeps_wp [OF audit(2)] wp_save_answer]], assumption)
     apply (simp add: answered_def)
    apply (rule wp_ok)
    apply (use that(2) in \<open>simp add: answered_def\<close>)
    done
  show ?thesis
    unfolding answer_from_def Let_def
    apply (rule wp_bind, rule wp_clock)
    apply (rule wp_bindI [OF keeps_wp [where I = "\<lambda>s. sent_out s = l", OF keeps_newAIRecordID assms(2)]])
    apply (rule wp_bind, rule wp_clock)
    apply (rule wp_bindI [OF wp_provider_answer [OF assms(1)]], assumption)
    apply (rule wp_case_prod, rule wp_bind, rule wp_clock, rule wp_case_sum)
     apply (rule failed, blast)
    apply (rule wp_bind, rule wp_clock)
    apply (rule saved, blast)
    apply (rule rests_on_complete)
    apply simp
    done
qed

text \<open>C13. Answers rest on the knowledge base: a question that is answered cites only sections the search found, and some
  when there are any, and the answer is on record for its asker; what it posts to the remote models is at
  most one request to each of them, with the question and the sections found and nothing else; and it panics
  only if the search does, whatever calls fail.\<close>

theorem answers_rest_on_the_knowledge_base:
  assumes "own_posts env" "sent_out s = l" "Search (uni c) docs (trim_space question) (ask_limit n k) = found"
  shows "wp (Ask c env p docs n u question k) (\<lambda>r s'. case r of
      None \<Rightarrow> found = None
    | Some r \<Rightarrow> posted (map (chat_request c ask_system (buildAskPrompt c
          \<lparr>aq_OperatorID = trim_space u, aq_Question = trim_space question, aq_Sources = the found\<rparr>)) (remotes p)) l s'
        \<and> (\<forall>a. r = Inr a \<longrightarrow> set (ar_Sources a) \<subseteq> set (the found) \<and> (ar_Sources a = [] \<longrightarrow> found = Some [])
             \<and> answer_recorded (trim_space u) a s')) s"
  unfolding Ask_def Let_def assms(3)
  apply (rule wp_if, rule wp_return, simp add: posted_none assms(2))
  apply (rule wp_if, rule wp_return, simp add: posted_none assms(2))
  apply (rule wp_case_option, rule wp_return, simp)
  apply (rule wp_bindI [OF wp_answer_from [OF assms(1,2)]], rule wp_return)
  apply (auto simp: answered_def rests_on_def)
  done

section \<open>The bot does not talk to itself\<close>

lemma unanswerable_is_left_alone: "\<not> answerable b incoming \<Longrightarrow> triggerBotResponse c h env b incoming = State_Monad.return NoReply"
  by (simp add: triggerBotResponse_def BuildReply_def)

lemma default_reply_says_something: "trim_space default_reply \<noteq> []"
  unfolding default_reply_def by code_simp

lemma wp_BuildReply:
  "wp (BuildReply c h env b incoming) (\<lambda>r _. \<forall>reply. r = Some (Inr (Some reply)) \<longrightarrow>
     To reply = From incoming \<and> trim_space (Body reply) \<noteq> [] \<and> \<not> answerable b reply) s"
  unfolding BuildReply_def Let_def
  apply (rule wp_if, rule wp_return, simp)
  apply (rule wp_bindI [OF wp_trivial], rule wp_case_option, rule wp_return, simp)
  apply (rule wp_case_sum, rule wp_return, simp)
  apply (rule wp_bind, rule wp_clock, rule wp_bind, rule wp_draw, rule wp_bind, rule wp_clock, rule wp_return)
  apply (auto simp: default_reply_says_something answerable_def empty_wire_def)
  done

section \<open>A run\<close>

definition demo_ai :: ai_db where
  "demo_ai = im.extend (demo_world\<lparr>msgs := [\<lparr>ms_message_id = ''m1'', ms_client_msg_id = None, ms_conversation_id = ''group:g1'',
     ms_session_id = ''group:g1'', ms_seq = 4, ms_from = ''bo'', ms_to = ''g1'', ms_to_type = ''group'', ms_content = ''hello'', ms_create_time = 3\<rparr>]\<rparr>)
     \<lparr>ai_summaries = [], ai_calls = [], ai_attempts = [], ai_answers = [], sent_out = []\<rparr>"

lemma demo_ai_simps [exec_defs]:
  "member_rows demo_ai = member_rows demo_world" "sent_out demo_ai = []" "ai_calls demo_ai = []" "ai_attempts demo_ai = []"
  "ai_answers demo_ai = []" "ai_summaries demo_ai = []"
  "msgs demo_ai = [\<lparr>ms_message_id = ''m1'', ms_client_msg_id = None, ms_conversation_id = ''group:g1'',
     ms_session_id = ''group:g1'', ms_seq = 4, ms_from = ''bo'', ms_to = ''g1'', ms_to_type = ''group'', ms_content = ''hello'', ms_create_time = 3\<rparr>]"
  by (simp_all add: demo_ai_def im.defs)

definition demo_model :: ai_cfg where
  "demo_model = \<lparr>uni = demo_unicode, quote = \<lambda>t. t, chat_body = \<lambda>m system user. m @ user, valid_url = \<lambda>_. True,
     http_reply = \<lambda>_. (200, ''200 OK'', ''hi''), parse_chat = \<lambda>t. Inr [t], parse_summary = \<lambda>t. (True, t, [], []),
     parse_answer = \<lambda>t. (True, t, []), ctx_done = \<lambda>_. None, rand4 = \<lambda>_. ''0000''\<rparr>"

definition demo_remote :: openai where
  "demo_remote = \<lparr>oa_name = ''openai'', oa_model = ''m'', oa_baseURL = ''http://x'', oa_apiKey = ''key''\<rparr>"

definition demo_provider :: provider where
  "demo_provider = Fallback (OpenAI demo_remote) Mock"

text \<open>A request of \<open>u\<close> for a summary of \<open>g1\<close>.\<close>

definition demo_ask :: "string \<Rightarrow> summary_params" where
  "demo_ask u = \<lparr>sp_GroupID = ''g1'', sp_OperatorID = u, sp_MessageLimit = 0, sp_IncludeTodos = True, sp_IncludeRisks = True\<rparr>"

lemma demo_names [exec_defs]: "trim_space ''g1'' = ''g1''" "trim_space ''cy'' = ''cy''" "trim_space ''al'' = ''al''"
  by (simp_all add: trim_space_graphic graphic_def)

lemma may_summarize_demo: "\<not> may_summarize env (sp_GroupID (demo_ask ''cy'')) (sp_OperatorID (demo_ask ''cy'')) demo_ai"
  by (simp add: may_summarize_def demo_ask_def demo_ai_simps demo_world_simps demo_names trim_prefix_def)

theorem summaries_are_for_members_witness:
  "wp (GenerateSummary demo_model (calm 5) demo_provider 100 (demo_ask ''cy'')) (\<lambda>_. posted (map (chat_request demo_model summary_system
       (buildSummaryPrompt demo_model (summary_request_for 100 (demo_ask ''cy'') (shown 100 (demo_ask ''cy'') demo_ai)))) (remotes demo_provider)) []) demo_ai
     \<and> wp (GenerateSummary demo_model (calm 5) demo_provider 100 (demo_ask ''cy'')) (\<lambda>r s'. s' = demo_ai \<and> isl r) demo_ai"
proof -
  note both = summaries_are_for_members [where P = "\<lambda>s. s = demo_ai" and env = "calm 5" and params = "demo_ask ''cy''" and s = demo_ai
      and l = "[]" and messages = "shown 100 (demo_ask ''cy'') demo_ai" and maxMessages = 100 and c = demo_model and p = demo_provider]
  show ?thesis using both may_summarize_demo by (simp add: own_posts_def relies_def demo_ai_simps)
qed

text \<open>For a member the newest message of the group is posted, and the model's text is the summary.\<close>

lemma trim_hi: "trim_space ''hi'' = ''hi''"
  by (simp add: trim_space_graphic graphic_def)

lemma message_fits: "truncateRunes (RedactSensitive []) 512 = []" "rune_count [] = 0"
  by code_simp+

lemma member_gets_summary:
  "case run_state (GenerateSummary demo_model (calm 5) demo_provider 100 (demo_ask ''al'')) (0, demo_ai) of (r, _, s) \<Rightarrow>
     (\<exists>x. r = Inr x \<and> su_Summary x = ''hi'' \<and> su_MessageStartSeq x = 4) \<and> length (sent_out s) = 1 \<and> length (ai_summaries s) = 1"
  by (simp add: exec_defs run_calls GenerateSummary_def demo_ask_def summary_member_def trim_prefix_def has_prefix_def
      newest_messages_def BuildGroupConversationID_def normalizeLimit_def summarize_messages_def demo_provider_def demo_remote_def demo_model_def
      newAIRecordID_def with_fallback_def call_openai_def chat_def draw_def attempted_def completeSummaryResult_def parseOpenAISummary_def
      covering_def empty_summary_def saveCallLog_def ensureAttempts_def insert_fitting_def save_summary_def trim_hi message_fits cong: lazy_cong)

theorem answers_rest_on_the_knowledge_base_witness:
  "\<exists>found. Search demo_unicode demo_documents (trim_space ''redis'') (ask_limit 0 1) = found \<and>
    wp (Ask demo_model (calm 5) demo_provider demo_documents 0 ''al'' ''redis'' 1) (\<lambda>r s'. case r of
      None \<Rightarrow> found = None
    | Some r \<Rightarrow> posted (map (chat_request demo_model ask_system (buildAskPrompt demo_model
          \<lparr>aq_OperatorID = trim_space ''al'', aq_Question = trim_space ''redis'', aq_Sources = the found\<rparr>)) (remotes demo_provider)) [] s'
        \<and> (\<forall>a. r = Inr a \<longrightarrow> set (ar_Sources a) \<subseteq> set (the found) \<and> (ar_Sources a = [] \<longrightarrow> found = Some [])
             \<and> answer_recorded (trim_space ''al'') a s')) demo_ai"
  by (rule exI, rule conjI, rule refl, rule answers_rest_on_the_knowledge_base)
    (simp_all add: own_posts_def demo_ai_simps demo_model_def)

text \<open>A question of more than 1024 characters is cut to 1024 and three dots, which the column does not hold: it is never recorded.\<close>

lemma rune_count_ascii: "\<forall>ch\<in>set t. of_char ch < (128::nat) \<Longrightarrow> rune_count t = length t"
  by (simp flip: length_runes_of add: runes_of_ascii)

lemma rune_count_truncateRunes:
  assumes "\<forall>ch\<in>set t. of_char ch < (128::nat)" "0 < n" "n < length t"
  shows "rune_count (truncateRunes t (int n)) = n + 3"
proof -
  have ascii: "\<forall>ch\<in>set (take n t). of_char ch < (128::nat)" using assms(1) by (auto dest: in_set_takeD)
  have "truncateRunes t (int n) = take n t @ ''...''"
    using assms of_runes_ascii [OF ascii] by (simp add: truncateRunes_def runes_of_ascii rune_count_ascii take_map)
  moreover have "\<forall>ch\<in>set (take n t @ ''...''). of_char ch < (128::nat)" using ascii by auto
  ultimately show ?thesis using rune_count_ascii [of "take n t @ ''...''"] assms(3) by simp
qed

lemma wp_insert_too_long: "n < rune_count t \<Longrightarrow> wp (insert_fitting env ((t, n) # texts) tbl set_tbl keys row) (\<lambda>r _. isl r) s"
  unfolding insert_fitting_def by (rule wp_exec) simp_all

lemma long_question_is_lost:
  assumes "1024 < length (RedactSensitive (ar_Question a))" "\<forall>ch\<in>set (RedactSensitive (ar_Question a)). of_char ch < (128::nat)"
  shows "wp (save_answer env a u status message) (\<lambda>r _. isl r) s"
  unfolding save_answer_def Let_def
  by (rule wp_insert_too_long) (use rune_count_truncateRunes [OF assms(2) _ assms(1)] in simp)

end
