(* ===== verification/Learning_Task.thy ===== *)
theory Learning_Task
  imports Demo
begin

text \<open>
  Learning tasks of a group (internal/learningtask): managers draft, publish and close tasks, members submit,
  managers review.  Every change runs in a transaction that locks the task, is recorded under the caller's
  request id, and leaves the notifications to be sent in an outbox.  A result stored as JSON is modelled by
  the value itself; the SHA-256 request hash and Go's URL parser are parameters.
\<close>

section \<open>State\<close>

record task_row =
  tk_ID :: string
  tk_GroupID :: string
  tk_Title :: string
  tk_Description :: string
  tk_DueAt :: int
  tk_Status :: string
  tk_Version :: int
  tk_CreatedBy :: string
  tk_PublishedAt :: int
  tk_ClosedAt :: int
  tk_CreatedAt :: int
  tk_UpdatedAt :: int

record sub_row =
  sb_ID :: string
  sb_TaskID :: string
  sb_UserID :: string
  sb_Text :: string
  sb_Link :: string
  sb_AttachmentIDs :: "string list"
  sb_Status :: string
  sb_AttemptNo :: int
  sb_Version :: int
  sb_ReviewerID :: string
  sb_ReviewNote :: string
  sb_SubmittedAt :: int
  sb_ReviewedAt :: int

datatype task_result = TaskResult task_row | SubResult sub_row

text \<open>The payload a request is hashed with.\<close>

datatype payload =
    PCreate string string int
  | PEdit int string string int
  | PExpected int
  | PSubmit string string int "string list"
  | PReview string string string int

record task_event =
  te_ID :: string
  te_TaskID :: string
  te_SubmissionID :: string
  te_Actor :: string
  te_Action :: string
  te_RequestID :: string
  te_Hash :: string
  te_Result :: task_result
  te_CreatedAt :: int

record notice_row =
  tn_ID :: int
  tn_EventID :: string
  tn_TargetType :: string
  tn_TargetID :: string
  tn_Status :: ob_status
  tn_Attempts :: int
  tn_AvailableAt :: int
  tn_MessageID :: "string option"
  tn_LastError :: string
  tn_UpdatedAt :: int

record user_row =
  us_ID :: string
  us_Username :: string
  us_Password :: string
  us_Avatar :: string
  us_Status :: int

record tdb = im +
  tasks :: "task_row list"
  submissions :: "sub_row list"
  task_events :: "task_event list"
  notices :: "notice_row list"
  users :: "user_row list"

text \<open>
  The configuration: whether a database is set, random identifiers, the request hash over action, target
  and payload, and the scheme, host and user part Go's URL parser reads.
\<close>

record task_cfg =
  task_db :: bool
  task_id :: "nat \<Rightarrow> gerr + string"
  request_hash :: "string \<Rightarrow> string \<Rightarrow> payload \<Rightarrow> string"
  parse_url :: "string \<Rightarrow> (string \<times> string \<times> bool) option"

section \<open>Errors and validation\<close>

definition bad :: "string \<Rightarrow> gerr" where "bad m = Coded 400 m"
definition missing :: gerr where "missing = Coded 404 ''task or group not found''"
definition conflict :: "string \<Rightarrow> gerr" where "conflict m = Coded 409 m"
definition versionConflict :: "string \<Rightarrow> int \<Rightarrow> gerr" where "versionConflict m v = VersionConflict m v"
definition unavailable :: "gerr \<Rightarrow> gerr" where "unavailable e = Wrapped e (''task store unavailable: '' @ err_text e)"

text \<open>A failing statement is reported as \<open>unavailable\<close>.\<close>

definition store :: "('w, gerr + 'a) io \<Rightarrow> ('w, gerr + 'a) io" where
  "store m = State_Monad.bind m (\<lambda>r. case r of Inl e \<Rightarrow> err (unavailable e) | Inr a \<Rightarrow> ok a)"

text \<open>\<open>errors.As\<close> finds the coded error under wrapping.\<close>

fun StatusCode :: "gerr \<Rightarrow> int" where
  "StatusCode (Coded c _) = c"
| "StatusCode (VersionConflict _ _) = 409"
| "StatusCode (Wrapped e _) = StatusCode e"
| "StatusCode _ = 503"

definition newTaskID :: "task_cfg \<Rightarrow> string \<Rightarrow> ('w, gerr + string) io" where
  "newTaskID c p = draw (\<lambda>n. map_sum id (\<lambda>s. p @ s) (task_id c n))"

definition validRequestID :: "string \<Rightarrow> (gerr + unit)" where
  "validRequestID v = (if length v < 8 \<or> length v > 128 \<or> trim_space v \<noteq> v
     then Inl (bad ''request_id must be 8-128 characters'') else Inr ())"

definition validateTaskFields :: "string \<Rightarrow> string \<Rightarrow> int \<Rightarrow> int \<Rightarrow> gerr + unit" where
  "validateTaskFields title description dueAt now =
     (if rune_count (trim_space title) < 1 \<or> rune_count (trim_space title) > 120 then Inl (bad ''title must be 1-120 characters'')
      else if rune_count description > 5000 then Inl (bad ''description is too long'')
      else if dueAt \<noteq> 0 \<and> dueAt \<le> now then Inl (bad ''due_at must be in the future'')
      else Inr ())"

definition is_hex :: "char \<Rightarrow> bool" where
  "is_hex c \<longleftrightarrow> (let n = (of_char c :: nat) in 48 \<le> n \<and> n \<le> 57 \<or> 97 \<le> n \<and> n \<le> 102 \<or> 65 \<le> n \<and> n \<le> 70)"

text \<open>The loop over attachment ids, with the ids seen so far.\<close>

fun check_ids :: "string list \<Rightarrow> string list \<Rightarrow> gerr + unit" where
  "check_ids seen [] = Inr ()"
| "check_ids seen (i # ids) =
     (if length i \<noteq> 32 then Inl (bad ''invalid attachment id'')
      else if \<not> list_all is_hex i then Inl (bad ''invalid attachment id'')
      else if i \<in> set seen then Inl (bad ''duplicate attachment id'')
      else check_ids (i # seen) ids)"

definition validateSubmission :: "task_cfg \<Rightarrow> string \<Rightarrow> string \<Rightarrow> string list \<Rightarrow> gerr + unit" where
  "validateSubmission c text link ids =
     (if trim_space text = [] \<and> trim_space link = [] \<and> ids = [] then Inl (bad ''text, link or attachment is required'')
      else if length ids > 10 then Inl (bad ''at most 10 attachments are allowed'')
      else case check_ids [] ids of Inl e \<Rightarrow> Inl e
      | Inr _ \<Rightarrow>
        if rune_count text > 5000 then Inl (bad ''text is too long'')
        else if length link > 2048 then Inl (bad ''link is too long'')
        else if link \<noteq> [] \<and> (case parse_url c link of None \<Rightarrow> True
             | Some (scheme, host, has_user) \<Rightarrow> (scheme \<noteq> ''http'' \<and> scheme \<noteq> ''https'') \<or> host = [] \<or> has_user)
          then Inl (bad ''link must be an http or https URL'')
        else Inr ())"

section \<open>Shared steps\<close>

definition requireRole :: "tdb env \<Rightarrow> string \<Rightarrow> string \<Rightarrow> (tdb, gerr + string) io" where
  "requireRole env groupID uid =
     (if uid = [] \<or> groupID = [] then err missing
      else State_Monad.bind (query env (\<lambda>s. find (\<lambda>m. gm_group m = groupID \<and> gm_user m = uid \<and> gm_status m = ''active''
              \<and> list_ex (\<lambda>g. gr_id g = groupID \<and> gr_status g = ''active'') (group_rows s)) (member_rows s)))
        (\<lambda>r. case r of Inl e \<Rightarrow> err (unavailable e) | Inr None \<Rightarrow> err missing | Inr (Some m) \<Rightarrow> ok (gm_role m)))"

definition requireManager :: "string \<Rightarrow> gerr + unit" where
  "requireManager role = (if role \<noteq> ''owner'' \<and> role \<noteq> ''admin'' then Inl missing else Inr ())"

definition checkIdempotent :: "tdb env \<Rightarrow> string \<Rightarrow> string \<Rightarrow> string \<Rightarrow> (tdb, gerr + task_result option) io" where
  "checkIdempotent tx actor requestID hash =
     State_Monad.bind (query tx (\<lambda>s. find (\<lambda>e. te_Actor e = actor \<and> te_RequestID e = requestID) (task_events s)))
       (\<lambda>r. case r of Inl e \<Rightarrow> err (unavailable e) | Inr None \<Rightarrow> ok None
        | Inr (Some e) \<Rightarrow> if te_Hash e \<noteq> hash then err (conflict ''request_id already belongs to another action'')
            else ok (Some (te_Result e)))"

definition event_keys :: "task_event unique_key list" where
  "event_keys =
     [(''task_events.PRIMARY'', \<lambda>a b. te_ID a = te_ID b),
      (''task_events.uk_task_request'', \<lambda>a b. te_Actor a = te_Actor b \<and> te_RequestID a = te_RequestID b)]"

definition notice_keys :: "notice_row unique_key list" where
  "notice_keys = [(''task_notification_outbox.uk_task_notification'', \<lambda>a b. tn_EventID a = tn_EventID b
      \<and> tn_TargetType a = tn_TargetType b \<and> tn_TargetID a = tn_TargetID b)]"

definition next_notice_id :: "notice_row list \<Rightarrow> int" where
  "next_notice_id rows = 1 + max_or_0 (map tn_ID rows)"

definition saveEvent :: "tdb env \<Rightarrow> task_event \<Rightarrow> (string \<times> string) list \<Rightarrow> int \<Rightarrow> (tdb, gerr + unit) io" where
  "saveEvent tx event targets now =
     State_Monad.bind (exec tx (run_insert task_events task_events_update (ins event_keys event))) (\<lambda>r. case r of
       Inl e \<Rightarrow> if is_dup_key e then err (conflict ''request_id already belongs to another action'') else err (unavailable e)
     | Inr _ \<Rightarrow> each (\<lambda>(kind, target).
         store (exec tx (\<lambda>s. run_insert notices notices_update (ins notice_keys
           \<lparr>tn_ID = next_notice_id (notices s), tn_EventID = te_ID event, tn_TargetType = kind, tn_TargetID = target,
            tn_Status = Pending, tn_Attempts = 0, tn_AvailableAt = now, tn_MessageID = None, tn_LastError = [],
            tn_UpdatedAt = now\<rparr>) s))) targets)"

text \<open>
  What a mutation answers: the result, the submission it is about (or none) and the notification targets.
\<close>

type_synonym mutation = "tdb env \<Rightarrow> task_row \<Rightarrow> string \<Rightarrow> int \<Rightarrow> (tdb, gerr + task_result \<times> string \<times> (string \<times> string) list) io"

definition mutate_tx :: "task_cfg \<Rightarrow> string \<Rightarrow> string \<Rightarrow> string \<Rightarrow> string \<Rightarrow> string \<Rightarrow> mutation \<Rightarrow> tdb env
    \<Rightarrow> (tdb, task_result tx_end) io" where
  "mutate_tx c actor taskID requestID action hash fn tx =
     then_tx (store (query tx (\<lambda>s. find (\<lambda>t. tk_ID t = taskID) (tasks s)))) (\<lambda>row.
     case row of None \<Rightarrow> State_Monad.return (Rollback (Inl missing))
     | Some t \<Rightarrow>
     then_tx (requireRole tx (tk_GroupID t) actor) (\<lambda>role.
     then_tx (checkIdempotent tx actor requestID hash) (\<lambda>saved.
     case saved of Some r \<Rightarrow> State_Monad.return (Rollback (Inr r))
     | None \<Rightarrow>
     State_Monad.bind (clock tx) (\<lambda>now.
     then_tx (fn tx t role now) (\<lambda>(result, submissionID, targets).
     then_tx (store (newTaskID c ''te_'')) (\<lambda>eventID.
     then_tx (saveEvent tx \<lparr>te_ID = eventID, te_TaskID = taskID, te_SubmissionID = submissionID, te_Actor = actor,
         te_Action = action, te_RequestID = requestID, te_Hash = hash, te_Result = result, te_CreatedAt = now\<rparr> targets now) (\<lambda>_.
     State_Monad.return (Commit (Inr result)))))))))"

text \<open>A failing \<open>BeginTx\<close> or \<open>Commit\<close> is reported as \<open>unavailable\<close>; the statements inside never answer a bare \<open>IoErr\<close>.\<close>

definition store_tx :: "(tdb, gerr + 'a) io \<Rightarrow> (tdb, gerr + 'a) io" where
  "store_tx m = State_Monad.bind m (\<lambda>r. State_Monad.return (if r = Inl IoErr then Inl (unavailable IoErr) else r))"

definition mutate :: "task_cfg \<Rightarrow> tdb env \<Rightarrow> string \<Rightarrow> string \<Rightarrow> string \<Rightarrow> string \<Rightarrow> payload \<Rightarrow> mutation \<Rightarrow> (tdb, gerr + task_result) io" where
  "mutate c env actor taskID requestID action payload fn =
     (if \<not> task_db c then err (unavailable (Msg ''database is not configured''))
      else case validRequestID requestID of Inl e \<Rightarrow> err e
      | Inr _ \<Rightarrow> store_tx (in_tx env (mutate_tx c actor taskID requestID action (request_hash c action taskID payload) fn)))"

definition task_keys :: "task_row unique_key list" where
  "task_keys = [(''group_tasks.PRIMARY'', \<lambda>a b. tk_ID a = tk_ID b)]"

definition create_task_tx :: "task_cfg \<Rightarrow> string \<Rightarrow> string \<Rightarrow> string \<Rightarrow> string \<Rightarrow> string \<Rightarrow> string \<Rightarrow> int \<Rightarrow> tdb env
    \<Rightarrow> (tdb, task_result tx_end) io" where
  "create_task_tx c actor groupID requestID hash title description dueAt tx =
     then_tx (requireRole tx groupID actor) (\<lambda>role.
     then_tx (State_Monad.return (requireManager role)) (\<lambda>_.
     then_tx (checkIdempotent tx actor requestID hash) (\<lambda>saved.
     case saved of Some r \<Rightarrow> State_Monad.return (Rollback (Inr r))
     | None \<Rightarrow>
     State_Monad.bind (clock tx) (\<lambda>now.
     then_tx (State_Monad.return (validateTaskFields title description dueAt now)) (\<lambda>_.
     then_tx (store (newTaskID c ''lt_'')) (\<lambda>tid.
     let t = \<lparr>tk_ID = tid, tk_GroupID = groupID, tk_Title = title, tk_Description = description, tk_DueAt = dueAt,
         tk_Status = ''draft'', tk_Version = 1, tk_CreatedBy = actor, tk_PublishedAt = 0, tk_ClosedAt = 0,
         tk_CreatedAt = now, tk_UpdatedAt = now\<rparr> in
     then_tx (store (exec tx (run_insert tasks tasks_update (ins task_keys t)))) (\<lambda>_.
     then_tx (store (newTaskID c ''te_'')) (\<lambda>eventID.
     then_tx (saveEvent tx \<lparr>te_ID = eventID, te_TaskID = tid, te_SubmissionID = [], te_Actor = actor, te_Action = ''create'',
         te_RequestID = requestID, te_Hash = hash, te_Result = TaskResult t, te_CreatedAt = now\<rparr> [] now) (\<lambda>_.
     State_Monad.return (Commit (Inr (TaskResult t))))))))))))"

definition CreateTask :: "task_cfg \<Rightarrow> tdb env \<Rightarrow> string \<Rightarrow> string \<Rightarrow> string \<Rightarrow> string \<Rightarrow> string \<Rightarrow> int \<Rightarrow> (tdb, gerr + task_result) io" where
  "CreateTask c env actor groupID requestID title description dueAt =
     (if \<not> task_db c then err (unavailable (Msg ''database is not configured''))
      else case validRequestID requestID of Inl e \<Rightarrow> err e
      | Inr _ \<Rightarrow> let title = trim_space title in
        store_tx (in_tx env (create_task_tx c actor groupID requestID
          (request_hash c ''create'' groupID (PCreate title description dueAt)) title description dueAt)))"

section \<open>Changing a task\<close>

definition set_task :: "string \<Rightarrow> (task_row \<Rightarrow> task_row) \<Rightarrow> tdb \<Rightarrow> (gerr + nat) \<times> tdb" where
  "set_task tid f = run_update tasks tasks_update (\<lambda>t. tk_ID t = tid) f"

definition guard :: "bool \<Rightarrow> gerr \<Rightarrow> ('w, gerr + 'a) io \<Rightarrow> ('w, gerr + 'a) io" where
  "guard b e m = (if b then err e else m)"

definition edit_task :: "string \<Rightarrow> string \<Rightarrow> int \<Rightarrow> int \<Rightarrow> mutation" where
  "edit_task title description dueAt expected tx t role now =
     (case requireManager role of Inl e \<Rightarrow> err e | Inr _ \<Rightarrow>
      case validateTaskFields title description dueAt now of Inl e \<Rightarrow> err e | Inr _ \<Rightarrow>
      guard (tk_Status t \<noteq> ''draft'') (conflict ''draft changed or already published'') (
      guard (tk_Version t \<noteq> expected) (versionConflict ''draft version changed'' (tk_Version t)) (
      let f = (\<lambda>t. t\<lparr>tk_Title := title, tk_Description := description, tk_DueAt := dueAt,
                     tk_Version := tk_Version t + 1, tk_UpdatedAt := now\<rparr>) in
      then_ok (store (exec tx (set_task (tk_ID t) f))) (\<lambda>_.
      ok (TaskResult (f t), [], [])))))"

definition UpdateDraft :: "task_cfg \<Rightarrow> tdb env \<Rightarrow> string \<Rightarrow> string \<Rightarrow> string \<Rightarrow> int \<Rightarrow> string \<Rightarrow> string \<Rightarrow> int \<Rightarrow> (tdb, gerr + task_result) io" where
  "UpdateDraft c env actor taskID requestID expected title description dueAt =
     (let title = trim_space title in
      mutate c env actor taskID requestID ''edit'' (PEdit expected title description dueAt)
        (edit_task title description dueAt expected))"

definition publish_task :: "int \<Rightarrow> mutation" where
  "publish_task expected tx t role now =
     (case requireManager role of Inl e \<Rightarrow> err e | Inr _ \<Rightarrow>
      guard (tk_Status t \<noteq> ''draft'') (conflict ''task is not an unchanged draft'') (
      guard (tk_Version t \<noteq> expected) (versionConflict ''task version changed'' (tk_Version t)) (
      guard (tk_DueAt t > 0 \<and> now \<ge> tk_DueAt t) (conflict ''task deadline has passed before publication'') (
      let f = (\<lambda>t. t\<lparr>tk_Status := ''published'', tk_Version := tk_Version t + 1, tk_PublishedAt := now, tk_UpdatedAt := now\<rparr>) in
      then_ok (store (exec tx (set_task (tk_ID t) f))) (\<lambda>_.
      ok (TaskResult (f t), [], [(''group'', tk_GroupID t)]))))))"

definition Publish :: "task_cfg \<Rightarrow> tdb env \<Rightarrow> string \<Rightarrow> string \<Rightarrow> string \<Rightarrow> int \<Rightarrow> (tdb, gerr + task_result) io" where
  "Publish c env actor taskID requestID expected =
     mutate c env actor taskID requestID ''publish'' (PExpected expected) (publish_task expected)"

definition close_task :: "int \<Rightarrow> mutation" where
  "close_task expected tx t role now =
     (case requireManager role of Inl e \<Rightarrow> err e | Inr _ \<Rightarrow>
      guard (tk_Status t \<noteq> ''published'') (conflict ''task is not an unchanged published task'') (
      guard (tk_Version t \<noteq> expected) (versionConflict ''task version changed'' (tk_Version t)) (
      then_ok (store (query tx (\<lambda>s. length (filter (\<lambda>b. sb_TaskID b = tk_ID t \<and> sb_Status b = ''submitted'') (submissions s))))) (\<lambda>pending.
      guard (pending > 0) (conflict ''review pending submissions before closing'') (
      let f = (\<lambda>t. t\<lparr>tk_Status := ''closed'', tk_Version := tk_Version t + 1, tk_ClosedAt := now, tk_UpdatedAt := now\<rparr>) in
      then_ok (store (exec tx (set_task (tk_ID t) f))) (\<lambda>_.
      ok (TaskResult (f t), [], [(''group'', tk_GroupID t)])))))))"

definition Close :: "task_cfg \<Rightarrow> tdb env \<Rightarrow> string \<Rightarrow> string \<Rightarrow> string \<Rightarrow> int \<Rightarrow> (tdb, gerr + task_result) io" where
  "Close c env actor taskID requestID expected =
     mutate c env actor taskID requestID ''close'' (PExpected expected) (close_task expected)"

section \<open>Submissions\<close>

text \<open>
  The two messages of \<open>validateTaskAttachments\<close>, in UTF-8: the attachment does not exist, is not ready or is not the
  submitter's; and the attachment does not belong to this group.
\<close>

definition ErrAttachmentOwner :: string where
  "ErrAttachmentOwner = bytes [233, 153, 132, 228, 187, 182, 228, 184, 141, 229, 173, 152, 229, 156, 168, 227, 128, 129, 230, 156, 170, 229, 176, 177, 231, 187, 170, 230, 136, 150, 228, 184, 141, 229, 177, 158, 228, 186, 142, 229, 189, 147, 229, 137, 141, 230, 143, 144, 228, 186, 164, 228, 186, 186]"

definition ErrAttachmentGroup :: string where
  "ErrAttachmentGroup = bytes [233, 153, 132, 228, 187, 182, 228, 184, 141, 229, 177, 158, 228, 186, 142, 229, 189, 147, 229, 137, 141, 229, 173, 166, 228, 185, 160, 231, 190, 164]"

fun validateTaskAttachments :: "tdb env \<Rightarrow> string \<Rightarrow> string \<Rightarrow> string list \<Rightarrow> (tdb, gerr + unit) io" where
  "validateTaskAttachments tx groupID actor [] = ok ()"
| "validateTaskAttachments tx groupID actor (i # ids) =
     then_ok (store (query tx (\<lambda>s. find (\<lambda>a. at_id a = i \<and> at_uploader a = actor \<and> at_status a = ''ready'') (attachments s)))) (\<lambda>r.
     case r of None \<Rightarrow> err (bad ErrAttachmentOwner)
     | Some a \<Rightarrow> if at_group a \<noteq> groupID then err (bad ErrAttachmentGroup)
         else validateTaskAttachments tx groupID actor ids)"

definition submission_keys :: "sub_row unique_key list" where
  "submission_keys =
     [(''task_submissions.PRIMARY'', \<lambda>a b. sb_ID a = sb_ID b),
      (''task_submissions.uk_task_submitter'', \<lambda>a b. sb_TaskID a = sb_TaskID b \<and> sb_UserID a = sb_UserID b)]"

definition managers_of :: "string \<Rightarrow> tdb \<Rightarrow> string list" where
  "managers_of g s = order_asc id (map gm_user (filter (\<lambda>m. gm_group m = g \<and> gm_status m = ''active''
     \<and> gm_role m \<in> {''owner'', ''admin''}) (member_rows s)))"

definition submit_answer :: "string \<Rightarrow> string \<Rightarrow> string \<Rightarrow> string list \<Rightarrow> int \<Rightarrow> task_cfg \<Rightarrow> string \<Rightarrow> mutation" where
  "submit_answer actor text link ids expected c taskID tx t role now =
     guard (role \<noteq> ''member'') missing (
     guard (tk_Status t \<noteq> ''published'') (conflict ''task is not accepting submissions'') (
     guard (tk_DueAt t > 0 \<and> now \<ge> tk_DueAt t) (conflict ''task deadline has passed'') (
     then_ok (validateTaskAttachments tx (tk_GroupID t) actor ids) (\<lambda>_.
     then_ok (store (query tx (\<lambda>s. find (\<lambda>b. sb_TaskID b = taskID \<and> sb_UserID b = actor) (submissions s)))) (\<lambda>row.
     then_ok (case row of
       None \<Rightarrow>
         guard (expected \<noteq> 0) (versionConflict ''submission version changed'' 0) (
         then_ok (store (newTaskID c ''ts_'')) (\<lambda>sid.
         let b = \<lparr>sb_ID = sid, sb_TaskID = taskID, sb_UserID = actor, sb_Text = text, sb_Link = link, sb_AttachmentIDs = ids,
              sb_Status = ''submitted'', sb_AttemptNo = 1, sb_Version = 1, sb_ReviewerID = [], sb_ReviewNote = [],
              sb_SubmittedAt = now, sb_ReviewedAt = 0\<rparr> in
         then_ok (store (exec tx (run_insert submissions submissions_update (ins submission_keys b)))) (\<lambda>_. ok b)))
     | Some b \<Rightarrow>
         guard (sb_Version b \<noteq> expected) (versionConflict ''submission version changed'' (sb_Version b)) (
         guard (sb_Status b \<noteq> ''returned'') (conflict ''submission is not an unchanged returned submission'') (
         let f = (\<lambda>b. b\<lparr>sb_Text := text, sb_Link := link, sb_AttachmentIDs := ids, sb_Status := ''submitted'',
              sb_AttemptNo := sb_AttemptNo b + 1, sb_Version := sb_Version b + 1, sb_ReviewerID := [], sb_ReviewNote := [],
              sb_ReviewedAt := 0, sb_SubmittedAt := now\<rparr>) in
         then_ok (store (exec tx (run_update submissions submissions_update (\<lambda>x. sb_ID x = sb_ID b) f))) (\<lambda>_. ok (f b))))) (\<lambda>b.
     then_ok (store (query tx (managers_of (tk_GroupID t)))) (\<lambda>us.
     ok (SubResult b, sb_ID b, map (\<lambda>u. (''user'', u)) us))))))))"

definition Submit :: "task_cfg \<Rightarrow> tdb env \<Rightarrow> string \<Rightarrow> string \<Rightarrow> string \<Rightarrow> string \<Rightarrow> string \<Rightarrow> int \<Rightarrow> string list \<Rightarrow> (tdb, gerr + task_result) io" where
  "Submit c env actor taskID requestID text link expected ids =
     (let text = trim_space text; link = trim_space link in
      case validateSubmission c text link ids of Inl e \<Rightarrow> err e
      | Inr _ \<Rightarrow> mutate c env actor taskID requestID ''submit'' (PSubmit text link expected ids)
          (submit_answer actor text link ids expected c taskID))"

definition review_answer :: "string \<Rightarrow> string \<Rightarrow> string \<Rightarrow> string \<Rightarrow> int \<Rightarrow> string \<Rightarrow> mutation" where
  "review_answer actor submissionID decision reason expected taskID tx t role now =
     (case requireManager role of Inl e \<Rightarrow> err e | Inr _ \<Rightarrow>
      guard (tk_Status t \<noteq> ''published'') (conflict ''task is closed'') (
      then_ok (store (query tx (\<lambda>s. find (\<lambda>b. sb_ID b = submissionID \<and> sb_TaskID b = taskID) (submissions s)))) (\<lambda>row.
      case row of None \<Rightarrow> err missing
      | Some b \<Rightarrow>
        guard (sb_Version b \<noteq> expected) (versionConflict ''submission version changed'' (sb_Version b)) (
        guard (sb_Status b \<noteq> ''submitted'') (conflict ''submission already reviewed or changed'') (
        let status = (if decision = ''return'' then ''returned'' else ''approved'');
            f = (\<lambda>b. b\<lparr>sb_Status := status, sb_Version := sb_Version b + 1, sb_ReviewerID := actor, sb_ReviewNote := reason,
                       sb_ReviewedAt := now\<rparr>) in
        then_ok (store (exec tx (run_update submissions submissions_update (\<lambda>x. sb_ID x = sb_ID b) f))) (\<lambda>_.
        ok (SubResult (f b), sb_ID b, [(''user'', sb_UserID b)])))))))"

definition Review :: "task_cfg \<Rightarrow> tdb env \<Rightarrow> string \<Rightarrow> string \<Rightarrow> string \<Rightarrow> string \<Rightarrow> string \<Rightarrow> int \<Rightarrow> (tdb, gerr + task_result) io" where
  "Review c env actor submissionID requestID decision reason expected =
     (if \<not> task_db c then err (unavailable (Msg ''database is not configured''))
      else let decision = trim_space decision; reason = trim_space reason in
      guard (decision \<noteq> ''approve'' \<and> decision \<noteq> ''return'') (bad ''decision must be approve or return'') (
      guard (decision = ''return'' \<and> (rune_count reason < 1 \<or> rune_count reason > 1000)) (bad ''return reason must be 1-1000 characters'') (
      let reason = (if decision = ''approve'' then [] else reason) in
      then_ok (store (query env (\<lambda>s. find (\<lambda>b. sb_ID b = submissionID) (submissions s)))) (\<lambda>row.
      case row of None \<Rightarrow> err missing
      | Some b \<Rightarrow> mutate c env actor (sb_TaskID b) requestID ''review'' (PReview submissionID decision reason expected)
          (review_answer actor submissionID decision reason expected (sb_TaskID b))))))"

section \<open>Reading\<close>

record task_detail =
  dt_Task :: task_row
  dt_Role :: string
  dt_MySubmission :: "sub_row option"

definition GetTask :: "task_cfg \<Rightarrow> tdb env \<Rightarrow> string \<Rightarrow> string \<Rightarrow> (tdb, gerr + task_detail) io" where
  "GetTask c env actor taskID =
     (if \<not> task_db c then err (unavailable (Msg ''database is not configured''))
      else then_ok (store (query env (\<lambda>s. find (\<lambda>t. tk_ID t = taskID) (tasks s)))) (\<lambda>row.
      case row of None \<Rightarrow> err missing
      | Some t \<Rightarrow>
        then_ok (requireRole env (tk_GroupID t) actor) (\<lambda>role.
        guard (tk_Status t = ''draft'' \<and> role = ''member'') missing (
        if role = ''member'' then
          then_ok (store (query env (\<lambda>s. find (\<lambda>b. sb_TaskID b = taskID \<and> sb_UserID b = actor) (submissions s)))) (\<lambda>b.
          ok \<lparr>dt_Task = t, dt_Role = role, dt_MySubmission = b\<rparr>)
        else ok \<lparr>dt_Task = t, dt_Role = role, dt_MySubmission = None\<rparr>))))"

text \<open>
  Pages in descending order of (time, id).  The cursor of a page is its last key: \<open>base64.RawURLEncoding\<close>
  of \<open>"%d:%s"\<close>.
\<close>

definition encode_cursor :: "int \<times> string \<Rightarrow> string" where
  "encode_cursor k = raw_url_encode (itoa (fst k) @ '':'' @ snd k)"

text \<open>\<open>strings.SplitN(s, ":", 2)\<close> with two parts.\<close>

definition split_colon :: "string \<Rightarrow> (string \<times> string) option" where
  "split_colon s = (if CHR '':'' \<in> set s then Some (takeWhile (\<lambda>ch. ch \<noteq> CHR '':'') s, tl (dropWhile (\<lambda>ch. ch \<noteq> CHR '':'') s)) else None)"

definition decode_cursor :: "string \<Rightarrow> (int \<times> string) option" where
  "decode_cursor s = (case raw_url_decode s of None \<Rightarrow> None
    | Some t \<Rightarrow> (case split_colon t of None \<Rightarrow> None
       | Some (a, b) \<Rightarrow> map_option (\<lambda>n. (n, b)) (parse_int a)))"

definition page_limit :: "int \<Rightarrow> int" where
  "page_limit l = (let l = (if l \<le> 0 then 20 else l) in if l > 50 then 50 else l)"

text \<open>One page over rows with keys: those before the cursor, newest first, one more than the limit.\<close>

definition page :: "('r \<Rightarrow> int \<times> string) \<Rightarrow> 'r list \<Rightarrow> (int \<times> string) option \<Rightarrow> int \<Rightarrow> 'r list" where
  "page k rows cur limit = take (nat (limit + 1)) (order_desc k (filter (\<lambda>r. case cur of None \<Rightarrow> True
      | Some (at, i) \<Rightarrow> fst (k r) < at \<or> (fst (k r) = at \<and> snd (k r) < i)) rows))"

definition page_answer :: "('r \<Rightarrow> int \<times> string) \<Rightarrow> 'r list \<Rightarrow> int \<Rightarrow> 'r list \<times> string" where
  "page_answer k rows limit =
     (if int (length rows) > limit then (take (nat limit) rows, encode_cursor (k (last (take (nat limit) rows)))) else (rows, []))"

definition task_key :: "task_row \<Rightarrow> int \<times> string" where
  "task_key t = (tk_CreatedAt t, tk_ID t)"

definition ListTasks :: "task_cfg \<Rightarrow> tdb env \<Rightarrow> string \<Rightarrow> string \<Rightarrow> string \<Rightarrow> int \<Rightarrow> (tdb, gerr + task_row list \<times> string) io" where
  "ListTasks c env actor groupID cur limit =
     (if \<not> task_db c then err (unavailable (Msg ''database is not configured''))
      else then_ok (requireRole env groupID actor) (\<lambda>role.
      let limit = page_limit limit in
      if cur \<noteq> [] \<and> decode_cursor cur = None then err (bad ''invalid cursor'')
      else then_ok (store (query env (\<lambda>s. page task_key
             (filter (\<lambda>t. tk_GroupID t = groupID \<and> (role = ''member'' \<longrightarrow> tk_Status t \<noteq> ''draft'')) (tasks s))
             (if cur = [] then None else decode_cursor cur) limit))) (\<lambda>rows.
      ok (page_answer task_key rows limit))))"

definition submission_key :: "sub_row \<Rightarrow> int \<times> string" where
  "submission_key b = (sb_SubmittedAt b, sb_ID b)"

definition ListSubmissions :: "task_cfg \<Rightarrow> tdb env \<Rightarrow> string \<Rightarrow> string \<Rightarrow> string \<Rightarrow> int \<Rightarrow> (tdb, gerr + sub_row list \<times> string) io" where
  "ListSubmissions c env actor taskID cur limit =
     (if \<not> task_db c then err (unavailable (Msg ''database is not configured''))
      else then_ok (GetTask c env actor taskID) (\<lambda>d.
      case requireManager (dt_Role d) of Inl e \<Rightarrow> err e | Inr _ \<Rightarrow>
      let limit = page_limit limit in
      if cur \<noteq> [] \<and> (case decode_cursor cur of None \<Rightarrow> True | Some (at, i) \<Rightarrow> i = [] \<or> at \<le> 0) then err (bad ''invalid cursor'')
      else then_ok (store (query env (\<lambda>s. page submission_key (filter (\<lambda>b. sb_TaskID b = taskID) (submissions s))
             (if cur = [] then None else decode_cursor cur) limit))) (\<lambda>rows.
      ok (page_answer submission_key rows limit))))"

record progress =
  pg_TaskID :: string
  pg_Total :: int
  pg_NotSubmitted :: int
  pg_Submitted :: int
  pg_Returned :: int
  pg_Approved :: int

text \<open>The left join pairs every active member with the member's submission, which is unique.\<close>

definition select_progress :: "string \<Rightarrow> string \<Rightarrow> tdb \<Rightarrow> progress" where
  "select_progress taskID groupID s =
     (let joined = map (\<lambda>m. find (\<lambda>b. sb_TaskID b = taskID \<and> sb_UserID b = gm_user m) (submissions s))
            (filter (\<lambda>m. gm_group m = groupID \<and> gm_status m = ''active'' \<and> gm_role m = ''member'') (member_rows s));
          count = (\<lambda>st. int (length (filter (\<lambda>b. case b of None \<Rightarrow> False | Some b \<Rightarrow> sb_Status b = st) joined)))
      in \<lparr>pg_TaskID = taskID, pg_Total = int (length joined), pg_NotSubmitted = int (length (filter (\<lambda>b. b = None) joined)),
          pg_Submitted = count ''submitted'', pg_Returned = count ''returned'', pg_Approved = count ''approved''\<rparr>)"

definition Progress :: "task_cfg \<Rightarrow> tdb env \<Rightarrow> string \<Rightarrow> string \<Rightarrow> (tdb, gerr + progress) io" where
  "Progress c env actor taskID =
     (if \<not> task_db c then err (unavailable (Msg ''database is not configured''))
      else then_ok (GetTask c env actor taskID) (\<lambda>d.
      case requireManager (dt_Role d) of Inl e \<Rightarrow> err e | Inr _ \<Rightarrow>
      store (query env (select_progress taskID (tk_GroupID (dt_Task d))))))"

section \<open>A concrete task\<close>

text \<open>A published task of the group \<open>g1\<close> with one submission waiting for review.\<close>

definition demo_tasks :: task_cfg where
  "demo_tasks = \<lparr>task_db = True, task_id = \<lambda>n. Inr (replicate n (CHR ''x'')), request_hash = \<lambda>a t p. a @ t, parse_url = \<lambda>_. None\<rparr>"

definition demo_task :: task_row where
  "demo_task = \<lparr>tk_ID = ''lt1'', tk_GroupID = ''g1'', tk_Title = ''T'', tk_Description = [], tk_DueAt = 0, tk_Status = ''published'',
     tk_Version = 2, tk_CreatedBy = ''al'', tk_PublishedAt = 5, tk_ClosedAt = 0, tk_CreatedAt = 4, tk_UpdatedAt = 5\<rparr>"

definition demo_sub :: sub_row where
  "demo_sub = \<lparr>sb_ID = ''ts1'', sb_TaskID = ''lt1'', sb_UserID = ''bo'', sb_Text = ''a'', sb_Link = [], sb_AttachmentIDs = [],
     sb_Status = ''submitted'', sb_AttemptNo = 1, sb_Version = 1, sb_ReviewerID = [], sb_ReviewNote = [], sb_SubmittedAt = 6,
     sb_ReviewedAt = 0\<rparr>"

definition demo_task_event :: task_event where
  "demo_task_event = \<lparr>te_ID = ''te1'', te_TaskID = ''lt1'', te_SubmissionID = [], te_Actor = ''al'', te_Action = ''publish'',
     te_RequestID = ''request-1'', te_Hash = ''publishlt1'', te_Result = TaskResult demo_task, te_CreatedAt = 5\<rparr>"

definition demo_tdb :: tdb where
  "demo_tdb = im.extend demo_world \<lparr>tasks = [demo_task], submissions = [demo_sub], task_events = [demo_task_event], notices = [], users = []\<rparr>"

lemma demo_tdb_simps:
  "tasks demo_tdb = [demo_task]" "submissions demo_tdb = [demo_sub]" "task_events demo_tdb = [demo_task_event]"
  by (simp_all add: demo_tdb_def im.defs)

end
