(* ===== verification/Task_Life_Cycle.thy ===== *)
theory Task_Life_Cycle
  imports Learning_Task
begin

text \<open>
  The life cycle of learning tasks as an abstract transition system, and the proof that every operation of the
  service is a step of it: what the environment and the abstract steps keep, the service keeps, whatever
  calls fail.  Properties of tasks and submissions are then proved by rule induction over the steps.
\<close>

section \<open>The task life cycle\<close>

definition active_role :: "string \<Rightarrow> string \<Rightarrow> tdb \<Rightarrow> string option" where
  "active_role g u s = map_option gm_role (find (\<lambda>m. gm_group m = g \<and> gm_user m = u \<and> gm_status m = ''active''
     \<and> list_ex (\<lambda>g'. gr_id g' = g \<and> gr_status g' = ''active'') (group_rows s)) (member_rows s))"

definition manages :: "string \<Rightarrow> bool" where
  "manages role \<longleftrightarrow> role = ''owner'' \<or> role = ''admin''"

definition with_tasks :: "task_row \<Rightarrow> task_row \<Rightarrow> tdb \<Rightarrow> tdb" where
  "with_tasks t t' s = s\<lparr>tasks := map (\<lambda>x. if tk_ID x = tk_ID t then t' else x) (tasks s)\<rparr>"

definition with_sub :: "sub_row \<Rightarrow> sub_row \<Rightarrow> tdb \<Rightarrow> tdb" where
  "with_sub b b' s = s\<lparr>submissions := map (\<lambda>x. if sb_ID x = sb_ID b then b' else x) (submissions s)\<rparr>"

text \<open>
  The changes the service may make, as a specification: who may make them, in which status of the task or the
  submission, and that every change of a row moves its version by one.
\<close>

inductive change :: "string \<Rightarrow> string \<Rightarrow> task_row \<Rightarrow> int \<Rightarrow> tdb \<Rightarrow> tdb \<Rightarrow> bool" for actor role t now s where
  edit: "manages role \<Longrightarrow> tk_Status t = ''draft'' \<Longrightarrow>
     change actor role t now s (with_tasks t (t\<lparr>tk_Title := ti, tk_Description := de, tk_DueAt := du,
        tk_Version := tk_Version t + 1, tk_UpdatedAt := now\<rparr>) s)"
| publish: "manages role \<Longrightarrow> tk_Status t = ''draft'' \<Longrightarrow> tk_DueAt t \<le> 0 \<or> now < tk_DueAt t \<Longrightarrow>
     change actor role t now s (with_tasks t (t\<lparr>tk_Status := ''published'', tk_Version := tk_Version t + 1,
        tk_PublishedAt := now, tk_UpdatedAt := now\<rparr>) s)"
| close: "manages role \<Longrightarrow> tk_Status t = ''published'' \<Longrightarrow>
     \<forall>b\<in>set (submissions s). sb_TaskID b = tk_ID t \<longrightarrow> sb_Status b \<noteq> ''submitted'' \<Longrightarrow>
     change actor role t now s (with_tasks t (t\<lparr>tk_Status := ''closed'', tk_Version := tk_Version t + 1,
        tk_ClosedAt := now, tk_UpdatedAt := now\<rparr>) s)"
| submit: "role = ''member'' \<Longrightarrow> tk_Status t = ''published'' \<Longrightarrow> tk_DueAt t \<le> 0 \<or> now < tk_DueAt t \<Longrightarrow>
     sb_TaskID b = tk_ID t \<Longrightarrow> sb_UserID b = actor \<Longrightarrow> sb_Status b = ''submitted'' \<Longrightarrow> sb_Version b = 1 \<Longrightarrow>
     \<forall>x\<in>set (submissions s). sb_ID x \<noteq> sb_ID b \<and> \<not> (sb_TaskID x = tk_ID t \<and> sb_UserID x = actor) \<Longrightarrow>
     change actor role t now s (s\<lparr>submissions := submissions s @ [b]\<rparr>)"
| resubmit: "role = ''member'' \<Longrightarrow> tk_Status t = ''published'' \<Longrightarrow> tk_DueAt t \<le> 0 \<or> now < tk_DueAt t \<Longrightarrow>
     b \<in> set (submissions s) \<Longrightarrow> sb_TaskID b = tk_ID t \<Longrightarrow> sb_UserID b = actor \<Longrightarrow> sb_Status b = ''returned'' \<Longrightarrow>
     change actor role t now s (with_sub b (b\<lparr>sb_Text := te, sb_Link := li, sb_AttachmentIDs := ids, sb_Status := ''submitted'',
        sb_AttemptNo := sb_AttemptNo b + 1, sb_Version := sb_Version b + 1, sb_ReviewerID := [], sb_ReviewNote := [],
        sb_ReviewedAt := 0, sb_SubmittedAt := now\<rparr>) s)"
| review: "manages role \<Longrightarrow> tk_Status t = ''published'' \<Longrightarrow> b \<in> set (submissions s) \<Longrightarrow> sb_TaskID b = tk_ID t \<Longrightarrow>
     sb_Status b = ''submitted'' \<Longrightarrow> st \<in> {''approved'', ''returned''} \<Longrightarrow>
     change actor role t now s (with_sub b (b\<lparr>sb_Status := st, sb_Version := sb_Version b + 1, sb_ReviewerID := actor,
        sb_ReviewNote := no, sb_ReviewedAt := now\<rparr>) s)"

text \<open>One step of the store: a change of a task by an active member of its group, or a new draft, recorded under a new request id.\<close>

inductive task_step :: "tdb \<Rightarrow> tdb \<Rightarrow> bool" where
  changed: "t \<in> set (tasks s) \<Longrightarrow> active_role (tk_GroupID t) (te_Actor e) s = Some role \<Longrightarrow>
     \<forall>x\<in>set (task_events s). te_Actor x = te_Actor e \<longrightarrow> te_RequestID x \<noteq> te_RequestID e \<Longrightarrow>
     change (te_Actor e) role t (te_CreatedAt e) s s1 \<Longrightarrow> te_TaskID e = tk_ID t \<Longrightarrow>
     task_step s (s1\<lparr>task_events := task_events s @ [e], notices := ns\<rparr>)"
| drafted: "active_role (tk_GroupID t) (te_Actor e) s = Some role \<Longrightarrow> manages role \<Longrightarrow>
     \<forall>x\<in>set (task_events s). te_Actor x = te_Actor e \<longrightarrow> te_RequestID x \<noteq> te_RequestID e \<Longrightarrow>
     tk_ID t \<notin> tk_ID ` set (tasks s) \<Longrightarrow> tk_Status t = ''draft'' \<Longrightarrow> tk_Version t = 1 \<Longrightarrow> te_TaskID e = tk_ID t \<Longrightarrow>
     task_step s (s\<lparr>tasks := tasks s @ [t], task_events := task_events s @ [e], notices := ns\<rparr>)"

inductive_cases changeE [elim!]: "change actor role t now s s'"

inductive_cases task_stepE: "task_step s s'"

text \<open>The primary and unique keys.\<close>

definition tasks_keyed :: "tdb \<Rightarrow> bool" where
  "tasks_keyed s \<longleftrightarrow> distinct (map tk_ID (tasks s)) \<and> distinct (map sb_ID (submissions s))
     \<and> distinct (map (\<lambda>b. (sb_TaskID b, sb_UserID b)) (submissions s))"

lemma map_keyed: "(\<And>x. x \<in> set xs \<Longrightarrow> k x = k a \<Longrightarrow> h b = h x) \<Longrightarrow> map h (map (\<lambda>x. if k x = k a then b else x) xs) = map h xs"
  by (induction xs) auto

lemma with_tasks_ids: "tk_ID t' = tk_ID t \<Longrightarrow> map tk_ID (tasks (with_tasks t t' s)) = map tk_ID (tasks s)"
  unfolding with_tasks_def by (simp add: comp_def cong: map_cong)

lemma with_sub_keys:
  assumes "distinct (map sb_ID (submissions s))" "b \<in> set (submissions s)" "sb_ID b' = sb_ID b"
    "sb_TaskID b' = sb_TaskID b" "sb_UserID b' = sb_UserID b"
  shows "map sb_ID (submissions (with_sub b b' s)) = map sb_ID (submissions s)"
    "map (\<lambda>b. (sb_TaskID b, sb_UserID b)) (submissions (with_sub b b' s)) = map (\<lambda>b. (sb_TaskID b, sb_UserID b)) (submissions s)"
  using key_row_unique [OF assms(1) _ assms(2)] assms(3-5)
  by (auto simp: with_sub_def)

lemma change_keyed: "change actor role t now s s' \<Longrightarrow> t \<in> set (tasks s) \<Longrightarrow> tasks_keyed s \<Longrightarrow> tasks_keyed s'"
proof (induction rule: change.induct)
  case (submit b)
  then show ?case by (force simp: tasks_keyed_def)
next
  case (resubmit b te li ids)
  then show ?case by (simp add: tasks_keyed_def with_sub_keys) (simp add: with_sub_def)
next
  case (review b st no)
  then show ?case by (simp add: tasks_keyed_def with_sub_keys) (simp add: with_sub_def)
qed (simp_all add: tasks_keyed_def with_tasks_ids, simp_all add: with_tasks_def)

lemma task_step_keyed: "task_step s s' \<Longrightarrow> tasks_keyed s \<Longrightarrow> tasks_keyed s'"
  by (induction rule: task_step.induct) (auto simp: tasks_keyed_def dest!: change_keyed)

text \<open>Updates by primary key.\<close>

lemma set_task_eq:
  assumes "tasks_keyed s" "t \<in> set (tasks s)"
  shows "set_task (tk_ID t) f s = (Inr (affected (\<lambda>x. tk_ID x = tk_ID t) f (tasks s)), with_tasks t (f t) s)"
proof -
  have "f x = f t" if "x \<in> set (tasks s)" "tk_ID x = tk_ID t" for x
    using key_row_unique [of tk_ID "tasks s" x t] assms that by (simp add: tasks_keyed_def)
  then show ?thesis by (simp add: set_task_def run_update_def with_tasks_def upd_def cong: map_cong)
qed

lemma update_sub_eq:
  assumes "tasks_keyed s" "b \<in> set (submissions s)"
  shows "submissions_update (upd (\<lambda>x. sb_ID x = sb_ID b) f) s = with_sub b (f b) s"
proof -
  have "f x = f b" if "x \<in> set (submissions s)" "sb_ID x = sb_ID b" for x
    using key_row_unique [of sb_ID "submissions s" x b] assms that by (simp add: tasks_keyed_def)
  then show ?thesis by (simp add: with_sub_def upd_def cong: map_cong)
qed

subsection \<open>Rules for the shared steps\<close>

lemma wp_store: "wp m (\<lambda>r s'. Q (case r of Inl e \<Rightarrow> Inl (unavailable e) | Inr a \<Rightarrow> Inr a) s') s \<Longrightarrow> wp (store m) Q s"
  unfolding store_def by (rule wp_bind, erule wp_mono) (auto intro: wp_err wp_ok split: sum.split)

lemma wp_store_query:
  "wp (store (query (quiet env) f)) (\<lambda>r s'. s' = s \<and> (\<forall>x. r = Inr x \<longrightarrow> x = f s)) s"
  by (rule wp_store, rule wp_query) simp_all

lemma wp_store_draw: "wp (store (newTaskID c p)) (\<lambda>r s'. s' = s) s"
  by (rule wp_store) (simp add: newTaskID_def wp_draw)

lemma wp_guard [wp_rules]: "(b \<Longrightarrow> Q (Inl e) s) \<Longrightarrow> (\<not> b \<Longrightarrow> wp m Q s) \<Longrightarrow> wp (guard b e m) Q s"
  by (simp add: guard_def wp_err)

lemma keeps_store [keeps_rules]: "keeps I m \<Longrightarrow> keeps I (store m)"
  unfolding store_def by (intro keeps_rules)

lemma keeps_guard [keeps_rules]: "(\<not> b \<Longrightarrow> keeps I m) \<Longrightarrow> keeps I (guard b e m)"
  unfolding guard_def by (intro keeps_rules)

lemma wp_requireRole:
  "wp (requireRole (quiet env) g u) (\<lambda>r s'. s' = s \<and> (\<forall>role. r = Inr role \<longrightarrow> active_role g u s = Some role)) s"
  unfolding requireRole_def
  apply (rule wp_if, rule wp_err, simp)
  apply (rule wp_bindI [where R = "\<lambda>r s'. s' = s \<and> (\<forall>m. r = Inr (Some m) \<longrightarrow> active_role g u s = Some (gm_role m))"])
   apply (rule wp_query, simp, simp add: active_role_def)
  apply (auto intro!: wp_case_sum wp_case_option wp_err wp_ok)
  done

lemma wp_checkIdempotent:
  "wp (checkIdempotent (quiet env) u req h) (\<lambda>r s'. s' = s \<and> (r = Inr None \<longrightarrow>
     (\<forall>x\<in>set (task_events s). te_Actor x = u \<longrightarrow> te_RequestID x \<noteq> req))) s"
  unfolding checkIdempotent_def
  apply (rule wp_bindI [where R = "\<lambda>r s'. s' = s \<and> (\<forall>x. r = Inr x \<longrightarrow> x = find (\<lambda>e. te_Actor e = u \<and> te_RequestID e = req) (task_events s))"])
   apply (rule wp_query, simp, simp)
  apply (auto intro!: wp_case_sum wp_case_option wp_if wp_err wp_ok dest!: sym [of None] simp: find_None_iff_all)
  apply blast
  done

lemma wp_each_frame:
  assumes "\<And>x w. wp (f x) (\<lambda>_ w'. R w w') w" "\<And>w. R w w" "\<And>w1 w2 w3. R w1 w2 \<Longrightarrow> R w2 w3 \<Longrightarrow> R w1 w3"
  shows "wp (each f xs) (\<lambda>_ w'. R w w') w"
proof (induction xs arbitrary: w)
  case Nil
  show ?case by (simp add: wp_ok assms(2))
next
  case (Cons x xs)
  show ?case
    unfolding each.simps
    by (rule wp_then_okI [OF assms(1)], assumption, rule wp_mono [OF Cons.IH]) (rule assms(3))
qed

lemma notices_same: "\<exists>ns. w = w\<lparr>notices := ns\<rparr>"
  by (rule exI [of _ "notices w"]) simp

lemma wp_insert_notice:
  "wp (store (exec (quiet env) (\<lambda>s. run_insert notices notices_update (ins notice_keys (n s)) s)))
     (\<lambda>_ w'. \<exists>ns. w' = w\<lparr>notices := ns\<rparr>) w"
proof (rule wp_store, rule wp_exec)
  show "\<exists>ns. interfere (quiet env) k w = w\<lparr>notices := ns\<rparr>" for k using notices_same by simp
  have "\<exists>ns. w2 = w\<lparr>notices := ns\<rparr>" if "run_insert notices notices_update (ins notice_keys (n w)) w = (r, w2)" for r w2
    using that notices_same by (elim run_insert_cases) auto
  then show "case run_insert notices notices_update (ins notice_keys (n (interfere (quiet env) k w))) (interfere (quiet env) k w) of
      (r, w2) \<Rightarrow> (\<exists>ns. w2 = w\<lparr>notices := ns\<rparr>) \<and> (\<exists>ns. w2 = w\<lparr>notices := ns\<rparr>)" for k
    by (simp split: prod.split)
qed

lemma wp_saveEvent:
  "wp (saveEvent (quiet env) e targets now) (\<lambda>r s'. r = Inr () \<longrightarrow>
     (\<exists>ns. s' = s\<lparr>task_events := task_events s @ [e], notices := ns\<rparr>)) s"
  unfolding saveEvent_def
  apply (rule wp_bindI [where R = "\<lambda>r s'. r = Inr () \<longrightarrow> s' = s\<lparr>task_events := task_events s @ [e]\<rparr>"])
   apply (rule wp_exec, simp)
   apply (simp add: run_insert_def ins_Inr_iff split: sum.split)
  apply (rule wp_case_sum)
   apply (rule wp_if, rule wp_err, simp, rule wp_err, simp)
  subgoal for r s1 x
    apply (rule wp_mono [OF wp_each_frame [where R = "\<lambda>w w'. \<exists>ns. w' = w\<lparr>notices := ns\<rparr>"]])
       apply (rule wp_case_prod)
       apply (rule wp_insert_notice)
      apply (rule notices_same)
     apply auto
    done
  done

subsection \<open>Every mutation is a change of the specification\<close>

definition makes_change :: "string \<Rightarrow> string \<Rightarrow> mutation \<Rightarrow> bool" where
  "makes_change actor taskID fn \<longleftrightarrow> (\<forall>env t role now s. tasks_keyed s \<longrightarrow> t \<in> set (tasks s) \<longrightarrow> tk_ID t = taskID \<longrightarrow>
     wp (fn (quiet env) t role now) (\<lambda>r s1. \<not> isl r \<longrightarrow> change actor role t now s s1) s)"

lemma wp_set_task:
  assumes "tasks_keyed s" "t \<in> set (tasks s)"
  shows "wp (store (exec (quiet env) (set_task (tk_ID t) f))) (\<lambda>r s'. \<forall>n. r = Inr n \<longrightarrow> s' = with_tasks t (f t) s) s"
  by (rule wp_store, rule wp_exec) (simp_all add: set_task_eq [OF assms])

lemma wp_update_sub:
  assumes "tasks_keyed s" "b \<in> set (submissions s)"
  shows "wp (store (exec (quiet env) (run_update submissions submissions_update (\<lambda>x. sb_ID x = sb_ID b) f)))
     (\<lambda>r s'. \<forall>n. r = Inr n \<longrightarrow> s' = with_sub b (f b) s) s"
  by (rule wp_store, rule wp_exec) (simp_all add: run_update_def update_sub_eq [OF assms])

lemma wp_manager: "(manages role \<Longrightarrow> wp m (\<lambda>r s'. \<not> isl r \<longrightarrow> P s') s) \<Longrightarrow>
   wp (case requireManager role of Inl e \<Rightarrow> err e | Inr _ \<Rightarrow> m) (\<lambda>r s'. \<not> isl r \<longrightarrow> P s') s"
  by (simp add: requireManager_def manages_def wp_err)

lemma edit_task_change: "makes_change actor taskID (edit_task ti de du expected)"
  unfolding makes_change_def edit_task_def Let_def
  by (intro allI impI wp_manager wp_case_sum wp_err wp_guard wp_then_okI [OF wp_set_task])
     (auto intro!: wp_ok change.intros)

lemma publish_task_change: "makes_change actor taskID (publish_task expected)"
  unfolding makes_change_def publish_task_def Let_def
  by (intro allI impI wp_manager wp_guard wp_then_okI [OF wp_set_task])
     (auto intro!: wp_ok change.intros)

lemma close_task_change: "makes_change actor taskID (close_task expected)"
  unfolding makes_change_def close_task_def Let_def
  apply (intro allI impI wp_manager wp_guard)
    apply simp
   apply simp
  apply (rule wp_then_okI [OF wp_store_query], simp)
  apply (elim conjE, hypsubst)
  apply (rule wp_guard, simp)
  apply (rule wp_then_okI [OF wp_set_task])
      apply (auto intro!: wp_ok change.intros simp: filter_empty_conv)
  done

lemma wp_validateTaskAttachments: "wp (validateTaskAttachments (quiet env) g u ids) (\<lambda>_ s'. s' = s) s"
proof (induction ids)
  case (Cons i ids)
  show ?case
    unfolding validateTaskAttachments.simps
    by (rule wp_then_okI [OF wp_store_query]) (auto intro!: wp_case_option wp_if wp_err Cons)
qed (simp add: wp_ok)

lemma clash_None_keys:
  "clash submission_keys b rows = None \<longleftrightarrow> (\<forall>x\<in>set rows. sb_ID x \<noteq> sb_ID b \<and> \<not> (sb_TaskID x = sb_TaskID b \<and> sb_UserID x = sb_UserID b))"
  by (auto simp: clash_None_iff submission_keys_def)

lemma submit_answer_change:
  "makes_change actor taskID (submit_answer actor text link ids expected c taskID)"
  unfolding makes_change_def
proof (intro allI impI)
  fix env t role now s
  assume k: "tasks_keyed s" and t: "t \<in> set (tasks s)" and tid: "tk_ID t = taskID"
  let ?Q = "\<lambda>r s1. \<not> isl r \<longrightarrow> change actor role t now s s1"
    have fin: "wp (then_ok (store (query (quiet env) (managers_of (tk_GroupID t)))) (\<lambda>us. ok (SubResult b, sb_ID b, map (\<lambda>u. (''user'', u)) us))) ?Q s1"
      if "change actor role t now s s1" for b s1
      by (rule wp_then_okI [OF wp_store_query]) (use that in \<open>auto intro!: wp_ok\<close>)
    show "wp (submit_answer actor text link ids expected c taskID (quiet env) t role now) ?Q s"
      unfolding submit_answer_def Let_def
      apply (intro wp_guard)
         apply simp
        apply simp
       apply simp
      apply (rule wp_then_okI [OF wp_validateTaskAttachments], simp, hypsubst)
      apply (rule wp_then_okI [OF wp_store_query], simp)
      apply (elim conjE, hypsubst)
      apply (rule wp_then_okI [where R = "\<lambda>r s1. \<not> isl r \<longrightarrow> change actor role t now s s1"])
        apply (rule wp_case_option)
         apply (rule wp_guard, simp)
         apply (rule wp_then_okI [OF wp_store_draw], simp)
         apply hypsubst
         apply (rule wp_then_okI [where R = "\<lambda>r s'. \<not> isl r \<longrightarrow> change actor role t now s s'"])
           apply (rule wp_store, rule wp_exec, simp)
           apply (auto simp: run_insert_def ins_Inr_iff clash_None_keys tid split: sum.split intro!: change.submit) [1]
          apply simp
         apply (rule wp_ok, simp)
        apply (rule wp_guard, simp)
        apply (rule wp_guard, simp)
        subgoal premises prems for x0 s0 row s1 b
        proof -
          have "find (\<lambda>b. sb_TaskID b = taskID \<and> sb_UserID b = actor) (submissions s) = Some b" using prems by simp
          from find_Some_iff_in [OF this] have b: "b \<in> set (submissions s)" "sb_TaskID b = tk_ID t" "sb_UserID b = actor"
            by (simp_all add: tid)
          show ?thesis
            by (rule wp_then_okI [OF wp_update_sub [OF k b(1)]]) (use b prems in \<open>auto intro!: wp_ok change.resubmit\<close>)
        qed
       apply simp
      apply (rule fin, simp)
      done
qed

lemma review_answer_change: "makes_change actor taskID (review_answer actor sid decision reason expected taskID)"
  unfolding makes_change_def
proof (intro allI impI)
  fix env t role now s
  assume k: "tasks_keyed s" and t: "t \<in> set (tasks s)" and tid: "tk_ID t = taskID"
  show "wp (review_answer actor sid decision reason expected taskID (quiet env) t role now)
    (\<lambda>r s1. \<not> isl r \<longrightarrow> change actor role t now s s1) s"
    unfolding review_answer_def Let_def
    apply (rule wp_manager)
    apply (rule wp_guard, simp)
    apply (rule wp_then_okI [OF wp_store_query], simp)
    apply (elim conjE, hypsubst)
    apply (rule wp_case_option, rule wp_err, simp)
    apply (rule wp_guard, simp)
    apply (rule wp_guard, simp)
    subgoal premises prems for row s1 b
    proof -
      have "find (\<lambda>b. sb_ID b = sid \<and> sb_TaskID b = taskID) (submissions s) = Some b" using prems by simp
      from find_Some_iff_in [OF this] have b: "b \<in> set (submissions s)" "sb_TaskID b = tk_ID t"
        by (simp_all add: tid)
      show ?thesis
        by (rule wp_then_okI [OF wp_update_sub [OF k b(1)]])
           (use b prems in \<open>auto intro!: wp_ok change.review\<close>)
    qed
    done
qed

lemma change_events: "change actor role t now s s' \<Longrightarrow> task_events s' = task_events s"
  by (induction rule: change.induct) (simp_all add: with_tasks_def with_sub_def)

lemma wp_record_change:
  assumes ch: "change actor role t now s s1" and t: "t \<in> set (tasks s)" "tk_ID t = taskID"
    and role: "active_role (tk_GroupID t) actor s = Some role"
    and new: "\<forall>x\<in>set (task_events s). te_Actor x = actor \<longrightarrow> te_RequestID x \<noteq> req"
  shows "wp (then_tx (store (newTaskID c ''te_'')) (\<lambda>eventID.
       then_tx (saveEvent (quiet env) \<lparr>te_ID = eventID, te_TaskID = taskID, te_SubmissionID = sid, te_Actor = actor,
         te_Action = action, te_RequestID = req, te_Hash = h, te_Result = result, te_CreatedAt = now\<rparr> targets now) (\<lambda>_.
       State_Monad.return (Commit (Inr result)))))
     (\<lambda>r s'. case r of Rollback _ \<Rightarrow> True | Commit _ \<Rightarrow> task_step s s') s1"
  apply (rule wp_then_txI [OF wp_store_draw], simp, hypsubst)
  apply (rule wp_then_txI [OF wp_saveEvent], simp)
  apply (rule wp_return)
  using task_step.changed [OF t(1), where e = "\<lparr>te_ID = i, te_TaskID = taskID, te_SubmissionID = sid, te_Actor = actor,
      te_Action = action, te_RequestID = req, te_Hash = h, te_Result = result, te_CreatedAt = now\<rparr>" and role = role and ?s1.0 = s1 for i]
    ch t(2) role new change_events [OF ch]
  by auto

lemma wp_mutate_tx:
  assumes fn: "makes_change actor taskID fn" and k: "tasks_keyed s"
  shows "wp (mutate_tx c actor taskID req action h fn (quiet env))
     (\<lambda>r s'. case r of Rollback _ \<Rightarrow> True | Commit _ \<Rightarrow> task_step s s') s"
  unfolding mutate_tx_def
proof (rule wp_then_txI [OF wp_store_query], simp)
  fix row s1
  assume "s1 = s \<and> (\<forall>x. Inr row = (Inr x :: gerr + task_row option) \<longrightarrow> x = find (\<lambda>t. tk_ID t = taskID) (tasks s))"
  then have s1: "s1 = s" and row: "row = find (\<lambda>t. tk_ID t = taskID) (tasks s)" by simp_all
  show "wp (case row of None \<Rightarrow> State_Monad.return (Rollback (Inl missing))
     | Some t \<Rightarrow>
     then_tx (requireRole (quiet env) (tk_GroupID t) actor) (\<lambda>role.
     then_tx (checkIdempotent (quiet env) actor req h) (\<lambda>saved.
     case saved of Some r \<Rightarrow> State_Monad.return (Rollback (Inr r))
     | None \<Rightarrow>
     State_Monad.bind (clock (quiet env)) (\<lambda>now.
     then_tx (fn (quiet env) t role now) (\<lambda>(result, submissionID, targets).
     then_tx (store (newTaskID c ''te_'')) (\<lambda>eventID.
     then_tx (saveEvent (quiet env) \<lparr>te_ID = eventID, te_TaskID = taskID, te_SubmissionID = submissionID, te_Actor = actor,
         te_Action = action, te_RequestID = req, te_Hash = h, te_Result = result, te_CreatedAt = now\<rparr> targets now) (\<lambda>_.
     State_Monad.return (Commit (Inr result)))))))))
     (\<lambda>r s'. case r of Rollback _ \<Rightarrow> True | Commit _ \<Rightarrow> task_step s s') s1"
  proof (cases row)
    case None
    then show ?thesis by (simp add: wp_return)
  next
    case (Some t)
    from find_Some_iff_in [OF row [unfolded Some, symmetric]] have t: "t \<in> set (tasks s)" "tk_ID t = taskID" by simp_all
    have fn_t: "wp (fn (quiet env) t role now) (\<lambda>r s1. \<not> isl r \<longrightarrow> change actor role t now s s1) s" for role now
      using fn k t by (simp add: makes_change_def)
    show ?thesis
      unfolding s1 Some option.case
      apply (rule wp_then_txI [OF wp_requireRole], simp)
      apply (elim conjE, hypsubst)
      apply (rule wp_then_txI [OF wp_checkIdempotent], simp)
      apply (elim conjE, hypsubst)
      apply (rule wp_case_option)
       apply (rule wp_bindI [where R = "\<lambda>_ s'. s' = s"], rule wp_clock, simp, hypsubst)
       apply (rule wp_then_txI [OF fn_t], simp)
       apply (rule wp_case_prod, rule wp_case_prod)
       apply (rule wp_record_change [OF _ t])
         apply simp_all [3]
      apply (rule wp_return, simp)
      done
  qed
qed

lemma wp_return_txI:
  "(\<And>e. r = Inl e \<Longrightarrow> Q (Rollback (Inl e)) s) \<Longrightarrow> (\<And>a. r = Inr a \<Longrightarrow> wp (k a) Q s) \<Longrightarrow> wp (then_tx (State_Monad.return r) k) Q s"
  by (rule wp_then_tx, rule wp_return) auto

lemma wp_create_task_tx:
  "wp (create_task_tx c actor g req h title desc due (quiet env))
     (\<lambda>r s'. case r of Rollback _ \<Rightarrow> True | Commit _ \<Rightarrow> task_step s s') s"
  unfolding create_task_tx_def Let_def
  apply (rule wp_then_txI [OF wp_requireRole], simp)
  apply (elim conjE, hypsubst)
  apply (rule wp_return_txI, simp)
  apply (rule wp_then_txI [OF wp_checkIdempotent], simp)
  apply (elim conjE, hypsubst)
  apply (rule wp_case_option)
   apply (rule wp_bindI [where R = "\<lambda>_ s'. s' = s"], rule wp_clock, simp, hypsubst)
   apply (rule wp_return_txI, simp)
   apply (rule wp_then_txI [OF wp_store_draw], simp, hypsubst)
   subgoal premises prems for role s1 u saved s2 now s3 v tid s4
   proof -
     let ?t = "\<lparr>tk_ID = tid, tk_GroupID = g, tk_Title = title, tk_Description = desc, tk_DueAt = due,
         tk_Status = ''draft'', tk_Version = 1, tk_CreatedBy = actor, tk_PublishedAt = 0, tk_ClosedAt = 0,
         tk_CreatedAt = now, tk_UpdatedAt = now\<rparr>"
     have role: "active_role g actor s = Some role" "manages role"
       and new: "\<forall>x\<in>set (task_events s). te_Actor x = actor \<longrightarrow> te_RequestID x \<noteq> req"
       using prems by (simp_all add: requireManager_def manages_def split: if_splits)
     show ?thesis
       apply (rule wp_then_txI [where R = "\<lambda>r s'. \<not> isl r \<longrightarrow> tid \<notin> tk_ID ` set (tasks s) \<and> s' = s\<lparr>tasks := tasks s @ [?t]\<rparr>"])
         apply (rule wp_store, rule wp_exec, simp)
         apply (auto simp: run_insert_def ins_Inr_iff clash_None_iff task_keys_def split: sum.split) [1]
        apply simp
       apply (rule wp_then_txI [OF wp_store_draw], simp)
       apply (rule wp_then_txI [OF wp_saveEvent], simp)
       apply (rule wp_return)
       using task_step.drafted [of ?t "\<lparr>te_ID = i, te_TaskID = tid, te_SubmissionID = [], te_Actor = actor, te_Action = ''create'',
         te_RequestID = req, te_Hash = h, te_Result = TaskResult ?t, te_CreatedAt = now\<rparr>" s role for i] role new
       by auto
   qed
  apply (rule wp_return, simp)
  done

subsection \<open>The service refines its life cycle\<close>

lemma keeps_store_tx:
  assumes "relies env I" "closed_under task_step I"
    and "\<And>s. I s \<Longrightarrow> wp (body (quiet env)) (\<lambda>r s'. case r of Rollback _ \<Rightarrow> True | Commit _ \<Rightarrow> task_step s s') s"
  shows "keeps I (store_tx (in_tx env body))"
  unfolding store_tx_def by (intro keeps_bind keeps_return keeps_in_tx_steps [where step = task_step] assms)

lemma keeps_mutate:
  assumes "relies env I" "closed_under task_step I" "\<And>s. I s \<Longrightarrow> tasks_keyed s" "makes_change actor taskID fn"
  shows "keeps I (mutate c env actor taskID req action p fn)"
  unfolding mutate_def
  by (intro keeps_if keeps_err keeps_case_sum keeps_store_tx wp_mutate_tx assms)

text \<open>The operations of the service.\<close>

datatype task_call =
    DoCreate string string string string int
  | DoUpdate string string int string string int
  | DoPublish string string int
  | DoClose string string int
  | DoSubmit string string string string int "string list"
  | DoReview string string string string int

fun serve_task :: "task_cfg \<Rightarrow> tdb env \<Rightarrow> string \<Rightarrow> task_call \<Rightarrow> (tdb, gerr + task_result) io" where
  "serve_task c env actor (DoCreate g req ti de du) = CreateTask c env actor g req ti de du"
| "serve_task c env actor (DoUpdate t req v ti de du) = UpdateDraft c env actor t req v ti de du"
| "serve_task c env actor (DoPublish t req v) = Publish c env actor t req v"
| "serve_task c env actor (DoClose t req v) = Close c env actor t req v"
| "serve_task c env actor (DoSubmit t req te li v ids) = Submit c env actor t req te li v ids"
| "serve_task c env actor (DoReview b req d re v) = Review c env actor b req d re v"

lemma keeps_serve_task:
  assumes "relies env I" "closed_under task_step I" "\<And>s. I s \<Longrightarrow> tasks_keyed s"
  shows "keeps I (serve_task c env actor call)"
proof (cases call)
  case (DoCreate g req ti de du)
  show ?thesis
    unfolding DoCreate serve_task.simps CreateTask_def Let_def
    by (intro keeps_if keeps_err keeps_case_sum keeps_store_tx wp_create_task_tx assms)
next
  case (DoReview b req d re v)
  show ?thesis
    unfolding DoReview serve_task.simps Review_def Let_def
    by (intro keeps_if keeps_err keeps_guard keeps_then_ok keeps_store keeps_query keeps_case_option keeps_mutate
        review_answer_change assms)
qed (auto simp: UpdateDraft_def Publish_def Close_def Submit_def Let_def
       intro!: keeps_mutate [OF assms] keeps_case_sum keeps_err edit_task_change publish_task_change close_task_change submit_answer_change)

section \<open>Closed tasks\<close>

definition closed_reviewed :: "tdb \<Rightarrow> bool" where
  "closed_reviewed s \<longleftrightarrow> (\<forall>t\<in>set (tasks s). tk_Status t = ''closed'' \<longrightarrow>
     (\<forall>b\<in>set (submissions s). sb_TaskID b = tk_ID t \<longrightarrow> sb_Status b \<noteq> ''submitted''))"

lemma published_not_closed:
  "tasks_keyed s \<Longrightarrow> t \<in> set (tasks s) \<Longrightarrow> t' \<in> set (tasks s) \<Longrightarrow> tk_Status t = ''published'' \<Longrightarrow> tk_Status t' = ''closed'' \<Longrightarrow>
   tk_ID t' \<noteq> tk_ID t"
  using key_row_unique [of tk_ID "tasks s" t t'] by (auto simp: tasks_keyed_def)

lemma change_closed_reviewed:
  "change actor role t now s s' \<Longrightarrow> t \<in> set (tasks s) \<Longrightarrow> tasks_keyed s \<Longrightarrow> closed_reviewed s \<Longrightarrow> closed_reviewed s'"
proof (induction rule: change.induct)
  case (submit b)
  then show ?case using published_not_closed [of s t] by (fastforce simp: closed_reviewed_def)
next
  case (resubmit b te li ids)
  then show ?case using published_not_closed [of s t] by (fastforce simp: closed_reviewed_def with_sub_def)
next
  case (review b st no)
  then show ?case by (auto simp: closed_reviewed_def with_sub_def split: if_splits)
qed (auto simp: closed_reviewed_def with_tasks_def split: if_splits)

lemma closed_reviewed_step: "closed_under task_step (\<lambda>s. tasks_keyed s \<and> closed_reviewed s)"
  unfolding closed_under_def
proof (intro allI impI)
  fix s s' assume "task_step s s'" and inv: "tasks_keyed s \<and> closed_reviewed s"
  from this(1) show "tasks_keyed s' \<and> closed_reviewed s'"
  proof (rule task_stepE)
    fix t e role s1 ns
    assume s': "s' = s1\<lparr>task_events := task_events s @ [e], notices := ns\<rparr>" and t: "t \<in> set (tasks s)"
      and ch: "change (te_Actor e) role t (te_CreatedAt e) s s1"
    have "tasks_keyed s1" "closed_reviewed s1"
      using change_keyed [OF ch t] change_closed_reviewed [OF ch t] inv by simp_all
    then show ?thesis by (simp add: s' tasks_keyed_def closed_reviewed_def)
  next
    fix t e role ns
    assume s': "s' = s\<lparr>tasks := tasks s @ [t], task_events := task_events s @ [e], notices := ns\<rparr>"
      and t: "tk_ID t \<notin> tk_ID ` set (tasks s)" "tk_Status t = ''draft''"
    show ?thesis using inv t by (auto simp: s' tasks_keyed_def closed_reviewed_def)
  qed
qed

section \<open>Repeated requests\<close>

definition requests_unique :: "tdb \<Rightarrow> bool" where
  "requests_unique s \<longleftrightarrow> distinct (map (\<lambda>e. (te_Actor e, te_RequestID e)) (task_events s))"

lemma checkIdempotent_known:
  assumes "requests_unique s" "e \<in> set (task_events s)"
  shows "wp (checkIdempotent (quiet env) (te_Actor e) (te_RequestID e) h)
    (\<lambda>r s'. s' = s \<and> (\<forall>x. r = Inr x \<longrightarrow> x = Some (te_Result e) \<and> h = te_Hash e)) s"
proof -
  have "find (\<lambda>x. (te_Actor x, te_RequestID x) = (te_Actor e, te_RequestID e)) (task_events s) = Some e"
    by (rule find_key) (use assms in \<open>simp_all add: requests_unique_def\<close>)
  then have f: "find (\<lambda>x. te_Actor x = te_Actor e \<and> te_RequestID x = te_RequestID e) (task_events s) = Some e" by simp
  show ?thesis
    unfolding checkIdempotent_def
    apply (rule wp_bindI [where R = "\<lambda>r s'. s' = s \<and> (\<forall>x. r = Inr x \<longrightarrow> x = Some e)"])
     apply (rule wp_query, simp, simp add: f)
    apply (intro wp_case_sum wp_case_option wp_if wp_err wp_ok, simp_all)
    done
qed

lemma mutate_tx_known:
  assumes "requests_unique s" "e \<in> set (task_events s)"
  shows "wp (mutate_tx c (te_Actor e) taskID (te_RequestID e) action h fn (quiet env))
     (\<lambda>r s'. \<exists>x. r = Rollback x \<and> (\<forall>v. x = Inr v \<longrightarrow> v = te_Result e \<and> h = te_Hash e)) s"
  unfolding mutate_tx_def
  apply (rule wp_then_txI [OF wp_store_query], simp)
  apply (elim conjE, hypsubst)
  apply (rule wp_case_option, rule wp_return, simp)
  apply (rule wp_then_txI [OF wp_requireRole], simp)
  apply (elim conjE, hypsubst)
  apply (rule wp_then_txI [OF checkIdempotent_known [OF assms]], simp)
  apply (elim conjE, hypsubst)
  apply (auto intro!: wp_return)
  done

lemma mutate_known:
  assumes st: "relies env (\<lambda>s. P s \<and> e \<in> set (task_events s) \<and> requests_unique s)"
    and "P s" "e \<in> set (task_events s)" "requests_unique s"
  shows "wp (mutate c env (te_Actor e) taskID (te_RequestID e) action p fn)
     (\<lambda>r s'. P s' \<and> (\<forall>v. r = Inr v \<longrightarrow> v = te_Result e \<and> request_hash c action taskID p = te_Hash e)) s"
  unfolding mutate_def
  apply (rule wp_if, rule wp_err, simp add: assms)
  apply (rule wp_case_sum, rule wp_err, simp add: assms)
  apply (unfold store_tx_def)
  apply (rule wp_bindI [where R = "\<lambda>r s'. P s' \<and> (\<forall>v. r = Inr v \<longrightarrow> v = te_Result e \<and> request_hash c action taskID p = te_Hash e)"])
   apply (rule wp_in_tx_stable [OF st])
     apply (simp add: assms)
    apply simp
   apply (rule wp_mono [OF mutate_tx_known [of _ e]], simp, simp)
   apply auto [1]
  apply (rule wp_return, simp)
  done

text \<open>The actor of a recorded request is still an active member of the group of the task he names again.\<close>

definition known_request :: "task_event \<Rightarrow> string \<Rightarrow> tdb \<Rightarrow> bool" where
  "known_request e taskID s \<longleftrightarrow> e \<in> set (task_events s) \<and> requests_unique s \<and> te_Actor e \<noteq> []
     \<and> (\<exists>t. find (\<lambda>t. tk_ID t = taskID) (tasks s) = Some t \<and> tk_GroupID t \<noteq> [] \<and> active_role (tk_GroupID t) (te_Actor e) s \<noteq> None)"

lemma mutate_tx_replays:
  assumes env: "reliable env" and known: "known_request e taskID s"
  shows "wp (mutate_tx c (te_Actor e) taskID (te_RequestID e) action (te_Hash e) fn (quiet env)) (\<lambda>r _. r = Rollback (Inr (te_Result e))) s"
proof -
  obtain t role where t: "find (\<lambda>t. tk_ID t = taskID) (tasks s) = Some t" "tk_GroupID t \<noteq> []"
    and role: "active_role (tk_GroupID t) (te_Actor e) s = Some role"
    using known by (auto simp: known_request_def)
  have e: "e \<in> set (task_events s)" "requests_unique s" "te_Actor e \<noteq> []"
    using known by (simp_all add: known_request_def)
  have "find (\<lambda>x. (te_Actor x, te_RequestID x) = (te_Actor e, te_RequestID e)) (task_events s) = Some e"
    by (rule find_key) (use e in \<open>simp_all add: requests_unique_def\<close>)
  then have f: "find (\<lambda>x. te_Actor x = te_Actor e \<and> te_RequestID x = te_RequestID e) (task_events s) = Some e" by simp
  have member: "wp (requireRole (quiet env) (tk_GroupID t) (te_Actor e)) (\<lambda>r s'. r = Inr role \<and> s' = s) s"
    unfolding requireRole_def using t(2) e(3) role
    by (auto intro!: wp_bind wp_query_quiet_up [OF env] wp_ok simp: active_role_def)
  have saved: "wp (checkIdempotent (quiet env) (te_Actor e) (te_RequestID e) (te_Hash e)) (\<lambda>r _. r = Inr (Some (te_Result e))) s"
    unfolding checkIdempotent_def
    by (rule wp_bind, rule wp_query_quiet_up [OF env]) (simp add: f wp_ok)
  have row: "wp (store (query (quiet env) (\<lambda>s. find (\<lambda>t. tk_ID t = taskID) (tasks s)))) (\<lambda>r s'. r = Inr (Some t) \<and> s' = s) s"
    by (rule wp_store, rule wp_query_quiet_up [OF env]) (simp add: t(1))
  show ?thesis
    unfolding mutate_tx_def
    apply (rule wp_then_txI [OF row], simp)
    apply simp
    apply (rule wp_then_txI [OF member], simp)
    apply simp
    apply (rule wp_then_txI [OF saved], simp)
    apply (simp add: wp_return)
    done
qed

lemma mutate_replays:
  assumes "reliable env" "relies env (known_request e taskID)" "known_request e taskID s"
    and "task_db c" "validRequestID (te_RequestID e) = Inr ()" "request_hash c action taskID p = te_Hash e"
  shows "wp (mutate c env (te_Actor e) taskID (te_RequestID e) action p fn) (\<lambda>r _. r = Inr (te_Result e)) s"
proof -
  have "wp (in_tx env (mutate_tx c (te_Actor e) taskID (te_RequestID e) action (te_Hash e) fn)) (\<lambda>r _. r = Inr (te_Result e)) s"
    by (rule wp_in_tx_up [OF assms(1-3)], rule wp_mono [OF mutate_tx_replays [OF assms(1)]]) auto
  then have "wp (store_tx (in_tx env (mutate_tx c (te_Actor e) taskID (te_RequestID e) action (te_Hash e) fn))) (\<lambda>r _. r = Inr (te_Result e)) s"
    unfolding store_tx_def by (rule wp_bindI) (simp add: wp_return)
  then show ?thesis using assms(4-6) by (simp add: mutate_def)
qed

section \<open>Properties\<close>

text \<open>C28. The task service refines its life cycle: creating, editing, publishing and closing tasks, submitting and reviewing
  answers changes the store only by steps of \<open>task_step\<close>, which fixes who may make which change of which row in which
  status, moves the version of the row by one and records the request, so every condition that these steps and the
  other processes keep survives every operation, whatever calls fail and whatever the caller sends.\<close>

theorem task_service_refines_life_cycle:
  assumes "relies env I" "closed_under task_step I" "\<And>s. I s \<Longrightarrow> tasks_keyed s" "I s"
  shows "wp (serve_task c env actor call) (\<lambda>_. I) s"
  by (rule keeps_wp [OF keeps_serve_task [OF assms(1-3)] assms(4)])

theorem task_service_refines_life_cycle_witness:
  "wp (serve_task demo_tasks (fails_from 6 9) ''al'' (DoReview ''ts1'' ''request-2'' ''approve'' [] 1)) (\<lambda>_. tasks_keyed) demo_tdb"
  by (rule task_service_refines_life_cycle)
     (simp_all add: closed_under_def task_step_keyed, simp add: tasks_keyed_def demo_tdb_simps)

text \<open>C29. A closed task has no answer left to review: every operation keeps the invariant that keys are unique and no submission of
  a closed task is waiting for review, since closing requires that none is, and answers and reviews require a
  published task.\<close>

theorem closed_tasks_are_reviewed:
  assumes "relies env (\<lambda>s. tasks_keyed s \<and> closed_reviewed s)" "tasks_keyed s \<and> closed_reviewed s"
  shows "wp (serve_task c env actor call) (\<lambda>_ s'. tasks_keyed s' \<and> closed_reviewed s') s"
  by (rule keeps_wp [OF keeps_serve_task [OF assms(1) closed_reviewed_step] assms(2)]) simp

theorem closed_tasks_are_reviewed_witness:
  "wp (serve_task demo_tasks (calm 9) ''al'' (DoClose ''lt1'' ''request-2'' 2)) (\<lambda>_ s'. tasks_keyed s' \<and> closed_reviewed s') demo_tdb"
  by (rule closed_tasks_are_reviewed)
     (simp_all add: tasks_keyed_def closed_reviewed_def demo_tdb_simps demo_task_def)

text \<open>C3. A repeated request changes nothing: once an event of this actor with this request id is recorded, sending the
  request id again, to whatever task and with whatever mutation, keeps every condition the other processes keep beside the event, and
  whatever fails, a success is the recorded result, and only if action, target and payload hash to the recorded hash.  If they do, the
  store is reliable and the actor is still an active member of the task's group, the recorded result is what he is answered.\<close>

theorem repeated_request_is_answered:
  assumes "relies env (\<lambda>s. P s \<and> e \<in> set (task_events s) \<and> requests_unique s)"
    and "P s" "e \<in> set (task_events s)" "requests_unique s"
  shows "wp (mutate c env (te_Actor e) taskID (te_RequestID e) action p fn)
      (\<lambda>r s'. P s' \<and> (\<forall>v. r = Inr v \<longrightarrow> v = te_Result e \<and> request_hash c action taskID p = te_Hash e)) s
    \<and> (reliable env \<and> relies env (known_request e taskID) \<and> known_request e taskID s \<and> task_db c
         \<and> validRequestID (te_RequestID e) = Inr () \<and> request_hash c action taskID p = te_Hash e
       \<longrightarrow> wp (mutate c env (te_Actor e) taskID (te_RequestID e) action p fn) (\<lambda>r _. r = Inr (te_Result e)) s)"
  using mutate_known [OF assms] mutate_replays by blast

text \<open>The store of the demonstration with its group active; \<open>al\<close> publishes the published task again.\<close>

definition demo_task_group :: tdb where
  "demo_task_group = demo_tdb\<lparr>group_rows := [\<lparr>gr_id = ''g1'', gr_name = ''G'', gr_owner = ''al'', gr_status = ''active'', gr_created_at = 1\<rparr>]\<rparr>"

theorem repeated_request_is_answered_witness:
  "wp (mutate demo_tasks (calm 9) ''al'' ''lt1'' ''request-1'' ''publish'' (PExpected 1) (publish_task 1)) (\<lambda>r s'. s' = demo_task_group) demo_task_group
   \<and> wp (mutate demo_tasks (calm 9) ''al'' ''lt1'' ''request-1'' ''publish'' (PExpected 1) (publish_task 1))
     (\<lambda>r _. r = Inr (TaskResult demo_task)) demo_task_group"
proof -
  have trim: "trim_space ''request-1'' = ''request-1''" by code_simp
  have req: "request_hash demo_tasks ''publish'' ''lt1'' (PExpected 1) = te_Hash demo_task_event" "task_db demo_tasks"
    "validRequestID (te_RequestID demo_task_event) = Inr ()"
    by (simp_all add: demo_task_event_def demo_tasks_def validRequestID_def trim)
  have known: "known_request demo_task_event ''lt1'' demo_task_group"
    by (simp add: known_request_def demo_task_group_def demo_tdb_simps requests_unique_def active_role_def demo_task_event_def demo_task_def demo_tdb_def im.defs demo_world_simps)
  have "wp (mutate demo_tasks (calm 9) (te_Actor demo_task_event) ''lt1'' (te_RequestID demo_task_event) ''publish'' (PExpected 1) (publish_task 1))
      (\<lambda>r s'. s' = demo_task_group \<and> (\<forall>v. r = Inr v \<longrightarrow> v = te_Result demo_task_event
         \<and> request_hash demo_tasks ''publish'' ''lt1'' (PExpected 1) = te_Hash demo_task_event)) demo_task_group
    \<and> (reliable (calm 9 :: tdb env) \<and> relies (calm 9) (known_request demo_task_event ''lt1'') \<and> known_request demo_task_event ''lt1'' demo_task_group
         \<and> task_db demo_tasks \<and> validRequestID (te_RequestID demo_task_event) = Inr ()
         \<and> request_hash demo_tasks ''publish'' ''lt1'' (PExpected 1) = te_Hash demo_task_event
       \<longrightarrow> wp (mutate demo_tasks (calm 9) (te_Actor demo_task_event) ''lt1'' (te_RequestID demo_task_event) ''publish'' (PExpected 1) (publish_task 1))
         (\<lambda>r _. r = Inr (te_Result demo_task_event)) demo_task_group)"
    by (rule repeated_request_is_answered) (simp_all add: demo_task_group_def demo_tdb_simps requests_unique_def)
  with req known show ?thesis by (auto simp: demo_task_event_def elim: wp_mono)
qed

end
