(* ===== verification/Community.thy ===== *)
theory Community
  imports Learning_Task
begin

text \<open>
  Communities (internal/community/model.go and service.go): founding, joining, leaving and handing over a community,
  its posts, comments and likes, and the notification inbox.  Every change of a member runs in one
  transaction that locks the actor, answers a repeated request from the request table, and leaves the
  event for the notification worker in an outbox.  JSON text and the SHA-256 fingerprint of a request are
  parameters, as are bcrypt and the random identifiers.
\<close>

section \<open>State\<close>

record profile_row =
  pf_group :: string
  pf_description :: string
  pf_discoverable :: int

record post_row =
  po_ID :: string
  po_GroupID :: string
  po_AuthorID :: string
  po_Kind :: string
  po_Title :: string
  po_Body :: string
  po_Status :: string
  po_Pinned :: bool
  po_Featured :: bool
  po_Version :: int
  po_CreatedAt :: int
  po_UpdatedAt :: int

record comment_row =
  cc_ID :: string
  cc_Post :: string
  cc_Author :: string
  cc_Parent :: "string option"
  cc_Body :: string
  cc_CreatedAt :: int

record reaction_row =
  rx_Post :: string
  rx_User :: string
  rx_CreatedAt :: int

record post_attachment_row =
  pa_Post :: string
  pa_Attachment :: string

text \<open>The event outbox of communities; \<open>ce_Recipient\<close> is empty for an event that concerns every member.\<close>

record com_event =
  ev_ID :: string
  ev_GroupID :: string
  ev_Actor :: string
  ev_Kind :: string
  ev_ObjectID :: string
  ev_Recipient :: string
  ev_CreatedAt :: int

record com_outbox_row =
  ce_Event :: com_event
  ce_Status :: ob_status
  ce_Attempts :: int
  ce_AvailableAt :: int
  ce_LeaseToken :: string
  ce_LastError :: string

record inbox_row =
  nt_ID :: int
  nt_Event :: string
  nt_Recipient :: string
  nt_Group :: string
  nt_Kind :: string
  nt_Object :: string
  nt_CreatedAt :: int
  nt_ReadAt :: "int option"

record community =
  cy_ID :: string
  cy_Name :: string
  cy_Description :: string
  cy_Owner :: string
  cy_Role :: string
  cy_Members :: nat

text \<open>What a change answers, and what is stored with its request.\<close>

datatype com_result =
    CommunityMade community
  | MembershipDone string string
  | PostMade string
  | PostEdited string int string
  | CommentMade string string string string int

record com_request =
  rq_Actor :: string
  rq_Key :: string
  rq_Hash :: string
  rq_Result :: com_result
  rq_CreatedAt :: int

record cdb = tdb +
  profiles :: "profile_row list"
  posts :: "post_row list"
  comments :: "comment_row list"
  reactions :: "reaction_row list"
  post_attachments :: "post_attachment_row list"
  com_requests :: "com_request list"
  com_outbox :: "com_outbox_row list"
  inbox :: "inbox_row list"
  com_topic :: "(string \<times> com_event) list"

record com_input =
  RequestID :: string
  in_Name :: string
  in_Description :: string
  in_Kind :: string
  in_Title :: string
  in_Body :: string
  in_ExpectedVersion :: int
  in_Status :: string
  in_Pinned :: bool
  in_Featured :: bool
  in_ParentID :: string
  in_AttachmentIDs :: "string list"
  in_UserID :: string

text \<open>
  The capabilities: random identifiers drawn at a given call, the fingerprint of an operation and its input, bcrypt's
  hash generation, the JSON text of a feed cursor and its reading, SQL's comparison of a text with a number
  and its \<open>SHA2\<close>.
\<close>

record com_cfg =
  uuid :: "nat \<Rightarrow> string"
  fingerprint :: "string \<Rightarrow> com_input \<Rightarrow> string"
  bcrypt_hash :: "nat \<Rightarrow> string \<Rightarrow> gerr + string"
  cursor_json :: "bool \<times> int \<times> string \<Rightarrow> string"
  read_cursor_json :: "string \<Rightarrow> (bool \<times> int \<times> string) option"
  sql_is_number :: "string \<Rightarrow> int \<Rightarrow> bool"
  sql_sha2 :: "string \<Rightarrow> string"

section \<open>Errors and validation\<close>

definition invalid_input :: "string \<Rightarrow> gerr" where "invalid_input m = Coded 400 m"
definition denied :: gerr where "denied = Coded 404 ''resource unavailable or membership required''"
definition in_conflict :: "string \<Rightarrow> gerr" where "in_conflict m = Coded 409 m"

fun Status_of :: "gerr \<Rightarrow> int" where
  "Status_of (Coded c _) = c"
| "Status_of (Wrapped e _) = Status_of e"
| "Status_of _ = 503"

definition manager :: "string \<Rightarrow> bool" where
  "manager r \<longleftrightarrow> r = ''owner'' \<or> r = ''admin''"

definition bounded :: "string \<Rightarrow> nat \<Rightarrow> nat \<Rightarrow> bool" where
  "bounded s mn mx \<longleftrightarrow> (let n = rune_count (trim_space s) in n \<ge> mn \<and> n \<le> mx)"

text \<open>
  \<open>strings.EqualFold\<close> with an ASCII text: besides the case of the ASCII letters, U+017F folds with \<open>s\<close> and U+212A with \<open>k\<close>.
\<close>

fun equal_fold :: "string \<Rightarrow> string \<Rightarrow> bool" where
  "equal_fold [] t = (t = [])"
| "equal_fold (c # cs) [] = False"
| "equal_fold (c # cs) (d # ds) =
     (if of_char c < (128 :: nat) then lower_char c = lower_char d \<and> equal_fold cs ds
      else (case cs of
          x # rest \<Rightarrow>
            if [c, x] = bytes [197, 191] then lower_char d = CHR ''s'' \<and> equal_fold rest ds
            else (case rest of
                y # rest' \<Rightarrow> [c, x, y] = bytes [226, 132, 170] \<and> lower_char d = CHR ''k'' \<and> equal_fold rest' ds
              | [] \<Rightarrow> False)
        | [] \<Rightarrow> False))"

definition ErrUsername :: string where
  "ErrUsername = bytes [231, 148, 168, 230, 136, 183, 229, 144, 141, 233, 156, 128, 51, 226, 128, 147, 51, 50, 229, 173, 151, 239, 188, 140, 229, 175, 134, 231, 160, 129, 233, 156, 128, 56, 226, 128, 147, 55, 50, 229, 173, 151, 232, 138, 130]"

definition ErrUsernameTaken :: string where
  "ErrUsernameTaken = bytes [231, 148, 168, 230, 136, 183, 229, 144, 141, 229, 183, 178, 229, 173, 152, 229, 156, 168]"

definition ErrRequestReused :: string where
  "ErrRequestReused = bytes [114, 101, 113, 117, 101, 115, 116, 95, 105, 100] @ bytes [229, 183, 178, 231, 148, 168, 228, 186, 142, 229, 133, 182, 228, 187, 150, 229, 134, 133, 229, 174, 185]"

definition ErrCommunityText :: string where
  "ErrCommunityText = bytes [231, 164, 190, 229, 140, 186, 229, 144, 141, 231, 167, 176, 49, 226, 128, 147, 56, 48, 229, 173, 151, 239, 188, 140, 231, 174, 128, 228, 187, 139, 230, 156, 128, 229, 164, 154, 49, 48, 48, 48, 229, 173, 151]"

definition ErrOwnerLeaves :: string where
  "ErrOwnerLeaves = bytes [229, 136, 155, 229, 187, 186, 232, 128, 133, 233, 156, 128, 229, 133, 136, 232, 189, 172, 232, 174, 169, 231, 164, 190, 229, 140, 186]"

definition ErrPostText :: string where
  "ErrPostText = bytes [230, 160, 135, 233, 162, 152, 49, 226, 128, 147, 49, 54, 48, 229, 173, 151, 239, 188, 140, 230, 173, 163, 230, 150, 135, 49, 226, 128, 147, 49, 48, 48, 48, 48, 229, 173, 151]"

definition ErrTooManyFiles :: string where
  "ErrTooManyFiles = bytes [230, 156, 128, 229, 164, 154, 56, 228, 184, 170, 233, 153, 132, 228, 187, 182]"

definition ErrForeignFile :: string where
  "ErrForeignFile = bytes [233, 153, 132, 228, 187, 182, 228, 184, 141, 229, 173, 152, 229, 156, 168, 227, 128, 129, 233, 157, 158, 230, 156, 172, 228, 186, 186, 228, 184, 138, 228, 188, 160, 230, 136, 150, 229, 177, 158, 228, 186, 142, 229, 133, 182, 228, 187, 150, 231, 164, 190, 229, 140, 186]"

definition ErrStaleVersion :: string where
  "ErrStaleVersion = bytes [231, 137, 136, 230, 156, 172, 229, 183, 178, 229, 143, 152, 229, 140, 150, 239, 188, 140, 232, 175, 183, 229, 136, 183, 230, 150, 176]"

definition ErrNoTitle :: string where
  "ErrNoTitle = bytes [230, 160, 135, 233, 162, 152, 228, 184, 141, 232, 131, 189, 228, 184, 186, 231, 169, 186]"

definition ErrCommentText :: string where
  "ErrCommentText = bytes [232, 175, 132, 232, 174, 186, 49, 226, 128, 147, 50, 48, 48, 48, 229, 173, 151]"

definition ErrNoParent :: string where
  "ErrNoParent = bytes [229, 155, 158, 229, 164, 141, 231, 155, 174, 230, 160, 135, 228, 184, 141, 229, 173, 152, 229, 156, 168]"

definition ErrNestedReply :: string where
  "ErrNestedReply = bytes [229, 143, 170, 230, 148, 175, 230, 140, 129, 228, 184, 128, 229, 177, 130, 229, 155, 158, 229, 164, 141]"

section \<open>Accounts\<close>

definition user_keys :: "user_row unique_key list" where
  "user_keys = [(''users.user_id'', \<lambda>a b. us_ID a = us_ID b), (''users.username'', \<lambda>a b. us_Username a = us_Username b)]"

definition Register :: "com_cfg \<Rightarrow> ('b tdb_scheme) env \<Rightarrow> string \<Rightarrow> string \<Rightarrow> ('b tdb_scheme, gerr + string \<times> string) io" where
  "Register c env username0 password =
     (let username = trim_space username0 in
      if \<not> bounded username 3 32 \<or> length password < 8 \<or> length password > 72 then err (invalid_input ErrUsername)
      else if equal_fold username ''task_notifier'' then err (invalid_input ''reserved username'')
      else then_ok (draw (\<lambda>n. bcrypt_hash c n password)) (\<lambda>digest.
        State_Monad.bind (draw (uuid c)) (\<lambda>uid.
        State_Monad.bind (clock env) (\<lambda>now.
        State_Monad.bind (exec env (run_insert users users_update (ins user_keys
            \<lparr>us_ID = uid, us_Username = username, us_Password = digest, us_Avatar = [], us_Status = 1\<rparr>))) (\<lambda>res.
          case res of
            Inl e \<Rightarrow> if is_dup_key e then err (in_conflict ErrUsernameTaken) else err e
          | Inr _ \<Rightarrow> ok (uid, username))))))"

section \<open>Requests\<close>

definition request_keys :: "com_request unique_key list" where
  "request_keys = [(''community_requests.PRIMARY'', \<lambda>a b. rq_Actor a = rq_Actor b \<and> rq_Key a = rq_Key b)]"

type_synonym com_change = "cdb env \<Rightarrow> int \<Rightarrow> (cdb, gerr + com_result) io"

definition request_tx :: "string \<Rightarrow> string \<Rightarrow> string \<Rightarrow> com_change \<Rightarrow> cdb env \<Rightarrow> (cdb, com_result tx_end) io" where
  "request_tx actor key hash fn tx =
     State_Monad.bind (query tx (\<lambda>s. find (\<lambda>u. us_ID u = actor \<and> us_Status u = 1) (users s))) (\<lambda>r.
     case r of
       Inr (Some _) \<Rightarrow>
         then_tx (query tx (\<lambda>s. find (\<lambda>q. rq_Actor q = actor \<and> rq_Key q = key) (com_requests s))) (\<lambda>row.
         case row of
           Some q \<Rightarrow> State_Monad.return (Rollback (if rq_Hash q \<noteq> hash then Inl (in_conflict ErrRequestReused) else Inr (rq_Result q)))
         | None \<Rightarrow>
             State_Monad.bind (clock tx) (\<lambda>now.
             then_tx (fn tx now) (\<lambda>result.
             then_tx (exec tx (run_insert com_requests com_requests_update (ins request_keys
                \<lparr>rq_Actor = actor, rq_Key = key, rq_Hash = hash, rq_Result = result, rq_CreatedAt = now\<rparr>))) (\<lambda>_.
             State_Monad.return (Commit (Inr result))))))
     | _ \<Rightarrow> State_Monad.return (Rollback (Inl denied)))"

definition mutate_request :: "com_cfg \<Rightarrow> cdb env \<Rightarrow> string \<Rightarrow> string \<Rightarrow> string \<Rightarrow> com_input \<Rightarrow> com_change \<Rightarrow> (cdb, gerr + com_result) io" where
  "mutate_request c env actor key operation input fn =
     (if \<not> bounded key 1 128 then err (invalid_input ''request_id is required (max 128 characters)'')
      else in_tx env (request_tx actor key (fingerprint c operation input) fn))"

section \<open>Shared steps\<close>

text \<open>\<open>role\<close>: the role of an active member of an active community.\<close>

definition community_role :: "string \<Rightarrow> string \<Rightarrow> cdb \<Rightarrow> string option" where
  "community_role gid uid s = map_option gm_role (find (\<lambda>m. gm_group m = gid \<and> gm_user m = uid \<and> gm_status m = ''active''
     \<and> list_ex (\<lambda>g. gr_id g = gm_group m \<and> gr_status g = ''active'') (group_rows s)) (member_rows s))"

definition role :: "cdb env \<Rightarrow> string \<Rightarrow> string \<Rightarrow> (cdb, gerr + string) io" where
  "role env gid uid = then_ok (query env (community_role gid uid)) (\<lambda>r. case r of None \<Rightarrow> err denied | Some r \<Rightarrow> ok r)"

definition lockGroup :: "cdb env \<Rightarrow> string \<Rightarrow> (cdb, gerr + unit) io" where
  "lockGroup tx gid =
     then_ok (query tx (\<lambda>s. find (\<lambda>g. gr_id g = gid \<and> gr_status g = ''active'') (group_rows s)))
       (\<lambda>row. case row of None \<Rightarrow> err denied | Some _ \<Rightarrow> ok ())"

definition com_outbox_keys :: "com_outbox_row unique_key list" where
  "com_outbox_keys = [(''community_event_outbox.PRIMARY'', \<lambda>a b. ev_ID (ce_Event a) = ev_ID (ce_Event b))]"

definition new_event :: "com_event \<Rightarrow> int \<Rightarrow> com_outbox_row" where
  "new_event e available = \<lparr>ce_Event = e, ce_Status = Pending, ce_Attempts = 0, ce_AvailableAt = available, ce_LeaseToken = [],
     ce_LastError = []\<rparr>"

definition emit :: "com_cfg \<Rightarrow> cdb env \<Rightarrow> string \<Rightarrow> string \<Rightarrow> string \<Rightarrow> string \<Rightarrow> string \<Rightarrow> int \<Rightarrow> (cdb, gerr + unit) io" where
  "emit c tx actor gid kind object recipient now =
     State_Monad.bind (draw (uuid c)) (\<lambda>eid.
       exec tx (run_insert com_outbox com_outbox_update (ins com_outbox_keys (new_event
         \<lparr>ev_ID = eid, ev_GroupID = gid, ev_Actor = actor, ev_Kind = kind, ev_ObjectID = object, ev_Recipient = recipient,
          ev_CreatedAt = now\<rparr> now))))"

section \<open>Founding and finding communities\<close>

definition group_keys :: "group_row unique_key list" where
  "group_keys = [(''im_groups.PRIMARY'', \<lambda>a b. gr_id a = gr_id b)]"

definition profile_keys :: "profile_row unique_key list" where
  "profile_keys = [(''community_profiles.PRIMARY'', \<lambda>a b. pf_group a = pf_group b)]"

definition same_member :: "member_row \<Rightarrow> member_row \<Rightarrow> bool" where
  "same_member a b \<longleftrightarrow> gm_group a = gm_group b \<and> gm_user a = gm_user b"

definition member_keys :: "member_row unique_key list" where
  "member_keys = [(''group_members.PRIMARY'', same_member)]"

definition same_conv_member :: "conv_member_row \<Rightarrow> conv_member_row \<Rightarrow> bool" where
  "same_conv_member a b \<longleftrightarrow> cm_conversation a = cm_conversation b \<and> cm_user a = cm_user b"

definition conv_member_keys :: "conv_member_row unique_key list" where
  "conv_member_keys = [(''conversation_members.PRIMARY'', same_conv_member)]"

definition group_member :: "string \<Rightarrow> string \<Rightarrow> string \<Rightarrow> int \<Rightarrow> member_row" where
  "group_member gid uid r now = \<lparr>gm_group = gid, gm_user = uid, gm_role = r, gm_mute_until = 0, gm_status = ''active'', gm_joined_at = now\<rparr>"

definition group_reader :: "string \<Rightarrow> string \<Rightarrow> int \<Rightarrow> conv_member_row" where
  "group_reader gid uid now = \<lparr>cm_conversation = ''group:'' @ gid, cm_user = uid, cm_read_seq = 0, cm_acked_seq = 0, cm_joined_at = now\<rparr>"

definition found_community :: "com_cfg \<Rightarrow> string \<Rightarrow> com_input \<Rightarrow> com_change" where
  "found_community c actor inp tx now =
     State_Monad.bind (draw (uuid c)) (\<lambda>u. let gid = ''c-'' @ u in
     then_ok (exec tx (run_insert group_rows group_rows_update (ins group_keys
        \<lparr>gr_id = gid, gr_name = in_Name inp, gr_owner = actor, gr_status = ''active'', gr_created_at = now\<rparr>))) (\<lambda>_.
     then_ok (exec tx (run_insert profiles profiles_update (ins profile_keys
        \<lparr>pf_group = gid, pf_description = in_Description inp, pf_discoverable = 1\<rparr>))) (\<lambda>_.
     then_ok (exec tx (run_insert member_rows member_rows_update (ins member_keys (group_member gid actor ''owner'' now)))) (\<lambda>_.
     then_ok (exec tx (run_insert conv_members conv_members_update (ins conv_member_keys (group_reader gid actor now)))) (\<lambda>_.
     ok (CommunityMade \<lparr>cy_ID = gid, cy_Name = in_Name inp, cy_Description = in_Description inp, cy_Owner = actor,
          cy_Role = ''owner'', cy_Members = 1\<rparr>))))))"

definition CreateCommunity :: "com_cfg \<Rightarrow> cdb env \<Rightarrow> string \<Rightarrow> com_input \<Rightarrow> (cdb, gerr + com_result) io" where
  "CreateCommunity c env actor inp =
     (if \<not> bounded (in_Name inp) 1 80 \<or> \<not> bounded (in_Description inp) 0 1000 then err (invalid_input ErrCommunityText)
      else mutate_request c env actor (RequestID inp) ''create'' inp (found_community c actor inp))"

definition community_view :: "string \<Rightarrow> cdb \<Rightarrow> group_row \<Rightarrow> community" where
  "community_view actor s g =
     \<lparr>cy_ID = gr_id g, cy_Name = gr_name g,
      cy_Description = (case find (\<lambda>p. pf_group p = gr_id g) (profiles s) of Some p \<Rightarrow> pf_description p | None \<Rightarrow> []),
      cy_Owner = gr_owner g,
      cy_Role = (case find (\<lambda>m. gm_group m = gr_id g \<and> gm_user m = actor) (member_rows s) of
         Some m \<Rightarrow> if gm_status m = ''active'' then gm_role m else [] | None \<Rightarrow> []),
      cy_Members = length (filter (\<lambda>m. gm_group m = gr_id g \<and> gm_status m = ''active'') (member_rows s))\<rparr>"

definition listed :: "string \<Rightarrow> bool \<Rightarrow> cdb \<Rightarrow> group_row \<Rightarrow> bool" where
  "listed actor mine s g \<longleftrightarrow>
     (let joined = (case find (\<lambda>m. gm_group m = gr_id g \<and> gm_user m = actor) (member_rows s) of
            Some m \<Rightarrow> gm_status m = ''active'' | None \<Rightarrow> False);
          open_to_all = (case find (\<lambda>p. pf_group p = gr_id g) (profiles s) of Some p \<Rightarrow> pf_discoverable p = 1 | None \<Rightarrow> True)
      in gr_status g = ''active'' \<and> (if mine then joined else open_to_all \<or> joined))"

definition ListCommunities :: "cdb env \<Rightarrow> string \<Rightarrow> bool \<Rightarrow> (cdb, gerr + community list) io" where
  "ListCommunities env actor mine = query env (\<lambda>s. map (community_view actor s)
     (take 100 (order_asc (\<lambda>g. (- gr_created_at g, gr_id g)) (filter (listed actor mine s) (group_rows s)))))"

section \<open>Members\<close>

definition join_community :: "string \<Rightarrow> string \<Rightarrow> com_change" where
  "join_community actor gid tx now =
     then_ok (query tx (\<lambda>s. find (\<lambda>p. pf_group p = gid) (profiles s))) (\<lambda>profile.
     if (case profile of Some p \<Rightarrow> pf_discoverable p \<noteq> 1 | None \<Rightarrow> False) then err denied
     else then_ok (query tx (\<lambda>s. find (\<lambda>m. gm_group m = gid \<and> gm_user m = actor) (member_rows s))) (\<lambda>old.
     if (case old of Some m \<Rightarrow> gm_status m = ''removed'' | None \<Rightarrow> False) then err denied
     else then_ok (update_w tx (\<lambda>s. s\<lparr>member_rows := upsert same_member (\<lambda>m. m\<lparr>gm_status := ''active''\<rparr>)
          (group_member gid actor ''member'' now) (member_rows s)\<rparr>)) (\<lambda>_.
     then_ok (update_w tx (\<lambda>s. s\<lparr>conv_members := upsert same_conv_member (\<lambda>m. m) (group_reader gid actor now) (conv_members s)\<rparr>)) (\<lambda>_.
     ok (MembershipDone gid ''join'')))))"

definition hand_over :: "string \<Rightarrow> string \<Rightarrow> string \<Rightarrow> cdb \<Rightarrow> cdb" where
  "hand_over gid actor target s = s\<lparr>member_rows := upd (\<lambda>m. gm_group m = gid \<and> (gm_user m = actor \<or> gm_user m = target))
     (\<lambda>m. m\<lparr>gm_role := (if gm_user m = target then ''owner'' else ''member'')\<rparr>) (member_rows s)\<rparr>"

definition change_member :: "string \<Rightarrow> string \<Rightarrow> string \<Rightarrow> string \<Rightarrow> com_change" where
  "change_member actor gid action user tx now =
     then_ok (role tx gid actor) (\<lambda>r.
     if action \<noteq> ''leave'' \<and> (\<not> manager r \<or> user = [] \<or> user = actor) then err denied
     else let target = (if action \<noteq> ''leave'' then user else actor) in
     then_ok (role tx gid target) (\<lambda>tr.
     if action = ''transfer'' then
       if r \<noteq> ''owner'' then err denied
       else then_ok (update_w tx (hand_over gid actor target)) (\<lambda>_.
         then_ok (update_w tx (\<lambda>s. s\<lparr>group_rows := upd (\<lambda>g. gr_id g = gid) (\<lambda>g. g\<lparr>gr_owner := target\<rparr>) (group_rows s)\<rparr>)) (\<lambda>_.
         ok (MembershipDone gid action)))
     else if tr = ''owner'' then err (in_conflict ErrOwnerLeaves)
     else if action = ''remove'' \<and> r \<noteq> ''owner'' \<and> tr \<noteq> ''member'' then err denied
     else let status = (if action = ''remove'' then ''removed'' else ''left'') in
       then_ok (update_w tx (\<lambda>s. s\<lparr>member_rows := upd (\<lambda>m. gm_group m = gid \<and> gm_user m = target)
           (\<lambda>m. m\<lparr>gm_status := status\<rparr>) (member_rows s)\<rparr>)) (\<lambda>_.
       then_ok (update_w tx (\<lambda>s. s\<lparr>conv_members := del (\<lambda>m. cm_conversation m = ''group:'' @ gid \<and> cm_user m = target) (conv_members s)\<rparr>)) (\<lambda>_.
       ok (MembershipDone gid action)))))"

definition membership_change :: "string \<Rightarrow> string \<Rightarrow> string \<Rightarrow> com_input \<Rightarrow> com_change" where
  "membership_change actor gid action inp tx now =
     then_ok (lockGroup tx gid) (\<lambda>_.
     if action = ''join'' then join_community actor gid tx now
     else if action = ''leave'' \<or> action = ''remove'' \<or> action = ''transfer'' then change_member actor gid action (in_UserID inp) tx now
     else err (invalid_input ''invalid membership action''))"

definition Membership :: "com_cfg \<Rightarrow> cdb env \<Rightarrow> string \<Rightarrow> string \<Rightarrow> string \<Rightarrow> com_input \<Rightarrow> (cdb, gerr + com_result) io" where
  "Membership c env actor gid action inp =
     mutate_request c env actor (RequestID inp) (action @ '':'' @ gid) inp (membership_change actor gid action inp)"

section \<open>Posts\<close>

definition validPost :: "com_input \<Rightarrow> gerr + unit" where
  "validPost inp =
     (if \<not> bounded (in_Title inp) 1 160 \<or> \<not> bounded (in_Body inp) 1 10000 then Inl (invalid_input ErrPostText)
      else if in_Kind inp \<notin> {''question'', ''note'', ''resource'', ''announcement''} then Inl (invalid_input ''invalid post kind'')
      else if length (in_AttachmentIDs inp) > 8 then Inl (invalid_input ErrTooManyFiles)
      else Inr ())"

definition post_keys :: "post_row unique_key list" where
  "post_keys = [(''community_posts.PRIMARY'', \<lambda>a b. po_ID a = po_ID b)]"

definition post_attachment_keys :: "post_attachment_row unique_key list" where
  "post_attachment_keys = [(''community_post_attachments.PRIMARY'', \<lambda>a b. a = b)]"

definition attach_file :: "string \<Rightarrow> string \<Rightarrow> string \<Rightarrow> cdb env \<Rightarrow> string \<Rightarrow> (cdb, gerr + unit) io" where
  "attach_file actor gid pid tx i =
     then_ok (query tx (\<lambda>s. length (filter (\<lambda>a. at_id a = i \<and> at_group a = gid \<and> at_uploader a = actor \<and> at_status a = ''ready'') (attachments s)))) (\<lambda>count.
     if count \<noteq> 1 then err (invalid_input ErrForeignFile)
     else exec tx (run_insert post_attachments post_attachments_update (ins post_attachment_keys \<lparr>pa_Post = pid, pa_Attachment = i\<rparr>)))"

definition new_post :: "string \<Rightarrow> string \<Rightarrow> string \<Rightarrow> com_input \<Rightarrow> int \<Rightarrow> post_row" where
  "new_post pid gid actor inp now = \<lparr>po_ID = pid, po_GroupID = gid, po_AuthorID = actor, po_Kind = in_Kind inp, po_Title = in_Title inp,
     po_Body = in_Body inp, po_Status = ''published'', po_Pinned = False, po_Featured = False, po_Version = 1, po_CreatedAt = now,
     po_UpdatedAt = now\<rparr>"

definition publish_post :: "com_cfg \<Rightarrow> string \<Rightarrow> string \<Rightarrow> com_input \<Rightarrow> com_change" where
  "publish_post c actor gid inp tx now =
     then_ok (lockGroup tx gid) (\<lambda>_.
     then_ok (role tx gid actor) (\<lambda>r.
     if in_Kind inp = ''announcement'' \<and> \<not> manager r then err denied
     else State_Monad.bind (draw (uuid c)) (\<lambda>pid.
       then_ok (exec tx (run_insert posts posts_update (ins post_keys (new_post pid gid actor inp now)))) (\<lambda>_.
       then_ok (each (attach_file actor gid pid tx) (in_AttachmentIDs inp)) (\<lambda>_.
       then_ok (emit c tx actor gid ''post_created'' pid [] now) (\<lambda>_.
       ok (PostMade pid)))))))"

definition CreatePost :: "com_cfg \<Rightarrow> cdb env \<Rightarrow> string \<Rightarrow> string \<Rightarrow> com_input \<Rightarrow> (cdb, gerr + com_result) io" where
  "CreatePost c env actor gid inp =
     (case validPost inp of Inl e \<Rightarrow> err e
      | Inr _ \<Rightarrow> mutate_request c env actor (RequestID inp) (''post:'' @ gid) inp (publish_post c actor gid inp))"

definition save_edit :: "string \<Rightarrow> com_input \<Rightarrow> string \<Rightarrow> bool \<Rightarrow> bool \<Rightarrow> int \<Rightarrow> cdb \<Rightarrow> (gerr + nat) \<times> cdb" where
  "save_edit pid inp status pinned featured now =
     run_update posts posts_update (\<lambda>p. po_ID p = pid \<and> po_Version p = in_ExpectedVersion inp)
       (\<lambda>p. p\<lparr>po_Title := in_Title inp, po_Body := in_Body inp, po_Status := status, po_Pinned := pinned, po_Featured := featured,
              po_Version := po_Version p + 1, po_UpdatedAt := now\<rparr>)"

definition edit_post :: "string \<Rightarrow> string \<Rightarrow> com_input \<Rightarrow> com_change" where
  "edit_post actor pid inp tx now =
     then_ok (query tx (\<lambda>s. find (\<lambda>p. po_ID p = pid) (posts s))) (\<lambda>row. case row of None \<Rightarrow> err denied
     | Some p \<Rightarrow>
       then_ok (role tx (po_GroupID p) actor) (\<lambda>r.
       if po_Status p = ''deleted'' \<or> \<not> manager r \<and> actor \<noteq> po_AuthorID p then err denied
       else if po_Version p \<noteq> in_ExpectedVersion inp then err (in_conflict ErrStaleVersion)
       else if (in_Status inp = ''hidden'' \<or> in_Status inp = ''published'') \<and> \<not> manager r then err denied
       else if in_Status inp \<notin> {''hidden'', ''published'', ''deleted'', []} then err (invalid_input ''invalid status'')
       else let status = (if in_Status inp = [] then po_Status p else in_Status inp) in
       if in_Title inp = [] then err (invalid_input ErrNoTitle)
       else case validPost (inp\<lparr>in_Kind := po_Kind p\<rparr>) of Inl e \<Rightarrow> err e
       | Inr _ \<Rightarrow>
         then_ok (if manager r then ok (in_Pinned inp, in_Featured inp)
                  else then_ok (query tx (\<lambda>s. find (\<lambda>p. po_ID p = pid) (posts s))) (\<lambda>row. case row of
                      None \<Rightarrow> err ErrNoRows | Some p \<Rightarrow> ok (po_Pinned p, po_Featured p))) (\<lambda>(pinned, featured).
         then_ok (exec tx (save_edit pid inp status pinned featured now)) (\<lambda>n.
         if n \<noteq> 1 then err (in_conflict ErrStaleVersion)
         else ok (PostEdited pid (po_Version p + 1) status)))))"

definition EditPost :: "com_cfg \<Rightarrow> cdb env \<Rightarrow> string \<Rightarrow> string \<Rightarrow> com_input \<Rightarrow> (cdb, gerr + com_result) io" where
  "EditPost c env actor pid inp =
     mutate_request c env actor (RequestID inp) (''edit:'' @ pid) inp (edit_post actor pid inp)"

section \<open>Comments and likes\<close>

definition comment_keys :: "comment_row unique_key list" where
  "comment_keys = [(''community_comments.PRIMARY'', \<lambda>a b. cc_ID a = cc_ID b)]"

text \<open>
  Whom a comment concerns and the parent it is stored with; any failure to read the parent is answered as a missing one.
\<close>

definition reply_target :: "string \<Rightarrow> string \<Rightarrow> string \<Rightarrow> cdb env \<Rightarrow> (cdb, gerr + string \<times> string option) io" where
  "reply_target pid author parent tx =
     (if parent = [] then ok (author, None)
      else State_Monad.bind (query tx (\<lambda>s. find (\<lambda>c. cc_ID c = parent \<and> cc_Post c = pid) (comments s))) (\<lambda>r. case r of
          Inr (Some d) \<Rightarrow> if cc_Parent d \<noteq> None then err (invalid_input ErrNestedReply) else ok (cc_Author d, Some parent)
        | _ \<Rightarrow> err (invalid_input ErrNoParent)))"

definition add_comment :: "com_cfg \<Rightarrow> string \<Rightarrow> string \<Rightarrow> com_input \<Rightarrow> com_change" where
  "add_comment c actor pid inp tx now =
     then_ok (query tx (\<lambda>s. find (\<lambda>p. po_ID p = pid \<and> po_Status p = ''published'') (posts s))) (\<lambda>row. case row of None \<Rightarrow> err denied
     | Some p \<Rightarrow>
       then_ok (role tx (po_GroupID p) actor) (\<lambda>_.
       then_ok (reply_target pid (po_AuthorID p) (in_ParentID inp) tx) (\<lambda>(recipient, parent).
       State_Monad.bind (draw (uuid c)) (\<lambda>cid.
       then_ok (exec tx (run_insert comments comments_update (ins comment_keys
          \<lparr>cc_ID = cid, cc_Post = pid, cc_Author = actor, cc_Parent = parent, cc_Body = in_Body inp, cc_CreatedAt = now\<rparr>))) (\<lambda>_.
       then_ok (if recipient \<noteq> actor then emit c tx actor (po_GroupID p) ''comment_created'' pid recipient now else ok ()) (\<lambda>_.
       ok (CommentMade cid actor (in_ParentID inp) (in_Body inp) now)))))))"

definition Comment :: "com_cfg \<Rightarrow> cdb env \<Rightarrow> string \<Rightarrow> string \<Rightarrow> com_input \<Rightarrow> (cdb, gerr + com_result) io" where
  "Comment c env actor pid inp =
     (if \<not> bounded (in_Body inp) 1 2000 then err (invalid_input ErrCommentText)
      else mutate_request c env actor (RequestID inp) (''comment:'' @ pid) inp (add_comment c actor pid inp))"

definition reaction_keys :: "reaction_row unique_key list" where
  "reaction_keys = [(''community_reactions.PRIMARY'', \<lambda>a b. rx_Post a = rx_Post b \<and> rx_User a = rx_User b)]"

definition like_tx :: "string \<Rightarrow> string \<Rightarrow> bool \<Rightarrow> cdb env \<Rightarrow> (cdb, bool tx_end) io" where
  "like_tx actor pid liked tx =
     then_tx (query tx (\<lambda>s. find (\<lambda>p. po_ID p = pid \<and> po_Status p = ''published'') (posts s))) (\<lambda>row. case row of
       None \<Rightarrow> State_Monad.return (Rollback (Inl denied))
     | Some p \<Rightarrow>
       then_tx (role tx (po_GroupID p) actor) (\<lambda>_.
       State_Monad.bind (clock tx) (\<lambda>now.
       then_tx (update_w tx (\<lambda>s. s\<lparr>reactions := (if liked
            then ins_ignore reaction_keys \<lparr>rx_Post = pid, rx_User = actor, rx_CreatedAt = now\<rparr> (reactions s)
            else del (\<lambda>x. rx_Post x = pid \<and> rx_User x = actor) (reactions s))\<rparr>)) (\<lambda>_.
       State_Monad.return (Commit (Inr liked))))))"

definition Like :: "cdb env \<Rightarrow> string \<Rightarrow> string \<Rightarrow> bool \<Rightarrow> (cdb, gerr + bool) io" where
  "Like env actor pid liked = in_tx env (like_tx actor pid liked)"

section \<open>Reading\<close>

record post_view =
  pv_Post :: post_row
  pv_Likes :: nat
  pv_Liked :: bool
  pv_Comments :: nat
  pv_Attachments :: "(string \<times> string \<times> int) list"

definition scanPost :: "string \<Rightarrow> cdb \<Rightarrow> post_row \<Rightarrow> post_view" where
  "scanPost actor s p = \<lparr>pv_Post = p, pv_Likes = length (filter (\<lambda>x. rx_Post x = po_ID p) (reactions s)),
     pv_Liked = list_ex (\<lambda>x. rx_Post x = po_ID p \<and> rx_User x = actor) (reactions s),
     pv_Comments = length (filter (\<lambda>x. cc_Post x = po_ID p) (comments s)), pv_Attachments = []\<rparr>"

definition feed_key :: "post_row \<Rightarrow> bool \<times> int \<times> string" where
  "feed_key p = (po_Pinned p, po_CreatedAt p, po_ID p)"

definition encodeCursor :: "com_cfg \<Rightarrow> bool \<times> int \<times> string \<Rightarrow> string" where
  "encodeCursor c k = raw_url_encode (cursor_json c k)"

definition decodeCursor :: "com_cfg \<Rightarrow> string \<Rightarrow> (bool \<times> int \<times> string) option" where
  "decodeCursor c v = (case raw_url_decode v of None \<Rightarrow> None
     | Some b \<Rightarrow> if length b > 256 then None
       else (case read_cursor_json c b of None \<Rightarrow> None
         | Some (p, at, i) \<Rightarrow> if at \<le> 0 \<or> i = [] then None else Some (p, at, i)))"

definition in_feed :: "string \<Rightarrow> string \<Rightarrow> string \<Rightarrow> cdb \<Rightarrow> post_row \<Rightarrow> bool" where
  "in_feed gid kind flt s p \<longleftrightarrow> po_GroupID p = gid
     \<and> po_Status p = (if flt = ''hidden'' then ''hidden'' else ''published'')
     \<and> (kind \<noteq> [] \<longrightarrow> po_Kind p = kind)
     \<and> (flt = ''featured'' \<longrightarrow> po_Featured p)
     \<and> (flt = ''owner'' \<longrightarrow> (case find (\<lambda>g. gr_id g = po_GroupID p) (group_rows s) of
          Some g \<Rightarrow> po_AuthorID p = gr_owner g | None \<Rightarrow> False))"

definition after_cursor :: "(bool \<times> int \<times> string) option \<Rightarrow> post_row \<Rightarrow> bool" where
  "after_cursor cur p = (case cur of None \<Rightarrow> True
     | Some (cp, ct, ci) \<Rightarrow> po_Pinned p < cp \<or> po_Pinned p = cp \<and> (po_CreatedAt p < ct \<or> po_CreatedAt p = ct \<and> po_ID p < ci))"

definition feed_rows :: "string \<Rightarrow> string \<Rightarrow> string \<Rightarrow> (bool \<times> int \<times> string) option \<Rightarrow> cdb \<Rightarrow> post_row list" where
  "feed_rows gid kind flt cur s =
     take 21 (order_desc feed_key (filter (\<lambda>p. in_feed gid kind flt s p \<and> after_cursor cur p) (posts s)))"

definition feed_answer :: "com_cfg \<Rightarrow> post_view list \<Rightarrow> post_view list \<times> string" where
  "feed_answer c items = (if length items > 20 then (take 20 items, encodeCursor c (feed_key (pv_Post (items ! 19)))) else (items, []))"

definition Posts :: "com_cfg \<Rightarrow> cdb env \<Rightarrow> string \<Rightarrow> string \<Rightarrow> string \<Rightarrow> string \<Rightarrow> string \<Rightarrow> (cdb, gerr + post_view list \<times> string) io" where
  "Posts c env actor gid after kind flt =
     then_ok (role env gid actor) (\<lambda>r.
     if flt = ''hidden'' \<and> \<not> manager r then err denied
     else if after \<noteq> [] \<and> decodeCursor c after = None then err (invalid_input ''invalid cursor'')
     else then_ok (query env (\<lambda>s. map (scanPost actor s)
         (feed_rows gid kind flt (if after = [] then None else decodeCursor c after) s))) (\<lambda>items.
       ok (feed_answer c items)))"

definition ReadPost :: "cdb env \<Rightarrow> string \<Rightarrow> string \<Rightarrow> (cdb, gerr + post_view) io" where
  "ReadPost env actor pid =
     then_ok (query env (\<lambda>s. map_option (scanPost actor s) (find (\<lambda>p. po_ID p = pid \<and> po_Status p \<noteq> ''deleted'') (posts s)))) (\<lambda>row.
     case row of None \<Rightarrow> err denied
     | Some v \<Rightarrow>
       then_ok (role env (po_GroupID (pv_Post v)) actor) (\<lambda>r.
       if po_Status (pv_Post v) = ''hidden'' \<and> \<not> manager r then err denied
       else then_ok (query env (\<lambda>s. concat (map (\<lambda>x. map (\<lambda>a. (at_id a, at_file_name a, at_size a))
             (filter (\<lambda>a. at_id a = pa_Attachment x \<and> at_status a = ''ready'') (attachments s)))
           (filter (\<lambda>x. pa_Post x = pid) (post_attachments s))))) (\<lambda>files.
         ok (v\<lparr>pv_Attachments := files\<rparr>))))"

definition Comments :: "cdb env \<Rightarrow> string \<Rightarrow> string \<Rightarrow> (cdb, gerr + comment_row list) io" where
  "Comments env actor pid =
     then_ok (ReadPost env actor pid) (\<lambda>_.
       query env (\<lambda>s. take 200 (order_asc (\<lambda>c. (cc_CreatedAt c, cc_ID c)) (filter (\<lambda>c. cc_Post c = pid) (comments s)))))"

definition Notifications :: "cdb env \<Rightarrow> string \<Rightarrow> int \<Rightarrow> (cdb, gerr + inbox_row list \<times> int) io" where
  "Notifications env actor after =
     then_ok (query env (\<lambda>s. take 100 (order_asc nt_ID (filter (\<lambda>n. nt_Recipient n = actor \<and> nt_ID n > after
         \<and> list_ex (\<lambda>m. gm_group m = nt_Group n \<and> gm_user m = nt_Recipient n \<and> gm_status m = ''active'') (member_rows s)) (inbox s)))))
       (\<lambda>items. ok (items, if items = [] then after else nt_ID (last items)))"

definition ReadNotification :: "com_cfg \<Rightarrow> cdb env \<Rightarrow> string \<Rightarrow> string \<Rightarrow> (cdb, gerr + bool) io" where
  "ReadNotification c env actor i =
     State_Monad.bind (clock env) (\<lambda>now.
     then_ok (update_w env (\<lambda>s. s\<lparr>inbox := upd (\<lambda>n. sql_is_number c i (nt_ID n) \<and> nt_Recipient n = actor)
        (\<lambda>n. n\<lparr>nt_ReadAt := (case nt_ReadAt n of None \<Rightarrow> Some now | Some t \<Rightarrow> Some t)\<rparr>) (inbox s)\<rparr>)) (\<lambda>_. ok True))"

text \<open>What a run unfolds.\<close>

lemmas community_run [exec_defs] =
  invalid_input_def denied_def in_conflict_def manager_def user_keys_def Register_def request_keys_def request_tx_def
  mutate_request_def community_role_def role_def lockGroup_def com_outbox_keys_def new_event_def emit_def group_keys_def profile_keys_def
  same_member_def member_keys_def same_conv_member_def conv_member_keys_def group_member_def group_reader_def found_community_def
  CreateCommunity_def community_view_def listed_def ListCommunities_def join_community_def hand_over_def change_member_def
  membership_change_def Membership_def validPost_def post_keys_def post_attachment_keys_def attach_file_def new_post_def publish_post_def
  CreatePost_def save_edit_def edit_post_def EditPost_def comment_keys_def reply_target_def add_comment_def Comment_def reaction_keys_def
  like_tx_def Like_def scanPost_def feed_key_def in_feed_def after_cursor_def feed_rows_def feed_answer_def Posts_def ReadPost_def
  Comments_def Notifications_def ReadNotification_def

end
