(* ===== verification/Community_Rules.thy ===== *)
theory Community_Rules
  imports Community Task_Life_Cycle
begin

text \<open>
  The rules of a community as a transition system: who may found, join, leave, hand over, post, edit, comment and
  like, and what exactly that changes.  Every operation of the service only takes steps of it, whatever
  calls fail, so what these steps keep the service keeps.  The invariants of members, posts and replies are
  proved by cases over the steps.
\<close>

section \<open>The rules\<close>

definition with_post :: "post_row \<Rightarrow> post_row \<Rightarrow> cdb \<Rightarrow> cdb" where
  "with_post p p' s = s\<lparr>posts := map (\<lambda>x. if po_ID x = po_ID p then p' else x) (posts s)\<rparr>"

definition set_status :: "string \<Rightarrow> string \<Rightarrow> string \<Rightarrow> cdb \<Rightarrow> cdb" where
  "set_status gid target status s = s\<lparr>member_rows := upd (\<lambda>m. gm_group m = gid \<and> gm_user m = target) (\<lambda>m. m\<lparr>gm_status := status\<rparr>) (member_rows s)\<rparr>"

definition set_owner :: "string \<Rightarrow> string \<Rightarrow> cdb \<Rightarrow> cdb" where
  "set_owner gid target s = s\<lparr>group_rows := upd (\<lambda>g. gr_id g = gid) (\<lambda>g. g\<lparr>gr_owner := target\<rparr>) (group_rows s)\<rparr>"

text \<open>Whom an event of the actor may announce what to.\<close>

definition announces :: "string \<Rightarrow> int \<Rightarrow> string \<Rightarrow> string \<Rightarrow> string \<Rightarrow> com_outbox_row \<Rightarrow> bool" where
  "announces actor now gid kind object e \<longleftrightarrow> (\<exists>i u. e = new_event \<lparr>ev_ID = i, ev_GroupID = gid, ev_Actor = actor, ev_Kind = kind,
     ev_ObjectID = object, ev_Recipient = u, ev_CreatedAt = now\<rparr> now \<and> (u = [] \<or> u \<noteq> actor))"

inductive com_act :: "string \<Rightarrow> int \<Rightarrow> cdb \<Rightarrow> cdb \<Rightarrow> bool" for actor now s where
  found: "gid \<notin> gr_id ` set (group_rows s) \<Longrightarrow> (gid, actor) \<notin> (\<lambda>m. (gm_group m, gm_user m)) ` set (member_rows s) \<Longrightarrow>
     com_act actor now s (s\<lparr>
       group_rows := group_rows s @ [\<lparr>gr_id = gid, gr_name = nm, gr_owner = actor, gr_status = ''active'', gr_created_at = now\<rparr>],
       profiles := ps, member_rows := member_rows s @ [group_member gid actor ''owner'' now], conv_members := cms\<rparr>)"
| join: "gid \<in> gr_id ` set (group_rows s) \<Longrightarrow>
     \<forall>m\<in>set (member_rows s). gm_group m = gid \<longrightarrow> gm_user m = actor \<longrightarrow> gm_status m \<noteq> ''removed'' \<Longrightarrow>
     com_act actor now s (s\<lparr>member_rows := upsert same_member (\<lambda>m. m\<lparr>gm_status := ''active''\<rparr>)
         (group_member gid actor ''member'' now) (member_rows s), conv_members := cms\<rparr>)"
| leave: "community_role gid actor s = Some r \<Longrightarrow> r \<noteq> ''owner'' \<Longrightarrow>
     com_act actor now s ((set_status gid actor ''left'' s)\<lparr>conv_members := cms\<rparr>)"
| remove: "community_role gid actor s = Some r \<Longrightarrow> manager r \<Longrightarrow> target \<noteq> actor \<Longrightarrow> community_role gid target s = Some tr \<Longrightarrow>
     tr \<noteq> ''owner'' \<Longrightarrow> r = ''owner'' \<or> tr = ''member'' \<Longrightarrow>
     com_act actor now s ((set_status gid target ''removed'' s)\<lparr>conv_members := cms\<rparr>)"
| transfer: "community_role gid actor s = Some ''owner'' \<Longrightarrow> target \<noteq> actor \<Longrightarrow> community_role gid target s = Some tr \<Longrightarrow>
     com_act actor now s (set_owner gid target (hand_over gid actor target s))"
| post: "community_role gid actor s = Some r \<Longrightarrow> in_Kind inp = ''announcement'' \<longrightarrow> manager r \<Longrightarrow> validPost inp = Inr () \<Longrightarrow>
     pid \<notin> po_ID ` set (posts s) \<Longrightarrow> announces actor now gid ''post_created'' pid e \<Longrightarrow>
     com_act actor now s (s\<lparr>posts := posts s @ [new_post pid gid actor inp now], post_attachments := pas,
       com_outbox := com_outbox s @ [e]\<rparr>)"
| edit: "p \<in> set (posts s) \<Longrightarrow> community_role (po_GroupID p) actor s = Some r \<Longrightarrow> po_Status p \<noteq> ''deleted'' \<Longrightarrow>
     manager r \<or> actor = po_AuthorID p \<and> pinned = po_Pinned p \<and> featured = po_Featured p \<Longrightarrow>
     status \<in> {po_Status p, ''deleted''} \<or> manager r \<and> status \<in> {''hidden'', ''published''} \<Longrightarrow>
     com_act actor now s (with_post p (p\<lparr>po_Title := ti, po_Body := bo, po_Status := status, po_Pinned := pinned, po_Featured := featured,
       po_Version := po_Version p + 1, po_UpdatedAt := now\<rparr>) s)"
| comment: "p \<in> set (posts s) \<Longrightarrow> po_Status p = ''published'' \<Longrightarrow> community_role (po_GroupID p) actor s = Some r \<Longrightarrow>
     cc_ID d \<notin> cc_ID ` set (comments s) \<Longrightarrow> cc_Post d = po_ID p \<Longrightarrow> cc_Author d = actor \<Longrightarrow>
     cc_Parent d = None \<or> (\<exists>q\<in>set (comments s). cc_Parent d = Some (cc_ID q) \<and> cc_Post q = po_ID p \<and> cc_Parent q = None) \<Longrightarrow>
     es = [] \<or> (\<exists>e. es = [e] \<and> announces actor now (po_GroupID p) ''comment_created'' (po_ID p) e) \<Longrightarrow>
     com_act actor now s (s\<lparr>comments := comments s @ [d], com_outbox := com_outbox s @ es\<rparr>)"

text \<open>A step of the store: an action of an enabled account, recorded under a new request id, or a member's like or its withdrawal.\<close>

inductive com_step :: "cdb \<Rightarrow> cdb \<Rightarrow> bool" where
  requested: "\<exists>u\<in>set (users s). us_ID u = rq_Actor q \<and> us_Status u = 1 \<Longrightarrow>
     \<forall>x\<in>set (com_requests s). rq_Actor x = rq_Actor q \<longrightarrow> rq_Key x \<noteq> rq_Key q \<Longrightarrow>
     com_act (rq_Actor q) (rq_CreatedAt q) s s1 \<Longrightarrow> com_step s (s1\<lparr>com_requests := com_requests s @ [q]\<rparr>)"
| liked: "p \<in> set (posts s) \<Longrightarrow> po_Status p = ''published'' \<Longrightarrow> community_role (po_GroupID p) u s = Some r \<Longrightarrow>
     com_step s (s\<lparr>reactions := ins_ignore reaction_keys \<lparr>rx_Post = po_ID p, rx_User = u, rx_CreatedAt = t\<rparr> (reactions s)\<rparr>)"
| unliked: "p \<in> set (posts s) \<Longrightarrow> po_Status p = ''published'' \<Longrightarrow> community_role (po_GroupID p) u s = Some r \<Longrightarrow>
     com_step s (s\<lparr>reactions := del (\<lambda>x. rx_Post x = po_ID p \<and> rx_User x = u) (reactions s)\<rparr>)"

inductive_cases com_actE: "com_act actor now s s'"

inductive_cases com_stepE: "com_step s s'"

text \<open>The primary keys.\<close>

definition com_keyed :: "'b cdb_scheme \<Rightarrow> bool" where
  "com_keyed s \<longleftrightarrow> distinct (map gr_id (group_rows s)) \<and> distinct (map (\<lambda>m. (gm_group m, gm_user m)) (member_rows s))
     \<and> distinct (map po_ID (posts s)) \<and> distinct (map cc_ID (comments s))"

section \<open>Rules for the shared steps\<close>

definition makes_act :: "string \<Rightarrow> com_change \<Rightarrow> bool" where
  "makes_act actor fn \<longleftrightarrow> (\<forall>env now s. com_keyed s \<longrightarrow> wp (fn (quiet env) now) (\<lambda>r s1. \<not> isl r \<longrightarrow> com_act actor now s s1) s)"

lemma makes_actI:
  "(\<And>env now s. com_keyed s \<Longrightarrow> wp (fn (quiet env) now) (\<lambda>r s1. \<not> isl r \<longrightarrow> com_act actor now s s1) s) \<Longrightarrow> makes_act actor fn"
  by (simp add: makes_act_def)

text \<open>A query inside a transaction: it fails, or the value read is the value of the state.\<close>

lemma wp_read:
  "(\<And>e. Q (Inl e) s) \<Longrightarrow> wp (k (f s)) Q s \<Longrightarrow> wp (then_ok (query (quiet env) f) k) Q s"
  by (rule wp_then_ok, rule wp_query) simp_all

lemma wp_write:
  "(\<And>e s'. Q (Inl e) s') \<Longrightarrow> wp (k ()) Q (g s) \<Longrightarrow> wp (then_ok (update_w (quiet env) g) k) Q s"
  by (rule wp_then_ok, rule wp_update_w) simp_all

lemma wp_add:
  assumes "\<And>e s'. Q (Inl e) s'" "\<And>rows. f (tbl s) = Inr rows \<Longrightarrow> wp (k ()) Q (set_tbl (\<lambda>_. rows) s)"
  shows "wp (then_ok (exec (quiet env) (run_insert tbl set_tbl f)) k) Q s"
  by (rule wp_then_okI [OF wp_insert_quiet]) (use assms in auto)

lemma wp_role:
  "(\<And>e. Q (Inl e) s) \<Longrightarrow> (\<And>r. community_role g u s = Some r \<Longrightarrow> wp (k r) Q s) \<Longrightarrow> wp (then_ok (role (quiet env) g u) k) Q s"
  unfolding role_def
  by (rule wp_then_ok, rule wp_read) (auto intro!: wp_err wp_ok split: option.split)

lemma wp_lockGroup:
  "(\<And>e. Q (Inl e) s) \<Longrightarrow> (gid \<in> gr_id ` set (group_rows s) \<Longrightarrow> wp (k ()) Q s) \<Longrightarrow> wp (then_ok (lockGroup (quiet env) gid) k) Q s"
  unfolding lockGroup_def
  by (rule wp_then_ok, rule wp_read) (auto intro!: wp_err wp_ok split: option.split dest!: find_Some_iff_in)

lemma wp_emit:
  assumes "\<And>e s'. Q (Inl e) s'"
    and "\<And>i. wp (k ()) Q (s\<lparr>com_outbox := com_outbox s @ [new_event \<lparr>ev_ID = i, ev_GroupID = gid, ev_Actor = actor, ev_Kind = kind,
       ev_ObjectID = object, ev_Recipient = u, ev_CreatedAt = now\<rparr> now]\<rparr>)"
  shows "wp (then_ok (emit c (quiet env) actor gid kind object u now) k) Q s"
  unfolding emit_def
  by (rule wp_then_ok, rule wp_bind, rule wp_draw, rule wp_mono [OF wp_insert_quiet])
     (use assms in \<open>auto simp: ins_Inr_iff\<close>)

section \<open>Every operation follows the rules\<close>

lemma clash_None_member:
  "clash member_keys (group_member gid u r now) rows = None \<longleftrightarrow> (gid, u) \<notin> (\<lambda>m. (gm_group m, gm_user m)) ` set rows"
  by (auto simp: clash_None_iff member_keys_def same_member_def group_member_def)

lemma found_community_act: "makes_act actor (found_community c actor inp)"
proof (rule makes_actI)
  fix env now and s :: cdb
  show "wp (found_community c actor inp (quiet env) now) (\<lambda>r s1. \<not> isl r \<longrightarrow> com_act actor now s s1) s"
    unfolding found_community_def Let_def
    apply (rule wp_bind, rule wp_draw)
    apply (rule wp_add, simp)
    apply (rule wp_add, simp)
    apply (rule wp_add, simp)
    apply (rule wp_add, simp)
    apply (rule wp_ok)
    subgoal for n rows1 rows2 rows3 rows4
      using com_act.found [where gid = "''c-'' @ uuid c n" and nm = "in_Name inp" and ps = rows2 and cms = rows4]
      by (auto simp: ins_Inr_iff clash_None_member) (auto simp: clash_None_iff group_keys_def)
    done
qed

lemma join_community_act:
  assumes "com_keyed s" "gid \<in> gr_id ` set (group_rows s)"
  shows "wp (join_community actor gid (quiet env) now) (\<lambda>r s1. \<not> isl r \<longrightarrow> com_act actor now s s1) s"
proof -
  have only: "find (\<lambda>m. gm_group m = gid \<and> gm_user m = actor) (member_rows s) = Some m"
    if "m \<in> set (member_rows s)" "gm_group m = gid" "gm_user m = actor" for m
    using find_key [of "\<lambda>m. (gm_group m, gm_user m)" "member_rows s" m] assms(1) that by (simp add: com_keyed_def)
  have may: "gm_status m \<noteq> ''removed''"
    if "\<not> (case find (\<lambda>m. gm_group m = gid \<and> gm_user m = actor) (member_rows s) of Some m \<Rightarrow> gm_status m = ''removed'' | None \<Rightarrow> False)"
      "m \<in> set (member_rows s)" "gm_group m = gid" "gm_user m = actor" for m
    using that only [of m] by simp
  show ?thesis
    unfolding join_community_def
    apply (rule wp_read, simp)
    apply (rule wp_if, rule wp_err, simp)
    apply (rule wp_read, simp)
    apply (rule wp_if, rule wp_err, simp)
    apply (rule wp_write, simp)
    apply (rule wp_write, simp)
    apply (rule wp_ok)
    using may com_act.join [OF assms(2), of actor now] by auto
qed

lemma change_member_act:
  assumes "action \<in> {''leave'', ''remove'', ''transfer''}"
  shows "wp (change_member actor gid action user (quiet env) now) (\<lambda>r s1. \<not> isl r \<longrightarrow> com_act actor now s s1) s"
  unfolding change_member_def Let_def
  apply (rule wp_role, simp)
  apply (rule wp_if, rule wp_err, simp)
  apply (rule wp_role, simp)
  apply (rule wp_if)
   apply (rule wp_if, rule wp_err, simp)
   apply (rule wp_write, simp)
   apply (rule wp_write, simp)
   apply (rule wp_ok)
  subgoal for r tr using com_act.transfer [of gid actor s user tr now] by (auto simp: set_owner_def)
  apply (rule wp_if, rule wp_err, simp)
  apply (rule wp_if, rule wp_err, simp)
  apply (rule wp_write, simp)
  apply (rule wp_write, simp)
  apply (rule wp_ok)
  subgoal premises prems for r tr
  proof (cases "action = ''leave''")
    case True
    with prems com_act.leave [of gid actor s tr now, unfolded set_status_def] show ?thesis by simp
  next
    case False
    with prems assms have "action = ''remove''" by simp
    with prems com_act.remove [of gid actor s r user tr now, unfolded set_status_def] show ?thesis by simp
  qed
  done

lemma membership_change_act: "makes_act actor (membership_change actor gid action inp)"
  unfolding membership_change_def
  by (rule makes_actI, rule wp_lockGroup)
     (simp, intro wp_if wp_err join_community_act change_member_act, simp_all)

lemma attach_files_only:
  "wp (each (attach_file actor gid pid (quiet env)) ids) (\<lambda>_ s1. \<exists>pas. s1 = s\<lparr>post_attachments := pas\<rparr>) s"
proof (rule wp_each_frame)
  fix i and w :: cdb
  have same: "\<exists>pas. w = w\<lparr>post_attachments := pas\<rparr>" by (rule exI [of _ "post_attachments w"]) simp
  show "wp (attach_file actor gid pid (quiet env) i) (\<lambda>_ w'. \<exists>pas. w' = w\<lparr>post_attachments := pas\<rparr>) w"
    unfolding attach_file_def
    apply (rule wp_read, rule same)
    apply (rule wp_if, rule wp_err, rule same)
    apply (rule wp_exec, simp add: same)
    using same by (auto simp: run_insert_def split: sum.split)
next
  show "\<exists>pas. w = w\<lparr>post_attachments := pas\<rparr>" for w :: cdb by (rule exI [of _ "post_attachments w"]) simp
qed auto

lemma publish_post_act:
  assumes "validPost inp = Inr ()"
  shows "makes_act actor (publish_post c actor gid inp)"
proof (rule makes_actI)
  fix env now and s :: cdb
  show "wp (publish_post c actor gid inp (quiet env) now) (\<lambda>r s1. \<not> isl r \<longrightarrow> com_act actor now s s1) s"
    unfolding publish_post_def
    apply (rule wp_lockGroup, simp)
    apply (rule wp_role, simp)
    apply (rule wp_if, rule wp_err, simp)
    apply (rule wp_bind, rule wp_draw)
    apply (rule wp_add, simp)
    apply (rule wp_then_okI [OF attach_files_only], simp)
    apply (elim exE, hypsubst)
    apply (rule wp_emit, simp)
    apply (rule wp_ok)
    subgoal for r n rows u s1 pas i
      using com_act.post [of gid actor s r inp "uuid c n" now "new_event \<lparr>ev_ID = i, ev_GroupID = gid, ev_Actor = actor,
          ev_Kind = ''post_created'', ev_ObjectID = uuid c n, ev_Recipient = [], ev_CreatedAt = now\<rparr> now" pas] assms
      by (auto simp: ins_Inr_iff announces_def) (auto simp: clash_None_iff post_keys_def new_post_def)
    done
qed

lemma save_edit_eq:
  assumes "com_keyed s" "p \<in> set (posts s)" "po_Version p = in_ExpectedVersion inp"
  shows "save_edit (po_ID p) inp status pinned featured now s = (Inr 1, with_post p (p\<lparr>po_Title := in_Title inp, po_Body := in_Body inp,
     po_Status := status, po_Pinned := pinned, po_Featured := featured, po_Version := po_Version p + 1, po_UpdatedAt := now\<rparr>) s)"
proof -
  let ?c = "\<lambda>x. po_ID x = po_ID p \<and> po_Version x = in_ExpectedVersion inp"
  let ?f = "\<lambda>x. x\<lparr>po_Title := in_Title inp, po_Body := in_Body inp, po_Status := status, po_Pinned := pinned,
     po_Featured := featured, po_Version := po_Version x + 1, po_UpdatedAt := now\<rparr>"
  have d: "distinct (map po_ID (posts s))" using assms(1) by (simp add: com_keyed_def)
  have only: "?c x \<longleftrightarrow> x = p" if "x \<in> set (posts s)" for x
    using key_row_unique [OF d that assms(2)] assms(3) by auto
  have same: "(po_ID x = po_ID p) = (x = p)" if "x \<in> set (posts s)" for x
    using key_row_unique [OF d that assms(2)] by auto
  have "?f p \<noteq> p"
  proof
    assume "?f p = p"
    then have "po_Version (?f p) = po_Version p" by (rule arg_cong)
    then show False by simp
  qed
  then have "affected ?c ?f (posts s) = 1"
    using affected_by_key [OF d assms(2), of ?c ?f] assms(3) by simp
  moreover have "upd ?c ?f (posts s) = map (\<lambda>x. if po_ID x = po_ID p then ?f p else x) (posts s)"
    unfolding upd_def using only same by (auto intro: map_cong)
  ultimately show ?thesis by (simp add: save_edit_def run_update_def with_post_def)
qed

lemma edit_post_act: "makes_act actor (edit_post actor pid inp)"
proof (rule makes_actI)
  fix env now and s :: cdb
  assume k: "com_keyed s"
  let ?Q = "\<lambda>r s1. \<not> isl r \<longrightarrow> com_act actor now s s1"
  show "wp (edit_post actor pid inp (quiet env) now) ?Q s"
    unfolding edit_post_def
  proof (rule wp_read, simp, rule wp_case_option, rule wp_err, simp, rule wp_role, simp)
    fix p r
    assume f: "find (\<lambda>p. po_ID p = pid) (posts s) = Some p" and r: "community_role (po_GroupID p) actor s = Some r"
    from find_Some_iff_in [OF f] have p: "p \<in> set (posts s)" "po_ID p = pid" by simp_all
    let ?flags = "if manager r then ok (in_Pinned inp, in_Featured inp)
                  else then_ok (query (quiet env) (\<lambda>s. find (\<lambda>p. po_ID p = pid) (posts s))) (\<lambda>row. case row of
                      None \<Rightarrow> err ErrNoRows | Some p \<Rightarrow> ok (po_Pinned p, po_Featured p))"
    have flags: "wp ?flags (\<lambda>res s1. s1 = s \<and> (\<forall>x. res = Inr x \<longrightarrow> manager r \<or> x = (po_Pinned p, po_Featured p))) s"
      by (rule wp_if, rule wp_ok, simp, rule wp_read, simp) (auto simp: f intro: wp_ok)
    have save: "wp (then_ok (exec (quiet env) (save_edit pid inp status pinned featured now)) (\<lambda>n.
         if n \<noteq> 1 then err (in_conflict ErrStaleVersion) else ok (PostEdited pid (po_Version p + 1) status))) ?Q s"
      if "po_Version p = in_ExpectedVersion inp" "po_Status p \<noteq> ''deleted''"
        "manager r \<or> actor = po_AuthorID p \<and> pinned = po_Pinned p \<and> featured = po_Featured p"
        "status \<in> {po_Status p, ''deleted''} \<or> manager r \<and> status \<in> {''hidden'', ''published''}" for status pinned featured
    proof -
      have ex: "wp (exec (quiet env) (save_edit pid inp status pinned featured now)) (\<lambda>r w. \<forall>n. r = Inr n \<longrightarrow> com_act actor now s w) s"
        using save_edit_eq [OF k p(1) that(1), of status pinned featured now] com_act.edit [OF p(1) r that(2-4)]
        by (intro wp_exec) (simp_all add: p(2))
      show ?thesis by (rule wp_then_okI [OF ex]) (auto intro: wp_if wp_err wp_ok)
    qed
    show "wp (if po_Status p = ''deleted'' \<or> \<not> manager r \<and> actor \<noteq> po_AuthorID p then err denied
       else if po_Version p \<noteq> in_ExpectedVersion inp then err (in_conflict ErrStaleVersion)
       else if (in_Status inp = ''hidden'' \<or> in_Status inp = ''published'') \<and> \<not> manager r then err denied
       else if in_Status inp \<notin> {''hidden'', ''published'', ''deleted'', []} then err (invalid_input ''invalid status'')
       else let status = (if in_Status inp = [] then po_Status p else in_Status inp) in
       if in_Title inp = [] then err (invalid_input ErrNoTitle)
       else case validPost (inp\<lparr>in_Kind := po_Kind p\<rparr>) of Inl e \<Rightarrow> err e
       | Inr _ \<Rightarrow>
         then_ok ?flags (\<lambda>(pinned, featured).
         then_ok (exec (quiet env) (save_edit pid inp status pinned featured now)) (\<lambda>n.
         if n \<noteq> 1 then err (in_conflict ErrStaleVersion)
         else ok (PostEdited pid (po_Version p + 1) status)))) ?Q s"
      unfolding Let_def
      apply (rule wp_if, rule wp_err, simp)
      apply (rule wp_if, rule wp_err, simp)
      apply (rule wp_if, rule wp_err, simp)
      apply (rule wp_if, rule wp_err, simp)
      apply (rule wp_if, rule wp_err, simp)
      apply (rule wp_case_sum, rule wp_err, simp)
      apply (rule wp_then_okI [OF flags], simp)
      apply (elim conjE, hypsubst)
      apply (rule wp_case_prod)
      apply (rule save)
         apply auto
      done
  qed
qed

lemma wp_reply_target:
  "wp (reply_target pid author parent (quiet env)) (\<lambda>r s1. s1 = s \<and> (\<forall>u par. r = Inr (u, par) \<longrightarrow>
     par = None \<or> (\<exists>q\<in>set (comments s). par = Some (cc_ID q) \<and> cc_Post q = pid \<and> cc_Parent q = None))) s"
proof -
  let ?find = "\<lambda>s. find (\<lambda>c. cc_ID c = parent \<and> cc_Post c = pid) (comments s)"
  show ?thesis
    unfolding reply_target_def
    apply (rule wp_if, rule wp_ok, simp)
    apply (rule wp_bindI [OF wp_query_quiet])
    apply (elim conjE, hypsubst)
    apply (rule wp_case_sum, rule wp_err, simp)
    apply (rule wp_case_option, rule wp_err, simp)
    apply (rule wp_if, rule wp_err, simp, rule wp_ok)
    apply (auto dest!: sym [of "Some _" "find _ _"] find_Some_iff_in)
    done
qed

lemma add_comment_act: "makes_act actor (add_comment c actor pid inp)"
proof (rule makes_actI)
  fix env now and s :: cdb
  let ?Q = "\<lambda>r s1. \<not> isl r \<longrightarrow> com_act actor now s s1"
  show "wp (add_comment c actor pid inp (quiet env) now) ?Q s"
    unfolding add_comment_def
  proof (rule wp_read, simp, rule wp_case_option, rule wp_err, simp, rule wp_role, simp,
      rule wp_then_okI [OF wp_reply_target], simp, elim conjE, hypsubst, rule wp_case_prod, rule wp_bind, rule wp_draw, rule wp_add, simp)
    fix p r and x :: "string \<times> string option" and u par n rows
    assume f: "find (\<lambda>p. po_ID p = pid \<and> po_Status p = ''published'') (posts s) = Some p"
      and r: "community_role (po_GroupID p) actor s = Some r" and x: "x = (u, par)"
      and par: "\<forall>u par. Inr x = (Inr (u, par) :: gerr + _) \<longrightarrow> par = None \<or>
        (\<exists>q\<in>set (comments s). par = Some (cc_ID q) \<and> cc_Post q = pid \<and> cc_Parent q = None)"
      and i: "ins comment_keys \<lparr>cc_ID = uuid c n, cc_Post = pid, cc_Author = actor, cc_Parent = par, cc_Body = in_Body inp,
          cc_CreatedAt = now\<rparr> (comments s) = Inr rows"
    let ?d = "\<lparr>cc_ID = uuid c n, cc_Post = pid, cc_Author = actor, cc_Parent = par, cc_Body = in_Body inp, cc_CreatedAt = now\<rparr>"
    from find_Some_iff_in [OF f] have p: "p \<in> set (posts s)" "po_ID p = pid" "po_Status p = ''published''" by simp_all
    from i have rows: "rows = comments s @ [?d]" and new: "cc_ID ?d \<notin> cc_ID ` set (comments s)"
      by (auto simp: ins_Inr_iff clash_None_iff comment_keys_def)
    have act: "com_act actor now s (s\<lparr>comments := comments s @ [?d], com_outbox := com_outbox s @ es\<rparr>)"
      if "es = [] \<or> (\<exists>e. es = [e] \<and> announces actor now (po_GroupID p) ''comment_created'' (po_ID p) e)" for es
      by (rule com_act.comment [OF p(1,3) r new _ _ _ that]) (use par x p(2) in auto)
    show "wp (then_ok (if u \<noteq> actor then emit c (quiet env) actor (po_GroupID p) ''comment_created'' pid u now else ok ()) (\<lambda>_.
        ok (CommentMade (uuid c n) actor (in_ParentID inp) (in_Body inp) now))) ?Q (comments_update (\<lambda>_. rows) s)"
    proof (cases "u = actor")
      case True
      with act [of "[]"] show ?thesis by (auto intro!: wp_then_ok wp_ok simp: rows)
    next
      case False
      have "wp (then_ok (emit c (quiet env) actor (po_GroupID p) ''comment_created'' pid u now) (\<lambda>_.
        ok (CommentMade (uuid c n) actor (in_ParentID inp) (in_Body inp) now))) ?Q (comments_update (\<lambda>_. rows) s)"
        by (rule wp_emit, simp, rule wp_ok) (use False act p(2) in \<open>auto simp: rows announces_def\<close>)
      with False show ?thesis by simp
    qed
  qed
qed

section \<open>Requests and likes\<close>

lemma com_act_requests: "com_act actor now s s1 \<Longrightarrow> com_requests s1 = com_requests s"
  by (induction rule: com_act.induct) (simp_all add: with_post_def set_status_def set_owner_def hand_over_def)

lemma wp_request_tx:
  assumes fn: "makes_act actor fn" and k: "com_keyed s"
  shows "wp (request_tx actor key h fn (quiet env)) (\<lambda>r s'. case r of Rollback _ \<Rightarrow> True | Commit _ \<Rightarrow> com_step s s') s"
proof -
  let ?Q = "\<lambda>r s'. case r of Rollback _ \<Rightarrow> True | Commit _ \<Rightarrow> com_step s s'"
  have rec: "wp (then_tx (exec (quiet env) (run_insert com_requests com_requests_update (ins request_keys
                \<lparr>rq_Actor = actor, rq_Key = key, rq_Hash = h, rq_Result = result, rq_CreatedAt = now\<rparr>))) (\<lambda>_.
             State_Monad.return (Commit (Inr result)))) ?Q s1"
    if act: "com_act actor now s s1" and u: "\<exists>u\<in>set (users s). us_ID u = actor \<and> us_Status u = 1"
      and new: "\<forall>x\<in>set (com_requests s). rq_Actor x = actor \<longrightarrow> rq_Key x \<noteq> key" for result now s1
    apply (rule wp_then_txI [OF wp_insert_quiet], simp)
    apply (rule wp_return)
    using com_step.requested [of s "\<lparr>rq_Actor = actor, rq_Key = key, rq_Hash = h, rq_Result = result, rq_CreatedAt = now\<rparr>" s1]
      act u new by (auto simp: ins_Inr_iff com_act_requests [OF act])
  have fn': "wp (fn (quiet env) now) (\<lambda>r s1. \<not> isl r \<longrightarrow> com_act actor now s s1) s" for now
    using fn k by (simp add: makes_act_def)
  show ?thesis
    unfolding request_tx_def
    apply (rule wp_bindI [OF wp_query_quiet])
    apply (elim conjE, hypsubst)
    apply (rule wp_case_sum, rule wp_return, simp)
    apply (rule wp_case_option, rule wp_return, simp)
    apply (rule wp_then_txI [OF wp_query_quiet], simp)
    apply (elim conjE, hypsubst)
    apply (rule wp_case_option)
     apply (rule wp_bindI [where R = "\<lambda>_ s'. s' = s"], rule wp_clock, simp, hypsubst)
     apply (rule wp_then_txI [OF fn'], simp)
     apply (rule rec, simp)
      apply (auto dest!: sym [of "Some _" "find _ _"] find_Some_iff_in) [1]
     apply (auto dest!: sym [of None] simp: find_None_iff_all) [1]
    apply (rule wp_return, simp)
    done
qed

lemma wp_like_tx:
  "wp (like_tx actor pid liked (quiet env)) (\<lambda>r s'. case r of Rollback _ \<Rightarrow> True | Commit _ \<Rightarrow> com_step s s') s"
proof -
  let ?Q = "\<lambda>r s'. case r of Rollback _ \<Rightarrow> True | Commit _ \<Rightarrow> com_step s s'"
  have rl: "wp (role (quiet env) g actor) (\<lambda>r s1. s1 = s \<and> (\<forall>x. r = Inr x \<longrightarrow> community_role g actor s = Some x)) s" for g
    unfolding role_def by (rule wp_read, simp) (auto intro!: wp_err wp_ok split: option.split)
  have fin: "com_step s (s\<lparr>reactions := ins_ignore reaction_keys \<lparr>rx_Post = pid, rx_User = actor, rx_CreatedAt = t\<rparr> (reactions s)\<rparr>)"
      "com_step s (s\<lparr>reactions := del (\<lambda>x. rx_Post x = pid \<and> rx_User x = actor) (reactions s)\<rparr>)"
    if "community_role (po_GroupID p) actor s = Some r"
      "find (\<lambda>p. po_ID p = pid \<and> po_Status p = ''published'') (posts s) = Some p" for p r t
    using com_step.liked [of p s actor r t] com_step.unliked [of p s actor r] find_Some_iff_in [OF that(2)] that(1)
    by auto
  show ?thesis
    unfolding like_tx_def
    apply (rule wp_then_txI [OF wp_query_quiet], simp)
    apply (elim conjE, hypsubst)
    apply (rule wp_case_option, rule wp_return, simp)
    apply (rule wp_then_txI [OF rl], simp)
    apply (elim conjE, hypsubst)
    apply (rule wp_bindI [where R = "\<lambda>_ s'. s' = s"], rule wp_clock, simp, hypsubst)
    apply (rule wp_then_txI [OF wp_update_quiet], simp)
    apply (rule wp_return)
    apply (auto intro!: fin dest!: sym [of "Some _" "find _ _"])
    done
qed

section \<open>The service refines the rules\<close>

text \<open>The operations of the service that change the store.\<close>

datatype com_call =
    DoFound com_input
  | DoMembership string string com_input
  | DoPost string com_input
  | DoEdit string com_input
  | DoComment string com_input
  | DoLike string bool

fun serve_community :: "com_cfg \<Rightarrow> cdb env \<Rightarrow> string \<Rightarrow> com_call \<Rightarrow> (cdb, gerr + com_result option) io" where
  "serve_community c env actor (DoFound inp) = then_ok (CreateCommunity c env actor inp) (\<lambda>r. ok (Some r))"
| "serve_community c env actor (DoMembership gid action inp) = then_ok (Membership c env actor gid action inp) (\<lambda>r. ok (Some r))"
| "serve_community c env actor (DoPost gid inp) = then_ok (CreatePost c env actor gid inp) (\<lambda>r. ok (Some r))"
| "serve_community c env actor (DoEdit pid inp) = then_ok (EditPost c env actor pid inp) (\<lambda>r. ok (Some r))"
| "serve_community c env actor (DoComment pid inp) = then_ok (Comment c env actor pid inp) (\<lambda>r. ok (Some r))"
| "serve_community c env actor (DoLike pid liked) = then_ok (Like env actor pid liked) (\<lambda>r. ok None)"

lemma keeps_mutate_request:
  assumes "relies env I" "closed_under com_step I" "\<And>s. I s \<Longrightarrow> com_keyed s" "makes_act actor fn"
  shows "keeps I (mutate_request c env actor key operation inp fn)"
  unfolding mutate_request_def
  by (intro keeps_if keeps_err keeps_in_tx_steps [where step = com_step] wp_request_tx assms)

lemma keeps_serve_community:
  assumes "relies env I" "closed_under com_step I" "\<And>s. I s \<Longrightarrow> com_keyed s"
  shows "keeps I (serve_community c env actor call)"
proof (cases call)
  case (DoFound inp)
  show ?thesis
    unfolding DoFound serve_community.simps CreateCommunity_def
    by (intro keeps_then_ok keeps_ok keeps_if keeps_err keeps_mutate_request found_community_act assms)
next
  case (DoMembership gid action inp)
  show ?thesis
    unfolding DoMembership serve_community.simps Membership_def
    by (intro keeps_then_ok keeps_ok keeps_mutate_request membership_change_act assms)
next
  case (DoPost gid inp)
  have "keeps I (CreatePost c env actor gid inp)"
    unfolding CreatePost_def
    by (rule keeps_case_sum, rule keeps_err) (use publish_post_act in \<open>auto intro!: keeps_mutate_request assms\<close>)
  then show ?thesis unfolding DoPost serve_community.simps by (intro keeps_then_ok keeps_ok)
next
  case (DoEdit pid inp)
  show ?thesis
    unfolding DoEdit serve_community.simps EditPost_def
    by (intro keeps_then_ok keeps_ok keeps_mutate_request edit_post_act assms)
next
  case (DoComment pid inp)
  show ?thesis
    unfolding DoComment serve_community.simps Comment_def
    by (intro keeps_then_ok keeps_ok keeps_if keeps_err keeps_mutate_request add_comment_act assms)
next
  case (DoLike pid liked)
  show ?thesis
    unfolding DoLike serve_community.simps Like_def
    by (intro keeps_then_ok keeps_ok keeps_in_tx_steps [where step = com_step] wp_like_tx assms)
qed

section \<open>The keys\<close>

lemma distinct_upd_key:
  "(\<And>x. k (f x) = k x) \<Longrightarrow> distinct (map k (upd p f rows)) = distinct (map k rows)"
  by (simp add: map_key_upd)

lemma com_act_keyed: "com_act actor now s s' \<Longrightarrow> com_keyed s \<Longrightarrow> com_keyed s'"
proof (induction rule: com_act.induct)
  case (found gid nm ps cms)
  then show ?case by (auto simp: com_keyed_def group_member_def)
next
  case (join gid cms)
  have "distinct (map (\<lambda>m. (gm_group m, gm_user m)) (upsert same_member (\<lambda>m. m\<lparr>gm_status := ''active''\<rparr>)
      (group_member gid actor ''member'' now) (member_rows s)))"
    by (rule map_key_upsert) (use join in \<open>auto simp: same_member_def com_keyed_def\<close>)
  with join show ?case by (simp add: com_keyed_def)
next
  case (edit p r pinned featured status ti bo)
  have "map po_ID (posts (with_post p p' s)) = map po_ID (posts s)" if "po_ID p' = po_ID p" for p'
    using that by (simp add: with_post_def)
  with edit show ?case by (simp add: com_keyed_def) (simp add: with_post_def)
qed (auto simp: com_keyed_def set_status_def set_owner_def hand_over_def distinct_upd_key new_post_def)

lemma com_step_keyed: "com_step s s' \<Longrightarrow> com_keyed s \<Longrightarrow> com_keyed s'"
  by (induction rule: com_step.induct) (auto simp: com_keyed_def dest!: com_act_keyed)

end
