(* ===== verification/Gateway_Api.thy ===== *)
theory Gateway_Api
  imports Task_Life_Cycle Community_Rules Route
begin

text \<open>
  The HTTP endpoints of the task and community services (cmd/gateway/internal/handler/learningtaskroutes.go and
  communityroutes.go): how a request is read, which operation it calls, and what it answers.  The caller is the
  one the access token names.  The JSON decoder is a parameter: a body is an error, or the decoded value and whether
  something follows it.  Metrics, logs and the random request id of an answer are not modelled.
\<close>

section \<open>Task endpoints\<close>

record task_body =
  tb_RequestID :: string
  tb_ExpectedVersion :: int
  tb_Title :: string
  tb_Description :: string
  tb_DueAt :: int
  tb_Text :: string
  tb_Link :: string
  tb_Decision :: string
  tb_Reason :: string
  tb_AttachmentIDs :: "string list"

text \<open>A path variable the route does not have is empty.\<close>

record task_http =
  th_Actor :: string
  th_TaskID :: string
  th_GroupID :: string
  th_SubmissionID :: string
  th_Body :: "gerr + task_body \<times> bool"
  th_Cursor :: string
  th_Limit :: string

datatype task_reply =
    TaskReply task_result
  | DetailReply task_detail
  | TasksReply "task_row list \<times> string"
  | SubmissionsReply "sub_row list \<times> string"
  | ProgressReply progress
  | TaskFault string "int option"

definition parseTaskPath :: "task_http \<Rightarrow> gerr + unit" where
  "parseTaskPath r = (if th_TaskID r = [] \<and> th_GroupID r = [] \<and> th_SubmissionID r = [] then Inl (Msg ''resource id is required'') else Inr ())"

definition parseTaskBody :: "task_http \<Rightarrow> gerr + task_body" where
  "parseTaskBody r = (case th_Body r of Inl e \<Rightarrow> Inl e
     | Inr (b, extra) \<Rightarrow> if extra then Inl (Msg ''one JSON object is required'') else Inr b)"

text \<open>\<open>errors.As\<close> finds the domain error and its version.\<close>

fun current_version :: "gerr \<Rightarrow> int option" where
  "current_version (VersionConflict _ v) = Some v"
| "current_version (Wrapped e _) = current_version e"
| "current_version _ = None"

definition taskError :: "gerr \<Rightarrow> int \<times> task_reply" where
  "taskError e = (StatusCode e, TaskFault (if StatusCode e = 503 then ''task service unavailable'' else err_text e) (current_version e))"

definition taskInputError :: "gerr \<Rightarrow> int \<times> task_reply" where
  "taskInputError e = (400, TaskFault (err_text e) None)"

text \<open>\<open>strconv.Atoi\<close> without its error: 0 when the text is no number, the nearest 64-bit number when it is out of range.\<close>

definition atoi_value :: "string \<Rightarrow> int" where
  "atoi_value s =
     (let (neg, body) = (case s of c # cs \<Rightarrow> if c = CHR ''-'' then (True, cs) else if c = CHR ''+'' then (False, cs) else (False, s) | [] \<Rightarrow> (False, []))
      in if body = [] then 0
         else case read_digits 0 body of None \<Rightarrow> 0 | Some n \<Rightarrow> if neg then max (- int n) (- (2 ^ 63)) else min (int n) (2 ^ 63 - 1))"

definition taskLimit :: "task_http \<Rightarrow> int" where
  "taskLimit r = atoi_value (th_Limit r)"

definition task_answer :: "int \<Rightarrow> ('a \<Rightarrow> task_reply) \<Rightarrow> (tdb, gerr + 'a) io \<Rightarrow> (tdb, int \<times> task_reply) io" where
  "task_answer status reply m = State_Monad.bind m (\<lambda>v. State_Monad.return (case v of Inl e \<Rightarrow> taskError e | Inr x \<Rightarrow> (status, reply x)))"

definition with_path :: "task_http \<Rightarrow> (tdb, int \<times> task_reply) io \<Rightarrow> (tdb, int \<times> task_reply) io" where
  "with_path r k = (case parseTaskPath r of Inl e \<Rightarrow> State_Monad.return (taskInputError e) | Inr _ \<Rightarrow> k)"

definition with_body :: "task_http \<Rightarrow> (task_body \<Rightarrow> (tdb, int \<times> task_reply) io) \<Rightarrow> (tdb, int \<times> task_reply) io" where
  "with_body r k = with_path r (case parseTaskBody r of Inl e \<Rightarrow> State_Monad.return (taskInputError e) | Inr b \<Rightarrow> k b)"

definition create_endpoint :: "task_cfg \<Rightarrow> tdb env \<Rightarrow> task_http \<Rightarrow> (tdb, int \<times> task_reply) io" where
  "create_endpoint c env r = with_body r (\<lambda>b. task_answer 201 TaskReply
     (CreateTask c env (th_Actor r) (th_GroupID r) (tb_RequestID b) (tb_Title b) (tb_Description b) (tb_DueAt b)))"

definition edit_endpoint :: "task_cfg \<Rightarrow> tdb env \<Rightarrow> task_http \<Rightarrow> (tdb, int \<times> task_reply) io" where
  "edit_endpoint c env r = with_body r (\<lambda>b. task_answer 200 TaskReply
     (UpdateDraft c env (th_Actor r) (th_TaskID r) (tb_RequestID b) (tb_ExpectedVersion b) (tb_Title b) (tb_Description b) (tb_DueAt b)))"

definition publish_endpoint :: "task_cfg \<Rightarrow> tdb env \<Rightarrow> task_http \<Rightarrow> (tdb, int \<times> task_reply) io" where
  "publish_endpoint c env r = with_body r (\<lambda>b. task_answer 200 TaskReply
     (Publish c env (th_Actor r) (th_TaskID r) (tb_RequestID b) (tb_ExpectedVersion b)))"

definition close_endpoint :: "task_cfg \<Rightarrow> tdb env \<Rightarrow> task_http \<Rightarrow> (tdb, int \<times> task_reply) io" where
  "close_endpoint c env r = with_body r (\<lambda>b. task_answer 200 TaskReply
     (Close c env (th_Actor r) (th_TaskID r) (tb_RequestID b) (tb_ExpectedVersion b)))"

definition submit_endpoint :: "task_cfg \<Rightarrow> tdb env \<Rightarrow> task_http \<Rightarrow> (tdb, int \<times> task_reply) io" where
  "submit_endpoint c env r = with_body r (\<lambda>b. task_answer 200 TaskReply
     (Submit c env (th_Actor r) (th_TaskID r) (tb_RequestID b) (tb_Text b) (tb_Link b) (tb_ExpectedVersion b) (tb_AttachmentIDs b)))"

definition review_endpoint :: "task_cfg \<Rightarrow> tdb env \<Rightarrow> task_http \<Rightarrow> (tdb, int \<times> task_reply) io" where
  "review_endpoint c env r = with_body r (\<lambda>b. task_answer 200 TaskReply
     (Review c env (th_Actor r) (th_SubmissionID r) (tb_RequestID b) (tb_Decision b) (tb_Reason b) (tb_ExpectedVersion b)))"

definition list_endpoint :: "task_cfg \<Rightarrow> tdb env \<Rightarrow> task_http \<Rightarrow> (tdb, int \<times> task_reply) io" where
  "list_endpoint c env r = with_path r (task_answer 200 TasksReply (ListTasks c env (th_Actor r) (th_GroupID r) (th_Cursor r) (taskLimit r)))"

definition detail_endpoint :: "task_cfg \<Rightarrow> tdb env \<Rightarrow> task_http \<Rightarrow> (tdb, int \<times> task_reply) io" where
  "detail_endpoint c env r = with_path r (task_answer 200 DetailReply (GetTask c env (th_Actor r) (th_TaskID r)))"

definition submissions_endpoint :: "task_cfg \<Rightarrow> tdb env \<Rightarrow> task_http \<Rightarrow> (tdb, int \<times> task_reply) io" where
  "submissions_endpoint c env r = with_path r (task_answer 200 SubmissionsReply
     (ListSubmissions c env (th_Actor r) (th_TaskID r) (th_Cursor r) (taskLimit r)))"

definition progress_endpoint :: "task_cfg \<Rightarrow> tdb env \<Rightarrow> task_http \<Rightarrow> (tdb, int \<times> task_reply) io" where
  "progress_endpoint c env r = with_path r (task_answer 200 ProgressReply (Progress c env (th_Actor r) (th_TaskID r)))"

text \<open>The routes, by method and path.\<close>

datatype task_route =
    TaskCreate | TaskList | TaskDetail | TaskEdit | TaskPublish | TaskSubmit | TaskSubmissions | TaskProgress | TaskClose | TaskReview

fun serve_task_route :: "task_cfg \<Rightarrow> tdb env \<Rightarrow> task_route \<Rightarrow> task_http \<Rightarrow> (tdb, int \<times> task_reply) io" where
  "serve_task_route c env TaskCreate = create_endpoint c env"
| "serve_task_route c env TaskList = list_endpoint c env"
| "serve_task_route c env TaskDetail = detail_endpoint c env"
| "serve_task_route c env TaskEdit = edit_endpoint c env"
| "serve_task_route c env TaskPublish = publish_endpoint c env"
| "serve_task_route c env TaskSubmit = submit_endpoint c env"
| "serve_task_route c env TaskSubmissions = submissions_endpoint c env"
| "serve_task_route c env TaskProgress = progress_endpoint c env"
| "serve_task_route c env TaskClose = close_endpoint c env"
| "serve_task_route c env TaskReview = review_endpoint c env"

section \<open>Community endpoints\<close>

record com_http =
  ch_Actor :: string
  ch_GroupID :: string
  ch_PostID :: string
  ch_NotificationID :: string
  ch_Body :: "gerr + com_input \<times> bool"
  ch_Account :: "gerr + (string \<times> string) \<times> bool"
  ch_Query :: "string \<Rightarrow> string"

datatype com_reply =
    ComReply com_result
  | AccountReply "string \<times> string"
  | CommunitiesReply "community list"
  | FeedReply "post_view list \<times> string"
  | PostReply post_view
  | CommentsReply "comment_row list"
  | LikedReply bool
  | InboxReply "inbox_row list \<times> int"
  | ReadReply bool
  | ComFault string

definition communityBody :: "gerr + 'a \<times> bool \<Rightarrow> gerr + 'a" where
  "communityBody body = (case body of
       Inl e \<Rightarrow> Inl (invalid_input (''invalid JSON: '' @ err_text e))
     | Inr (v, extra) \<Rightarrow> if extra then Inl (invalid_input ''expected one JSON object'') else Inr v)"

definition ErrUnavailable :: string where
  "ErrUnavailable = bytes [231, 164, 190, 229, 140, 186, 230, 156, 141, 229, 138, 161, 230, 154, 130, 228, 184, 141, 229, 143, 175, 231, 148, 168]"

definition com_wrap :: "('a \<Rightarrow> com_reply) \<Rightarrow> (cdb, gerr + 'a) io \<Rightarrow> (cdb, int \<times> com_reply) io" where
  "com_wrap reply m = State_Monad.bind m (\<lambda>v. State_Monad.return (case v of
       Inl e \<Rightarrow> (Status_of e, ComFault (if Status_of e \<ge> 500 then ErrUnavailable else err_text e))
     | Inr x \<Rightarrow> (200, reply x)))"

definition with_input :: "gerr + 'i \<times> bool \<Rightarrow> ('i \<Rightarrow> (cdb, gerr + 'a) io) \<Rightarrow> (cdb, gerr + 'a) io" where
  "with_input body k = (case communityBody body of Inl e \<Rightarrow> err e | Inr inp \<Rightarrow> k inp)"

text \<open>The keys that cache what a change of membership makes stale; \<open>DEL\<close> removes a key of any type.\<close>

definition drop_key :: "string \<Rightarrow> redis \<Rightarrow> redis" where
  "drop_key k r = r\<lparr>strs := (strs r)(k := None), hashes := (hashes r)(k := \<lambda>_. None), zsets := (zsets r)(k := []), rsets := (rsets r)(k := [])\<rparr>"

definition cached_keys :: "string \<Rightarrow> string \<Rightarrow> string list" where
  "cached_keys gid uid = [''group_members:'' @ gid, ''user_groups:'' @ uid, UserConversationsKey uid, UserConversationReadKey uid, UserConversationAckedKey uid]"

fun drop_caches :: "cdb env \<Rightarrow> string \<Rightarrow> string list \<Rightarrow> (cdb, unit) io" where
  "drop_caches env gid [] = State_Monad.return ()"
| "drop_caches env gid (uid # uids) =
     (if uid = [] then drop_caches env gid uids
      else ignore (update_w env (on_rds (fold drop_key (cached_keys gid uid)))) (drop_caches env gid uids))"

definition membership_endpoint :: "bool \<Rightarrow> com_cfg \<Rightarrow> cdb env \<Rightarrow> string \<Rightarrow> com_http \<Rightarrow> (cdb, int \<times> com_reply) io" where
  "membership_endpoint has_redis c env action r = com_wrap ComReply (with_input (ch_Body r) (\<lambda>inp.
     then_ok (Membership c env (ch_Actor r) (ch_GroupID r) action inp) (\<lambda>result.
       State_Monad.bind (if has_redis then drop_caches env (ch_GroupID r) [ch_Actor r, in_UserID inp] else State_Monad.return ()) (\<lambda>_.
       ok result))))"

definition inbox_endpoint :: "cdb env \<Rightarrow> com_http \<Rightarrow> (cdb, int \<times> com_reply) io" where
  "inbox_endpoint env r = com_wrap InboxReply
     (case (if ch_Query r ''after'' = [] then Some 0 else parse_int (ch_Query r ''after'')) of
        None \<Rightarrow> err (invalid_input ''invalid cursor'')
      | Some after \<Rightarrow> if after < 0 then err (invalid_input ''invalid cursor'') else Notifications env (ch_Actor r) after)"

datatype com_route =
    ComRegister | ComList | ComCreate | ComFeed | ComPost | ComDetail | ComEdit | ComComments | ComComment | ComLike | ComUnlike
  | ComInbox | ComRead | ComMember string

definition member_actions :: "string list" where
  "member_actions = [''join'', ''leave'', ''remove'', ''transfer'']"

fun serve_com_route :: "bool \<Rightarrow> com_cfg \<Rightarrow> cdb env \<Rightarrow> com_route \<Rightarrow> com_http \<Rightarrow> (cdb, int \<times> com_reply) io" where
  "serve_com_route rd c env ComRegister r = com_wrap AccountReply (with_input (ch_Account r) (\<lambda>(name, password). Register c env name password))"
| "serve_com_route rd c env ComList r = com_wrap CommunitiesReply (ListCommunities env (ch_Actor r) (ch_Query r ''mine'' = ''1''))"
| "serve_com_route rd c env ComCreate r = com_wrap ComReply (with_input (ch_Body r) (\<lambda>inp. CreateCommunity c env (ch_Actor r) inp))"
| "serve_com_route rd c env ComFeed r = com_wrap FeedReply
     (Posts c env (ch_Actor r) (ch_GroupID r) (ch_Query r ''cursor'') (ch_Query r ''kind'') (ch_Query r ''filter''))"
| "serve_com_route rd c env ComPost r = com_wrap ComReply (with_input (ch_Body r) (\<lambda>inp. CreatePost c env (ch_Actor r) (ch_GroupID r) inp))"
| "serve_com_route rd c env ComDetail r = com_wrap PostReply (ReadPost env (ch_Actor r) (ch_PostID r))"
| "serve_com_route rd c env ComEdit r = com_wrap ComReply (with_input (ch_Body r) (\<lambda>inp. EditPost c env (ch_Actor r) (ch_PostID r) inp))"
| "serve_com_route rd c env ComComments r = com_wrap CommentsReply (Comments env (ch_Actor r) (ch_PostID r))"
| "serve_com_route rd c env ComComment r = com_wrap ComReply (with_input (ch_Body r) (\<lambda>inp. Comment c env (ch_Actor r) (ch_PostID r) inp))"
| "serve_com_route rd c env ComLike r = com_wrap LikedReply (Like env (ch_Actor r) (ch_PostID r) True)"
| "serve_com_route rd c env ComUnlike r = com_wrap LikedReply (Like env (ch_Actor r) (ch_PostID r) False)"
| "serve_com_route rd c env ComInbox r = inbox_endpoint env r"
| "serve_com_route rd c env ComRead r = com_wrap ReadReply (ReadNotification c env (ch_Actor r) (ch_NotificationID r))"
| "serve_com_route rd c env (ComMember action) r = membership_endpoint rd c env action r"

section \<open>The endpoints refine the services' rules\<close>

lemma keeps_task_answer: "keeps I m \<Longrightarrow> keeps I (task_answer status reply m)"
  unfolding task_answer_def by (intro keeps_rules)

lemma keeps_with_path: "keeps I k \<Longrightarrow> keeps I (with_path r k)"
  unfolding with_path_def by (intro keeps_rules)

lemma keeps_with_body: "(\<And>b. keeps I (k b)) \<Longrightarrow> keeps I (with_body r k)"
  unfolding with_body_def by (intro keeps_with_path keeps_rules)

lemma keeps_requireRole: "relies env I \<Longrightarrow> keeps I (requireRole env g u)"
  unfolding requireRole_def by (intro keeps_rules keeps_store) auto

lemma keeps_GetTask: "relies env I \<Longrightarrow> keeps I (GetTask c env u t)"
  unfolding GetTask_def by (intro keeps_rules keeps_store keeps_guard keeps_requireRole) auto

lemma keeps_task_reads:
  assumes "relies env I"
  shows "keeps I (ListTasks c env u g cur n)" "keeps I (ListSubmissions c env u t cur n)" "keeps I (Progress c env u t)"
  unfolding ListTasks_def ListSubmissions_def Progress_def Let_def
  by (intro keeps_rules keeps_store keeps_requireRole keeps_GetTask assms)+

text \<open>Whatever the client sends, the task endpoints take only steps of the life cycle.\<close>

theorem task_endpoints_refine_life_cycle:
  assumes "relies env I" "closed_under task_step I" "\<And>s. I s \<Longrightarrow> tasks_keyed s" "I s"
  shows "wp (serve_task_route c env route r) (\<lambda>_. I) s"
proof (rule keeps_wp)
  note call = keeps_serve_task [OF assms(1-3)]
  show "I s" by (rule assms(4))
  show "keeps I (serve_task_route c env route r)"
  proof (cases route)
    case TaskCreate
    show ?thesis unfolding TaskCreate serve_task_route.simps create_endpoint_def
      by (intro keeps_with_body keeps_task_answer) (rule call [of _ _ "DoCreate _ _ _ _ _", unfolded serve_task.simps])
  next
    case TaskEdit
    show ?thesis unfolding TaskEdit serve_task_route.simps edit_endpoint_def
      by (intro keeps_with_body keeps_task_answer) (rule call [of _ _ "DoUpdate _ _ _ _ _ _", unfolded serve_task.simps])
  next
    case TaskPublish
    show ?thesis unfolding TaskPublish serve_task_route.simps publish_endpoint_def
      by (intro keeps_with_body keeps_task_answer) (rule call [of _ _ "DoPublish _ _ _", unfolded serve_task.simps])
  next
    case TaskClose
    show ?thesis unfolding TaskClose serve_task_route.simps close_endpoint_def
      by (intro keeps_with_body keeps_task_answer) (rule call [of _ _ "DoClose _ _ _", unfolded serve_task.simps])
  next
    case TaskSubmit
    show ?thesis unfolding TaskSubmit serve_task_route.simps submit_endpoint_def
      by (intro keeps_with_body keeps_task_answer) (rule call [of _ _ "DoSubmit _ _ _ _ _ _", unfolded serve_task.simps])
  next
    case TaskReview
    show ?thesis unfolding TaskReview serve_task_route.simps review_endpoint_def
      by (intro keeps_with_body keeps_task_answer) (rule call [of _ _ "DoReview _ _ _ _ _", unfolded serve_task.simps])
  qed (simp_all add: list_endpoint_def detail_endpoint_def submissions_endpoint_def progress_endpoint_def
         keeps_with_path keeps_task_answer keeps_task_reads keeps_GetTask assms(1))
qed

theorem task_endpoints_refine_life_cycle_witness:
  "wp (serve_task_route demo_tasks (fails_from 6 9) TaskReview \<lparr>th_Actor = ''al'', th_TaskID = [], th_GroupID = [], th_SubmissionID = ''ts1'',
     th_Body = Inr (\<lparr>tb_RequestID = ''request-2'', tb_ExpectedVersion = 1, tb_Title = [], tb_Description = [], tb_DueAt = 0, tb_Text = [],
       tb_Link = [], tb_Decision = ''approve'', tb_Reason = [], tb_AttachmentIDs = []\<rparr>, False), th_Cursor = [], th_Limit = []\<rparr>) (\<lambda>_. tasks_keyed) demo_tdb"
  by (rule task_endpoints_refine_life_cycle)
     (simp_all add: closed_under_def task_step_keyed, simp add: tasks_keyed_def demo_tdb_simps)

text \<open>A failure of the store is answered without its text.\<close>

lemma task_faults_are_hidden:
  "wp (serve_task_route c env route r) (\<lambda>(status, reply) _. status = 503 \<longrightarrow> (\<exists>v. reply = TaskFault ''task service unavailable'' v)) s"
proof -
  have answer: "wp (task_answer status reply m) (\<lambda>(status, reply) _. status = 503 \<longrightarrow> (\<exists>v. reply = TaskFault ''task service unavailable'' v)) s"
    if "status \<noteq> 503" for status reply and m :: "(tdb, gerr + 'x) io"
    unfolding task_answer_def
    by (rule wp_bindI [OF wp_trivial], rule wp_return) (use that in \<open>auto simp: taskError_def split: sum.split\<close>)
  have path: "wp (with_path r k) (\<lambda>(status, reply) _. status = 503 \<longrightarrow> (\<exists>v. reply = TaskFault ''task service unavailable'' v)) s"
    if "wp k (\<lambda>(status, reply) _. status = 503 \<longrightarrow> (\<exists>v. reply = TaskFault ''task service unavailable'' v)) s" for k
    unfolding with_path_def using that by (auto intro: wp_return simp: taskInputError_def split: sum.split)
  have body: "wp (with_body r k) (\<lambda>(status, reply) _. status = 503 \<longrightarrow> (\<exists>v. reply = TaskFault ''task service unavailable'' v)) s"
    if "\<And>b. wp (k b) (\<lambda>(status, reply) _. status = 503 \<longrightarrow> (\<exists>v. reply = TaskFault ''task service unavailable'' v)) s" for k
    unfolding with_body_def using that by (auto intro!: path wp_return simp: taskInputError_def split: sum.split)
  show ?thesis
    by (cases route) (auto simp: create_endpoint_def edit_endpoint_def publish_endpoint_def close_endpoint_def submit_endpoint_def
        review_endpoint_def list_endpoint_def detail_endpoint_def submissions_endpoint_def progress_endpoint_def intro!: answer body path)
qed

lemma com_faults_are_hidden:
  "wp (com_wrap reply m) (\<lambda>(status, answer) _. status \<ge> 500 \<longrightarrow> answer = ComFault ErrUnavailable) s"
  unfolding com_wrap_def by (rule wp_bindI [OF wp_trivial], rule wp_return) (auto split: sum.split)

text \<open>A change of membership that is refused drops no cache.\<close>

lemma refused_membership_drops_nothing:
  assumes "wp (Membership c env u g action inp) (\<lambda>r s'. P s' \<and> isl r) s"
  shows "wp (membership_endpoint rd c env action \<lparr>ch_Actor = u, ch_GroupID = g, ch_PostID = p, ch_NotificationID = n, ch_Body = Inr (inp, False),
      ch_Account = a, ch_Query = q\<rparr>) (\<lambda>(status, _) s'. P s') s"
  unfolding membership_endpoint_def com_wrap_def
  apply (rule wp_bind)
  apply (simp only: with_input_def communityBody_def com_http.select_convs sum.case prod.case if_False)
  apply (rule wp_then_okI [OF assms])
   apply (auto intro!: wp_return split: sum.split)
  done

end
