(* ===== verification/Gateway_Cleanup.thy ===== *)
theory Gateway_Cleanup
  imports Route Demo
begin

text \<open>
  What a gateway does to the routes of all its users (internal/server/route.go): \<open>CleanupGatewayRoutes\<close>, which a
  gateway runs when it starts, and the loop of its heartbeat.  A \<open>SCAN\<close> is the list of its pages;
  a page is chosen from the keys there are when it is read.  Gateway ids have no characters that are special in a Redis pattern.
\<close>

section \<open>The whole cleanup\<close>

definition conn_keys :: "string \<Rightarrow> string list \<Rightarrow> redis \<Rightarrow> string list" where
  "conn_keys gatewayID ks r = filter (\<lambda>k. prefix (GatewayConnKey gatewayID []) k \<and> strs r k \<noteq> None) ks"

text \<open>\<open>pages\<close> lists the keys each page returns; those that are gone or do not match are not returned.\<close>

fun scan_and_delete :: "('b im_scheme) env \<Rightarrow> string \<Rightarrow> string list list \<Rightarrow> int \<Rightarrow> ('b im_scheme, (gerr \<times> int) + int) io" where
  "scan_and_delete env gatewayID [] cleaned = State_Monad.return (Inr cleaned)"
| "scan_and_delete env gatewayID (page # pages) cleaned =
     State_Monad.bind (query env (\<lambda>s. conn_keys gatewayID page (rds s))) (\<lambda>res. case res of
       Inl e \<Rightarrow> State_Monad.return (Inl (e, cleaned))
     | Inr keys \<Rightarrow> State_Monad.bind (if keys = [] then ok () else update_w env (on_rds (\<lambda>r. fold r_del keys r))) (\<lambda>d. case d of
         Inl e \<Rightarrow> State_Monad.return (Inl (e, cleaned)) | Inr _ \<Rightarrow> scan_and_delete env gatewayID pages cleaned))"

definition CleanupGatewayRoutes :: "('b im_scheme) env \<Rightarrow> string list list \<Rightarrow> string \<Rightarrow> ('b im_scheme, (gerr \<times> int) + int) io" where
  "CleanupGatewayRoutes env pages gatewayID =
     (if gatewayID = [] then State_Monad.return (Inr 0)
      else State_Monad.bind (query env (\<lambda>s. rsets (rds s) (GatewayUsersKey gatewayID))) (\<lambda>res. case res of
        Inl e \<Rightarrow> State_Monad.return (Inl (e, 0))
      | Inr users \<Rightarrow> State_Monad.bind (cleanup_users env gatewayID users 0) (\<lambda>r. case r of
          Inl failed \<Rightarrow> State_Monad.return (Inl failed)
        | Inr cleaned \<Rightarrow> State_Monad.bind (scan_and_delete env gatewayID pages cleaned) (\<lambda>r2. case r2 of
            Inl failed \<Rightarrow> State_Monad.return (Inl failed)
          | Inr cleaned \<Rightarrow> ignore (update_w env (on_rds (r_del (GatewayLiveKey gatewayID)))) (State_Monad.return (Inr cleaned))))))"

text \<open>The heartbeat pulses once and then at every tick, until its context ends after \<open>ticks\<close> of them.\<close>

fun beats :: "('b im_scheme) env \<Rightarrow> string \<Rightarrow> nat \<Rightarrow> ('b im_scheme, unit) io" where
  "beats env gatewayID 0 = State_Monad.return ()"
| "beats env gatewayID (Suc n) = State_Monad.bind (pulse env gatewayID) (\<lambda>_. beats env gatewayID n)"

definition StartGatewayHeartbeat :: "('b im_scheme) env \<Rightarrow> string \<Rightarrow> int \<Rightarrow> nat \<Rightarrow> ('b im_scheme, unit) io" where
  "StartGatewayHeartbeat env gatewayID ttl ticks =
     (if gatewayID = [] \<or> ttl \<le> 0 then State_Monad.return ()
      else State_Monad.bind (pulse env gatewayID) (\<lambda>_. beats env gatewayID ticks))"

section \<open>What is kept\<close>

definition routed :: "string \<Rightarrow> string \<Rightarrow> 'b im_scheme \<Rightarrow> bool" where
  "routed g u s \<longleftrightarrow> (\<exists>v. route_owner u (rds s) = Some v \<and> ParseGatewayID v = g)"

text \<open>The other processes may take routes away from the gateway, but give it none.\<close>

definition gives_none :: "string \<Rightarrow> ('b im_scheme) env \<Rightarrow> bool" where
  "gives_none g env \<longleftrightarrow> (\<forall>u v. relies env (\<lambda>s. routed g u s \<longrightarrow> route_owner u (rds s) = Some v))"

lemma gives_none_unrouted: "gives_none g env \<Longrightarrow> \<not> routed g u s \<Longrightarrow> \<not> routed g u (interfere env n s)"
proof
  assume g: "gives_none g env" and un: "\<not> routed g u s" and r: "routed g u (interfere env n s)"
  have "route_owner u (rds (interfere env n s)) = Some v" for v
    using g un r by (auto simp: gives_none_def relies_def)
  from this [of "''a''"] this [of "''b''"] show False by simp
qed

lemma relies_unrouted: "gives_none g env \<Longrightarrow> relies env (\<lambda>s. \<forall>u\<in>U. \<not> routed g u s)"
  using gives_none_unrouted by (fastforce simp: relies_def)

text \<open>The commands of a cleanup delete strings and members, and write nothing else.\<close>

definition only_deletes :: "(redis \<Rightarrow> redis) \<Rightarrow> bool" where
  "only_deletes f \<longleftrightarrow> (\<forall>r k. strs (f r) k = strs r k \<or> strs (f r) k = None)"

lemma only_deletes_rules:
  "only_deletes (r_srem k m)" "only_deletes (r_del k)" "only_deletes (\<lambda>r. snd (clear_route u v r))"
  by (auto simp: only_deletes_def redis_simps clear_route_def Let_def split: prod.splits)

lemma only_deletes_fold: "only_deletes (\<lambda>r. fold r_del ks r)"
proof (induction ks)
  case (Cons k ks)
  have "strs (fold r_del ks (r_del k r)) j = strs r j \<or> strs (fold r_del ks (r_del k r)) j = None" for r j
    using Cons [unfolded only_deletes_def, rule_format, of "r_del k r" j] by (simp add: redis_simps split: if_splits)
  then show ?case unfolding only_deletes_def fold_simps by blast
qed (simp add: only_deletes_def)

lemma route_owner_deleted: "only_deletes f \<Longrightarrow> route_owner u (f r) = Some v \<Longrightarrow> route_owner u r = Some v"
  unfolding only_deletes_def route_owner_Some by (metis option.distinct(1))

lemma routed_deleted: "only_deletes f \<Longrightarrow> routed g u (on_rds f s) \<Longrightarrow> routed g u s"
  by (auto simp: routed_def dest: route_owner_deleted)

lemma keeps_unrouted_delete:
  "gives_none g env \<Longrightarrow> only_deletes f \<Longrightarrow> keeps (\<lambda>s. \<forall>u\<in>U. \<not> routed g u s) (update_w env (on_rds f))"
  by (rule keeps_update [OF relies_unrouted]) (auto dest: routed_deleted)

lemma wp_unrouted_clear:
  assumes "gives_none g env" "routed g uid s \<longrightarrow> route_owner uid (rds s) = Some v"
  shows "wp (ClearRouteIfMatch env uid v) (\<lambda>c s'. c = Inr () \<longrightarrow> \<not> routed g uid s') s"
  unfolding ClearRouteIfMatch_def
proof (rule wp_update_stable [where I = "\<lambda>s. routed g uid s \<longrightarrow> route_owner uid (rds s) = Some v"])
  show "relies env (\<lambda>s. routed g uid s \<longrightarrow> route_owner uid (rds s) = Some v)" using assms(1) by (simp add: gives_none_def)
  fix s' assume I: "routed g uid s' \<longrightarrow> route_owner uid (rds s') = Some v"
  have "\<not> routed g uid (on_rds (\<lambda>r. snd (clear_route uid v r)) s')"
  proof
    assume r: "routed g uid (on_rds (\<lambda>r. snd (clear_route uid v r)) s')"
    then have "route_owner uid (rds s') = Some v" using routed_deleted [OF only_deletes_rules(3)] I by blast
    then have "route_owner uid (snd (clear_route uid v (rds s'))) = None" using route.owner_clear [of uid v "rds s'"] by simp
    with r show False by (simp add: routed_def)
  qed
  then show "Inr () = Inr () \<longrightarrow> \<not> routed g uid (on_rds (\<lambda>r. snd (clear_route uid v r)) s')" by simp
qed (use assms(2) in simp_all)

lemma wp_cleanup_users:
  assumes "gives_none g env"
  shows "\<forall>u\<in>U. \<not> routed g u s \<Longrightarrow> wp (cleanup_users env g users cleaned)
    (\<lambda>r s'. (\<forall>u\<in>U. \<not> routed g u s') \<and> (\<forall>n. r = Inr n \<longrightarrow> (\<forall>u\<in>set users. \<not> routed g u s'))) s"
proof (induction users arbitrary: U s cleaned)
  case Nil
  then show ?case by (auto intro: wp_return)
next
  case (Cons uid users)
  define Q where "Q = (\<lambda>(r :: (gerr \<times> int) + int) (s' :: 'a im_scheme). (\<forall>u\<in>U. \<not> routed g u s') \<and> (\<forall>n. r = Inr n \<longrightarrow> (\<forall>u\<in>set (uid # users). \<not> routed g u s')))"
  have rest: "wp (cleanup_users env g users c) Q s1"
    if "\<forall>u\<in>insert uid U. \<not> routed g u s1" for s1 c
    by (rule wp_mono [OF Cons.IH [OF that]]) (auto simp: Q_def)
  have dropped: "wp (ignore (update_w env (on_rds (r_srem k uid))) (cleanup_users env g users c)) Q s1"
    if "\<forall>u\<in>insert uid U. \<not> routed g u s1" for s1 c k
    by (rule wp_ignoreI [OF keeps_wp [OF keeps_unrouted_delete [OF assms only_deletes_rules(1)] that]]) (rule rest)
  let ?J = "\<lambda>res s1. (\<forall>u\<in>U. \<not> routed g u s1) \<and> (\<forall>x. res = Inr x \<longrightarrow> x = strs (rds s1) (RouteKey uid))"
  have look: "wp (query env (\<lambda>s. strs (rds s) (RouteKey uid))) ?J s"
    by (rule wp_query_stable [OF relies_unrouted [OF assms], where U1 = U]) (use Cons.prems in simp_all)
  have err: "Q (Inl e) s1" if "\<forall>u\<in>U. \<not> routed g u s1" for e s1 using that by (simp add: Q_def)
  show ?case
    unfolding cleanup_users.simps Q_def [symmetric]
  proof (rule wp_bindI [OF look], rule wp_case_sum, goal_cases)
    case (1 res s1 e)
    then show ?case by (intro wp_return err) simp
  next
    case (2 res s1 found)
    then have U: "\<forall>u\<in>U. \<not> routed g u s1" and found: "strs (rds s1) (RouteKey uid) = found" by simp_all
    show ?case
    proof (cases "routed g uid s1")
      case False
      with U have I: "\<forall>u\<in>insert uid U. \<not> routed g u s1" by simp
      show ?thesis
      proof (cases "\<exists>v. found = Some (Txt v) \<and> ParseGatewayID v = g")
        case True
        with found False show ?thesis by (auto simp: routed_def route_owner_Some)
      next
        case False
        then show ?thesis by (auto intro: dropped [OF I] split: option.split rvalue.split)
      qed
    next
      case True
      then obtain v where v: "found = Some (Txt v)" "ParseGatewayID v = g" "route_owner uid (rds s1) = Some v"
        using found by (auto simp: routed_def route_owner_Some)
      have "keeps (\<lambda>s. \<forall>u\<in>U. \<not> routed g u s) (ClearRouteIfMatch env uid v)"
        unfolding ClearRouteIfMatch_def by (rule keeps_unrouted_delete [OF assms only_deletes_rules(3)])
      from wp_conj [OF keeps_wp [OF this U] wp_unrouted_clear [OF assms]] v(3)
      have clear: "wp (ClearRouteIfMatch env uid v) (\<lambda>c s'. (\<forall>u\<in>U. \<not> routed g u s') \<and> (c = Inr () \<longrightarrow> \<not> routed g uid s')) s1" by simp
      have "wp (State_Monad.bind (ClearRouteIfMatch env uid v) (\<lambda>c. case c of
          Inl e \<Rightarrow> State_Monad.return (Inl (e, cleaned)) | Inr _ \<Rightarrow> cleanup_users env g users (cleaned + 1))) Q s1"
        by (rule wp_bindI [OF clear], rule wp_case_sum, rule wp_return, rule err, simp, rule rest, simp)
      then show ?thesis using v(1,2) by simp
    qed
  qed
qed

lemma keeps_scan_and_delete: "gives_none g env \<Longrightarrow> keeps (\<lambda>s. \<forall>u\<in>U. \<not> routed g u s) (scan_and_delete env g pages cleaned)"
  by (induction pages arbitrary: cleaned)
    (auto intro!: keeps_rules relies_unrouted keeps_unrouted_delete only_deletes_fold)

lemma RouteKey_inject [simp]: "RouteKey u = RouteKey w \<longleftrightarrow> u = w"
  by (simp add: RouteKey_def)

lemma route_owner_clear_other:
  assumes "uid \<noteq> u \<or> rv \<noteq> v" "route_owner u r = Some v"
  shows "route_owner u (snd (clear_route uid rv r)) = Some v"
proof (cases "uid = u")
  case True
  then show ?thesis using assms route.owner_clear [of u rv r] by auto
next
  case False
  then have "strs (snd (clear_route uid rv r)) (RouteKey u) = strs r (RouteKey u)"
    by (auto simp: clear_route_def redis_simps Let_def split: prod.splits)
  then show ?thesis using assms(2) by (simp add: route_owner_def)
qed

lemma keeps_owner_delete:
  "relies env (\<lambda>s. route_owner u (rds s) = Some v) \<Longrightarrow> (\<And>r. route_owner u r = Some v \<Longrightarrow> route_owner u (f r) = Some v)
   \<Longrightarrow> keeps (\<lambda>s. route_owner u (rds s) = Some v) (update_w env (on_rds f))"
  by (rule keeps_update) simp_all

lemma route_owner_srem: "route_owner u (r_srem k m r) = route_owner u r"
  by (simp add: route_owner_def redis_simps)

lemma keeps_owner_cleanup_users:
  assumes "relies env (\<lambda>s. route_owner u (rds s) = Some v)" "ParseGatewayID v \<noteq> g"
  shows "keeps (\<lambda>s. route_owner u (rds s) = Some v) (cleanup_users env g users cleaned)"
proof (induction users arbitrary: cleaned)
  case (Cons uid users)
  have drop: "keeps (\<lambda>s. route_owner u (rds s) = Some v) (update_w env (on_rds (r_srem k uid)))" for k
    by (rule keeps_owner_delete [OF assms(1)]) (simp add: route_owner_srem)
  have clear: "keeps (\<lambda>s. route_owner u (rds s) = Some v) (ClearRouteIfMatch env uid rv)" if "ParseGatewayID rv = g" for rv
    unfolding ClearRouteIfMatch_def
    by (rule keeps_owner_delete [OF assms(1)], rule route_owner_clear_other) (use assms(2) that in auto)
  show ?case
    unfolding cleanup_users.simps
    by (intro keeps_rules assms(1) drop clear Cons.IH) simp
qed (simp add: keeps_return)

lemma conn_key_is_no_route: "k \<in> set (conn_keys g ks r) \<Longrightarrow> k \<noteq> RouteKey u"
  by (auto simp: conn_keys_def key_defs prefix_def)

lemma strs_fold_del: "k \<notin> set ks \<Longrightarrow> strs (fold r_del ks r) k = strs r k"
  by (induction ks arbitrary: r) (auto simp: redis_simps)

lemma keeps_owner_scan:
  assumes "relies env (\<lambda>s. route_owner u (rds s) = Some v)"
  shows "route_owner u (rds s) = Some v \<Longrightarrow> wp (scan_and_delete env g pages cleaned) (\<lambda>_ s'. route_owner u (rds s') = Some v) s"
proof (induction pages arbitrary: cleaned s)
  case (Cons page pages)
  let ?I = "\<lambda>s. route_owner u (rds s) = Some v"
  have "wp (query env (\<lambda>s. conn_keys g page (rds s))) (\<lambda>res s'. ?I s' \<and> (\<forall>ks. res = Inr ks \<longrightarrow> RouteKey u \<notin> set ks)) s"
    by (rule wp_query_stable [where I = ?I, OF assms Cons.prems]) (auto dest: conn_key_is_no_route)
  then show ?case
    unfolding scan_and_delete.simps
  proof (rule wp_bindI, intro wp_case_sum, goal_cases)
    case (1 res s1 e)
    then show ?case by (intro wp_return) simp
  next
    case (2 res s1 keys)
    then have I: "?I s1" and ks: "RouteKey u \<notin> set keys" by simp_all
    have "keeps ?I (if keys = [] then ok () else update_w env (on_rds (\<lambda>r. fold r_del keys r)))"
      by (intro keeps_rules keeps_owner_delete assms) (use ks in \<open>simp add: route_owner_def strs_fold_del\<close>)
    from keeps_wp [OF this I] show ?case
      by (rule wp_bindI) (auto intro!: wp_case_sum wp_return Cons.IH)
  qed
qed (auto intro: wp_return)

section \<open>Properties\<close>

text \<open>C9. A cleanup takes exactly the gateway's routes: the route of a user who is connected to another gateway survives
  it, whatever calls fail and whenever it ends; and when it succeeds while the others give the gateway no
  route, no user of its index is routed to it any more.\<close>

theorem cleanup_takes_own_routes:
  assumes "relies env (\<lambda>s. route_owner u (rds s) = Some v)" "route_owner u (rds s) = Some v" "ParseGatewayID v \<noteq> g"
    and "gives_none g env" "g \<noteq> []"
    and "relies env (\<lambda>s. set (rsets (rds s) (GatewayUsersKey g)) = users)" "set (rsets (rds s) (GatewayUsersKey g)) = users"
  shows "wp (CleanupGatewayRoutes env pages g) (\<lambda>_ s'. route_owner u (rds s') = Some v) s
     \<and> wp (CleanupGatewayRoutes env pages g) (\<lambda>r s'. \<forall>n. r = Inr n \<longrightarrow> (\<forall>x\<in>users. \<not> routed g x s')) s"
proof
  let ?I = "\<lambda>s. route_owner u (rds s) = Some v"
  have live: "keeps ?I (update_w env (on_rds (r_del (GatewayLiveKey g))))"
    by (rule keeps_owner_delete [OF assms(1)]) (simp add: route_owner_def redis_simps)
  show "wp (CleanupGatewayRoutes env pages g) (\<lambda>_. ?I) s"
    unfolding CleanupGatewayRoutes_def
    apply (rule wp_if, use assms(5) in simp)
    apply (rule wp_bindI [OF keeps_wp [where I = ?I, OF keeps_query [OF assms(1)] assms(2)]], rule wp_case_sum, rule wp_return, assumption)
    apply (rule wp_bindI [OF keeps_wp [OF keeps_owner_cleanup_users [OF assms(1,3)]]], assumption, rule wp_case_sum, rule wp_return, assumption)
    apply (rule wp_bindI [OF keeps_owner_scan [OF assms(1)]], assumption, rule wp_case_sum, rule wp_return, assumption)
    apply (rule wp_ignoreI [OF keeps_wp [OF live]], assumption, rule wp_return, assumption)
    done
  let ?N = "\<lambda>s. \<forall>x\<in>users. \<not> routed g x s"
  have live2: "keeps ?N (update_w env (on_rds (r_del (GatewayLiveKey g))))"
    by (rule keeps_unrouted_delete [OF assms(4) only_deletes_rules(2)])
  show "wp (CleanupGatewayRoutes env pages g) (\<lambda>r s'. \<forall>n. r = Inr n \<longrightarrow> ?N s') s"
    unfolding CleanupGatewayRoutes_def
    apply (rule wp_if, use assms(5) in simp)
    apply (rule wp_bindI [where R = "\<lambda>r _. \<forall>us. r = Inr us \<longrightarrow> set us = users"])
     apply (rule wp_query_stable [where I = "\<lambda>s. set (rsets (rds s) (GatewayUsersKey g)) = users", OF assms(6,7)])
      apply simp_all
    apply (rule wp_case_sum, rule wp_return, simp)
    apply (rule wp_bindI [OF wp_cleanup_users [OF assms(4), where U = "{}"]], simp, rule wp_case_sum, rule wp_return, simp)
    apply (rule wp_bindI [OF keeps_wp [where I = ?N, OF keeps_scan_and_delete [OF assms(4)]]], simp, rule wp_case_sum, rule wp_return, simp)
    apply (rule wp_ignoreI [OF keeps_wp [where I = ?N, OF live2]], assumption, rule wp_return, simp)
    done
qed

text \<open>\<open>al\<close> is connected to \<open>gw1\<close> and \<open>bo\<close> has moved to \<open>gw2\<close> when \<open>gw1\<close> cleans up.\<close>

definition demo_routes :: im where
  "demo_routes = demo_world\<lparr>rds := claim_route ''bo'' ''gw2|c'' 2 (claim_route ''bo'' ''gw1|b'' 1 (claim_route ''al'' ''gw1|a'' 1 empty_redis))\<rparr>"

lemma demo_route_of_bo: "route_owner ''bo'' (rds demo_routes) = Some ''gw2|c''"
  by (simp add: demo_routes_def route.owner_claim)

lemma demo_users_of_gw1: "set (rsets (rds demo_routes) (GatewayUsersKey ''gw1'')) = {''al'', ''bo''}"
  by (auto simp: demo_routes_def exec_defs)

theorem cleanup_takes_own_routes_witness:
  "wp (CleanupGatewayRoutes (calm 5) [[''gateway_conn:gw1:a'']] ''gw1'') (\<lambda>_ s'. route_owner ''bo'' (rds s') = Some ''gw2|c'') demo_routes
     \<and> wp (CleanupGatewayRoutes (calm 5) [[''gateway_conn:gw1:a'']] ''gw1'') (\<lambda>r s'. \<forall>n. r = Inr n \<longrightarrow> (\<forall>x\<in>{''al'', ''bo''}. \<not> routed ''gw1'' x s')) demo_routes"
  by (rule cleanup_takes_own_routes)
    (simp_all add: demo_route_of_bo demo_users_of_gw1 gives_none_def ParseGatewayID_def ParseRoute_def routeSeparator_def Let_def)

end
