(* ===== verification/Discovery.thy ===== *)
theory Discovery
  imports Schema "HOL-Library.Word"
begin

unbundle bit_operations_syntax

text \<open>
  Service discovery (internal/discovery/etcd.go) and the readiness of the connection to the logic service
  (cmd/gateway/internal/svc/logicrouter.go).  etcd is the key-value store its documentation describes: a key may be bound to a lease, and
  disappears with it; that a lease runs out is a change made by the environment.  The picking of a node is
  rendezvous hashing with the 64-bit FNV-1a hash.
\<close>

section \<open>Rendezvous hashing\<close>

definition fnv64a :: "string \<Rightarrow> 64 word" where
  "fnv64a s = fold (\<lambda>c h. (h XOR of_nat (of_char c)) * 1099511628211) s 14695981039346656037"

definition rendezvousHash :: "string \<Rightarrow> string \<Rightarrow> 64 word" where
  "rendezvousHash key node = fnv64a (key @ ''::'' @ node)"

definition pick_step :: "string \<Rightarrow> string \<Rightarrow> string \<times> 64 word \<Rightarrow> string \<times> 64 word" where
  "pick_step key candidate st = (case st of (picked, maxScore) \<Rightarrow>
     let score = rendezvousHash key candidate in
     if picked = [] \<or> score > maxScore then (candidate, score) else (picked, maxScore))"

definition pick_node :: "string \<Rightarrow> string list \<Rightarrow> string" where
  "pick_node key candidates = fst (fold (pick_step key) candidates ([], 0))"

section \<open>The registry\<close>

record etcd_kv =
  kv_key :: string
  kv_value :: string
  kv_lease :: nat

record etcd =
  kvs :: "etcd_kv list"
  leases :: "nat list"
  kept_alive :: "nat list"

record registry =
  rg_nodeID :: string
  rg_addr :: string
  rg_leaseID :: nat
  rg_keyPrefix :: string
  rg_closes :: bool

definition service_prefix :: "string \<Rightarrow> string" where
  "service_prefix service = ''/services/'' @ service @ ''/''"

definition NewRegistry :: "string \<Rightarrow> string \<Rightarrow> string \<Rightarrow> registry" where
  "NewRegistry service nodeID addr =
     \<lparr>rg_nodeID = nodeID, rg_addr = addr, rg_leaseID = 0, rg_keyPrefix = service_prefix service, rg_closes = False\<rparr>"

text \<open>The calls of etcd's client; a granted lease has an id of its own, and a key cannot be bound to a lease that is gone.\<close>

definition etcd_grant :: "etcd env \<Rightarrow> (etcd, gerr + nat) io" where
  "etcd_grant env = exec env (\<lambda>s. let i = Suc (fold max (leases s) 0) in (Inr i, s\<lparr>leases := i # leases s\<rparr>))"

definition etcd_put :: "etcd env \<Rightarrow> string \<Rightarrow> string \<Rightarrow> nat \<Rightarrow> (etcd, gerr + unit) io" where
  "etcd_put env key value lease = exec env (\<lambda>s.
     if lease \<notin> set (leases s) then (Inl (Msg ''etcdserver: requested lease not found''), s)
     else (Inr (), s\<lparr>kvs := filter (\<lambda>kv. kv_key kv \<noteq> key) (kvs s) @ [\<lparr>kv_key = key, kv_value = value, kv_lease = lease\<rparr>]\<rparr>))"

text \<open>A read of the keys with a prefix, in the order of the keys.\<close>

definition endpoints :: "string \<Rightarrow> etcd \<Rightarrow> string list" where
  "endpoints keyPrefix s = map kv_value (sort_key kv_key (filter (\<lambda>kv. prefix keyPrefix (kv_key kv)) (kvs s)))"

text \<open>The registry that \<open>Register\<close> leaves is returned beside the error: the lease id is stored before the key is put.\<close>

definition Register :: "etcd env \<Rightarrow> registry \<Rightarrow> (etcd, registry \<times> gerr option) io" where
  "Register env r = State_Monad.bind (etcd_grant env) (\<lambda>res. case res of
       Inl e \<Rightarrow> State_Monad.return (r, Some e)
     | Inr leaseID \<Rightarrow> let r1 = r\<lparr>rg_leaseID := leaseID\<rparr> in
         State_Monad.bind (etcd_put env (rg_keyPrefix r @ rg_nodeID r) (rg_addr r) leaseID) (\<lambda>put. case put of
           Inl e \<Rightarrow> State_Monad.return (r1, Some e)
         | Inr _ \<Rightarrow> State_Monad.bind (update_w env (\<lambda>s. s\<lparr>kept_alive := leaseID # kept_alive s\<rparr>)) (\<lambda>alive.
             State_Monad.return (r1\<lparr>rg_closes := True\<rparr>, case alive of Inl e \<Rightarrow> Some e | Inr _ \<Rightarrow> None))))"

text \<open>\<open>Close\<close> stops the renewal; the key stays until its lease runs out.\<close>

definition CloseRegistry :: "etcd env \<Rightarrow> registry \<Rightarrow> (etcd, unit) io" where
  "CloseRegistry env r =
     (if rg_closes r then ignore (update_w env (\<lambda>s. s\<lparr>kept_alive := filter (\<lambda>l. l \<noteq> rg_leaseID r) (kept_alive s)\<rparr>)) (State_Monad.return ())
      else State_Monad.return ())"

definition Pick :: "etcd env \<Rightarrow> string \<Rightarrow> string \<Rightarrow> (etcd, gerr + string) io" where
  "Pick env keyPrefix key =
     then_ok (query env (endpoints keyPrefix)) (\<lambda>values.
       if values = [] then err (Msg (''no endpoint for '' @ keyPrefix)) else ok (pick_node key values))"

definition ParseEndpoints :: "string \<Rightarrow> string list" where
  "ParseEndpoints raw = filter (\<lambda>p. p \<noteq> []) (map trim_space (split_on CHR '','' raw))"

section \<open>Waiting for the logic service\<close>

datatype conn_state = ConnIdle | ConnConnecting | ConnReady | ConnTransientFailure | ConnShutdown

fun state_name :: "conn_state \<Rightarrow> string" where
  "state_name ConnIdle = ''IDLE''"
| "state_name ConnConnecting = ''CONNECTING''"
| "state_name ConnReady = ''READY''"
| "state_name ConnTransientFailure = ''TRANSIENT_FAILURE''"
| "state_name ConnShutdown = ''SHUTDOWN''"

text \<open>
  \<open>states n\<close> is the state the \<open>n\<close>-th look at the connection finds, \<open>changed n\<close> whether it changed before the context ended,
  with the error \<open>ctxErr\<close>.  The loop may run for ever, which is \<open>None\<close>.
\<close>

partial_function (option) wait_from :: "gerr \<Rightarrow> (nat \<Rightarrow> conn_state) \<Rightarrow> (nat \<Rightarrow> bool) \<Rightarrow> nat \<Rightarrow> (gerr + unit) option" where
  "wait_from ctxErr states changed n =
     (if states n = ConnReady then Some (Inr ())
      else if states n = ConnShutdown then Some (Inl (Msg ''logic connection is shut down''))
      else if \<not> changed n then Some (Inl (Wrapped ctxErr (''logic connection not ready: '' @ state_name (states n))))
      else wait_from ctxErr states changed (Suc n))"

definition waitForLogicReady :: "gerr \<Rightarrow> (nat \<Rightarrow> conn_state) \<Rightarrow> (nat \<Rightarrow> bool) \<Rightarrow> (gerr + unit) option" where
  "waitForLogicReady ctxErr states changed = wait_from ctxErr states changed 0"

text \<open>The health check of the logic service answers with an error or its status.\<close>

definition logic_ready :: "bool \<Rightarrow> gerr \<Rightarrow> (nat \<Rightarrow> conn_state) \<Rightarrow> (nat \<Rightarrow> bool) \<Rightarrow> gerr + string \<Rightarrow> (gerr + unit) option" where
  "logic_ready connected ctxErr states changed health =
     (if \<not> connected then Some (Inl (Msg ''logic connection unavailable''))
      else case waitForLogicReady ctxErr states changed of
        None \<Rightarrow> None
      | Some (Inl e) \<Rightarrow> Some (Inl e)
      | Some (Inr _) \<Rightarrow> Some (case health of
          Inl e \<Rightarrow> Inl (Wrapped e ''logic dependency health check failed'')
        | Inr status \<Rightarrow> if status = ''SERVING'' then Inr () else Inl (Msg (''logic dependency health status is '' @ status))))"

section \<open>A pick is the first of the best\<close>

definition leads :: "string \<Rightarrow> string list \<Rightarrow> string \<Rightarrow> bool" where
  "leads key xs v \<longleftrightarrow> (\<exists>before after. xs = before @ v # after \<and> (\<forall>x\<in>set before. rendezvousHash key x < rendezvousHash key v)
     \<and> (\<forall>x\<in>set after. rendezvousHash key x \<le> rendezvousHash key v))"

lemma leadsI:
  "xs = before @ v # after \<Longrightarrow> (\<And>x. x \<in> set before \<Longrightarrow> rendezvousHash key x < rendezvousHash key v)
   \<Longrightarrow> (\<And>x. x \<in> set after \<Longrightarrow> rendezvousHash key x \<le> rendezvousHash key v) \<Longrightarrow> leads key xs v"
  unfolding leads_def by blast

lemma leads_max: "leads key xs v \<Longrightarrow> v \<in> set xs \<and> (\<forall>x\<in>set xs. rendezvousHash key x \<le> rendezvousHash key v)"
  by (auto simp: leads_def less_imp_le)

lemma leads_filter: "leads key xs v \<Longrightarrow> P v \<Longrightarrow> leads key (filter P xs) v"
  unfolding leads_def
proof (elim exE conjE)
  fix before after
  assume "xs = before @ v # after" "P v" "\<forall>x\<in>set before. rendezvousHash key x < rendezvousHash key v"
    "\<forall>x\<in>set after. rendezvousHash key x \<le> rendezvousHash key v"
  then show "\<exists>before after. filter P xs = before @ v # after \<and> (\<forall>x\<in>set before. rendezvousHash key x < rendezvousHash key v)
     \<and> (\<forall>x\<in>set after. rendezvousHash key x \<le> rendezvousHash key v)"
    by (intro exI [of _ "filter P before"] exI [of _ "filter P after"]) simp
qed

lemma leads_not_after: "xs = b1 @ v # a1 \<Longrightarrow> xs = b2 @ w # a2 \<Longrightarrow> length b1 < length b2 \<Longrightarrow> v \<in> set b2"
  by (metis (no_types, lifting) append_eq_append_conv_if list.sel(1) hd_drop_conv_nth in_set_conv_nth nth_append nth_append_length nth_mem)

lemma leads_unique:
  assumes "leads key xs v" "leads key xs w"
  shows "v = w"
proof -
  from assms obtain b1 a1 b2 a2 where v: "xs = b1 @ v # a1" "\<forall>x\<in>set b1. rendezvousHash key x < rendezvousHash key v"
    and w: "xs = b2 @ w # a2" "\<forall>x\<in>set b2. rendezvousHash key x < rendezvousHash key w" unfolding leads_def by blast
  have le: "rendezvousHash key v \<le> rendezvousHash key w" "rendezvousHash key w \<le> rendezvousHash key v"
    using assms leads_max by blast+
  have "\<not> length b1 < length b2" using leads_not_after [OF v(1) w(1)] w(2) le(2) by (meson leD)
  moreover have "\<not> length b2 < length b1" using leads_not_after [OF w(1) v(1)] v(2) le(1) by (meson leD)
  ultimately have "length b1 = length b2" by simp
  with v(1) w(1) show ?thesis by simp
qed

lemma leads_Cons_greater:
  assumes "leads key (x # xs) v" "rendezvousHash key p < rendezvousHash key x"
  shows "leads key (p # x # xs) v"
proof -
  have "rendezvousHash key x \<le> rendezvousHash key v" using leads_max [OF assms(1)] by simp
  then have "rendezvousHash key p < rendezvousHash key v" using assms(2) by (rule less_le_trans [rotated])
  moreover from assms(1) obtain b a where "x # xs = b @ v # a" "\<forall>y\<in>set b. rendezvousHash key y < rendezvousHash key v"
      "\<forall>y\<in>set a. rendezvousHash key y \<le> rendezvousHash key v" unfolding leads_def by blast
  ultimately show ?thesis by (intro leadsI [of _ "p # b" v a]) auto
qed

lemma leads_Cons_smaller:
  assumes "leads key (p # xs) v" "rendezvousHash key x \<le> rendezvousHash key p"
  shows "leads key (p # x # xs) v"
proof -
  from assms(1) obtain b a where v: "p # xs = b @ v # a" "\<forall>y\<in>set b. rendezvousHash key y < rendezvousHash key v"
      "\<forall>y\<in>set a. rendezvousHash key y \<le> rendezvousHash key v" unfolding leads_def by blast
  show ?thesis
  proof (cases b)
    case Nil
    with v assms(2) show ?thesis by (intro leadsI [of _ "[]" v "x # a"]) auto
  next
    case (Cons q b')
    with v assms(2) show ?thesis by (intro leadsI [of _ "p # x # b'" v a]) (auto intro: le_less_trans)
  qed
qed

lemma pick_step_pair: "pick_step key x (p, m) = (if p = [] \<or> m < rendezvousHash key x then (x, rendezvousHash key x) else (p, m))"
  by (simp add: pick_step_def)

lemma pick_fold:
  "p \<noteq> [] \<Longrightarrow> [] \<notin> set xs \<Longrightarrow> \<exists>v. fold (pick_step key) xs (p, rendezvousHash key p) = (v, rendezvousHash key v) \<and> leads key (p # xs) v"
proof (induction xs arbitrary: p)
  case Nil
  then show ?case by (auto intro: leadsI [of _ "[]"])
next
  case (Cons x xs)
  show ?case
  proof (cases "rendezvousHash key p < rendezvousHash key x")
    case True
    obtain v where "fold (pick_step key) xs (x, rendezvousHash key x) = (v, rendezvousHash key v)" "leads key (x # xs) v"
      using Cons.IH [of x] Cons.prems by auto
    with leads_Cons_greater [OF _ True] True show ?thesis by (intro exI [of _ v]) (simp add: pick_step_pair)
  next
    case False
    obtain v where "fold (pick_step key) xs (p, rendezvousHash key p) = (v, rendezvousHash key v)" "leads key (p # xs) v"
      using Cons.IH [of p] Cons.prems by auto
    moreover have "pick_step key x (p, rendezvousHash key p) = (p, rendezvousHash key p)" using False Cons.prems(1) by (simp add: pick_step_pair)
    ultimately show ?thesis using leads_Cons_smaller [of key p xs v x] False by (intro exI [of _ v]) (simp add: not_less)
  qed
qed

lemma pick_node_leads: "xs \<noteq> [] \<Longrightarrow> [] \<notin> set xs \<Longrightarrow> leads key xs (pick_node key xs)"
  using pick_fold [of "hd xs" "tl xs" key] by (cases xs) (auto simp: pick_node_def pick_step_pair)

section \<open>Nodes come and go\<close>

text \<open>Picking by rendezvous hashing is stable: who reads the registry gets, unless the call fails, the named node
  with the greatest hash; and as long as that node stays, the nodes that join with a smaller hash or leave,
  in whatever number, do not change what is picked for the key.\<close>

theorem picks_are_stable:
  assumes "relies env (\<lambda>s. endpoints keyPrefix s = nodes)" "endpoints keyPrefix s = nodes" "nodes \<noteq> []" "[] \<notin> set nodes"
  shows "wp (Pick env keyPrefix key) (\<lambda>r _. r = Inl IoErr \<or> r = Inr (pick_node key nodes)) s
     \<and> pick_node key nodes \<in> set nodes \<and> (\<forall>x\<in>set nodes. rendezvousHash key x \<le> rendezvousHash key (pick_node key nodes))
     \<and> (\<forall>s2 P. filter P (endpoints keyPrefix s2) = filter P nodes \<and> P (pick_node key nodes) \<and> [] \<notin> set (endpoints keyPrefix s2)
          \<and> (\<forall>x\<in>set (endpoints keyPrefix s2). \<not> P x \<longrightarrow> rendezvousHash key x < rendezvousHash key (pick_node key nodes))
          \<longrightarrow> pick_node key (endpoints keyPrefix s2) = pick_node key nodes)"
proof (intro conjI allI impI)
  let ?v = "pick_node key nodes"
  have lead: "leads key nodes ?v" using assms(3,4) by (rule pick_node_leads)
  then show "?v \<in> set nodes" "\<forall>x\<in>set nodes. rendezvousHash key x \<le> rendezvousHash key ?v" using leads_max by blast+
  show "wp (Pick env keyPrefix key) (\<lambda>r _. r = Inl IoErr \<or> r = Inr ?v) s"
    unfolding Pick_def
    by (rule wp_then_okI [OF wp_query_stable [OF assms(1,2), where Q = "\<lambda>r _. r = Inl IoErr \<or> r = Inr nodes"]])
      (auto simp: assms(3) intro: wp_ok)
  fix s2 P
  assume later: "filter P (endpoints keyPrefix s2) = filter P nodes \<and> P ?v \<and> [] \<notin> set (endpoints keyPrefix s2)
    \<and> (\<forall>x\<in>set (endpoints keyPrefix s2). \<not> P x \<longrightarrow> rendezvousHash key x < rendezvousHash key ?v)"
  let ?ys = "endpoints keyPrefix s2"
  have "?v \<in> set (filter P ?ys)" using later \<open>?v \<in> set nodes\<close> by simp
  then have "?ys \<noteq> []" by auto
  then have w: "leads key ?ys (pick_node key ?ys)" using later by (intro pick_node_leads) simp_all
  let ?w = "pick_node key ?ys"
  have "P ?w"
  proof (rule ccontr)
    assume "\<not> P ?w"
    with later leads_max [OF w] have "rendezvousHash key ?w < rendezvousHash key ?v" by blast
    moreover have "rendezvousHash key ?v \<le> rendezvousHash key ?w" using leads_max [OF w] \<open>?v \<in> set (filter P ?ys)\<close> by simp
    ultimately show False by simp
  qed
  then have "leads key (filter P nodes) ?w" using leads_filter [of key ?ys ?w P, OF w] later by simp
  moreover have "leads key (filter P nodes) ?v" using leads_filter [of key nodes ?v P, OF lead] later by simp
  ultimately show "?w = ?v" by (rule leads_unique)
qed

text \<open>Two nodes of the logic service.\<close>

definition demo_registry :: etcd where
  "demo_registry = \<lparr>kvs = [\<lparr>kv_key = ''/services/logic/a'', kv_value = ''h1:1'', kv_lease = 1\<rparr>,
     \<lparr>kv_key = ''/services/logic/b'', kv_value = ''h2:2'', kv_lease = 2\<rparr>], leases = [1, 2], kept_alive = [1, 2]\<rparr>"

lemma demo_endpoints: "endpoints ''/services/logic/'' demo_registry = [''h1:1'', ''h2:2'']"
  by (simp add: endpoints_def demo_registry_def)

theorem picks_are_stable_witness:
  "wp (Pick (calm 5) ''/services/logic/'' ''al'') (\<lambda>r _. r = Inl IoErr \<or> r = Inr (pick_node ''al'' [''h1:1'', ''h2:2''])) demo_registry"
  using picks_are_stable [where env = "calm 5" and keyPrefix = "''/services/logic/''" and s = demo_registry and key = "''al''"
      and nodes = "[''h1:1'', ''h2:2'']"] by (simp add: demo_endpoints)

section \<open>The wait ends with the context\<close>

lemma wait_from_skip:
  "(\<forall>j. n \<le> j \<and> j < n + d \<longrightarrow> states j \<notin> {ConnReady, ConnShutdown} \<and> changed j) \<Longrightarrow>
     wait_from ctxErr states changed n = wait_from ctxErr states changed (n + d)"
proof (induction d)
  case (Suc d)
  then have "wait_from ctxErr states changed n = wait_from ctxErr states changed (n + d)" by simp
  also have "\<dots> = wait_from ctxErr states changed (n + Suc d)" using Suc.prems by (subst wait_from.simps) simp
  finally show ?case .
qed simp

lemma wait_ends:
  assumes "\<not> changed m \<or> states m \<in> {ConnReady, ConnShutdown}"
  shows "\<exists>k\<le>m. (\<forall>j<k. states j \<notin> {ConnReady, ConnShutdown} \<and> changed j) \<and> waitForLogicReady ctxErr states changed = Some
    (if states k = ConnReady then Inr () else Inl (if states k = ConnShutdown then Msg ''logic connection is shut down'' else Wrapped ctxErr (''logic connection not ready: '' @ state_name (states k))))"
proof -
  define k where "k = (LEAST j. \<not> changed j \<or> states j \<in> {ConnReady, ConnShutdown})"
  have "k \<le> m" unfolding k_def by (rule Least_le) (rule assms)
  have stop: "\<not> changed k \<or> states k \<in> {ConnReady, ConnShutdown}" unfolding k_def by (rule LeastI [of _ m]) (rule assms)
  have before: "\<forall>j<k. states j \<notin> {ConnReady, ConnShutdown} \<and> changed j" unfolding k_def using not_less_Least by blast
  have "waitForLogicReady ctxErr states changed = wait_from ctxErr states changed k"
    unfolding waitForLogicReady_def using wait_from_skip [of 0 k states changed] before by simp
  also have "\<dots> = Some (if states k = ConnReady then Inr () else Inl (if states k = ConnShutdown then Msg ''logic connection is shut down'' else Wrapped ctxErr (''logic connection not ready: '' @ state_name (states k))))"
    using stop by (subst wait_from.simps) auto
  finally show ?thesis using before \<open>k \<le> m\<close> by (intro exI [of _ k] conjI)
qed

lemma wait_never_ends:
  assumes "\<forall>n. changed n \<and> states n \<notin> {ConnReady, ConnShutdown}"
  shows "waitForLogicReady ctxErr states changed = None"
proof -
  have "wait_from ctxErr states changed n = Some r \<Longrightarrow> \<not> (\<forall>n. changed n \<and> states n \<notin> {ConnReady, ConnShutdown})" for n r
    by (rule wait_from.raw_induct [where P = "\<lambda>ctxErr states changed n r. \<not> (\<forall>n. changed n \<and> states n \<notin> {ConnReady, ConnShutdown})"])
      (auto split: if_splits)
  then have "wait_from ctxErr states changed n \<noteq> Some r" for n r using assms by blast
  then show ?thesis unfolding waitForLogicReady_def by (metis not_None_eq)
qed

end
