(* ===== verification/Frames.thy ===== *)
theory Frames
  imports Prelude "HOL-Library.Word"
begin

unbundle bit_operations_syntax

text \<open>
  The length-prefixed frames of pkg/codec/codec.go.  The length is kept in an \<open>int32\<close>, so the arithmetic is done at
  that width; where Go panics on a length it cannot allocate, the result is \<open>None\<close>.  A reader is the
  text it still has to give.
\<close>

section \<open>Big-endian numbers\<close>

definition byte_of :: "nat \<Rightarrow> 32 word \<Rightarrow> char" where
  "byte_of i w = char_of (unat (drop_bit (8 * i) w AND 255))"

text \<open>\<open>binary.BigEndian.PutUint32\<close> and \<open>binary.BigEndian.Uint32\<close>\<close>

definition PutUint32 :: "32 word \<Rightarrow> string" where
  "PutUint32 w = [byte_of 3 w, byte_of 2 w, byte_of 1 w, byte_of 0 w]"

definition Uint32 :: "string \<Rightarrow> 32 word" where
  "Uint32 s = fold (\<lambda>c w. push_bit 8 w OR of_nat (of_char c)) (take 4 s) 0"

section \<open>Encoding and decoding\<close>

definition i32 :: "int \<Rightarrow> int" where
  "i32 n = signed_take_bit 31 n"

text \<open>\<open>pkg[:4]\<close> panics for a package of fewer than four bytes, and \<open>make\<close> for a negative length.\<close>

definition Encode :: "string \<Rightarrow> string option" where
  "Encode payload =
     (let len = i32 (int (length payload)); total = i32 (4 + len) in
      if total < 4 then None
      else Some (PutUint32 (word_of_int len) @ take (nat total - 4) payload))"

definition ErrEOF :: gerr where "ErrEOF = Msg ''EOF''"
definition ErrUnexpectedEOF :: gerr where "ErrUnexpectedEOF = Msg ''unexpected EOF''"

text \<open>\<open>io.ReadFull\<close>: the bytes read and what the reader has left.\<close>

definition ReadFull :: "nat \<Rightarrow> string \<Rightarrow> (gerr + string) \<times> string" where
  "ReadFull n s = (if n \<le> length s then (Inr (take n s), drop n s)
     else (Inl (if s = [] then ErrEOF else ErrUnexpectedEOF), []))"

definition Decode :: "string \<Rightarrow> (gerr + string) \<times> string" where
  "Decode s = (case ReadFull 4 s of
       (Inl e, s1) \<Rightarrow> (Inl e, s1)
     | (Inr lengthByte, s1) \<Rightarrow> ReadFull (unat (Uint32 lengthByte)) s1)"

text \<open>The payloads a reader gives until it ends; \<open>n\<close> bounds their number.\<close>

fun decode_all :: "nat \<Rightarrow> string \<Rightarrow> string list" where
  "decode_all 0 s = []"
| "decode_all (Suc n) s = (case Decode s of (Inl _, _) \<Rightarrow> [] | (Inr d, s1) \<Rightarrow> d # decode_all n s1)"

section \<open>Round trips\<close>

lemma of_char_byte_of: "(of_nat (of_char (byte_of i w)) :: 32 word) = drop_bit (8 * i) w AND 255"
proof -
  have "unat (drop_bit (8 * i) w AND 255) < 256"
  proof -
    have "drop_bit (8 * i) w AND 255 \<le> (255 :: 32 word)" by (rule word_and_le1)
    then show ?thesis by (simp add: word_le_nat_alt)
  qed
  then show ?thesis by (simp add: byte_of_def of_char_of)
qed

lemma Uint32_PutUint32: "Uint32 (PutUint32 w) = w"
proof -
  have "Uint32 (PutUint32 w) = push_bit 8 (push_bit 8 (push_bit 8 (drop_bit 24 w AND 255) OR drop_bit 16 w AND 255) OR drop_bit 8 w AND 255) OR w AND 255"
    by (simp add: Uint32_def PutUint32_def of_char_byte_of)
  also have "\<dots> = w"
  proof (rule bit_word_eqI)
    have m: "x AND 255 = take_bit 8 x" for x :: "32 word" by (simp add: take_bit_eq_mask mask_eq_exp_minus_1)
    fix n assume n: "n < LENGTH(32)"
    consider "n < 8" | "8 \<le> n" "n < 16" | "16 \<le> n" "n < 24" | "24 \<le> n" "n < 32" using n by fastforce
    then show "bit (push_bit 8 (push_bit 8 (push_bit 8 (drop_bit 24 w AND 255) OR drop_bit 16 w AND 255) OR drop_bit 8 w AND 255) OR w AND 255) n = bit w n"
      unfolding m by cases (auto simp: bit_simps)
  qed
  finally show ?thesis .
qed

lemma i32_id: "- (2 ^ 31) \<le> n \<Longrightarrow> n < 2 ^ 31 \<Longrightarrow> i32 n = n"
  by (simp add: i32_def signed_take_bit_int_eq_self_iff)

lemma i32_mod: "i32 n = (n + 2 ^ 31) mod 2 ^ 32 - 2 ^ 31"
  by (simp add: i32_def signed_take_bit_eq_take_bit_shift take_bit_eq_mod)

lemma i32_high: "2 ^ 31 \<le> n \<Longrightarrow> n < 2 ^ 32 \<Longrightarrow> i32 n = n - 2 ^ 32"
proof -
  assume n: "2 ^ 31 \<le> n" "n < 2 ^ 32"
  have "(n + 2 ^ 31) mod 2 ^ 32 = (n + 2 ^ 31 - 2 ^ 32) mod 2 ^ 32" by (metis mod_diff_right_eq mod_self diff_zero)
  also have "\<dots> = n + 2 ^ 31 - 2 ^ 32" using n by (intro mod_pos_pos_trivial) auto
  finally show ?thesis by (simp add: i32_mod)
qed

lemma Encode_eq:
  assumes "length payload < 2 ^ 31 - 4"
  shows "Encode payload = Some (PutUint32 (of_nat (length payload)) @ payload)"
  using assms by (simp add: Encode_def Let_def i32_id)

lemma length_PutUint32 [simp]: "length (PutUint32 w) = 4"
  by (simp add: PutUint32_def)

lemma Decode_Encode:
  assumes "length payload < 2 ^ 31 - 4" "Encode payload = Some p"
  shows "Decode (p @ rest) = (Inr payload, rest)"
proof -
  have "unat (of_nat (length payload) :: 32 word) = length payload"
    using assms(1) by (simp add: unat_of_nat)
  moreover have "p = PutUint32 (of_nat (length payload)) @ payload" using assms(2) by (simp add: Encode_eq [OF assms(1)])
  ultimately show ?thesis by (simp add: Decode_def ReadFull_def Uint32_PutUint32)
qed

text \<open>A stream of frames gives back the payloads in their order.\<close>

lemma frames_give_payloads:
  assumes "\<forall>d\<in>set ds. length d < 2 ^ 31 - 4"
  shows "decode_all (Suc (length ds)) (concat (map (the \<circ> Encode) ds)) = ds"
  using assms
proof (induction ds)
  case Nil
  then show ?case by (simp add: Decode_def ReadFull_def)
next
  case (Cons d ds)
  then have d: "length d < 2 ^ 31 - 4" by simp
  with Cons show ?case
    using Decode_Encode [OF d Encode_eq [OF d]] by (simp add: Encode_eq [OF d])
qed

text \<open>A payload whose length overflows the 32 bits is refused by a panic, or, when the length wraps around to a
  small number, cut to it.\<close>

lemma long_payload_panics: "2 ^ 31 - 4 \<le> length payload \<Longrightarrow> length payload < 2 ^ 32 \<Longrightarrow> Encode payload = None"
proof -
  assume n: "2 ^ 31 - 4 \<le> length payload" "length payload < 2 ^ 32"
  show ?thesis
  proof (cases "length payload < 2 ^ 31")
    case True
    then have "i32 (int (length payload)) = int (length payload)" "i32 (4 + int (length payload)) = 4 + int (length payload) - 2 ^ 32"
      using n by (intro i32_id i32_high; simp)+
    then show ?thesis using True by (simp add: Encode_def Let_def)
  next
    case False
    then have "i32 (int (length payload)) = int (length payload) - 2 ^ 32" using n by (intro i32_high) simp_all
    moreover have "i32 (4 + (int (length payload) - 2 ^ 32)) = 4 + (int (length payload) - 2 ^ 32)" using n False by (intro i32_id) simp_all
    ultimately show ?thesis using n by (simp add: Encode_def Let_def)
  qed
qed

lemma longer_payload_is_cut: "length payload = 2 ^ 32 + 5 \<Longrightarrow> Encode payload = Some (PutUint32 5 @ take 5 payload)"
  by (simp add: Encode_def Let_def i32_def signed_take_bit_eq_take_bit_shift take_bit_eq_mod)

end
