(* ===== verification/Sync.thy ===== *)
theory Sync
  imports Delivery
begin

text \<open>
  Catching up after a reconnect: internal/server/sync.go, and the websocket write of
  internal/server/manager.go.  First the messages that wait for an acknowledgement are replayed, then the
  session's timeline in Redis, then the message table, skipping what was already replayed.  The lemmas, proved for
  any payload check of the connection, show that a waiting message is written to the connection, and that the table
  replay writes exactly the missing messages of the session in sequence order.
\<close>

text \<open>
  \<open>ClientConn.WriteBinary\<close>: the optional membership check, then the write.  A refused payload is dropped
  without an error.
\<close>

type_synonym 'b authorizer = "(string \<Rightarrow> ('b im_scheme, gerr + bool) io) option"

definition write_ws :: "('b im_scheme) env \<Rightarrow> string \<Rightarrow> string \<Rightarrow> ('b im_scheme, gerr + unit) io" where
  "write_ws env conn payload = update_w env (\<lambda>s. s\<lparr>ws_out := ws_out s @ [(conn, payload)]\<rparr>)"

definition WriteBinary :: "'b authorizer \<Rightarrow> ('b im_scheme) env \<Rightarrow> string \<Rightarrow> string \<Rightarrow> ('b im_scheme, gerr + unit) io" where
  "WriteBinary auth env conn payload =
     (case auth of
        Some authorize \<Rightarrow> then_ok (authorize payload) (\<lambda>allowed. if \<not> allowed then ok () else write_ws env conn payload)
      | None \<Rightarrow> write_ws env conn payload)"

section \<open>Replaying pending messages\<close>

text \<open>The set \<open>replayed\<close> is kept when a write fails, as the Go map is.\<close>

fun replay_pending :: "'b authorizer \<Rightarrow> ('b im_scheme) env \<Rightarrow> string \<Rightarrow> string \<Rightarrow> string list \<Rightarrow> string list
    \<Rightarrow> ('b im_scheme, (gerr + unit) \<times> string list) io" where
  "replay_pending auth env uid conn [] replayed = State_Monad.return (Inr (), replayed)"
| "replay_pending auth env uid conn (messageID # rest) replayed =
     State_Monad.bind (query env (\<lambda>s. hashes (rds s) (AckIndexKey uid) messageID)) (\<lambda>res.
       case (case res of Inr (Some (Txt encoded)) \<Rightarrow> base64_decode encoded | _ \<Rightarrow> None) of
         None \<Rightarrow> replay_pending auth env uid conn rest replayed
       | Some payload \<Rightarrow> State_Monad.bind (WriteBinary auth env conn payload) (\<lambda>r. case r of
           Inl e \<Rightarrow> State_Monad.return (Inl e, replayed)
         | Inr _ \<Rightarrow> replay_pending auth env uid conn rest (messageID # replayed)))"

definition syncPendingMessages :: "'b authorizer \<Rightarrow> ('b im_scheme) env \<Rightarrow> string \<Rightarrow> string \<Rightarrow> string list
    \<Rightarrow> ('b im_scheme, (gerr + unit) \<times> string list) io" where
  "syncPendingMessages auth env uid conn replayed =
     State_Monad.bind (query env (\<lambda>s. r_zrange (PendingAckKey uid) (rds s))) (\<lambda>res. case res of
       Inl e \<Rightarrow> State_Monad.return (Inl e, replayed)
     | Inr messages \<Rightarrow> replay_pending auth env uid conn messages replayed)"

section \<open>Replaying the timeline\<close>

definition syncBatchSize :: nat where "syncBatchSize = 200"
definition maxMySQLReplayCount :: nat where "maxMySQLReplayCount = 1000"

fun replay_timeline :: "'b authorizer \<Rightarrow> ('b im_scheme) env \<Rightarrow> string \<Rightarrow> string list \<Rightarrow> string list
    \<Rightarrow> ('b im_scheme, (gerr + unit) \<times> string list) io" where
  "replay_timeline auth env conn [] replayed = State_Monad.return (Inr (), replayed)"
| "replay_timeline auth env conn (messageID # rest) replayed =
     (if messageID \<in> set replayed then replay_timeline auth env conn rest replayed
      else State_Monad.bind (query env (\<lambda>s. strs (rds s) (MessagePayloadKey messageID))) (\<lambda>res.
        case (case res of Inr (Some (Txt encoded)) \<Rightarrow> base64_decode encoded | _ \<Rightarrow> None) of
          None \<Rightarrow> replay_timeline auth env conn rest replayed
        | Some payload \<Rightarrow> State_Monad.bind (WriteBinary auth env conn payload) (\<lambda>r. case r of
            Inl e \<Rightarrow> State_Monad.return (Inl e, replayed)
          | Inr _ \<Rightarrow> replay_timeline auth env conn rest (messageID # replayed))))"

definition syncSessionMessagesAfterSeq :: "'b authorizer \<Rightarrow> ('b im_scheme) env \<Rightarrow> string \<Rightarrow> string \<Rightarrow> int \<Rightarrow> string list
    \<Rightarrow> ('b im_scheme, (gerr + unit) \<times> string list) io" where
  "syncSessionMessagesAfterSeq auth env conn sessionID lastSeq replayed =
     (if sessionID = [] \<or> lastSeq < 0 then State_Monad.return (Inr (), replayed)
      else State_Monad.bind
        (query env (\<lambda>s. r_zrange_above (SessionTimelineKey sessionID) lastSeq syncBatchSize (rds s))) (\<lambda>res. case res of
          Inl e \<Rightarrow> State_Monad.return (Inl e, replayed)
        | Inr messages \<Rightarrow> replay_timeline auth env conn messages replayed))"

section \<open>Replaying the message table\<close>

text \<open>One batch: the rows written, the largest sequence number seen, how many were new.\<close>

fun replay_rows :: "cfg \<Rightarrow> 'b authorizer \<Rightarrow> ('b im_scheme) env \<Rightarrow> string \<Rightarrow> msg_row list \<Rightarrow> int \<Rightarrow> nat \<Rightarrow> string list
    \<Rightarrow> ('b im_scheme, (gerr + int \<times> nat) \<times> string list) io" where
  "replay_rows h auth env conn [] maxSeq count replayed = State_Monad.return (Inr (maxSeq, count), replayed)"
| "replay_rows h auth env conn (row # rest) maxSeq count replayed =
     (if ms_client_msg_id row = None
      then State_Monad.return (Inl (Msg ''converting NULL to string is unsupported''), replayed)
      else let maxSeq' = max maxSeq (ms_seq row) in
        if ms_message_id row \<in> set replayed then replay_rows h auth env conn rest maxSeq' count replayed
        else (case marshal h (frame_of_row row) of
          Inl e \<Rightarrow> State_Monad.return (Inl e, replayed)
        | Inr payload \<Rightarrow> State_Monad.bind (WriteBinary auth env conn payload) (\<lambda>r. case r of
            Inl e \<Rightarrow> State_Monad.return (Inl e, replayed)
          | Inr _ \<Rightarrow> replay_rows h auth env conn rest maxSeq' (count + 1) (ms_message_id row # replayed))))"

definition session_batch :: "string \<Rightarrow> int \<Rightarrow> 'b im_scheme \<Rightarrow> msg_row list" where
  "session_batch sessionID c s = take syncBatchSize
     (order_asc ms_seq (filter (\<lambda>r. ms_session_id r = sessionID \<and> c < ms_seq r) (msgs s)))"

text \<open>The loop over batches, with fuel: \<open>None\<close> when the fuel runs out.\<close>

fun syncMySQLMessagesAfterSeq :: "nat \<Rightarrow> cfg \<Rightarrow> 'b authorizer \<Rightarrow> ('b im_scheme) env \<Rightarrow> string \<Rightarrow> string \<Rightarrow> int \<Rightarrow> nat \<Rightarrow> string list
    \<Rightarrow> ('b im_scheme, ((gerr + unit) \<times> string list) option) io" where
  "syncMySQLMessagesAfterSeq 0 h auth env conn sessionID cur count replayed = State_Monad.return None"
| "syncMySQLMessagesAfterSeq (Suc fuel) h auth env conn sessionID cur count replayed =
     (if \<not> count < maxMySQLReplayCount then State_Monad.return (Some (Inr (), replayed))
      else State_Monad.bind (query env (session_batch sessionID cur)) (\<lambda>res. case res of
        Inl e \<Rightarrow> State_Monad.return (Some (Inl e, replayed))
      | Inr rows \<Rightarrow> State_Monad.bind (replay_rows h auth env conn rows cur count replayed) (\<lambda>(res, replayed'). case res of
          Inl e \<Rightarrow> State_Monad.return (Some (Inl e, replayed'))
        | Inr (maxSeq, count') \<Rightarrow>
            if rows = [] \<or> maxSeq \<le> cur \<or> length rows < syncBatchSize
            then State_Monad.return (Some (Inr (), replayed'))
            else syncMySQLMessagesAfterSeq fuel h auth env conn sessionID maxSeq count' replayed')))"

definition SyncSessionMessagesAfterSeqWithDB :: "nat \<Rightarrow> cfg \<Rightarrow> bool \<Rightarrow> 'b authorizer \<Rightarrow> ('b im_scheme) env \<Rightarrow> string \<Rightarrow> string
    \<Rightarrow> int \<Rightarrow> string list \<Rightarrow> ('b im_scheme, (gerr + unit) option) io" where
  "SyncSessionMessagesAfterSeqWithDB fuel h db auth env conn sessionID lastSeq replayed =
     State_Monad.bind (syncSessionMessagesAfterSeq auth env conn sessionID lastSeq replayed) (\<lambda>(res, replayed').
       case res of
         Inl e \<Rightarrow> if \<not> db then State_Monad.return (Some (Inl e))
                  else if sessionID = [] \<or> lastSeq < 0 then State_Monad.return (Some (Inr ()))
                  else State_Monad.bind (syncMySQLMessagesAfterSeq fuel h auth env conn sessionID lastSeq 0 replayed')
                    (\<lambda>r. State_Monad.return (map_option fst r))
       | Inr _ \<Rightarrow> if \<not> db \<or> sessionID = [] \<or> lastSeq < 0 then State_Monad.return (Some (Inr ()))
                  else State_Monad.bind (syncMySQLMessagesAfterSeq fuel h auth env conn sessionID lastSeq 0 replayed')
                    (\<lambda>r. State_Monad.return (map_option fst r)))"

definition SyncOfflineMessagesWithDB :: "nat \<Rightarrow> cfg \<Rightarrow> bool \<Rightarrow> 'b authorizer \<Rightarrow> ('b im_scheme) env \<Rightarrow> string \<Rightarrow> string \<Rightarrow> string
    \<Rightarrow> int \<Rightarrow> ('b im_scheme, (gerr + unit) option) io" where
  "SyncOfflineMessagesWithDB fuel h db auth env uid conn sessionID lastSeq =
     State_Monad.bind (syncPendingMessages auth env uid conn []) (\<lambda>(res, replayed). case res of
       Inl e \<Rightarrow> if \<not> db then State_Monad.return (Some (Inl e))
                else SyncSessionMessagesAfterSeqWithDB fuel h db auth env conn sessionID lastSeq replayed
     | Inr _ \<Rightarrow> SyncSessionMessagesAfterSeqWithDB fuel h db auth env conn sessionID lastSeq replayed)"

section \<open>The payload check of a connection\<close>

definition written :: "string \<Rightarrow> string \<Rightarrow> 'b im_scheme \<Rightarrow> bool" where
  "written conn p s \<longleftrightarrow> (conn, p) \<in> set (ws_out s)"

text \<open>What was written to the connections of a set, in order.\<close>

definition sent_on :: "(string \<Rightarrow> bool) \<Rightarrow> 'b im_scheme \<Rightarrow> (string \<times> string) list" where
  "sent_on D s = filter (\<lambda>(c, p). D c) (ws_out s)"

text \<open>Every waiting payload of the user that can be read at all can be read by the check of his connection.\<close>

definition index_readable :: "(string \<Rightarrow> bool) \<Rightarrow> string \<Rightarrow> 'b im_scheme \<Rightarrow> bool" where
  "index_readable readable uid s \<longleftrightarrow>
     (\<forall>m e q. hashes (rds s) (AckIndexKey uid) m = Some (Txt e) \<longrightarrow> base64_decode e = Some q \<longrightarrow> readable q)"

text \<open>
  What the replays rely on: on a reliable store the check decides a readable payload by a condition on the
  state, which the log of writes is no part of.  It drops what the condition does not let pass.
\<close>

locale replay_check =
  fixes env :: "('b im_scheme) env"
    and authorize :: "string \<Rightarrow> ('b im_scheme, gerr + bool) io"
    and readable :: "string \<Rightarrow> bool"
    and passes :: "string \<Rightarrow> 'b im_scheme \<Rightarrow> bool"
  assumes decides: "reliable env \<Longrightarrow> relies env I \<Longrightarrow> I s \<Longrightarrow> readable q \<Longrightarrow> (\<And>s'. I s' \<Longrightarrow> Q (Inr (passes q s')) s') \<Longrightarrow> wp (authorize q) Q s"
    and passes_log: "passes q (s\<lparr>ws_out := log\<rparr>) = passes q s"
begin

lemma wp_checked_write:
  assumes "reliable env" "relies env I" "I s" "readable q"
    and "\<And>s'. I s' \<Longrightarrow> \<not> passes q s' \<Longrightarrow> Q (Inr ()) s'"
    and "\<And>s1 s'. I s1 \<Longrightarrow> passes q s1 \<Longrightarrow> I s' \<Longrightarrow> Q (Inr ()) (s'\<lparr>ws_out := ws_out s' @ [(conn, q)]\<rparr>)"
  shows "wp (WriteBinary (Some authorize) env conn q) Q s"
proof -
  have "wp (write_ws env conn q) Q s'" if "I s'" "passes q s'" for s'
    unfolding write_ws_def by (rule wp_update_up [OF assms(1,2) that(1)]) (rule assms(6) [OF that])
  then show ?thesis
    unfolding WriteBinary_def option.case
    by (intro wp_then_ok decides [OF assms(1-4)]) (auto intro!: wp_if wp_ok assms(5))
qed

text \<open>A waiting message that passes reaches the connection, and nothing that waits beside it stops the replay.\<close>

lemma replay_pending_writes:
  assumes env: "reliable env" "relies env R" "relies env (written conn p)"
    and R: "R = (\<lambda>s. pending_with uid m e s \<and> passes p s \<and> index_readable readable uid s)"
    and dec: "base64_decode e = Some p"
    and w: "R w" "m \<in> set messages \<or> written conn p w"
  shows "wp (replay_pending (Some authorize) env uid conn messages replayed) (\<lambda>(r, _) s. r = Inr () \<and> R s \<and> written conn p s) w"
  using w
proof (induction messages arbitrary: replayed w)
  case Nil
  then show ?case by (simp add: wp_return)
next
  case (Cons mid rest)
  let ?I = "\<lambda>s. R s \<and> (m \<in> set (mid # rest) \<or> written conn p s)"
  let ?J = "\<lambda>s. R s \<and> (m \<in> set rest \<or> written conn p s)"
  have relI: "relies env ?I"
    using env(2,3) unfolding relies_def by blast
  have next_step: "wp (replay_pending (Some authorize) env uid conn rest rep) (\<lambda>(r, _) s. r = Inr () \<and> R s \<and> written conn p s) s"
    if "?J s" for rep s
    using Cons.IH that by blast
  have log: "R (s\<lparr>ws_out := x\<rparr>) = R s" for s x
    by (simp add: R pending_with_def passes_log index_readable_def)
  show ?case
    unfolding replay_pending.simps
  proof (rule wp_bind, rule wp_query_up [OF env(1) relI], goal_cases)
    case 1
    then show ?case using Cons.prems by blast
  next
    case (2 s)
    let ?pl = "case hashes (rds s) (AckIndexKey uid) mid of Some (Txt encoded) \<Rightarrow> base64_decode encoded | _ \<Rightarrow> None"
    have own: "?pl = Some p" if "mid = m"
      using 2 that dec by (auto simp: R pending_with_def)
    show ?case
    proof (cases ?pl)
      case None
      then have "?J s" using 2 own by auto
      from next_step [OF this] None show ?thesis by simp
    next
      case (Some q)
      have "readable q" using 2 Some by (auto simp: R index_readable_def split: option.splits rvalue.splits)
      moreover have "wp (replay_pending (Some authorize) env uid conn rest (mid # replayed)) (\<lambda>(r, _) s. r = Inr () \<and> R s \<and> written conn p s) s'"
        if "?I s'" "\<not> passes q s'" for s'
        using that own Some by (intro next_step) (auto simp: R)
      moreover have "wp (replay_pending (Some authorize) env uid conn rest (mid # replayed)) (\<lambda>(r, _) s. r = Inr () \<and> R s \<and> written conn p s)
          (s'\<lparr>ws_out := ws_out s' @ [(conn, q)]\<rparr>)" if "?I s'" for s'
        using that own Some by (intro next_step) (auto simp: log, auto simp: written_def)
      ultimately have "wp (State_Monad.bind (WriteBinary (Some authorize) env conn q) (\<lambda>r. case r of
           Inl e \<Rightarrow> State_Monad.return (Inl e, replayed)
         | Inr _ \<Rightarrow> replay_pending (Some authorize) env uid conn rest (mid # replayed)))
           (\<lambda>(r, _) s. r = Inr () \<and> R s \<and> written conn p s) s"
        by (intro wp_bind wp_checked_write [OF env(1) relI 2]) simp_all
      with Some show ?thesis by simp
    qed
  qed
qed

lemma syncPendingMessages_writes:
  assumes "reliable env" "relies env R" "relies env (written conn p)"
    and "R = (\<lambda>s. pending_with uid m e s \<and> passes p s \<and> index_readable readable uid s)"
    and "base64_decode e = Some p" "R w"
  shows "wp (syncPendingMessages (Some authorize) env uid conn replayed) (\<lambda>(r, _) s. r = Inr () \<and> R s \<and> written conn p s) w"
  unfolding syncPendingMessages_def
proof (rule wp_bind, rule wp_query_up [OF assms(1,2,6)], goal_cases)
  case (1 s)
  then have "m \<in> set (r_zrange (PendingAckKey uid) (rds s))"
    by (auto simp: assms(4) pending_with_def is_waiting_def r_zrange_def)
  with replay_pending_writes [OF assms(1-5) 1] show ?case by simp
qed

end

section \<open>Batches of the message table\<close>

definition new_rows :: "string list \<Rightarrow> msg_row list \<Rightarrow> msg_row list" where
  "new_rows replayed rows = filter (\<lambda>r. ms_message_id r \<notin> set replayed) rows"

definition row_payload :: "cfg \<Rightarrow> msg_row \<Rightarrow> string" where
  "row_payload h r = (case marshal h (frame_of_row r) of Inr p \<Rightarrow> p | Inl _ \<Rightarrow> [])"

definition sendable :: "cfg \<Rightarrow> msg_row \<Rightarrow> bool" where
  "sendable h r \<longleftrightarrow> ms_client_msg_id r \<noteq> None \<and> (\<exists>p. marshal h (frame_of_row r) = Inr p)"

text \<open>The rows of a session after a cursor, in the order of their numbers.\<close>

definition rows_after :: "int \<Rightarrow> msg_row list \<Rightarrow> msg_row list" where
  "rows_after c rows = order_asc ms_seq (filter (\<lambda>r. c < ms_seq r) rows)"

definition session_rows :: "string \<Rightarrow> 'b im_scheme \<Rightarrow> msg_row list" where
  "session_rows sid s = filter (\<lambda>r. ms_session_id r = sid) (msgs s)"

lemma session_batch_rows: "session_batch sid c s = take syncBatchSize (rows_after c (session_rows sid s))"
  by (simp add: session_batch_def rows_after_def session_rows_def conj_commute)

lemma filter_above_strict:
  fixes f :: "'a \<Rightarrow> int"
  assumes "sorted_wrt (<) (map f xs)" "0 < k" "k \<le> length xs"
  shows "filter (\<lambda>x. f (xs ! (k - 1)) < f x) xs = drop k xs"
proof -
  have lt: "i < j \<Longrightarrow> j < length xs \<Longrightarrow> f (xs ! i) < f (xs ! j)" for i j
    using assms(1) sorted_wrt_nth_less [of "(<)" "map f xs" i j] by simp
  have "filter (\<lambda>x. f (xs ! (k - 1)) < f x) (take k xs) = []"
  proof (rule filter_False, rule ballI)
    fix x assume "x \<in> set (take k xs)"
    then obtain i where "i < k" "x = xs ! i" using assms(3) by (auto simp: in_set_conv_nth)
    moreover from this have "i \<noteq> k - 1 \<Longrightarrow> i < k - 1" by simp
    ultimately show "\<not> f (xs ! (k - 1)) < f x" using lt [of i "k - 1"] assms(2,3) by (cases "i = k - 1") fastforce+
  qed
  moreover have "filter (\<lambda>x. f (xs ! (k - 1)) < f x) (drop k xs) = drop k xs"
  proof (rule filter_True, rule ballI)
    fix x assume "x \<in> set (drop k xs)"
    then obtain i where "k + i < length xs" "x = xs ! (k + i)"
      using assms(3) by (auto simp: in_set_conv_nth) (metis add.commute less_diff_conv)
    then show "f (xs ! (k - 1)) < f x" using lt [of "k - 1" "k + i"] assms(2) by simp
  qed
  ultimately show ?thesis using filter_append [of _ "take k xs" "drop k xs"] by (metis append_Nil append_take_drop_id)
qed

lemma fold_max_sorted:
  fixes f :: "'a \<Rightarrow> int"
  assumes "sorted_wrt (<) (map f xs)" "\<forall>x\<in>set xs. c < f x" "xs \<noteq> []"
  shows "fold (\<lambda>r m. max m (f r)) xs c = f (last xs)"
  using assms
proof (induction xs arbitrary: c)
  case (Cons x xs)
  then show ?case by (cases xs) (auto simp: max_def)
qed simp

text \<open>What the keys of the table give for the rows of one session: message ids and numbers are distinct.\<close>

definition rows_keyed :: "msg_row list \<Rightarrow> bool" where
  "rows_keyed rows \<longleftrightarrow> distinct (map ms_message_id rows) \<and> distinct (map ms_seq rows)"

lemma rows_after_later: "c \<le> c' \<Longrightarrow> rows_after c' rows = filter (\<lambda>r. c' < ms_seq r) (rows_after c rows)"
  unfolding rows_after_def order_asc_def filter_sort by (auto intro!: arg_cong [where f = "sort_key _"] filter_cong)

lemma rows_after_strict: "rows_keyed rows \<Longrightarrow> sorted_wrt (<) (map ms_seq (rows_after c rows))"
proof -
  assume "rows_keyed rows"
  then have "distinct (map ms_seq (filter (\<lambda>r. c < ms_seq r) rows))"
    by (simp add: rows_keyed_def distinct_map_filter)
  then have "distinct (map ms_seq (rows_after c rows))"
    by (simp add: rows_after_def order_asc_def distinct_map)
  then show ?thesis
    by (simp add: strict_sorted_iff rows_after_def sorted_order_asc)
qed

lemma rows_after_ids: "rows_keyed rows \<Longrightarrow> distinct (map ms_message_id (rows_after c rows))"
  by (simp add: rows_keyed_def rows_after_def order_asc_def distinct_map inj_on_def distinct_filter)

lemma set_rows_after: "set (rows_after c rows) = {r \<in> set rows. c < ms_seq r}"
  by (auto simp: rows_after_def)

text \<open>After a full batch the cursor stands exactly before the rest.\<close>

lemma next_batch:
  fixes c rows
  defines "b \<equiv> take syncBatchSize (rows_after c rows)"
  defines "m \<equiv> fold (\<lambda>r m. max m (ms_seq r)) b c"
  assumes "rows_keyed rows" "length b = syncBatchSize"
  shows "c < m" "rows_after m rows = drop syncBatchSize (rows_after c rows)"
proof -
  let ?xs = "rows_after c rows"
  have k: "0 < syncBatchSize" "syncBatchSize \<le> length ?xs"
    using assms(4) by (auto simp: b_def syncBatchSize_def)
  have ne: "b \<noteq> []" using assms(4) k by auto
  have "sorted_wrt (<) (map ms_seq b)"
    using rows_after_strict [OF assms(3)] by (simp add: b_def sorted_wrt_take flip: take_map)
  moreover have gt: "\<forall>x\<in>set b. c < ms_seq x"
    by (auto simp: b_def set_rows_after dest!: in_set_takeD)
  ultimately have m: "m = ms_seq (last b)"
    unfolding m_def using ne by (intro fold_max_sorted)
  then show "c < m" using gt ne by simp
  have "last b = ?xs ! (syncBatchSize - 1)"
    using ne k by (simp add: b_def last_conv_nth)
  with m filter_above_strict [OF rows_after_strict [OF assms(3)] k] \<open>c < m\<close>
  show "rows_after m rows = drop syncBatchSize ?xs"
    using rows_after_later [of c m rows] by simp
qed

lemma new_rows_drop:
  assumes "distinct (map ms_message_id xs)"
  shows "new_rows (rev (map ms_message_id (new_rows rep (take k xs))) @ rep) (drop k xs) = new_rows rep (drop k xs)"
proof -
  have "ms_message_id ` set (take k xs) \<inter> ms_message_id ` set (drop k xs) = {}"
    using assms by (metis append_take_drop_id distinct_append map_append set_map)
  then show ?thesis unfolding new_rows_def by (intro filter_cong) auto
qed

text \<open>The keys of the whole table give those of every session.\<close>

definition msgs_keyed :: "'b im_scheme \<Rightarrow> bool" where
  "msgs_keyed s \<longleftrightarrow> distinct (map ms_message_id (msgs s))
     \<and> (\<forall>sid. distinct (map ms_seq (filter (\<lambda>r. ms_session_id r = sid) (msgs s))))"

lemma rows_keyed_session: "msgs_keyed s \<Longrightarrow> rows_keyed (session_rows sid s)"
  by (simp add: msgs_keyed_def rows_keyed_def session_rows_def distinct_map_filter)

section \<open>The table replay writes exactly the missing rows\<close>

text \<open>What the connection is sent of the rows: the payloads the check lets pass.\<close>

definition deliveries :: "cfg \<Rightarrow> (string \<Rightarrow> bool) \<Rightarrow> string \<Rightarrow> msg_row list \<Rightarrow> (string \<times> string) list" where
  "deliveries h may conn rows = map (Pair conn) (filter may (map (row_payload h) rows))"

lemma deliveries_simps [simp]:
  "deliveries h may conn [] = []" "deliveries h may conn (xs @ ys) = deliveries h may conn xs @ deliveries h may conn ys"
  "deliveries h may conn (r # rs) = (if may (row_payload h r) then [(conn, row_payload h r)] else []) @ deliveries h may conn rs"
  by (simp_all add: deliveries_def)

text \<open>
  What stays as it is during the replay: the rows of the session, the answers of the check, and, apart from the
  replay's own writes, what the connection has been sent.
\<close>

definition replay_frame :: "(string \<Rightarrow> 'b im_scheme \<Rightarrow> bool) \<Rightarrow> (string \<Rightarrow> bool) \<Rightarrow> string \<Rightarrow> msg_row list \<Rightarrow> string
    \<Rightarrow> (string \<times> string) list \<Rightarrow> 'b im_scheme \<Rightarrow> bool" where
  "replay_frame passes may sid rows conn log s \<longleftrightarrow>
     (\<forall>q. passes q s = may q) \<and> session_rows sid s = rows \<and> sent_on (\<lambda>c. c = conn) s = log"

context replay_check begin

lemma replay_frame_write:
  "replay_frame passes may sid rows conn log s
   \<Longrightarrow> replay_frame passes may sid rows conn (log @ [(conn, q)]) (s\<lparr>ws_out := ws_out s @ [(conn, q)]\<rparr>)"
  by (simp add: replay_frame_def passes_log session_rows_def sent_on_def)

lemma replay_rows_exact:
  assumes env: "reliable env" "\<And>log. relies env (replay_frame passes may sid all conn log)"
    and rows: "\<forall>r\<in>set rows. sendable h r \<and> readable (row_payload h r)" "distinct (map ms_message_id rows)"
    and s: "replay_frame passes may sid all conn log s"
  shows "wp (replay_rows h (Some authorize) env conn rows mx cnt replayed) (\<lambda>res s'.
      res = (Inr (fold (\<lambda>r m. max m (ms_seq r)) rows mx, cnt + length (new_rows replayed rows)),
             rev (map ms_message_id (new_rows replayed rows)) @ replayed)
    \<and> replay_frame passes may sid all conn (log @ deliveries h may conn (new_rows replayed rows)) s') s"
  using rows s
proof (induction rows arbitrary: mx cnt replayed log s)
  case Nil
  then show ?case by (simp add: wp_return new_rows_def)
next
  case (Cons r rows)
  then obtain p c where p: "marshal h (frame_of_row r) = Inr p" and c: "ms_client_msg_id r = Some c"
    by (auto simp: sendable_def)
  have pay: "row_payload h r = p" by (simp add: row_payload_def p)
  have same: "new_rows (ms_message_id r # replayed) rows = new_rows replayed rows"
    unfolding new_rows_def by (rule filter_cong) (use Cons.prems(2) in \<open>auto simp: image_iff\<close>)
  have IH: "replay_frame passes may sid all conn log' s' \<Longrightarrow> wp (replay_rows h (Some authorize) env conn rows mx' cnt' rep) (\<lambda>res s'.
      res = (Inr (fold (\<lambda>r m. max m (ms_seq r)) rows mx', cnt' + length (new_rows rep rows)),
             rev (map ms_message_id (new_rows rep rows)) @ rep)
    \<and> replay_frame passes may sid all conn (log' @ deliveries h may conn (new_rows rep rows)) s') s'" for log' s' mx' cnt' rep
    using Cons.IH Cons.prems(1,2) by simp
  show ?case
  proof (cases "ms_message_id r \<in> set replayed")
    case True
    then show ?thesis using IH [OF Cons.prems(3)] by (simp add: c new_rows_def)
  next
    case False
    have ready: "readable p" using Cons.prems(1) pay by auto
    have may: "passes p s' = may p" if "replay_frame passes may sid all conn log' s'" for log' s'
      using that by (simp add: replay_frame_def)
    have new: "new_rows replayed (r # rows) = r # new_rows replayed rows" using False by (simp add: new_rows_def)
    let ?k = "\<lambda>r'. case r' of Inl e \<Rightarrow> State_Monad.return (Inl e, replayed)
       | Inr _ \<Rightarrow> replay_rows h (Some authorize) env conn rows (max mx (ms_seq r)) (Suc cnt) (ms_message_id r # replayed)"
    have "wp (State_Monad.bind (WriteBinary (Some authorize) env conn p) ?k) (\<lambda>res s'.
        res = (Inr (fold (\<lambda>r m. max m (ms_seq r)) (r # rows) mx, cnt + length (r # new_rows replayed rows)),
               rev (map ms_message_id (r # new_rows replayed rows)) @ replayed)
      \<and> replay_frame passes may sid all conn (log @ deliveries h may conn (r # new_rows replayed rows)) s') s"
    proof (rule wp_bind, rule wp_checked_write [OF env(1) env(2) Cons.prems(3) ready], goal_cases)
      case (1 s')
      then show ?case using IH [OF 1(1), of "max mx (ms_seq r)" "Suc cnt" "ms_message_id r # replayed"] may [OF 1(1)]
        by (simp add: same pay)
    next
      case (2 s1 s')
      then show ?case
        using IH [OF replay_frame_write [OF 2(3), of p], of "max mx (ms_seq r)" "Suc cnt" "ms_message_id r # replayed"] may [OF 2(1)]
        by (simp add: same pay)
    qed
    then show ?thesis using False c by (simp add: p new cong: if_cong split del: if_split)
  qed
qed

lemma sync_mysql_exact:
  assumes env: "reliable env" "\<And>log. relies env (replay_frame passes may sid rows conn log)"
    and keyed: "rows_keyed rows" and s: "replay_frame passes may sid rows conn log s"
    and send: "\<forall>r\<in>set (rows_after c rows). sendable h r \<and> readable (row_payload h r)"
    and fuel: "length (rows_after c rows) div syncBatchSize < fuel"
    and limit: "cnt + length (rows_after c rows) \<le> maxMySQLReplayCount \<or> rows_after c rows = []"
  shows "wp (syncMySQLMessagesAfterSeq fuel h (Some authorize) env conn sid c cnt replayed) (\<lambda>res s'.
      (\<exists>replayed'. res = Some (Inr (), replayed'))
    \<and> replay_frame passes may sid rows conn (log @ deliveries h may conn (new_rows replayed (rows_after c rows))) s') s"
  using s send fuel limit
proof (induction fuel arbitrary: c cnt replayed log s)
  case 0
  then show ?case by simp
next
  case (Suc fuel)
  let ?rows = "rows_after c rows"
  define b where "b = take syncBatchSize ?rows"
  have sb: "0 < syncBatchSize" by (simp add: syncBatchSize_def)
  have send: "\<forall>r\<in>set b. sendable h r \<and> readable (row_payload h r)"
    using Suc.prems(2) by (auto simp: b_def dest: in_set_takeD)
  have dis: "distinct (map ms_message_id b)"
    using rows_after_ids [OF keyed] by (simp add: b_def distinct_take flip: take_map)
  have batch: "session_batch sid c s' = b" if "replay_frame passes may sid rows conn log s'" for s'
    using that by (simp add: session_batch_rows replay_frame_def b_def)
  let ?Q = "\<lambda>res s'. (\<exists>replayed'. res = Some (Inr (), replayed'))
    \<and> replay_frame passes may sid rows conn (log @ deliveries h may conn (new_rows replayed ?rows)) s'"
  define m where "m = fold (\<lambda>r m. max m (ms_seq r)) b c"
  let ?cnt = "cnt + length (new_rows replayed b)" and ?rep = "rev (map ms_message_id (new_rows replayed b)) @ replayed"
  have continue: "wp (if b = [] \<or> m \<le> c \<or> length b < syncBatchSize
            then State_Monad.return (Some (Inr (), ?rep))
            else syncMySQLMessagesAfterSeq fuel h (Some authorize) env conn sid m ?cnt ?rep) ?Q s'"
    if s': "replay_frame passes may sid rows conn (log @ deliveries h may conn (new_rows replayed b)) s'" for s'
  proof (cases "length b < syncBatchSize")
    case True
    then have "b = ?rows" by (simp add: b_def)
    with True s' show ?thesis by (simp add: wp_return)
  next
    case False
    then have full: "length b = syncBatchSize" by (simp add: b_def)
    have cm: "c < m" and rest: "rows_after m rows = drop syncBatchSize ?rows"
      using next_batch [OF keyed full [unfolded b_def]] by (simp_all add: m_def b_def)
    have len: "syncBatchSize \<le> length ?rows" using full by (simp add: b_def)
    have "length (new_rows replayed b) \<le> syncBatchSize" using full length_filter_le [of _ b] by (simp add: new_rows_def)
    then have l: "?cnt + length (rows_after m rows) \<le> maxMySQLReplayCount \<or> rows_after m rows = []"
      using Suc.prems(4) len sb by (auto simp: rest)
    have f: "length (rows_after m rows) div syncBatchSize < fuel"
      using Suc.prems(3) len sb by (simp add: rest le_div_geq)
    have d: "\<forall>r\<in>set (rows_after m rows). sendable h r \<and> readable (row_payload h r)"
      using Suc.prems(2) by (auto simp: rest dest: in_set_dropD)
    have "new_rows ?rep (rows_after m rows) = new_rows replayed (drop syncBatchSize ?rows)"
      using new_rows_drop [OF rows_after_ids [OF keyed]] by (simp add: rest b_def)
    moreover have "new_rows replayed ?rows = new_rows replayed b @ new_rows replayed (drop syncBatchSize ?rows)"
      by (simp add: new_rows_def b_def flip: filter_append)
    moreover have "b \<noteq> []" using full sb by auto
    ultimately show ?thesis
      using Suc.IH [OF s' d f l, of ?rep] cm full by simp
  qed
  show ?case
  proof (cases "cnt < maxMySQLReplayCount")
    case False
    then have "?rows = []" using Suc.prems(4) by (cases ?rows) auto
    with False Suc.prems(1) show ?thesis by (simp add: new_rows_def wp_return)
  next
    case go: True
    show ?thesis
      unfolding syncMySQLMessagesAfterSeq.simps if_not_P [OF not_not [THEN iffD2, OF go]]
    proof (rule wp_bind, rule wp_query_up [OF env(1) env(2) Suc.prems(1)], unfold sum.case, goal_cases)
      case (1 s')
      show ?case
        unfolding batch [OF 1]
        by (rule wp_bindI [OF replay_rows_exact [OF env send dis 1]]) (use continue [unfolded m_def] in simp)
    qed
  qed
qed

end
text \<open>What a run unfolds.\<close>

lemmas sync_run [exec_defs] =
  write_ws_def WriteBinary_def syncPendingMessages_def syncBatchSize_def maxMySQLReplayCount_def
  syncSessionMessagesAfterSeq_def session_batch_def SyncSessionMessagesAfterSeqWithDB_def
  SyncOfflineMessagesWithDB_def

end
