(* ===== verification/Push_Pool.thy ===== *)
theory Push_Pool
  imports Schema "HOL-Library.Word"
begin

unbundle bit_operations_syntax

text \<open>
  The push worker pool of the gateway (internal/server/pool.go): a fixed number of shards, each a bounded
  channel with one worker, and a user hashed to one shard, so that the messages of a user are handed to the
  logic service in the order they came in.  The pool is a state machine whose steps are the calls of
  \<open>SubmitWithResult\<close> and \<open>Close\<close> and what the workers do; two logs record what was accepted and
  what was completed.
\<close>

section \<open>Sharding\<close>

text \<open>\<open>hash/fnv\<close>: the 32-bit FNV-1a hash.\<close>

definition fnv_step :: "32 word \<Rightarrow> char \<Rightarrow> 32 word" where
  "fnv_step h ch = (h XOR of_nat (of_char ch)) * 16777619"

definition fnv32a :: "string \<Rightarrow> 32 word" where
  "fnv32a s = fold (\<lambda>ch h. fnv_step h ch) s 2166136261"

definition pushShardIndex :: "string \<Rightarrow> nat \<Rightarrow> nat" where
  "pushShardIndex uid shardCount = (if shardCount \<le> 1 then 0 else unat (fnv32a uid mod of_nat shardCount))"

lemma pushShardIndex_less:
  assumes "0 < n" "n < 2 ^ 32"
  shows "pushShardIndex uid n < n"
proof (cases "n \<le> 1")
  case False
  have "unat (of_nat n :: 32 word) = n" using assms(2) by (simp add: unat_of_nat take_bit_nat_eq_self)
  then show ?thesis using False assms(1) by (simp add: pushShardIndex_def unat_mod)
qed (use assms in \<open>simp add: pushShardIndex_def\<close>)

section \<open>The pool\<close>

datatype SubmitResult = SubmitAccepted | SubmitQueueFull | SubmitPoolClosed | SubmitContextCanceled

text \<open>A task; \<open>pk_ID\<close> tells calls with the same arguments apart.\<close>

record pushTask =
  pk_ID :: nat
  pk_UID :: string
  pk_Data :: string
  pk_Frame :: "wire option"
  pk_GatewayID :: string
  pk_HasLogic :: bool

text \<open>A worker waits for a task, has one in its handler, or has left its loop.\<close>

datatype worker = Idle | Busy pushTask | Exited

record pool =
  shards :: "pushTask list list"
  workers :: "worker list"
  queueSize :: nat
  closed :: bool
  accepted :: "pushTask list"
  completed :: "(pushTask \<times> gerr option) list"

definition newPushWorkerPool :: "int \<Rightarrow> int \<Rightarrow> pool" where
  "newPushWorkerPool shardCount queueSizePerShard =
     (let n = (if shardCount \<le> 0 then 1 else nat shardCount);
          q = (if queueSizePerShard \<le> 0 then 1 else nat queueSizePerShard)
      in \<lparr>shards = replicate n [], workers = replicate n Idle, queueSize = q, closed = False, accepted = [], completed = []\<rparr>)"

definition ErrCanceled :: gerr where "ErrCanceled = Msg ''context canceled''"

text \<open>
  The context may be cancelled before the call (\<open>before\<close>) or when the \<open>select\<close> looks at it (\<open>during\<close>); when it can
  both send and see the cancellation, Go picks one (\<open>pick\<close>).
\<close>

definition SubmitWithResult :: "bool \<Rightarrow> bool \<Rightarrow> bool \<Rightarrow> pushTask \<Rightarrow> pool \<Rightarrow> SubmitResult \<times> pool" where
  "SubmitWithResult before during pick task p =
     (if before then (SubmitContextCanceled, p)
      else if closed p then (SubmitPoolClosed, p)
      else let shard = pushShardIndex (pk_UID task) (length (shards p)); queue = shards p ! shard in
        if length queue < queueSize p \<and> (\<not> during \<or> pick) then
          (SubmitAccepted, p\<lparr>shards := (shards p)[shard := queue @ [task]], accepted := accepted p @ [task]\<rparr>)
        else if during then (SubmitContextCanceled, p)
        else (SubmitQueueFull, p))"

definition close_pool :: "pool \<Rightarrow> pool" where
  "close_pool p = p\<lparr>closed := True\<rparr>"

text \<open>\<open>processPushTask\<close>, given what the logic service would answer.\<close>

definition processPushTask :: "gerr option \<Rightarrow> pushTask \<Rightarrow> gerr option" where
  "processPushTask reply task = (if \<not> pk_HasLogic task then Some (Msg ''logic client is required'') else reply)"

section \<open>The workers\<close>

text \<open>
  \<open>runShard\<close>: take the oldest task of the channel; complete it at once if its context is done, otherwise hand it to the
  handler and complete it with what the handler answers; leave the loop when the channel is closed and
  drained.
\<close>

definition take_task :: "nat \<Rightarrow> pool \<Rightarrow> pool" where
  "take_task i p = p\<lparr>shards := (shards p)[i := tl (shards p ! i)], workers := (workers p)[i := Busy (hd (shards p ! i))]\<rparr>"

definition drop_task :: "nat \<Rightarrow> pool \<Rightarrow> pool" where
  "drop_task i p = p\<lparr>shards := (shards p)[i := tl (shards p ! i)],
     completed := completed p @ [(hd (shards p ! i), Some ErrCanceled)]\<rparr>"

definition finish_task :: "nat \<Rightarrow> pushTask \<Rightarrow> gerr option \<Rightarrow> pool \<Rightarrow> pool" where
  "finish_task i task reply p = p\<lparr>workers := (workers p)[i := Idle],
     completed := completed p @ [(task, processPushTask reply task)]\<rparr>"

definition leave_loop :: "nat \<Rightarrow> pool \<Rightarrow> pool" where
  "leave_loop i p = p\<lparr>workers := (workers p)[i := Exited]\<rparr>"

inductive worker_step :: "pool \<Rightarrow> pool \<Rightarrow> bool" where
  started: "i < length (shards p) \<Longrightarrow> workers p ! i = Idle \<Longrightarrow> shards p ! i \<noteq> [] \<Longrightarrow> worker_step p (take_task i p)"
| dropped: "i < length (shards p) \<Longrightarrow> workers p ! i = Idle \<Longrightarrow> shards p ! i \<noteq> [] \<Longrightarrow> worker_step p (drop_task i p)"
| finished: "i < length (shards p) \<Longrightarrow> workers p ! i = Busy task \<Longrightarrow> worker_step p (finish_task i task reply p)"
| left: "i < length (shards p) \<Longrightarrow> workers p ! i = Idle \<Longrightarrow> shards p ! i = [] \<Longrightarrow> closed p \<Longrightarrow> worker_step p (leave_loop i p)"

inductive pool_step :: "pool \<Rightarrow> pool \<Rightarrow> bool" where
  submitted: "pool_step p (snd (SubmitWithResult before during pick task p))"
| closing: "pool_step p (close_pool p)"
| worked: "worker_step p p' \<Longrightarrow> pool_step p p'"

inductive_cases worker_stepE: "worker_step p p'"
inductive_cases pool_stepE: "pool_step p p'"

text \<open>The pools that \<open>newPushWorkerPool\<close> with these sizes can become.\<close>

inductive reachable :: "int \<Rightarrow> int \<Rightarrow> pool \<Rightarrow> bool" for n q where
  fresh: "reachable n q (newPushWorkerPool n q)"
| further: "reachable n q p \<Longrightarrow> pool_step p p' \<Longrightarrow> reachable n q p'"

definition drained :: "pool \<Rightarrow> bool" where
  "drained p \<longleftrightarrow> list_all (\<lambda>w. w = Exited) (workers p)"


section \<open>The invariant\<close>

definition shard_of :: "pool \<Rightarrow> pushTask \<Rightarrow> nat" where
  "shard_of p task = pushShardIndex (pk_UID task) (length (shards p))"

text \<open>What shard \<open>i\<close> has taken on and not completed: the task in the handler, then the channel.\<close>

definition in_flight :: "nat \<Rightarrow> pool \<Rightarrow> pushTask list" where
  "in_flight i p = (case workers p ! i of Busy task \<Rightarrow> [task] | _ \<Rightarrow> []) @ shards p ! i"

definition done_tasks :: "pool \<Rightarrow> pushTask list" where
  "done_tasks p = map fst (completed p)"

definition pool_sized :: "pool \<Rightarrow> bool" where
  "pool_sized p \<longleftrightarrow> 0 < length (shards p) \<and> length (shards p) < 2 ^ 32 \<and> length (workers p) = length (shards p)
     \<and> 0 < queueSize p \<and> (\<forall>i<length (shards p). length (shards p ! i) \<le> queueSize p)"

definition pool_ordered :: "pool \<Rightarrow> bool" where
  "pool_ordered p \<longleftrightarrow> (\<forall>i<length (shards p).
     filter (\<lambda>t. shard_of p t = i) (accepted p) = filter (\<lambda>t. shard_of p t = i) (done_tasks p) @ in_flight i p)"

definition exits_late :: "pool \<Rightarrow> bool" where
  "exits_late p \<longleftrightarrow> (\<forall>i<length (shards p). workers p ! i = Exited \<longrightarrow> closed p \<and> shards p ! i = [])"

definition pool_inv :: "pool \<Rightarrow> bool" where
  "pool_inv p \<longleftrightarrow> pool_sized p \<and> pool_ordered p \<and> exits_late p"

lemma shard_of_less: "pool_sized p \<Longrightarrow> shard_of p t < length (shards p)"
  by (simp add: pool_sized_def shard_of_def pushShardIndex_less)

lemma shard_of_in_flight:
  assumes "pool_ordered p" "i < length (shards p)" "t \<in> set (in_flight i p)"
  shows "shard_of p t = i"
proof -
  have "t \<in> set (filter (\<lambda>t. shard_of p t = i) (accepted p))" using assms by (simp add: pool_ordered_def)
  then show ?thesis by simp
qed

lemma fresh_inv: "nat n < 2 ^ 32 \<Longrightarrow> pool_inv (newPushWorkerPool n q)"
  by (auto simp: newPushWorkerPool_def Let_def pool_inv_def pool_sized_def pool_ordered_def exits_late_def in_flight_def
      done_tasks_def)

lemma submit_inv: "pool_inv p \<Longrightarrow> pool_inv (snd (SubmitWithResult b d k t p))"
  using shard_of_less [of p t]
  by (auto simp: SubmitWithResult_def Let_def pool_inv_def pool_sized_def pool_ordered_def exits_late_def in_flight_def
      done_tasks_def shard_of_def nth_list_update)

lemma take_inv:
  assumes "pool_inv p" "i < length (shards p)" "workers p ! i = Idle" "shards p ! i \<noteq> []"
  shows "pool_inv (take_task i p)"
  using assms
  by (auto simp: take_task_def pool_inv_def pool_sized_def pool_ordered_def exits_late_def in_flight_def
      done_tasks_def shard_of_def nth_list_update)

lemma drop_inv:
  assumes "pool_inv p" "i < length (shards p)" "workers p ! i = Idle" "shards p ! i \<noteq> []"
  shows "pool_inv (drop_task i p)"
proof -
  have "shard_of p (hd (shards p ! i)) = i"
    using assms by (intro shard_of_in_flight) (auto simp: pool_inv_def in_flight_def)
  then show ?thesis
    using assms
    by (auto simp: drop_task_def pool_inv_def pool_sized_def pool_ordered_def exits_late_def in_flight_def
        done_tasks_def shard_of_def nth_list_update)
qed

lemma finish_inv:
  assumes "pool_inv p" "i < length (shards p)" "workers p ! i = Busy t"
  shows "pool_inv (finish_task i t r p)"
proof -
  have "shard_of p t = i"
    using assms by (intro shard_of_in_flight) (auto simp: pool_inv_def in_flight_def)
  then show ?thesis
    using assms
    by (auto simp: finish_task_def pool_inv_def pool_sized_def pool_ordered_def exits_late_def in_flight_def
        done_tasks_def shard_of_def nth_list_update)
qed

lemma leave_inv:
  assumes "pool_inv p" "i < length (shards p)" "workers p ! i = Idle" "shards p ! i = []" "closed p"
  shows "pool_inv (leave_loop i p)"
  using assms
  by (auto simp: leave_loop_def pool_inv_def pool_sized_def pool_ordered_def exits_late_def in_flight_def
      done_tasks_def shard_of_def nth_list_update)

lemma close_inv: "pool_inv p \<Longrightarrow> pool_inv (close_pool p)"
  by (auto simp: close_pool_def pool_inv_def pool_sized_def pool_ordered_def exits_late_def in_flight_def
      done_tasks_def shard_of_def)

lemma worker_step_inv: "worker_step p p' \<Longrightarrow> pool_inv p \<Longrightarrow> pool_inv p'"
  by (induction rule: worker_step.induct) (simp_all add: take_inv drop_inv finish_inv leave_inv)

lemma pool_step_inv: "pool_step p p' \<Longrightarrow> pool_inv p \<Longrightarrow> pool_inv p'"
  by (induction rule: pool_step.induct) (simp_all add: submit_inv close_inv worker_step_inv)

lemma reachable_inv: "reachable n q p \<Longrightarrow> nat n < 2 ^ 32 \<Longrightarrow> pool_inv p"
  by (induction rule: reachable.induct) (auto intro: fresh_inv pool_step_inv)

text \<open>All tasks of a user are in one shard.\<close>

lemma user_order:
  assumes "pool_inv p" "i = pushShardIndex u (length (shards p))"
  shows "filter (\<lambda>t. pk_UID t = u) (accepted p) = filter (\<lambda>t. pk_UID t = u) (done_tasks p @ in_flight i p)"
proof -
  have i: "i < length (shards p)"
    using assms by (simp add: pool_inv_def pool_sized_def pushShardIndex_less)
  have sub: "filter (\<lambda>t. pk_UID t = u) ts = filter (\<lambda>t. pk_UID t = u) (filter (\<lambda>t. shard_of p t = i) ts)" for ts
    by (auto simp: shard_of_def assms(2) intro: filter_cong)
  have "filter (\<lambda>t. pk_UID t = u) (accepted p)
      = filter (\<lambda>t. pk_UID t = u) (filter (\<lambda>t. shard_of p t = i) (done_tasks p) @ in_flight i p)"
    using assms(1) i by (subst sub) (simp add: pool_inv_def pool_ordered_def)
  then show ?thesis using sub [of "done_tasks p"] by simp
qed

section \<open>Closing\<close>

text \<open>Every step of a worker uses up some of this amount.\<close>

definition worker_work :: "worker \<Rightarrow> nat" where
  "worker_work w = (case w of Exited \<Rightarrow> 0 | Idle \<Rightarrow> 1 | Busy _ \<Rightarrow> 2)"

definition work :: "pool \<Rightarrow> nat" where
  "work p = sum_list (map (\<lambda>q. 2 * length q) (shards p)) + sum_list (map worker_work (workers p))"

lemma sum_list_upd_nth:
  fixes f :: "'a \<Rightarrow> nat"
  assumes "i < length xs"
  shows "sum_list (map f (xs[i := y])) + f (xs ! i) = sum_list (map f xs) + f y"
  using assms
proof (induction xs arbitrary: i)
  case (Cons x xs)
  then show ?case by (cases i) (simp_all add: add.commute add.left_commute)
qed simp

lemma worker_step_work:
  assumes "worker_step p p'" "length (workers p) = length (shards p)"
  shows "work p' < work p \<and> length (workers p') = length (shards p')"
  using assms
proof (induction rule: worker_step.induct)
  case (started i p)
  then show ?case
    using sum_list_upd_nth [of i "shards p" "\<lambda>q. 2 * length q" "tl (shards p ! i)"]
      sum_list_upd_nth [of i "workers p" worker_work "Busy (hd (shards p ! i))"]
    by (cases "shards p ! i") (auto simp: work_def take_task_def worker_work_def)
next
  case (dropped i p)
  then show ?case
    using sum_list_upd_nth [of i "shards p" "\<lambda>q. 2 * length q" "tl (shards p ! i)"]
    by (cases "shards p ! i") (auto simp: work_def drop_task_def)
next
  case (finished i p task reply)
  then show ?case
    using sum_list_upd_nth [of i "workers p" worker_work Idle]
    by (auto simp: work_def finish_task_def worker_work_def)
next
  case (left i p)
  then show ?case
    using sum_list_upd_nth [of i "workers p" worker_work Exited]
    by (auto simp: work_def leave_loop_def worker_work_def)
qed

text \<open>A closed pool that is not drained has a worker that can move.\<close>

lemma closed_progress:
  assumes "length (workers p) = length (shards p)" "closed p" "\<not> drained p"
  shows "\<exists>p'. worker_step p p'"
proof -
  from assms(3) obtain i where i: "i < length (workers p)" "workers p ! i \<noteq> Exited"
    by (auto simp: drained_def list_all_iff in_set_conv_nth)
  show ?thesis
  proof (cases "workers p ! i")
    case Idle
    with i assms show ?thesis by (cases "shards p ! i = []") (auto intro: worker_step.intros)
  next
    case (Busy t)
    with i assms show ?thesis by (auto intro: worker_step.finished)
  qed (use i in simp)
qed

lemma drained_done:
  assumes "pool_inv p" "drained p"
  shows "filter (\<lambda>t. pk_UID t = u) (done_tasks p) = filter (\<lambda>t. pk_UID t = u) (accepted p)"
proof -
  let ?i = "pushShardIndex u (length (shards p))"
  have i: "?i < length (shards p)"
    using assms(1) by (simp add: pool_inv_def pool_sized_def pushShardIndex_less)
  then have "workers p ! ?i = Exited"
    using assms by (auto simp: drained_def list_all_iff pool_inv_def pool_sized_def)
  then have "in_flight ?i p = []"
    using i assms(1) by (simp add: in_flight_def pool_inv_def exits_late_def)
  then show ?thesis using user_order [OF assms(1) refl, of u] by simp
qed

section \<open>Properties\<close>

text \<open>C20. The messages of a user are handled in order, none lost and none twice: at every moment the tasks of a user the pool has
  accepted are, in the order of acceptance, those completed, then the one in the handler, then those queued; the queued ones
  are in one shard and no shard holds more than its capacity.\<close>

theorem user_tasks_in_order:
  assumes "reachable n q p" "nat n < 2 ^ 32"
  shows "filter (\<lambda>t. pk_UID t = u) (accepted p)
       = filter (\<lambda>t. pk_UID t = u) (map fst (completed p) @ in_flight (pushShardIndex u (length (shards p))) p)
     \<and> (\<forall>queue\<in>set (shards p). length queue \<le> queueSize p)"
  using user_order [OF reachable_inv [OF assms] refl, of u] reachable_inv [OF assms]
  by (auto simp: done_tasks_def pool_inv_def pool_sized_def in_set_conv_nth)

definition demo_push :: "nat \<Rightarrow> pushTask" where
  "demo_push k = \<lparr>pk_ID = k, pk_UID = ''al'', pk_Data = ''hi'', pk_Frame = None, pk_GatewayID = ''gw1'', pk_HasLogic = True\<rparr>"

text \<open>Two shards of one place each: a second message waits while the first is handled, a third is refused.\<close>

definition demo_pool :: pool where
  "demo_pool = (let i = pushShardIndex ''al'' 2 in
     snd (SubmitWithResult False False False (demo_push 3)
       (snd (SubmitWithResult False False False (demo_push 2)
         (take_task i (snd (SubmitWithResult False False False (demo_push 1) (newPushWorkerPool 2 1))))))))"

lemma demo_index: "pushShardIndex ''al'' 2 = 0"
  by code_simp

lemma demo_pool_eq: "demo_pool = \<lparr>shards = [[demo_push 2], []], workers = [Busy (demo_push 1), Idle], queueSize = 1,
    closed = False, accepted = [demo_push 1, demo_push 2], completed = []\<rparr>"
  by (simp add: demo_pool_def demo_index SubmitWithResult_def newPushWorkerPool_def take_task_def Let_def demo_push_def
      numeral_2_eq_2 [symmetric]) (simp_all add: numeral_2_eq_2)

lemma demo_pool_reachable: "reachable 2 1 demo_pool"
proof -
  let ?p = "snd (SubmitWithResult False False False (demo_push 1) (newPushWorkerPool 2 1))"
  have p: "?p = \<lparr>shards = [[demo_push 1], []], workers = [Idle, Idle], queueSize = 1, closed = False,
      accepted = [demo_push 1], completed = []\<rparr>"
    by (simp add: SubmitWithResult_def newPushWorkerPool_def Let_def demo_push_def demo_index numeral_2_eq_2 [symmetric])
       (simp add: numeral_2_eq_2)
  have "worker_step ?p (take_task 0 ?p)"
    unfolding p by (rule worker_step.started) simp_all
  then have "reachable 2 1 (take_task 0 ?p)"
    by (rule reachable.further [OF reachable.further [OF reachable.fresh pool_step.submitted] pool_step.worked])
  from reachable.further [OF reachable.further [OF this pool_step.submitted] pool_step.submitted]
  show ?thesis unfolding demo_pool_def Let_def demo_index .
qed

theorem user_tasks_in_order_witness:
  "filter (\<lambda>t. pk_UID t = ''al'') (accepted demo_pool)
     = filter (\<lambda>t. pk_UID t = ''al'') (map fst (completed demo_pool) @ in_flight (pushShardIndex ''al'' 2) demo_pool)"
proof -
  have "length (shards demo_pool) = 2" by (simp add: demo_pool_eq)
  with user_tasks_in_order [OF demo_pool_reachable, of "''al''"] show ?thesis by simp
qed

text \<open>C21. Closing drains the pool: once the pool is closed, its workers make at most as many steps as their queues and handlers
  give them work, and they can only stop when every worker has left its loop, with every accepted task of every user
  completed, in order.\<close>

theorem close_drains_the_pool:
  assumes "reachable n q p" "nat n < 2 ^ 32" "closed p" "(worker_step ^^ k) p p'"
  shows "k \<le> work p \<and> ((\<nexists>p''. worker_step p' p'') \<longrightarrow>
     drained p' \<and> (\<forall>u. filter (\<lambda>t. pk_UID t = u) (map fst (completed p')) = filter (\<lambda>t. pk_UID t = u) (accepted p')))"
proof -
  have run: "work p' + k \<le> work p \<and> closed p' \<and> pool_inv p'"
    using assms(4)
  proof (induction k arbitrary: p')
    case 0
    then show ?case using reachable_inv [OF assms(1,2)] assms(3) by simp
  next
    case (Suc k)
    then obtain p1 where p1: "(worker_step ^^ k) p p1" "worker_step p1 p'" by auto
    with Suc.IH have "work p1 + k \<le> work p \<and> closed p1 \<and> pool_inv p1" by blast
    moreover have "closed p1 \<Longrightarrow> closed p'"
      using p1(2) by (auto elim!: worker_stepE simp: take_task_def drop_task_def finish_task_def leave_loop_def)
    ultimately show ?case
      using worker_step_work [OF p1(2)] worker_step_inv [OF p1(2)] by (auto simp: pool_inv_def pool_sized_def)
  qed
  then have "drained p'" if "\<nexists>p''. worker_step p' p''"
    using closed_progress [of p'] that by (auto simp: pool_inv_def pool_sized_def)
  with run drained_done [of p'] show ?thesis by (auto simp: done_tasks_def)
qed

definition demo_drained :: pool where
  "demo_drained = leave_loop 1 (leave_loop 0 (drop_task 0 (finish_task 0 (demo_push 1) None (close_pool demo_pool))))"

lemma demo_drained_run: "(worker_step ^^ 4) (close_pool demo_pool) demo_drained"
proof -
  let ?p = "close_pool demo_pool"
  have "worker_step ?p (finish_task 0 (demo_push 1) None ?p)" (is "worker_step _ ?q")
    by (rule worker_step.finished) (simp_all add: close_pool_def demo_pool_eq)
  moreover have "worker_step ?q (drop_task 0 ?q)" (is "worker_step _ ?r")
    by (rule worker_step.dropped) (simp_all add: close_pool_def demo_pool_eq finish_task_def)
  moreover have "worker_step ?r (leave_loop 0 ?r)" (is "worker_step _ ?s")
    by (rule worker_step.left) (simp_all add: close_pool_def demo_pool_eq finish_task_def drop_task_def)
  moreover have "worker_step ?s (leave_loop 1 ?s)"
    by (rule worker_step.left) (simp_all add: close_pool_def demo_pool_eq finish_task_def drop_task_def leave_loop_def)
  ultimately show ?thesis unfolding demo_drained_def by (auto simp: numeral_eq_Suc)
qed

theorem close_drains_the_pool_witness:
  "drained demo_drained \<and> filter (\<lambda>t. pk_UID t = ''al'') (map fst (completed demo_drained)) = [demo_push 1, demo_push 2]"
proof -
  have stuck: "\<nexists>p. worker_step demo_drained p"
    by (auto elim!: worker_stepE simp: demo_drained_def leave_loop_def drop_task_def finish_task_def close_pool_def demo_pool_eq
        less_Suc_eq)
  have "reachable 2 1 (close_pool demo_pool)" by (intro reachable.intros(2) [OF demo_pool_reachable] pool_step.intros)
  from close_drains_the_pool [OF this _ _ demo_drained_run] stuck show ?thesis
    by (auto simp: close_pool_def demo_drained_def leave_loop_def drop_task_def finish_task_def demo_pool_eq demo_push_def)
qed

end
