(* ===== verification/Gateway_Socket.thy ===== *)
theory Gateway_Socket
  imports Sync Push_Pool
begin

text \<open>
  The websocket side of the gateway: the handshake (cmd/gateway/internal/handler/websockethandler.go), the read loop
  of a connection with its answers (internal/server/client.go and client_error.go), the table of connections and
  the pushes that arrive over pub/sub (internal/server/manager.go), and the repetition of pushes that are
  not acknowledged (internal/server/retry.go).  A connection is named by its random id; its payload check is
  that of the user it belongs to.  A write to a closed connection is one of the failures the environment
  chooses.
\<close>

section \<open>State\<close>

record gws = im +
  UserConns :: "string \<Rightarrow> string option"
  closed_conns :: "string list"
  pushPool :: pool

text \<open>A step of the process itself: other goroutines may run before it, but it cannot fail.\<close>

definition atomically :: "'w env \<Rightarrow> ('w \<Rightarrow> 'a \<times> 'w) \<Rightarrow> ('w, 'a) io" where
  "atomically env f = State (\<lambda>(n, w). case f (interfere env n w) of (a, w2) \<Rightarrow> (a, (Suc n, w2)))"

section \<open>The table of connections\<close>

definition close_conn :: "('b gws_scheme) env \<Rightarrow> string \<Rightarrow> ('b gws_scheme, unit) io" where
  "close_conn env conn = atomically env (\<lambda>s. ((), s\<lparr>closed_conns := List.insert conn (closed_conns s)\<rparr>))"

definition ManagerAdd :: "('b gws_scheme) env \<Rightarrow> string \<Rightarrow> string \<Rightarrow> ('b gws_scheme, unit) io" where
  "ManagerAdd env uid conn =
     State_Monad.bind (atomically env (\<lambda>s. (UserConns s uid, s\<lparr>UserConns := (UserConns s)(uid := Some conn)\<rparr>))) (\<lambda>previous.
       case previous of Some stale \<Rightarrow> if stale \<noteq> conn then close_conn env stale else State_Monad.return ()
       | None \<Rightarrow> State_Monad.return ())"

definition ManagerRemove :: "('b gws_scheme) env \<Rightarrow> string \<Rightarrow> string \<Rightarrow> ('b gws_scheme, unit) io" where
  "ManagerRemove env uid conn = atomically env (\<lambda>s. ((),
     if UserConns s uid = Some conn then s\<lparr>UserConns := (UserConns s)(uid := None)\<rparr> else s))"

definition GetConn :: "('b gws_scheme) env \<Rightarrow> string \<Rightarrow> ('b gws_scheme, string option) io" where
  "GetConn env uid = atomically env (\<lambda>s. (UserConns s uid, s))"

section \<open>The payload check\<close>

text \<open>The number of rows of the join of the user's active memberships with the active groups.\<close>

definition active_memberships :: "string \<Rightarrow> string \<Rightarrow> ('b im_scheme) \<Rightarrow> nat" where
  "active_memberships g uid s = length (concat (map (\<lambda>m. filter (\<lambda>r. gr_id r = gm_group m \<and> gr_status r = ''active'') (group_rows s))
     (filter (\<lambda>m. gm_group m = g \<and> gm_user m = uid \<and> gm_status m = ''active'') (member_rows s))))"

definition AuthorizePayload :: "cfg \<Rightarrow> ('b im_scheme) env \<Rightarrow> string \<Rightarrow> string \<Rightarrow> ('b im_scheme, gerr + bool) io" where
  "AuthorizePayload h env uid payload = (case unmarshal h payload of
       Inl e \<Rightarrow> err e
     | Inr frame \<Rightarrow> if ToType frame \<noteq> ''group'' then ok True
         else then_ok (query env (active_memberships (To frame) uid)) (\<lambda>n. ok (n = 1)))"

abbreviation write_conn :: "cfg \<Rightarrow> ('b gws_scheme) env \<Rightarrow> string \<Rightarrow> string \<Rightarrow> string \<Rightarrow> ('b gws_scheme, gerr + unit) io" where
  "write_conn h env uid conn payload \<equiv> WriteBinary (Some (AuthorizePayload h env uid)) env conn payload"

section \<open>Pushes over pub/sub\<close>

definition notice_text :: string where
  "notice_text = ''{'' @ [CHR 0x22] @ ''type'' @ [CHR 0x22] @ '':'' @ [CHR 0x22] @ ''community_notice'' @ [CHR 0x22] @ ''}'' @ [CHR 0x0A]"

definition drop_conn :: "('b gws_scheme) env \<Rightarrow> string \<Rightarrow> string \<Rightarrow> ('b gws_scheme, unit) io" where
  "drop_conn env uid conn = ignore (close_conn env conn) (ManagerRemove env uid conn)"

definition clear_named_route :: "('b gws_scheme) env \<Rightarrow> push_envelope \<Rightarrow> ('b gws_scheme, unit) io" where
  "clear_named_route env e =
     (if pe_RouteValue e \<noteq> [] then ignore (ClearRouteIfMatch env (pe_TargetID e) (pe_RouteValue e)) (State_Monad.return ())
      else State_Monad.return ())"

definition on_push :: "cfg \<Rightarrow> ('b gws_scheme) env \<Rightarrow> string \<Rightarrow> push_envelope \<Rightarrow> ('b gws_scheme, unit) io" where
  "on_push h env gatewayID e =
     (if pe_Kind e = ''community_notice'' then
        State_Monad.bind (GetConn env (pe_TargetID e)) (\<lambda>found. case found of
          Some conn \<Rightarrow> if RouteMatchesConnection (pe_RouteValue e) gatewayID conn
            then ignore (write_ws env conn notice_text) (State_Monad.return ()) else State_Monad.return ()
        | None \<Rightarrow> State_Monad.return ())
      else State_Monad.bind (GetConn env (pe_TargetID e)) (\<lambda>found. case found of
        None \<Rightarrow> ignore (MarkOffline env (pe_TargetID e) (pe_MessageID e) (pe_SentAt e)) (clear_named_route env e)
      | Some conn \<Rightarrow>
          if pe_RouteValue e \<noteq> [] \<and> \<not> RouteMatchesConnection (pe_RouteValue e) gatewayID conn
          then ignore (MarkOffline env (pe_TargetID e) (pe_MessageID e) (pe_SentAt e)) (drop_conn env (pe_TargetID e) conn)
          else (case base64_decode (pe_PayloadB64 e) of
            None \<Rightarrow> State_Monad.return ()
          | Some payload \<Rightarrow> State_Monad.bind (write_conn h env (pe_TargetID e) conn payload) (\<lambda>r. case r of
              Inl _ \<Rightarrow> ignore (MarkOffline env (pe_TargetID e) (pe_MessageID e) (pe_SentAt e))
                (ignore (clear_named_route env e) (drop_conn env (pe_TargetID e) conn))
            | Inr _ \<Rightarrow> State_Monad.return ()))))"

text \<open>The loop over the channel; a payload that is no envelope is skipped.\<close>

fun SubscribeRedis :: "cfg \<Rightarrow> ('b gws_scheme) env \<Rightarrow> string \<Rightarrow> push_envelope option list \<Rightarrow> ('b gws_scheme, unit) io" where
  "SubscribeRedis h env gatewayID [] = State_Monad.return ()"
| "SubscribeRedis h env gatewayID (None # rest) = SubscribeRedis h env gatewayID rest"
| "SubscribeRedis h env gatewayID (Some e # rest) = ignore (on_push h env gatewayID e) (SubscribeRedis h env gatewayID rest)"

section \<open>Repeating what is not acknowledged\<close>

definition retryOnePending :: "cfg \<Rightarrow> ('b gws_scheme) env \<Rightarrow> string \<Rightarrow> string \<Rightarrow> string \<Rightarrow> string \<Rightarrow> int \<Rightarrow> ('b gws_scheme, unit) io" where
  "retryOnePending h env uid routeValue conn messageID maxRetries =
     State_Monad.bind (exec env (on_rds_res (r_hincrby (AckRetryKey uid) messageID 1))) (\<lambda>res. case res of
       Inl _ \<Rightarrow> State_Monad.return ()
     | Inr attempts \<Rightarrow>
         if attempts > maxRetries then
           State_Monad.bind (clock env) (\<lambda>t1. ignore (MarkOffline env uid messageID t1)
             (State_Monad.bind (clock env) (\<lambda>t2.
               ignore (update_w env (on_rds (r_zadd (PendingAckKey uid) (t2 + 60000) messageID))) (State_Monad.return ()))))
         else State_Monad.bind (query env (\<lambda>s. hashes (rds s) (AckIndexKey uid) messageID)) (\<lambda>found.
           case (case found of Inr (Some (Txt encoded)) \<Rightarrow> base64_decode encoded | _ \<Rightarrow> None) of
             None \<Rightarrow> State_Monad.return ()
           | Some payload \<Rightarrow> State_Monad.bind (write_conn h env uid conn payload) (\<lambda>r. case r of
               Inl _ \<Rightarrow> State_Monad.bind (clock env) (\<lambda>t. ignore (MarkOffline env uid messageID t)
                  (ignore (ClearRouteIfMatch env uid routeValue) (drop_conn env uid conn)))
             | Inr _ \<Rightarrow> State_Monad.bind (clock env) (\<lambda>t.
                 ignore (update_w env (on_rds (r_zadd (PendingAckKey uid) t messageID))) (State_Monad.return ())))))"

fun retry_messages :: "cfg \<Rightarrow> ('b gws_scheme) env \<Rightarrow> string \<Rightarrow> string \<Rightarrow> string \<Rightarrow> int \<Rightarrow> string list \<Rightarrow> ('b gws_scheme, unit) io" where
  "retry_messages h env uid routeValue conn maxRetries [] = State_Monad.return ()"
| "retry_messages h env uid routeValue conn maxRetries (m # ms) =
     ignore (retryOnePending h env uid routeValue conn m maxRetries) (retry_messages h env uid routeValue conn maxRetries ms)"

definition leave_gateway :: "('b gws_scheme) env \<Rightarrow> string \<Rightarrow> string \<Rightarrow> ('b gws_scheme, unit) io" where
  "leave_gateway env gatewayID uid =
     ignore (update_w env (on_rds (r_srem (GatewayUsersKey gatewayID) uid))) (State_Monad.return ())"

definition retry_user :: "cfg \<Rightarrow> ('b gws_scheme) env \<Rightarrow> string \<Rightarrow> int \<Rightarrow> int \<Rightarrow> string \<Rightarrow> ('b gws_scheme, unit) io" where
  "retry_user h env gatewayID deadline maxRetries uid =
     State_Monad.bind (query env (\<lambda>s. strs (rds s) (RouteKey uid))) (\<lambda>res. case res of
       Inr (Some (Txt routeValue)) \<Rightarrow>
         if ParseGatewayID routeValue \<noteq> gatewayID then leave_gateway env gatewayID uid
         else State_Monad.bind (GetConn env uid) (\<lambda>found. case found of
           None \<Rightarrow> State_Monad.return ()
         | Some conn \<Rightarrow> State_Monad.bind (query env (\<lambda>s. r_zrange_upto (PendingAckKey uid) deadline 50 (rds s))) (\<lambda>ids. case ids of
             Inl _ \<Rightarrow> State_Monad.return ()
           | Inr ms \<Rightarrow> retry_messages h env uid routeValue conn maxRetries ms))
     | Inr None \<Rightarrow> leave_gateway env gatewayID uid
     | _ \<Rightarrow> State_Monad.return ())"

fun retry_users :: "cfg \<Rightarrow> ('b gws_scheme) env \<Rightarrow> string \<Rightarrow> int \<Rightarrow> int \<Rightarrow> string list \<Rightarrow> ('b gws_scheme, unit) io" where
  "retry_users h env gatewayID deadline maxRetries [] = State_Monad.return ()"
| "retry_users h env gatewayID deadline maxRetries (u # us) =
     ignore (retry_user h env gatewayID deadline maxRetries u) (retry_users h env gatewayID deadline maxRetries us)"

definition retryGatewayPending :: "cfg \<Rightarrow> ('b gws_scheme) env \<Rightarrow> string \<Rightarrow> int \<Rightarrow> int \<Rightarrow> ('b gws_scheme, unit) io" where
  "retryGatewayPending h env gatewayID ackTimeout maxRetries =
     State_Monad.bind (query env (\<lambda>s. rsets (rds s) (GatewayUsersKey gatewayID))) (\<lambda>res. case res of
       Inl _ \<Rightarrow> State_Monad.return ()
     | Inr users \<Rightarrow> State_Monad.bind (clock env) (\<lambda>now. retry_users h env gatewayID (now - ackTimeout) maxRetries users))"

text \<open>The loop, for the number of ticks the context leaves it.\<close>

fun retry_ticks :: "nat \<Rightarrow> cfg \<Rightarrow> ('b gws_scheme) env \<Rightarrow> string \<Rightarrow> int \<Rightarrow> int \<Rightarrow> ('b gws_scheme, unit) io" where
  "retry_ticks 0 h env gatewayID ackTimeout maxRetries = State_Monad.return ()"
| "retry_ticks (Suc n) h env gatewayID ackTimeout maxRetries =
     ignore (retryGatewayPending h env gatewayID ackTimeout maxRetries) (retry_ticks n h env gatewayID ackTimeout maxRetries)"

definition StartPendingRetryLoop :: "nat \<Rightarrow> bool \<Rightarrow> cfg \<Rightarrow> ('b gws_scheme) env \<Rightarrow> string \<Rightarrow> int \<Rightarrow> int \<Rightarrow> ('b gws_scheme, unit) io" where
  "StartPendingRetryLoop ticks rdb h env gatewayID ackTimeout maxRetries =
     (if \<not> rdb \<or> gatewayID = [] \<or> ackTimeout \<le> 0 \<or> maxRetries \<le> 0 then State_Monad.return ()
      else retry_ticks ticks h env gatewayID ackTimeout maxRetries)"

section \<open>Answers to the client\<close>

record client_detail =
  cd_Type :: string
  cd_Code :: string
  cd_Message :: string
  cd_Retryable :: bool
  cd_RetryAfterMS :: int

definition pushRejectionDetail :: "SubmitResult \<Rightarrow> client_detail" where
  "pushRejectionDetail result = (case result of
       SubmitQueueFull \<Rightarrow> \<lparr>cd_Type = ''error'', cd_Code = ''SERVER_BUSY'',
         cd_Message = ''server is busy; retry the same client message id'', cd_Retryable = True, cd_RetryAfterMS = 250\<rparr>
     | SubmitPoolClosed \<Rightarrow> \<lparr>cd_Type = ''error'', cd_Code = ''SERVER_UNAVAILABLE'',
         cd_Message = ''message service is shutting down'', cd_Retryable = True, cd_RetryAfterMS = 1000\<rparr>
     | _ \<Rightarrow> \<lparr>cd_Type = ''error'', cd_Code = ''REQUEST_CANCELED'', cd_Message = ''message request was canceled'',
         cd_Retryable = False, cd_RetryAfterMS = 0\<rparr>)"

definition ErrDeadline :: gerr where "ErrDeadline = Msg ''context deadline exceeded''"

text \<open>\<open>status.Code\<close>: a gRPC error carries its code, a broken transport is \<open>Unavailable\<close> (14), anything else \<open>Unknown\<close> (2).\<close>

definition status_code :: "gerr \<Rightarrow> int" where
  "status_code e = (case e of Coded c _ \<Rightarrow> c | IoErr \<Rightarrow> 14 | _ \<Rightarrow> 2)"

definition isRetryablePushError :: "gerr option \<Rightarrow> bool" where
  "isRetryablePushError processErr = (case processErr of
       None \<Rightarrow> False
     | Some e \<Rightarrow> err_is e ErrCanceled \<or> err_is e ErrDeadline \<or> status_code e \<in> {10, 4, 8, 14})"

definition pushProcessingDetail :: "gerr option \<Rightarrow> client_detail" where
  "pushProcessingDetail processErr =
     (if processErr = None then \<lparr>cd_Type = ''result'', cd_Code = ''MESSAGE_ACCEPTED'',
        cd_Message = ''message was accepted by logic for delivery'', cd_Retryable = False, cd_RetryAfterMS = 0\<rparr>
      else if isRetryablePushError processErr then \<lparr>cd_Type = ''error'', cd_Code = ''MESSAGE_REJECTED'',
        cd_Message = ''message processing is temporarily unavailable; retry the same client message id'', cd_Retryable = True, cd_RetryAfterMS = 250\<rparr>
      else \<lparr>cd_Type = ''error'', cd_Code = ''MESSAGE_REJECTED'', cd_Message = ''message processing failed'',
        cd_Retryable = False, cd_RetryAfterMS = 0\<rparr>)"

text \<open>\<open>encoding/json\<close> of a detail; its texts need no escapes.\<close>

definition json_field :: "string \<Rightarrow> string \<Rightarrow> string" where
  "json_field k v = [CHR 0x22] @ k @ [CHR 0x22] @ '':'' @ v"

definition json_text :: "string \<Rightarrow> string" where
  "json_text t = [CHR 0x22] @ t @ [CHR 0x22]"

definition json_detail :: "client_detail \<Rightarrow> string" where
  "json_detail d = ''{'' @ join_with '','' ([json_field ''type'' (json_text (cd_Type d)), json_field ''code'' (json_text (cd_Code d)),
       json_field ''message'' (json_text (cd_Message d)), json_field ''retryable'' (if cd_Retryable d then ''true'' else ''false'')]
     @ (if cd_RetryAfterMS d \<noteq> 0 then [json_field ''retry_after_ms'' (itoa (cd_RetryAfterMS d))] else [])) @ ''}''"

definition writeClientDetail :: "cfg \<Rightarrow> ('b gws_scheme) env \<Rightarrow> string \<Rightarrow> string \<Rightarrow> wire \<Rightarrow> client_detail \<Rightarrow> ('b gws_scheme, gerr + unit) io" where
  "writeClientDetail h env uid conn request detail =
     State_Monad.bind (clock env) (\<lambda>now.
       case marshal h (empty_wire\<lparr>MsgType := SYSTEM, Body := json_detail detail, SentAt := now,
           ClientMsgId := ClientMsgId request, TraceId := TraceId request\<rparr>) of
         Inl e \<Rightarrow> err e
       | Inr payload \<Rightarrow> write_conn h env uid conn payload)"

text \<open>\<open>onComplete\<close>: what the pool's worker does with the outcome of a message.\<close>

definition on_complete :: "cfg \<Rightarrow> ('b gws_scheme) env \<Rightarrow> string \<Rightarrow> string \<Rightarrow> wire \<Rightarrow> gerr option \<Rightarrow> ('b gws_scheme, unit) io" where
  "on_complete h env uid conn request processErr =
     State_Monad.bind (writeClientDetail h env uid conn request (pushProcessingDetail processErr)) (\<lambda>r. case r of
       Inl _ \<Rightarrow> close_conn env conn | Inr _ \<Rightarrow> State_Monad.return ())"

section \<open>Who may replay a session\<close>

definition authorizeReplaySession :: "bool \<Rightarrow> ('b im_scheme) env \<Rightarrow> string \<Rightarrow> string \<Rightarrow> ('b im_scheme, gerr + unit) io" where
  "authorizeReplaySession db env userID sessionID =
     (if sessionID = [] then ok ()
      else if trim_space sessionID \<noteq> sessionID \<or> trim_space userID = [] then err (Msg ''invalid replay session'')
      else if has_prefix sessionID ''c2c:'' then
        (let parts = split_on (CHR '':'') sessionID in
         if length parts \<noteq> 3 \<or> parts ! 1 = [] \<or> parts ! 2 = [] then err (Msg ''invalid c2c replay session'')
         else if userID \<noteq> parts ! 1 \<and> userID \<noteq> parts ! 2 then err (Msg ''user is not a c2c session participant'')
         else ok ())
      else if has_prefix sessionID ''group:'' then
        (let groupID = trim_prefix sessionID ''group:'' in
         if trim_space groupID = [] then err (Msg ''invalid group replay session'')
         else if \<not> db then err (Msg ''group membership store is unavailable'')
         else State_Monad.bind (query env (\<lambda>s. find (\<lambda>m. gm_group m = groupID \<and> gm_user m = userID) (member_rows s))) (\<lambda>res. case res of
             Inl e \<Rightarrow> err (Wrapped e (''query group membership: '' @ err_text e))
           | Inr None \<Rightarrow> err (Msg ''user is not a group session participant'')
           | Inr (Some m) \<Rightarrow> if gm_status m \<noteq> ''active'' then err (Msg ''group membership is not active'') else ok ()))
      else err (Msg ''unsupported replay session format''))"

section \<open>The read loop\<close>

text \<open>What a frame leads to; \<open>NoFuel\<close> when the replay of the message table ran out of fuel.\<close>

datatype loop_end = Continue | Leave | NoFuel

definition heartbeat :: "nat \<Rightarrow> cfg \<Rightarrow> bool \<Rightarrow> ('b gws_scheme) env \<Rightarrow> string \<Rightarrow> string \<Rightarrow> string \<Rightarrow> int \<Rightarrow> wire \<Rightarrow> ('b gws_scheme, loop_end) io" where
  "heartbeat fuel h db env uid conn routeValue ttl frame =
     (let pong = State_Monad.bind (clock env) (\<lambda>now.
        let payload = (case marshal h (empty_wire\<lparr>MsgType := HEARTBEAT, Body := ''PONG'', SentAt := now, TraceId := TraceId frame\<rparr>) of
              Inr p \<Rightarrow> p | Inl _ \<Rightarrow> []) in
        State_Monad.bind (write_conn h env uid conn payload) (\<lambda>r. State_Monad.return (case r of Inl _ \<Rightarrow> Leave | Inr _ \<Rightarrow> Continue))) in
      State_Monad.bind (RefreshRouteIfMatch env uid routeValue ttl) (\<lambda>owned. case owned of
        Inl _ \<Rightarrow> State_Monad.return Leave
      | Inr False \<Rightarrow> State_Monad.return Leave
      | Inr True \<Rightarrow>
          if SessionId frame = [] then pong
          else State_Monad.bind (authorizeReplaySession db env uid (SessionId frame)) (\<lambda>allowed. case allowed of
            Inl _ \<Rightarrow> State_Monad.return Leave
          | Inr _ \<Rightarrow> State_Monad.bind
              (SyncSessionMessagesAfterSeqWithDB fuel h db (Some (AuthorizePayload h env uid)) env conn (SessionId frame) (LastSeq frame) [])
              (\<lambda>res. case res of
                None \<Rightarrow> State_Monad.return NoFuel | Some (Inl _) \<Rightarrow> State_Monad.return Leave | Some (Inr _) \<Rightarrow> pong))))"

definition submit_push :: "('b gws_scheme) env \<Rightarrow> pushTask \<Rightarrow> ('b gws_scheme, SubmitResult) io" where
  "submit_push env task = atomically env (\<lambda>s. case SubmitWithResult False False False task (pushPool s) of
     (r, p) \<Rightarrow> (r, s\<lparr>pushPool := p\<rparr>))"

definition client_message :: "cfg \<Rightarrow> ('b gws_scheme) env \<Rightarrow> string \<Rightarrow> string \<Rightarrow> string \<Rightarrow> string \<Rightarrow> wire \<Rightarrow> ('b gws_scheme, loop_end) io" where
  "client_message h env uid conn routeValue msg frame =
     State_Monad.bind (draw (fresh_id h)) (\<lambda>t.
       let frame' = (if TraceId frame = [] then frame\<lparr>TraceId := t\<rparr> else frame);
           encoded = (if TraceId frame = [] then marshal h frame' else Inr msg) in
       case encoded of
         Inl _ \<Rightarrow> State_Monad.return Continue
       | Inr data \<Rightarrow> State_Monad.bind (draw (\<lambda>n. n)) (\<lambda>call.
           State_Monad.bind (submit_push env \<lparr>pk_ID = call, pk_UID = uid, pk_Data = data, pk_Frame = Some frame',
               pk_GatewayID = ParseGatewayID routeValue, pk_HasLogic = True\<rparr>) (\<lambda>result.
           if result = SubmitAccepted then State_Monad.return Continue
           else State_Monad.bind (writeClientDetail h env uid conn frame' (pushRejectionDetail result)) (\<lambda>r.
             State_Monad.return (case r of Inl _ \<Rightarrow> Leave | Inr _ \<Rightarrow> Continue)))))"

definition client_frame :: "nat \<Rightarrow> cfg \<Rightarrow> bool \<Rightarrow> ('b gws_scheme) env \<Rightarrow> string \<Rightarrow> string \<Rightarrow> string \<Rightarrow> int \<Rightarrow> string \<Rightarrow> ('b gws_scheme, loop_end) io" where
  "client_frame fuel h db env uid conn routeValue ttl msg = (case unmarshal h msg of
       Inl _ \<Rightarrow> State_Monad.return Continue
     | Inr frame \<Rightarrow> (case MsgType frame of
         ACK \<Rightarrow> ignore (AckMessageWithDB h env db uid (AckMessageId frame)) (State_Monad.return Continue)
       | HEARTBEAT \<Rightarrow> heartbeat fuel h db env uid conn routeValue ttl frame
       | _ \<Rightarrow> client_message h env uid conn routeValue msg frame))"

text \<open>The messages read until reading fails.\<close>

fun StartClientLoopWithDB :: "nat \<Rightarrow> cfg \<Rightarrow> bool \<Rightarrow> ('b gws_scheme) env \<Rightarrow> string \<Rightarrow> string \<Rightarrow> string \<Rightarrow> int \<Rightarrow> string list
    \<Rightarrow> ('b gws_scheme, loop_end) io" where
  "StartClientLoopWithDB fuel h db env uid conn routeValue ttl [] = State_Monad.return Leave"
| "StartClientLoopWithDB fuel h db env uid conn routeValue ttl (msg # rest) =
     State_Monad.bind (client_frame fuel h db env uid conn routeValue ttl msg) (\<lambda>e. case e of
       Continue \<Rightarrow> StartClientLoopWithDB fuel h db env uid conn routeValue ttl rest
     | _ \<Rightarrow> State_Monad.return e)"

section \<open>The handshake\<close>

text \<open>What \<open>url.Parse\<close> reads from an origin; \<open>None\<close> when it fails.\<close>

record origin_parts =
  og_Scheme :: string
  og_Host :: string
  og_HasUser :: bool
  og_RawQuery :: string
  og_Fragment :: string
  og_Path :: string

record ws_config =
  parse_origin :: "string \<Rightarrow> origin_parts option"
  AllowedOrigins :: "string list"
  AllowMissingOrigin :: bool
  GatewayID :: string
  RouteTTL :: int
  connection_id :: "nat \<Rightarrow> string"
  logic_available :: bool

definition canonicalWebOrigin :: "ws_config \<Rightarrow> string \<Rightarrow> string option" where
  "canonicalWebOrigin w raw = (case parse_origin w (trim_space raw) of
       None \<Rightarrow> None
     | Some u \<Rightarrow>
         if og_Scheme u = [] \<or> og_Host u = [] \<or> og_HasUser u \<or> og_RawQuery u \<noteq> [] \<or> og_Fragment u \<noteq> [] then None
         else let scheme = to_lower (og_Scheme u) in
           if scheme \<noteq> ''http'' \<and> scheme \<noteq> ''https'' then None
           else if og_Path u \<noteq> [] \<and> og_Path u \<noteq> ''/'' then None
           else Some (scheme @ ''://'' @ to_lower (og_Host u)))"

definition webSocketOriginAllowed :: "ws_config \<Rightarrow> string \<Rightarrow> bool" where
  "webSocketOriginAllowed w origin0 =
     (let origin = trim_space origin0 in
      if origin = [] then AllowMissingOrigin w
      else case canonicalWebOrigin w origin of
        None \<Rightarrow> False
      | Some normalized \<Rightarrow> list_ex (\<lambda>a. canonicalWebOrigin w a = Some normalized) (AllowedOrigins w))"

definition parseLastSeq :: "string \<Rightarrow> int" where
  "parseLastSeq raw = (if raw = [] then - 1 else case parse_int raw of None \<Rightarrow> - 1 | Some v \<Rightarrow> v)"

text \<open>
  A handshake: the user the middleware found, the query, the \<open>Origin\<close> header, whether the rest of the
  upgrade succeeds, and what the client sends afterwards.
\<close>

record ws_request =
  wr_UserID :: string
  wr_SessionID :: string
  wr_LastSeq :: string
  wr_Origin :: string
  wr_Upgrades :: bool
  wr_Frames :: "string list"

datatype ws_end = WsRefused int | WsNotUpgraded | WsClosed loop_end

definition close_socket :: "('b gws_scheme) env \<Rightarrow> string \<Rightarrow> string \<Rightarrow> ws_end \<Rightarrow> ('b gws_scheme, ws_end) io" where
  "close_socket env userID conn e = ignore (ManagerRemove env userID conn) (ignore (close_conn env conn) (State_Monad.return e))"

definition serve_socket :: "nat \<Rightarrow> cfg \<Rightarrow> bool \<Rightarrow> ws_config \<Rightarrow> ('b gws_scheme) env \<Rightarrow> ws_request \<Rightarrow> string \<Rightarrow> ('b gws_scheme, ws_end) io" where
  "serve_socket fuel h db w env r conn =
     (let userID = wr_UserID r; routeValue = BuildRouteValue (GatewayID w) conn in
      ignore (ManagerAdd env userID conn)
        (State_Monad.bind (ClaimRoute env userID routeValue) (\<lambda>claimed. case claimed of
          Inl _ \<Rightarrow> close_socket env userID conn (WsClosed Leave)
        | Inr _ \<Rightarrow> State_Monad.bind
            (SyncOfflineMessagesWithDB fuel h db (Some (AuthorizePayload h env userID)) env userID conn (wr_SessionID r) (parseLastSeq (wr_LastSeq r)))
            (\<lambda>res. State_Monad.bind (case res of
                None \<Rightarrow> State_Monad.return NoFuel
              | Some (Inl _) \<Rightarrow> State_Monad.return Leave
              | Some (Inr _) \<Rightarrow> StartClientLoopWithDB fuel h db env userID conn routeValue (RouteTTL w) (wr_Frames r)) (\<lambda>e.
              ignore (ClearRouteIfMatch env userID routeValue) (close_socket env userID conn (WsClosed e)))))))"

definition WebSocketHandler :: "nat \<Rightarrow> cfg \<Rightarrow> bool \<Rightarrow> ws_config \<Rightarrow> ('b gws_scheme) env \<Rightarrow> ws_request \<Rightarrow> ('b gws_scheme, ws_end) io" where
  "WebSocketHandler fuel h db w env r =
     (if wr_UserID r = [] then State_Monad.return (WsRefused 401)
      else State_Monad.bind (authorizeReplaySession db env (wr_UserID r) (wr_SessionID r)) (\<lambda>allowed. case allowed of
        Inl _ \<Rightarrow> State_Monad.return (WsRefused 403)
      | Inr _ \<Rightarrow>
          if \<not> logic_available w then State_Monad.return (WsRefused 503)
          else if \<not> webSocketOriginAllowed w (wr_Origin r) \<or> \<not> wr_Upgrades r then State_Monad.return WsNotUpgraded
          else State_Monad.bind (draw (connection_id w)) (serve_socket fuel h db w env r)))"

end
