(* ===== verification/Socket_Safety.thy ===== *)
theory Socket_Safety
  imports Gateway_Socket Demo
begin

text \<open>
  What the connections of a gateway get: somebody who has left a group receives none of its messages, whatever
  arrives, waits or is replayed; a push is written to the connection its route names and to no other; and a session is
  replayed only to those who take part in it.  The last section shows an acknowledgement that a concurrent retry undoes.
\<close>

section \<open>Rules\<close>

lemma wp_atomically:
  "relies env I \<Longrightarrow> I s \<Longrightarrow> (\<And>s'. I s' \<Longrightarrow> Q (fst (f s')) (snd (f s'))) \<Longrightarrow> wp (atomically env f) Q s"
  by (auto simp: wp_def atomically_def relies_def split: prod.splits) (metis fst_conv snd_conv)

lemma keeps_atomically: "relies env I \<Longrightarrow> (\<And>s. I s \<Longrightarrow> I (snd (f s))) \<Longrightarrow> keeps I (atomically env f)"
  by (rule keepsI, rule wp_atomically [where I = I]) auto

lemma keeps_case_bool [keeps_rules]: "keeps I m \<Longrightarrow> keeps I m' \<Longrightarrow> keeps I (case b of True \<Rightarrow> m | False \<Rightarrow> m')"
  by (cases b) auto

lemma keeps_case_loop_end [keeps_rules]:
  "keeps I m1 \<Longrightarrow> keeps I m2 \<Longrightarrow> keeps I m3 \<Longrightarrow> keeps I (case e of Continue \<Rightarrow> m1 | Leave \<Rightarrow> m2 | NoFuel \<Rightarrow> m3)"
  by (cases e) auto

text \<open>What the payload check and the log of writes depend on.\<close>

definition gview :: "'b gws_scheme \<Rightarrow> member_row list \<times> group_row list \<times> (string \<times> string) list \<times> (string \<Rightarrow> string option)" where
  "gview s = (member_rows s, group_rows s, ws_out s, UserConns s)"

lemma gview_simps [simp]:
  "gview (on_rds f s) = gview s" "gview (s\<lparr>rds := r\<rparr>) = gview s" "gview (s\<lparr>conv_members := cs\<rparr>) = gview s"
  "gview (s\<lparr>closed_conns := xs\<rparr>) = gview s" "gview (s\<lparr>pushPool := p\<rparr>) = gview s"
  by (simp_all add: gview_def on_rds_def)

text \<open>A condition that depends on the view only, and that a connection may leave.\<close>

locale view_invariant =
  fixes I :: "'b gws_scheme \<Rightarrow> bool"
  assumes view: "reads gview I"
    and unregister: "I s \<Longrightarrow> I (s\<lparr>UserConns := (UserConns s)(u := None)\<rparr>)"
begin

lemma keeps_rds: "relies env I \<Longrightarrow> keeps I (update_w env (on_rds f))"
  by (rule keeps_update_reads [OF _ view]) simp_all

lemma keeps_rds_res: "relies env I \<Longrightarrow> keeps I (exec env (on_rds_res f))"
  by (rule keeps_exec_reads [OF _ view]) (simp_all add: on_rds_res_def split: prod.split)

lemmas base = keeps_rules keeps_rds keeps_rds_res

lemma keeps_offline_mark: "relies env I \<Longrightarrow> keeps I (MarkOffline env u m t)"
  unfolding MarkOffline_def by (intro base)

lemma keeps_clear_route_call: "relies env I \<Longrightarrow> keeps I (ClearRouteIfMatch env u v)"
  unfolding ClearRouteIfMatch_def by (rule keeps_rds)

lemma keeps_close_conn: "relies env I \<Longrightarrow> keeps I (close_conn env c)"
  unfolding close_conn_def by (rule keeps_atomically) (auto intro: readsD [OF view])

lemma keeps_ManagerRemove: "relies env I \<Longrightarrow> keeps I (ManagerRemove env u c)"
  unfolding ManagerRemove_def by (rule keeps_atomically) (auto intro: unregister)

lemma keeps_drop_conn: "relies env I \<Longrightarrow> keeps I (drop_conn env u c)"
  unfolding drop_conn_def by (intro base keeps_close_conn keeps_ManagerRemove)

lemma keeps_clear_named_route: "relies env I \<Longrightarrow> keeps I (clear_named_route env e)"
  unfolding clear_named_route_def by (intro base keeps_clear_route_call)

lemmas ends = keeps_offline_mark keeps_clear_route_call keeps_close_conn keeps_drop_conn keeps_clear_named_route

lemma keeps_AckMessageWithDB: "relies env I \<Longrightarrow> keeps I (AckMessageWithDB h env db u m)"
  unfolding AckMessageWithDB_def ackFrameFromIndex_def MarkConversationAcked_def
  by (intro base keeps_exec_reads [OF _ view]) (auto simp: run_update_def gview_def)

lemma keeps_authorizeReplaySession: "relies env I \<Longrightarrow> keeps I (authorizeReplaySession db env u sid)"
  unfolding authorizeReplaySession_def by (intro base)

end

text \<open>
  A condition that moreover any checked write to a connection of its user keeps, and that knows whose the connections
  of the table are.
\<close>

locale connection_invariant = view_invariant I for I :: "'b gws_scheme \<Rightarrow> bool" +
  fixes h :: cfg and mine :: "string \<Rightarrow> string \<Rightarrow> bool"
  assumes checked_write: "relies env I \<Longrightarrow> mine u c \<Longrightarrow> keeps I (write_conn h env u c p)"
    and register: "I s \<Longrightarrow> mine u c \<Longrightarrow> I (s\<lparr>UserConns := (UserConns s)(u := Some c)\<rparr>)"
    and registered: "I s \<Longrightarrow> UserConns s u = Some c \<Longrightarrow> mine u c"
begin

lemma keeps_ManagerAdd: "relies env I \<Longrightarrow> mine u c \<Longrightarrow> keeps I (ManagerAdd env u c)"
  unfolding ManagerAdd_def by (intro base keeps_atomically keeps_close_conn) (auto intro: register)

lemma wp_GetConn: "relies env I \<Longrightarrow> I s \<Longrightarrow> wp (GetConn env u) (\<lambda>found s'. I s' \<and> (\<forall>c. found = Some c \<longrightarrow> mine u c)) s"
  unfolding GetConn_def by (rule wp_atomically [where I = I]) (auto intro: registered)

text \<open>Whatever follows a lookup may assume the connection to be the user's.\<close>

lemma keeps_GetConn:
  assumes "relies env I" "\<And>found. (\<And>c. found = Some c \<Longrightarrow> mine u c) \<Longrightarrow> keeps I (k found)"
  shows "keeps I (State_Monad.bind (GetConn env u) k)"
  by (rule keepsI, rule wp_bindI [OF wp_GetConn [OF assms(1)]]) (auto intro: keeps_wp [OF assms(2)])

lemma keeps_on_push:
  assumes "relies env I" "\<And>u c. mine u c \<Longrightarrow> keeps I (write_ws env c notice_text)"
  shows "keeps I (on_push h env gatewayID e)"
  unfolding on_push_def
  by (intro base keeps_GetConn checked_write ends assms) auto

lemma keeps_retryOnePending: "relies env I \<Longrightarrow> mine u c \<Longrightarrow> keeps I (retryOnePending h env u v c m n)"
  unfolding retryOnePending_def by (intro base ends checked_write) auto

lemma keeps_retry_messages: "relies env I \<Longrightarrow> mine u c \<Longrightarrow> keeps I (retry_messages h env u v c n ms)"
  by (induction ms) (auto intro!: base keeps_retryOnePending)

lemma keeps_retry_user: "relies env I \<Longrightarrow> keeps I (retry_user h env gatewayID deadline n u)"
  unfolding retry_user_def leave_gateway_def by (intro base keeps_GetConn keeps_retry_messages) auto

lemma keeps_retryGatewayPending: "relies env I \<Longrightarrow> keeps I (retryGatewayPending h env gatewayID t n)"
proof -
  assume env: "relies env I"
  have "keeps I (retry_users h env gatewayID deadline n us)" for deadline us
    by (induction us) (auto intro!: base keeps_retry_user env)
  with env show ?thesis unfolding retryGatewayPending_def by (intro base)
qed

lemma keeps_writeClientDetail: "relies env I \<Longrightarrow> mine u c \<Longrightarrow> keeps I (writeClientDetail h env u c f d)"
  unfolding writeClientDetail_def by (intro base checked_write)

lemma keeps_on_complete: "relies env I \<Longrightarrow> mine u c \<Longrightarrow> keeps I (on_complete h env u c f e)"
  unfolding on_complete_def by (intro base keeps_writeClientDetail ends)

text \<open>The replays write to the connection only.\<close>

lemma keeps_syncPendingMessages:
  assumes "relies env I" "mine u c"
  shows "keeps I (syncPendingMessages (Some (AuthorizePayload h env u)) env v c replayed)"
proof -
  have "keeps I (replay_pending (Some (AuthorizePayload h env u)) env v c ms rep)" for ms rep
    by (induction ms arbitrary: rep) (auto intro!: base checked_write assms)
  then show ?thesis unfolding syncPendingMessages_def by (intro base assms)
qed

lemma keeps_SyncSession:
  assumes "relies env I" "mine u c"
  shows "keeps I (SyncSessionMessagesAfterSeqWithDB fuel h db (Some (AuthorizePayload h env u)) env c sid n replayed)"
proof -
  let ?auth = "Some (AuthorizePayload h env u)"
  have timeline: "keeps I (replay_timeline ?auth env c ms rep)" for ms rep
    by (induction ms arbitrary: rep) (auto intro!: base checked_write assms)
  have rows: "keeps I (replay_rows h ?auth env c rs m k rep)" for rs m k rep
    by (induction rs arbitrary: m k rep) (auto simp: Let_def intro!: base checked_write assms)
  have table: "keeps I (syncMySQLMessagesAfterSeq fuel h ?auth env c sid cur k rep)" for cur k rep
    by (induction fuel arbitrary: cur k rep) (auto intro!: base rows assms)
  show ?thesis
    unfolding SyncSessionMessagesAfterSeqWithDB_def syncSessionMessagesAfterSeq_def by (intro base timeline table assms)
qed

lemma keeps_SyncOffline:
  "relies env I \<Longrightarrow> mine u c \<Longrightarrow> keeps I (SyncOfflineMessagesWithDB fuel h db (Some (AuthorizePayload h env u)) env v c sid n)"
  unfolding SyncOfflineMessagesWithDB_def by (intro base keeps_syncPendingMessages keeps_SyncSession)

lemma keeps_client_frame:
  assumes "relies env I" "mine u c"
  shows "keeps I (client_frame fuel h db env u c v ttl msg)"
proof -
  have hb: "keeps I (heartbeat fuel h db env u c v ttl f)" for f
    unfolding heartbeat_def RefreshRouteIfMatch_def Let_def
    by (intro base checked_write keeps_SyncSession keeps_authorizeReplaySession assms)
  have cm: "keeps I (client_message h env u c v msg f)" for f
    unfolding client_message_def submit_push_def Let_def
    by (intro base keeps_writeClientDetail keeps_atomically assms) (auto split: prod.split intro: readsD [OF view])
  show ?thesis
    unfolding client_frame_def by (auto intro!: base hb cm keeps_AckMessageWithDB assms split: sum.split msg_type.split)
qed

lemma keeps_client_loop:
  "relies env I \<Longrightarrow> mine u c \<Longrightarrow> keeps I (StartClientLoopWithDB fuel h db env u c v ttl inbox)"
  by (induction inbox) (auto intro!: base keeps_client_frame)

lemma keeps_serve_socket:
  "relies env I \<Longrightarrow> mine (wr_UserID r) c \<Longrightarrow> keeps I (serve_socket fuel h db w env r c)"
  unfolding serve_socket_def close_socket_def ClaimRoute_def Let_def
  by (intro base keeps_ManagerAdd keeps_ManagerRemove keeps_SyncOffline keeps_client_loop ends)

lemma keeps_WebSocketHandler:
  assumes "relies env I" "\<And>n. mine (wr_UserID r) (connection_id w n)"
  shows "keeps I (WebSocketHandler fuel h db w env r)"
proof -
  have "keeps I (State_Monad.bind (draw (connection_id w)) (serve_socket fuel h db w env r))"
  proof (rule keepsI, rule wp_bind, rule wp_draw)
    fix s n assume "I s"
    then show "wp (serve_socket fuel h db w env r (connection_id w n)) (\<lambda>_. I) s"
      by (rule keeps_wp [OF keeps_serve_socket [OF assms]])
  qed
  note socket = this
  show ?thesis
    unfolding WebSocketHandler_def
    by (intro keeps_if keeps_return keeps_bind [OF keeps_authorizeReplaySession] keeps_case_sum socket assms)
qed

end

section \<open>Who has left a group\<close>

definition outside :: "string \<Rightarrow> string \<Rightarrow> 'b im_scheme \<Rightarrow> bool" where
  "outside uid g s \<longleftrightarrow> \<not> (\<exists>m\<in>set (member_rows s). \<exists>r\<in>set (group_rows s). gm_group m = g \<and> gm_user m = uid \<and> gm_status m = ''active''
     \<and> gr_id r = g \<and> gr_status r = ''active'')"

lemma outside_no_rows: "outside uid g s \<Longrightarrow> active_memberships g uid s = 0"
  by (auto simp: outside_def active_memberships_def filter_empty_conv)

definition group_payload :: "cfg \<Rightarrow> string \<Rightarrow> string \<Rightarrow> bool" where
  "group_payload h g p \<longleftrightarrow> (\<exists>f. unmarshal h p = Inr f \<and> ToType f = ''group'' \<and> To f = g)"

text \<open>The user is outside, his connections have been sent nothing of the group, and nobody else's connection is among them.\<close>

definition silent :: "cfg \<Rightarrow> string set \<Rightarrow> string \<Rightarrow> string \<Rightarrow> 'b gws_scheme \<Rightarrow> bool" where
  "silent h C uid g s \<longleftrightarrow> outside uid g s \<and> (\<forall>(c, p)\<in>set (ws_out s). c \<in> C \<longrightarrow> \<not> group_payload h g p)
     \<and> (\<forall>u c. UserConns s u = Some c \<longrightarrow> u = uid \<or> c \<notin> C)"

lemma silent_write:
  "silent h C uid g s \<Longrightarrow> c \<notin> C \<or> \<not> group_payload h g p \<Longrightarrow> silent h C uid g (s\<lparr>ws_out := ws_out s @ [(c, p)]\<rparr>)"
  by (auto simp: silent_def outside_def)

lemma keeps_silent_write_ws:
  "relies env (silent h C uid g) \<Longrightarrow> c \<notin> C \<or> \<not> group_payload h g p \<Longrightarrow> keeps (silent h C uid g) (write_ws env c p)"
  unfolding write_ws_def by (rule keeps_update) (auto intro: silent_write)

lemma wp_AuthorizePayload:
  fixes env :: "'b gws_scheme env"
  assumes "relies env (silent h C uid g)" "silent h C uid g s"
  shows "wp (AuthorizePayload h env uid p) (\<lambda>r s'. silent h C uid g s' \<and> (r = Inr True \<longrightarrow> \<not> group_payload h g p)) s"
  unfolding AuthorizePayload_def
proof (rule wp_case_sum, goal_cases)
  case (2 f)
  show ?case
  proof (rule wp_if, goal_cases)
    case 1
    then show ?case using 2 assms(2) by (intro wp_ok) (simp add: group_payload_def)
  next
    case 2
    show ?case
      by (rule wp_then_ok, rule wp_query_stable [OF assms])
         (use \<open>unmarshal h p = Inr f\<close> in \<open>auto intro!: wp_ok simp: group_payload_def silent_def outside_no_rows\<close>)
  qed
qed (use assms(2) in \<open>auto intro: wp_err\<close>)

lemma keeps_silent_checked_write:
  fixes env :: "'b gws_scheme env"
  assumes "relies env (silent h C uid g)" "u = uid \<or> c \<notin> C"
  shows "keeps (silent h C uid g) (write_conn h env u c p)"
proof (cases "c \<notin> C")
  case True
  then show ?thesis
    unfolding WriteBinary_def AuthorizePayload_def
    by (auto intro!: keeps_rules keeps_silent_write_ws assms(1) split: sum.split)
next
  case False
  with assms(2) have u: "u = uid" by simp
  show ?thesis
    unfolding WriteBinary_def u option.case
    by (rule keepsI, rule wp_then_okI [OF wp_AuthorizePayload [OF assms(1)]])
       (auto intro!: wp_if wp_ok keeps_wp [OF keeps_silent_write_ws [OF assms(1)]])
qed

interpretation group_silence: connection_invariant "silent h C uid g" h "\<lambda>u c. u = uid \<or> c \<notin> C" for h C uid g
proof
  show "reads gview (silent h C uid g)"
    by (simp add: reads_def gview_def silent_def outside_def)
  fix env :: "'b gws_scheme env" and u c p
  show "keeps (silent h C uid g) (write_conn h env u c p)" if "relies env (silent h C uid g)" "u = uid \<or> c \<notin> C"
    by (rule keeps_silent_checked_write [OF that])
qed (auto simp: silent_def outside_def)

section \<open>Who may be sent a payload\<close>

definition decodable :: "cfg \<Rightarrow> string \<Rightarrow> bool" where
  "decodable h p \<longleftrightarrow> \<not> isl (unmarshal h p)"

definition may_receive :: "cfg \<Rightarrow> string \<Rightarrow> string \<Rightarrow> 'b im_scheme \<Rightarrow> bool" where
  "may_receive h uid p s \<longleftrightarrow> (case unmarshal h p of Inl _ \<Rightarrow> False
     | Inr f \<Rightarrow> ToType f = ''group'' \<longrightarrow> active_memberships (To f) uid s = 1)"

text \<open>On a reliable store the check of a connection decides exactly this.\<close>

interpretation socket_check: replay_check env "AuthorizePayload h env uid" "decodable h" "may_receive h uid" for h env uid
proof
  fix env :: "('b im_scheme) env" and I s q and Q :: "gerr + bool \<Rightarrow> 'b im_scheme \<Rightarrow> bool"
  assume env: "reliable env" "relies env I" "I s" and q: "decodable h q"
    and Q: "\<And>s'. I s' \<Longrightarrow> Q (Inr (may_receive h uid q s')) s'"
  obtain f where f: "unmarshal h q = Inr f" using q by (cases "unmarshal h q") (auto simp: decodable_def)
  show "wp (AuthorizePayload h env uid q) Q s"
    unfolding AuthorizePayload_def f sum.case
    using Q [OF env(3)] Q
    by (intro wp_if wp_ok wp_then_ok wp_query_up [OF env]) (auto simp: may_receive_def f intro!: wp_ok)
qed (simp add: may_receive_def active_memberships_def split: sum.split)

section \<open>Everything a gateway does\<close>

datatype gw_event = Connected ws_request | Arrived push_envelope | RetryTick int int | Completed string string wire "gerr option"

primrec serve_gateway :: "nat \<Rightarrow> cfg \<Rightarrow> bool \<Rightarrow> ws_config \<Rightarrow> ('b gws_scheme) env \<Rightarrow> gw_event \<Rightarrow> ('b gws_scheme, unit) io" where
  "serve_gateway fuel h db w env (Connected r) = ignore (WebSocketHandler fuel h db w env r) (State_Monad.return ())"
| "serve_gateway fuel h db w env (Arrived e) = on_push h env (GatewayID w) e"
| "serve_gateway fuel h db w env (RetryTick timeout n) = retryGatewayPending h env (GatewayID w) timeout n"
| "serve_gateway fuel h db w env (Completed u c f r) = on_complete h env u c f r"

text \<open>Connection ids of the set are those of the user.\<close>

primrec ids_apart :: "string set \<Rightarrow> string \<Rightarrow> ws_config \<Rightarrow> gw_event \<Rightarrow> bool" where
  "ids_apart C uid w (Connected r) \<longleftrightarrow> wr_UserID r = uid \<or> (\<forall>n. connection_id w n \<notin> C)"
| "ids_apart C uid w (Arrived e) \<longleftrightarrow> True"
| "ids_apart C uid w (RetryTick timeout n) \<longleftrightarrow> True"
| "ids_apart C uid w (Completed u c f r) \<longleftrightarrow> u = uid \<or> c \<notin> C"

lemma keeps_serve_gateway:
  assumes env: "relies env (silent h C uid g)" and apart: "ids_apart C uid w ev"
    and notice: "\<And>f. unmarshal h notice_text = Inr f \<Longrightarrow> ToType f \<noteq> ''group''"
  shows "keeps (silent h C uid g) (serve_gateway fuel h db w env ev)"
proof (cases ev)
  case (Connected r)
  with apart show ?thesis
    by (auto intro!: keeps_rules group_silence.keeps_WebSocketHandler [OF env])
next
  case (Arrived e)
  have "keeps (silent h C uid g) (write_ws env c notice_text)" for c
    using notice by (intro keeps_silent_write_ws [OF env]) (auto simp: group_payload_def)
  with Arrived show ?thesis by (simp add: group_silence.keeps_on_push [OF env])
next
  case (RetryTick t n)
  then show ?thesis by (simp add: group_silence.keeps_retryGatewayPending [OF env])
next
  case (Completed u c f r)
  with apart show ?thesis by (simp add: group_silence.keeps_on_complete [OF env])
qed

section \<open>Where a push goes\<close>

interpretation sent: view_invariant "\<lambda>s. sent_on D s = X" for D X
  by standard (auto simp: reads_def gview_def sent_on_def)

lemma keeps_sent_write_ws:
  "relies env (\<lambda>s. sent_on D s = X) \<Longrightarrow> \<not> D c \<Longrightarrow> keeps (\<lambda>s. sent_on D s = X) (write_ws env c p)"
  unfolding write_ws_def by (rule keeps_update) (auto simp: sent_on_def)

lemma keeps_sent_checked_write:
  "relies env (\<lambda>s. sent_on D s = X) \<Longrightarrow> \<not> D c \<Longrightarrow> keeps (\<lambda>s. sent_on D s = X) (write_conn h env u c p)"
  unfolding WriteBinary_def AuthorizePayload_def
  by (auto intro!: keeps_rules keeps_sent_write_ws split: sum.split)

lemma keeps_routed_push:
  fixes env :: "'b gws_scheme env"
  assumes env: "relies env (\<lambda>s. sent_on D s = X)"
    and route: "pe_RouteValue e \<noteq> []" "\<And>c. RouteMatchesConnection (pe_RouteValue e) gatewayID c \<Longrightarrow> \<not> D c"
  shows "keeps (\<lambda>s. sent_on D s = X) (on_push h env gatewayID e)"
proof -
  let ?I = "\<lambda>s :: 'b gws_scheme. sent_on D s = X"
  have get: "keeps ?I (GetConn env u)" for u
    unfolding GetConn_def by (rule keeps_atomically [OF env]) simp
  have notice: "keeps ?I (if RouteMatchesConnection (pe_RouteValue e) gatewayID c
     then ignore (write_ws env c notice_text) (State_Monad.return ()) else State_Monad.return ())" for c
    using route(2) by (auto intro!: keeps_rules keeps_sent_write_ws env)
  have payload: "keeps ?I (write_conn h env (pe_TargetID e) c p)" if "\<not> (pe_RouteValue e \<noteq> [] \<and> \<not> RouteMatchesConnection (pe_RouteValue e) gatewayID c)" for c p
    using that route by (intro keeps_sent_checked_write env) auto
  show ?thesis
    unfolding on_push_def by (intro sent.base sent.ends get notice payload env)
qed

text \<open>The text a push puts on the wire.\<close>

definition push_text :: "push_envelope \<Rightarrow> string option" where
  "push_text e = (if pe_Kind e = ''community_notice'' then Some notice_text else base64_decode (pe_PayloadB64 e))"

text \<open>
  The target of a push is connected as \<open>conn\<close>, which has been sent \<open>log\<close> so far, and he may receive the text, if it is a
  message and no notice.
\<close>

definition awaits_push :: "cfg \<Rightarrow> push_envelope \<Rightarrow> string \<Rightarrow> string \<Rightarrow> (string \<times> string) list \<Rightarrow> 'b gws_scheme \<Rightarrow> bool" where
  "awaits_push h e conn p log s \<longleftrightarrow> UserConns s (pe_TargetID e) = Some conn \<and> sent_on (\<lambda>c. c = conn) s = log
     \<and> (pe_Kind e \<noteq> ''community_notice'' \<longrightarrow> may_receive h (pe_TargetID e) p s)"

lemma sent_on_write [simp]:
  "sent_on D (s\<lparr>ws_out := ws_out s @ [(c, p)]\<rparr>) = sent_on D s @ (if D c then [(c, p)] else [])"
  by (simp add: sent_on_def)

lemma on_push_writes:
  assumes env: "reliable env" "relies env (awaits_push h e conn p log)" "awaits_push h e conn p log s"
    and e: "push_text e = Some p" "RouteMatchesConnection (pe_RouteValue e) gatewayID conn"
  shows "wp (on_push h env gatewayID e) (\<lambda>_ s'. sent_on (\<lambda>c. c = conn) s' = log @ [(conn, p)]) s"
proof -
  let ?I = "awaits_push h e conn p log"
  have found: "wp (State_Monad.bind (GetConn env (pe_TargetID e)) k) Q s"
    if "\<And>s'. ?I s' \<Longrightarrow> wp (k (Some conn)) Q s'" for k and Q :: "unit \<Rightarrow> 'a gws_scheme \<Rightarrow> bool"
    unfolding GetConn_def by (rule wp_bind, rule wp_atomically [OF env(2,3)]) (use that in \<open>auto simp: awaits_push_def\<close>)
  have log: "sent_on (\<lambda>c. c = conn) s' = log" if "?I s'" for s' using that by (simp add: awaits_push_def)
  show ?thesis
  proof (cases "pe_Kind e = ''community_notice''")
    case True
    then have p: "p = notice_text" using e(1) by (simp add: push_text_def)
    have "wp (ignore (write_ws env conn notice_text) (State_Monad.return ())) (\<lambda>_ s'. sent_on (\<lambda>c. c = conn) s' = log @ [(conn, p)]) s'"
      if "?I s'" for s'
      unfolding write_ws_def
      by (rule wp_ignore, rule wp_update_up [OF env(1,2) that]) (simp add: wp_return log p)
    then show ?thesis
      unfolding on_push_def if_P [OF True] by (intro found) (simp add: e(2))
  next
    case False
    then have p: "base64_decode (pe_PayloadB64 e) = Some p" using e(1) by (simp add: push_text_def)
    have may: "may_receive h (pe_TargetID e) p s'" if "?I s'" for s' using that False by (simp add: awaits_push_def)
    have "decodable h p" using may [OF env(3)] by (auto simp: may_receive_def decodable_def split: sum.splits)
    then have "wp (State_Monad.bind (write_conn h env (pe_TargetID e) conn p) k) (\<lambda>_ s'. sent_on (\<lambda>c. c = conn) s' = log @ [(conn, p)]) s'"
      if "?I s'" "k (Inr ()) = State_Monad.return ()" for k s'
      using that may by (intro wp_bind socket_check.wp_checked_write [OF env(1,2) that(1)]) (auto simp: log wp_return)
    then show ?thesis
      unfolding on_push_def if_not_P [OF False] by (intro found) (simp add: e(2) p)
  qed
qed

section \<open>Who may replay a session\<close>

definition participates :: "string \<Rightarrow> string \<Rightarrow> 'b im_scheme \<Rightarrow> bool" where
  "participates uid sid s \<longleftrightarrow> (\<exists>a b. sid = ''c2c:'' @ a @ '':'' @ b \<and> uid \<in> {a, b})
     \<or> (\<exists>g. sid = ''group:'' @ g \<and> (\<exists>m\<in>set (member_rows s). gm_group m = g \<and> gm_user m = uid \<and> gm_status m = ''active''))"

lemma c2c_parts:
  assumes "has_prefix sid ''c2c:''" "length (split_on (CHR '':'') sid) = 3"
    and "uid = split_on (CHR '':'') sid ! 1 \<or> uid = split_on (CHR '':'') sid ! 2"
  shows "participates uid sid s"
proof -
  obtain x y z where xyz: "split_on (CHR '':'') sid = [x, y, z]"
    using assms(2) by (auto simp: numeral_3_eq_3 length_Suc_conv)
  from assms(1) obtain r where r: "sid = ''c2c'' @ CHR '':'' # r" by (auto simp: has_prefix_def elim: prefixE)
  have "split_on (CHR '':'') sid = ''c2c'' # split_on (CHR '':'') r" unfolding r by (rule split_on_append) simp
  with xyz have "x = ''c2c''" by simp
  with split_on_three [OF xyz] assms(3) xyz show ?thesis by (auto simp: participates_def)
qed

lemma wp_authorizeReplaySession:
  fixes env :: "'b gws_scheme env"
  assumes env: "relies env (\<lambda>s. \<not> participates uid sid s \<and> J s)" and s: "\<not> participates uid sid s \<and> J s" and "sid \<noteq> []"
  shows "wp (authorizeReplaySession db env uid sid) (\<lambda>r s'. J s' \<and> isl r) s"
proof -
  let ?g = "trim_prefix sid ''group:''"
  have member: "wp (State_Monad.bind (query env (\<lambda>s. find (\<lambda>m. gm_group m = ?g \<and> gm_user m = uid) (member_rows s))) (\<lambda>res. case res of
             Inl e \<Rightarrow> err (Wrapped e (''query group membership: '' @ err_text e))
           | Inr None \<Rightarrow> err (Msg ''user is not a group session participant'')
           | Inr (Some m) \<Rightarrow> if gm_status m \<noteq> ''active'' then err (Msg ''group membership is not active'') else ok ())) (\<lambda>r s'. J s' \<and> isl r) s"
    if "has_prefix sid ''group:''"
  proof (rule wp_bind, rule wp_query_stable [OF env s], goal_cases)
    case (2 s1)
    have sid: "sid = ''group:'' @ ?g" using that by (auto simp: has_prefix_def trim_prefix_def elim: prefixE)
    have "gm_status m \<noteq> ''active''" if "find (\<lambda>m. gm_group m = ?g \<and> gm_user m = uid) (member_rows s1) = Some m" for m
      using 2 find_Some_iff_in [OF that] sid unfolding participates_def by metis
    with 2 show ?case by (auto intro: wp_err split: option.split)
  qed (auto intro: wp_err)
  show ?thesis
    unfolding authorizeReplaySession_def Let_def
    using s assms(3) c2c_parts [of sid uid s] by (intro wp_if wp_err member) auto
qed

section \<open>A retry that undoes an acknowledgement\<close>

text \<open>The message \<open>p2\<close> waits for \<open>bo\<close>, who is connected as \<open>c1\<close>; his acknowledgement arrives between the write of the retry and its \<open>ZADD\<close>.\<close>

definition demo_gws :: gws where
  "demo_gws = im.extend (demo_world\<lparr>rds := track_pending ''bo'' ''al:bo-1'' (base64_encode ''p2'') 1 empty_redis,
       group_rows := [\<lparr>gr_id = ''g1'', gr_name = ''G'', gr_owner = ''al'', gr_status = ''active'', gr_created_at = 1\<rparr>]\<rparr>)
     \<lparr>UserConns = (\<lambda>u. if u = ''bo'' then Some ''c1'' else None), closed_conns = [], pushPool = newPushWorkerPool 2 2\<rparr>"

definition ack_between :: "gws env" where
  "ack_between = (calm 9)\<lparr>interfere := \<lambda>n s. if n = 4 then on_rds (\<lambda>r. snd (acknowledge ''bo'' ''al:bo-1'' r)) s else s\<rparr>"

lemma demo_gws_simps [exec_defs]:
  "rds demo_gws = track_pending ''bo'' ''al:bo-1'' (base64_encode ''p2'') 1 empty_redis"
  "UserConns demo_gws = (\<lambda>u. if u = ''bo'' then Some ''c1'' else None)" "ws_out demo_gws = []"
  "member_rows demo_gws = member_rows demo_world"
  "group_rows demo_gws = [\<lparr>gr_id = ''g1'', gr_name = ''G'', gr_owner = ''al'', gr_status = ''active'', gr_created_at = 1\<rparr>]"
  by (simp_all add: demo_gws_def im.defs demo_world_simps)

lemma late_retry_undoes_acknowledgement:
  "let s = snd (snd (run_state (retryOnePending demo ack_between ''bo'' ''gw|c1'' ''c1'' ''al:bo-1'' 3) (0, demo_gws))) in
     ws_out s = [(''c1'', ''p2'')] \<and> is_waiting ''bo'' (rds s) ''al:bo-1'' \<and> index_of ''bo'' (rds s) ''al:bo-1'' = None
     \<and> acknowledge ''bo'' ''al:bo-1'' (rds s) = (False, rds s)"
  by (simp add: exec_defs run_calls retryOnePending_def ack_between_def WriteBinary_def AuthorizePayload_def write_ws_def calm_def
      r_hincrby_def track_pending_def acknowledge_def on_rds_def on_rds_res_def is_waiting_def index_of_def redis_simps Let_def cong: lazy_cong)

section \<open>Properties\<close>

text \<open>A gateway that serves events one after the other; what other goroutines and processes do meanwhile is the environment.\<close>

primrec serve_all :: "nat \<Rightarrow> cfg \<Rightarrow> bool \<Rightarrow> ws_config \<Rightarrow> ('b gws_scheme) env \<Rightarrow> gw_event list \<Rightarrow> ('b gws_scheme, unit) io" where
  "serve_all fuel h db w env [] = State_Monad.return ()"
| "serve_all fuel h db w env (ev # evs) = ignore (serve_gateway fuel h db w env ev) (serve_all fuel h db w env evs)"

text \<open>C6. Somebody who is outside a group receives none of its messages: as long as nobody lets him in again, whatever
  sequence of handshakes, pushes from the network, retry ticks and completed submissions the gateway serves,
  and whatever waits for him or is replayed, no message of the group is written to any of his connections.\<close>

theorem former_member_receives_nothing:
  assumes "relies env (silent h C uid g)" "silent h C uid g s"
    and "\<forall>ev\<in>set evs. ids_apart C uid w ev"
    and "\<forall>f. unmarshal h notice_text = Inr f \<longrightarrow> ToType f \<noteq> ''group''"
  shows "wp (serve_all fuel h db w env evs) (\<lambda>_ s'. \<forall>(c, p)\<in>set (ws_out s'). c \<in> C \<longrightarrow> \<not> group_payload h g p) s"
proof -
  have "keeps (silent h C uid g) (serve_all fuel h db w env evs)"
    using assms(3) by (induction evs) (auto intro!: keeps_rules keeps_serve_gateway [OF assms(1)] simp: assms(4))
  from keeps_wp [OF this assms(2)] show ?thesis by (rule wp_mono) (simp add: silent_def)
qed

text \<open>\<open>bo\<close> has left the group of \<open>demo_gws\<close>, and one of its messages, which was on its way, arrives for him.\<close>

definition demo_left :: gws where
  "demo_left = demo_gws\<lparr>member_rows := map (\<lambda>m. if gm_user m = ''bo'' then m\<lparr>gm_status := ''left''\<rparr> else m) (member_rows demo_gws)\<rparr>"

definition demo_push :: push_envelope where
  "demo_push = \<lparr>pe_Kind = [], pe_TargetID = ''bo'', pe_MessageID = ''g1-1'', pe_SessionID = ''group:g1'', pe_Seq = 1, pe_TraceID = ''t'',
     pe_GatewayID = ''gw'', pe_RouteValue = ''gw|c1'', pe_SentAt = 5, pe_PayloadB64 = base64_encode ''p3''\<rparr>"

definition demo_ws :: ws_config where
  "demo_ws = \<lparr>parse_origin = \<lambda>_. None, AllowedOrigins = [], AllowMissingOrigin = True, GatewayID = ''gw'', RouteTTL = 60,
     connection_id = \<lambda>n. ''c'' @ itoa (int n), logic_available = True\<rparr>"

theorem former_member_receives_nothing_witness:
  "wp (serve_all 9 demo True demo_ws (calm 9) [Arrived demo_push, RetryTick 5 3])
     (\<lambda>_ s'. \<forall>(c, p)\<in>set (ws_out s'). c \<in> {''c1''} \<longrightarrow> \<not> group_payload demo ''g1'' p) demo_left
   \<and> group_payload demo ''g1'' ''p3'' \<and> UserConns demo_left ''bo'' = Some ''c1''"
proof (intro conjI former_member_receives_nothing [where uid = "''bo''"])
  show "silent demo {''c1''} ''bo'' ''g1'' demo_left"
    by (simp add: silent_def outside_def demo_left_def demo_gws_simps demo_world_simps)
  show "\<forall>f. unmarshal demo notice_text = Inr f \<longrightarrow> ToType f \<noteq> ''group''"
    by (simp add: exec_defs notice_text_def)
qed (simp_all add: relies_def group_payload_def exec_defs demo_left_def)

text \<open>C7. A push reaches the connection its route names and no other: when the envelope carries the route of a
  connection, serving it writes to no other connection, and to none at all on another gateway, whatever fails.  On that
  gateway, when the target is connected under this name, the store is reliable and the target may receive the message
  (its frame decodes, and a group message goes to an active member), exactly the pushed text is written to the connection,
  once.\<close>

theorem push_reaches_routed_connection:
  assumes "relies env (\<lambda>s. sent_on (\<lambda>c. \<not> (c = sid \<and> g = gatewayID)) s = X)"
    and "sent_on (\<lambda>c. \<not> (c = sid \<and> g = gatewayID)) s = X"
    and "pe_RouteValue e = BuildRouteValue g sid" "routeSeparator \<notin> set g" "sid \<noteq> []"
  shows "wp (on_push h env gatewayID e) (\<lambda>_ s'. sent_on (\<lambda>c. \<not> (c = sid \<and> g = gatewayID)) s' = X) s
    \<and> (g = gatewayID \<and> g \<noteq> [] \<and> reliable env \<and> relies env (awaits_push h e sid p log) \<and> awaits_push h e sid p log s
         \<and> push_text e = Some p
       \<longrightarrow> wp (on_push h env gatewayID e) (\<lambda>_ s'. sent_on (\<lambda>c. c = sid) s' = log @ [(sid, p)]) s)"
proof (intro conjI impI)
  show "wp (on_push h env gatewayID e) (\<lambda>_ s'. sent_on (\<lambda>c. \<not> (c = sid \<and> g = gatewayID)) s' = X) s"
    by (rule keeps_wp [OF keeps_routed_push [OF assms(1)] assms(2)])
      (auto simp: assms(3) RouteMatches_Build assms(4,5), simp add: BuildRouteValue_def)
  assume live: "g = gatewayID \<and> g \<noteq> [] \<and> reliable env \<and> relies env (awaits_push h e sid p log) \<and> awaits_push h e sid p log s
     \<and> push_text e = Some p"
  then show "wp (on_push h env gatewayID e) (\<lambda>_ s'. sent_on (\<lambda>c. c = sid) s' = log @ [(sid, p)]) s"
    using assms(4) by (intro on_push_writes) (auto simp: assms(3) RouteMatches_Build)
qed

theorem push_reaches_routed_connection_witness:
  "wp (on_push demo (calm 9) ''gw'' demo_push) (\<lambda>_ s'. sent_on (\<lambda>c. \<not> (c = ''c1'' \<and> ''gw'' = ''gw'')) s' = []) demo_gws
   \<and> wp (on_push demo (calm 9) ''gw'' demo_push) (\<lambda>_ s'. sent_on (\<lambda>c. c = ''c1'') s' = [(''c1'', ''p3'')]) demo_gws"
proof -
  have await: "awaits_push demo demo_push ''c1'' ''p3'' [] demo_gws" "push_text demo_push = Some ''p3''"
    by (simp_all add: awaits_push_def sent_on_def may_receive_def active_memberships_def push_text_def demo_push_def exec_defs)
  have route: "pe_RouteValue demo_push = BuildRouteValue ''gw'' ''c1''" "routeSeparator \<notin> set ''gw''"
    by (simp_all add: demo_push_def BuildRouteValue_def routeSeparator_def)
  show ?thesis
    using push_reaches_routed_connection [where env = "calm 9" and s = demo_gws and X = "[]" and h = demo and gatewayID = "''gw''"
        and e = demo_push and g = "''gw''" and sid = "''c1''" and p = "''p3''" and log = "[]", OF _ _ route] await
    by (simp add: sent_on_def demo_gws_simps)
qed

text \<open>C8. A session is replayed only to those who take part in it: while a user is neither one of the two people of a
  conversation nor an active member of its group, a handshake that asks for it is refused before anything is
  written, and a heartbeat that asks for it ends the connection without a single message.\<close>

theorem forbidden_session_replays_nothing:
  fixes env :: "'b gws_scheme env"
  assumes "relies env (\<lambda>s. \<not> participates uid sid s \<and> ws_out s = X)" "\<not> participates uid sid s \<and> ws_out s = X" "sid \<noteq> []"
  shows "(wr_UserID r = uid \<and> wr_SessionID r = sid \<longrightarrow>
       wp (WebSocketHandler fuel h db w env r) (\<lambda>e s'. (\<exists>n. e = WsRefused n) \<and> ws_out s' = X) s)
     \<and> (SessionId f = sid \<longrightarrow> wp (heartbeat fuel h db env uid c v ttl f) (\<lambda>e s'. e = Leave \<and> ws_out s' = X) s)"
proof (intro conjI impI)
  let ?I = "\<lambda>s :: 'b gws_scheme. \<not> participates uid sid s \<and> ws_out s = X"
  have refused: "wp (State_Monad.bind (authorizeReplaySession db env uid sid) (case_sum (\<lambda>_. State_Monad.return e0) k)) (\<lambda>e s'. e = e0 \<and> ws_out s' = X) s1"
    if "?I s1" for k :: "unit \<Rightarrow> ('b gws_scheme, 'e) io" and e0 s1
    by (rule wp_bindI [OF wp_authorizeReplaySession [OF assms(1) that assms(3)]]) (auto intro: wp_return split: sum.split)
  show "wp (WebSocketHandler fuel h db w env r) (\<lambda>e s'. (\<exists>n. e = WsRefused n) \<and> ws_out s' = X) s"
    if "wr_UserID r = uid \<and> wr_SessionID r = sid"
  proof -
    from that have r: "wr_UserID r = uid" "wr_SessionID r = sid" by simp_all
    show ?thesis
      unfolding WebSocketHandler_def r
      by (intro wp_if wp_return wp_mono [OF refused [OF assms(2)]]) (use assms(2) in auto)
  qed
  show "wp (heartbeat fuel h db env uid c v ttl f) (\<lambda>e s'. e = Leave \<and> ws_out s' = X) s" if "SessionId f = sid"
  proof -
    have refresh: "keeps ?I (RefreshRouteIfMatch env uid v ttl)"
      unfolding RefreshRouteIfMatch_def
      by (intro keeps_rules keeps_exec [OF assms(1)]) (auto simp: participates_def on_rds_res_def split: prod.splits)
    have "SessionId f = sid \<and> (SessionId f = []) = False" using that assms(3) by simp
    then show ?thesis
      unfolding heartbeat_def Let_def
      by (intro wp_bindI [OF keeps_wp [OF refresh assms(2)]])
        (simp split: sum.split bool.split add: assms(3) wp_return refused)
  qed
qed

theorem forbidden_session_replays_nothing_witness:
  "wp (WebSocketHandler 9 demo True demo_ws (calm 9) \<lparr>wr_UserID = ''bo'', wr_SessionID = ''group:g1'', wr_LastSeq = ''0'', wr_Origin = [],
        wr_Upgrades = True, wr_Frames = []\<rparr>) (\<lambda>e s'. (\<exists>n. e = WsRefused n) \<and> ws_out s' = []) demo_left
   \<and> wp (heartbeat 9 demo True (calm 9) ''bo'' ''c1'' ''gw|c1'' 60 (demo_group\<lparr>SessionId := ''group:g1''\<rparr>)) (\<lambda>e s'. e = Leave \<and> ws_out s' = []) demo_left"
  using forbidden_session_replays_nothing [where uid = "''bo''" and sid = "''group:g1''" and X = "[]" and s = demo_left and env = "calm 9"
      and r = "\<lparr>wr_UserID = ''bo'', wr_SessionID = ''group:g1'', wr_LastSeq = ''0'', wr_Origin = [], wr_Upgrades = True, wr_Frames = []\<rparr>"
      and f = "demo_group\<lparr>SessionId := ''group:g1''\<rparr>" and fuel = 9 and h = demo and db = True and w = demo_ws and c = "''c1''" and v = "''gw|c1''" and ttl = 60]
  by (simp add: relies_def participates_def demo_left_def demo_gws_simps demo_world_simps)

end
