(* ===== verification/Replay.thy ===== *)
theory Replay
  imports Socket_Safety
begin

text \<open>
  What a connection is replayed after the handshake (internal/server/sync.go, called by
  cmd/gateway/internal/handler/websockethandler.go), with the payload check every connection of the gateway has.  A
  message that waits for the user reaches his new connection, and the replay of the message table writes exactly the
  missing messages he may receive.
\<close>

section \<open>Waiting messages\<close>

text \<open>The message waits with the encoded payload, the user may receive it, and every waiting payload of his decodes.\<close>

definition awaits_replay :: "cfg \<Rightarrow> string \<Rightarrow> string \<Rightarrow> string \<Rightarrow> string \<Rightarrow> 'b im_scheme \<Rightarrow> bool" where
  "awaits_replay h uid m e p s \<longleftrightarrow> pending_with uid m e s \<and> may_receive h uid p s \<and> index_readable (decodable h) uid s"

lemma awaits_replay_view:
  "hashes (rds s') (AckIndexKey uid) = hashes (rds s) (AckIndexKey uid) \<Longrightarrow> zsets (rds s') (PendingAckKey uid) = zsets (rds s) (PendingAckKey uid)
   \<Longrightarrow> member_rows s' = member_rows s \<Longrightarrow> group_rows s' = group_rows s \<Longrightarrow> awaits_replay h uid m e p s \<Longrightarrow> awaits_replay h uid m e p s'"
  by (auto simp: awaits_replay_def pending_with_def is_waiting_def may_receive_def active_memberships_def index_readable_def split: sum.splits)

lemma keeps_awaits_ManagerAdd:
  "relies env (awaits_replay h uid m e p) \<Longrightarrow> keeps (awaits_replay h uid m e p) (ManagerAdd env u c)"
  unfolding ManagerAdd_def close_conn_def
  by (intro keeps_rules keeps_atomically) (auto elim: awaits_replay_view [rotated -1])

lemma ClaimRoute_succeeds:
  assumes "reliable env" "relies env (awaits_replay h uid m e p)" "awaits_replay h uid m e p s"
  shows "wp (ClaimRoute env u v) (\<lambda>r s'. r = Inr () \<and> awaits_replay h uid m e p s') s"
  unfolding ClaimRoute_def
  by (intro wp_bind wp_clock wp_update_up [OF assms])
     (auto elim!: awaits_replay_view [rotated -1] simp: on_rds_def claim_route_def redis_simps Let_def split: prod.split)

text \<open>What was written stays written.\<close>

interpretation written_log: connection_invariant "written conn p" h "\<lambda>_ _. True" for conn p h
proof
  fix env :: "'b gws_scheme env" and u c q
  assume env: "relies env (written conn p)"
  have "keeps (written conn p) (write_ws env c q)"
    unfolding write_ws_def by (rule keeps_update [OF env]) (auto simp: written_def)
  then show "keeps (written conn p) (write_conn h env u c q)"
    unfolding WriteBinary_def AuthorizePayload_def by (auto intro!: keeps_rules env split: sum.split)
qed (auto simp: reads_def gview_def written_def)

lemma SyncOffline_writes:
  fixes env :: "'b gws_scheme env"
  assumes env: "reliable env" "relies env (awaits_replay h uid m e p)" "relies env (written conn p)"
    and dec: "base64_decode e = Some p" and s: "awaits_replay h uid m e p s"
  shows "wp (SyncOfflineMessagesWithDB fuel h db (Some (AuthorizePayload h env uid)) env uid conn sid n) (\<lambda>_. written conn p) s"
proof -
  have pending: "wp (syncPendingMessages (Some (AuthorizePayload h env uid)) env uid conn []) (\<lambda>_. written conn p) s"
    by (rule wp_mono [OF socket_check.syncPendingMessages_writes [OF env(1,2,3) _ dec s]]) (auto simp: awaits_replay_def)
  have rest: "wp (case res of Inl e' \<Rightarrow> if \<not> db then State_Monad.return (Some (Inl e'))
                else SyncSessionMessagesAfterSeqWithDB fuel h db (Some (AuthorizePayload h env uid)) env conn sid n rep
     | Inr _ \<Rightarrow> SyncSessionMessagesAfterSeqWithDB fuel h db (Some (AuthorizePayload h env uid)) env conn sid n rep) (\<lambda>_. written conn p) s'"
    if "written conn p s'" for res rep s'
    by (rule keeps_wp [where I = "written conn p"]) (intro keeps_rules written_log.keeps_SyncSession env(3) TrueI that)+
  show ?thesis
    unfolding SyncOfflineMessagesWithDB_def
    by (rule wp_bindI [OF pending]) (use rest in \<open>auto split: prod.split\<close>)
qed

section \<open>Properties\<close>

text \<open>C15. Reconnecting replays what waits: on a reliable store, whatever other processes do, a message that
  waits for the user's acknowledgement and that he may receive (and that nobody acknowledges, and no group excludes him
  from, meanwhile) is written, decoded back to the payload it was stored with, to the connection
  whose handshake is served, although the connection checks every payload; provided that what else
  waits for him decodes to frames, since a payload the check cannot decode ends the replay.  The replay of the waiting messages itself
  succeeds.\<close>

theorem waiting_message_is_replayed:
  fixes env :: "'b gws_scheme env"
  assumes "reliable env" "relies env (awaits_replay h uid m e p)" "relies env (written conn p)"
    and "base64_decode e = Some p" "awaits_replay h uid m e p s" "wr_UserID r = uid"
  shows "wp (serve_socket fuel h db w env r conn) (\<lambda>_. written conn p) s
    \<and> wp (syncPendingMessages (Some (AuthorizePayload h env uid)) env uid conn replayed) (\<lambda>(res, _) s'. res = Inr () \<and> written conn p s') s"
proof
  note add = keeps_wp [OF keeps_awaits_ManagerAdd [OF assms(2)] assms(5)]
  note route = ClaimRoute_succeeds [OF assms(1,2)]
  note offline = SyncOffline_writes [OF assms(1-4)]
  note later = keeps_rules written_log.keeps_client_loop written_log.ends written_log.keeps_ManagerRemove
  have rest: "wp (State_Monad.bind (case res of None \<Rightarrow> State_Monad.return NoFuel | Some (Inl _) \<Rightarrow> State_Monad.return Leave
       | Some (Inr _) \<Rightarrow> StartClientLoopWithDB fuel h db env uid conn v (RouteTTL w) (wr_Frames r)) (\<lambda>e.
          ignore (ClearRouteIfMatch env uid v) (close_socket env uid conn (WsClosed e)))) (\<lambda>_. written conn p) s'"
    if "written conn p s'" for res :: "(gerr + unit) option" and v s'
    unfolding close_socket_def
    by (rule keeps_wp [where I = "written conn p"]) (intro later assms(3) TrueI that)+
  show "wp (serve_socket fuel h db w env r conn) (\<lambda>_. written conn p) s"
    unfolding serve_socket_def Let_def assms(6)
    by (rule wp_ignoreI [OF add], rule wp_bindI [OF route], assumption) (auto intro!: wp_bindI [OF offline] rest)
  show "wp (syncPendingMessages (Some (AuthorizePayload h env uid)) env uid conn replayed) (\<lambda>(res, _) s'. res = Inr () \<and> written conn p s') s"
    by (rule wp_mono [OF socket_check.syncPendingMessages_writes [OF assms(1-3) _ assms(4,5)]]) (auto simp: awaits_replay_def)
qed

theorem waiting_message_is_replayed_witness:
  "wp (serve_socket 9 demo True demo_ws (calm 9) \<lparr>wr_UserID = ''bo'', wr_SessionID = [], wr_LastSeq = [], wr_Origin = [], wr_Upgrades = True,
        wr_Frames = []\<rparr> ''c2'') (\<lambda>_. written ''c2'' ''p2'') demo_gws"
proof (rule waiting_message_is_replayed [THEN conjunct1])
  show "base64_decode (base64_encode ''p2'') = Some ''p2''" by (rule base64_roundtrip)
  show "awaits_replay demo ''bo'' ''al:bo-1'' (base64_encode ''p2'') ''p2'' demo_gws"
    by (auto simp: awaits_replay_def pending_with_def is_waiting_def may_receive_def index_readable_def decodable_def exec_defs
        track_pending_def r_hsetnx_def r_zadd_nx_def redis_simps base64_roundtrip split: if_splits)
qed simp_all

text \<open>C16. The table replay is complete and exact: on a reliable store, while the rows of the session and the user's memberships stay as they are and
  nobody else writes to the connection, with fuel for one batch of two hundred rows after the other and at most a thousand
  rows after the cursor, the replay ends without an error, and it has written to the connection exactly those
  rows after the cursor that were not replayed before and that the user may receive, in the order of their sequence
  numbers and once each.  It holds for rows that have a client message id and encode to a frame that decodes (an old row
  without the id ends the replay with an error), with distinct numbers and message ids, which the keys of the
  table give (\<open>rows_keyed_session\<close>).\<close>

theorem table_replay_exact:
  assumes "reliable env"
    and "\<And>log. relies env (replay_frame (may_receive h uid) may sid rows conn log)"
    and "rows_keyed rows" "replay_frame (may_receive h uid) may sid rows conn log s"
    and "\<forall>r\<in>set (rows_after c rows). sendable h r \<and> decodable h (row_payload h r)"
    and "length (rows_after c rows) div syncBatchSize < fuel"
    and "cnt + length (rows_after c rows) \<le> maxMySQLReplayCount \<or> rows_after c rows = []"
  shows "wp (syncMySQLMessagesAfterSeq fuel h (Some (AuthorizePayload h env uid)) env conn sid c cnt replayed) (\<lambda>res s'.
      (\<exists>replayed'. res = Some (Inr (), replayed'))
    \<and> sent_on (\<lambda>x. x = conn) s' = log @ deliveries h may conn (new_rows replayed (rows_after c rows))) s"
  by (rule wp_mono [OF socket_check.sync_mysql_exact [OF assms]]) (auto simp: replay_frame_def)

text \<open>A session of three rows, of which the user has the first.\<close>

definition demo_row :: "int \<Rightarrow> msg_row" where
  "demo_row n = (row_of_frame demo_sent)\<lparr>ms_message_id := itoa n, ms_seq := n\<rparr>"

definition demo_text :: cfg where
  "demo_text = demo\<lparr>marshal := \<lambda>f. Inr (MessageId f), unmarshal := \<lambda>p. Inr (demo_sent\<lparr>MessageId := p\<rparr>)\<rparr>"

theorem table_replay_exact_witness:
  "wp (syncMySQLMessagesAfterSeq 1 demo_text (Some (AuthorizePayload demo_text (calm 3) ''bo'')) (calm 3) ''c1'' ''al:bo'' 1 0 [])
     (\<lambda>res s'. (\<exists>replayed'. res = Some (Inr (), replayed')) \<and> sent_on (\<lambda>x. x = ''c1'') s' = [(''c1'', itoa 2), (''c1'', itoa 3)])
     (demo_gws\<lparr>msgs := [demo_row 3, demo_row 1, demo_row 2]\<rparr>)"
proof -
  let ?rows = "[demo_row 3, demo_row 1, demo_row 2]"
  have row [simp]: "ms_seq (demo_row n) = n" "ms_message_id (demo_row n) = itoa n" "ms_session_id (demo_row n) = ''al:bo''"
      "ms_client_msg_id (demo_row n) = Some ''c1''" for n
    by (simp_all add: demo_row_def row_of_frame_def demo_sent_def demo_chat_def)
  have after: "rows_after 1 ?rows = [demo_row 2, demo_row 3]"
    by (simp add: rows_after_def order_asc_def)
  have pay: "row_payload demo_text (demo_row n) = itoa n" for n
    by (simp add: row_payload_def demo_text_def frame_of_row_def)
  have "wp (syncMySQLMessagesAfterSeq 1 demo_text (Some (AuthorizePayload demo_text (calm 3) ''bo'')) (calm 3) ''c1'' ''al:bo'' 1 0 [])
     (\<lambda>res s'. (\<exists>replayed'. res = Some (Inr (), replayed'))
       \<and> sent_on (\<lambda>x. x = ''c1'') s' = [] @ deliveries demo_text (\<lambda>_. True) ''c1'' (new_rows [] (rows_after 1 ?rows))) (demo_gws\<lparr>msgs := ?rows\<rparr>)"
  proof (rule table_replay_exact)
    show "rows_keyed ?rows" by (simp add: rows_keyed_def itoa_def digits_of.simps)
    show "replay_frame (may_receive demo_text ''bo'') (\<lambda>_. True) ''al:bo'' ?rows ''c1'' [] (demo_gws\<lparr>msgs := ?rows\<rparr>)"
      by (simp add: replay_frame_def session_rows_def sent_on_def may_receive_def demo_text_def exec_defs)
  qed (simp_all add: after sendable_def decodable_def demo_text_def syncBatchSize_def maxMySQLReplayCount_def)
  then show ?thesis by (simp add: after pay new_rows_def)
qed

end
