(* ===== verification/Attachments.thy ===== *)
theory Attachments
  imports Relations Demo
begin

text \<open>
  Attachments of group messages: internal/attachment/store.go (upload and authorised reading), the S3 store of
  internal/attachment/object_store.go, and the two HTTP handlers of
  cmd/gateway/internal/handler/attachmentroutes.go.  The temporary file of an upload belongs to the call alone and is
  removed when it returns, so its content is a value; the directory of finished files and the bucket are part of the state.
  SHA-256, \<open>http.DetectContentType\<close>, \<open>mime.FormatMediaType\<close> and the random ids are parameters.
\<close>

section \<open>State and configuration\<close>

record file_store = im +
  files :: "string \<Rightarrow> string option"
  objects :: "string \<Rightarrow> (string \<times> string) option"
  bucket_made :: bool

record upload_cfg =
  up_Configured :: bool
  has_Objects :: bool
  random_id :: "nat \<Rightarrow> string"
  sha256 :: "string \<Rightarrow> string"
  DetectContentType :: "string \<Rightarrow> string"
  ContentDisposition :: "string \<Rightarrow> string"

definition MaxUploadBytes :: nat where
  "MaxUploadBytes = 25 * 2 ^ 20"

record metadata =
  md_ID :: string
  md_GroupID :: string
  md_Name :: string
  md_MIME :: string
  md_Size :: int
  md_SHA256 :: string
  md_Uploaded :: string

text \<open>A reader: the bytes it yields, and whether reading past them fails instead of reporting the end.\<close>

record upload_source =
  us_Bytes :: string
  us_Fails :: bool

section \<open>File types\<close>

definition allowed :: "string \<Rightarrow> string \<Rightarrow> bool" where
  "allowed name detected =
     (let ext = to_lower (path_ext name) in
      if has_prefix detected ''image/'' then ext \<in> {''.png'', ''.jpg'', ''.jpeg'', ''.gif'', ''.webp''}
      else if has_prefix detected ''video/'' then ext \<in> {''.mp4'', ''.webm'', ''.mov''}
      else if ext = ''.pdf'' then detected = ''application/pdf''
      else if ext \<in> {''.txt'', ''.md'', ''.csv''} then has_prefix detected ''text/''
      else if ext \<in> {''.docx'', ''.xlsx'', ''.pptx''} then detected = ''application/zip''
      else False)"

section \<open>The stores\<close>

text \<open>A call on the temporary file or its directory, which may fail but leaves nothing behind.\<close>

definition fs_call :: "'w env \<Rightarrow> ('w, gerr + unit) io" where
  "fs_call env = update_w env (\<lambda>s. s)"

definition put_file :: "string \<Rightarrow> string \<Rightarrow> 'b file_store_scheme \<Rightarrow> 'b file_store_scheme" where
  "put_file name data s = s\<lparr>files := (files s)(name := Some data)\<rparr>"

definition remove_file :: "string \<Rightarrow> 'b file_store_scheme \<Rightarrow> 'b file_store_scheme" where
  "remove_file name s = s\<lparr>files := (files s)(name := None)\<rparr>"

definition PutObject :: "('b file_store_scheme) env \<Rightarrow> string \<Rightarrow> string \<Rightarrow> string \<Rightarrow> ('b file_store_scheme, gerr + unit) io" where
  "PutObject env key data mime =
     then_ok (query env bucket_made) (\<lambda>exists.
     then_ok (if exists then ok ()
              else State_Monad.bind (update_w env (\<lambda>s. s\<lparr>bucket_made := True\<rparr>)) (\<lambda>r. case r of
                Inl e \<Rightarrow> State_Monad.bind (query env bucket_made) (\<lambda>again. if again = Inr True then ok () else err e)
              | Inr _ \<Rightarrow> ok ())) (\<lambda>_.
     update_w env (\<lambda>s. s\<lparr>objects := (objects s)(key := Some (data, mime))\<rparr>)))"

definition DeleteObject :: "('b file_store_scheme) env \<Rightarrow> string \<Rightarrow> ('b file_store_scheme, gerr + unit) io" where
  "DeleteObject env key = update_w env (\<lambda>s. s\<lparr>objects := (objects s)(key := None)\<rparr>)"

definition file_missing :: gerr where
  "file_missing = Msg ''no such file or directory''"

definition OpenObject :: "('b file_store_scheme) env \<Rightarrow> string \<Rightarrow> ('b file_store_scheme, gerr + string) io" where
  "OpenObject env key = then_ok (query env (\<lambda>s. objects s key)) (\<lambda>found. case found of
     None \<Rightarrow> err (Msg ''The specified key does not exist.'') | Some (data, _) \<Rightarrow> ok data)"

definition open_file :: "('b file_store_scheme) env \<Rightarrow> string \<Rightarrow> ('b file_store_scheme, gerr + string) io" where
  "open_file env name = then_ok (query env (\<lambda>s. files s name)) (\<lambda>found. case found of
     None \<Rightarrow> err file_missing | Some data \<Rightarrow> ok data)"

section \<open>Upload\<close>

text \<open>The temporary file: creating it, copying at most one byte more than allowed, sniffing, flushing.\<close>

definition receive_upload :: "upload_cfg \<Rightarrow> ('b file_store_scheme) env \<Rightarrow> string \<Rightarrow> upload_source
    \<Rightarrow> ('b file_store_scheme, gerr + string \<times> string) io" where
  "receive_upload c env name src =
     then_ok (fs_call env) (\<lambda>_. then_ok (fs_call env) (\<lambda>_. then_ok (fs_call env) (\<lambda>_.
     let content = take (MaxUploadBytes + 1) (us_Bytes src); size = length content in
     if us_Fails src \<and> size \<le> MaxUploadBytes then err (Msg ''unexpected EOF'')
     else if size = 0 \<or> size > MaxUploadBytes then err (Msg (''file must be between 1 byte and '' @ itoa (int MaxUploadBytes) @ '' bytes''))
     else then_ok (fs_call env) (\<lambda>_. State_Monad.bind (query env (\<lambda>_. take 512 content)) (\<lambda>sniff.
       let mimeType = DetectContentType c (case sniff of Inr b \<Rightarrow> b | Inl _ \<Rightarrow> []) in
       if \<not> allowed name mimeType then err (Msg ''unsupported file type'')
       else then_ok (fs_call env) (\<lambda>_. then_ok (fs_call env) (\<lambda>_. ok (content, mimeType))))))))"

definition object_key :: "string \<Rightarrow> string \<Rightarrow> string" where
  "object_key groupID i = ''community/'' @ groupID @ ''/'' @ i"

text \<open>Moving the file to its place, and on to the object store when there is one; the result is the storage key.\<close>

definition place_upload :: "upload_cfg \<Rightarrow> ('b file_store_scheme) env \<Rightarrow> string \<Rightarrow> string \<Rightarrow> string \<Rightarrow> string
    \<Rightarrow> ('b file_store_scheme, gerr + string) io" where
  "place_upload c env groupID i content mimeType =
     then_ok (update_w env (put_file i content)) (\<lambda>_.
     if \<not> has_Objects c then ok i
     else then_ok (open_file env i) (\<lambda>data.
       let storageKey = ''s3:'' @ object_key groupID i in
       State_Monad.bind (PutObject env (trim_prefix storageKey ''s3:'') data mimeType) (\<lambda>put.
       ignore (update_w env (remove_file i)) (case put of Inl e \<Rightarrow> err e | Inr _ \<Rightarrow> ok storageKey))))"

definition attachment_keys :: "attachment_row unique_key list" where
  "attachment_keys = [(''attachments.PRIMARY'', \<lambda>a b. at_id a = at_id b),
     (''attachments.uk_attachment_storage_key'', \<lambda>a b. at_storage_key a = at_storage_key b)]"

text \<open>The row; when it cannot be inserted, what was stored is removed again.\<close>

definition record_upload :: "upload_cfg \<Rightarrow> ('b file_store_scheme) env \<Rightarrow> metadata \<Rightarrow> string \<Rightarrow> ('b file_store_scheme, gerr + metadata) io" where
  "record_upload c env meta storageKey =
     State_Monad.bind (clock env) (\<lambda>now.
     State_Monad.bind (exec env (run_insert attachments attachments_update (ins attachment_keys
        \<lparr>at_id = md_ID meta, at_group = md_GroupID meta, at_uploader = md_Uploaded meta, at_file_name = md_Name meta,
         at_mime = md_MIME meta, at_size = md_Size meta, at_sha256 = md_SHA256 meta, at_storage_key = storageKey,
         at_status = ''ready'', at_created_at = now\<rparr>))) (\<lambda>r. case r of
       Inl e \<Rightarrow> ignore (update_w env (remove_file (md_ID meta)))
         (ignore (if has_Objects c then DeleteObject env (trim_prefix storageKey ''s3:'') else ok ()) (err e))
     | Inr _ \<Rightarrow> ok meta))"

definition Upload :: "upload_cfg \<Rightarrow> ('b file_store_scheme) env \<Rightarrow> string \<Rightarrow> string \<Rightarrow> string \<Rightarrow> upload_source
    \<Rightarrow> ('b file_store_scheme, gerr + metadata) io" where
  "Upload c env userID groupID filename src =
     (if \<not> up_Configured c then err (Msg ''attachment storage is not configured'')
      else if userID = [] \<or> groupID = [] then err (Msg ''group and user are required'')
      else then_ok (query env (\<lambda>s. length (filter (\<lambda>m. gm_group m = groupID \<and> gm_user m = userID \<and> gm_status m = ''active'') (member_rows s)))) (\<lambda>active.
        if active = 0 then err ErrForbidden
        else let name = path_base (trim_space filename) in
        if name = [] \<or> length name > 200 \<or> CHR 0x00 \<in> set name then err (Msg ''invalid file name'')
        else State_Monad.bind (draw (random_id c)) (\<lambda>raw. let i = hex_encode raw in
          then_ok (receive_upload c env name src) (\<lambda>(content, mimeType).
          then_ok (place_upload c env groupID i content mimeType) (\<lambda>storageKey.
          record_upload c env \<lparr>md_ID = i, md_GroupID = groupID, md_Name = name, md_MIME = mimeType, md_Size = int (length content),
              md_SHA256 = hex_encode (sha256 c content), md_Uploaded = userID\<rparr> storageKey)))))"

section \<open>Reading\<close>

definition readable :: "string \<Rightarrow> string \<Rightarrow> 'b im_scheme \<Rightarrow> attachment_row option" where
  "readable userID i s = find (\<lambda>a. at_id a = i \<and> at_status a = ''ready''
     \<and> list_ex (\<lambda>m. gm_group m = at_group a \<and> gm_user m = userID \<and> gm_status m = ''active'') (member_rows s)) (attachments s)"

definition metadata_of :: "attachment_row \<Rightarrow> metadata" where
  "metadata_of a = \<lparr>md_ID = at_id a, md_GroupID = at_group a, md_Name = at_file_name a, md_MIME = at_mime a,
     md_Size = at_size a, md_SHA256 = at_sha256 a, md_Uploaded = at_uploader a\<rparr>"

definition AuthorizedFile :: "upload_cfg \<Rightarrow> ('b file_store_scheme) env \<Rightarrow> string \<Rightarrow> string \<Rightarrow> ('b file_store_scheme, gerr + metadata \<times> string) io" where
  "AuthorizedFile c env userID i =
     then_ok (query env (readable userID i)) (\<lambda>found. case found of
       None \<Rightarrow> err ErrForbidden
     | Some a \<Rightarrow> let key = at_storage_key a; answer = (\<lambda>data. ok (metadata_of a, data)) in
         if has_prefix key ''s3:'' then
           (if \<not> has_Objects c then err (Msg ''object store not configured'')
            else then_ok (OpenObject env (trim_prefix key ''s3:'')) answer)
         else if path_base key \<noteq> key \<or> key = [] then err (Msg ''invalid storage key'')
         else then_ok (open_file env key) answer)"

section \<open>The handlers\<close>

text \<open>An upload request after routing: whether its form parses within the size limit, and the file in it.\<close>

record upload_request =
  ur_GroupID :: string
  ur_FormParses :: bool
  ur_File :: "(string \<times> upload_source) option"

definition uploadAttachment :: "upload_cfg \<Rightarrow> ('b file_store_scheme) env \<Rightarrow> string \<Rightarrow> upload_request \<Rightarrow> ('b file_store_scheme, int \<times> metadata option) io" where
  "uploadAttachment c env userID r =
     (if ur_GroupID r = [] \<or> \<not> ur_FormParses r then State_Monad.return (400, None)
      else case ur_File r of None \<Rightarrow> State_Monad.return (400, None)
      | Some (filename, src) \<Rightarrow>
          State_Monad.bind (Upload c env userID (ur_GroupID r) (path_base filename) src) (\<lambda>res. State_Monad.return (case res of
            Inl e \<Rightarrow> (if err_is e ErrForbidden then 403 else 400, None) | Inr meta \<Rightarrow> (200, Some meta))))"

record download_reply =
  dr_Status :: int
  dr_Headers :: "(string \<times> string) list"
  dr_Body :: string

definition downloadAttachment :: "upload_cfg \<Rightarrow> ('b file_store_scheme) env \<Rightarrow> string \<Rightarrow> string \<Rightarrow> ('b file_store_scheme, download_reply) io" where
  "downloadAttachment c env userID i =
     State_Monad.bind (AuthorizedFile c env userID i) (\<lambda>res. State_Monad.return (case res of
       Inl e \<Rightarrow> \<lparr>dr_Status = (if err_is e ErrForbidden then 403 else 404), dr_Headers = [], dr_Body = ''attachment unavailable''\<rparr>
     | Inr (meta, data) \<Rightarrow> \<lparr>dr_Status = 200, dr_Headers = [(''Content-Type'', md_MIME meta), (''Content-Length'', itoa (md_Size meta)),
           (''Content-Disposition'', ContentDisposition c (md_Name meta)), (''X-Content-Type-Options'', ''nosniff''),
           (''Cache-Control'', ''private, no-store'')], dr_Body = data\<rparr>))"

section \<open>Names of finished files\<close>

lemma hex_not_s3 [simp]: "\<not> has_prefix (hex_encode s) ''s3:''"
  using hex_encode_chars [of "CHR ''s''" s] by (auto simp: has_prefix_def prefix_def)

lemma path_base_hex [simp]: "s \<noteq> [] \<Longrightarrow> path_base (hex_encode s) = hex_encode s"
  using hex_encode_chars [of "CHR ''/''" s] by (intro path_base_plain) auto

lemma trim_prefix_append [simp]: "trim_prefix (p @ s) p = s"
  by (simp add: trim_prefix_def has_prefix_def)

lemma trim_s3 [simp]: "trim_prefix (CHR ''s'' # CHR ''3'' # CHR '':'' # s) ''s3:'' = s"
  using trim_prefix_append [of "''s3:''" s] by simp

section \<open>What the rows promise\<close>

definition stored_content :: "string \<Rightarrow> 'b file_store_scheme \<Rightarrow> string option" where
  "stored_content key s = (if has_prefix key ''s3:'' then map_option fst (objects s (trim_prefix key ''s3:'')) else files s key)"

definition holds_content :: "upload_cfg \<Rightarrow> attachment_row \<Rightarrow> 'b file_store_scheme \<Rightarrow> bool" where
  "holds_content c a s \<longleftrightarrow> (\<exists>data. stored_content (at_storage_key a) s = Some data \<and> data \<noteq> [] \<and> length data \<le> MaxUploadBytes
     \<and> at_size a = int (length data) \<and> at_sha256 a = hex_encode (sha256 c data))"

definition attachments_stored :: "upload_cfg \<Rightarrow> 'b file_store_scheme \<Rightarrow> bool" where
  "attachments_stored c s \<longleftrightarrow> distinct (map at_id (attachments s)) \<and> (\<forall>a\<in>set (attachments s). holds_content c a s)"

text \<open>An id whose places nobody uses, and what lies there.\<close>

definition reserved :: "upload_cfg \<Rightarrow> string \<Rightarrow> string \<Rightarrow> string option \<Rightarrow> (string \<times> string) option \<Rightarrow> 'b file_store_scheme \<Rightarrow> bool" where
  "reserved c g i v w s \<longleftrightarrow> attachments_stored c s \<and> files s i = v \<and> objects s (object_key g i) = w
     \<and> (\<forall>a\<in>set (attachments s). at_storage_key a \<noteq> i \<and> at_storage_key a \<noteq> ''s3:'' @ object_key g i)"

text \<open>
  The other processes keep what the rows promise, and leave the places of the ids this process draws alone.
\<close>

definition store_rely :: "upload_cfg \<Rightarrow> string \<Rightarrow> 'b file_store_scheme env \<Rightarrow> bool" where
  "store_rely c g env \<longleftrightarrow> (\<forall>n v w. relies env (reserved c g (hex_encode (random_id c n)) v w))"

definition no_lost :: "'w env \<Rightarrow> bool" where
  "no_lost env \<longleftrightarrow> (\<forall>n. fault env n \<noteq> Lost)"

lemma wp_exec_kept:
  assumes "no_lost env" "relies env I" "I w" "\<And>w'. I w' \<Longrightarrow> Q (Inl IoErr) w'"
    and "\<And>w' r w2. I w' \<Longrightarrow> opn w' = (r, w2) \<Longrightarrow> Q r w2"
  shows "wp (exec env opn) Q w"
proof (rule wpI)
  fix n a n' w'
  assume run: "run_state (exec env opn) (n, w) = (a, (n', w'))"
  have "I (interfere env n w)" using assms(2,3) by (simp add: relies_def)
  with assms(4,5) run assms(1) [unfolded no_lost_def, rule_format, of n] show "Q a w'"
    by (auto simp: exec_def Let_def split: outcome.splits prod.splits)
qed

lemma wp_update_kept:
  "no_lost env \<Longrightarrow> relies env I \<Longrightarrow> I w \<Longrightarrow> (\<And>w'. I w' \<Longrightarrow> Q (Inl IoErr) w') \<Longrightarrow> (\<And>w'. I w' \<Longrightarrow> Q (Inr ()) (g w'))
   \<Longrightarrow> wp (update_w env g) Q w"
  unfolding update_w_def by (rule wp_exec_kept [where I = I]) auto

lemma stored_content_simps [simp]:
  "stored_content key (put_file i d s) = (if \<not> has_prefix key ''s3:'' \<and> key = i then Some d else stored_content key s)"
  "stored_content key (remove_file i s) = (if \<not> has_prefix key ''s3:'' \<and> key = i then None else stored_content key s)"
  "stored_content key (s\<lparr>bucket_made := b\<rparr>) = stored_content key s"
  "stored_content key (s\<lparr>attachments := rows\<rparr>) = stored_content key s"
  by (auto simp: stored_content_def put_file_def remove_file_def)

lemma stored_content_object:
  "key \<noteq> ''s3:'' @ k \<Longrightarrow> stored_content key (s\<lparr>objects := (objects s)(k := x)\<rparr>) = stored_content key s"
  by (auto simp: stored_content_def trim_prefix_def has_prefix_def elim: prefixE)

lemma reserved_simps:
  "reserved c g i v w s \<Longrightarrow> reserved c g i (Some d) w (put_file i d s)"
  "reserved c g i v w s \<Longrightarrow> reserved c g i None w (remove_file i s)"
  "reserved c g i v w s \<Longrightarrow> reserved c g i v w (s\<lparr>bucket_made := b\<rparr>)"
  "reserved c g i v w s \<Longrightarrow> reserved c g i v w' (s\<lparr>objects := (objects s)(object_key g i := w')\<rparr>)"
  unfolding reserved_def attachments_stored_def holds_content_def
  by (simp_all add: stored_content_object) (simp_all add: put_file_def remove_file_def)

section \<open>Uploads keep the promise\<close>

definition undisturbed :: "upload_cfg \<Rightarrow> string \<Rightarrow> string \<Rightarrow> 'b file_store_scheme env \<Rightarrow> bool" where
  "undisturbed c g i env \<longleftrightarrow> no_lost env \<and> (\<forall>v w. relies env (reserved c g i v w))"

lemma undisturbedD: "undisturbed c g i env \<Longrightarrow> no_lost env" "undisturbed c g i env \<Longrightarrow> relies env (reserved c g i v w)"
  by (simp_all add: undisturbed_def)

lemma wp_fs: "undisturbed c g i env \<Longrightarrow> reserved c g i v w s \<Longrightarrow> wp (fs_call env) (\<lambda>_. reserved c g i v w) s"
  unfolding fs_call_def by (rule wp_update_kept [OF undisturbedD]) auto

lemma wp_receive_upload:
  assumes u: "undisturbed c g i env" and "reserved c g i v w s"
  shows "wp (receive_upload c env name src) (\<lambda>r s'. reserved c g i v w s' \<and>
     (\<forall>content mime. r = Inr (content, mime) \<longrightarrow> content = us_Bytes src \<and> content \<noteq> [] \<and> length content \<le> MaxUploadBytes)) s"
proof -
  note fs = wp_then_okI [OF wp_fs [OF u]]
  let ?content = "take (MaxUploadBytes + 1) (us_Bytes src)"
  have whole: "?content = us_Bytes src" if "\<not> MaxUploadBytes < length ?content" using that by auto
  have rest: "wp (if \<not> allowed name m then err e else then_ok (fs_call env) (\<lambda>_. then_ok (fs_call env) (\<lambda>_. ok (?content, m))))
      (\<lambda>r s'. reserved c g i v w s' \<and> (\<forall>content mime. r = Inr (content, mime) \<longrightarrow> content = us_Bytes src \<and> content \<noteq> []
         \<and> length content \<le> MaxUploadBytes)) s1"
    if "reserved c g i v w s1" "length ?content \<noteq> 0" "\<not> MaxUploadBytes < length ?content" for m e s1
    apply (rule wp_if, rule wp_err, simp add: that(1))
    apply (rule fs [OF that(1)], simp, rule fs, assumption, simp, rule wp_ok)
    using that whole by auto
  show ?thesis
    unfolding receive_upload_def Let_def
    apply (rule fs [OF assms(2)], simp, rule fs, assumption, simp, rule fs, assumption, simp)
    apply (rule wp_if, rule wp_err, simp, rule wp_if, rule wp_err, simp)
    apply (rule fs, assumption, simp)
    apply (rule wp_bind, rule wp_query_stable [OF undisturbedD(2) [OF u]], assumption)
     apply (rule rest, assumption, simp, simp)+
    done
qed

lemma wp_PutObject:
  assumes u: "undisturbed c g i env" and "reserved c g i v w s"
  shows "wp (PutObject env (object_key g i) data mime) (\<lambda>r s'. \<exists>w'. reserved c g i v w' s' \<and> (r = Inr () \<longrightarrow> w' = Some (data, mime))) s"
  unfolding PutObject_def
  apply (rule wp_then_okI [where R = "\<lambda>_. reserved c g i v w"])
    apply (rule wp_query_stable [OF undisturbedD(2) [OF u] assms(2)], assumption, assumption)
   apply blast
  apply (rule wp_then_okI [where R = "\<lambda>_. reserved c g i v w"])
    apply (rule wp_if, rule wp_ok, assumption)
    apply (rule wp_bind, rule wp_update_kept [OF undisturbedD [OF u]], assumption)
     apply simp
     apply (rule wp_bind, rule wp_query_stable [OF undisturbedD(2) [OF u]], assumption)
      apply (auto intro!: wp_err wp_ok) [1]
     apply (auto intro!: wp_err wp_ok) [1]
    apply (auto intro!: wp_ok reserved_simps) [1]
   apply blast
  apply (rule wp_update_kept [OF undisturbedD [OF u]], assumption)
   apply blast
  apply (blast intro: reserved_simps)
  done

lemma wp_open_file:
  assumes u: "undisturbed c g i env" and "reserved c g i (Some d) w s"
  shows "wp (open_file env i) (\<lambda>r s'. reserved c g i (Some d) w s' \<and> (\<forall>x. r = Inr x \<longrightarrow> x = d)) s"
  unfolding open_file_def
  apply (rule wp_then_okI [where R = "\<lambda>r s'. reserved c g i (Some d) w s' \<and> (\<forall>x. r = Inr x \<longrightarrow> x = Some d)"])
    apply (rule wp_query_stable [OF undisturbedD(2) [OF u] assms(2)], simp, simp add: reserved_def)
   apply simp
  apply (auto intro: wp_ok)
  done

lemma wp_place_upload:
  assumes u: "undisturbed c g i env" and "reserved c g i v w s" and i: "\<not> has_prefix i ''s3:''"
  shows "wp (place_upload c env g i content mime) (\<lambda>r s'. (\<exists>v w. reserved c g i v w s') \<and>
     (\<forall>key. r = Inr key \<longrightarrow> (key = i \<or> key = ''s3:'' @ object_key g i) \<and>
        (if has_Objects c then \<exists>v. key = ''s3:'' @ object_key g i \<and> reserved c g i v (Some (content, mime)) s'
         else key = i \<and> (\<exists>w. reserved c g i (Some content) w s')))) s"
proof -
  note r = undisturbedD(2) [OF u]
  have remove: "wp (ignore (update_w env (remove_file i)) (case put of Inl e \<Rightarrow> err e | Inr _ \<Rightarrow> ok (''s3:'' @ object_key g i)))
      (\<lambda>r s'. (\<exists>v w. reserved c g i v w s') \<and> (\<forall>key. r = Inr key \<longrightarrow> key = ''s3:'' @ object_key g i \<and>
         (\<exists>v. reserved c g i v (Some (content, mime)) s'))) s1"
    if "reserved c g i v1 w1 s1" "put = Inr () \<longrightarrow> w1 = Some (content, mime)" for put v1 w1 s1
    apply (rule wp_ignoreI [where R = "\<lambda>_ s'. \<exists>v. reserved c g i v w1 s'"])
     apply (rule wp_update_kept [OF undisturbedD(1) [OF u] r that(1)], blast, blast intro: reserved_simps)
    using that(2) by (auto intro!: wp_err wp_ok split: sum.split)
  show ?thesis
    unfolding place_upload_def Let_def trim_prefix_append
    apply (rule wp_then_okI [where R = "\<lambda>r s'. (\<exists>v. reserved c g i v w s') \<and> (r = Inr () \<longrightarrow> reserved c g i (Some content) w s')"])
      apply (rule wp_update_kept [OF undisturbedD(1) [OF u] r assms(2)], auto intro: reserved_simps) [1]
     apply blast
    apply (rule wp_if, rule wp_ok, auto) [1]
    apply (rule wp_then_okI [OF wp_open_file [OF u]], blast, blast)
    apply (rule wp_bindI, rule wp_PutObject [OF u], blast)
    apply (elim exE conjE)
    apply (rule wp_mono, rule remove, assumption, simp, simp)
    done
qed

lemma clash_attachment_None:
  "clash attachment_keys a rows = None \<Longrightarrow> b \<in> set rows \<Longrightarrow> at_id a \<noteq> at_id b \<and> at_storage_key a \<noteq> at_storage_key b"
  by (auto simp: clash_def attachment_keys_def list_ex_iff split: if_splits)

lemma reserved_row:
  assumes "reserved c g i v w s" "clash attachment_keys a (attachments s) = None" "holds_content c a s"
  shows "attachments_stored c (s\<lparr>attachments := attachments s @ [a]\<rparr>)"
proof -
  have "holds_content c b (s\<lparr>attachments := rows\<rparr>) = holds_content c b s" for b rows
    by (simp add: holds_content_def)
  moreover have "at_id a \<notin> at_id ` set (attachments s)" using clash_attachment_None [OF assms(2)] by fastforce
  ultimately show ?thesis using assms by (auto simp: attachments_stored_def reserved_def)
qed

text \<open>The row of an upload: whose it is, and its content.\<close>

definition row_of_upload :: "string \<Rightarrow> string \<Rightarrow> string \<Rightarrow> metadata \<Rightarrow> attachment_row \<Rightarrow> 'b file_store_scheme \<Rightarrow> bool" where
  "row_of_upload u g data m a s \<longleftrightarrow> a \<in> set (attachments s) \<and> metadata_of a = m \<and> at_status a = ''ready'' \<and> at_group a = g
     \<and> at_uploader a = u \<and> stored_content (at_storage_key a) s = Some data
     \<and> (if has_prefix (at_storage_key a) ''s3:'' then True else path_base (at_storage_key a) = at_storage_key a \<and> at_storage_key a \<noteq> [])"

lemma wp_record_upload:
  assumes u: "undisturbed c g (md_ID m) env" and "reserved c g (md_ID m) v w s"
    and key: "if has_Objects c then key = ''s3:'' @ object_key g (md_ID m) \<and> w = Some (data, mime) else key = md_ID m \<and> v = Some data"
    and m: "md_GroupID m = g" "md_Size m = int (length data)" "md_SHA256 m = hex_encode (sha256 c data)"
    and data: "data \<noteq> []" "length data \<le> MaxUploadBytes"
    and i: "\<not> has_prefix (md_ID m) ''s3:''" "path_base (md_ID m) = md_ID m" "md_ID m \<noteq> []"
  shows "wp (record_upload c env m key) (\<lambda>r s'. attachments_stored c s' \<and> (\<forall>m'. r = Inr m' \<longrightarrow> m' = m \<and> (\<exists>a. row_of_upload (md_Uploaded m) g data m a s'))) s"
proof -
  let ?I = "\<lambda>s'. \<exists>v w. reserved c g (md_ID m) v w s'"
  let ?Q = "\<lambda>r s'. attachments_stored c s' \<and> (\<forall>m'. r = Inr m' \<longrightarrow> m' = m \<and> (\<exists>a. row_of_upload (md_Uploaded m) g data m a s'))"
  note r = undisturbedD(2) [OF u]
  have stable: "relies env ?I" using r by (fastforce simp: relies_def)
  have kept: "attachments_stored c s'" if "?I s'" for s' using that by (auto simp: reserved_def)
  have key': "trim_prefix key ''s3:'' = object_key g (md_ID m)" if "has_Objects c"
    using key that trim_prefix_append by metis
  have undo: "wp (ignore (update_w env (remove_file (md_ID m))) (ignore (if has_Objects c then DeleteObject env (trim_prefix key ''s3:'') else ok ()) (err e)))
      ?Q s1" if "?I s1" for e s1
    apply (rule wp_ignoreI [where R = "\<lambda>_. ?I"])
     apply (rule wp_update_kept [OF undisturbedD(1) [OF u] stable that], assumption, blast intro: reserved_simps)
    apply (rule wp_ignoreI [where R = "\<lambda>_. ?I"])
     apply (rule wp_if)
      apply (unfold DeleteObject_def)
      apply (rule wp_update_kept [OF undisturbedD(1) [OF u] stable], assumption, assumption)
      apply (unfold key') [1]
      apply (blast intro: reserved_simps)
     apply (rule wp_ok, assumption)
    apply (rule wp_err, simp add: kept)
    done
  show ?thesis
    unfolding record_upload_def
    apply (intro wp_bind wp_clock)
    apply (rule wp_exec_kept [OF undisturbedD(1) [OF u] r assms(2)])
     apply (simp only: sum.case, rule undo, blast)
    apply (erule run_insert_cases)
     apply (simp only: sum.case, rule undo, blast)
    subgoal premises prems for t s1 res s2 rows
    proof -
      let ?a = "\<lparr>at_id = md_ID m, at_group = md_GroupID m, at_uploader = md_Uploaded m, at_file_name = md_Name m,
         at_mime = md_MIME m, at_size = md_Size m, at_sha256 = md_SHA256 m, at_storage_key = key,
         at_status = ''ready'', at_created_at = t\<rparr>"
      have content: "stored_content key s1 = Some data"
        using prems(1) key i(1) by (auto simp: reserved_def stored_content_def has_prefix_def split: if_splits)
      have free: "clash attachment_keys ?a (attachments s1) = None" and rows: "rows = attachments s1 @ [?a]"
        using prems(2) by (auto simp: ins_def split: option.splits)
      have "holds_content c ?a s1" using content m data by (simp add: holds_content_def)
      from reserved_row [OF prems(1) free this] have "attachments_stored c (s1\<lparr>attachments := rows\<rparr>)" by (simp add: rows)
      moreover have "row_of_upload (md_Uploaded m) g data m ?a (s1\<lparr>attachments := rows\<rparr>)"
        using content key i m(1) by (cases "has_Objects c") (auto simp: row_of_upload_def rows metadata_of_def has_prefix_def)
      ultimately show ?thesis using prems(3,4) by (auto intro!: wp_ok)
    qed
    done
qed

lemma wp_Upload:
  assumes rely: "store_rely c g env" and replies: "no_lost env" and ids: "\<And>n. random_id c n \<noteq> []"
    and s: "\<And>n. \<exists>v w. reserved c g (hex_encode (random_id c n)) v w s"
  shows "wp (Upload c env u g filename src) (\<lambda>r s'. attachments_stored c s' \<and>
     (\<forall>m. r = Inr m \<longrightarrow> (\<exists>a. row_of_upload u g (us_Bytes src) m a s'))) s"
proof -
  let ?I = "\<lambda>s'. \<forall>n. \<exists>v w. reserved c g (hex_encode (random_id c n)) v w s'"
  let ?Q = "\<lambda>r s'. attachments_stored c s' \<and> (\<forall>m. r = Inr m \<longrightarrow> (\<exists>a. row_of_upload u g (us_Bytes src) m a s'))"
  let ?meta = "\<lambda>raw content mime name. \<lparr>md_ID = hex_encode raw, md_GroupID = g, md_Name = name, md_MIME = mime,
     md_Size = int (length content), md_SHA256 = hex_encode (sha256 c content), md_Uploaded = u\<rparr>"
  have stable: "relies env ?I" using rely by (fastforce simp: store_rely_def relies_def)
  have stop: "wp (err e) ?Q s1" if "?I s1" for e s1 using that by (auto simp: reserved_def intro: wp_err)
  have body: "wp (then_ok (receive_upload c env name src) (\<lambda>(content, mime).
      then_ok (place_upload c env g (hex_encode (random_id c n)) content mime)
        (record_upload c env (?meta (random_id c n) content mime name)))) ?Q s1" if I: "?I s1" for name n s1
  proof -
    let ?i = "hex_encode (random_id c n)"
    have u': "undisturbed c g ?i env" using rely replies by (simp add: store_rely_def undisturbed_def)
    have kept: "attachments_stored c s2" if "reserved c g ?i v w s2" for v w s2 using that by (simp add: reserved_def)
    obtain v w where res: "reserved c g ?i v w s1" using I by blast
    show ?thesis
    proof (rule wp_then_okI [OF wp_receive_upload [OF u' res]], goal_cases)
      case (2 r s2)
      obtain content mime where r: "r = (content, mime)" by (cases r)
      with 2 have res2: "reserved c g ?i v w s2" and content: "content = us_Bytes src" "content \<noteq> []" "length content \<le> MaxUploadBytes"
        by auto
      show ?case
        unfolding r prod.case
      proof (rule wp_then_okI [OF wp_place_upload [OF u' res2 hex_not_s3]], goal_cases)
        case (2 key s3)
        let ?m = "?meta (random_id c n) content mime name"
        have placed: "if has_Objects c then \<exists>v. key = ''s3:'' @ object_key g ?i \<and> reserved c g ?i v (Some (content, mime)) s3
            else key = ?i \<and> (\<exists>w. reserved c g ?i (Some content) w s3)"
          using 2 by blast
        have "\<exists>v w. reserved c g (md_ID ?m) v w s3 \<and> (if has_Objects c
            then key = ''s3:'' @ object_key g (md_ID ?m) \<and> w = Some (content, mime) else key = md_ID ?m \<and> v = Some content)"
          unfolding metadata.simps using placed by (cases "has_Objects c") (simp_all only: if_True if_False, blast+)
        then obtain v w where at: "reserved c g (md_ID ?m) v w s3"
          "if has_Objects c then key = ''s3:'' @ object_key g (md_ID ?m) \<and> w = Some (content, mime) else key = md_ID ?m \<and> v = Some content"
          by blast
        have "wp (record_upload c env ?m key) (\<lambda>r s'. attachments_stored c s' \<and> (\<forall>m'. r = Inr m' \<longrightarrow> m' = ?m \<and>
            (\<exists>a. row_of_upload (md_Uploaded ?m) g content ?m a s'))) s3"
          by (rule wp_record_upload [OF _ at]) (use u' ids content in simp_all)
        then show ?case by (rule wp_mono) (simp add: content(1), blast)
      qed (auto intro: kept)
    qed (auto simp: kept)
  qed
  show ?thesis
    unfolding Upload_def Let_def
    apply (rule wp_if, rule stop, use s in blast)
    apply (rule wp_if, rule stop, use s in blast)
    apply (rule wp_then_okI [where R = "\<lambda>_. ?I"])
      apply (rule wp_query_stable [OF stable], use s in blast, assumption, assumption)
     apply (auto simp: reserved_def) [1]
    apply (rule wp_if, rule stop, assumption)
    apply (rule wp_if, rule stop, assumption)
    apply (rule wp_bind, rule wp_draw, rule body, assumption)
    done
qed

section \<open>Reading back\<close>

definition recorded :: "attachment_row \<Rightarrow> string \<Rightarrow> 'b file_store_scheme \<Rightarrow> bool" where
  "recorded a data s \<longleftrightarrow> distinct (map at_id (attachments s)) \<and> a \<in> set (attachments s) \<and> stored_content (at_storage_key a) s = Some data"

lemma readable_recorded: "recorded a data s \<Longrightarrow> readable u (at_id a) s = Some b \<Longrightarrow> b = a"
  unfolding readable_def recorded_def
  by (drule find_Some_iff_in) (auto simp: distinct_map dest: inj_onD)

lemma wp_AuthorizedFile:
  assumes rely: "relies env (recorded a data)" and s: "recorded a data s"
  shows "wp (AuthorizedFile c env u (at_id a)) (\<lambda>r s'. \<forall>m d. r = Inr (m, d) \<longrightarrow> m = metadata_of a \<and> d = data) s"
proof -
  let ?Q = "\<lambda>r s'. \<forall>m d. r = Inr (m, d) \<longrightarrow> m = metadata_of a \<and> d = data"
  have answer: "wp (then_ok m (\<lambda>d. ok (metadata_of a, d))) ?Q s1"
    if "wp m (\<lambda>r _. \<forall>d. r = Inr d \<longrightarrow> d = data) s1" for m s1
    by (rule wp_then_okI [OF that]) (auto intro: wp_ok)
  have object: "wp (OpenObject env (trim_prefix (at_storage_key a) ''s3:'')) (\<lambda>r _. \<forall>d. r = Inr d \<longrightarrow> d = data) s1"
    if "recorded a data s1" "has_prefix (at_storage_key a) ''s3:''" for s1
    unfolding OpenObject_def
    by (rule wp_then_okI [OF wp_query_stable [OF rely that(1), where Q = "\<lambda>r _. \<forall>x. r = Inr x \<longrightarrow> map_option fst x = Some data"]])
       (use that(2) in \<open>auto simp: recorded_def stored_content_def intro!: wp_err wp_ok split: option.split\<close>)
  have local_file: "wp (open_file env (at_storage_key a)) (\<lambda>r _. \<forall>d. r = Inr d \<longrightarrow> d = data) s1"
    if "recorded a data s1" "\<not> has_prefix (at_storage_key a) ''s3:''" for s1
    unfolding open_file_def
    by (rule wp_then_okI [OF wp_query_stable [OF rely that(1), where Q = "\<lambda>r _. \<forall>x. r = Inr x \<longrightarrow> x = Some data"]])
       (use that(2) in \<open>auto simp: recorded_def stored_content_def intro!: wp_err wp_ok split: option.split\<close>)
  show ?thesis
    unfolding AuthorizedFile_def Let_def
  proof (rule wp_then_okI [where R = "\<lambda>r s'. recorded a data s' \<and> (\<forall>x. r = Inr (Some x) \<longrightarrow> x = a)"], goal_cases)
    case 1
    show ?case by (rule wp_query_stable [OF rely s]) (simp_all add: readable_recorded)
  next
    case (3 found s1)
    show ?case
    proof (cases found)
      case (Some b)
      with 3 have b: "found = Some a" and s1: "recorded a data s1" by auto
      show ?thesis
        unfolding b option.case by (intro wp_if wp_err answer object local_file s1) simp_all
    qed (simp add: wp_err)
  qed simp
qed

text \<open>Who may not read a file: no active member of the group it belongs to.\<close>

definition no_reader :: "string \<Rightarrow> string \<Rightarrow> 'b im_scheme \<Rightarrow> bool" where
  "no_reader u i s \<longleftrightarrow> (\<forall>a\<in>set (attachments s). at_id a = i \<longrightarrow>
     \<not> (\<exists>m\<in>set (member_rows s). gm_group m = at_group a \<and> gm_user m = u \<and> gm_status m = ''active''))"

lemma no_reader_unreadable: "no_reader u i s \<Longrightarrow> readable u i s = None"
  by (auto simp: no_reader_def readable_def find_None_iff_all list_ex_iff)

lemma wp_AuthorizedFile_refused:
  assumes "relies env (no_reader u i)" "no_reader u i s"
  shows "wp (AuthorizedFile c env u i) (\<lambda>r _. isl r) s"
  unfolding AuthorizedFile_def
  by (rule wp_then_okI [OF wp_query_stable [OF assms, where Q = "\<lambda>r _. \<forall>x. r = Inr x \<longrightarrow> x = None"]])
     (auto simp: no_reader_unreadable intro: wp_err)

section \<open>Properties\<close>

text \<open>C11. What a member uploads is what members read: if an upload succeeds, then whoever is given the file afterwards
  is given exactly the uploaded bytes with the metadata the upload answered, whether they lie in the
  directory or in the object store, as long as no reply of a call is lost.\<close>

theorem download_returns_upload:
  assumes "store_rely c g env" "no_lost env" "\<And>n. random_id c n \<noteq> []" "\<And>a data. relies env (recorded a data)"
    and "\<And>n. \<exists>v w. reserved c g (hex_encode (random_id c n)) v w s"
  shows "wp (State_Monad.bind (Upload c env u g filename src) (\<lambda>r. case r of
       Inl _ \<Rightarrow> State_Monad.return True
     | Inr m \<Rightarrow> State_Monad.bind (AuthorizedFile c env reader (md_ID m)) (\<lambda>d. State_Monad.return (\<forall>m' data. d = Inr (m', data) \<longrightarrow> m' = m \<and> data = us_Bytes src))))
     (\<lambda>b _. b) s"
proof (rule wp_bindI [OF wp_Upload [OF assms(1-3,5)]], rule wp_case_sum, goal_cases)
  case (2 r s1 m)
  then obtain a where a: "row_of_upload u g (us_Bytes src) m a s1" and "attachments_stored c s1" by auto
  then have "recorded a (us_Bytes src) s1" by (simp add: recorded_def row_of_upload_def attachments_stored_def)
  moreover from a have "md_ID m = at_id a" "m = metadata_of a" by (auto simp: row_of_upload_def metadata_of_def)
  ultimately show ?case
    by (intro wp_bindI [OF wp_AuthorizedFile [OF assms(4), of a "us_Bytes src" s1 c reader, folded \<open>md_ID m = at_id a\<close>]])
       (auto intro: wp_return)
qed (auto intro: wp_return)

definition demo_uploads :: upload_cfg where
  "demo_uploads = \<lparr>up_Configured = True, has_Objects = False, random_id = \<lambda>_. [CHR 0xAB], sha256 = \<lambda>s. s,
     DetectContentType = \<lambda>_. ''text/plain; charset=utf-8'', ContentDisposition = \<lambda>_. ''attachment''\<rparr>"

definition demo_files :: "file_store" where
  "demo_files = im.extend demo_world \<lparr>files = \<lambda>_. None, objects = \<lambda>_. None, bucket_made = False\<rparr>"

lemma demo_files_simps [exec_defs]:
  "attachments demo_files = []" "member_rows demo_files = member_rows demo_world" "files demo_files = (\<lambda>_. None)" "objects demo_files = (\<lambda>_. None)"
  by (simp_all add: demo_files_def im.defs demo_world_simps)

definition demo_source :: upload_source where
  "demo_source = \<lparr>us_Bytes = ''hello'', us_Fails = False\<rparr>"

theorem download_returns_upload_witness:
  "wp (State_Monad.bind (Upload demo_uploads (calm 5) ''al'' ''g1'' ''a.txt'' demo_source) (\<lambda>r. case r of
       Inl _ \<Rightarrow> State_Monad.return True
     | Inr m \<Rightarrow> State_Monad.bind (AuthorizedFile demo_uploads (calm 5) ''bo'' (md_ID m))
         (\<lambda>d. State_Monad.return (\<forall>m' data. d = Inr (m', data) \<longrightarrow> m' = m \<and> data = us_Bytes demo_source))))
     (\<lambda>b _. b) demo_files"
  by (rule download_returns_upload)
    (simp_all add: store_rely_def relies_def no_lost_def reserved_def attachments_stored_def demo_files_simps demo_uploads_def)

text \<open>C10. Attachments are for members: as long as a user is no active member of a group, his uploads to it are refused and
  leave the world as the other processes do, and a download of a file whose group he is not in answers 403
  or 404 and none of its bytes, whatever calls fail.\<close>

theorem attachments_are_for_members:
  assumes "relies env (\<lambda>s. P s \<and> \<not> (\<exists>m\<in>set (member_rows s). gm_group m = g \<and> gm_user m = u \<and> gm_status m = ''active''))"
    and "P s \<and> \<not> (\<exists>m\<in>set (member_rows s). gm_group m = g \<and> gm_user m = u \<and> gm_status m = ''active'')"
    and "relies env (no_reader u i)" "no_reader u i s"
  shows "wp (uploadAttachment c env u \<lparr>ur_GroupID = g, ur_FormParses = p, ur_File = f\<rparr>) (\<lambda>(status, m) s'. P s' \<and> status \<in> {400, 403} \<and> m = None) s
     \<and> wp (downloadAttachment c env u i) (\<lambda>d _. dr_Status d \<in> {403, 404} \<and> dr_Body d = ''attachment unavailable'') s"
proof
  let ?I = "\<lambda>s. P s \<and> \<not> (\<exists>m\<in>set (member_rows s). gm_group m = g \<and> gm_user m = u \<and> gm_status m = ''active'')"
  have refused: "wp (Upload c env u g name src) (\<lambda>r s'. P s' \<and> isl r) s" for name src
    unfolding Upload_def
    apply (rule wp_if, rule wp_err, use assms(2) in simp)
    apply (rule wp_if, rule wp_err, use assms(2) in simp)
    apply (rule wp_then_okI [where R = "\<lambda>r s'. P s' \<and> (\<forall>n. r = Inr n \<longrightarrow> n = 0)"])
      apply (rule wp_query_stable [where I = ?I, OF assms(1,2)])
       apply simp
      apply (subst filter_False)
       apply blast
      apply simp
     apply simp
    apply (rule wp_if, rule wp_err)
     apply simp_all
    done
  show "wp (uploadAttachment c env u \<lparr>ur_GroupID = g, ur_FormParses = p, ur_File = f\<rparr>) (\<lambda>(status, m) s'. P s' \<and> status \<in> {400, 403} \<and> m = None) s"
    unfolding uploadAttachment_def
    by (auto intro!: wp_if wp_return wp_case_option wp_case_prod wp_bindI [OF refused] simp: assms(2) split: sum.splits if_splits)
  show "wp (downloadAttachment c env u i) (\<lambda>d _. dr_Status d \<in> {403, 404} \<and> dr_Body d = ''attachment unavailable'') s"
    unfolding downloadAttachment_def
    by (rule wp_bindI [OF wp_AuthorizedFile_refused [OF assms(3,4)]]) (auto intro!: wp_return split: sum.split)
qed

text \<open>A user who is in no group, and a file of the group \<open>g1\<close>.\<close>

definition demo_kept :: file_store where
  "demo_kept = put_file ''ab'' ''hello'' (demo_files\<lparr>attachments := [\<lparr>at_id = ''ab'', at_group = ''g1'', at_uploader = ''al'',
     at_file_name = ''a.txt'', at_mime = ''text/plain'', at_size = 5, at_sha256 = [], at_storage_key = ''ab'', at_status = ''ready'', at_created_at = 5\<rparr>]\<rparr>)"

lemma demo_kept_simps [exec_defs]:
  "member_rows demo_kept = member_rows demo_world" "files demo_kept ''ab'' = Some ''hello''"
  "attachments demo_kept = [\<lparr>at_id = ''ab'', at_group = ''g1'', at_uploader = ''al'', at_file_name = ''a.txt'', at_mime = ''text/plain'',
     at_size = 5, at_sha256 = [], at_storage_key = ''ab'', at_status = ''ready'', at_created_at = 5\<rparr>]"
  by (simp_all add: demo_kept_def put_file_def demo_files_simps)

theorem attachments_are_for_members_witness:
  "wp (uploadAttachment demo_uploads (calm 5) ''cy'' \<lparr>ur_GroupID = ''g1'', ur_FormParses = True, ur_File = Some (''a.txt'', demo_source)\<rparr>)
       (\<lambda>(status, m) s'. s' = demo_kept \<and> status \<in> {400, 403} \<and> m = None) demo_kept
   \<and> wp (downloadAttachment demo_uploads (calm 5) ''cy'' ''ab'') (\<lambda>d _. dr_Status d \<in> {403, 404} \<and> dr_Body d = ''attachment unavailable'') demo_kept"
  by (rule attachments_are_for_members [where P = "\<lambda>s. s = demo_kept"])
    (simp_all add: relies_def no_reader_def demo_kept_simps demo_world_simps)

text \<open>A member is given the file.\<close>

lemma member_is_given_the_file:
  "dr_Body (fst (run_state (downloadAttachment demo_uploads (calm 5) ''bo'' ''ab'') (0, demo_kept))) = ''hello''"
  by (simp add: exec_defs run_calls downloadAttachment_def AuthorizedFile_def readable_def open_file_def has_prefix_def path_base_def cong: lazy_cong)

text \<open>The reply of the \<open>INSERT\<close> is lost: the row is there, the upload answers an error and removes the file the row names.\<close>

lemma lost_reply_leaves_row_without_file:
  "case run_state (Upload demo_uploads ((calm 5)\<lparr>fault := \<lambda>n. if n = 11 then Lost else Up\<rparr>) ''al'' ''g1'' ''a.txt'' demo_source) (0, demo_files) of (r, _, s) \<Rightarrow>
     isl r \<and> map at_storage_key (attachments s) = [hex_encode [CHR 0xAB]] \<and> files s = (\<lambda>_. None)"
proof -
  have names: "trim_space ''a.txt'' = ''a.txt''" "allowed ''a.txt'' ''text/plain; charset=utf-8''"
    by (simp add: trim_space_graphic graphic_def)
       (simp add: allowed_def path_ext_def has_prefix_def to_lower_ascii lower_char_def del: to_lower.simps)
  show ?thesis
    by (simp add: exec_defs run_calls calm_def Upload_def receive_upload_def place_upload_def record_upload_def fs_call_def put_file_def remove_file_def
        demo_uploads_def demo_source_def names path_base_def MaxUploadBytes_def ins_def clash_def attachment_keys_def
        cong: lazy_cong)
qed

end
