(* ===== verification/History.thy ===== *)
theory History
  imports Sync
begin

text \<open>
  Reading a conversation backwards: internal/logic/handler_history.go.  A page holds the newest messages below
  a sequence number, in ascending order, and the number to continue from.  The lemmas show that following that number
  reads the whole conversation, that a page never mixes conversations, and that a group is read by members only.
\<close>

record history_reply =
  hr_Messages :: "wire list"
  hr_HasMore :: bool
  hr_NextBeforeSeq :: int

definition defaultHistoryLimit :: nat where "defaultHistoryLimit = 50"
definition maxHistoryLimit :: nat where "maxHistoryLimit = 100"

definition history_limit :: "int \<Rightarrow> nat" where
  "history_limit requested =
     (let limit = (if requested \<le> 0 then defaultHistoryLimit else nat requested)
      in if limit > maxHistoryLimit then maxHistoryLimit else limit)"

definition history_rows :: "string \<Rightarrow> int \<Rightarrow> nat \<Rightarrow> 'b im_scheme \<Rightarrow> msg_row list" where
  "history_rows sessionID beforeSeq queryLimit s = take queryLimit (order_desc ms_seq
     (filter (\<lambda>r. ms_session_id r = sessionID \<and> (beforeSeq > 0 \<longrightarrow> ms_seq r < beforeSeq)) (msgs s)))"

text \<open>Scanning a row reads the client message id into a string, which a \<open>NULL\<close> does not fit.\<close>

fun scan_history :: "msg_row list \<Rightarrow> gerr + wire list" where
  "scan_history [] = Inr []"
| "scan_history (r # rs) =
     (if ms_client_msg_id r = None then Inl (Msg ''converting NULL to string is unsupported'')
      else case scan_history rs of Inl e \<Rightarrow> Inl e | Inr ms \<Rightarrow> Inr (frame_of_row r # ms))"

definition history_page :: "nat \<Rightarrow> wire list \<Rightarrow> history_reply" where
  "history_page limit found =
     (let hasMore = length found > limit;
          res = rev (if hasMore then take limit found else found)
      in \<lparr>hr_Messages = res, hr_HasMore = hasMore,
          hr_NextBeforeSeq = (if res \<noteq> [] \<and> hasMore then SeqNo (hd res) else 0)\<rparr>)"

definition getHistoryLegacy :: "cfg \<Rightarrow> ('b im_scheme) env \<Rightarrow> string \<Rightarrow> int \<Rightarrow> nat \<Rightarrow> ('b im_scheme, gerr + history_reply) io" where
  "getHistoryLegacy h env sessionID beforeSeq limit =
     then_ok (exec env (on_schema h [''messages''] [] (\<lambda>s. (Inr (history_rows sessionID beforeSeq (limit + 1) s), s))))
       (\<lambda>rows. ok (history_page limit (map (\<lambda>r. frame_of_row (r\<lparr>ms_client_msg_id := None\<rparr>)) rows)))"

definition read_history :: "cfg \<Rightarrow> ('b im_scheme) env \<Rightarrow> string \<Rightarrow> int \<Rightarrow> nat \<Rightarrow> ('b im_scheme, gerr + history_reply) io" where
  "read_history h env sessionID beforeSeq limit =
     State_Monad.bind (exec env (on_schema h [''messages''] [''client_msg_id'']
         (\<lambda>s. (Inr (history_rows sessionID beforeSeq (limit + 1) s), s))))
       (\<lambda>res. case res of
          Inl e \<Rightarrow> if isUnknownColumn e ''client_msg_id'' then getHistoryLegacy h env sessionID beforeSeq limit else err e
        | Inr rows \<Rightarrow> (case scan_history rows of Inl e \<Rightarrow> err e | Inr found \<Rightarrow> ok (history_page limit found)))"

definition GetHistory :: "cfg \<Rightarrow> ('b im_scheme) env \<Rightarrow> string \<Rightarrow> string \<Rightarrow> int \<Rightarrow> int \<Rightarrow> ('b im_scheme, gerr + history_reply) io" where
  "GetHistory h env user target beforeSeq requested =
     (let toType = targetType target in
      if toType = ''group'' then
        let targetID = normalizeGroupID target in
        then_ok (isCurrentGroupMember (has_db h) env targetID user) (\<lambda>allowed.
          if \<not> allowed then err (Msg ''user is not an active group member'')
          else read_history h env (buildSessionID user targetID toType) beforeSeq (history_limit requested))
      else read_history h env (buildSessionID user target toType) beforeSeq (history_limit requested))"

text \<open>What a run unfolds.\<close>

lemmas history_run [exec_defs] =
  defaultHistoryLimit_def maxHistoryLimit_def history_limit_def history_rows_def history_page_def getHistoryLegacy_def
  read_history_def GetHistory_def

section \<open>Pages of a session\<close>

lemma history_limit_range: "1 \<le> history_limit n" "history_limit n \<le> 100"
  by (auto simp: history_limit_def defaultHistoryLimit_def maxHistoryLimit_def Let_def)

lemma scan_history_eq:
  "scan_history rows = (if \<exists>r\<in>set rows. ms_client_msg_id r = None
     then Inl (Msg ''converting NULL to string is unsupported'') else Inr (map frame_of_row rows))"
  by (induction rows) auto

text \<open>The conversation in the order it was numbered, and the rows from one number downwards.\<close>

definition conversation_rows :: "string \<Rightarrow> 'b im_scheme \<Rightarrow> msg_row list" where
  "conversation_rows sid s = order_asc ms_seq (filter (\<lambda>r. ms_session_id r = sid) (msgs s))"

lemma conversation_rows_desc:
  "msgs_keyed s \<Longrightarrow> order_desc ms_seq (filter (\<lambda>r. ms_session_id r = sid) (msgs s)) = rev (conversation_rows sid s)"
  unfolding conversation_rows_def by (subst order_asc_rev_desc) (simp_all add: msgs_keyed_def)

lemma conversation_rows_strict: "msgs_keyed s \<Longrightarrow> sorted_wrt (<) (map ms_seq (conversation_rows sid s))"
proof -
  assume "msgs_keyed s"
  then have "distinct (map ms_seq (conversation_rows sid s))"
    by (simp add: conversation_rows_def order_asc_def msgs_keyed_def distinct_map)
  then show ?thesis by (simp add: strict_sorted_iff conversation_rows_def sorted_order_asc)
qed

lemma set_conversation_rows [simp]: "set (conversation_rows sid s) = {r \<in> set (msgs s). ms_session_id r = sid}"
  by (auto simp: conversation_rows_def)

text \<open>Below no number, or the number of the row at position \<open>i\<close>, stand the rows before \<open>i\<close>.\<close>

definition cursor_at :: "msg_row list \<Rightarrow> nat \<Rightarrow> int \<Rightarrow> bool" where
  "cursor_at xs i b \<longleftrightarrow> (i = length xs \<and> b = 0) \<or> (i < length xs \<and> b = ms_seq (xs ! i))"

lemma history_rows_at:
  assumes "msgs_keyed s" "\<forall>r\<in>set (msgs s). 0 < ms_seq r" "cursor_at (conversation_rows sid s) i b"
  shows "history_rows sid b q s = take q (rev (take i (conversation_rows sid s)))"
proof -
  let ?xs = "conversation_rows sid s"
  have split: "filter (\<lambda>r. ms_session_id r = sid \<and> (0 < b \<longrightarrow> ms_seq r < b)) (msgs s)
      = filter (\<lambda>r. 0 < b \<longrightarrow> ms_seq r < b) (filter (\<lambda>r. ms_session_id r = sid) (msgs s))"
    by (simp add: conj_commute)
  have "history_rows sid b q s = take q (filter (\<lambda>r. 0 < b \<longrightarrow> ms_seq r < b) (rev ?xs))"
    unfolding history_rows_def split order_desc_filter [where P = "\<lambda>r. 0 < b \<longrightarrow> ms_seq r < b"] conversation_rows_desc [OF assms(1)] ..
  also have "filter (\<lambda>r. 0 < b \<longrightarrow> ms_seq r < b) (rev ?xs) = rev (take i ?xs)"
  proof (cases "i < length ?xs")
    case True
    with assms(3) have b: "b = ms_seq (?xs ! i)" by (auto simp: cursor_at_def)
    have "?xs ! i \<in> set ?xs" using True by (rule nth_mem)
    then have pos: "0 < b" using assms(2) b by simp
    have desc: "sorted_wrt (\<lambda>a b. ms_seq b < ms_seq a) (rev ?xs)"
      using conversation_rows_strict [OF assms(1), of sid] by (simp add: sorted_wrt_rev sorted_wrt_map)
    let ?j = "length ?xs - Suc i"
    have j: "?j < length (rev ?xs)" "rev ?xs ! ?j = ?xs ! i" using True by (simp_all add: rev_nth)
    have "filter (\<lambda>r. ms_seq r < b) (rev ?xs) = drop (Suc ?j) (rev ?xs)"
      using filter_below [OF desc j(1)] unfolding j(2) b .
    also have "\<dots> = rev (take i ?xs)" using True by (simp add: drop_rev)
    finally show ?thesis using pos by simp
  next
    case False
    with assms(3) show ?thesis by (simp add: cursor_at_def)
  qed
  finally show ?thesis .
qed

text \<open>A page read at a cursor, and the cursor it returns.\<close>

lemma history_page_at:
  assumes "i \<le> length xs" "1 \<le> limit"
  shows "history_page limit (map frame_of_row (take (limit + 1) (rev (take i xs)))) =
    \<lparr>hr_Messages = map frame_of_row (drop (i - limit) (take i xs)), hr_HasMore = (limit < i),
     hr_NextBeforeSeq = (if limit < i then ms_seq (xs ! (i - limit)) else 0)\<rparr>"
proof (cases "limit < i")
  case True
  have len: "length (take i xs) = i" using assms(1) by simp
  have tk: "rev (take limit (rev (take i xs))) = drop (i - limit) (take i xs)"
    by (simp add: take_rev min_absorb2 assms(1) del: drop_take)
  have hd: "hd (drop (i - limit) (take i xs)) = xs ! (i - limit)"
    using True assms by (simp add: hd_drop_conv_nth)
  have "xs \<noteq> []" using True assms(1) by auto
  with True assms len show ?thesis
    by (simp add: history_page_def Let_def take_map rev_map hd_map tk hd frame_of_row_def del: drop_take)
next
  case False
  have "length (take (limit + 1) (rev (take i xs))) \<le> limit" using False by simp
  moreover have "take (limit + 1) (rev (take i xs)) = rev (take i xs)" using False by simp
  ultimately show ?thesis using False by (simp add: history_page_def Let_def rev_map)
qed

section \<open>Reading a conversation to its beginning\<close>

text \<open>The client's loop, with at most \<open>n\<close> requests: \<open>None\<close> when they did not suffice.\<close>

fun read_back :: "nat \<Rightarrow> cfg \<Rightarrow> ('b im_scheme) env \<Rightarrow> string \<Rightarrow> string \<Rightarrow> int \<Rightarrow> int \<Rightarrow> ('b im_scheme, (gerr + wire list) option) io" where
  "read_back 0 h env user target beforeSeq requested = State_Monad.return None"
| "read_back (Suc n) h env user target beforeSeq requested =
     State_Monad.bind (GetHistory h env user target beforeSeq requested) (\<lambda>res. case res of
       Inl e \<Rightarrow> State_Monad.return (Some (Inl e))
     | Inr p \<Rightarrow> if \<not> hr_HasMore p then State_Monad.return (Some (Inr (hr_Messages p)))
         else State_Monad.bind (read_back n h env user target (hr_NextBeforeSeq p) requested)
           (\<lambda>r. State_Monad.return (map_option (map_sum id (\<lambda>older. older @ hr_Messages p)) r)))"

definition may_read :: "cfg \<Rightarrow> string \<Rightarrow> string \<Rightarrow> 'b im_scheme \<Rightarrow> bool" where
  "may_read h user target s \<longleftrightarrow> (targetType target = ''group'' \<longrightarrow>
     has_db h \<and> (\<exists>r. member_row_of (normalizeGroupID target) user s = Some r \<and> gm_status r = ''active''))"

definition history_session :: "string \<Rightarrow> string \<Rightarrow> string" where
  "history_session user target = buildSessionID user (if targetType target = ''group'' then normalizeGroupID target else target) (targetType target)"

lemma GetHistory_calm:
  assumes "may_read h user target s" "missing_tables h = []" "missing_columns h = []"
  shows "\<exists>k'. run_state (GetHistory h (calm t) user target b lim) (k, s) =
    ((case scan_history (history_rows (history_session user target) b (history_limit lim + 1) s) of
        Inl e \<Rightarrow> Inl e | Inr found \<Rightarrow> Inr (history_page (history_limit lim) found)), (k', s))"
proof -
  have se: "schema_error h ts cs = None" for ts cs using assms(2,3) by (simp add: schema_error_def find_None_iff split: option.split)
  have run: "run_state (read_history h (calm t) sid b l) (k, s) =
      ((case scan_history (history_rows sid b (l + 1) s) of Inl e \<Rightarrow> Inl e | Inr found \<Rightarrow> Inr (history_page l found)), (Suc k, s))" for sid l k
    by (simp add: read_history_def run_calls on_schema_def se split: sum.split)
  show ?thesis
    using assms(1)
    by (auto simp: GetHistory_def may_read_def history_session_def Let_def run isCurrentGroupMember_def run_calls)
qed

lemma read_back_from:
  assumes s: "msgs_keyed s" "\<forall>r\<in>set (msgs s). 0 < ms_seq r"
    and ids: "\<forall>r\<in>set (conversation_rows (history_session user target) s). ms_client_msg_id r \<noteq> None"
    and h: "may_read h user target s" "missing_tables h = []" "missing_columns h = []"
    and n: "i < n" and i: "i \<le> length (conversation_rows (history_session user target) s)"
    and b: "cursor_at (conversation_rows (history_session user target) s) i b"
  shows "\<exists>k'. run_state (read_back n h (calm t) user target b lim) (k, s) =
    (Some (Inr (map frame_of_row (take i (conversation_rows (history_session user target) s)))), (k', s))"
  using n i b
proof (induction n arbitrary: i b k)
  case 0
  then show ?case by simp
next
  case (Suc n)
  let ?xs = "conversation_rows (history_session user target) s"
  let ?l = "history_limit lim"
  let ?i = "i - ?l"
  have sub: "set (take (?l + 1) (rev (take i ?xs))) \<subseteq> set ?xs"
    by (auto dest!: in_set_takeD simp del: set_conversation_rows)
  have "scan_history (history_rows (history_session user target) b (?l + 1) s) = Inr (map frame_of_row (take (?l + 1) (rev (take i ?xs))))"
    unfolding history_rows_at [OF s Suc.prems(3)] scan_history_eq using ids sub by auto
  with GetHistory_calm [OF h, of t b lim k] history_page_at [OF Suc.prems(2) history_limit_range(1) [of lim]]
  obtain k1 where page: "run_state (GetHistory h (calm t) user target b lim) (k, s) =
     (Inr \<lparr>hr_Messages = map frame_of_row (drop ?i (take i ?xs)), hr_HasMore = (?l < i),
       hr_NextBeforeSeq = (if ?l < i then ms_seq (?xs ! ?i) else 0)\<rparr>, (k1, s))"
    by auto
  show ?case
  proof (cases "?l < i")
    case True
    have "?i < length ?xs" using True Suc.prems(2) history_limit_range(1) [of lim] by linarith
    then have "cursor_at ?xs ?i (ms_seq (?xs ! ?i))" "?i \<le> length ?xs" by (simp_all add: cursor_at_def)
    moreover have "?i < n" using True Suc.prems(1) history_limit_range(1) [of lim] by linarith
    ultimately obtain k2 where rest: "run_state (read_back n h (calm t) user target (ms_seq (?xs ! ?i)) lim) (k1, s)
        = (Some (Inr (map frame_of_row (take ?i ?xs))), (k2, s))" using Suc.IH by blast
    have "take ?i ?xs @ drop ?i (take i ?xs) = take i ?xs"
      by (metis append_take_drop_id diff_le_self min_absorb1 take_take)
    then show ?thesis using page True rest by (simp add: run_calls flip: map_append)
  next
    case False
    with page show ?thesis by (simp add: run_calls)
  qed
qed

section \<open>Outsiders\<close>

definition no_member :: "string \<Rightarrow> string \<Rightarrow> 'b im_scheme \<Rightarrow> bool" where
  "no_member g u s \<longleftrightarrow> (\<forall>r\<in>set (member_rows s). gm_group r = g \<and> gm_user r = u \<longrightarrow> gm_status r \<noteq> ''active'')"

lemma isCurrentGroupMember_outsider:
  assumes "relies env (no_member g u)" "no_member g u w"
  shows "wp (isCurrentGroupMember db env g u) (\<lambda>r s. r \<noteq> Inr True) w"
  unfolding isCurrentGroupMember_def
  by (rule wp_if, (rule wp_err; simp), rule wp_then_ok, rule wp_query_stable [OF assms])
     (auto intro!: wp_ok split: option.splits simp: member_row_of_def no_member_def dest!: find_Some_iff_in)

section \<open>Properties\<close>

text \<open>C17. History is complete: for a reader who may read, in a state where the numbers of a session are positive and distinct and its
  rows carry client message ids, following the returned cursor from the newest page returns every message of the
  conversation exactly once in ascending order, whatever page size is asked for, and more requests than messages are enough.\<close>

theorem history_is_complete:
  assumes "msgs_keyed s" "\<forall>r\<in>set (msgs s). 0 < ms_seq r"
    and "\<forall>r\<in>set (msgs s). ms_session_id r = history_session user target \<longrightarrow> ms_client_msg_id r \<noteq> None"
    and "may_read h user target s" "missing_tables h = []" "missing_columns h = []"
    and "length (msgs s) < n"
  shows "\<exists>k'. run_state (read_back n h (calm t) user target 0 lim) (k, s) =
    (Some (Inr (map frame_of_row (conversation_rows (history_session user target) s))), (k', s))"
proof -
  let ?xs = "conversation_rows (history_session user target) s"
  have "length ?xs \<le> length (msgs s)" by (simp add: conversation_rows_def order_asc_def)
  then have n: "length ?xs < n" using assms(7) by simp
  have ids: "\<forall>r\<in>set ?xs. ms_client_msg_id r \<noteq> None" using assms(3) by simp
  from read_back_from [OF assms(1,2) ids assms(4-6) n order_refl, of 0 t lim k] show ?thesis
    by (simp add: cursor_at_def)
qed

definition history_demo :: im where
  "history_demo = demo_world\<lparr>msgs := [row_of_frame (demo_sent\<lparr>SessionId := ''c2c:al:bo'', SeqNo := 2, MessageId := ''al:bo-2''\<rparr>),
     row_of_frame (demo_sent\<lparr>SessionId := ''c2c:al:bo''\<rparr>)]\<rparr>"

theorem history_is_complete_witness:
  "\<exists>k'. run_state (read_back 3 demo (calm 5) ''al'' ''bo'' 0 1) (0, history_demo) =
     (Some (Inr (map frame_of_row (conversation_rows ''c2c:al:bo'' history_demo))), (k', history_demo))
   \<and> map ms_seq (conversation_rows ''c2c:al:bo'' history_demo) = [1, 2]"
proof -
  have sid: "history_session ''al'' ''bo'' = ''c2c:al:bo''" by code_simp
  have user: "targetType ''bo'' = ''user''" by code_simp
  have "\<exists>k'. run_state (read_back 3 demo (calm 5) ''al'' ''bo'' 0 1) (0, history_demo) =
     (Some (Inr (map frame_of_row (conversation_rows (history_session ''al'' ''bo'') history_demo))), (k', history_demo))"
    by (rule history_is_complete)
       (simp_all add: history_demo_def msgs_keyed_def may_read_def user row_of_frame_def exec_defs del: targetType_def)
  then show ?thesis
    by (simp add: sid) (simp add: conversation_rows_def history_demo_def row_of_frame_def exec_defs)
qed

text \<open>Only members read a group: a request for a group of which the user is no active member, and does not become one meanwhile, is answered
  with an error, whatever other processes do and whatever calls fail.\<close>

theorem outsiders_read_nothing:
  assumes "targetType target = ''group''" "relies env (no_member (normalizeGroupID target) user)" "no_member (normalizeGroupID target) user w"
  shows "wp (GetHistory h env user target before lim) (\<lambda>r s. \<exists>e. r = Inl e) w"
  unfolding GetHistory_def Let_def
  by (subst if_P [OF assms(1)], rule wp_then_okI [OF isCurrentGroupMember_outsider [OF assms(2,3)]])
     (auto intro!: wp_err split: if_split)

theorem outsiders_read_nothing_witness:
  "\<exists>e k s. run_state (GetHistory demo (calm 5) ''cy'' ''group:g1'' 0 0) (0, demo_world) = (Inl e, k, s)"
proof -
  obtain r k s where run: "run_state (GetHistory demo (calm 5) ''cy'' ''group:g1'' 0 0) (0, demo_world) = (r, k, s)"
    by (cases "run_state (GetHistory demo (calm 5) ''cy'' ''group:g1'' 0 0) (0, demo_world)") auto
  have grp: "targetType ''group:g1'' = ''group''" "normalizeGroupID ''group:g1'' = ''g1''" by code_simp+
  have "wp (GetHistory demo (calm 5) ''cy'' ''group:g1'' 0 0) (\<lambda>r s. \<exists>e. r = Inl e) demo_world"
    by (rule outsiders_read_nothing) (simp_all add: grp no_member_def exec_defs)
  from wpD [OF this run] show ?thesis using run by blast
qed

text \<open>A message stored before the client-message column existed has none: its page cannot be read.\<close>

theorem old_row_breaks_its_page:
  assumes "may_read h user target s" "missing_tables h = []" "missing_columns h = []"
    and "r \<in> set (history_rows (history_session user target) b (history_limit lim + 1) s)" "ms_client_msg_id r = None"
  shows "\<exists>k'. run_state (GetHistory h (calm t) user target b lim) (k, s) =
    (Inl (Msg ''converting NULL to string is unsupported''), (k', s))"
  using GetHistory_calm [OF assms(1-3), of t b lim k] assms(4,5) by (auto simp: scan_history_eq)

end
