(* ===== verification/Community_Safety.thy ===== *)
theory Community_Safety
  imports Community_Rules
begin

text \<open>
  What holds in every community: exactly one owner, who is an active member; replies one level deep; a post
  that only changes together with its version and stays deleted once it is; values in the
  ranges of their columns.  Each is an invariant of the rules and so of every operation.
\<close>

section \<open>One owner\<close>

definition one_owner :: "'b cdb_scheme \<Rightarrow> bool" where
  "one_owner s \<longleftrightarrow> (\<forall>m\<in>set (member_rows s). gm_group m \<in> gr_id ` set (group_rows s))
     \<and> (\<forall>g\<in>set (group_rows s). (\<exists>m\<in>set (member_rows s). gm_group m = gr_id g \<and> gm_user m = gr_owner g
            \<and> gm_role m = ''owner'' \<and> gm_status m = ''active'')
         \<and> (\<forall>m\<in>set (member_rows s). gm_group m = gr_id g \<and> gm_role m = ''owner'' \<longrightarrow> gm_user m = gr_owner g))"

lemma role_row:
  assumes "community_role g u s = Some r"
  obtains m where "m \<in> set (member_rows s)" "gm_group m = g" "gm_user m = u" "gm_role m = r" "gm_status m = ''active''"
  using assms by (auto simp: community_role_def dest!: find_Some_iff_in)

lemma member_unique:
  "com_keyed s \<Longrightarrow> m \<in> set (member_rows s) \<Longrightarrow> m' \<in> set (member_rows s) \<Longrightarrow> gm_group m = gm_group m' \<Longrightarrow> gm_user m = gm_user m' \<Longrightarrow> m = m'"
  using key_row_unique [of "\<lambda>m. (gm_group m, gm_user m)" "member_rows s" m m'] by (simp add: com_keyed_def)

text \<open>Changes of members that keep roles and leave owners active.\<close>

lemma one_owner_rows:
  assumes "one_owner s" "group_rows s' = group_rows s"
    and "\<And>m'. m' \<in> set (member_rows s') \<Longrightarrow> gm_group m' \<in> gr_id ` set (group_rows s) \<and>
       (gm_role m' = ''owner'' \<longrightarrow> (\<exists>m\<in>set (member_rows s). gm_group m = gm_group m' \<and> gm_user m = gm_user m' \<and> gm_role m = ''owner''))"
    and "\<And>m. m \<in> set (member_rows s) \<Longrightarrow> gm_role m = ''owner'' \<Longrightarrow> gm_status m = ''active'' \<Longrightarrow>
       \<exists>m'\<in>set (member_rows s'). gm_group m' = gm_group m \<and> gm_user m' = gm_user m \<and> gm_role m' = ''owner'' \<and> gm_status m' = ''active''"
  shows "one_owner s'"
  unfolding one_owner_def
proof (intro conjI ballI)
  fix m assume "m \<in> set (member_rows s')"
  with assms(2,3) show "gm_group m \<in> gr_id ` set (group_rows s')" by simp
next
  fix g assume "g \<in> set (group_rows s')"
  with assms(1,2) obtain m where "m \<in> set (member_rows s)" "gm_group m = gr_id g" "gm_user m = gr_owner g"
     "gm_role m = ''owner''" "gm_status m = ''active''"
    by (auto simp: one_owner_def)
  with assms(4) [of m] show "\<exists>m\<in>set (member_rows s'). gm_group m = gr_id g \<and> gm_user m = gr_owner g \<and> gm_role m = ''owner''
    \<and> gm_status m = ''active''" by auto
next
  fix g m assume g: "g \<in> set (group_rows s')" and m: "m \<in> set (member_rows s')"
  show "gm_group m = gr_id g \<and> gm_role m = ''owner'' \<longrightarrow> gm_user m = gr_owner g"
  proof
    assume "gm_group m = gr_id g \<and> gm_role m = ''owner''"
    with assms(3) [OF m] obtain m0 where "m0 \<in> set (member_rows s)" "gm_group m0 = gr_id g" "gm_user m0 = gm_user m" "gm_role m0 = ''owner''"
      by auto
    with assms(1) g assms(2) show "gm_user m = gr_owner g" by (auto simp: one_owner_def)
  qed
qed

lemma owner_of_row:
  "one_owner s \<Longrightarrow> com_keyed s \<Longrightarrow> community_role gid u s = Some ''owner'' \<Longrightarrow> g \<in> set (group_rows s) \<Longrightarrow> gr_id g = gid \<Longrightarrow> gr_owner g = u"
  by (elim role_row) (auto simp: one_owner_def)

lemma one_owner_leaver:
  assumes "one_owner s" "com_keyed s" "community_role gid u s = Some r" "r \<noteq> ''owner''"
  shows "one_owner ((set_status gid u st s)\<lparr>conv_members := cms\<rparr>)"
proof (rule one_owner_rows [OF assms(1)])
  fix m assume m: "m \<in> set (member_rows s)" "gm_role m = ''owner''" "gm_status m = ''active''"
  obtain m0 where m0: "m0 \<in> set (member_rows s)" "gm_group m0 = gid" "gm_user m0 = u" "gm_role m0 = r"
    using assms(3) by (elim role_row)
  have "\<not> (gm_group m = gid \<and> gm_user m = u)"
    using member_unique [OF assms(2) m(1) m0(1)] m0 m(2) assms(4) by auto
  with m show "\<exists>m'\<in>set (member_rows ((set_status gid u st s)\<lparr>conv_members := cms\<rparr>)). gm_group m' = gm_group m \<and> gm_user m' = gm_user m
     \<and> gm_role m' = ''owner'' \<and> gm_status m' = ''active''"
    by (intro bexI [of _ m]) (auto simp: set_status_def in_upd_iff)
qed (use assms(1) in \<open>auto simp: set_status_def in_upd_iff one_owner_def split: if_splits\<close>)

lemma one_owner_transfer:
  assumes "one_owner s" "com_keyed s" "community_role gid actor s = Some ''owner''" "target \<noteq> actor" "community_role gid target s = Some tr"
  shows "one_owner (set_owner gid target (hand_over gid actor target s))"
proof -
  let ?s = "set_owner gid target (hand_over gid actor target s)"
  let ?f = "\<lambda>m. if gm_group m = gid \<and> (gm_user m = actor \<or> gm_user m = target)
     then m\<lparr>gm_role := (if gm_user m = target then ''owner'' else ''member'')\<rparr> else m"
  have rows: "set (member_rows ?s) = ?f ` set (member_rows s)"
    by (simp add: set_owner_def hand_over_def set_upd)
  have groups: "set (group_rows ?s) = (\<lambda>g. if gr_id g = gid then g\<lparr>gr_owner := target\<rparr> else g) ` set (group_rows s)"
    by (simp add: set_owner_def hand_over_def set_upd)
  have ids: "gr_id ` set (group_rows ?s) = gr_id ` set (group_rows s)" unfolding groups image_image by (rule image_cong) auto
  obtain t where t: "t \<in> set (member_rows s)" "gm_group t = gid" "gm_user t = target" "gm_status t = ''active''"
    using assms(5) by (elim role_row)
  have own: "gr_owner g = actor" if "g \<in> set (group_rows s)" "gr_id g = gid" for g
    by (rule owner_of_row [OF assms(1-3) that])
  show ?thesis
    unfolding one_owner_def
  proof (intro conjI ballI)
    fix m assume "m \<in> set (member_rows ?s)"
    then show "gm_group m \<in> gr_id ` set (group_rows ?s)" unfolding ids using assms(1) by (auto simp: rows one_owner_def)
  next
    fix g assume "g \<in> set (group_rows ?s)"
    then obtain g0 where g0: "g0 \<in> set (group_rows s)" "g = (if gr_id g0 = gid then g0\<lparr>gr_owner := target\<rparr> else g0)" by (auto simp: groups)
    show "\<exists>m\<in>set (member_rows ?s). gm_group m = gr_id g \<and> gm_user m = gr_owner g \<and> gm_role m = ''owner'' \<and> gm_status m = ''active''"
    proof (cases "gr_id g0 = gid")
      case True
      then show ?thesis using t g0 by (intro bexI [of _ "?f t"]) (auto simp: rows)
    next
      case False
      with assms(1) g0 obtain m where "m \<in> set (member_rows s)" "gm_group m = gr_id g0" "gm_user m = gr_owner g0" "gm_role m = ''owner''"
        "gm_status m = ''active''" by (auto simp: one_owner_def)
      then show ?thesis using False g0 by (intro bexI [of _ "?f m"]) (auto simp: rows)
    qed
  next
    fix g m assume "g \<in> set (group_rows ?s)" "m \<in> set (member_rows ?s)"
    then obtain g0 m0 where g0: "g0 \<in> set (group_rows s)" "g = (if gr_id g0 = gid then g0\<lparr>gr_owner := target\<rparr> else g0)"
      and m0: "m0 \<in> set (member_rows s)" "m = ?f m0" by (auto simp: groups rows)
    have old: "gm_group m0 = gr_id g0 \<Longrightarrow> gm_role m0 = ''owner'' \<Longrightarrow> gm_user m0 = gr_owner g0"
      using assms(1) g0 m0 by (auto simp: one_owner_def)
    show "gm_group m = gr_id g \<and> gm_role m = ''owner'' \<longrightarrow> gm_user m = gr_owner g"
      using old own [OF g0(1)] g0(2) m0(2) by (auto split: if_splits)
  qed
qed

lemma com_act_one_owner: "com_act actor now s s' \<Longrightarrow> com_keyed s \<Longrightarrow> one_owner s \<Longrightarrow> one_owner s'"
proof (induction rule: com_act.induct)
  case (found gid nm ps cms)
  then have "gm_group m \<noteq> gid" if "m \<in> set (member_rows s)" for m using that by (auto simp: one_owner_def)
  with found show ?case by (auto simp: one_owner_def group_member_def)
next
  case (join gid cms)
  let ?rows = "upsert same_member (\<lambda>m. m\<lparr>gm_status := ''active''\<rparr>) (group_member gid actor ''member'' now) (member_rows s)"
  show ?case
  proof (rule one_owner_rows [OF join(4)])
    fix m assume m: "m \<in> set (member_rows s)" "gm_status m = ''active''"
    have "m\<lparr>gm_status := ''active''\<rparr> = m" using m(2) by (cases m) simp
    with m(1) have "m \<in> set ?rows" by (cases "list_ex (same_member (group_member gid actor ''member'' now)) (member_rows s)")
       (auto simp: upsert_def in_upd_iff intro!: bexI [of _ m])
    then show "\<exists>m'\<in>set (member_rows (s\<lparr>member_rows := ?rows, conv_members := cms\<rparr>)). gm_group m' = gm_group m
        \<and> gm_user m' = gm_user m \<and> gm_role m' = ''owner'' \<and> gm_status m' = ''active''"
      if "gm_role m = ''owner''" using that m(2) by auto
  qed (use join in \<open>auto simp: upsert_def in_upd_iff same_member_def group_member_def one_owner_def split: if_splits\<close>)
next
  case (leave gid r cms)
  then show ?case by (intro one_owner_leaver)
next
  case (remove gid r target tr cms)
  then show ?case by (intro one_owner_leaver)
next
  case (transfer gid target tr)
  then show ?case by (intro one_owner_transfer)
qed (auto simp: one_owner_def with_post_def)

lemma com_step_one_owner: "com_step s s' \<Longrightarrow> com_keyed s \<Longrightarrow> one_owner s \<Longrightarrow> one_owner s'"
  by (induction rule: com_step.induct) (auto dest!: com_act_one_owner simp: one_owner_def)

section \<open>Replies\<close>

definition flat_replies :: "cdb \<Rightarrow> bool" where
  "flat_replies s \<longleftrightarrow> (\<forall>d\<in>set (comments s). \<forall>i. cc_Parent d = Some i \<longrightarrow>
     (\<exists>q\<in>set (comments s). cc_ID q = i \<and> cc_Post q = cc_Post d \<and> cc_Parent q = None))"

lemma com_act_flat_replies: "com_act actor now s s' \<Longrightarrow> flat_replies s \<Longrightarrow> flat_replies s'"
proof (induction rule: com_act.induct)
  case (comment p r d es)
  then show ?case by (auto simp: flat_replies_def)
qed (simp_all add: flat_replies_def with_post_def set_status_def set_owner_def hand_over_def)

lemma com_step_flat_replies: "com_step s s' \<Longrightarrow> flat_replies s \<Longrightarrow> flat_replies s'"
  by (induction rule: com_step.induct) (auto dest!: com_act_flat_replies simp: flat_replies_def)

section \<open>Versions of a post\<close>

text \<open>The post is still there, in its community and with its author; the same version is the same post; what is deleted stays.\<close>

definition grown_from :: "post_row \<Rightarrow> cdb \<Rightarrow> bool" where
  "grown_from p0 s \<longleftrightarrow> (\<exists>p\<in>set (posts s). po_ID p = po_ID p0 \<and> po_GroupID p = po_GroupID p0 \<and> po_AuthorID p = po_AuthorID p0
     \<and> po_Kind p = po_Kind p0 \<and> po_CreatedAt p = po_CreatedAt p0 \<and> po_Version p0 \<le> po_Version p
     \<and> (po_Version p = po_Version p0 \<or> po_Status p0 = ''deleted'' \<longrightarrow> p = p0))"

lemma com_act_grown: "com_act actor now s s' \<Longrightarrow> com_keyed s \<Longrightarrow> grown_from p0 s \<Longrightarrow> grown_from p0 s'"
proof (induction rule: com_act.induct)
  case (edit p r pinned featured status bo ti)
  from edit(7) obtain q where q: "q \<in> set (posts s)" "po_ID q = po_ID p0" "po_GroupID q = po_GroupID p0" "po_AuthorID q = po_AuthorID p0"
     "po_Kind q = po_Kind p0" "po_CreatedAt q = po_CreatedAt p0" "po_Version p0 \<le> po_Version q"
     "po_Version q = po_Version p0 \<or> po_Status p0 = ''deleted'' \<longrightarrow> q = p0"
    by (auto simp: grown_from_def)
  let ?p = "p\<lparr>po_Title := ti, po_Body := bo, po_Status := status, po_Pinned := pinned, po_Featured := featured,
     po_Version := po_Version p + 1, po_UpdatedAt := now\<rparr>"
  show ?case
  proof (cases "po_ID q = po_ID p")
    case True
    have "q = p" by (rule key_row_unique [of po_ID "posts s"]) (use edit(1,6) q(1) True in \<open>auto simp: com_keyed_def\<close>)
    moreover have "?p \<in> set (posts (with_post p ?p s))" using edit(1) by (force simp: with_post_def)
    moreover have "po_Status p0 \<noteq> ''deleted''" using q(8) edit(3) \<open>q = p\<close> by auto
    moreover have "po_Version p0 < po_Version ?p" using q(7) \<open>q = p\<close> by simp
    ultimately show ?thesis unfolding grown_from_def using q(2-6) by (intro bexI [of _ ?p]) simp_all
  next
    case False
    then have "q \<in> set (posts (with_post p ?p s))" using q(1) by (force simp: with_post_def)
    then show ?thesis unfolding grown_from_def using q by (intro bexI [of _ q]) auto
  qed
qed (auto simp: grown_from_def set_status_def set_owner_def hand_over_def)

lemma com_step_grown: "com_step s s' \<Longrightarrow> com_keyed s \<Longrightarrow> grown_from p0 s \<Longrightarrow> grown_from p0 s'"
  by (induction rule: com_step.induct) (auto dest!: com_act_grown simp: grown_from_def)

section \<open>Column values\<close>

definition member_typed :: "member_row \<Rightarrow> bool" where
  "member_typed m \<longleftrightarrow> gm_role m \<in> {''owner'', ''admin'', ''member''} \<and> gm_status m \<in> {''active'', ''left'', ''removed''}"

definition post_typed :: "post_row \<Rightarrow> bool" where
  "post_typed p \<longleftrightarrow> po_Kind p \<in> {''question'', ''note'', ''resource'', ''announcement''}
     \<and> po_Status p \<in> {''published'', ''hidden'', ''deleted''} \<and> 1 \<le> po_Version p"

definition com_typed :: "cdb \<Rightarrow> bool" where
  "com_typed s \<longleftrightarrow> (\<forall>m\<in>set (member_rows s). member_typed m) \<and> (\<forall>p\<in>set (posts s). post_typed p)"

lemma member_typed_simps [simp]:
  "member_typed (group_member gid u ''owner'' now)" "member_typed (group_member gid u ''member'' now)"
  "member_typed m \<Longrightarrow> member_typed (m\<lparr>gm_status := ''active''\<rparr>)"
  "member_typed m \<Longrightarrow> member_typed (m\<lparr>gm_status := ''left''\<rparr>)"
  "member_typed m \<Longrightarrow> member_typed (m\<lparr>gm_status := ''removed''\<rparr>)"
  "member_typed m \<Longrightarrow> member_typed (m\<lparr>gm_role := ''owner''\<rparr>)"
  "member_typed m \<Longrightarrow> member_typed (m\<lparr>gm_role := ''member''\<rparr>)"
  by (simp_all add: member_typed_def group_member_def)

lemma new_post_typed: "validPost inp = Inr () \<Longrightarrow> post_typed (new_post pid gid actor inp now)"
  by (simp add: post_typed_def new_post_def validPost_def split: if_splits)

lemma com_act_typed: "com_act actor now s s' \<Longrightarrow> com_typed s \<Longrightarrow> com_typed s'"
proof (induction rule: com_act.induct)
  case (join gid cms)
  then show ?case by (auto simp: com_typed_def upsert_def in_upd_iff)
next
  case (edit p r pinned featured status bo ti)
  then have p: "post_typed p" by (simp add: com_typed_def)
  then have "status \<in> {''published'', ''hidden'', ''deleted''}" using edit(5) unfolding post_typed_def by blast
  with p have "post_typed (p\<lparr>po_Title := ti, po_Body := bo, po_Status := status, po_Pinned := pinned, po_Featured := featured,
     po_Version := po_Version p + 1, po_UpdatedAt := now\<rparr>)" by (simp add: post_typed_def)
  with edit(6) show ?case by (auto simp: com_typed_def with_post_def)
qed (auto simp: com_typed_def set_status_def set_owner_def hand_over_def new_post_typed in_upd_iff split: if_split_asm)

lemma com_step_typed: "com_step s s' \<Longrightarrow> com_typed s \<Longrightarrow> com_typed s'"
  by (induction rule: com_step.induct) (auto dest!: com_act_typed simp: com_typed_def)

section \<open>A community to look at\<close>

definition demo_com :: com_cfg where
  "demo_com = \<lparr>uuid = \<lambda>n. replicate n (CHR ''x''), fingerprint = \<lambda>op inp. op, bcrypt_hash = \<lambda>n p. Inr (''#'' @ p),
     cursor_json = \<lambda>(p, t, i). i, read_cursor_json = \<lambda>b. Some (False, 1, b), sql_is_number = \<lambda>t n. t = itoa n, sql_sha2 = \<lambda>t. t\<rparr>"

definition demo_post :: post_row where
  "demo_post = \<lparr>po_ID = ''p1'', po_GroupID = ''g1'', po_AuthorID = ''bo'', po_Kind = ''note'', po_Title = ''t'', po_Body = ''b'',
     po_Status = ''published'', po_Pinned = False, po_Featured = False, po_Version = 1, po_CreatedAt = 1, po_UpdatedAt = 1\<rparr>"

definition demo_comment :: comment_row where
  "demo_comment = \<lparr>cc_ID = ''c1'', cc_Post = ''p1'', cc_Author = ''al'', cc_Parent = None, cc_Body = ''hm'', cc_CreatedAt = 2\<rparr>"

definition demo_input :: com_input where
  "demo_input = \<lparr>RequestID = ''r1'', in_Name = ''n'', in_Description = [], in_Kind = ''note'', in_Title = ''t2'', in_Body = ''b2'',
     in_ExpectedVersion = 1, in_Status = [], in_Pinned = False, in_Featured = False, in_ParentID = [], in_AttachmentIDs = [],
     in_UserID = ''bo''\<rparr>"

definition demo_account :: "string \<Rightarrow> user_row" where
  "demo_account u = \<lparr>us_ID = u, us_Username = u, us_Password = ''#'', us_Avatar = [], us_Status = 1\<rparr>"

definition demo_cdb :: cdb where
  "demo_cdb = tdb.extend (demo_tdb\<lparr>users := [demo_account ''al'', demo_account ''bo''],
       group_rows := [\<lparr>gr_id = ''g1'', gr_name = ''G'', gr_owner = ''al'', gr_status = ''active'', gr_created_at = 1\<rparr>]\<rparr>)
     \<lparr>profiles = [], posts = [demo_post], comments = [demo_comment], reactions = [], post_attachments = [], com_requests = [],
      com_outbox = [], inbox = [], com_topic = []\<rparr>"

lemma demo_cdb_simps [exec_defs]:
  "users demo_cdb = [demo_account ''al'', demo_account ''bo'']"
  "group_rows demo_cdb = [\<lparr>gr_id = ''g1'', gr_name = ''G'', gr_owner = ''al'', gr_status = ''active'', gr_created_at = 1\<rparr>]"
  "member_rows demo_cdb = member_rows demo_world" "profiles demo_cdb = []" "posts demo_cdb = [demo_post]"
  "comments demo_cdb = [demo_comment]" "reactions demo_cdb = []" "post_attachments demo_cdb = []" "com_requests demo_cdb = []"
  "com_outbox demo_cdb = []" "inbox demo_cdb = []" "com_topic demo_cdb = []" "attachments demo_cdb = []" "conv_members demo_cdb = []"
  by (simp_all add: demo_cdb_def tdb.defs demo_tdb_def im.defs demo_world_def empty_im_def)

lemma demo_keyed: "com_keyed demo_cdb"
  by (simp add: com_keyed_def demo_cdb_simps demo_world_simps)

section \<open>Properties\<close>

text \<open>C30. The community service refines its rules: founding, joining, leaving, removing, handing over, posting, editing,
  commenting and liking change the store only by steps of \<open>com_step\<close>, which fixes who may make which change, and that a change
  other than a like is recorded under a new request id of an enabled account, so every condition that these
  steps and the other processes keep survives every operation, whatever calls fail and whatever the caller sends.\<close>

theorem community_follows_its_rules:
  assumes "relies env I" "closed_under com_step I" "\<And>s. I s \<Longrightarrow> com_keyed s" "I s"
  shows "wp (serve_community c env actor call) (\<lambda>_. I) s"
  by (rule keeps_wp [OF keeps_serve_community [OF assms(1-3)] assms(4)])

theorem community_follows_its_rules_witness:
  "wp (serve_community demo_com (fails_from 7 9) ''al'' (DoMembership ''g1'' ''transfer'' demo_input)) (\<lambda>_. com_keyed) demo_cdb"
  by (rule community_follows_its_rules) (simp_all add: closed_under_def com_step_keyed demo_keyed)

text \<open>Whatever operation runs and whatever fails, each community keeps exactly one member with the role of owner, an active one.\<close>

lemma community_has_one_owner:
  assumes "relies env (\<lambda>s. com_keyed s \<and> one_owner s)" "com_keyed s \<and> one_owner s"
  shows "wp (serve_community c env actor call) (\<lambda>_ s'. com_keyed s' \<and> one_owner s') s"
proof (rule keeps_wp [OF keeps_serve_community [OF assms(1)] assms(2)])
  show "closed_under com_step (\<lambda>s. com_keyed s \<and> one_owner s)"
    by (simp add: closed_under_def com_step_keyed com_step_one_owner)
qed simp

text \<open>A version of a post is one text: from a state that holds a post, every operation leaves a post of the same id, community, author, kind
  and creation time whose version is not smaller; with the same version it is the very same post, and a deleted post never changes again.\<close>

theorem version_identifies_post:
  assumes "relies env (\<lambda>s. com_keyed s \<and> grown_from p s)" "com_keyed s \<and> grown_from p s"
  shows "wp (serve_community c env actor call) (\<lambda>_ s'. com_keyed s' \<and> grown_from p s') s"
proof (rule keeps_wp [OF keeps_serve_community [OF assms(1)] assms(2)])
  show "closed_under com_step (\<lambda>s. com_keyed s \<and> grown_from p s)"
    by (simp add: closed_under_def com_step_keyed com_step_grown)
qed simp

theorem version_identifies_post_witness:
  "wp (serve_community demo_com (calm 9) ''bo'' (DoEdit ''p1'' demo_input)) (\<lambda>_ s'. com_keyed s' \<and> grown_from demo_post s') demo_cdb"
  by (rule version_identifies_post) (simp_all add: demo_keyed grown_from_def demo_cdb_simps)

text \<open>C33. The store stays well typed: roles and membership states, kinds and states of posts keep to the values of their columns and versions start at one,
  and a reply answers a comment of the same post that is not itself a reply, after every operation.\<close>

theorem community_store_is_well_typed:
  assumes "relies env (\<lambda>s. com_keyed s \<and> com_typed s \<and> flat_replies s)" "com_keyed s \<and> com_typed s \<and> flat_replies s"
  shows "wp (serve_community c env actor call) (\<lambda>_ s'. com_keyed s' \<and> com_typed s' \<and> flat_replies s') s"
proof (rule keeps_wp [OF keeps_serve_community [OF assms(1)] assms(2)])
  show "closed_under com_step (\<lambda>s. com_keyed s \<and> com_typed s \<and> flat_replies s)"
    by (simp add: closed_under_def com_step_keyed com_step_typed com_step_flat_replies)
qed simp

theorem community_store_is_well_typed_witness:
  "wp (serve_community demo_com (calm 9) ''bo'' (DoComment ''p1'' (demo_input\<lparr>in_ParentID := ''c1''\<rparr>)))
     (\<lambda>_ s'. com_keyed s' \<and> com_typed s' \<and> flat_replies s') demo_cdb"
  by (rule community_store_is_well_typed)
     (simp_all add: demo_keyed com_typed_def member_typed_def post_typed_def flat_replies_def demo_cdb_simps demo_world_simps demo_post_def demo_comment_def)

end
