(* ===== verification/Contacts.thy ===== *)
theory Contacts
  imports Community_Safety Relations
begin

text \<open>
  Friends and groups as the gateway manages them: cmd/gateway/internal/logic/friendlogic.go, groupcreatelogic.go,
  groupmemberslogic.go and usergroupslogic.go.  The user is the one the access token names.  The lemmas show that
  friendship is mutual and, beside the friendships the database is seeded with, rests on a request, and that a group is founded with its creator as only owner,
  so the invariant of communities holds for every group.
\<close>

section \<open>State\<close>

record friend_request_row =
  fq_from :: string
  fq_to :: string
  fq_message :: string
  fq_status :: string
  fq_created_at :: int
  fq_updated_at :: int

record fdb = cdb +
  friend_requests :: "friend_request_row list"

record friend_response =
  fp_FromUserID :: string
  fp_ToUserID :: string
  fp_Status :: string
  fp_UpdatedAt :: int

section \<open>Friends\<close>

definition userExists :: "('b fdb_scheme) env \<Rightarrow> string \<Rightarrow> ('b fdb_scheme, gerr + bool) io" where
  "userExists env uid = then_ok (query env (\<lambda>s. find (\<lambda>u. us_ID u = uid) (users s))) (\<lambda>row. ok (row \<noteq> None))"

definition friendRelationNormal :: "('b fdb_scheme) env \<Rightarrow> string \<Rightarrow> string \<Rightarrow> ('b fdb_scheme, gerr + bool) io" where
  "friendRelationNormal env uid friendID =
     then_ok (query env (\<lambda>s. find (\<lambda>r. fr_user r = uid \<and> fr_friend r = friendID) (friend_rows s))) (\<lambda>row.
       ok (case row of Some r \<Rightarrow> fr_status r = ''normal'' | None \<Rightarrow> False))"

definition same_request :: "friend_request_row \<Rightarrow> friend_request_row \<Rightarrow> bool" where
  "same_request a b \<longleftrightarrow> fq_from a = fq_from b \<and> fq_to a = fq_to b"

definition ask_again :: "string \<Rightarrow> int \<Rightarrow> friend_request_row \<Rightarrow> friend_request_row" where
  "ask_again message now r = r\<lparr>fq_message := message, fq_status := ''pending'', fq_updated_at := now\<rparr>"

definition put_request :: "string \<Rightarrow> string \<Rightarrow> string \<Rightarrow> int \<Rightarrow> ('b fdb_scheme) \<Rightarrow> 'b fdb_scheme" where
  "put_request frm to message now s = s\<lparr>friend_requests := upsert same_request (ask_again message now)
     \<lparr>fq_from = frm, fq_to = to, fq_message = message, fq_status = ''pending'', fq_created_at = now, fq_updated_at = now\<rparr>
     (friend_requests s)\<rparr>"

definition ApplyFriend :: "bool \<Rightarrow> ('b fdb_scheme) env \<Rightarrow> string \<Rightarrow> string \<Rightarrow> string \<Rightarrow> ('b fdb_scheme, gerr + friend_response) io" where
  "ApplyFriend db env fromUID target message =
     (if \<not> db then err (Msg ''database is required'')
      else let toUID = trim_space target in
      if fromUID = [] \<or> toUID = [] then err (Msg ''target_user_id is required'')
      else if fromUID = toUID then err (Msg ''cannot apply to yourself'')
      else then_ok (userExists env toUID) (\<lambda>exists.
        if \<not> exists then err (Msg (''target user '' @ toUID @ '' not found''))
        else then_ok (friendRelationNormal env fromUID toUID) (\<lambda>normal.
          State_Monad.bind (clock env) (\<lambda>now.
          if normal then ok \<lparr>fp_FromUserID = fromUID, fp_ToUserID = toUID, fp_Status = ''accepted'', fp_UpdatedAt = now\<rparr>
          else then_ok (update_w env (put_request fromUID toUID message now)) (\<lambda>_.
            ok \<lparr>fp_FromUserID = fromUID, fp_ToUserID = toUID, fp_Status = ''pending'', fp_UpdatedAt = now\<rparr>)))))"

definition same_friend :: "friend_row \<Rightarrow> friend_row \<Rightarrow> bool" where
  "same_friend a b \<longleftrightarrow> fr_user a = fr_user b \<and> fr_friend a = fr_friend b"

definition befriend :: "string \<Rightarrow> string \<Rightarrow> int \<Rightarrow> ('b fdb_scheme) \<Rightarrow> 'b fdb_scheme" where
  "befriend uid friendID now s = s\<lparr>friend_rows := upsert same_friend (\<lambda>r. r\<lparr>fr_status := ''normal'', fr_updated_at := now\<rparr>)
     \<lparr>fr_user = uid, fr_friend = friendID, fr_status = ''normal'', fr_updated_at = now\<rparr> (friend_rows s)\<rparr>"

definition upsertFriendRelation :: "('b fdb_scheme) env \<Rightarrow> string \<Rightarrow> string \<Rightarrow> int \<Rightarrow> ('b fdb_scheme, gerr + unit) io" where
  "upsertFriendRelation tx uid friendID now = update_w tx (befriend uid friendID now)"

definition answer_request :: "string \<Rightarrow> string \<Rightarrow> string \<Rightarrow> int \<Rightarrow> ('b fdb_scheme) \<Rightarrow> (gerr + nat) \<times> 'b fdb_scheme" where
  "answer_request fromUID toUID status now =
     run_update friend_requests friend_requests_update (\<lambda>r. fq_from r = fromUID \<and> fq_to r = toUID \<and> fq_status r = ''pending'')
       (\<lambda>r. r\<lparr>fq_status := status, fq_updated_at := now\<rparr>)"

definition respond_tx :: "string \<Rightarrow> string \<Rightarrow> string \<Rightarrow> int \<Rightarrow> ('b fdb_scheme) env \<Rightarrow> ('b fdb_scheme, friend_response tx_end) io" where
  "respond_tx fromUID toUID status now tx =
     then_tx (exec tx (answer_request fromUID toUID status now)) (\<lambda>affected.
     if affected = 0 then State_Monad.return (Rollback (Inl (Msg ''pending friend request not found'')))
     else then_tx (if status = ''accepted'' then then_ok (upsertFriendRelation tx fromUID toUID now) (\<lambda>_. upsertFriendRelation tx toUID fromUID now)
                   else ok ()) (\<lambda>_.
       State_Monad.return (Commit (Inr \<lparr>fp_FromUserID = fromUID, fp_ToUserID = toUID, fp_Status = status, fp_UpdatedAt = now\<rparr>))))"

definition Respond :: "bool \<Rightarrow> ('b fdb_scheme) env \<Rightarrow> string \<Rightarrow> string \<Rightarrow> string \<Rightarrow> ('b fdb_scheme, gerr + friend_response) io" where
  "Respond db env toUID from_user action0 =
     (if \<not> db then err (Msg ''database is required'')
      else let fromUID = trim_space from_user; action = to_lower (trim_space action0) in
      if fromUID = [] then err (Msg ''from_user_id is required'')
      else if action \<noteq> ''accept'' \<and> action \<noteq> ''reject'' then err (Msg ''action must be accept or reject'')
      else let status = (if action = ''accept'' then ''accepted'' else ''rejected'') in
        State_Monad.bind (clock env) (\<lambda>now. in_tx env (respond_tx fromUID toUID status now)))"

record friend_info =
  fi_UserID :: string
  fi_Username :: string
  fi_Avatar :: string
  fi_IsBot :: bool
  fi_Status :: string
  fi_UpdatedAt :: int

definition friend_view :: "('b fdb_scheme) \<Rightarrow> friend_row \<Rightarrow> friend_info" where
  "friend_view s r =
     (let u = find (\<lambda>u. us_ID u = fr_friend r) (users s);
          name = (case u of Some u \<Rightarrow> us_Username u | None \<Rightarrow> [])
      in \<lparr>fi_UserID = fr_friend r, fi_Username = name, fi_Avatar = (case u of Some u \<Rightarrow> us_Avatar u | None \<Rightarrow> []),
          fi_IsBot = (has_prefix (to_lower name) ''ai_'' \<or> contains_sub (to_lower name) ''assistant''),
          fi_Status = fr_status r, fi_UpdatedAt = fr_updated_at r\<rparr>)"

definition ListFriends :: "bool \<Rightarrow> ('b fdb_scheme) env \<Rightarrow> string \<Rightarrow> ('b fdb_scheme, gerr + friend_info list) io" where
  "ListFriends db env uid =
     (if \<not> db then ok []
      else query env (\<lambda>s. map (friend_view s) (order_desc fr_updated_at
        (filter (\<lambda>r. fr_user r = uid \<and> fr_status r = ''normal'') (friend_rows s)))))"

definition ListRequests :: "bool \<Rightarrow> ('b fdb_scheme) env \<Rightarrow> string \<Rightarrow> ('b fdb_scheme, gerr + friend_request_row list) io" where
  "ListRequests db env uid =
     (if \<not> db then ok []
      else query env (\<lambda>s. order_desc fq_updated_at (filter (\<lambda>r. fq_to r = uid \<and> fq_status r = ''pending'') (friend_requests s))))"

section \<open>Groups\<close>

text \<open>
  The member set in the order of the request; Go's order of a map is unspecified, and the inserts of different
  members touch different rows.
\<close>

definition member_set :: "string \<Rightarrow> string list \<Rightarrow> string list" where
  "member_set creatorID members = creatorID # filter (\<lambda>m. m \<noteq> creatorID) (remdups (filter (\<lambda>m. m \<noteq> []) (map trim_space members)))"

definition enrol :: "string \<Rightarrow> string \<Rightarrow> int \<Rightarrow> string \<Rightarrow> ('b cdb_scheme) \<Rightarrow> 'b cdb_scheme" where
  "enrol gid creatorID now member s = s\<lparr>member_rows := upsert same_member
     (\<lambda>m. m\<lparr>gm_role := (if gm_user m = creatorID then ''owner'' else gm_role m), gm_status := ''active''\<rparr>)
     (group_member gid member (if member = creatorID then ''owner'' else ''member'') now) (member_rows s)\<rparr>"

definition enrol_reader :: "string \<Rightarrow> int \<Rightarrow> string \<Rightarrow> ('b cdb_scheme) \<Rightarrow> 'b cdb_scheme" where
  "enrol_reader gid now member s = s\<lparr>conv_members := upsert same_conv_member
     (\<lambda>m. m\<lparr>cm_joined_at := min (cm_joined_at m) now\<rparr>) (group_reader gid member now) (conv_members s)\<rparr>"

definition create_group_tx :: "string \<Rightarrow> string \<Rightarrow> string \<Rightarrow> string list \<Rightarrow> int \<Rightarrow> ('b cdb_scheme) env \<Rightarrow> ('b cdb_scheme, unit tx_end) io" where
  "create_group_tx gid groupName creatorID memberSet now tx =
     State_Monad.bind (exec tx (run_insert group_rows group_rows_update (ins group_keys
        \<lparr>gr_id = gid, gr_name = groupName, gr_owner = creatorID, gr_status = ''active'', gr_created_at = now\<rparr>))) (\<lambda>res.
     case res of
       Inl e \<Rightarrow> State_Monad.return (Rollback (Inl (if is_dup_key e then Msg ''group already exists'' else e)))
     | Inr _ \<Rightarrow>
         then_tx (each (\<lambda>m. update_w tx (enrol gid creatorID now m)) memberSet) (\<lambda>_.
         then_tx (each (\<lambda>m. update_w tx (enrol_reader gid now m)) memberSet) (\<lambda>_.
         State_Monad.return (Commit (Inr ())))))"

definition cache_members :: "string \<Rightarrow> string list \<Rightarrow> redis \<Rightarrow> redis" where
  "cache_members gid memberSet r =
     fold (\<lambda>m r. r_sadd (''user_groups:'' @ m) gid (r_sadd (''group_members:'' @ gid) m r)) memberSet r"

definition CreateGroup :: "bool \<Rightarrow> bool \<Rightarrow> ('b cdb_scheme) env \<Rightarrow> string \<Rightarrow> string \<Rightarrow> string \<Rightarrow> string list \<Rightarrow> ('b cdb_scheme, gerr + string \<times> nat) io" where
  "CreateGroup db rdb env creatorID gid name members =
     (if gid = [] \<or> members = [] then err (Msg ''group_id and members are required'')
      else if \<not> db then err (Msg ''group store is unavailable'')
      else if creatorID = [] then err (Msg ''authenticated creator is required'')
      else let memberSet = member_set creatorID members;
               groupName = (if trim_space name = [] then gid else trim_space name) in
        State_Monad.bind (clock env) (\<lambda>now.
        then_ok (in_tx env (create_group_tx gid groupName creatorID memberSet now)) (\<lambda>_.
        ignore (if rdb then update_w env (on_rds (cache_members gid memberSet)) else ok ())
          (ok (gid, length memberSet)))))"

definition role_index :: "string \<Rightarrow> nat" where
  "role_index r = (if r = ''owner'' then 1 else if r = ''admin'' then 2 else if r = ''member'' then 3 else 0)"

definition ListGroupMembers :: "bool \<Rightarrow> ('b cdb_scheme) env \<Rightarrow> string \<Rightarrow> string \<Rightarrow> ('b cdb_scheme, gerr + member_row list) io" where
  "ListGroupMembers db env requesterID group_id =
     (let groupID = trim_space group_id in
      if groupID = [] then err (Msg ''group_id is required'')
      else if \<not> db then err (Msg ''group membership store is unavailable'')
      else if requesterID = [] then err (Msg ''authenticated user is required'')
      else then_ok (query env (member_row_of groupID requesterID)) (\<lambda>row.
        if (case row of Some m \<Rightarrow> gm_status m \<noteq> ''active'' | None \<Rightarrow> True) then err (Msg ''requester is not an active group member'')
        else query env (\<lambda>s. order_asc (\<lambda>m. (role_index (gm_role m), gm_joined_at m))
          (filter (\<lambda>m. gm_group m = groupID \<and> gm_status m = ''active'') (member_rows s)))))"

definition ListUserGroups :: "bool \<Rightarrow> ('b cdb_scheme) env \<Rightarrow> string \<Rightarrow> ('b cdb_scheme, gerr + string list) io" where
  "ListUserGroups db env uid =
     (if db then query env (\<lambda>s. map gm_group (order_desc gm_joined_at
         (filter (\<lambda>m. gm_user m = uid \<and> gm_status m = ''active'') (member_rows s))))
      else query env (\<lambda>s. rsets (rds s) (''user_groups:'' @ uid)))"

text \<open>What a run unfolds.\<close>

lemmas contacts_run [exec_defs] =
  userExists_def friendRelationNormal_def same_request_def ask_again_def put_request_def ApplyFriend_def same_friend_def befriend_def
  upsertFriendRelation_def answer_request_def respond_tx_def Respond_def friend_view_def ListFriends_def ListRequests_def
  member_set_def enrol_def enrol_reader_def create_group_tx_def cache_members_def CreateGroup_def role_index_def
  ListGroupMembers_def ListUserGroups_def


section \<open>Friendship\<close>

text \<open>Who counts whom as a friend, and who has asked whom.\<close>

definition friends_of :: "('b fdb_scheme) \<Rightarrow> (string \<times> string) set" where
  "friends_of s = {(u, v). \<exists>r\<in>set (friend_rows s). fr_user r = u \<and> fr_friend r = v \<and> fr_status r = ''normal''}"

definition asked :: "('b fdb_scheme) \<Rightarrow> (string \<times> string) set" where
  "asked s = (\<lambda>q. (fq_from q, fq_to q)) ` set (friend_requests s)"

text \<open>Friendship is mutual, and every one beside the given ones \<open>F\<close>, which the seeds of the database insert, was asked for.\<close>

definition friendship :: "(string \<times> string) set \<Rightarrow> ('b fdb_scheme) \<Rightarrow> bool" where
  "friendship F s \<longleftrightarrow> sym (friends_of s) \<and> friends_of s \<subseteq> F \<union> asked s \<union> (asked s)\<inverse> \<and> irrefl (asked s)"

lemma image_key_upd: "(\<And>x. k (f x) = k x) \<Longrightarrow> k ` set (upd p f rows) = k ` set rows"
  by (simp add: map_key_upd flip: set_map)

text \<open>An upsert leaves exactly one kind of new row, and every old key.\<close>

lemma upsert_rows:
  "x \<in> set (upsert same f r rows) \<Longrightarrow> x \<in> set rows \<or> x = r \<or> (\<exists>y\<in>set rows. same r y \<and> x = f y)"
  by (auto simp: upsert_def in_upd_iff split: if_splits)

lemma upsert_hit: "\<exists>x\<in>set (upsert same f r rows). x = r \<or> (\<exists>y\<in>set rows. same r y \<and> x = f y)"
  by (cases "list_ex (same r) rows") (auto simp: upsert_def set_upd list_ex_iff)

lemma upsert_old: "y \<in> set rows \<Longrightarrow> y \<in> set (upsert same f r rows) \<or> same r y \<and> f y \<in> set (upsert same f r rows)"
  by (auto simp: upsert_def in_upd_iff)

lemma friends_of_befriend [simp]: "friends_of (befriend u v now s) = insert (u, v) (friends_of s)" (is "_ = ?R")
proof (intro equalityI subrelI)
  let ?f = "\<lambda>r. r\<lparr>fr_status := ''normal'', fr_updated_at := now\<rparr>"
  let ?r = "\<lparr>fr_user = u, fr_friend = v, fr_status = ''normal'', fr_updated_at = now\<rparr>"
  let ?rows = "upsert same_friend ?f ?r (friend_rows s)"
  have rows: "friend_rows (befriend u v now s) = ?rows" by (simp add: befriend_def)
  fix a b
  show "(a, b) \<in> ?R" if "(a, b) \<in> friends_of (befriend u v now s)"
    using that upsert_rows [of _ same_friend ?f ?r "friend_rows s"] by (fastforce simp: friends_of_def rows same_friend_def)
  show "(a, b) \<in> friends_of (befriend u v now s)" if ab: "(a, b) \<in> ?R"
  proof (cases "(a, b) = (u, v)")
    case True
    obtain x where "x \<in> set ?rows" "fr_user x = u" "fr_friend x = v" "fr_status x = ''normal''"
      using upsert_hit [of same_friend ?f ?r "friend_rows s"] by (auto simp: same_friend_def)
    with True show ?thesis by (auto simp: friends_of_def rows)
  next
    case False
    with ab obtain y where y: "y \<in> set (friend_rows s)" "fr_user y = a" "fr_friend y = b" "fr_status y = ''normal''"
      by (auto simp: friends_of_def)
    with False have "y \<in> set ?rows" using upsert_old [OF y(1), of same_friend ?f ?r] by (auto simp: same_friend_def)
    with y show ?thesis by (auto simp: friends_of_def rows)
  qed
qed

lemma asked_put_request: "asked (put_request u v message now s) = insert (u, v) (asked s)"
proof -
  let ?r = "\<lparr>fq_from = u, fq_to = v, fq_message = message, fq_status = ''pending'', fq_created_at = now, fq_updated_at = now\<rparr>"
  let ?k = "\<lambda>q. (fq_from q, fq_to q)"
  have key: "?k (ask_again message now y) = ?k y" for y by (simp add: ask_again_def)
  show ?thesis
  proof (cases "list_ex (same_request ?r) (friend_requests s)")
    case True
    then have "(u, v) \<in> asked s" by (auto simp: asked_def list_ex_iff same_request_def image_iff)
    with True key show ?thesis by (simp add: asked_def put_request_def upsert_def image_key_upd insert_absorb)
  qed (simp add: asked_def put_request_def upsert_def)
qed

lemma asked_answer:
  assumes "answer_request u v status now s = (Inr n, s')"
  shows "asked s' = asked s \<and> friends_of s' = friends_of s \<and> (n \<noteq> 0 \<longrightarrow> (u, v) \<in> asked s)"
proof -
  let ?c = "\<lambda>r. fq_from r = u \<and> fq_to r = v \<and> fq_status r = ''pending''"
  let ?f = "\<lambda>r. r\<lparr>fq_status := status, fq_updated_at := now\<rparr>"
  have n: "n = affected ?c ?f (friend_requests s)" and s': "s' = s\<lparr>friend_requests := upd ?c ?f (friend_requests s)\<rparr>"
    using assms by (auto simp: answer_request_def run_update_def)
  have "asked s' = asked s" unfolding asked_def s' by (simp add: image_key_upd)
  moreover have "friends_of s' = friends_of s" by (simp add: friends_of_def s')
  moreover have "(u, v) \<in> asked s" if "n \<noteq> 0" using that by (auto simp: n affected_pos_iff asked_def)
  ultimately show ?thesis by simp
qed

lemma befriend_keeps_asked [simp]: "asked (befriend u v now s) = asked s"
  by (simp add: asked_def befriend_def)

lemma put_request_keeps_friends [simp]: "friends_of (put_request u v message now s) = friends_of s"
  by (simp add: friends_of_def put_request_def)

text \<open>What an answer says: accepted is told of friends only.\<close>

definition true_answer :: "(string \<times> string) set \<Rightarrow> (gerr + friend_response) \<Rightarrow> ('b fdb_scheme) \<Rightarrow> bool" where
  "true_answer F r s \<longleftrightarrow> friendship F s \<and> (\<forall>p. r = Inr p \<longrightarrow> fp_Status p = ''accepted'' \<longrightarrow>
     {(fp_FromUserID p, fp_ToUserID p), (fp_ToUserID p, fp_FromUserID p)} \<subseteq> friends_of s)"

lemma true_answer_Inl [simp]: "true_answer F (Inl e) s \<longleftrightarrow> friendship F s"
  by (simp add: true_answer_def)

lemma find_friend:
  "(case find (\<lambda>r. fr_user r = u \<and> fr_friend r = v) (friend_rows s) of Some r \<Rightarrow> fr_status r = ''normal'' | None \<Rightarrow> False)
   \<Longrightarrow> (u, v) \<in> friends_of s"
  by (auto simp: friends_of_def split: option.splits dest!: find_Some_iff_in)

lemma wp_ApplyFriend:
  assumes "relies env (friendship F)" "friendship F s"
  shows "wp (ApplyFriend db env fromUID target message) (true_answer F) s"
proof -
  let ?to = "trim_space target"
  have exists: "wp (userExists env ?to) (\<lambda>_. friendship F) s"
    unfolding userExists_def by (rule keeps_wp [where I = "friendship F"]) (intro keeps_rules assms)+
  have normal: "wp (friendRelationNormal env fromUID ?to) (\<lambda>r s'. friendship F s' \<and> (r = Inr True \<longrightarrow> (fromUID, ?to) \<in> friends_of s')) s1"
    if "friendship F s1" for s1
    unfolding friendRelationNormal_def
    by (rule wp_then_ok, rule wp_query_stable [OF assms(1) that]) (auto intro!: wp_ok find_friend)
  have end_fn: "wp (State_Monad.bind (clock env) (\<lambda>now. if normal
       then ok \<lparr>fp_FromUserID = fromUID, fp_ToUserID = ?to, fp_Status = ''accepted'', fp_UpdatedAt = now\<rparr>
       else then_ok (update_w env (put_request fromUID ?to message now)) (\<lambda>_.
         ok \<lparr>fp_FromUserID = fromUID, fp_ToUserID = ?to, fp_Status = ''pending'', fp_UpdatedAt = now\<rparr>))) (true_answer F) s1"
    if s1: "friendship F s1" "normal \<longrightarrow> (fromUID, ?to) \<in> friends_of s1" "fromUID \<noteq> ?to" for normal and s1
  proof (rule wp_bind, rule wp_clock, rule wp_if, goal_cases)
    case (1 now)
    with s1 show ?case by (intro wp_ok) (auto simp: true_answer_def friendship_def dest: symD)
  next
    case (2 now)
    have "friendship F (put_request fromUID ?to message now s2)" if "friendship F s2" for s2
      using that s1(3) by (auto simp: friendship_def asked_put_request irrefl_def)
    then show ?case
      by (intro wp_then_ok wp_update_stable [OF assms(1) s1(1)]) (auto intro!: wp_ok simp: true_answer_def)
  qed
  show ?thesis
    unfolding ApplyFriend_def Let_def
    apply (intro wp_if wp_err; (simp add: assms(2))?)
    apply (rule wp_then_okI [OF exists], simp)
    apply (intro wp_if wp_err; simp?)
    apply (rule wp_then_okI [OF normal], assumption, simp)
    apply (rule end_fn, auto)
    done
qed

lemma wp_respond_tx:
  fixes s :: "'b fdb_scheme"
  assumes "friendship F s"
  shows "wp (respond_tx fromUID toUID status now (quiet env)) (\<lambda>r s'. case r of Rollback x \<Rightarrow> isl x | Commit x \<Rightarrow> true_answer F x s') s"
  unfolding respond_tx_def
proof (rule wp_then_txI)
  show "wp (exec (quiet env) (answer_request fromUID toUID status now))
     (\<lambda>r s'. \<forall>n. r = Inr n \<longrightarrow> asked s' = asked s \<and> friends_of s' = friends_of s \<and> (n \<noteq> 0 \<longrightarrow> (fromUID, toUID) \<in> asked s)) s"
    by (rule wp_exec) (auto dest: asked_answer)
next
  fix n and s1 :: "'b fdb_scheme"
  assume s1: "\<forall>m. Inr n = Inr m \<longrightarrow> asked s1 = asked s \<and> friends_of s1 = friends_of s \<and> (m \<noteq> 0 \<longrightarrow> (fromUID, toUID) \<in> asked s)"
  have both: "wp (then_ok (upsertFriendRelation (quiet env) fromUID toUID now) (\<lambda>_. upsertFriendRelation (quiet env) toUID fromUID now))
     (\<lambda>r s'. \<not> isl r \<longrightarrow> s' = befriend toUID fromUID now (befriend fromUID toUID now s1)) s1"
    unfolding upsertFriendRelation_def by (rule wp_write) (auto intro: wp_update_w)
  let ?r = "\<lparr>fp_FromUserID = fromUID, fp_ToUserID = toUID, fp_Status = status, fp_UpdatedAt = now\<rparr>"
  have fin: "status = ''accepted'' \<Longrightarrow> true_answer F (Inr ?r) (befriend toUID fromUID now (befriend fromUID toUID now s1))"
       "status \<noteq> ''accepted'' \<Longrightarrow> true_answer F (Inr ?r) s1" if "n \<noteq> 0"
    using s1 that assms by (auto simp: true_answer_def friendship_def sym_def)
  show "wp (if n = 0 then State_Monad.return (Rollback (Inl (Msg ''pending friend request not found'')))
     else then_tx (if status = ''accepted'' then then_ok (upsertFriendRelation (quiet env) fromUID toUID now)
         (\<lambda>_. upsertFriendRelation (quiet env) toUID fromUID now) else ok ()) (\<lambda>_. State_Monad.return (Commit (Inr ?r))))
     (\<lambda>r s'. case r of Rollback x \<Rightarrow> isl x | Commit x \<Rightarrow> true_answer F x s') s1"
  proof (cases "n = 0")
    case False
    have "wp (if status = ''accepted'' then then_ok (upsertFriendRelation (quiet env) fromUID toUID now)
         (\<lambda>_. upsertFriendRelation (quiet env) toUID fromUID now) else ok ()) (\<lambda>r s'. \<not> isl r \<longrightarrow> true_answer F (Inr ?r) s') s1"
      by (rule wp_if, rule wp_mono [OF both]) (use fin [OF False] in \<open>auto intro: wp_ok\<close>)
    then show ?thesis using False by (auto intro!: wp_then_txI wp_return)
  qed (simp add: wp_return)
qed simp

lemma wp_Respond:
  assumes "relies env (friendship F)" "friendship F s"
  shows "wp (Respond db env toUID fromUser action) (true_answer F) s"
proof -
  have "wp (in_tx env (respond_tx fromUID toUID status now)) (true_answer F) s" for fromUID status now
  proof (rule wp_in_tx_stable [OF assms])
    fix w :: "'a fdb_scheme" assume w: "friendship F w"
    show "wp (respond_tx fromUID toUID status now (quiet env))
       (\<lambda>r w1. case r of Rollback x \<Rightarrow> true_answer F x w | Commit a \<Rightarrow> true_answer F a w1 \<and> true_answer F (Inl IoErr) w1) w"
      by (rule wp_mono [OF wp_respond_tx [OF w]]) (use w in \<open>auto simp: true_answer_def isl_def split: tx_end.splits\<close>)
  qed simp
  then show ?thesis
    unfolding Respond_def Let_def by (intro wp_if wp_err wp_bind wp_clock) (simp_all add: assms(2))
qed

section \<open>Founding a group\<close>

lemma set_member_set: "distinct (member_set creator ms)" "creator \<in> set (member_set creator ms)"
  by (simp_all add: member_set_def)

abbreviation enrolled :: "string \<Rightarrow> string \<Rightarrow> int \<Rightarrow> string \<Rightarrow> member_row" where
  "enrolled gid creator now m \<equiv> group_member gid m (if m = creator then ''owner'' else ''member'') now"

lemma enrol_new:
  assumes "(gid, m) \<notin> (\<lambda>m. (gm_group m, gm_user m)) ` set (member_rows s)"
  shows "enrol gid creator now m s = s\<lparr>member_rows := member_rows s @ [enrolled gid creator now m]\<rparr>"
  using assms by (auto simp: enrol_def upsert_def same_member_def group_member_def list_ex_iff image_iff)

lemma wp_enrol_all:
  assumes "\<forall>m\<in>set (member_rows s). gm_group m = gid \<longrightarrow> gm_user m \<notin> set ms" "distinct ms"
  shows "wp (each (\<lambda>m. update_w (quiet env) (enrol gid creator now m)) ms)
    (\<lambda>r s'. \<not> isl r \<longrightarrow> s' = s\<lparr>member_rows := member_rows s @ map (enrolled gid creator now) ms\<rparr>) s"
  using assms
proof (induction ms arbitrary: s)
  case Nil
  then show ?case by (simp add: wp_ok)
next
  case (Cons m ms)
  have new: "enrol gid creator now m s = s\<lparr>member_rows := member_rows s @ [enrolled gid creator now m]\<rparr>"
    by (rule enrol_new) (use Cons.prems in force)
  show ?case
    unfolding each.simps
  proof (rule wp_write)
    show "wp (each (\<lambda>m. update_w (quiet env) (enrol gid creator now m)) ms)
       (\<lambda>r s'. \<not> isl r \<longrightarrow> s' = s\<lparr>member_rows := member_rows s @ map (enrolled gid creator now) (m # ms)\<rparr>) (enrol gid creator now m s)"
      unfolding new by (rule wp_mono [OF Cons.IH]) (use Cons.prems in \<open>auto simp: group_member_def\<close>)
  qed simp
qed

lemma wp_enrol_readers:
  fixes s :: "'b cdb_scheme"
  shows "wp (each (\<lambda>m. update_w (quiet env) (enrol_reader gid now m)) ms) (\<lambda>_ s'. \<exists>cms. s' = s\<lparr>conv_members := cms\<rparr>) s"
proof (rule wp_each_frame)
  fix m and w :: "'b cdb_scheme"
  have same: "\<exists>cms. w = w\<lparr>conv_members := cms\<rparr>" by (rule exI [of _ "conv_members w"]) simp
  show "wp (update_w (quiet env) (enrol_reader gid now m)) (\<lambda>_ w'. \<exists>cms. w' = w\<lparr>conv_members := cms\<rparr>) w"
    by (rule wp_update_w) (use same in \<open>auto simp: enrol_reader_def\<close>)
  show "\<exists>cms. w = w\<lparr>conv_members := cms\<rparr>" by (rule same)
qed auto

text \<open>A group with its members, as it is founded.\<close>

lemma founded_one_owner:
  assumes "com_keyed s" "one_owner s" "gr_id g \<notin> gr_id ` set (group_rows s)" "distinct ms" "gr_owner g \<in> set ms"
  shows "com_keyed (s\<lparr>group_rows := group_rows s @ [g], member_rows := member_rows s @ map (enrolled (gr_id g) (gr_owner g) now) ms, conv_members := cms\<rparr>)"
    and "one_owner (s\<lparr>group_rows := group_rows s @ [g], member_rows := member_rows s @ map (enrolled (gr_id g) (gr_owner g) now) ms, conv_members := cms\<rparr>)"
proof -
  have none: "gm_group m \<noteq> gr_id g" if "m \<in> set (member_rows s)" for m
    using assms(2,3) that unfolding one_owner_def by metis
  have "inj_on (\<lambda>m. (gr_id g, m)) (set ms)" by (simp add: inj_on_def)
  with assms(1,3,4) none show "com_keyed (s\<lparr>group_rows := group_rows s @ [g],
     member_rows := member_rows s @ map (enrolled (gr_id g) (gr_owner g) now) ms, conv_members := cms\<rparr>)"
    by (auto simp: com_keyed_def group_member_def comp_def distinct_map)
  show "one_owner (s\<lparr>group_rows := group_rows s @ [g],
     member_rows := member_rows s @ map (enrolled (gr_id g) (gr_owner g) now) ms, conv_members := cms\<rparr>)"
    unfolding one_owner_def
  proof (intro conjI ballI, goal_cases)
    case (1 m)
    then show ?case using assms(2) by (auto simp: one_owner_def group_member_def)
  next
    case (2 h)
    show ?case
    proof (cases "h = g")
      case True
      then show ?thesis using assms(5) by (intro bexI [of _ "enrolled (gr_id g) (gr_owner g) now (gr_owner g)"]) (auto simp: group_member_def)
    next
      case False
      then show ?thesis using 2 assms(2) by (auto simp: one_owner_def)
    qed
  next
    case (3 h m)
    then show ?case using assms(2) none by (auto simp: one_owner_def group_member_def split: if_splits)
  qed
qed

lemma wp_create_group_tx:
  fixes s :: "'b cdb_scheme"
  assumes "com_keyed s" "one_owner s" "distinct ms" "creator \<in> set ms"
  shows "wp (create_group_tx gid groupName creator ms now (quiet env))
    (\<lambda>r s'. case r of Rollback _ \<Rightarrow> True | Commit _ \<Rightarrow> com_keyed s' \<and> one_owner s') s"
proof -
  let ?g = "\<lparr>gr_id = gid, gr_name = groupName, gr_owner = creator, gr_status = ''active'', gr_created_at = now\<rparr>"
  let ?s = "s\<lparr>group_rows := group_rows s @ [?g]\<rparr>"
  show ?thesis
    unfolding create_group_tx_def
  proof (rule wp_bindI [OF wp_insert_quiet], rule wp_case_sum)
    show "wp (State_Monad.return (Rollback (Inl (if is_dup_key e then Msg ''group already exists'' else e))))
       (\<lambda>r s'. case r of Rollback _ \<Rightarrow> True | Commit _ \<Rightarrow> com_keyed s' \<and> one_owner s') s1" for e s1
      by (simp add: wp_return)
  next
    fix r x and s1 :: "'b cdb_scheme"
    assume "\<not> isl r \<longrightarrow> (\<exists>rows. ins group_keys ?g (group_rows s) = Inr rows \<and> s1 = group_rows_update (\<lambda>_. rows) s)" "r = Inr x"
    then have s1: "s1 = ?s" and new: "gid \<notin> gr_id ` set (group_rows s)"
      by (auto simp: ins_Inr_iff clash_None_iff group_keys_def)
    have free: "\<forall>m\<in>set (member_rows ?s). gm_group m = gid \<longrightarrow> gm_user m \<notin> set ms"
      using assms(2) new by (auto simp: one_owner_def)
    show "wp (then_tx (each (\<lambda>m. update_w (quiet env) (enrol gid creator now m)) ms) (\<lambda>_.
        then_tx (each (\<lambda>m. update_w (quiet env) (enrol_reader gid now m)) ms) (\<lambda>_. State_Monad.return (Commit (Inr ())))))
       (\<lambda>r s'. case r of Rollback _ \<Rightarrow> True | Commit _ \<Rightarrow> com_keyed s' \<and> one_owner s') s1"
      unfolding s1
      by (rule wp_then_txI [OF wp_enrol_all [OF free assms(3)]], simp, rule wp_then_txI [OF wp_enrol_readers], simp, rule wp_return)
         (use founded_one_owner [OF assms(1,2), of ?g ms] new assms(3,4) in auto)
  qed
qed

lemma keeps_CreateGroup:
  assumes "relies env (\<lambda>s. com_keyed s \<and> one_owner s)"
  shows "keeps (\<lambda>s. com_keyed s \<and> one_owner s) (CreateGroup db rdb env creator gid name members)"
  unfolding CreateGroup_def Let_def
  by (intro keeps_rules keeps_in_tx keeps_update wp_create_group_tx assms set_member_set)
     (auto simp: on_rds_def com_keyed_def one_owner_def)

section \<open>Properties\<close>

definition demo_fdb :: fdb where
  "demo_fdb = cdb.extend demo_cdb \<lparr>friend_requests = [\<lparr>fq_from = ''al'', fq_to = ''bo'', fq_message = ''hi'',
     fq_status = ''pending'', fq_created_at = 1, fq_updated_at = 1\<rparr>]\<rparr>"

text \<open>The friendships \<open>sql/init.sql\<close> inserts: three accounts of which the first knows the others, and the assistant knows all.\<close>

definition seed_pairs :: "(string \<times> string) list" where
  "seed_pairs = [(''1001'', ''1002''), (''1002'', ''1001''), (''1001'', ''1003''), (''1003'', ''1001''), (''1001'', ''9001''),
     (''9001'', ''1001''), (''1002'', ''9001''), (''9001'', ''1002''), (''1003'', ''9001''), (''9001'', ''1003'')]"

definition seed_user :: "string \<Rightarrow> user_row" where
  "seed_user u = \<lparr>us_ID = u, us_Username = u, us_Password = [], us_Avatar = [], us_Status = 1\<rparr>"

definition seeded_fdb :: fdb where
  "seeded_fdb = demo_fdb\<lparr>users := map seed_user [''1001'', ''1002'', ''1003'', ''9001''],
     friend_rows := map (\<lambda>(u, v). \<lparr>fr_user = u, fr_friend = v, fr_status = ''normal'', fr_updated_at = 1710100000000\<rparr>) seed_pairs,
     friend_requests := [\<lparr>fq_from = ''1003'', fq_to = ''1002'', fq_message = ''hi'', fq_status = ''pending'',
       fq_created_at = 1, fq_updated_at = 1\<rparr>]\<rparr>"

text \<open>With the seeds as the given friendships the invariant holds from the start.\<close>

lemma seeded_friendship:
  "set seed_pairs \<subseteq> F \<Longrightarrow> friend_rows s = friend_rows seeded_fdb \<Longrightarrow> irrefl (asked s) \<Longrightarrow> friendship F s"
  by (auto simp: friendship_def friends_of_def seeded_fdb_def sym_def seed_pairs_def)

text \<open>C32. Friendship is mutual and asked for: asking for a friendship and answering a request keep it that whoever counts
  another as a friend is counted by him, that one of the two has asked the other unless their friendship is among the
  given ones \<open>F\<close> (any set; the seeds of \<open>sql/init.sql\<close> insert friendships without a request, and
  satisfy the condition), and that nobody asks himself, whatever fails; and an answer
  that says accepted is given only when both count each other as friends.\<close>

theorem friendship_is_mutual:
  assumes "relies env (friendship F)" "friendship F s"
  shows "wp (ApplyFriend db env uid target message) (true_answer F) s \<and> wp (Respond db env uid fromUser action) (true_answer F) s"
  using wp_ApplyFriend [OF assms] wp_Respond [OF assms] by blast

theorem friendship_is_mutual_witness:
  "wp (ApplyFriend True (fails_from 3 9) ''1002'' ''1003'' ''x'') (true_answer (set seed_pairs)) seeded_fdb
   \<and> wp (Respond True (fails_from 3 9) ''1002'' ''1003'' ''accept'') (true_answer (set seed_pairs)) seeded_fdb"
  by (rule friendship_is_mutual) (simp_all add: seeded_friendship asked_def irrefl_def seeded_fdb_def)

text \<open>C31. Every group has exactly one owner: whatever the community service does and whatever group the gateway creates, on whichever of its calls
  it fails, each group keeps exactly one member with the role of owner, the one its row names, and he is active; so no group is
  orphaned by leaving, removing, joining again or handing over, and nobody takes over a group by creating it again.\<close>

theorem every_group_has_one_owner:
  assumes "relies env (\<lambda>s. com_keyed s \<and> one_owner s)" "com_keyed s \<and> one_owner s"
  shows "wp (serve_community c env actor call) (\<lambda>_ s'. com_keyed s' \<and> one_owner s') s
    \<and> wp (CreateGroup db rdb env actor gid name members) (\<lambda>_ s'. com_keyed s' \<and> one_owner s') s"
  using community_has_one_owner [OF assms] keeps_wp [OF keeps_CreateGroup [OF assms(1)] assms(2)] by blast

theorem every_group_has_one_owner_witness:
  "wp (serve_community demo_com (calm 9) ''al'' (DoMembership ''g1'' ''transfer'' demo_input)) (\<lambda>_ s'. com_keyed s' \<and> one_owner s') demo_cdb
   \<and> wp (CreateGroup True True (calm 9) ''al'' ''g2'' [] [''bo'', '' al'']) (\<lambda>_ s'. com_keyed s' \<and> one_owner s') demo_cdb"
  by (rule every_group_has_one_owner) (simp_all add: demo_keyed one_owner_def demo_cdb_simps demo_world_simps)

end
