(* ===== verification/Accounts.thy ===== *)
theory Accounts
  imports Conversation Learning_Task
begin

text \<open>
  Who is who: logging in with a password (internal/logic/handler_auth.go), access tokens
  (internal/middleware/auth.go), the middleware of the gateway that reads them
  (cmd/gateway/internal/middleware/authmiddleware.go) and the single-use tickets of the websocket handshake
  (cmd/gateway/internal/middleware/wsticket.go).  bcrypt, the JWT library and SHA-256 are parameters.  The lemmas
  show that a login needs the password of an enabled account, that replacing a legacy password keeps the account
  open to the same password, and that a ticket admits its user and nobody else, once.
\<close>

section \<open>Parameters\<close>

text \<open>
  \<open>sign_token\<close> takes the secret, the user id, the expiry and the time of issue; \<open>parse_claims\<close> takes the secret, a token and the
  time, and answers the user id of the claims when the HS256 signature is right and the token has not expired.
\<close>

record auth_cfg =
  bcrypt_matches :: "string \<Rightarrow> string \<Rightarrow> bool"
  bcrypt_generate :: "nat \<Rightarrow> string \<Rightarrow> gerr + string"
  jwtSecret :: string
  sign_token :: "string \<Rightarrow> string \<Rightarrow> int \<Rightarrow> int \<Rightarrow> gerr + string"
  parse_claims :: "string \<Rightarrow> string \<Rightarrow> int \<Rightarrow> string option"
  sha256_hex :: "string \<Rightarrow> string"
  random32 :: "nat \<Rightarrow> gerr + string"

section \<open>Access tokens\<close>

definition SetJWTSecret :: "string \<Rightarrow> auth_cfg \<Rightarrow> auth_cfg" where
  "SetJWTSecret secret c = (if secret = [] then c else c\<lparr>jwtSecret := secret\<rparr>)"

definition day_ms :: int where "day_ms = 24 * 60 * 60 * 1000"

definition GenerateToken :: "auth_cfg \<Rightarrow> 'w env \<Rightarrow> string \<Rightarrow> ('w, gerr + string) io" where
  "GenerateToken c env userID =
     State_Monad.bind (clock env) (\<lambda>t1. State_Monad.bind (clock env) (\<lambda>t2.
       State_Monad.return (sign_token c (jwtSecret c) userID (t1 + day_ms) t2)))"

definition ParseToken :: "auth_cfg \<Rightarrow> 'w env \<Rightarrow> string \<Rightarrow> ('w, gerr + string) io" where
  "ParseToken c env tokenString =
     (let t = trim_space tokenString in
      if t = [] then err (Msg ''missing token'')
      else State_Monad.bind (clock env) (\<lambda>now. case parse_claims c (jwtSecret c) t now of
        None \<Rightarrow> err (Msg ''invalid or expired token'')
      | Some uid \<Rightarrow> if uid = [] then err (Msg ''invalid token claims'') else ok uid))"

definition ExtractBearerToken :: "string \<Rightarrow> string" where
  "ExtractBearerToken value0 =
     (let v = trim_space value0 in
      if v = [] then [] else if has_prefix v ''Bearer '' then trim_space (drop 7 v) else v)"

section \<open>Login\<close>

definition isBcryptHash :: "string \<Rightarrow> bool" where
  "isBcryptHash p \<longleftrightarrow> has_prefix p ''$2a$'' \<or> has_prefix p ''$2b$'' \<or> has_prefix p ''$2y$''"

definition verifyPassword :: "auth_cfg \<Rightarrow> string \<Rightarrow> string \<Rightarrow> bool \<times> bool" where
  "verifyPassword c storedPassword suppliedPassword =
     (if isBcryptHash storedPassword then (bcrypt_matches c storedPassword suppliedPassword, False)
      else (storedPassword = suppliedPassword, True))"

definition replace_password :: "string \<Rightarrow> string \<Rightarrow> string \<Rightarrow> 'b tdb_scheme \<Rightarrow> (gerr + nat) \<times> 'b tdb_scheme" where
  "replace_password uid storedPassword hash =
     run_update users users_update (\<lambda>u. us_ID u = uid \<and> us_Password u = storedPassword) (\<lambda>u. u\<lparr>us_Password := hash\<rparr>)"

definition upgradeLegacyPassword :: "auth_cfg \<Rightarrow> ('b tdb_scheme) env \<Rightarrow> string \<Rightarrow> string \<Rightarrow> string \<Rightarrow> ('b tdb_scheme, unit) io" where
  "upgradeLegacyPassword c env uid storedPassword suppliedPassword =
     State_Monad.bind (draw (\<lambda>n. bcrypt_generate c n suppliedPassword)) (\<lambda>res. case res of
       Inl _ \<Rightarrow> State_Monad.return ()
     | Inr hash \<Rightarrow> ignore (exec env (replace_password uid storedPassword hash)) (State_Monad.return ()))"

definition defaultConversationLimit :: int where "defaultConversationLimit = 50"

definition Login :: "cfg \<Rightarrow> auth_cfg \<Rightarrow> ('b tdb_scheme) env \<Rightarrow> string \<Rightarrow> string
    \<Rightarrow> ('b tdb_scheme, gerr + string \<times> string \<times> conversation list) io" where
  "Login h c env username password =
     State_Monad.bind (query env (\<lambda>s. find (\<lambda>u. us_Username u = username) (users s))) (\<lambda>res. case res of
       Inl _ \<Rightarrow> err (Msg ''invalid credentials'')
     | Inr None \<Rightarrow> err (Msg ''invalid credentials'')
     | Inr (Some u) \<Rightarrow> (case verifyPassword c (us_Password u) password of (valid, legacy) \<Rightarrow>
         if us_Status u \<noteq> 1 \<or> \<not> valid then err (Msg ''invalid credentials'')
         else ignore (if legacy then upgradeLegacyPassword c env (us_ID u) (us_Password u) password else State_Monad.return ())
           (then_ok (GenerateToken c env (us_ID u)) (\<lambda>token.
             State_Monad.bind (listConversations h env (us_ID u) defaultConversationLimit) (\<lambda>cs.
               ok (token, us_ID u, case cs of Inr cs \<Rightarrow> cs | Inl _ \<Rightarrow> []))))))"

section \<open>The middleware of the gateway\<close>

text \<open>The parts of a request the middleware reads; a response it writes itself is its status code.\<close>

record auth_request =
  rq_Authorization :: string
  rq_Token :: string
  rq_Ticket :: string

datatype auth_answer = Admitted string | Refused int

definition AuthHandle :: "auth_cfg \<Rightarrow> 'w env \<Rightarrow> auth_request \<Rightarrow> ('w, auth_answer) io" where
  "AuthHandle c env r =
     (let bearer = ExtractBearerToken (rq_Authorization r); token = (if bearer = [] then rq_Token r else bearer) in
      State_Monad.bind (ParseToken c env token) (\<lambda>res. State_Monad.return (case res of
        Inl _ \<Rightarrow> Refused 401 | Inr uid \<Rightarrow> Admitted uid)))"

section \<open>Websocket tickets\<close>

definition ticketKey :: "auth_cfg \<Rightarrow> string \<Rightarrow> string option" where
  "ticketKey c ticket =
     (case raw_url_decode ticket of
        None \<Rightarrow> None
      | Some raw \<Rightarrow> if length raw \<noteq> 32 then None else Some (''ws_ticket:'' @ sha256_hex c raw))"

definition IssueWebSocketTicket :: "auth_cfg \<Rightarrow> bool \<Rightarrow> ('b im_scheme) env \<Rightarrow> string \<Rightarrow> ('b im_scheme, gerr + string) io" where
  "IssueWebSocketTicket c rdb env uid =
     (if uid = [] \<or> \<not> rdb then err (Msg ''missing authenticated user or Redis'')
      else then_ok (draw (random32 c)) (\<lambda>raw.
        let ticket = raw_url_encode raw; key = (case ticketKey c ticket of Some k \<Rightarrow> k | None \<Rightarrow> []) in
        then_ok (update_w env (on_rds (r_set key (Txt uid)))) (\<lambda>_. ok ticket)))"

definition get_del :: "string \<Rightarrow> redis \<Rightarrow> (gerr + rvalue option) \<times> redis" where
  "get_del key r = (Inr (strs r key), r_del key r)"

definition WebSocketAuthHandle :: "auth_cfg \<Rightarrow> ('b im_scheme) env \<Rightarrow> auth_request \<Rightarrow> ('b im_scheme, auth_answer) io" where
  "WebSocketAuthHandle c env r =
     (if rq_Ticket r \<noteq> [] then
        (case ticketKey c (rq_Ticket r) of
           None \<Rightarrow> State_Monad.return (Refused 401)
         | Some key \<Rightarrow> State_Monad.bind (exec env (on_rds_res (get_del key))) (\<lambda>res. State_Monad.return (case res of
             Inl _ \<Rightarrow> Refused 503
           | Inr (Some (Txt uid)) \<Rightarrow> if uid = [] then Refused 401 else Admitted uid
           | Inr _ \<Rightarrow> Refused 401)))
      else let bearer = ExtractBearerToken (rq_Authorization r); legacy = (if bearer = [] then rq_Token r else bearer) in
        State_Monad.bind (ParseToken c env legacy) (\<lambda>res. State_Monad.return (case res of
          Inl _ \<Rightarrow> Refused 401 | Inr uid \<Rightarrow> Admitted uid)))"

definition WebSocketTicketHandler :: "auth_cfg \<Rightarrow> bool \<Rightarrow> ('b im_scheme) env \<Rightarrow> string \<Rightarrow> ('b im_scheme, int + string) io" where
  "WebSocketTicketHandler c rdb env uid =
     State_Monad.bind (IssueWebSocketTicket c rdb env uid) (\<lambda>r. State_Monad.return (case r of Inl _ \<Rightarrow> Inl 503 | Inr ticket \<Rightarrow> Inr ticket))"

text \<open>What a run unfolds.\<close>

lemmas accounts_run [exec_defs] =
  SetJWTSecret_def day_ms_def GenerateToken_def ParseToken_def ExtractBearerToken_def isBcryptHash_def verifyPassword_def
  replace_password_def upgradeLegacyPassword_def defaultConversationLimit_def Login_def AuthHandle_def ticketKey_def IssueWebSocketTicket_def get_del_def
  WebSocketAuthHandle_def WebSocketTicketHandler_def

section \<open>Login and the accounts\<close>

text \<open>The enabled account of that name has that id and that password.\<close>

definition may_log_in :: "auth_cfg \<Rightarrow> string \<Rightarrow> string \<Rightarrow> string \<Rightarrow> 'b tdb_scheme \<Rightarrow> bool" where
  "may_log_in c name pw uid s \<longleftrightarrow> (\<exists>u\<in>set (users s). us_Username u = name \<and> us_ID u = uid \<and> us_Status u = 1
     \<and> fst (verifyPassword c (us_Password u) pw))"

lemma wp_Login_refused:
  assumes "relies env (\<lambda>s. \<not> may_log_in c name pw uid s)" "\<not> may_log_in c name pw uid s"
  shows "wp (Login h c env name pw) (\<lambda>r _. \<forall>token cs. r \<noteq> Inr (token, uid, cs)) s"
  unfolding Login_def
proof (rule wp_bind, rule wp_query_stable [OF assms])
  fix s1 :: "'a tdb_scheme"
  assume no: "\<not> may_log_in c name pw uid s1"
  have other: "wp (ignore m (then_ok (GenerateToken c env v) (\<lambda>token.
      State_Monad.bind (listConversations h env v defaultConversationLimit) (\<lambda>cs. ok (token, v, case cs of Inr cs \<Rightarrow> cs | Inl _ \<Rightarrow> [])))))
      (\<lambda>r _. \<forall>token cs. r \<noteq> Inr (token, uid, cs)) s1" if "v \<noteq> uid" for m :: "('a tdb_scheme, unit) io" and v
    by (rule wp_ignoreI [OF wp_trivial], rule wp_then_okI [OF wp_trivial], simp, rule wp_bindI [OF wp_trivial], rule wp_ok) (simp add: that)
  have mine: "us_Status u \<noteq> 1 \<or> \<not> fst (verifyPassword c (us_Password u) pw)"
    if "find (\<lambda>u. us_Username u = name) (users s1) = Some u" "us_ID u = uid" for u
    using no that by (auto simp: may_log_in_def dest: find_Some_iff_in)
  show "wp (case Inr (find (\<lambda>u. us_Username u = name) (users s1)) of
       Inl e \<Rightarrow> err (Msg ''invalid credentials'')
     | Inr None \<Rightarrow> err (Msg ''invalid credentials'')
     | Inr (Some u) \<Rightarrow> (case verifyPassword c (us_Password u) pw of (valid, legacy) \<Rightarrow>
         if us_Status u \<noteq> 1 \<or> \<not> valid then err (Msg ''invalid credentials'')
         else ignore (if legacy then upgradeLegacyPassword c env (us_ID u) (us_Password u) pw else State_Monad.return ())
           (then_ok (GenerateToken c env (us_ID u)) (\<lambda>token.
             State_Monad.bind (listConversations h env (us_ID u) defaultConversationLimit) (\<lambda>cs.
               ok (token, us_ID u, case cs of Inr cs \<Rightarrow> cs | Inl _ \<Rightarrow> []))))))
     (\<lambda>r _. \<forall>token cs. r \<noteq> Inr (token, uid, cs)) s1"
  proof (cases "find (\<lambda>u. us_Username u = name) (users s1)")
    case (Some u)
    show ?thesis
    proof (cases "us_ID u = uid")
      case True
      with mine [OF Some] Some show ?thesis by (auto intro!: wp_err split: prod.split)
    next
      case False
      with Some other show ?thesis by (auto intro!: wp_err split: prod.split)
    qed
  qed (simp add: wp_err)
qed (simp add: wp_err)

text \<open>The account accepts the password.\<close>

definition admits :: "auth_cfg \<Rightarrow> string \<Rightarrow> string \<Rightarrow> 'b tdb_scheme \<Rightarrow> bool" where
  "admits c uid pw s \<longleftrightarrow> (\<exists>u\<in>set (users s). us_ID u = uid \<and> fst (verifyPassword c (us_Password u) pw))"

text \<open>What bcrypt promises: a hash it generates is marked as one and matches the password it was generated from.\<close>

definition bcrypt_ok :: "auth_cfg \<Rightarrow> bool" where
  "bcrypt_ok c \<longleftrightarrow> (\<forall>n pw hash. bcrypt_generate c n pw = Inr hash \<longrightarrow> isBcryptHash hash \<and> bcrypt_matches c hash pw)"

lemma admits_replaced:
  assumes "admits c uid pw s" "bcrypt_ok c" "bcrypt_generate c n stored = Inr hash" "\<not> isBcryptHash stored"
    "replace_password v stored hash s = (r, s')"
  shows "admits c uid pw s'"
proof -
  from assms(1) obtain u where u: "u \<in> set (users s)" "us_ID u = uid" "fst (verifyPassword c (us_Password u) pw)"
    by (auto simp: admits_def)
  have s': "users s' = upd (\<lambda>u. us_ID u = v \<and> us_Password u = stored) (\<lambda>u. u\<lparr>us_Password := hash\<rparr>) (users s)"
    using assms(5) by (auto simp: replace_password_def run_update_def)
  show ?thesis
  proof (cases "us_ID u = v \<and> us_Password u = stored")
    case True
    then have "pw = stored" using u(3) assms(4) by (simp add: verifyPassword_def)
    with assms(2,3) have "fst (verifyPassword c hash pw)" by (simp add: bcrypt_ok_def verifyPassword_def)
    with True u show ?thesis unfolding admits_def s' by (intro bexI [of _ "u\<lparr>us_Password := hash\<rparr>"]) (auto simp: in_upd_iff)
  next
    case False
    with u show ?thesis unfolding admits_def s' by (intro bexI [of _ u]) (auto simp: in_upd_iff)
  qed
qed

lemma keeps_upgrade:
  fixes env :: "'b tdb_scheme env"
  assumes "relies env (admits c uid pw)" "bcrypt_ok c" "\<not> isBcryptHash stored"
  shows "keeps (admits c uid pw) (upgradeLegacyPassword c env v stored stored)"
proof (rule keepsI)
  fix s :: "'b tdb_scheme"
  assume s: "admits c uid pw s"
  show "wp (upgradeLegacyPassword c env v stored stored) (\<lambda>_. admits c uid pw) s"
    unfolding upgradeLegacyPassword_def
  proof (rule wp_bind, rule wp_draw, rule wp_case_sum, goal_cases)
    case (1 n e)
    show ?case by (rule wp_return) (rule s)
  next
    case (2 n hash)
    have "keeps (admits c uid pw) (exec env (replace_password v stored hash))"
      by (rule keeps_exec [OF assms(1)]) (rule admits_replaced [OF _ assms(2) 2 assms(3)])
    then have "keeps (admits c uid pw) (ignore (exec env (replace_password v stored hash)) (State_Monad.return ()))"
      by (rule keeps_ignore) (rule keeps_return)
    then show ?case using s by (rule keeps_wp)
  qed
qed

text \<open>Listing the conversations changes Redis only.\<close>

lemma keeps_listConversations:
  assumes "relies env I" "\<And>f s. I s \<Longrightarrow> I (on_rds f s)"
  shows "keeps I (listConversations h env uid limit)"
proof -
  have sel: "keeps I (select_conversations h env uid l cols)" for l cols
    unfolding select_conversations_def by (rule keeps_exec [OF assms(1)]) (auto elim: on_schema_cases)
  have db: "keeps I (loadConversationsFromDB h env uid l)" for l
    unfolding loadConversationsFromDB_def by (intro keeps_rules sel)
  have rd: "keeps I (loadConversationsFromRedis env uid items)" for items
  proof (induction items)
    case (Cons item items)
    then show ?case
      by (cases item) (simp add: readConversationSeq_def ackedConversationSeq_def Let_def keeps_rules assms(1))
  qed (simp add: keeps_ok)
  have fil: "keeps I (filterCommunityConversations h env uid cs)" for cs
    unfolding filterCommunityConversations_def by (intro keeps_rules assms(1))
  have cache: "keeps I (cacheConversationList env uid cs)" for cs
    unfolding cacheConversationList_def by (intro keeps_rules keeps_update assms)
  show ?thesis
    unfolding listConversations_def Let_def by (intro keeps_rules sel db rd fil cache assms(1))
qed

lemma keeps_Login:
  assumes "relies env (admits c uid pw)" "bcrypt_ok c"
  shows "keeps (admits c uid pw) (Login h c env name password)"
proof -
  have up: "keeps (admits c uid pw) (if legacy then upgradeLegacyPassword c env v stored password else State_Monad.return ())"
    if "verifyPassword c stored password = (True, legacy)" for v stored legacy
    using that keeps_upgrade [OF assms] by (auto simp: verifyPassword_def intro!: keeps_return split: if_splits)
  have list: "keeps (admits c uid pw) (listConversations h env v l)" for v l
    by (rule keeps_listConversations [OF assms(1)]) (simp add: admits_def on_rds_def)
  show ?thesis
    unfolding Login_def GenerateToken_def
    by (intro keeps_rules assms(1) up list) auto
qed

section \<open>Tickets\<close>

lemma wp_consume:
  assumes "relies env (\<lambda>s. strs (rds s) k \<in> {None, Some (Txt uid)})" "strs (rds s) k \<in> {None, Some (Txt uid)}"
    "ticketKey c (rq_Ticket r) = Some k" "rq_Ticket r \<noteq> []"
  shows "wp (WebSocketAuthHandle c env r) (\<lambda>a s'. \<forall>u. a = Admitted u \<longrightarrow> u = uid \<and> strs (rds s') k = None) s"
  unfolding WebSocketAuthHandle_def
  by (simp add: assms(3,4), rule wp_bind, rule wp_exec_stable [OF assms(1,2)])
     (auto intro!: wp_return simp: on_rds_res_def get_del_def r_del_def split: if_splits)

lemma wp_consumed:
  assumes "relies env (\<lambda>s. strs (rds s) k = None)" "strs (rds s) k = None"
    "ticketKey c (rq_Ticket r) = Some k" "rq_Ticket r \<noteq> []"
  shows "wp (WebSocketAuthHandle c env r) (\<lambda>a _. \<forall>u. a \<noteq> Admitted u) s"
  unfolding WebSocketAuthHandle_def
  by (simp add: assms(3,4), rule wp_bind, rule wp_exec_stable [OF assms(1,2)])
     (auto intro!: wp_return simp: on_rds_res_def get_del_def)

text \<open>An issued ticket, presented before anything else happens to it, admits the user it was issued to.\<close>

lemma issued_ticket_admits:
  assumes "random32 c n = Inr raw" "length raw = 32" "uid \<noteq> []" "rq_Ticket r = raw_url_encode raw"
  shows "fst (run_state (State_Monad.bind (IssueWebSocketTicket c True (calm t) uid) (\<lambda>_. WebSocketAuthHandle c (calm t) r)) (n, s)) = Admitted uid"
proof -
  have "raw \<noteq> []" using assms(2) by auto
  then have "raw_url_encode raw \<noteq> []" by (rule raw_url_encode_nonempty)
  then show ?thesis
    using assms by (simp add: IssueWebSocketTicket_def WebSocketAuthHandle_def ticketKey_def Let_def run_calls get_del_def on_rds_res_def
        on_rds_def r_set_def r_del_def draw_def)
qed

section \<open>Properties\<close>

definition demo_auth :: auth_cfg where
  "demo_auth = \<lparr>bcrypt_matches = \<lambda>hash pw. hash = ''$2a$'' @ pw, bcrypt_generate = \<lambda>n pw. Inr (''$2a$'' @ pw), jwtSecret = ''k'',
     sign_token = \<lambda>k u e t. Inr (k @ ''.'' @ u), parse_claims = \<lambda>k t now. if has_prefix t (k @ ''.'') then Some (drop (length k + 1) t) else None,
     sha256_hex = \<lambda>raw. raw, random32 = \<lambda>n. Inr (replicate 32 (CHR ''x''))\<rparr>"

definition demo_users :: tdb where
  "demo_users = im.extend demo_world \<lparr>tasks = [], submissions = [], task_events = [], notices = [],
     users = [\<lparr>us_ID = ''1'', us_Username = ''al'', us_Password = ''pw'', us_Avatar = [], us_Status = 1\<rparr>,
              \<lparr>us_ID = ''2'', us_Username = ''bo'', us_Password = ''pw'', us_Avatar = [], us_Status = 0\<rparr>]\<rparr>"

text \<open>C35. A login needs the password of an enabled account: as long as no enabled account of that name has that id and that password,
  \<open>Login\<close> hands out no token for the id, whatever fails and whatever the other processes do.\<close>

theorem login_checks_password:
  assumes "relies env (\<lambda>s. \<not> may_log_in c name pw uid s)" "\<not> may_log_in c name pw uid s"
  shows "wp (Login h c env name pw) (\<lambda>r _. \<forall>token cs. r \<noteq> Inr (token, uid, cs)) s"
  by (rule wp_Login_refused [OF assms])

theorem login_checks_password_witness:
  "wp (Login demo demo_auth (calm 9) ''bo'' ''pw'') (\<lambda>r _. \<forall>token cs. r \<noteq> Inr (token, ''2'', cs)) demo_users"
  by (rule login_checks_password) (simp_all add: may_log_in_def demo_users_def im.defs tdb.defs)

text \<open>Nobody is locked out by a login: a password an account accepts it still accepts after any login under any name, although a login
  with a plain-text password replaces it by its bcrypt hash; so the replacement changes no password and touches no other account.\<close>

theorem login_keeps_passwords:
  assumes "relies env (admits c uid pw)" "admits c uid pw s" "bcrypt_ok c"
  shows "wp (Login h c env name password) (\<lambda>_. admits c uid pw) s"
  by (rule keeps_wp [OF keeps_Login [OF assms(1,3)] assms(2)])

theorem login_keeps_passwords_witness:
  "wp (Login demo demo_auth (calm 9) ''al'' ''pw'') (\<lambda>_. admits demo_auth ''1'' ''pw'') demo_users"
  by (rule login_keeps_passwords)
     (simp_all add: admits_def verifyPassword_def isBcryptHash_def has_prefix_def demo_users_def im.defs tdb.defs bcrypt_ok_def demo_auth_def)

text \<open>C36. A websocket ticket admits its user and nobody else, and only once: of two handshakes with texts that decode to the same
  ticket at most one is admitted, and an admitted one as the user the key names, whatever calls fail, as long as the
  other processes only remove the key.\<close>

theorem ticket_admits_once:
  assumes "relies env (\<lambda>s. strs (rds s) k \<in> {None, Some (Txt uid)})" "relies env' (\<lambda>s. strs (rds s) k = None)"
    "strs (rds s) k \<in> {None, Some (Txt uid)}" "ticketKey c (rq_Ticket r) = Some k" "rq_Ticket r \<noteq> []"
    "ticketKey c (rq_Ticket r') = Some k" "rq_Ticket r' \<noteq> []"
  shows "wp (State_Monad.bind (WebSocketAuthHandle c env r) (\<lambda>a. State_Monad.bind (WebSocketAuthHandle c env' r') (\<lambda>a'. State_Monad.return (a, a'))))
     (\<lambda>(a, a') _. (\<forall>u. a = Admitted u \<longrightarrow> u = uid) \<and> \<not> (\<exists>u u'. a = Admitted u \<and> a' = Admitted u')) s"
proof (rule wp_bindI [OF wp_consume [OF assms(1,3-5)]], goal_cases)
  case (1 a s1)
  show ?case
  proof (cases a)
    case (Admitted u)
    with 1 have "strs (rds s1) k = None" by simp
    from wp_consumed [OF assms(2) this assms(6,7)] show ?thesis by (rule wp_bindI) (use 1 in \<open>auto intro: wp_return\<close>)
  qed (auto intro: wp_bindI [OF wp_trivial] wp_return)
qed

definition demo_ticket :: string where
  "demo_ticket = ''eHh4eHh4eHh4eHh4eHh4eHh4eHh4eHh4eHh4eHh4eHg''"

lemma demo_ticket_key:
  "ticketKey demo_auth demo_ticket = Some (''ws_ticket:'' @ replicate 32 (CHR ''x''))"
  "ticketKey demo_auth (demo_ticket @ [char_of (10::nat)]) = Some (''ws_ticket:'' @ replicate 32 (CHR ''x''))"
  by code_simp+

theorem ticket_admits_once_witness:
  "wp (State_Monad.bind (WebSocketAuthHandle demo_auth (calm 9) \<lparr>rq_Authorization = [], rq_Token = [], rq_Ticket = demo_ticket\<rparr>) (\<lambda>a.
     State_Monad.bind (WebSocketAuthHandle demo_auth (calm 9) \<lparr>rq_Authorization = [], rq_Token = [], rq_Ticket = demo_ticket @ [char_of (10::nat)]\<rparr>)
       (\<lambda>a'. State_Monad.return (a, a'))))
     (\<lambda>(a, a') _. (\<forall>u. a = Admitted u \<longrightarrow> u = ''al'') \<and> \<not> (\<exists>u u'. a = Admitted u \<and> a' = Admitted u'))
     (on_rds (r_set (''ws_ticket:'' @ replicate 32 (CHR ''x'')) (Txt ''al'')) demo_world)"
  by (rule ticket_admits_once [where k = "''ws_ticket:'' @ replicate 32 (CHR ''x'')"])
     (simp_all add: demo_ticket_key r_set_def, simp_all add: demo_ticket_def)

end
