(* ===== verification/Rate_Limit.thy ===== *)
theory Rate_Limit
  imports Push_Pool Complex_Main
begin

text \<open>
  The request limiter of the gateway: the sharded token buckets of internal/middleware/ratelimit.go and the middleware
  that asks them (cmd/gateway/internal/middleware/ratelimitmiddleware.go).  Times are nanoseconds;
  the \<open>float64\<close> token counts are rational numbers, so rounding is not modelled.  The lemmas show that a
  bucket behaves as if it had never been swept and that no window of time lets more requests through than the
  capacity and what the rate refills.
\<close>

section \<open>State\<close>

record tokenBucket =
  tb_tokens :: rat
  tb_lastRefill :: int
  tb_lastSeen :: int

text \<open>\<open>None\<close> is the zero time, which lies more than a sweep interval in the past.\<close>

record limiterShard =
  ls_buckets :: "string \<rightharpoonup> tokenBucket"
  ls_lastSweep :: "int option"

record limiter =
  rl_rate :: rat
  rl_capacity :: rat
  rl_shards :: "limiterShard list"

definition limiterShardCount :: nat where "limiterShardCount = 32"
definition limiterBucketTTL :: int where "limiterBucketTTL = 10 * 60 * 10 ^ 9"
definition limiterSweepEvery :: int where "limiterSweepEvery = 60 * 10 ^ 9"

definition fresh_shards :: "limiterShard list" where
  "fresh_shards = replicate limiterShardCount \<lparr>ls_buckets = Map.empty, ls_lastSweep = None\<rparr>"

definition NewTokenBucketLimiter :: "rat \<Rightarrow> int \<Rightarrow> limiter" where
  "NewTokenBucketLimiter rate capacity = \<lparr>rl_rate = rate, rl_capacity = of_int capacity, rl_shards = fresh_shards\<rparr>"

section \<open>Operations\<close>

definition shardFor :: "string \<Rightarrow> limiter \<Rightarrow> nat" where
  "shardFor key l = unat (fnv32a key) mod length (rl_shards l)"

definition with_shards :: "limiter \<Rightarrow> limiter" where
  "with_shards l = (if rl_shards l = [] then l\<lparr>rl_shards := fresh_shards\<rparr> else l)"

definition sweepLocked :: "int \<Rightarrow> limiterShard \<Rightarrow> limiterShard" where
  "sweepLocked now sh =
     (if (case ls_lastSweep sh of Some t \<Rightarrow> now - t < limiterSweepEvery | None \<Rightarrow> False) then sh
      else \<lparr>ls_buckets = (\<lambda>k. case ls_buckets sh k of
               Some b \<Rightarrow> if now - tb_lastSeen b > limiterBucketTTL then None else Some b | None \<Rightarrow> None),
            ls_lastSweep = Some now\<rparr>)"

definition seconds :: "int \<Rightarrow> rat" where "seconds d = of_int d / 10 ^ 9"

definition minFloat :: "rat \<Rightarrow> rat \<Rightarrow> rat" where "minFloat a b = (if a < b then a else b)"

definition take_token :: "rat \<Rightarrow> rat \<Rightarrow> int \<Rightarrow> tokenBucket option \<Rightarrow> bool \<times> tokenBucket" where
  "take_token rate capacity now bucket = (case bucket of
       None \<Rightarrow> (True, \<lparr>tb_tokens = capacity - 1, tb_lastRefill = now, tb_lastSeen = now\<rparr>)
     | Some b \<Rightarrow>
         let elapsed = seconds (now - tb_lastRefill b); tokens = minFloat capacity (tb_tokens b + elapsed * rate) in
         if tokens < 1 then (False, \<lparr>tb_tokens = tokens, tb_lastRefill = now, tb_lastSeen = now\<rparr>)
         else (True, \<lparr>tb_tokens = tokens - 1, tb_lastRefill = now, tb_lastSeen = now\<rparr>))"

text \<open>\<open>Allow\<close>, on a limiter that is not nil, at a time of the clock.\<close>

definition Allow :: "string \<Rightarrow> int \<Rightarrow> limiter \<Rightarrow> bool \<times> limiter" where
  "Allow key0 now l0 =
     (let key = (if key0 = [] then ''anonymous'' else key0); l = with_shards l0; i = shardFor key l;
          sh = sweepLocked now (rl_shards l ! i) in
      case take_token (rl_rate l) (rl_capacity l) now (ls_buckets sh key) of
        (allowed, b) \<Rightarrow> (allowed, l\<lparr>rl_shards := (rl_shards l)[i := sh\<lparr>ls_buckets := (ls_buckets sh)(key \<mapsto> b)\<rparr>]\<rparr>))"

text \<open>\<open>SplitHostPort\<close> answers the host of the remote address when it has one.\<close>

definition clientIP :: "string option \<Rightarrow> string \<Rightarrow> string" where
  "clientIP host remoteAddr = (case host of Some h \<Rightarrow> if h \<noteq> [] then h else remoteAddr | None \<Rightarrow> remoteAddr)"

definition RateLimitHandle :: "string \<Rightarrow> string option \<Rightarrow> string \<Rightarrow> int \<Rightarrow> limiter option \<Rightarrow> bool \<times> limiter option" where
  "RateLimitHandle uid host remoteAddr now limiter = (case limiter of
       None \<Rightarrow> (True, None)
     | Some l \<Rightarrow> (case Allow (if uid = [] then clientIP host remoteAddr else uid) now l of (b, l') \<Rightarrow> (b, Some l')))"

text \<open>The answers to a sequence of calls.\<close>

fun run_limiter :: "(string \<times> int) list \<Rightarrow> limiter \<Rightarrow> bool list \<times> limiter" where
  "run_limiter [] l = ([], l)"
| "run_limiter ((key, now) # calls) l = (case Allow key now l of (b, l') \<Rightarrow> (case run_limiter calls l' of (bs, l'') \<Rightarrow> (b # bs, l'')))"

section \<open>An ideal bucket\<close>

text \<open>
  What a key may spend at a time: a bucket that was never swept.  \<open>usual\<close> are the settings under which sweeping goes
  unnoticed: an idle bucket is full before it is swept.
\<close>

definition usual :: "limiter \<Rightarrow> bool" where
  "usual l \<longleftrightarrow> 0 \<le> rl_rate l \<and> 1 \<le> rl_capacity l \<and> rl_capacity l \<le> seconds limiterBucketTTL * rl_rate l"

definition named :: "string \<Rightarrow> string" where
  "named key = (if key = [] then ''anonymous'' else key)"

definition bucket_of :: "limiter \<Rightarrow> string \<Rightarrow> tokenBucket option" where
  "bucket_of l key = ls_buckets (rl_shards l ! shardFor key l) key"

definition bucket_level :: "rat \<Rightarrow> rat \<Rightarrow> int \<Rightarrow> tokenBucket option \<Rightarrow> rat" where
  "bucket_level rate capacity now bucket = (case bucket of None \<Rightarrow> capacity
     | Some b \<Rightarrow> min capacity (tb_tokens b + seconds (now - tb_lastRefill b) * rate))"

abbreviation level :: "limiter \<Rightarrow> string \<Rightarrow> int \<Rightarrow> rat" where
  "level l key now \<equiv> bucket_level (rl_rate l) (rl_capacity l) now (bucket_of l key)"

text \<open>Every bucket was filled when it was last seen, not after the time, and holds between nothing and the capacity.\<close>

definition sound_bucket :: "rat \<Rightarrow> int \<Rightarrow> tokenBucket option \<Rightarrow> bool" where
  "sound_bucket capacity now bucket \<longleftrightarrow> (\<forall>b. bucket = Some b \<longrightarrow> tb_lastSeen b = tb_lastRefill b \<and> tb_lastRefill b \<le> now
     \<and> 0 \<le> tb_tokens b \<and> tb_tokens b \<le> capacity)"

definition sound :: "int \<Rightarrow> limiter \<Rightarrow> bool" where
  "sound now l \<longleftrightarrow> rl_shards l \<noteq> [] \<and> (\<forall>key. sound_bucket (rl_capacity l) now (bucket_of l key))"

lemma seconds_simps [simp]: "seconds 0 = 0" "seconds (a + b) = seconds a + seconds b" "seconds (a - b) = seconds a - seconds b"
  by (simp_all add: seconds_def add_divide_distrib diff_divide_distrib)

lemma seconds_le [simp]: "seconds a \<le> seconds b \<longleftrightarrow> a \<le> b"
  by (simp add: seconds_def divide_le_cancel)

lemma seconds_nonneg [simp]: "0 \<le> seconds a \<longleftrightarrow> 0 \<le> a"
  using seconds_le [of 0 a] by simp

text \<open>As time passes the level rises, by no more than the rate.\<close>

lemma level_later:
  assumes "0 \<le> rate" "now \<le> t"
  shows "bucket_level rate capacity t bucket \<le> bucket_level rate capacity now bucket + seconds (t - now) * rate"
proof -
  have "0 \<le> (seconds t - seconds now) * rate" using assms by simp
  then show ?thesis by (auto simp: bucket_level_def algebra_simps split: option.split)
qed

lemma level_nonneg:
  assumes "sound_bucket capacity now bucket" "0 \<le> rate" "0 \<le> capacity"
  shows "0 \<le> bucket_level rate capacity now bucket"
  using assms by (auto simp: bucket_level_def sound_bucket_def split: option.split)

text \<open>A bucket that is swept was full.\<close>

definition swept :: "int \<Rightarrow> tokenBucket option \<Rightarrow> tokenBucket option" where
  "swept now bucket = (case bucket of Some b \<Rightarrow> if now - tb_lastSeen b > limiterBucketTTL then None else Some b | None \<Rightarrow> None)"

lemma swept_level:
  assumes "sound_bucket capacity now bucket" "0 \<le> rate" "capacity \<le> seconds limiterBucketTTL * rate"
  shows "bucket_level rate capacity now (swept now bucket) = bucket_level rate capacity now bucket"
proof (cases bucket)
  case (Some b)
  show ?thesis
  proof (cases "now - tb_lastSeen b > limiterBucketTTL")
    case True
    with Some assms(1) have "limiterBucketTTL \<le> now - tb_lastRefill b" "0 \<le> tb_tokens b" by (simp_all add: sound_bucket_def)
    moreover from this have "seconds limiterBucketTTL * rate \<le> seconds (now - tb_lastRefill b) * rate"
      by (intro mult_right_mono assms(2)) (simp del: seconds_simps)
    ultimately have "capacity \<le> tb_tokens b + seconds (now - tb_lastRefill b) * rate" using assms(3) by linarith
    then show ?thesis using Some True by (simp add: bucket_level_def swept_def)
  qed (simp add: Some swept_def)
qed (simp add: swept_def)

lemma swept_sound: "sound_bucket capacity now bucket \<Longrightarrow> sound_bucket capacity now (swept now bucket)"
  by (auto simp: sound_bucket_def swept_def split: option.splits if_splits)

lemma take_token_level:
  assumes "take_token rate capacity now bucket = (allowed, b)" "sound_bucket capacity now bucket" "0 \<le> rate" "1 \<le> capacity"
  shows "allowed \<longleftrightarrow> 1 \<le> bucket_level rate capacity now bucket"
    and "bucket_level rate capacity now (Some b) = bucket_level rate capacity now bucket - (if allowed then 1 else 0)"
    and "sound_bucket capacity now (Some b)"
proof -
  let ?L = "bucket_level rate capacity now bucket"
  have L: "0 \<le> ?L" "?L \<le> capacity"
    using level_nonneg [OF assms(2,3)] assms(4) by (auto simp: bucket_level_def split: option.split)
  have "allowed = (1 \<le> ?L) \<and> b = \<lparr>tb_tokens = ?L - (if allowed then 1 else 0), tb_lastRefill = now, tb_lastSeen = now\<rparr>"
    using assms(1,4) by (auto simp: take_token_def bucket_level_def minFloat_def Let_def min_def split: option.splits if_splits)
  with L show "allowed \<longleftrightarrow> 1 \<le> ?L" "bucket_level rate capacity now (Some b) = ?L - (if allowed then 1 else 0)"
    "sound_bucket capacity now (Some b)"
    by (auto simp: bucket_level_def sound_bucket_def)
qed

text \<open>A call, seen from any key.\<close>

lemma Allow_buckets:
  assumes "Allow key now l = (allowed, l')" "rl_shards l \<noteq> []"
  shows "rl_rate l' = rl_rate l" "rl_capacity l' = rl_capacity l" "length (rl_shards l') = length (rl_shards l)"
    and "\<exists>bo b. (bo = bucket_of l (named key) \<or> bo = swept now (bucket_of l (named key)))
       \<and> take_token (rl_rate l) (rl_capacity l) now bo = (allowed, b) \<and> bucket_of l' (named key) = Some b"
    and "k \<noteq> named key \<Longrightarrow> bucket_of l' k = bucket_of l k \<or> bucket_of l' k = swept now (bucket_of l k)"
proof -
  let ?i = "shardFor (named key) l"
  let ?sh = "sweepLocked now (rl_shards l ! ?i)"
  obtain b where b: "take_token (rl_rate l) (rl_capacity l) now (ls_buckets ?sh (named key)) = (allowed, b)"
    and l': "l' = l\<lparr>rl_shards := (rl_shards l)[?i := ?sh\<lparr>ls_buckets := (ls_buckets ?sh)(named key \<mapsto> b)\<rparr>]\<rparr>"
    using assms by (auto simp: Allow_def with_shards_def named_def Let_def split: prod.splits)
  have i: "shardFor k l < length (rl_shards l)" for k using assms(2) by (simp add: shardFor_def)
  have sw: "ls_buckets (sweepLocked now sh) k = ls_buckets sh k \<or> ls_buckets (sweepLocked now sh) k = swept now (ls_buckets sh k)" for sh k
    by (simp add: sweepLocked_def swept_def)
  have same: "shardFor k l' = shardFor k l" for k by (simp add: l' shardFor_def)
  show "rl_rate l' = rl_rate l" "rl_capacity l' = rl_capacity l" "length (rl_shards l') = length (rl_shards l)" by (simp_all add: l')
  show "\<exists>bo b. (bo = bucket_of l (named key) \<or> bo = swept now (bucket_of l (named key)))
       \<and> take_token (rl_rate l) (rl_capacity l) now bo = (allowed, b) \<and> bucket_of l' (named key) = Some b"
    using b i [of "named key"] sw [of "rl_shards l ! ?i" "named key"]
    by (intro exI [of _ "ls_buckets ?sh (named key)"] exI [of _ b]) (simp add: bucket_of_def same, simp add: l')
  show "bucket_of l' k = bucket_of l k \<or> bucket_of l' k = swept now (bucket_of l k)" if "k \<noteq> named key"
    using that i [of k] sw [of "rl_shards l ! ?i" k] unfolding bucket_of_def same
    by (cases "shardFor k l = ?i") (simp_all add: l')
qed

lemma Allow_level:
  assumes "Allow key now l = (allowed, l')" "sound now l" "usual l"
  shows "allowed \<longleftrightarrow> 1 \<le> level l (named key) now"
    and "level l' k now = level l k now - (if k = named key \<and> allowed then 1 else 0)"
    and "sound now l'" "usual l'" "rl_rate l' = rl_rate l" "rl_capacity l' = rl_capacity l"
proof -
  from assms(2) have ne: "rl_shards l \<noteq> []" and sb: "\<And>k. sound_bucket (rl_capacity l) now (bucket_of l k)" by (simp_all add: sound_def)
  from assms(3) have u: "0 \<le> rl_rate l" "1 \<le> rl_capacity l" "rl_capacity l \<le> seconds limiterBucketTTL * rl_rate l" by (simp_all add: usual_def)
  note A = Allow_buckets [OF assms(1) ne]
  show r: "rl_rate l' = rl_rate l" "rl_capacity l' = rl_capacity l" by (rule A)+
  then show "usual l'" using assms(3) by (simp add: usual_def)
  obtain bo b where bo: "bo = bucket_of l (named key) \<or> bo = swept now (bucket_of l (named key))"
    and tk: "take_token (rl_rate l) (rl_capacity l) now bo = (allowed, b)" and bk: "bucket_of l' (named key) = Some b"
    using A(4) by blast
  have bos: "sound_bucket (rl_capacity l) now bo" "bucket_level (rl_rate l) (rl_capacity l) now bo = level l (named key) now"
    using bo sb [of "named key"] swept_sound swept_level [OF sb u(1,3)] by auto
  note T = take_token_level [OF tk bos(1) u(1,2)]
  show "allowed \<longleftrightarrow> 1 \<le> level l (named key) now" using T(1) bos(2) by simp
  show "level l' k now = level l k now - (if k = named key \<and> allowed then 1 else 0)"
  proof (cases "k = named key")
    case True
    then show ?thesis using T(2) bos(2) by (simp add: r bk)
  next
    case False
    then show ?thesis using A(5) [OF False] swept_level [OF sb [of k] u(1,3)] by (auto simp: r)
  qed
  have "sound_bucket (rl_capacity l) now (bucket_of l' k)" for k
    using T(3) bk A(5) [of k] sb [of k] swept_sound by (cases "k = named key") auto
  moreover have "rl_shards l' \<noteq> []" using A(3) ne by auto
  ultimately show "sound now l'" by (simp add: sound_def r)
qed

section \<open>Windows\<close>

text \<open>How many calls of a key were let through.\<close>

fun granted :: "string \<Rightarrow> (string \<times> int) list \<Rightarrow> bool list \<Rightarrow> nat" where
  "granted k ((key, now) # calls) (b # bs) = (if named key = k \<and> b then 1 else 0) + granted k calls bs"
| "granted k _ _ = 0"

lemma sound_later: "sound now l \<Longrightarrow> now \<le> t \<Longrightarrow> sound t l"
  by (fastforce simp: sound_def sound_bucket_def)

lemma run_limiter_bound:
  assumes "sound now l" "usual l" "sorted (now # map snd calls)" "run_limiter calls l = (answers, l')"
  shows "of_nat (granted k calls answers) \<le> level l k now + seconds (last (now # map snd calls) - now) * rl_rate l
    \<and> sound (last (now # map snd calls)) l' \<and> usual l' \<and> rl_rate l' = rl_rate l \<and> rl_capacity l' = rl_capacity l
    \<and> length answers = length calls"
  using assms
proof (induction calls arbitrary: now l answers)
  case Nil
  then show ?case using level_nonneg [of "rl_capacity l" now "bucket_of l k" "rl_rate l"] by (simp add: sound_def usual_def)
next
  case (Cons call calls)
  obtain key t where call: "call = (key, t)" by (cases call)
  with Cons.prems have t: "now \<le> t" "sorted (t # map snd calls)" by auto
  obtain b l1 bs where b: "Allow key t l = (b, l1)" and bs: "run_limiter calls l1 = (bs, l')" and answers: "answers = b # bs"
    using Cons.prems(4) by (auto simp: call split: prod.splits)
  note A = Allow_level [OF b sound_later [OF Cons.prems(1) t(1)] Cons.prems(2)]
  have IH: "of_nat (granted k calls bs) \<le> level l1 k t + seconds (last (t # map snd calls) - t) * rl_rate l"
    "sound (last (t # map snd calls)) l'" "usual l'" "rl_rate l' = rl_rate l" "rl_capacity l' = rl_capacity l" "length bs = length calls"
    using Cons.IH [OF A(3,4) t(2) bs] A(5,6) by simp_all
  have "level l k t \<le> level l k now + seconds (t - now) * rl_rate l"
    by (rule level_later) (use Cons.prems(2) t(1) in \<open>auto simp: usual_def\<close>)
  then have "of_nat (granted k (call # calls) answers) \<le> level l k now + seconds (last (t # map snd calls) - now) * rl_rate l"
    using IH(1) A(2) [of k] by (cases "k = named key"; cases b) (auto simp: call answers algebra_simps)
  with IH(2-) show ?case by (simp add: call answers)
qed

section \<open>The ideal limiter\<close>

text \<open>One bucket per key, full at the start, never swept and in no shard.\<close>

definition spend :: "rat \<Rightarrow> rat \<Rightarrow> int \<Rightarrow> tokenBucket \<Rightarrow> bool \<times> tokenBucket" where
  "spend rate capacity now b =
     (let tokens = min capacity (tb_tokens b + seconds (now - tb_lastRefill b) * rate) in
      (1 \<le> tokens, \<lparr>tb_tokens = (if 1 \<le> tokens then tokens - 1 else tokens), tb_lastRefill = now, tb_lastSeen = now\<rparr>))"

fun run_ideal :: "rat \<Rightarrow> rat \<Rightarrow> (string \<times> int) list \<Rightarrow> (string \<Rightarrow> tokenBucket) \<Rightarrow> bool list" where
  "run_ideal rate capacity [] buckets = []"
| "run_ideal rate capacity ((key, now) # calls) buckets =
     (case spend rate capacity now (buckets (named key)) of
        (b, bucket) \<Rightarrow> b # run_ideal rate capacity calls (buckets(named key := bucket)))"

lemma level_advance:
  assumes "0 \<le> rate" "now \<le> t"
  shows "bucket_level rate capacity t bucket = min capacity (bucket_level rate capacity now bucket + seconds (t - now) * rate)"
proof -
  have "0 \<le> (seconds t - seconds now) * rate" using assms by simp
  then show ?thesis by (auto simp: bucket_level_def algebra_simps min_def split: option.split)
qed

lemma run_limiter_ideal:
  assumes "sound now l" "usual l" "sorted (now # map snd calls)"
    and "\<And>k. level l k now = bucket_level (rl_rate l) (rl_capacity l) now (Some (buckets k))"
  shows "fst (run_limiter calls l) = run_ideal (rl_rate l) (rl_capacity l) calls buckets"
  using assms
proof (induction calls arbitrary: now l buckets)
  case (Cons call calls)
  obtain key t where call: "call = (key, t)" by (cases call)
  with Cons.prems have t: "now \<le> t" "sorted (t # map snd calls)" by auto
  obtain b l1 where b: "Allow key t l = (b, l1)" by (cases "Allow key t l")
  note A = Allow_level [OF b sound_later [OF Cons.prems(1) t(1)] Cons.prems(2)]
  have r: "0 \<le> rl_rate l" "1 \<le> rl_capacity l" using Cons.prems(2) by (simp_all add: usual_def)
  have L: "level l k t = bucket_level (rl_rate l) (rl_capacity l) t (Some (buckets k))" for k
    using Cons.prems(4) [of k] by (simp add: level_advance [OF r(1) t(1)])
  let ?T = "bucket_level (rl_rate l) (rl_capacity l) t (Some (buckets (named key)))"
  let ?b = "\<lparr>tb_tokens = (if b then ?T - 1 else ?T), tb_lastRefill = t, tb_lastSeen = t\<rparr>"
  have sp: "spend (rl_rate l) (rl_capacity l) t (buckets (named key)) = (b, ?b)"
    using A(1) L by (simp add: spend_def bucket_level_def Let_def)
  have "?T \<le> rl_capacity l" by (simp add: bucket_level_def)
  then have "level l1 k t = bucket_level (rl_rate l1) (rl_capacity l1) t (Some ((buckets(named key := ?b)) k))" for k
    using A(2) [of k] L [of k] by (simp add: A(5,6) del: fun_upd_apply) (auto simp: bucket_level_def)
  from Cons.IH [OF A(3,4) t(2) this] show ?case
    by (cases "run_limiter calls l1") (simp add: call b sp A(5,6) del: fun_upd_apply)
qed simp

lemma run_limiter_append:
  "run_limiter (xs @ ys) l = (case run_limiter xs l of (bs, l1) \<Rightarrow> (case run_limiter ys l1 of (cs, l2) \<Rightarrow> (bs @ cs, l2)))"
  by (induction xs arbitrary: l) (auto split: prod.splits)

section \<open>Properties\<close>

lemma new_limiter:
  "usual (NewTokenBucketLimiter rate capacity) \<longleftrightarrow> 0 \<le> rate \<and> 1 \<le> capacity \<and> of_int capacity \<le> seconds limiterBucketTTL * rate"
  "sound now (NewTokenBucketLimiter rate capacity)" "bucket_of (NewTokenBucketLimiter rate capacity) k = None"
  "rl_rate (NewTokenBucketLimiter rate capacity) = rate" "rl_capacity (NewTokenBucketLimiter rate capacity) = of_int capacity"
proof -
  have none: "bucket_of (NewTokenBucketLimiter rate capacity) k = None" for k
    by (simp add: bucket_of_def NewTokenBucketLimiter_def fresh_shards_def shardFor_def limiterShardCount_def)
  then show "bucket_of (NewTokenBucketLimiter rate capacity) k = None" "sound now (NewTokenBucketLimiter rate capacity)"
    by (simp_all add: sound_def sound_bucket_def) (simp add: NewTokenBucketLimiter_def fresh_shards_def limiterShardCount_def)
qed (auto simp: usual_def NewTokenBucketLimiter_def)

text \<open>C37. The request limiter enforces its rate: with a capacity of at least one that the rate refills before an idle bucket is swept,
  its answers to calls in the order of time are those of a limiter with one bucket per key that is never swept, and in no window of
  time does it let more calls of a key through than the capacity and what the rate adds in the window.\<close>

theorem rate_is_enforced:
  assumes "0 \<le> rate" "1 \<le> capacity" "of_int capacity \<le> seconds limiterBucketTTL * rate"
    and "sorted (map snd (earlier @ (k0, t0) # window))"
  shows "(let calls = earlier @ (k0, t0) # window; answers = fst (run_limiter calls (NewTokenBucketLimiter rate capacity)); start = snd (hd calls) in
       answers = run_ideal rate (of_int capacity) calls (\<lambda>_. \<lparr>tb_tokens = of_int capacity, tb_lastRefill = start, tb_lastSeen = start\<rparr>)
       \<and> of_nat (granted k ((k0, t0) # window) (drop (length earlier) answers))
           \<le> of_int capacity + seconds (last (t0 # map snd window) - t0) * rate)"
proof -
  let ?new = "NewTokenBucketLimiter rate capacity" and ?start = "snd (hd (earlier @ (k0, t0) # window))"
  have u: "usual ?new" using assms(1-3) by (simp add: new_limiter)
  have sorted: "sorted (?start # map snd (earlier @ (k0, t0) # window))" using assms(4) by (cases earlier) auto
  obtain bs l1 where e: "run_limiter earlier ?new = (bs, l1)" by (cases "run_limiter earlier ?new")
  obtain cs l2 where w: "run_limiter ((k0, t0) # window) l1 = (cs, l2)" by (cases "run_limiter ((k0, t0) # window) l1")
  have E: "sound (last (?start # map snd earlier)) l1" "usual l1" "rl_rate l1 = rate" "rl_capacity l1 = of_int capacity" "length bs = length earlier"
    using run_limiter_bound [OF new_limiter(2) u _ e, of ?start] sorted by (auto simp: new_limiter sorted_append)
  have "last (?start # map snd earlier) \<le> t0" using sorted by (auto simp: sorted_append last_map)
  then have "sound t0 l1" by (rule sound_later [OF E(1)])
  then have "of_nat (granted k ((k0, t0) # window) cs) \<le> level l1 k t0 + seconds (last (t0 # map snd window) - t0) * rate"
    using run_limiter_bound [OF _ E(2) _ w, of t0 k] sorted E(3) by (simp add: sorted_append)
  moreover have "level l1 k t0 \<le> of_int capacity" using E(4) by (simp add: bucket_level_def split: option.split)
  ultimately have window: "of_nat (granted k ((k0, t0) # window) cs) \<le> of_int capacity + seconds (last (t0 # map snd window) - t0) * rate"
    by linarith
  have ans: "fst (run_limiter (earlier @ (k0, t0) # window) ?new) = bs @ cs" by (simp add: run_limiter_append e w del: run_limiter.simps)
  have ideal: "fst (run_limiter (earlier @ (k0, t0) # window) ?new) = run_ideal rate (of_int capacity) (earlier @ (k0, t0) # window)
      (\<lambda>_. \<lparr>tb_tokens = of_int capacity, tb_lastRefill = ?start, tb_lastSeen = ?start\<rparr>)"
    using run_limiter_ideal [OF new_limiter(2) u sorted] by (simp add: new_limiter bucket_level_def)
  have rest: "drop (length earlier) (bs @ cs) = cs" using E(5) by simp
  show ?thesis
    unfolding Let_def
  proof
    show "of_nat (granted k ((k0, t0) # window) (drop (length earlier) (fst (run_limiter (earlier @ (k0, t0) # window) ?new))))
        \<le> of_int capacity + seconds (last (t0 # map snd window) - t0) * rate"
      unfolding ans rest by (rule window)
  qed (rule ideal)
qed

theorem rate_is_enforced_witness:
  "let calls = [(''al'', 0)] @ (''al'', 1000000000) # [(''al'', 1500000000)];
       answers = fst (run_limiter calls (NewTokenBucketLimiter 1 2)); start = snd (hd calls) in
     answers = run_ideal 1 (of_int 2) calls (\<lambda>_. \<lparr>tb_tokens = of_int 2, tb_lastRefill = start, tb_lastSeen = start\<rparr>)
     \<and> of_nat (granted ''al'' ((''al'', 1000000000) # [(''al'', 1500000000)]) (drop (length [(''al'', 0 :: int)]) answers))
         \<le> of_int 2 + seconds (last (1000000000 # map snd [(''al'', 1500000000)]) - 1000000000) * 1"
  by (rule rate_is_enforced) (simp_all add: seconds_def limiterBucketTTL_def)

end
