(* ===== verification/Community_Events.thy ===== *)
theory Community_Events
  imports Community_Safety Delivery
begin

text \<open>
  The event worker of communities (internal/community/worker.go): task notifications are projected into the event
  outbox, a publisher writes due events to the Kafka topic under a lease token, and a consumer turns each event
  into rows of the members' notification inboxes.  The lemmas show that an event is only marked done
  after it is in the topic, and that inbox rows come from recorded events and go to members other than the actor.
\<close>

section \<open>Publishing\<close>

text \<open>
  Which rows other transactions hold locked at a given call (\<open>SKIP LOCKED\<close> passes over them), and whether the
  worker has a Redis client for its hints.
\<close>

record worker_cfg = com_cfg +
  row_locked :: "nat \<Rightarrow> string \<Rightarrow> bool"
  worker_rdb :: bool

definition task_event_id :: "'c com_cfg_scheme \<Rightarrow> notice_row \<Rightarrow> string" where
  "task_event_id c n = ''task-'' @ sql_sha2 c (tn_EventID n @ '':'' @ tn_TargetType n @ '':'' @ tn_TargetID n)"

definition task_projection :: "'c com_cfg_scheme \<Rightarrow> ('b cdb_scheme) \<Rightarrow> notice_row \<Rightarrow> com_outbox_row option" where
  "task_projection c s n =
     (case find (\<lambda>e. te_ID e = tn_EventID n) (task_events s) of None \<Rightarrow> None
      | Some e \<Rightarrow> (case find (\<lambda>t. tk_ID t = te_TaskID e) (tasks s) of None \<Rightarrow> None
        | Some t \<Rightarrow>
          if list_ex (\<lambda>x. ev_ID (ce_Event x) = task_event_id c n) (com_outbox s) then None
          else Some (new_event \<lparr>ev_ID = task_event_id c n, ev_GroupID = tk_GroupID t, ev_Actor = te_Actor e,
            ev_Kind = ''task_'' @ te_Action e, ev_ObjectID = tk_ID t,
            ev_Recipient = (if tn_TargetType n = ''user'' then tn_TargetID n else []), ev_CreatedAt = te_CreatedAt e\<rparr> (te_CreatedAt e))))"

definition projected_tasks :: "'c com_cfg_scheme \<Rightarrow> 'b cdb_scheme \<Rightarrow> com_outbox_row list" where
  "projected_tasks c s = take 100 (List.map_filter (task_projection c s) (order_asc tn_ID (notices s)))"

definition projectTasks :: "'c com_cfg_scheme \<Rightarrow> ('b cdb_scheme) env \<Rightarrow> ('b cdb_scheme, gerr + unit) io" where
  "projectTasks c env =
     update_w env (\<lambda>s. s\<lparr>com_outbox := fold (ins_ignore com_outbox_keys) (projected_tasks c s) (com_outbox s)\<rparr>)"

definition event_due :: "int \<Rightarrow> (string \<Rightarrow> bool) \<Rightarrow> com_outbox_row \<Rightarrow> bool" where
  "event_due now locked r \<longleftrightarrow> ce_Status r \<in> {Pending, Processing} \<and> ce_AvailableAt r \<le> now \<and> \<not> locked (ev_ID (ce_Event r))"

definition due_events :: "int \<Rightarrow> (string \<Rightarrow> bool) \<Rightarrow> 'b cdb_scheme \<Rightarrow> com_outbox_row list" where
  "due_events now locked s = order_asc (\<lambda>r. (ev_CreatedAt (ce_Event r), ev_ID (ce_Event r))) (filter (event_due now locked) (com_outbox s))"

definition lease_event :: "string \<Rightarrow> string \<Rightarrow> int \<Rightarrow> 'b cdb_scheme \<Rightarrow> 'b cdb_scheme" where
  "lease_event i token until s = s\<lparr>com_outbox := upd (\<lambda>r. ev_ID (ce_Event r) = i)
     (\<lambda>r. r\<lparr>ce_Status := Processing, ce_Attempts := ce_Attempts r + 1, ce_LeaseToken := token, ce_AvailableAt := until\<rparr>) (com_outbox s)\<rparr>"

definition take_event_tx :: "'c worker_cfg_scheme \<Rightarrow> ('b cdb_scheme) env \<Rightarrow> ('b cdb_scheme, (com_event \<times> int \<times> string) option tx_end) io" where
  "take_event_tx c tx =
     State_Monad.bind (clock tx) (\<lambda>now.
     State_Monad.bind (draw (row_locked c)) (\<lambda>locked.
     then_tx (query tx (due_events now locked)) (\<lambda>rows. case rows of
       [] \<Rightarrow> State_Monad.return (Rollback (Inr None))
     | r # _ \<Rightarrow>
         State_Monad.bind (draw (uuid c)) (\<lambda>token.
         State_Monad.bind (clock tx) (\<lambda>now'.
         then_tx (update_w tx (lease_event (ev_ID (ce_Event r)) token (now' + 30000))) (\<lambda>_.
         State_Monad.return (Commit (Inr (Some (ce_Event r, ce_Attempts r, token))))))))))"

definition write_event :: "('b cdb_scheme) env \<Rightarrow> com_event \<Rightarrow> ('b cdb_scheme, gerr + unit) io" where
  "write_event env e = update_w env (\<lambda>s. s\<lparr>com_topic := com_topic s @ [(ev_GroupID e, e)]\<rparr>)"

definition settle_event :: "string \<Rightarrow> string \<Rightarrow> ob_status \<Rightarrow> int \<Rightarrow> string \<Rightarrow> 'b cdb_scheme \<Rightarrow> 'b cdb_scheme" where
  "settle_event i token status available reason s = s\<lparr>com_outbox :=
     upd (\<lambda>r. ev_ID (ce_Event r) = i \<and> ce_LeaseToken r = token \<and> ce_Status r = Processing)
       (\<lambda>r. r\<lparr>ce_Status := status, ce_AvailableAt := available, ce_LastError := reason\<rparr>) (com_outbox s)\<rparr>"

definition retry_wait :: "int \<Rightarrow> int" where
  "retry_wait attempts = 2 ^ nat (if attempts > 6 then 6 else attempts) * 1000"

definition publish_taken :: "('b cdb_scheme) env \<Rightarrow> com_event \<Rightarrow> int \<Rightarrow> string \<Rightarrow> ('b cdb_scheme, gerr + unit) io" where
  "publish_taken env e attempts token =
     State_Monad.bind (write_event env e) (\<lambda>published.
     State_Monad.bind (clock env) (\<lambda>now.
     case published of
       Inr _ \<Rightarrow> update_w env (settle_event (ev_ID e) token Finished now [])
     | Inl problem \<Rightarrow>
         let attempts = attempts + 1; status = (if attempts \<ge> 10 then Dead else Pending) in
         State_Monad.bind (clock env) (\<lambda>now.
         then_ok (update_w env (settle_event (ev_ID e) token status (now + retry_wait attempts) (take 512 (err_text problem)))) (\<lambda>_.
         err problem))))"

fun publish_rounds :: "nat \<Rightarrow> 'c worker_cfg_scheme \<Rightarrow> ('b cdb_scheme) env \<Rightarrow> ('b cdb_scheme, gerr + unit) io" where
  "publish_rounds 0 c env = ok ()"
| "publish_rounds (Suc n) c env =
     then_ok (in_tx env (take_event_tx c)) (\<lambda>taken. case taken of
       None \<Rightarrow> ok ()
     | Some (e, attempts, token) \<Rightarrow> then_ok (publish_taken env e attempts token) (\<lambda>_. publish_rounds n c env))"

definition pending_events :: "'b cdb_scheme \<Rightarrow> nat" where
  "pending_events s = length (filter (\<lambda>r. ce_Status r \<in> {Pending, Processing}) (com_outbox s))"

definition PublishBatch :: "'c worker_cfg_scheme \<Rightarrow> ('b cdb_scheme) env \<Rightarrow> ('b cdb_scheme, gerr + unit) io" where
  "PublishBatch c env =
     then_ok (projectTasks c env) (\<lambda>_. ignore (query env pending_events) (publish_rounds 10 c env))"

text \<open>The publisher's loop for a number of ticks; an error is logged and the next tick tries again.\<close>

fun RunPublisher :: "nat \<Rightarrow> 'c worker_cfg_scheme \<Rightarrow> ('b cdb_scheme) env \<Rightarrow> ('b cdb_scheme, unit) io" where
  "RunPublisher 0 c env = State_Monad.return ()"
| "RunPublisher (Suc n) c env = ignore (PublishBatch c env) (RunPublisher n c env)"

section \<open>Projecting into the inboxes\<close>

definition inbox_keys :: "inbox_row unique_key list" where
  "inbox_keys = [(''community_notifications.uk_notification'', \<lambda>a b. nt_Event a = nt_Event b \<and> nt_Recipient a = nt_Recipient b)]"

definition next_inbox_id :: "inbox_row list \<Rightarrow> int" where
  "next_inbox_id rows = 1 + max_or_0 (map nt_ID rows)"

definition concerns :: "com_event \<Rightarrow> 'b cdb_scheme \<Rightarrow> member_row \<Rightarrow> bool" where
  "concerns e s m \<longleftrightarrow> gm_group m = ev_GroupID e \<and> gm_status m = ''active''
     \<and> list_ex (\<lambda>g. gr_id g = gm_group m \<and> gr_status g = ''active'') (group_rows s)
     \<and> gm_user m \<noteq> ev_Actor e \<and> (ev_Recipient e = [] \<or> gm_user m = ev_Recipient e)"

definition notify_member :: "com_event \<Rightarrow> member_row \<Rightarrow> inbox_row list \<Rightarrow> inbox_row list" where
  "notify_member e m rows = ins_ignore inbox_keys
     \<lparr>nt_ID = next_inbox_id rows, nt_Event = ev_ID e, nt_Recipient = gm_user m, nt_Group = ev_GroupID e, nt_Kind = ev_Kind e,
      nt_Object = ev_ObjectID e, nt_CreatedAt = ev_CreatedAt e, nt_ReadAt = None\<rparr> rows"

definition notify_members :: "com_event \<Rightarrow> 'b cdb_scheme \<Rightarrow> 'b cdb_scheme" where
  "notify_members e s = s\<lparr>inbox := fold (notify_member e) (filter (concerns e s) (member_rows s)) (inbox s)\<rparr>"

definition hint_one :: "('b cdb_scheme) env \<Rightarrow> string \<Rightarrow> ('b cdb_scheme, gerr + unit) io" where
  "hint_one env uid =
     State_Monad.bind (query env (\<lambda>s. strs (rds s) (RouteKey uid))) (\<lambda>res. case res of
       Inr (Some (Txt route)) \<Rightarrow>
         ignore (publish_on env (ChannelForGateway (ParseGatewayID route))
           \<lparr>pe_Kind = ''community_notice'', pe_TargetID = uid, pe_MessageID = [], pe_SessionID = [], pe_Seq = 0, pe_TraceID = [],
            pe_GatewayID = ParseGatewayID route, pe_RouteValue = route, pe_SentAt = 0, pe_PayloadB64 = []\<rparr>) (ok ())
     | _ \<Rightarrow> ok ())"

definition hint :: "('b cdb_scheme) env \<Rightarrow> com_event \<Rightarrow> ('b cdb_scheme, gerr + unit) io" where
  "hint env e =
     State_Monad.bind (query env (\<lambda>s. map nt_Recipient (filter (\<lambda>n. nt_Event n = ev_ID e
         \<and> list_ex (\<lambda>m. gm_group m = nt_Group n \<and> gm_user m = nt_Recipient n \<and> gm_status m = ''active'') (member_rows s)) (inbox s))))
       (\<lambda>res. case res of Inl _ \<Rightarrow> ok () | Inr us \<Rightarrow> each (hint_one env) us)"

definition Project :: "'c worker_cfg_scheme \<Rightarrow> ('b cdb_scheme) env \<Rightarrow> com_event \<Rightarrow> ('b cdb_scheme, gerr + unit) io" where
  "Project c env e0 =
     then_ok (query env (\<lambda>s. find (\<lambda>r. ev_ID (ce_Event r) = ev_ID e0) (com_outbox s))) (\<lambda>row. case row of
       None \<Rightarrow> err ErrNoRows
     | Some r \<Rightarrow> let e = ce_Event r in
         then_ok (in_tx env (\<lambda>tx. then_tx (update_w tx (notify_members e)) (\<lambda>_. State_Monad.return (Commit (Inr ()))))) (\<lambda>_.
         if worker_rdb c then hint env e else ok ()))"

section \<open>The consumer\<close>

text \<open>The JSON value of a message is represented by the event it encodes; the offsets committed and the dead letters are recorded in order.\<close>

datatype event_value = EventJson com_event | NotJson string

record event_message =
  em_Key :: string
  em_Value :: event_value
  em_Offset :: nat

record consumer = cdb +
  com_dlq :: "(string \<times> event_value \<times> nat) list"
  com_commits :: "nat list"

definition handle_event :: "'c worker_cfg_scheme \<Rightarrow> ('b consumer_scheme) env \<Rightarrow> event_message \<Rightarrow> ('b consumer_scheme, gerr + unit) io" where
  "handle_event c env msg =
     then_ok (case em_Value msg of
         NotJson t \<Rightarrow> update_w env (\<lambda>s. s\<lparr>com_dlq := com_dlq s @ [(em_Key msg, em_Value msg, em_Offset msg)]\<rparr>)
       | EventJson e \<Rightarrow> if ev_ID e = [] then update_w env (\<lambda>s. s\<lparr>com_dlq := com_dlq s @ [(em_Key msg, em_Value msg, em_Offset msg)]\<rparr>)
           else Project c env e) (\<lambda>_.
       update_w env (\<lambda>s. s\<lparr>com_commits := com_commits s @ [em_Offset msg]\<rparr>))"

text \<open>One message is tried until it is handled and committed, or the context ends (the fuel): \<open>False\<close>.\<close>

fun until_handled :: "nat \<Rightarrow> 'c worker_cfg_scheme \<Rightarrow> ('b consumer_scheme) env \<Rightarrow> event_message \<Rightarrow> ('b consumer_scheme, bool) io" where
  "until_handled 0 c env msg = State_Monad.return False"
| "until_handled (Suc n) c env msg =
     State_Monad.bind (handle_event c env msg) (\<lambda>res. case res of
       Inr _ \<Rightarrow> State_Monad.return True
     | Inl _ \<Rightarrow> until_handled n c env msg)"

fun RunConsumer :: "nat \<Rightarrow> 'c worker_cfg_scheme \<Rightarrow> ('b consumer_scheme) env \<Rightarrow> event_message list \<Rightarrow> ('b consumer_scheme, unit) io" where
  "RunConsumer fuel c env [] = State_Monad.return ()"
| "RunConsumer fuel c env (msg # rest) =
     State_Monad.bind (until_handled fuel c env msg) (\<lambda>handled.
       if handled then RunConsumer fuel c env rest else State_Monad.return ())"

text \<open>What a run unfolds.\<close>

lemmas community_events_run [exec_defs] =
  task_event_id_def task_projection_def projected_tasks_def projectTasks_def event_due_def due_events_def lease_event_def take_event_tx_def write_event_def
  settle_event_def retry_wait_def publish_taken_def pending_events_def PublishBatch_def inbox_keys_def next_inbox_id_def concerns_def
  notify_member_def notify_members_def hint_one_def hint_def Project_def handle_event_def

section \<open>Done events are published\<close>

definition recorded :: "com_event \<Rightarrow> 'b cdb_scheme \<Rightarrow> bool" where
  "recorded e s \<longleftrightarrow> e \<in> ce_Event ` set (com_outbox s)"

definition in_topic :: "com_event \<Rightarrow> 'b cdb_scheme \<Rightarrow> bool" where
  "in_topic e s \<longleftrightarrow> (ev_GroupID e, e) \<in> set (com_topic s)"

definition events_sound :: "'b cdb_scheme \<Rightarrow> bool" where
  "events_sound s \<longleftrightarrow> distinct (map (\<lambda>r. ev_ID (ce_Event r)) (com_outbox s))
     \<and> (\<forall>r\<in>set (com_outbox s). ce_Status r = Finished \<longrightarrow> in_topic (ce_Event r) s)"

lemma fold_ins_ignore_outbox:
  assumes "distinct (map (\<lambda>r. ev_ID (ce_Event r)) rows)" "\<forall>r\<in>set new. ce_Status r = Pending"
  shows "distinct (map (\<lambda>r. ev_ID (ce_Event r)) (fold (ins_ignore com_outbox_keys) new rows))
    \<and> (\<forall>r\<in>set (fold (ins_ignore com_outbox_keys) new rows). r \<in> set rows \<or> ce_Status r = Pending)
    \<and> set rows \<subseteq> set (fold (ins_ignore com_outbox_keys) new rows)"
  using assms
proof (induction new arbitrary: rows)
  case (Cons x xs)
  let ?rows = "ins_ignore com_outbox_keys x rows"
  have one: "distinct (map (\<lambda>r. ev_ID (ce_Event r)) ?rows)" "set ?rows \<subseteq> insert x (set rows)" "set rows \<subseteq> set ?rows"
    using Cons.prems by (auto simp: ins_ignore_def com_outbox_keys_def clash_None_iff split: option.splits)
  have "\<forall>r\<in>set xs. ce_Status r = Pending" using Cons.prems(2) by simp
  note ih = Cons.IH [OF one(1) this]
  have "r \<in> set rows \<or> ce_Status r = Pending" if "r \<in> set (fold (ins_ignore com_outbox_keys) xs ?rows)" for r
  proof (cases "r \<in> set ?rows")
    case True
    then have "r = x \<or> r \<in> set rows" using one(2) by blast
    then show ?thesis using Cons.prems(2) by auto
  next
    case False
    then show ?thesis using ih that by blast
  qed
  moreover have "set rows \<subseteq> set (fold (ins_ignore com_outbox_keys) xs ?rows)" using one(3) ih by blast
  ultimately show ?case using ih by simp
qed simp

lemma task_projection_pending: "task_projection c s n = Some r \<Longrightarrow> ce_Status r = Pending"
  by (auto simp: task_projection_def new_event_def split: option.split_asm if_split_asm)

lemma projected_tasks_pending: "r \<in> set (projected_tasks c s) \<Longrightarrow> ce_Status r = Pending"
  unfolding projected_tasks_def
  by (drule in_set_takeD) (auto simp: List.map_filter_def dest: task_projection_pending)

lemma projection_sound:
  assumes "events_sound s"
  shows "events_sound (s\<lparr>com_outbox := fold (ins_ignore com_outbox_keys) (projected_tasks c s) (com_outbox s)\<rparr>)"
proof -
  have "distinct (map (\<lambda>r. ev_ID (ce_Event r)) (com_outbox s))" using assms by (simp add: events_sound_def)
  from fold_ins_ignore_outbox [OF this, of "projected_tasks c s"] projected_tasks_pending
  have new: "distinct (map (\<lambda>r. ev_ID (ce_Event r)) (fold (ins_ignore com_outbox_keys) (projected_tasks c s) (com_outbox s)))"
    "\<forall>r\<in>set (fold (ins_ignore com_outbox_keys) (projected_tasks c s) (com_outbox s)). r \<in> set (com_outbox s) \<or> ce_Status r = Pending"
    by blast+
  from new(2) assms have "in_topic (ce_Event r) s"
    if "r \<in> set (fold (ins_ignore com_outbox_keys) (projected_tasks c s) (com_outbox s))" "ce_Status r = Finished" for r
    using that by (auto simp: events_sound_def)
  with new(1) show ?thesis by (simp add: events_sound_def in_topic_def)
qed

lemma lease_event_sound: "events_sound s \<Longrightarrow> events_sound (lease_event i token t s)"
  by (auto simp: events_sound_def lease_event_def in_topic_def map_key_upd in_upd_iff split: if_splits)

lemma events_upd: "(\<And>r. ce_Event (f r) = ce_Event r) \<Longrightarrow> ce_Event ` set (upd p f rows) = ce_Event ` set rows"
  unfolding set_map [symmetric] by (simp add: map_key_upd)

lemma lease_event_recorded: "recorded e s \<Longrightarrow> recorded e (lease_event i token t s)"
  by (simp add: recorded_def lease_event_def events_upd)

lemma settle_event_recorded: "recorded e s \<Longrightarrow> recorded e (settle_event i token st t m s)"
  by (simp add: recorded_def settle_event_def events_upd)

lemma recorded_unique:
  assumes "events_sound s" "recorded e s" "r \<in> set (com_outbox s)" "ev_ID (ce_Event r) = ev_ID e"
  shows "ce_Event r = e"
proof -
  obtain r0 where r0: "r0 \<in> set (com_outbox s)" "ce_Event r0 = e" using assms(2) by (auto simp: recorded_def)
  have "r = r0"
    by (rule key_row_unique [of "\<lambda>r. ev_ID (ce_Event r)" "com_outbox s"]) (use assms r0 in \<open>simp_all add: events_sound_def\<close>)
  with r0 show ?thesis by simp
qed

lemma settle_event_sound:
  assumes "events_sound s" "recorded e s" "st = Finished \<Longrightarrow> in_topic e s"
  shows "events_sound (settle_event (ev_ID e) token st t m s)"
proof -
  have "in_topic (ce_Event r) s" if "r \<in> set (com_outbox s)" "ev_ID (ce_Event r) = ev_ID e" "st = Finished" for r
    using recorded_unique [OF assms(1,2) that(1,2)] assms(3) that(3) by simp
  with assms(1) show ?thesis
    by (auto simp: events_sound_def settle_event_def in_topic_def map_key_upd in_upd_iff split: if_splits)
qed

lemma publish_taken_sound:
  assumes rec: "relies env (\<lambda>s. events_sound s \<and> recorded e s)" "relies env (\<lambda>s. events_sound s \<and> recorded e s \<and> in_topic e s)"
    and w: "events_sound w" "recorded e w"
  shows "wp (publish_taken env e attempts token) (\<lambda>_. events_sound) w"
proof -
  have wr: "wp (write_event env e) (\<lambda>r s. events_sound s \<and> recorded e s \<and> (r = Inr () \<longrightarrow> in_topic e s)) w"
    unfolding write_event_def
    by (rule wp_update_stable [OF rec(1)]) (use w in \<open>auto simp: events_sound_def recorded_def in_topic_def\<close>)
  have done_case: "wp (update_w env (settle_event (ev_ID e) token Finished now [])) (\<lambda>_. events_sound) s"
    if "events_sound s" "recorded e s" "in_topic e s" for now s
    by (rule wp_update_stable [OF rec(2)]) (use that in \<open>auto intro: settle_event_sound\<close>)
  have retry_case: "wp (then_ok (update_w env (settle_event (ev_ID e) token st t m)) (\<lambda>_. err problem)) (\<lambda>_. events_sound) s"
    if "events_sound s" "recorded e s" "st \<noteq> Finished" for st t m problem s
    by (rule wp_then_okI [where R = "\<lambda>_. events_sound"], rule wp_update_stable [OF rec(1)])
       (use that in \<open>auto intro: settle_event_sound wp_err\<close>)
  show ?thesis
    unfolding publish_taken_def Let_def
    apply (rule wp_bindI [OF wr])
    apply (rule wp_bind, rule wp_clock)
    apply (rule wp_case_sum)
     apply (rule wp_bind, rule wp_clock, rule retry_case; simp)
    apply (rule done_case; simp)
    done
qed

lemma wp_take_event_tx:
  "events_sound s \<Longrightarrow> wp (take_event_tx c (quiet env)) (\<lambda>r s'. case r of
     Rollback x \<Rightarrow> \<forall>y. x \<noteq> Inr (Some y)
   | Commit x \<Rightarrow> events_sound s' \<and> (\<forall>e a t. x = Inr (Some (e, a, t)) \<longrightarrow> recorded e s')) s"
  unfolding take_event_tx_def
  apply (rule wp_bind, rule wp_clock, rule wp_bind, rule wp_draw)
  apply (rule wp_then_txI [OF wp_query_quiet], simp)
  apply (elim conjE, hypsubst)
  subgoal for now locked rows
    apply (cases "due_events now (row_locked c locked) s")
     apply (simp add: wp_return)
    apply simp
    apply (rule wp_bind, rule wp_draw, rule wp_bind, rule wp_clock)
    apply (rule wp_then_txI [OF wp_update_quiet], simp)
    apply (rule wp_return)
    subgoal premises prems for r rs
    proof -
      have "r \<in> set (due_events now (row_locked c locked) s)" using prems by simp
      then have "recorded (ce_Event r) s" by (auto simp: due_events_def recorded_def)
      with prems show ?thesis by (auto simp: lease_event_sound lease_event_recorded)
    qed
    done
  done

lemma publish_rounds_sound:
  assumes "relies env events_sound"
    and "\<And>e. relies env (\<lambda>s. events_sound s \<and> recorded e s)" "\<And>e. relies env (\<lambda>s. events_sound s \<and> recorded e s \<and> in_topic e s)"
    and "events_sound w"
  shows "wp (publish_rounds n c env) (\<lambda>_. events_sound) w"
  using assms(4)
proof (induction n arbitrary: w)
  case 0
  then show ?case by (simp add: wp_ok)
next
  case (Suc n)
  let ?R = "\<lambda>r s. events_sound s \<and> (\<forall>e a t. r = Inr (Some (e, a, t)) \<longrightarrow> recorded e s)"
  have take: "wp (in_tx env (take_event_tx c)) ?R w"
    apply (rule wp_in_tx_stable [OF assms(1) Suc.prems], simp)
    apply (rule wp_mono [OF wp_take_event_tx], assumption)
    apply (auto split: tx_end.splits)
    done
  show ?case
    unfolding publish_rounds.simps
    apply (rule wp_then_okI [OF take], simp)
    apply (rule wp_case_option, rule wp_ok, simp)
    apply (rule wp_case_prod, rule wp_case_prod)
    apply (rule wp_then_okI [where R = "\<lambda>_. events_sound"])
      apply (rule publish_taken_sound [OF assms(2,3)]; simp)
     apply simp
    apply (rule Suc.IH, simp)
    done
qed

lemma PublishBatch_sound:
  assumes "relies env events_sound"
    and "\<And>e. relies env (\<lambda>s. events_sound s \<and> recorded e s)" "\<And>e. relies env (\<lambda>s. events_sound s \<and> recorded e s \<and> in_topic e s)"
    and "events_sound w"
  shows "wp (PublishBatch c env) (\<lambda>_. events_sound) w"
  unfolding PublishBatch_def projectTasks_def
  apply (rule wp_then_okI [where R = "\<lambda>_. events_sound"])
    apply (rule wp_update_stable [OF assms(1,4)])
      apply (simp_all add: projection_sound) [3]
   apply simp
  apply (rule wp_ignoreI [where R = "\<lambda>_. events_sound"])
   apply (rule wp_query_stable [OF assms(1)]; simp)
  apply (rule publish_rounds_sound [OF assms(1-3)], simp)
  done

section \<open>Inboxes\<close>

definition inbox_sound :: "'b cdb_scheme \<Rightarrow> bool" where
  "inbox_sound s \<longleftrightarrow> distinct (map (\<lambda>n. (nt_Event n, nt_Recipient n)) (inbox s))
     \<and> (\<forall>n\<in>set (inbox s). \<exists>e. recorded e s \<and> ev_ID e = nt_Event n \<and> ev_GroupID e = nt_Group n \<and> ev_Kind e = nt_Kind n
         \<and> nt_Recipient n \<noteq> ev_Actor e \<and> (ev_Recipient e = [] \<or> nt_Recipient n = ev_Recipient e)
         \<and> (\<exists>m\<in>set (member_rows s). gm_group m = nt_Group n \<and> gm_user m = nt_Recipient n))"

definition notice_of :: "com_event \<Rightarrow> member_row \<Rightarrow> inbox_row \<Rightarrow> bool" where
  "notice_of e m n \<longleftrightarrow> nt_Event n = ev_ID e \<and> nt_Recipient n = gm_user m \<and> nt_Group n = ev_GroupID e \<and> nt_Kind n = ev_Kind e"

lemma notify_fold:
  assumes "distinct (map (\<lambda>n. (nt_Event n, nt_Recipient n)) rows)"
  shows "distinct (map (\<lambda>n. (nt_Event n, nt_Recipient n)) (fold (notify_member e) ms rows))
      \<and> (\<forall>n\<in>set (fold (notify_member e) ms rows). n \<in> set rows \<or> (\<exists>m\<in>set ms. notice_of e m n))"
  using assms
proof (induction ms arbitrary: rows)
  case (Cons m ms)
  let ?rows = "notify_member e m rows"
  have one: "distinct (map (\<lambda>n. (nt_Event n, nt_Recipient n)) ?rows)" "\<forall>n\<in>set ?rows. n \<in> set rows \<or> notice_of e m n"
    using Cons.prems
    by (auto simp: notify_member_def ins_ignore_def inbox_keys_def clash_None_iff notice_of_def split: option.splits)
  from Cons.IH [OF one(1)] one(2) show ?case by auto
qed simp

lemma notify_members_sound:
  assumes "inbox_sound s" "recorded e s"
  shows "inbox_sound (notify_members e s)" "recorded e (notify_members e s)"
proof -
  let ?ms = "filter (concerns e s) (member_rows s)"
  have d: "distinct (map (\<lambda>n. (nt_Event n, nt_Recipient n)) (inbox s))" using assms(1) by (simp add: inbox_sound_def)
  note new = notify_fold [OF d, of e ?ms]
  have same: "recorded e' (notify_members e s) \<longleftrightarrow> recorded e' s" for e' by (simp add: recorded_def notify_members_def)
  show "recorded e (notify_members e s)" using assms(2) by (simp add: same)
  show "inbox_sound (notify_members e s)"
    unfolding inbox_sound_def same
  proof (intro conjI ballI)
    show "distinct (map (\<lambda>n. (nt_Event n, nt_Recipient n)) (inbox (notify_members e s)))"
      using new by (simp add: notify_members_def)
  next
    fix n assume "n \<in> set (inbox (notify_members e s))"
    then have "n \<in> set (inbox s) \<or> (\<exists>m\<in>set ?ms. notice_of e m n)" using new by (simp add: notify_members_def)
    then show "\<exists>e'. recorded e' s \<and> ev_ID e' = nt_Event n \<and> ev_GroupID e' = nt_Group n \<and> ev_Kind e' = nt_Kind n
         \<and> nt_Recipient n \<noteq> ev_Actor e' \<and> (ev_Recipient e' = [] \<or> nt_Recipient n = ev_Recipient e')
         \<and> (\<exists>m\<in>set (member_rows (notify_members e s)). gm_group m = nt_Group n \<and> gm_user m = nt_Recipient n)"
    proof
      assume "n \<in> set (inbox s)"
      with assms(1) show ?thesis by (auto simp: inbox_sound_def notify_members_def)
    next
      assume "\<exists>m\<in>set ?ms. notice_of e m n"
      then obtain m where "m \<in> set (member_rows s)" "concerns e s m" "notice_of e m n" by auto
      with assms(2) show ?thesis
        by (intro exI [of _ e]) (auto simp: concerns_def notice_of_def notify_members_def)
    qed
  qed
qed

lemma keeps_hint:
  assumes "relies env inbox_sound"
  shows "keeps inbox_sound (hint env e)"
proof -
  have pub: "keeps inbox_sound (publish_on env ch p)" for ch p
    unfolding publish_on_def by (rule keeps_exec [OF assms]) (auto simp: inbox_sound_def recorded_def)
  show ?thesis
    unfolding hint_def hint_one_def
    by (intro keeps_bind keeps_query keeps_case_sum keeps_case_option keeps_ok keeps_each keeps_ignore pub assms)
       (auto split: rvalue.split intro!: keeps_ok keeps_ignore pub)
qed

lemma Project_sound:
  assumes "relies env inbox_sound" "\<And>e. relies env (\<lambda>s. inbox_sound s \<and> recorded e s)" "inbox_sound w"
  shows "wp (Project c env e0) (\<lambda>_. inbox_sound) w"
proof -
  have tx: "wp (in_tx env (\<lambda>tx. then_tx (update_w tx (notify_members e)) (\<lambda>_. State_Monad.return (Commit (Inr ())))))
      (\<lambda>_. inbox_sound) s" if "inbox_sound s" "recorded e s" for e s
    apply (rule wp_in_tx_stable [OF assms(2) [of e]])
      apply (simp add: that)
     apply simp
    apply (rule wp_then_txI [OF wp_update_quiet], simp)
    apply (rule wp_return)
    apply (simp add: notify_members_sound)
    done
  show ?thesis
    unfolding Project_def Let_def
    apply (rule wp_then_okI [where R = "\<lambda>r s. inbox_sound s \<and> (\<forall>x. r = Inr (Some x) \<longrightarrow> recorded (ce_Event x) s)"])
      apply (rule wp_query_stable [OF assms(1,3)], simp)
      apply (auto simp: recorded_def dest!: find_Some_iff_in) [1]
     apply simp
    apply (rule wp_case_option, rule wp_err, simp)
    apply (rule wp_then_okI [where R = "\<lambda>_. inbox_sound"], rule tx)
       apply simp_all [3]
    apply (rule wp_if, rule keeps_wp [OF keeps_hint [OF assms(1)]], assumption)
    apply (rule wp_ok, assumption)
    done
qed

section \<open>A message that names no event\<close>

lemma unknown_event_again:
  assumes "em_Value msg = EventJson e" "ev_ID e \<noteq> []" "\<forall>r\<in>set (com_outbox s). ev_ID (ce_Event r) \<noteq> ev_ID e"
  shows "\<exists>k'. run_state (until_handled fuel c (calm t) msg) (k, s) = (False, (k', s))"
proof (induction fuel arbitrary: k)
  case (Suc fuel)
  have "find (\<lambda>r. ev_ID (ce_Event r) = ev_ID e) (com_outbox s) = None"
    using assms(3) by (simp add: find_None_iff_all)
  then have "run_state (handle_event c (calm t) msg) (k, s) = (Inl ErrNoRows, (Suc k, s))"
    using assms(1,2) by (simp add: handle_event_def Project_def run_calls)
  with Suc.IH [of "Suc k"] show ?case by (simp add: run_calls)
qed (simp add: run_calls)

section \<open>Properties\<close>

text \<open>A community event is only marked done after it is in the topic: publishing a batch keeps the invariant that the ids of events are
  distinct and every done event is in the Kafka topic under its community's key, if the other processes keep it and neither
  forget recorded events nor take messages back; whatever calls fail, including a lost reply of the topic or the database.\<close>

theorem done_event_is_in_topic:
  assumes "relies env events_sound"
    and "\<And>e. relies env (\<lambda>s. events_sound s \<and> recorded e s)" "\<And>e. relies env (\<lambda>s. events_sound s \<and> recorded e s \<and> in_topic e s)"
    and "events_sound w"
  shows "wp (PublishBatch c env) (\<lambda>_. events_sound) w"
  using assms by (rule PublishBatch_sound)

definition demo_event :: com_event where
  "demo_event = \<lparr>ev_ID = ''e1'', ev_GroupID = ''g1'', ev_Actor = ''al'', ev_Kind = ''post_created'', ev_ObjectID = ''p1'', ev_Recipient = [],
     ev_CreatedAt = 1\<rparr>"

theorem done_event_is_in_topic_witness:
  "wp (PublishBatch (com_cfg.extend demo_com \<lparr>row_locked = \<lambda>_ _. False, worker_rdb = True\<rparr>) (fails_from 6 9))
     (\<lambda>_. events_sound) (demo_cdb\<lparr>com_outbox := [new_event demo_event 1]\<rparr>)"
  by (rule done_event_is_in_topic) (simp_all add: events_sound_def new_event_def)

text \<open>C34. Inboxes follow the recorded events: projecting an event, whatever the message from Kafka says beside its id, keeps the
  invariant that a member has at most one notification per event, and each belongs to a recorded event of that community and
  kind, addressed to a member row of the community, never to the one who acted, and only to the event's recipient where it has one.\<close>

theorem inbox_follows_recorded_events:
  assumes "relies env inbox_sound" "\<And>e. relies env (\<lambda>s. inbox_sound s \<and> recorded e s)" "inbox_sound w"
  shows "wp (Project c env e) (\<lambda>_. inbox_sound) w"
  using assms by (rule Project_sound)

theorem inbox_follows_recorded_events_witness:
  "wp (Project (com_cfg.extend demo_com \<lparr>row_locked = \<lambda>_ _. False, worker_rdb = True\<rparr>) (calm 9) (demo_event\<lparr>ev_Recipient := ''al''\<rparr>))
     (\<lambda>_. inbox_sound) (demo_cdb\<lparr>com_outbox := [new_event demo_event 1]\<rparr>)"
  by (rule inbox_follows_recorded_events) (simp_all add: inbox_sound_def demo_cdb_simps)

text \<open>A message that names an unknown event stops the consumer: even when every call succeeds, a message whose event id is in no
  row of the outbox is never handled, so for any number of tries it is not committed, and none of the messages behind it is looked at.\<close>

theorem unknown_event_stops_consumer:
  assumes "em_Value msg = EventJson e" "ev_ID e \<noteq> []" "\<forall>r\<in>set (com_outbox s). ev_ID (ce_Event r) \<noteq> ev_ID e"
  shows "\<exists>k'. run_state (RunConsumer fuel c (calm t) (msg # rest)) (k, s) = ((), (k', s))"
  using unknown_event_again [OF assms, of fuel c t k] by (auto simp: run_calls)

theorem unknown_event_stops_consumer_witness:
  "\<exists>k' s. run_state (RunConsumer 3 (com_cfg.extend demo_com \<lparr>row_locked = \<lambda>_ _. False, worker_rdb = True\<rparr>) (calm 9)
       [\<lparr>em_Key = ''g1'', em_Value = EventJson demo_event, em_Offset = 0\<rparr>, \<lparr>em_Key = ''g1'', em_Value = NotJson [], em_Offset = 1\<rparr>])
     (0, cdb.extend demo_cdb \<lparr>com_dlq = [], com_commits = []\<rparr>) = ((), (k', s)) \<and> com_commits s = []"
proof -
  have "\<exists>k'. run_state (RunConsumer 3 (com_cfg.extend demo_com \<lparr>row_locked = \<lambda>_ _. False, worker_rdb = True\<rparr>) (calm 9)
       [\<lparr>em_Key = ''g1'', em_Value = EventJson demo_event, em_Offset = 0\<rparr>, \<lparr>em_Key = ''g1'', em_Value = NotJson [], em_Offset = 1\<rparr>])
     (0, cdb.extend demo_cdb \<lparr>com_dlq = [], com_commits = []\<rparr>) = ((), (k', cdb.extend demo_cdb \<lparr>com_dlq = [], com_commits = []\<rparr>))"
    by (rule unknown_event_stops_consumer [where e = demo_event]) (simp_all add: demo_event_def demo_cdb_def cdb.defs tdb.defs)
  then show ?thesis by (auto simp: cdb.defs)
qed

end
