(* ===== verification/Group_Transfer.thy ===== *)
theory Group_Transfer
  imports Delivery
begin

text \<open>
  The Kafka consumer of group messages: cmd/transfer/main.go and recipient_lease.go.  A fetched job is
  delivered to its recipients one by one, each under a lease in Redis; a failing job goes to the retry topic until
  its attempts are used up, and then to the dead letter topic; only then is the offset committed.  The locale
  \<open>exclusive_lease\<close> states what the three Lua scripts promise.  The lemmas show that a job is never
  given up silently: when processing succeeds, every recipient is marked done or the whole job is in a topic.

  The JSON value of a Kafka message is represented by the job it encodes; a value that does not decode is
  \<open>Garbage\<close>.  The context's cancellation is the end of the fuel of the two retry loops.
\<close>

section \<open>Jobs and topics\<close>

record group_job =
  job_Frame :: "wire option"
  job_Recipients :: "string list"
  job_Attempt :: int

datatype kvalue = JobJson group_job | Garbage string

record kmessage =
  k_Key :: string
  k_Value :: kvalue
  k_Offset :: nat

record transfer = im +
  retry_topic :: "(string \<times> kvalue) list"
  dlq_topic :: "(string \<times> kvalue) list"
  committed :: "nat list"

section \<open>The recipient lease\<close>

datatype recipientClaimResult = RecipientClaimed | RecipientBusy | RecipientDone

definition errRecipientLeaseBusy :: gerr where
  "errRecipientLeaseBusy = Msg ''recipient delivery lease is held by another worker''"

definition groupRecipientDedupKey :: "string \<Rightarrow> string \<Rightarrow> string" where
  "groupRecipientDedupKey messageID recipient = ''group_delivery:'' @ messageID @ '':'' @ recipient"

definition processing_by :: "string \<Rightarrow> rvalue" where
  "processing_by owner = Txt (''processing:'' @ owner)"

definition done_mark :: rvalue where
  "done_mark = Txt ''done''"

definition claim_script :: "string \<Rightarrow> string \<Rightarrow> redis \<Rightarrow> recipientClaimResult \<times> redis" where
  "claim_script key owner r =
     (case strs r key of
        None \<Rightarrow> (RecipientClaimed, r_set key (processing_by owner) r)
      | Some v \<Rightarrow> if v = done_mark then (RecipientDone, r)
                  else if v = processing_by owner then (RecipientClaimed, r) else (RecipientBusy, r))"

definition complete_script :: "string \<Rightarrow> string \<Rightarrow> redis \<Rightarrow> bool \<times> redis" where
  "complete_script key owner r =
     (if strs r key \<noteq> Some (processing_by owner) then (False, r) else (True, r_set key done_mark r))"

definition release_script :: "string \<Rightarrow> string \<Rightarrow> redis \<Rightarrow> redis" where
  "release_script key owner r = (if strs r key = Some (processing_by owner) then r_del key r else r)"

definition claimGroupRecipient :: "('b im_scheme) env \<Rightarrow> string \<Rightarrow> string \<Rightarrow> ('b im_scheme, gerr + recipientClaimResult) io" where
  "claimGroupRecipient env key owner =
     exec env (on_rds_res (\<lambda>r. case claim_script key owner r of (c, r') \<Rightarrow> (Inr c, r')))"

definition completeGroupRecipient :: "('b im_scheme) env \<Rightarrow> string \<Rightarrow> string \<Rightarrow> ('b im_scheme, gerr + bool) io" where
  "completeGroupRecipient env key owner =
     exec env (on_rds_res (\<lambda>r. case complete_script key owner r of (b, r') \<Rightarrow> (Inr b, r')))"

definition releaseGroupRecipient :: "('b im_scheme) env \<Rightarrow> string \<Rightarrow> string \<Rightarrow> ('b im_scheme, gerr + unit) io" where
  "releaseGroupRecipient env key owner = update_w env (on_rds (release_script key owner))"

section \<open>One recipient\<close>

definition deliverGroupRecipient :: "cfg \<Rightarrow> ('b im_scheme) env \<Rightarrow> string \<Rightarrow> wire \<Rightarrow> string \<Rightarrow> ('b im_scheme, gerr + unit) io" where
  "deliverGroupRecipient h env recipient frame payload =
     (let key = groupRecipientDedupKey (MessageId frame) recipient in
      State_Monad.bind (draw (fresh_id h)) (\<lambda>owner.
      then_ok (claimGroupRecipient env key owner) (\<lambda>claim. case claim of
        RecipientDone \<Rightarrow> ok ()
      | RecipientBusy \<Rightarrow> err errRecipientLeaseBusy
      | RecipientClaimed \<Rightarrow>
          State_Monad.bind (Deliver h env recipient (MessageId frame) payload (SentAt frame)) (\<lambda>res. case res of
            Inl e \<Rightarrow> ignore (releaseGroupRecipient env key owner) (err e)
          | Inr _ \<Rightarrow> then_ok (completeGroupRecipient env key owner) (\<lambda>completed.
              if \<not> completed then err errRecipientLeaseBusy else ok ())))))"

section \<open>One job\<close>

text \<open>
  How the loop over the recipients ends: a busy lease returns at once, otherwise \<open>failedRecipient\<close> holds the
  recipient it stopped at.  The empty string is also its value when no delivery failed.
\<close>

datatype job_outcome = LeaseBusy gerr | Swept string

fun deliver_recipients :: "cfg \<Rightarrow> ('b im_scheme) env \<Rightarrow> wire \<Rightarrow> string \<Rightarrow> string list \<Rightarrow> ('b im_scheme, job_outcome) io" where
  "deliver_recipients h env frame payload [] = State_Monad.return (Swept [])"
| "deliver_recipients h env frame payload (v # vs) =
     State_Monad.bind (deliverGroupRecipient h env v frame payload) (\<lambda>res. case res of
       Inr _ \<Rightarrow> deliver_recipients h env frame payload vs
     | Inl e \<Rightarrow> if err_is e errRecipientLeaseBusy then State_Monad.return (LeaseBusy e)
                else State_Monad.return (Swept v))"

definition write_retry :: "('b transfer_scheme) env \<Rightarrow> string \<Rightarrow> kvalue \<Rightarrow> ('b transfer_scheme, gerr + unit) io" where
  "write_retry env key val = update_w env (\<lambda>s. s\<lparr>retry_topic := retry_topic s @ [(key, val)]\<rparr>)"

definition writeDeadLetter :: "('b transfer_scheme) env \<Rightarrow> string \<Rightarrow> kvalue \<Rightarrow> ('b transfer_scheme, gerr + unit) io" where
  "writeDeadLetter env key val = update_w env (\<lambda>s. s\<lparr>dlq_topic := dlq_topic s @ [(key, val)]\<rparr>)"

definition processFetchedMessage :: "cfg \<Rightarrow> ('b transfer_scheme) env \<Rightarrow> int \<Rightarrow> kmessage \<Rightarrow> ('b transfer_scheme, gerr + unit) io" where
  "processFetchedMessage h env maxAttempts msg =
     (case k_Value msg of
        Garbage t \<Rightarrow> writeDeadLetter env (k_Key msg) (k_Value msg)
      | JobJson job \<Rightarrow> (case job_Frame job of
          None \<Rightarrow> writeDeadLetter env (k_Key msg) (k_Value msg)
        | Some frame \<Rightarrow> (case marshal h frame of
            Inl _ \<Rightarrow> writeDeadLetter env (k_Key msg) (k_Value msg)
          | Inr payload \<Rightarrow>
              ignore (RememberSessionMessage True env frame payload)
                (State_Monad.bind (deliver_recipients h env frame payload (job_Recipients job)) (\<lambda>outcome. case outcome of
                   LeaseBusy e \<Rightarrow> err e
                 | Swept failedRecipient \<Rightarrow>
                     if failedRecipient = [] then ok ()
                     else let job' = job\<lparr>job_Attempt := job_Attempt job + 1\<rparr> in
                     if job_Attempt job' \<le> maxAttempts then write_retry env (k_Key msg) (JobJson job')
                     else writeDeadLetter env (k_Key msg) (JobJson job'))))))"

section \<open>The consumer loop\<close>

text \<open>Processing is repeated until it succeeds, and then the commit is; \<open>False\<close> when the context ended first.\<close>

fun process_until_done :: "nat \<Rightarrow> cfg \<Rightarrow> ('b transfer_scheme) env \<Rightarrow> int \<Rightarrow> kmessage \<Rightarrow> ('b transfer_scheme, bool) io" where
  "process_until_done 0 h env maxAttempts msg = State_Monad.return False"
| "process_until_done (Suc k) h env maxAttempts msg =
     State_Monad.bind (processFetchedMessage h env maxAttempts msg) (\<lambda>res. case res of
       Inr _ \<Rightarrow> State_Monad.return True
     | Inl _ \<Rightarrow> process_until_done k h env maxAttempts msg)"

fun commitFetchedMessage :: "nat \<Rightarrow> ('b transfer_scheme) env \<Rightarrow> kmessage \<Rightarrow> ('b transfer_scheme, bool) io" where
  "commitFetchedMessage 0 env msg = State_Monad.return False"
| "commitFetchedMessage (Suc k) env msg =
     State_Monad.bind (update_w env (\<lambda>s. s\<lparr>committed := committed s @ [k_Offset msg]\<rparr>)) (\<lambda>res. case res of
       Inr _ \<Rightarrow> State_Monad.return True
     | Inl _ \<Rightarrow> commitFetchedMessage k env msg)"

text \<open>The loop over the messages the reader fetches, in order.\<close>

fun consumeLoop :: "nat \<Rightarrow> cfg \<Rightarrow> ('b transfer_scheme) env \<Rightarrow> int \<Rightarrow> kmessage list \<Rightarrow> ('b transfer_scheme, unit) io" where
  "consumeLoop fuel h env maxAttempts [] = State_Monad.return ()"
| "consumeLoop fuel h env maxAttempts (msg # rest) =
     State_Monad.bind (process_until_done fuel h env maxAttempts msg) (\<lambda>okay.
       if \<not> okay then State_Monad.return ()
       else State_Monad.bind (commitFetchedMessage fuel env msg) (\<lambda>committed.
         if \<not> committed then State_Monad.return () else consumeLoop fuel h env maxAttempts rest))"

section \<open>Exclusive leases\<close>

text \<open>
  A lease one owner holds until it completes or releases it: completion is final, and what a non-owner
  tries has no effect.
\<close>

datatype lease_state = LeaseFree | LeaseHeld string | LeaseDone

datatype excl_op = OpClaimBy string | OpComplete string | OpRelease string

locale exclusive_lease =
  fixes status :: "'s \<Rightarrow> lease_state option"
    and claim :: "string \<Rightarrow> 's \<Rightarrow> recipientClaimResult \<times> 's"
    and complete :: "string \<Rightarrow> 's \<Rightarrow> bool \<times> 's"
    and release :: "string \<Rightarrow> 's \<Rightarrow> 's"
  assumes claim_free: "status s = Some LeaseFree \<Longrightarrow> fst (claim x s) = RecipientClaimed \<and> status (snd (claim x s)) = Some (LeaseHeld x)"
    and claim_own: "status s = Some (LeaseHeld x) \<Longrightarrow> claim x s = (RecipientClaimed, s)"
    and claim_other: "status s = Some (LeaseHeld y) \<Longrightarrow> x \<noteq> y \<Longrightarrow> claim x s = (RecipientBusy, s)"
    and claim_done: "status s = Some LeaseDone \<Longrightarrow> claim x s = (RecipientDone, s)"
    and complete_own: "status s = Some (LeaseHeld x) \<Longrightarrow> fst (complete x s) \<and> status (snd (complete x s)) = Some LeaseDone"
    and complete_other: "status s \<noteq> Some (LeaseHeld x) \<Longrightarrow> complete x s = (False, s)"
    and release_own: "status s = Some (LeaseHeld x) \<Longrightarrow> status (release x s) = Some LeaseFree"
    and release_other: "status s \<noteq> Some (LeaseHeld x) \<Longrightarrow> release x s = s"
begin

fun excl_step :: "excl_op \<Rightarrow> 's \<Rightarrow> 's" where
  "excl_step (OpClaimBy x) s = snd (claim x s)"
| "excl_step (OpComplete x) s = snd (complete x s)"
| "excl_step (OpRelease x) s = release x s"

text \<open>Completion is final: no later operation of anyone changes it, and every later claim is told so.\<close>

lemma done_final: "status s = Some LeaseDone \<Longrightarrow> fold excl_step ops s = s"
proof (induction ops)
  case (Cons op ops)
  then have "excl_step op s = s" by (cases op) (auto simp: claim_done complete_other release_other)
  with Cons show ?case by simp
qed simp

text \<open>While a lease is held, no one else gets it, whatever the others try.\<close>

lemma held_exclusive:
  assumes "status s = Some (LeaseHeld x)" "\<forall>op\<in>set ops. op \<noteq> OpComplete x \<and> op \<noteq> OpRelease x"
  shows "fold excl_step ops s = s"
  using assms
proof (induction ops)
  case (Cons op ops)
  then have "excl_step op s = s"
  proof (cases op)
    case (OpClaimBy y)
    then show ?thesis using Cons.prems by (cases "y = x") (auto simp: claim_own claim_other)
  next
    case (OpComplete y)
    then show ?thesis using Cons.prems by (auto simp: complete_other)
  next
    case (OpRelease y)
    then show ?thesis using Cons.prems by (auto simp: release_other)
  qed
  with Cons show ?case by simp
qed simp

lemma held_others_busy:
  assumes "status s = Some (LeaseHeld x)" "\<forall>op\<in>set ops. op \<noteq> OpComplete x \<and> op \<noteq> OpRelease x" "y \<noteq> x"
  shows "fst (claim y (fold excl_step ops s)) = RecipientBusy"
  using assms by (simp add: held_exclusive claim_other)

end

text \<open>The dedup key in Redis, for owner names that do not read as \<open>done\<close>.\<close>

definition lease_status :: "string \<Rightarrow> redis \<Rightarrow> lease_state option" where
  "lease_status key r = (case strs r key of
      None \<Rightarrow> Some LeaseFree
    | Some v \<Rightarrow> if v = done_mark then Some LeaseDone
      else (case v of Txt t \<Rightarrow> if has_prefix t ''processing:'' then Some (LeaseHeld (drop 11 t)) else None | _ \<Rightarrow> None))"

lemma processing_not_done [simp]: "processing_by x \<noteq> done_mark" "done_mark \<noteq> processing_by x"
  by (simp_all add: processing_by_def done_mark_def)

lemma processing_inject [simp]: "processing_by x = processing_by y \<longleftrightarrow> x = y"
  by (simp add: processing_by_def)

lemma lease_status_simps:
  "lease_status key r = Some LeaseFree \<longleftrightarrow> strs r key = None"
  "lease_status key r = Some LeaseDone \<longleftrightarrow> strs r key = Some done_mark"
  "lease_status key r = Some (LeaseHeld x) \<longleftrightarrow> strs r key = Some (processing_by x)"
  by (auto simp: lease_status_def processing_by_def done_mark_def has_prefix_def split: option.split rvalue.split
      dest: prefix_same_cases elim!: prefixE)

interpretation recipient: exclusive_lease "lease_status key" "claim_script key" "complete_script key" "release_script key" for key
  by unfold_locales
     (auto simp: lease_status_simps claim_script_def complete_script_def release_script_def redis_simps)

section \<open>Nothing is lost\<close>

definition is_done :: "string \<Rightarrow> string \<Rightarrow> 'b transfer_scheme \<Rightarrow> bool" where
  "is_done mid v s \<longleftrightarrow> strs (rds s) (groupRecipientDedupKey mid v) = Some done_mark"

definition handed_on :: "string \<Rightarrow> kvalue \<Rightarrow> 'b transfer_scheme \<Rightarrow> bool" where
  "handed_on key val s \<longleftrightarrow> (key, val) \<in> set (retry_topic s) \<union> set (dlq_topic s)"

definition all_done :: "kmessage \<Rightarrow> 'b transfer_scheme \<Rightarrow> bool" where
  "all_done m s \<longleftrightarrow> (\<exists>job f. k_Value m = JobJson job \<and> job_Frame job = Some f
      \<and> (\<forall>v\<in>set (job_Recipients job). is_done (MessageId f) v s))"

definition next_attempt :: "kvalue \<Rightarrow> kvalue" where
  "next_attempt v = (case v of JobJson job \<Rightarrow> JobJson (job\<lparr>job_Attempt := job_Attempt job + 1\<rparr>) | Garbage t \<Rightarrow> Garbage t)"

text \<open>A message is settled when every recipient is done, or it is in a topic, as it came or as its next attempt.\<close>

definition settled :: "kmessage \<Rightarrow> 'b transfer_scheme \<Rightarrow> bool" where
  "settled m s \<longleftrightarrow> all_done m s \<or> handed_on (k_Key m) (k_Value m) s \<or> handed_on (k_Key m) (next_attempt (k_Value m)) s"

definition tview :: "'b transfer_scheme \<Rightarrow> (string \<Rightarrow> rvalue option) \<times> (string \<times> kvalue) list \<times> (string \<times> kvalue) list \<times> nat list" where
  "tview s = (\<lambda>k. strs (rds s) (''group_delivery:'' @ k), retry_topic s, dlq_topic s, committed s)"

lemma tview_D:
  "tview s = tview s' \<Longrightarrow> strs (rds s) (groupRecipientDedupKey m v) = strs (rds s') (groupRecipientDedupKey m v)"
  "tview s = tview s' \<Longrightarrow> retry_topic s = retry_topic s'" "tview s = tview s' \<Longrightarrow> dlq_topic s = dlq_topic s'"
  "tview s = tview s' \<Longrightarrow> committed s = committed s'"
  unfolding tview_def groupRecipientDedupKey_def by (simp_all only: prod.inject) metis

lemma reads_is_done: "reads tview (is_done m v)"
  unfolding reads_def is_done_def using tview_D(1) by metis

lemma tview_on_rds:
  "(\<And>k. strs (f (rds s)) (''group_delivery:'' @ k) = strs (rds s) (''group_delivery:'' @ k)) \<Longrightarrow> tview (on_rds f s) = tview s"
  by (simp add: tview_def on_rds_def)

named_theorems tview_rules "operations that leave the leases and topics alone"

lemma tview_rds [tview_rules]:
  "relies env I \<Longrightarrow> reads tview I \<Longrightarrow> (\<And>d k. strs (f d) (''group_delivery:'' @ k) = strs d (''group_delivery:'' @ k))
   \<Longrightarrow> keeps I (update_w env (on_rds f))"
  by (rule keeps_update_reads [where v = tview]) (auto simp: tview_on_rds)

lemma strs_clear_route_lease: "strs (snd (clear_route u v r)) (''group_delivery:'' @ k) = strs r (''group_delivery:'' @ k)"
  by (auto simp: clear_route_def redis_simps Let_def key_defs split: prod.splits)

lemma tview_MarkOffline [tview_rules]: "relies env I \<Longrightarrow> reads tview I \<Longrightarrow> keeps I (MarkOffline env u m t)"
  unfolding MarkOffline_def
  by (intro keeps_if keeps_return keeps_bind keeps_clock keeps_ignore tview_rules) (auto simp: redis_simps)

lemma tview_publish_on [tview_rules]: "relies env I \<Longrightarrow> reads tview I \<Longrightarrow> keeps I (publish_on env c v)"
  unfolding publish_on_def by (rule keeps_exec_reads [where v = tview]) (auto simp: tview_def)

lemma tview_ClearRouteIfMatch [tview_rules]: "relies env I \<Longrightarrow> reads tview I \<Longrightarrow> keeps I (ClearRouteIfMatch env u v)"
  unfolding ClearRouteIfMatch_def by (rule tview_rds [OF _ _ strs_clear_route_lease])

lemma tview_trackPendingAck [tview_rules]: "relies env I \<Longrightarrow> reads tview I \<Longrightarrow> keeps I (trackPendingAck env u m e t)"
  unfolding trackPendingAck_def by (rule tview_rds) (auto simp: strs_track_pending)

lemma tview_Deliver [tview_rules]: "relies env I \<Longrightarrow> reads tview I \<Longrightarrow> keeps I (Deliver h env u m p t)"
  unfolding Deliver_def Let_def
  by (intro keeps_then_ok keeps_bind keeps_query tview_trackPendingAck keeps_case_sum keeps_case_option)
     (auto split: rvalue.splits intro!: keeps_bind keeps_if keeps_ok keeps_ignore tview_MarkOffline
       tview_publish_on tview_ClearRouteIfMatch)

lemma tview_RememberSessionMessage [tview_rules]:
  "relies env I \<Longrightarrow> reads tview I \<Longrightarrow> keeps I (RememberSessionMessage b env f p)"
  unfolding RememberSessionMessage_def
  by (intro keeps_if keeps_return keeps_ignore tview_rules)
     (auto simp: remember_message_def redis_simps r_setnx_def key_defs)

text \<open>A done mark survives every lease operation of anyone.\<close>

lemma is_done_lease_ops:
  assumes "is_done m v s"
  shows "is_done m v (on_rds (\<lambda>r. snd (claim_script k x r)) s)" "is_done m v (on_rds (\<lambda>r. snd (complete_script k x r)) s)"
    "is_done m v (on_rds (release_script k x) s)"
  using assms
  by (auto simp: is_done_def on_rds_def claim_script_def complete_script_def release_script_def redis_simps split: option.split)

lemma keeps_claim: "relies env (is_done m v) \<Longrightarrow> keeps (is_done m v) (claimGroupRecipient env k x)"
  unfolding claimGroupRecipient_def
  by (rule keeps_exec) (auto simp: on_rds_res_def on_rds_def split: prod.splits dest: is_done_lease_ops(1) [of _ _ _ k x])

lemma keeps_complete: "relies env (is_done m v) \<Longrightarrow> keeps (is_done m v) (completeGroupRecipient env k x)"
  unfolding completeGroupRecipient_def
  by (rule keeps_exec) (auto simp: on_rds_res_def on_rds_def split: prod.splits dest: is_done_lease_ops(2) [of _ _ _ k x])

lemma keeps_releaseGroup: "relies env (is_done m v) \<Longrightarrow> keeps (is_done m v) (releaseGroupRecipient env k x)"
  unfolding releaseGroupRecipient_def by (rule keeps_update) (auto intro: is_done_lease_ops)

lemma keeps_deliverGroupRecipient:
  "relies env (is_done m v) \<Longrightarrow> keeps (is_done m v) (deliverGroupRecipient h env v' f p)"
  unfolding deliverGroupRecipient_def Let_def
  by (intro keeps_bind keeps_draw keeps_then_ok keeps_claim)
     (auto split: recipientClaimResult.split intro!: keeps_ok keeps_err keeps_bind tview_rules reads_is_done
        keeps_case_sum keeps_ignore keeps_releaseGroup keeps_then_ok keeps_complete keeps_if)

lemma deliverGroupRecipient_done:
  fixes env :: "('b transfer_scheme) env"
  assumes "relies env (is_done (MessageId f) v)"
  shows "wp (deliverGroupRecipient h env v f p) (\<lambda>r s. r = Inr () \<longrightarrow> is_done (MessageId f) v s) w"
proof -
  let ?k = "groupRecipientDedupKey (MessageId f) v"
  have claim: "wp (claimGroupRecipient env ?k x) (\<lambda>r s. r = Inr RecipientDone \<longrightarrow> is_done (MessageId f) v s) s" for x s
    unfolding claimGroupRecipient_def
    by (rule wp_exec) (auto simp: on_rds_res_def claim_script_def is_done_def redis_simps split: prod.splits option.splits if_splits)
  have complete: "wp (completeGroupRecipient env ?k x) (\<lambda>r s. r = Inr True \<longrightarrow> is_done (MessageId f) v s) s" for x s
    unfolding completeGroupRecipient_def
    by (rule wp_exec) (auto simp: on_rds_res_def complete_script_def is_done_def redis_simps split: prod.splits if_splits)
  have any: "wp m (\<lambda>_ _. True) s" for m :: "('b transfer_scheme, 'x) io" and s
    by (rule wpI) simp
  show ?thesis
    unfolding deliverGroupRecipient_def Let_def
    apply (rule wp_bind, rule wp_draw)
    apply (rule wp_then_okI [OF claim], simp)
    subgoal for n c s
      apply (cases c)
        apply (simp_all add: wp_ok wp_err)
      apply (rule wp_bindI [OF any], rule wp_case_sum)
       apply (rule wp_ignoreI [OF any], simp add: wp_err)
      apply (rule wp_then_okI [OF complete])
       apply (simp_all add: wp_ok wp_err)
      done
    done
qed

lemma keeps_deliver_recipients:
  "relies env (is_done m v) \<Longrightarrow> keeps (is_done m v) (deliver_recipients h env f p vs)"
  by (induction vs) (auto intro!: keeps_return keeps_bind keeps_case_sum keeps_if keeps_deliverGroupRecipient)

lemma deliver_recipients_done:
  fixes env :: "('b transfer_scheme) env"
  assumes "\<And>v. relies env (is_done (MessageId f) v)" "[] \<notin> set vs"
  shows "wp (deliver_recipients h env f p vs) (\<lambda>r s. r = Swept [] \<longrightarrow> (\<forall>v\<in>set vs. is_done (MessageId f) v s)) w"
  using assms(2)
proof (induction vs arbitrary: w)
  case Nil
  then show ?case by (simp add: wp_return)
next
  case (Cons v vs)
  have rest: "wp (deliver_recipients h env f p vs) (\<lambda>r s. r = Swept [] \<longrightarrow> (\<forall>v\<in>set (v # vs). is_done (MessageId f) v s)) s"
    if "is_done (MessageId f) v s" for s
    using Cons.prems
    by (intro wp_mono [OF wp_conj [OF keeps_wp [OF keeps_deliver_recipients [OF assms(1)] that] Cons.IH]]) simp_all
  have named: "v \<noteq> []" using Cons.prems by auto
  show ?case
    unfolding deliver_recipients.simps
    apply (rule wp_bindI [OF deliverGroupRecipient_done [OF assms(1)]], rule wp_case_sum)
     apply (rule wp_if; simp add: wp_return named)
    apply (rule rest)
    apply simp
    done
qed

text \<open>The job of a message names its recipients: none is the empty string.\<close>

definition well_addressed :: "kmessage \<Rightarrow> bool" where
  "well_addressed m \<longleftrightarrow> (case k_Value m of JobJson job \<Rightarrow> [] \<notin> set (job_Recipients job) | Garbage _ \<Rightarrow> True)"

definition handed_rely :: "kmessage \<Rightarrow> ('b transfer_scheme) env \<Rightarrow> bool" where
  "handed_rely m env \<longleftrightarrow> (\<forall>x v. relies env (is_done x v)) \<and> (\<forall>k v. relies env (handed_on k v))"

lemma processFetchedMessage_settles:
  fixes env :: "('b transfer_scheme) env"
  assumes "handed_rely m env" "well_addressed m"
  shows "wp (processFetchedMessage h env maxAttempts m) (\<lambda>r s. r = Inr () \<longrightarrow> settled m s) w"
proof -
  have dlq: "wp (writeDeadLetter env (k_Key m) val) (\<lambda>r s. r = Inr () \<longrightarrow> handed_on (k_Key m) val s) s" for val s
    unfolding writeDeadLetter_def by (rule wp_update_w) (auto simp: handed_on_def)
  have rty: "wp (write_retry env (k_Key m) val) (\<lambda>r s. r = Inr () \<longrightarrow> handed_on (k_Key m) val s) s" for val s
    unfolding write_retry_def by (rule wp_update_w) (auto simp: handed_on_def)
  have raw: "wp (writeDeadLetter env (k_Key m) (k_Value m)) (\<lambda>r s. r = Inr () \<longrightarrow> settled m s) s" for s
    by (rule wp_mono [OF dlq]) (simp add: settled_def)
  have any: "wp x (\<lambda>_ _. True) s" for x :: "('b transfer_scheme, 'x) io" and s
    by (rule wpI) simp
  show ?thesis
  proof (cases "k_Value m")
    case (Garbage t)
    then show ?thesis using raw by (simp add: processFetchedMessage_def)
  next
    case (JobJson job)
    show ?thesis
    proof (cases "job_Frame job")
      case None
      then show ?thesis using raw JobJson by (simp add: processFetchedMessage_def)
    next
      case (Some f)
      show ?thesis
      proof (cases "marshal h f")
        case (Inl e)
        then show ?thesis using raw JobJson Some by (simp add: processFetchedMessage_def)
      next
        case (Inr p)
        have del: "wp (deliver_recipients h env f p (job_Recipients job))
            (\<lambda>r s. r = Swept [] \<longrightarrow> (\<forall>v\<in>set (job_Recipients job). is_done (MessageId f) v s)) s" for s
          using assms JobJson by (intro deliver_recipients_done) (simp_all add: handed_rely_def well_addressed_def)
        have nxt: "next_attempt (k_Value m) = JobJson (job\<lparr>job_Attempt := job_Attempt job + 1\<rparr>)"
          using JobJson by (simp add: next_attempt_def)
        show ?thesis
          unfolding processFetchedMessage_def JobJson kvalue.case Some option.case Inr sum.case Let_def
          apply (rule wp_ignoreI [OF any])
          apply (rule wp_bindI [OF del])
          subgoal for x s r s'
            apply (cases r)
             apply (simp add: wp_err)
            apply (simp only: job_outcome.case)
            apply (rule wp_if)
             apply (simp add: wp_ok settled_def all_done_def JobJson Some)
            apply (rule wp_if)
             apply (rule wp_mono [OF rty], simp add: settled_def nxt JobJson next_attempt_def)
            apply (rule wp_mono [OF dlq], simp add: settled_def nxt JobJson next_attempt_def)
            done
          done
      qed
    qed
  qed
qed

section \<open>Commits\<close>

text \<open>A message's offset is committed only when the message is settled.\<close>

definition commit_ok :: "kmessage \<Rightarrow> 'b transfer_scheme \<Rightarrow> bool" where
  "commit_ok m s \<longleftrightarrow> (k_Offset m \<in> set (committed s) \<longrightarrow> settled m s)"

lemma settled_grow:
  assumes "settled m s" "\<And>x v. is_done x v s \<Longrightarrow> is_done x v s'" "\<And>k v. handed_on k v s \<Longrightarrow> handed_on k v s'"
  shows "settled m s'"
  using assms unfolding settled_def all_done_def by metis

lemma commit_ok_grow:
  assumes "commit_ok m s" "\<And>x v. is_done x v s \<Longrightarrow> is_done x v s'" "\<And>k v. handed_on k v s \<Longrightarrow> handed_on k v s'"
    "committed s' = committed s"
  shows "commit_ok m s'"
  using assms settled_grow [of m s s'] unfolding commit_ok_def by simp

lemma reads_commit_ok: "reads tview (commit_ok m)"
  unfolding reads_def
proof (intro allI impI)
  fix s s' :: "'a transfer_scheme"
  assume v: "tview s = tview s'" and c: "commit_ok m s"
  show "commit_ok m s'"
    by (rule commit_ok_grow [OF c])
       (use tview_D [OF v] in \<open>auto simp: is_done_def handed_on_def\<close>)
qed

lemma keeps_lease_ops:
  fixes env :: "('b transfer_scheme) env"
  assumes "relies env (commit_ok m)"
  shows "keeps (commit_ok m) (claimGroupRecipient env k x)" "keeps (commit_ok m) (completeGroupRecipient env k x)"
    "keeps (commit_ok m) (releaseGroupRecipient env k x)"
proof -
  have *: "commit_ok m (on_rds f s)" if "commit_ok m s" "\<And>x v. is_done x v s \<Longrightarrow> is_done x v (on_rds f s)" for f and s :: "'b transfer_scheme"
    by (rule commit_ok_grow [OF that]) (auto simp: handed_on_def on_rds_def)
  have "commit_ok m s'" if "commit_ok m s" "on_rds_res (\<lambda>r. case claim_script k x r of (c, r') \<Rightarrow> (Inr c, r')) s = (q, s')"
    for s s' :: "'b transfer_scheme" and q :: "gerr + recipientClaimResult"
  proof -
    have "s' = on_rds (\<lambda>r. snd (claim_script k x r)) s"
      using that(2) by (auto simp: on_rds_res_def on_rds_def split: prod.splits)
    with * [OF that(1) is_done_lease_ops(1)] show ?thesis by simp
  qed
  then show "keeps (commit_ok m) (claimGroupRecipient env k x)"
    unfolding claimGroupRecipient_def by (rule keeps_exec [OF assms])
  have "commit_ok m s'" if "commit_ok m s" "on_rds_res (\<lambda>r. case complete_script k x r of (c, r') \<Rightarrow> (Inr c, r')) s = (q, s')"
    for s s' :: "'b transfer_scheme" and q :: "gerr + bool"
  proof -
    have "s' = on_rds (\<lambda>r. snd (complete_script k x r)) s"
      using that(2) by (auto simp: on_rds_res_def on_rds_def split: prod.splits)
    with * [OF that(1) is_done_lease_ops(2)] show ?thesis by simp
  qed
  then show "keeps (commit_ok m) (completeGroupRecipient env k x)"
    unfolding completeGroupRecipient_def by (rule keeps_exec [OF assms])
  show "keeps (commit_ok m) (releaseGroupRecipient env k x)"
    unfolding releaseGroupRecipient_def by (rule keeps_update [OF assms]) (rule * [OF _ is_done_lease_ops(3)])
qed

lemma commit_ok_deliver_recipients:
  "relies env (commit_ok m) \<Longrightarrow> keeps (commit_ok m) (deliver_recipients h env f p vs)"
proof (induction vs)
  case (Cons v vs)
  have "keeps (commit_ok m) (deliverGroupRecipient h env v f p)"
    unfolding deliverGroupRecipient_def Let_def
    by (intro keeps_bind keeps_draw keeps_then_ok keeps_lease_ops Cons.prems)
       (auto split: recipientClaimResult.split intro!: keeps_ok keeps_err keeps_bind tview_Deliver reads_commit_ok Cons.prems
          keeps_case_sum keeps_ignore keeps_lease_ops keeps_then_ok keeps_if)
  with Cons show ?case by (auto intro!: keeps_bind keeps_case_sum keeps_if keeps_return)
qed (simp add: keeps_return)

lemma commit_ok_topics:
  assumes "relies env (commit_ok m)"
  shows "keeps (commit_ok m) (write_retry env k v)" "keeps (commit_ok m) (writeDeadLetter env k v)"
  unfolding write_retry_def writeDeadLetter_def
  by (rule keeps_update [OF assms], erule commit_ok_grow; simp add: is_done_def handed_on_def; blast)+

lemma commit_ok_processFetchedMessage:
  "relies env (commit_ok m) \<Longrightarrow> keeps (commit_ok m) (processFetchedMessage h env k m')"
  unfolding processFetchedMessage_def Let_def
  by (auto split: kvalue.split option.split sum.split job_outcome.split intro!: commit_ok_topics keeps_ignore
      tview_RememberSessionMessage reads_commit_ok keeps_bind commit_ok_deliver_recipients keeps_ok keeps_err keeps_if)

lemma commit_ok_process_until_done:
  "relies env (commit_ok m) \<Longrightarrow> keeps (commit_ok m) (process_until_done fuel h env k m')"
  by (induction fuel) (auto intro!: keeps_return keeps_bind keeps_case_sum commit_ok_processFetchedMessage)

lemma process_until_done_settles:
  "handed_rely m env \<Longrightarrow> well_addressed m \<Longrightarrow> wp (process_until_done fuel h env k m) (\<lambda>okay s. okay \<longrightarrow> settled m s) w"
proof (induction fuel arbitrary: w)
  case (Suc fuel)
  show ?case
    unfolding process_until_done.simps
    by (rule wp_bindI [OF processFetchedMessage_settles [OF Suc.prems]], rule wp_case_sum)
       (simp_all add: Suc.IH Suc.prems wp_return)
qed (simp add: wp_return)

lemma commit_settled:
  fixes env :: "('b transfer_scheme) env"
  assumes "relies env (settled m)" "settled m w"
  shows "wp (commitFetchedMessage fuel env m) (\<lambda>_. settled m) w"
proof -
  have g: "settled m (s\<lparr>committed := c\<rparr>)" if "settled m s" for s :: "'b transfer_scheme" and c
    by (rule settled_grow [OF that]) (auto simp: is_done_def handed_on_def)
  have "keeps (settled m) (commitFetchedMessage fuel env m)"
    by (induction fuel) (auto intro!: keeps_bind keeps_update [OF assms(1)] keeps_case_sum keeps_return g)
  from keeps_wp [OF this assms(2)] show ?thesis .
qed

lemma commit_ok_other:
  fixes env :: "('b transfer_scheme) env"
  assumes "relies env (commit_ok m)" "k_Offset m' \<noteq> k_Offset m"
  shows "keeps (commit_ok m) (commitFetchedMessage fuel env m')"
proof (induction fuel)
  case (Suc fuel)
  have "commit_ok m (s\<lparr>committed := committed s @ [k_Offset m']\<rparr>)" if "commit_ok m s" for s :: "'b transfer_scheme"
    using that settled_grow [of m s "s\<lparr>committed := committed s @ [k_Offset m']\<rparr>"] assms(2)
    by (auto simp: commit_ok_def is_done_def handed_on_def)
  with Suc show ?case
    by (auto intro!: keeps_bind keeps_update [OF assms(1)] keeps_case_sum keeps_return)
qed (simp add: keeps_return)

lemma consumeLoop_commit_ok:
  fixes env :: "('b transfer_scheme) env"
  assumes "handed_rely m env" "relies env (commit_ok m)" "relies env (settled m)" "well_addressed m"
    and "\<forall>m'\<in>set ms. k_Offset m' = k_Offset m \<longrightarrow> m' = m"
  shows "keeps (commit_ok m) (consumeLoop fuel h env k ms)"
  using assms(5)
proof (induction ms)
  case Nil
  then show ?case by (simp add: keeps_return)
next
  case (Cons m' ms)
  have commit: "wp (commitFetchedMessage fuel env m') (\<lambda>_. commit_ok m) s"
    if "commit_ok m s" "m' = m \<longrightarrow> settled m s" for s
  proof (cases "k_Offset m' = k_Offset m")
    case True
    with Cons.prems have "m' = m" by simp
    with that(2) show ?thesis
      unfolding \<open>m' = m\<close> by (intro wp_mono [OF commit_settled [OF assms(3)]]) (simp_all add: commit_ok_def)
  next
    case False
    show ?thesis by (rule keeps_wp [OF commit_ok_other [OF assms(2) False] that(1)])
  qed
  have proc: "wp (process_until_done fuel h env k m') (\<lambda>okay s. (okay \<longrightarrow> m' = m \<longrightarrow> settled m s) \<and> commit_ok m s) s"
    if "commit_ok m s" for s
  proof (rule wp_conj [OF _ keeps_wp [OF commit_ok_process_until_done [OF assms(2)] that]])
    show "wp (process_until_done fuel h env k m') (\<lambda>okay s. okay \<longrightarrow> m' = m \<longrightarrow> settled m s) s"
      by (cases "m' = m") (simp_all add: process_until_done_settles [OF assms(1,4)] wpI)
  qed
  have rest: "keeps (commit_ok m) (consumeLoop fuel h env k ms)" using Cons by simp
  show ?case
    unfolding consumeLoop.simps
  proof (rule keepsI, rule wp_bindI [OF proc], assumption, rule wp_if, goal_cases)
    case (1 w okay s)
    then show ?case by (simp add: wp_return)
  next
    case (2 w okay s)
    then show ?case
      by (intro wp_bindI [OF commit] wp_if) (auto simp: wp_return intro: keeps_wp [OF rest])
  qed
qed

section \<open>Attempts\<close>

definition retry_bounded :: "int \<Rightarrow> 'b transfer_scheme \<Rightarrow> bool" where
  "retry_bounded maxAttempts s \<longleftrightarrow> (\<forall>k job. (k, JobJson job) \<in> set (retry_topic s) \<longrightarrow> job_Attempt job \<le> maxAttempts)"

lemma retry_bounded_deliver:
  fixes env :: "('b transfer_scheme) env"
  assumes "relies env (retry_bounded n)"
  shows "keeps (retry_bounded n) (deliver_recipients h env f p vs)"
proof (induction vs)
  case (Cons v vs)
  have r: "reads tview (retry_bounded n)" by (auto simp: reads_def retry_bounded_def dest: tview_D(2))
  have "keeps (retry_bounded n) (deliverGroupRecipient h env v f p)"
    unfolding deliverGroupRecipient_def claimGroupRecipient_def completeGroupRecipient_def releaseGroupRecipient_def Let_def
    by (intro keeps_bind keeps_draw keeps_then_ok keeps_exec assms)
       (auto split: recipientClaimResult.split prod.splits intro!: keeps_ok keeps_err keeps_bind tview_Deliver r assms
          keeps_case_sum keeps_ignore keeps_then_ok keeps_if keeps_exec keeps_update
          simp: on_rds_res_def on_rds_def retry_bounded_def)
  with Cons show ?case by (auto intro!: keeps_bind keeps_case_sum keeps_if keeps_return)
qed (simp add: keeps_return)

lemma processFetchedMessage_retry_bounded:
  assumes "relies env (retry_bounded n)"
  shows "keeps (retry_bounded n) (processFetchedMessage h env n m)"
proof -
  have r: "reads tview (retry_bounded n)" by (auto simp: reads_def retry_bounded_def dest: tview_D(2))
  show ?thesis
    unfolding processFetchedMessage_def write_retry_def writeDeadLetter_def Let_def
    by (auto split: kvalue.split option.split sum.split job_outcome.split intro!: keeps_ignore keeps_update assms
        tview_RememberSessionMessage r keeps_bind retry_bounded_deliver keeps_ok keeps_err keeps_if
        simp: retry_bounded_def)
qed

text \<open>What a run unfolds.\<close>

lemmas transfer_run [exec_defs] =
  errRecipientLeaseBusy_def groupRecipientDedupKey_def processing_by_def done_mark_def
  claim_script_def complete_script_def release_script_def claimGroupRecipient_def
  completeGroupRecipient_def releaseGroupRecipient_def deliverGroupRecipient_def write_retry_def
  writeDeadLetter_def processFetchedMessage_def

section \<open>Properties\<close>

text \<open>C14. A group job is never lost: the consumer loop, whatever fails and in whatever order it goes over its messages, commits
  the offset of a message that names its recipients (none of them is the empty string) only when the message is
  settled: every recipient is marked done, or the message is in the retry or the dead letter topic as it came or as its
  next attempt.  Other processes may do anything that does not undo done marks, topic entries and settled
  commits.  The jobs the logic service writes name their recipients (\<open>resolved_recipients_are_named\<close>); for
  an empty one the code takes the failure for a success (\<open>unnamed_recipient_drops_job\<close>).\<close>

theorem committed_jobs_are_settled:
  fixes env :: "('b transfer_scheme) env"
  assumes "handed_rely m env" "relies env (commit_ok m)" "relies env (settled m)" "well_addressed m"
    and "\<forall>m'\<in>set ms. k_Offset m' = k_Offset m \<longrightarrow> m' = m" "commit_ok m w"
  shows "wp (consumeLoop fuel h env k ms) (\<lambda>_. commit_ok m) w"
  by (rule keeps_wp [OF consumeLoop_commit_ok [OF assms(1-5)] assms(6)])

definition demo_transfer :: transfer where
  "demo_transfer = im.extend demo_world \<lparr>retry_topic = [], dlq_topic = [], committed = []\<rparr>"

definition demo_job :: kmessage where
  "demo_job = \<lparr>k_Key = ''g1'', k_Value = JobJson \<lparr>job_Frame = Some demo_sent, job_Recipients = [''bo''], job_Attempt = 0\<rparr>, k_Offset = 4\<rparr>"

theorem committed_jobs_are_settled_witness:
  "wp (consumeLoop 2 demo ((calm 5)\<lparr>fault := \<lambda>n. if n = 2 then Down else Up\<rparr>) 3 [demo_job]) (\<lambda>_. commit_ok demo_job) demo_transfer"
  by (rule committed_jobs_are_settled)
     (simp_all add: handed_rely_def relies_def calm_def commit_ok_def demo_transfer_def transfer.defs im.defs well_addressed_def demo_job_def)

text \<open>A job that was processed successfully is settled, whatever happened on the way: every path of \<open>processFetchedMessage\<close>
  that reports success has delivered to all recipients or handed the job on; the retried job counts one more attempt.\<close>

theorem processed_job_is_settled:
  fixes env :: "('b transfer_scheme) env"
  assumes "handed_rely m env" "well_addressed m"
  shows "wp (processFetchedMessage h env maxAttempts m) (\<lambda>r s. r = Inr () \<longrightarrow> settled m s) w"
  by (rule processFetchedMessage_settles [OF assms])

text \<open>The delivery fails in its first call, and the job is written to the retry topic.\<close>

theorem processed_job_is_settled_witness:
  "\<exists>n s. run_state (processFetchedMessage demo ((calm 5)\<lparr>fault := \<lambda>n. if n = 2 then Down else Up\<rparr>) 3 demo_job) (0, demo_transfer) = (Inr (), n, s)
     \<and> settled demo_job s \<and> retry_topic s = [(''g1'', next_attempt (k_Value demo_job))]"
proof -
  let ?env = "(calm 5)\<lparr>fault := \<lambda>n. if n = 2 then Down else Up\<rparr> :: transfer env"
  have run: "case run_state (processFetchedMessage demo ?env 3 demo_job) (0, demo_transfer) of (r, n, s) \<Rightarrow>
      r = Inr () \<and> retry_topic s = [(''g1'', next_attempt (k_Value demo_job))]"
    by (simp add: exec_defs run_calls calm_def demo_job_def demo_transfer_def transfer.defs im.defs next_attempt_def cong: lazy_cong)
  have "wp (processFetchedMessage demo ?env 3 demo_job) (\<lambda>r s. r = Inr () \<longrightarrow> settled demo_job s) demo_transfer"
    by (rule processed_job_is_settled) (simp_all add: handed_rely_def relies_def calm_def well_addressed_def demo_job_def)
  then show ?thesis using run by (auto split: prod.splits dest: wpD)
qed

text \<open>
  A job with an empty recipient: its delivery fails, the string that should hold the failed recipient stays
  empty, and the job counts as delivered, although the recipients after it got nothing and no topic has it.
\<close>

definition demo_unnamed_job :: kmessage where
  "demo_unnamed_job = demo_job\<lparr>k_Value := JobJson \<lparr>job_Frame = Some demo_sent, job_Recipients = [[], ''bo''], job_Attempt = 0\<rparr>\<rparr>"

lemma unnamed_recipient_drops_job:
  "case run_state (processFetchedMessage demo ((calm 5)\<lparr>fault := \<lambda>n. if n = 2 then Down else Up\<rparr>) 3 demo_unnamed_job) (0, demo_transfer)
   of (r, n, s) \<Rightarrow> r = Inr () \<and> \<not> is_done (MessageId demo_sent) ''bo'' s \<and> retry_topic s = [] \<and> dlq_topic s = []"
  by (simp add: exec_defs run_calls calm_def demo_unnamed_job_def demo_job_def demo_transfer_def transfer.defs im.defs is_done_def cong: lazy_cong)

text \<open>The three lease scripts as steps on the Redis state.\<close>

fun lease_script :: "string \<Rightarrow> excl_op \<Rightarrow> redis \<Rightarrow> redis" where
  "lease_script key (OpClaimBy x) r = snd (claim_script key x r)"
| "lease_script key (OpComplete x) r = snd (complete_script key x r)"
| "lease_script key (OpRelease x) r = release_script key x r"

lemma lease_script_is_excl_step: "lease_script key = recipient.excl_step key"
proof (intro ext)
  show "lease_script key op r = recipient.excl_step key op r" for op r
    by (cases op) simp_all
qed

text \<open>One worker delivers to a recipient at a time: while a worker holds the recipient's lease, nothing the other workers try
  (claims, completions and releases under their own names, in any order) changes Redis, every one of
  their claims is answered \<open>busy\<close>, and once the holder completes, every later claim of anyone is answered \<open>done\<close>.\<close>

theorem recipient_lease_exclusive:
  assumes "strs r key = Some (processing_by x)" "\<forall>op\<in>set ops. op \<noteq> OpComplete x \<and> op \<noteq> OpRelease x"
  shows "fold (lease_script key) ops r = r
       \<and> (y \<noteq> x \<longrightarrow> fst (claim_script key y (fold (lease_script key) ops r)) = RecipientBusy)
       \<and> fst (claim_script key y (fold (lease_script key) (OpComplete x # later) r)) = RecipientDone"
proof (intro conjI impI)
  have held: "lease_status key r = Some (LeaseHeld x)" using assms(1) by (simp add: lease_status_simps)
  show "fold (lease_script key) ops r = r"
    unfolding lease_script_is_excl_step by (rule recipient.held_exclusive [OF held assms(2)])
  show "fst (claim_script key y (fold (lease_script key) ops r)) = RecipientBusy" if "y \<noteq> x"
    unfolding lease_script_is_excl_step by (rule recipient.held_others_busy [OF held assms(2) that])
  have "lease_status key (snd (complete_script key x r)) = Some LeaseDone"
    using recipient.complete_own [OF held] by blast
  then show "fst (claim_script key y (fold (lease_script key) (OpComplete x # later) r)) = RecipientDone"
    using recipient.done_final [of key] recipient.claim_done [of key] by (simp add: lease_script_is_excl_step)
qed

theorem recipient_lease_exclusive_witness:
  "fst (claim_script ''k'' ''w2'' (fold (lease_script ''k'') [OpComplete ''w2'', OpRelease ''w2'', OpClaimBy ''w3'']
      (r_set ''k'' (processing_by ''w1'') empty_redis))) = RecipientBusy"
proof -
  have "strs (r_set ''k'' (processing_by ''w1'') empty_redis) ''k'' = Some (processing_by ''w1'')"
    by (simp add: redis_simps)
  moreover have "\<forall>op\<in>set [OpComplete ''w2'', OpRelease ''w2'', OpClaimBy ''w3'']. op \<noteq> OpComplete ''w1'' \<and> op \<noteq> OpRelease ''w1''"
    by simp
  ultimately show ?thesis
    by (rule recipient_lease_exclusive [THEN conjunct2, THEN conjunct1, THEN mp]) simp
qed

end
