(* ===== verification/Wallet.thy ===== *)
theory Wallet
  imports Demo
begin

text \<open>
  The wallet (internal/logic/wallet.go): accounts, the immutable ledger and mock recharges.  The functions
  \<open>lockWallet\<close> and \<open>updateWalletAndLedger\<close> run inside a transaction of their caller, which holds the
  locks of the rows it reads, so that its statements see no interference.
\<close>

section \<open>State\<close>

record account_row =
  wa_user :: string
  wa_balance :: int
  wa_updated_at :: int

record ledger_row =
  wl_id :: string
  wl_user :: string
  wl_direction :: string
  wl_amount :: int
  wl_business_type :: string
  wl_business_id :: string
  wl_balance_after :: int
  wl_created_at :: int

record order_row =
  mo_id :: string
  mo_request_id :: string
  mo_user :: string
  mo_channel :: string
  mo_amount :: int
  mo_status :: string
  mo_trade_no :: string
  mo_paid_at :: int

record packet_row =
  rp_id :: string
  rp_sender :: string
  rp_conversation :: string
  rp_to_type :: string
  rp_total_amount :: int
  rp_total_count :: int
  rp_remaining_amount :: int
  rp_remaining_count :: int
  rp_greeting :: string
  rp_status :: string
  rp_created_at :: int
  rp_expires_at :: int
  rp_updated_at :: int

record claim_row =
  rc_packet :: string
  rc_user :: string
  rc_amount :: int
  rc_created_at :: int

record bank = rels +
  accounts :: "account_row list"
  ledger :: "ledger_row list"
  orders :: "order_row list"
  packets :: "packet_row list"
  claims :: "claim_row list"

definition ledger_keys :: "ledger_row unique_key list" where
  "ledger_keys =
     [(''wallet_ledger.PRIMARY'', \<lambda>a b. wl_id a = wl_id b),
      (''wallet_ledger.uk_wallet_business'', \<lambda>a b. wl_user a = wl_user b \<and> wl_business_type a = wl_business_type b
         \<and> wl_business_id a = wl_business_id b)]"

definition order_keys :: "order_row unique_key list" where
  "order_keys =
     [(''mock_payment_orders.PRIMARY'', \<lambda>a b. mo_id a = mo_id b),
      (''mock_payment_orders.uk_mock_payment_request'', \<lambda>a b. mo_user a = mo_user b \<and> mo_request_id a = mo_request_id b)]"

text \<open>
  The services' fields: whether a database is set, and the random part of the identifiers of
  internal/ids, whose prefix \<open>strings.Replace\<close> exchanges for the service's own.
\<close>

record bank_cfg =
  bank_db :: bool
  random_id :: "nat \<Rightarrow> string"

definition newID :: "bank_cfg \<Rightarrow> string \<Rightarrow> ('w, string) io" where
  "newID b p = draw (\<lambda>n. p @ ''-'' @ random_id b n)"

text \<open>\<open>fmt.Errorf("%w: ...", e)\<close>\<close>

definition wrapf :: "gerr \<Rightarrow> string \<Rightarrow> gerr" where
  "wrapf e t = Wrapped e (err_text e @ '': '' @ t)"

definition ErrWalletInvalid :: gerr where
  "ErrWalletInvalid = Msg ''invalid wallet operation''"

definition ErrInsufficientBalance :: gerr where
  "ErrInsufficientBalance = Msg ''insufficient wallet balance''"

section \<open>Operations\<close>

record wallet_info =
  wi_UserID :: string
  wi_AvailableBalance :: int
  wi_UpdatedAt :: int

text \<open>\<open>Get\<close>: the account and the newest fifty ledger entries.\<close>

definition select_wallet :: "string \<Rightarrow> bank \<Rightarrow> wallet_info" where
  "select_wallet u s = (case find (\<lambda>a. wa_user a = u) (accounts s) of
      None \<Rightarrow> \<lparr>wi_UserID = u, wi_AvailableBalance = 0, wi_UpdatedAt = 0\<rparr>
    | Some a \<Rightarrow> \<lparr>wi_UserID = wa_user a, wi_AvailableBalance = wa_balance a, wi_UpdatedAt = wa_updated_at a\<rparr>)"

definition select_ledger :: "string \<Rightarrow> bank \<Rightarrow> ledger_row list" where
  "select_ledger u s = take 50 (order_desc (\<lambda>l. (wl_created_at l, wl_id l)) (filter (\<lambda>l. wl_user l = u) (ledger s)))"

definition Get :: "bank_cfg \<Rightarrow> bank env \<Rightarrow> string \<Rightarrow> (bank, gerr + wallet_info \<times> ledger_row list) io" where
  "Get b env userID =
     (if \<not> bank_db b then err (Msg ''database is required'')
      else let u = trim_space userID in
        if u = [] then err (wrapf ErrWalletInvalid ''user_id is required'')
        else then_ok (query env (select_wallet u)) (\<lambda>wallet.
             then_ok (query env (select_ledger u)) (\<lambda>rows. ok (wallet, rows))))"

definition lockWallet :: "bank env \<Rightarrow> string \<Rightarrow> int \<Rightarrow> (bank, gerr + int) io" where
  "lockWallet tx u now =
     then_ok (update_w tx (accounts_update (upsert (\<lambda>a x. wa_user a = wa_user x) (\<lambda>a. a)
                \<lparr>wa_user = u, wa_balance = 0, wa_updated_at = now\<rparr>))) (\<lambda>_.
     then_ok (query tx (\<lambda>s. find (\<lambda>a. wa_user a = u) (accounts s))) (\<lambda>row.
       case row of None \<Rightarrow> err ErrNoRows | Some a \<Rightarrow> ok (wa_balance a)))"

definition updateWalletAndLedger :: "bank env \<Rightarrow> string \<Rightarrow> string \<Rightarrow> string \<Rightarrow> int \<Rightarrow> string \<Rightarrow> string \<Rightarrow> int \<Rightarrow> int
    \<Rightarrow> (bank, gerr + unit) io" where
  "updateWalletAndLedger tx ledgerID u direction amount businessType businessID balanceAfter now =
     (if balanceAfter < 0 \<or> amount \<le> 0 then err ErrInsufficientBalance
      else then_ok (exec tx (run_update accounts accounts_update (\<lambda>a. wa_user a = u)
                     (\<lambda>a. a\<lparr>wa_balance := balanceAfter, wa_updated_at := now\<rparr>))) (\<lambda>n.
        if n \<noteq> 1 then err (Msg ''wallet account update affected no rows'')
        else exec tx (run_insert ledger ledger_update (ins ledger_keys
               \<lparr>wl_id = ledgerID, wl_user = u, wl_direction = direction, wl_amount = amount,
                wl_business_type = businessType, wl_business_id = businessID,
                wl_balance_after = balanceAfter, wl_created_at = now\<rparr>))))"

record recharge_params =
  rq_UserID :: string
  rq_RequestID :: string
  rq_Channel :: string
  rq_Amount :: int

record recharge_result =
  rr_OrderID :: string
  rr_RequestID :: string
  rr_Channel :: string
  rr_Amount :: int
  rr_ProviderTradeNo :: string
  rr_AlreadyPaid :: bool
  rr_Wallet :: wallet_info

definition loadRecharge :: "bank env \<Rightarrow> string \<Rightarrow> string \<Rightarrow> (bank, gerr + recharge_result option) io" where
  "loadRecharge env u rid = query env (\<lambda>s.
     map_option (\<lambda>r. \<lparr>rr_OrderID = mo_id r, rr_RequestID = mo_request_id r, rr_Channel = mo_channel r,
         rr_Amount = mo_amount r, rr_ProviderTradeNo = mo_trade_no r, rr_AlreadyPaid = False,
         rr_Wallet = \<lparr>wi_UserID = [], wi_AvailableBalance = 0, wi_UpdatedAt = 0\<rparr>\<rparr>)
       (find (\<lambda>r. mo_user r = u \<and> mo_request_id r = rid \<and> mo_status r = ''paid'') (orders s)))"

definition normalize_recharge :: "recharge_params \<Rightarrow> recharge_params" where
  "normalize_recharge p =
     (let ch = to_lower (trim_space (rq_Channel p));
          ch = (if ch = ''wechat'' then ''mock_wechat'' else ch);
          ch = (if ch = ''alipay'' then ''mock_alipay'' else ch)
      in p\<lparr>rq_UserID := trim_space (rq_UserID p), rq_RequestID := trim_space (rq_RequestID p), rq_Channel := ch\<rparr>)"

definition recharge_invalid :: "recharge_params \<Rightarrow> gerr option" where
  "recharge_invalid p =
     (if rq_UserID p = [] \<or> rq_RequestID p = [] then Some (wrapf ErrWalletInvalid ''user_id and request_id are required'')
      else if length (rq_RequestID p) > 128 then Some (wrapf ErrWalletInvalid ''request_id is too long'')
      else if rq_Channel p \<noteq> ''mock_wechat'' \<and> rq_Channel p \<noteq> ''mock_alipay''
        then Some (wrapf ErrWalletInvalid ''channel must be mock_wechat or mock_alipay'')
      else if rq_Amount p \<le> 0 \<or> rq_Amount p > 1000000 then Some (wrapf ErrWalletInvalid ''amount must be between 1 and 1000000 fen'')
      else None)"

text \<open>
  The transaction of a recharge.  It ends without an answer when another recharge with the same
  request id won the race, and the caller starts over.
\<close>

definition recharge_tx :: "bank_cfg \<Rightarrow> recharge_params \<Rightarrow> bank env \<Rightarrow> (bank, recharge_result option tx_end) io" where
  "recharge_tx b p tx =
     State_Monad.bind (clock tx) (\<lambda>now.
     State_Monad.bind (newID b ''pay'') (\<lambda>orderID.
     State_Monad.bind (newID b ''mock-trade'') (\<lambda>trade.
     State_Monad.bind (exec tx (run_insert orders orders_update (ins order_keys
         \<lparr>mo_id = orderID, mo_request_id = rq_RequestID p, mo_user = rq_UserID p, mo_channel = rq_Channel p,
          mo_amount = rq_Amount p, mo_status = ''paid'', mo_trade_no = trade, mo_paid_at = now\<rparr>))) (\<lambda>r.
     case r of
       Inl e \<Rightarrow> if is_dup_key e then State_Monad.return (Rollback (Inr None)) else State_Monad.return (Rollback (Inl e))
     | Inr _ \<Rightarrow>
         then_tx (lockWallet tx (rq_UserID p) now) (\<lambda>balance0. let balance = i64 (balance0 + rq_Amount p) in
         State_Monad.bind (newID b ''wallet'') (\<lambda>wid.
         then_tx (updateWalletAndLedger tx wid (rq_UserID p) ''credit'' (rq_Amount p) ''mock_recharge''
                   (rq_RequestID p) balance now) (\<lambda>_.
         State_Monad.return (Commit (Inr (Some \<lparr>rr_OrderID = orderID, rr_RequestID = rq_RequestID p, rr_Channel = rq_Channel p,
           rr_Amount = rq_Amount p, rr_ProviderTradeNo = trade, rr_AlreadyPaid = False,
           rr_Wallet = \<lparr>wi_UserID = rq_UserID p, wi_AvailableBalance = balance, wi_UpdatedAt = now\<rparr>\<rparr>))))))))))"

text \<open>
  One round of \<open>MockRecharge\<close>, and its restarts: without an answer (\<open>None\<close>) after \<open>k\<close> rounds.
\<close>

definition recharge_round :: "bank_cfg \<Rightarrow> bank env \<Rightarrow> recharge_params \<Rightarrow> (bank, gerr + recharge_result option) io" where
  "recharge_round b env params =
     (if \<not> bank_db b then err (Msg ''database is required'')
      else let p = normalize_recharge params in
      case recharge_invalid p of Some e \<Rightarrow> err e
      | None \<Rightarrow>
        then_ok (loadRecharge env (rq_UserID p) (rq_RequestID p)) (\<lambda>found.
        case found of
          Some existing \<Rightarrow>
            if rr_Amount existing \<noteq> rq_Amount p \<or> rr_Channel existing \<noteq> rq_Channel p
            then err (wrapf ErrWalletInvalid ''request_id was already used with different recharge parameters'')
            else then_ok (Get b env (rq_UserID p)) (\<lambda>(wallet, _).
              ok (Some (existing\<lparr>rr_AlreadyPaid := True, rr_Wallet := wallet\<rparr>)))
        | None \<Rightarrow> in_tx env (recharge_tx b p)))"

fun MockRecharge :: "nat \<Rightarrow> bank_cfg \<Rightarrow> bank env \<Rightarrow> recharge_params \<Rightarrow> (bank, (gerr + recharge_result) option) io" where
  "MockRecharge 0 b env params = State_Monad.return None"
| "MockRecharge (Suc k) b env params =
     State_Monad.bind (recharge_round b env params) (\<lambda>r. case r of
       Inl e \<Rightarrow> State_Monad.return (Some (Inl e))
     | Inr (Some res) \<Rightarrow> State_Monad.return (Some (Inr res))
     | Inr None \<Rightarrow> ignore (query env (\<lambda>_. ())) (MockRecharge k b env (normalize_recharge params)))"

section \<open>Accounting\<close>

definition balance_of :: "string \<Rightarrow> bank \<Rightarrow> int" where
  "balance_of u s = (case find (\<lambda>a. wa_user a = u) (accounts s) of None \<Rightarrow> 0 | Some a \<Rightarrow> wa_balance a)"

definition signed :: "ledger_row \<Rightarrow> int" where
  "signed l = (if wl_direction l = ''credit'' then wl_amount l else - wl_amount l)"

definition ledger_sum :: "string \<Rightarrow> bank \<Rightarrow> int" where
  "ledger_sum u s = sum_list (map signed (filter (\<lambda>l. wl_user l = u) (ledger s)))"

definition wealth :: "bank \<Rightarrow> int" where
  "wealth s = sum_list (map wa_balance (accounts s))"

definition minted :: "bank \<Rightarrow> int" where
  "minted s = sum_list (map mo_amount (orders s))"

text \<open>Well-formed accounts: one per user, with a balance in the range of the column and never negative.\<close>

definition accounts_wf :: "bank \<Rightarrow> bool" where
  "accounts_wf s \<longleftrightarrow> distinct (map wa_user (accounts s)) \<and> (\<forall>a\<in>set (accounts s). 0 \<le> wa_balance a \<and> wa_balance a < 2 ^ 63)"

text \<open>The ledger explains every balance.\<close>

definition explained :: "bank \<Rightarrow> bool" where
  "explained s \<longleftrightarrow> (\<forall>u\<in>wl_user ` set (ledger s) \<union> wa_user ` set (accounts s). balance_of u s = ledger_sum u s)"

lemma explained_iff: "explained s \<longleftrightarrow> (\<forall>u. balance_of u s = ledger_sum u s)"
proof
  assume e: "explained s"
  show "\<forall>u. balance_of u s = ledger_sum u s"
  proof
    fix u
    show "balance_of u s = ledger_sum u s"
    proof (cases "u \<in> wl_user ` set (ledger s) \<union> wa_user ` set (accounts s)")
      case True
      with e show ?thesis by (simp add: explained_def)
    next
      case False
      then have "find (\<lambda>a. wa_user a = u) (accounts s) = None" "filter (\<lambda>l. wl_user l = u) (ledger s) = []"
        by (auto simp: find_None_iff_all filter_empty_conv)
      then show ?thesis by (simp add: balance_of_def ledger_sum_def)
    qed
  qed
qed (simp add: explained_def)

text \<open>\<open>booked u d s s'\<close>: from \<open>s\<close> to \<open>s'\<close> the account of \<open>u\<close> changed by \<open>d\<close>, with its ledger entry, and nothing else.\<close>

definition booked :: "string \<Rightarrow> int \<Rightarrow> bank \<Rightarrow> bank \<Rightarrow> bool" where
  "booked u d s s' \<longleftrightarrow> accounts_wf s' \<and> wealth s' = wealth s + d
     \<and> (\<forall>v. balance_of v s' - ledger_sum v s' = balance_of v s - ledger_sum v s)
     \<and> balance_of u s' = balance_of u s + d
     \<and> (\<forall>v. v \<noteq> u \<longrightarrow> balance_of v s' = balance_of v s)
     \<and> orders s' = orders s \<and> packets s' = packets s \<and> claims s' = claims s"

lemma booked_explained: "booked u d s s' \<Longrightarrow> explained s \<Longrightarrow> explained s'"
  by (simp add: booked_def explained_iff)

subsection \<open>Locking the account\<close>

definition open_account :: "string \<Rightarrow> int \<Rightarrow> bank \<Rightarrow> bank" where
  "open_account u now = accounts_update (upsert (\<lambda>a x. wa_user a = wa_user x) (\<lambda>a. a)
     \<lparr>wa_user = u, wa_balance = 0, wa_updated_at = now\<rparr>)"

lemma upd_same [simp]: "upd p (\<lambda>a. a) rows = rows"
  by (simp add: upd_def)

lemma open_account_accounts:
  "accounts (open_account u now s) =
     (if u \<in> wa_user ` set (accounts s) then accounts s
      else accounts s @ [\<lparr>wa_user = u, wa_balance = 0, wa_updated_at = now\<rparr>])"
  by (auto simp: open_account_def upsert_def list_ex_iff)

lemma open_account_booked: "accounts_wf s \<Longrightarrow> booked u 0 s (open_account u now s)"
proof -
  assume wf: "accounts_wf s"
  have bal: "balance_of v (open_account u now s) = balance_of v s" for v
  proof (cases "u \<in> wa_user ` set (accounts s)")
    case True
    then show ?thesis by (simp add: balance_of_def open_account_accounts)
  next
    case False
    then have "find (\<lambda>a. wa_user a = u) (accounts s) = None" by (auto simp: find_None_iff_all)
    with False show ?thesis by (auto simp: balance_of_def open_account_accounts find_append split: option.split)
  qed
  have "accounts_wf (open_account u now s)" "wealth (open_account u now s) = wealth s"
    using wf by (auto simp: accounts_wf_def wealth_def open_account_accounts)
  moreover have "ledger (open_account u now s) = ledger s" "orders (open_account u now s) = orders s"
    "packets (open_account u now s) = packets s" "claims (open_account u now s) = claims s"
    by (simp_all add: open_account_def)
  ultimately show ?thesis by (simp add: booked_def bal ledger_sum_def)
qed

lemma open_account_row:
  assumes "accounts_wf s"
  shows "\<exists>a. a \<in> set (accounts (open_account u now s)) \<and> wa_user a = u"
  using assms by (auto simp: open_account_accounts)

lemma wp_lockWallet:
  "wp (lockWallet (quiet env) u now) (\<lambda>r s'. \<forall>b. r = Inr b \<longrightarrow> s' = open_account u now s \<and> b = balance_of u s') s"
  unfolding lockWallet_def
  apply (rule wp_then_okI [where R = "\<lambda>r s'. \<forall>x. r = Inr x \<longrightarrow> s' = open_account u now s"])
    apply (rule wp_update_w)
      apply (simp_all add: open_account_def)
  apply (rule wp_then_okI [where R = "\<lambda>r s'. \<forall>x. r = Inr x \<longrightarrow> s' = open_account u now s \<and> x = find (\<lambda>a. wa_user a = u) (accounts s')"])
    apply (rule wp_query)
     apply (simp_all add: open_account_def)
  apply (auto intro!: wp_case_option wp_err wp_ok simp: balance_of_def)
  done

subsection \<open>Posting an entry\<close>

definition post :: "ledger_row \<Rightarrow> bank \<Rightarrow> bank" where
  "post l s = s\<lparr>accounts := upd (\<lambda>a. wa_user a = wl_user l)
        (\<lambda>a. a\<lparr>wa_balance := wl_balance_after l, wa_updated_at := wl_created_at l\<rparr>) (accounts s),
      ledger := ledger s @ [l]\<rparr>"

lemma post_booked:
  assumes "accounts_wf s" "a \<in> set (accounts s)" "wa_user a = wl_user l"
    and "wl_balance_after l = balance_of (wl_user l) s + signed l" "0 \<le> wl_balance_after l" "wl_balance_after l < 2 ^ 63"
  shows "booked (wl_user l) (signed l) s (post l s)"
proof -
  let ?u = "wl_user l"
  let ?f = "\<lambda>a. a\<lparr>wa_balance := wl_balance_after l, wa_updated_at := wl_created_at l\<rparr>"
  have d: "distinct (map wa_user (accounts s))" using assms(1) by (simp add: accounts_wf_def)
  have bal_u: "balance_of ?u s = wa_balance a"
    using find_key [OF d assms(2)] assms(3) by (simp add: balance_of_def)
  have find': "find (\<lambda>r. wa_user r = v) (accounts (post l s))
       = map_option (\<lambda>r. if wa_user r = ?u then ?f r else r) (find (\<lambda>r. wa_user r = v) (accounts s))" for v
    by (simp add: post_def find_upd)
  have bal_u': "balance_of ?u (post l s) = wl_balance_after l"
    using find' [of ?u] find_key [OF d assms(2)] assms(3) by (simp add: balance_of_def)
  have bal_v: "balance_of v (post l s) = balance_of v s" if "v \<noteq> ?u" for v
    using find' [of v] that by (auto simp: balance_of_def dest: find_Some_iff_in split: option.split)
  have wealth: "wealth (post l s) = wealth s + signed l"
    using sum_upd_key [OF d assms(2), of wa_balance ?f] assms(3,4) bal_u
    by (simp add: wealth_def post_def)
  have wf: "accounts_wf (post l s)"
    using assms(1,5,6) by (auto simp: accounts_wf_def post_def map_key_upd in_upd_iff)
  have led: "ledger_sum v (post l s) = ledger_sum v s + (if v = ?u then signed l else 0)" for v
    by (simp add: ledger_sum_def post_def)
  show ?thesis
    unfolding booked_def
    using wf wealth bal_u' bal_v assms(4) by (auto simp: led) (simp_all add: post_def)
qed

lemma wp_updateWalletAndLedger:
  "wp (updateWalletAndLedger (quiet env) i u dir amount bt bid after now)
     (\<lambda>r s'. r = Inr () \<longrightarrow> 0 \<le> after \<and> 0 < amount \<and>
        s' = post \<lparr>wl_id = i, wl_user = u, wl_direction = dir, wl_amount = amount, wl_business_type = bt,
                   wl_business_id = bid, wl_balance_after = after, wl_created_at = now\<rparr> s) s"
  unfolding updateWalletAndLedger_def
  apply (rule wp_if, rule wp_err, simp)
  apply (rule wp_then_okI [where R = "\<lambda>r s'. \<forall>n. r = Inr n \<longrightarrow> s' = accounts_update (upd (\<lambda>a. wa_user a = u)
        (\<lambda>a. a\<lparr>wa_balance := after, wa_updated_at := now\<rparr>)) s"])
    apply (rule wp_exec, simp, simp add: run_update_def)
   apply simp
  apply (rule wp_if, rule wp_err, simp)
  apply (rule wp_exec, simp)
  apply (auto simp: run_insert_def post_def ins_Inr_iff split: sum.split)
  done

subsection \<open>Rules for transactions\<close>

definition has_account :: "string \<Rightarrow> bank \<Rightarrow> bool" where
  "has_account u s \<longleftrightarrow> u \<in> wa_user ` set (accounts s)"

lemma booked_trans: "booked u d s s1 \<Longrightarrow> booked u e s1 s2 \<Longrightarrow> booked u (d + e) s s2"
  by (simp add: booked_def)

lemma balance_range: "accounts_wf s \<Longrightarrow> 0 \<le> balance_of u s \<and> balance_of u s < 2 ^ 63"
  by (auto simp: balance_of_def accounts_wf_def dest: find_Some_iff_in split: option.split)

lemma lockWallet_spec:
  assumes "accounts_wf s"
  shows "wp (lockWallet (quiet env) u now) (\<lambda>r s'. \<forall>b. r = Inr b \<longrightarrow> booked u 0 s s' \<and> has_account u s' \<and> b = balance_of u s') s"
  by (rule wp_mono [OF wp_lockWallet])
     (use open_account_row [OF assms, of u now] open_account_booked [OF assms] in \<open>auto simp: has_account_def\<close>)

lemma updateWalletAndLedger_spec:
  assumes "accounts_wf s" "has_account u s"
    and after: "0 \<le> after \<Longrightarrow> 0 < amount \<Longrightarrow> after = balance_of u s + d \<and> after < 2 ^ 63"
    and d: "d = (if dir = ''credit'' then amount else - amount)"
  shows "wp (updateWalletAndLedger (quiet env) i u dir amount bt bid after now)
     (\<lambda>r s'. r = Inr () \<longrightarrow> booked u d s s' \<and> 0 \<le> after \<and> 0 < amount) s"
proof (rule wp_mono [OF wp_updateWalletAndLedger], rule impI)
  fix r :: "gerr + unit" and s'
  let ?l = "\<lparr>wl_id = i, wl_user = u, wl_direction = dir, wl_amount = amount, wl_business_type = bt,
             wl_business_id = bid, wl_balance_after = after, wl_created_at = now\<rparr>"
  assume "r = Inr () \<longrightarrow> 0 \<le> after \<and> 0 < amount \<and> s' = post ?l s" "r = Inr ()"
  then have g: "0 \<le> after" "0 < amount" and s': "s' = post ?l s" by simp_all
  from assms(2) obtain a where a: "a \<in> set (accounts s)" "wa_user a = u" by (auto simp: has_account_def)
  have "signed ?l = d" by (simp add: signed_def d)
  with post_booked [OF assms(1) a(1), of ?l] a(2) after [OF g] g show "booked u d s s' \<and> 0 \<le> after \<and> 0 < amount"
    by (simp add: s')
qed

lemma wp_locked:
  assumes "accounts_wf s" and "\<And>e s'. Q (Rollback (Inl e)) s'"
    and "\<And>s'. booked u 0 s s' \<Longrightarrow> has_account u s' \<Longrightarrow> wp (k (balance_of u s')) Q s'"
  shows "wp (then_tx (lockWallet (quiet env) u now) k) Q s"
  by (rule wp_then_txI [OF lockWallet_spec [OF assms(1)]]) (use assms in auto)

lemma wp_posted:
  assumes "accounts_wf s" "has_account u s" and "\<And>e s'. Q (Rollback (Inl e)) s'"
    and "0 \<le> after \<Longrightarrow> 0 < amount \<Longrightarrow> after = balance_of u s + d \<and> after < 2 ^ 63"
    and "d = (if dir = ''credit'' then amount else - amount)"
    and "\<And>s'. booked u d s s' \<Longrightarrow> 0 \<le> after \<Longrightarrow> 0 < amount \<Longrightarrow> wp (k ()) Q s'"
  shows "wp (then_tx (updateWalletAndLedger (quiet env) i u dir amount bt bid after now) k) Q s"
  by (rule wp_then_txI [OF updateWalletAndLedger_spec [OF assms(1,2,4,5)]]) (use assms in auto)

text \<open>A credit in 64-bit arithmetic is exact when the result is not negative, which the posting checks.\<close>

lemma credit_exact:
  assumes "accounts_wf s" "0 < amount" "amount < 2 ^ 63" "0 \<le> i64 (balance_of u s + amount)"
  shows "i64 (balance_of u s + amount) = balance_of u s + amount \<and> i64 (balance_of u s + amount) < 2 ^ 63"
  using i64_add_nonneg [of "balance_of u s" amount] balance_range [OF assms(1), of u] assms(2-4) i64_range [of "balance_of u s + amount"]
  by (auto simp: in_i64_def)

section \<open>The books\<close>

text \<open>What an active red packet holds of the sender's money.\<close>

definition held_of :: "packet_row \<Rightarrow> int" where
  "held_of p = (if rp_status p = ''active'' then rp_remaining_amount p else 0)"

definition held :: "bank \<Rightarrow> int" where
  "held s = sum_list (map held_of (packets s))"

definition books :: "bank \<Rightarrow> bool" where
  "books s \<longleftrightarrow> accounts_wf s \<and> explained s \<and> wealth s + held s = minted s"

lemma booksD: "books s \<Longrightarrow> accounts_wf s" "books s \<Longrightarrow> explained s" "books s \<Longrightarrow> wealth s + held s = minted s"
  by (simp_all add: books_def)

lemma recharge_valid: "recharge_invalid p = None \<Longrightarrow> 0 < rq_Amount p \<and> rq_Amount p \<le> 1000000"
  by (auto simp: recharge_invalid_def split: if_splits)

lemma add_order_simps [simp]:
  "balance_of u (orders_update f s) = balance_of u s" "ledger_sum u (orders_update f s) = ledger_sum u s"
  "wealth (orders_update f s) = wealth s" "accounts_wf (orders_update f s) = accounts_wf s"
  "held (orders_update f s) = held s" "has_account u (orders_update f s) = has_account u s"
  by (simp_all add: balance_of_def ledger_sum_def wealth_def accounts_wf_def held_def has_account_def)

text \<open>What a committed recharge did.\<close>

definition recharged :: "recharge_params \<Rightarrow> recharge_result \<Rightarrow> bank \<Rightarrow> bank \<Rightarrow> bool" where
  "recharged p res s s' \<longleftrightarrow> booked (rq_UserID p) (rq_Amount p) s (s'\<lparr>orders := orders s\<rparr>)
     \<and> (\<exists>r. orders s' = orders s @ [r] \<and> mo_user r = rq_UserID p \<and> mo_request_id r = rq_RequestID p
          \<and> mo_amount r = rq_Amount p \<and> mo_channel r = rq_Channel p \<and> mo_status r = ''paid''
          \<and> mo_id r = rr_OrderID res \<and> clash order_keys r (orders s) = None)"

lemma wp_recharge_tx:
  assumes "accounts_wf s" "recharge_invalid p = None"
  shows "wp (recharge_tx b p (quiet env))
    (\<lambda>r s'. case r of Rollback _ \<Rightarrow> True | Commit a \<Rightarrow> (\<exists>res. a = Inr (Some res) \<and> recharged p res s s')) s"
    (is "wp _ ?Q _")
proof -
  have amt: "0 < rq_Amount p" "rq_Amount p < 2 ^ 63" using recharge_valid [OF assms(2)] by simp_all
  show ?thesis
    unfolding recharge_tx_def Let_def
    apply (rule wp_bindI [where R = "\<lambda>_ s'. s' = s"], rule wp_clock, simp)
    apply (rule wp_bindI [where R = "\<lambda>_ s'. s' = s"], simp add: newID_def wp_draw)
    apply (rule wp_bindI [where R = "\<lambda>_ s'. s' = s"], simp add: newID_def wp_draw)
    subgoal premises eq for now s1 oid s2 trade s3
    proof -
      let ?r = "\<lparr>mo_id = oid, mo_request_id = rq_RequestID p, mo_user = rq_UserID p, mo_channel = rq_Channel p,
                 mo_amount = rq_Amount p, mo_status = ''paid'', mo_trade_no = trade, mo_paid_at = now\<rparr>"
      show ?thesis
        apply (rule wp_bindI [where R = "\<lambda>r s'. r = Inr () \<longrightarrow> clash order_keys ?r (orders s) = None \<and> s' = s\<lparr>orders := orders s @ [?r]\<rparr>"])
         apply (rule wp_exec)
          apply (simp add: eq)
         apply (simp add: eq run_insert_def ins_Inr_iff split: sum.split)
        apply (rule wp_case_sum, rule wp_if)
          apply (simp add: wp_return)
         apply (simp add: wp_return)
        apply (rule wp_locked)
          apply (simp add: assms(1))
         apply simp
        apply (rule wp_bindI [where R = "\<lambda>_ s'. booked (rq_UserID p) 0 (s\<lparr>orders := orders s @ [?r]\<rparr>) s' \<and> has_account (rq_UserID p) s'
               \<and> balance_of (rq_UserID p) s' = balance_of (rq_UserID p) s"])
         apply (auto simp: newID_def wp_draw booked_def) [1]
        subgoal for r s4 x s5 wid s6
          apply (rule wp_posted [where d = "rq_Amount p"])
               apply (simp add: booked_def)
              apply simp
             apply simp
            apply (use amt credit_exact [of s6 "rq_Amount p" "rq_UserID p"] in \<open>auto simp: booked_def\<close>) [1]
           apply simp
          apply (rule wp_return)
          apply (clarsimp simp: recharged_def)
          apply (auto simp: booked_def balance_of_def ledger_sum_def wealth_def accounts_wf_def)
          done
        done
    qed
    done
qed

lemma recharged_books: "books s \<Longrightarrow> recharged p res s s' \<Longrightarrow> books s'"
  by (auto simp: books_def recharged_def booked_def explained_iff minted_def held_def wealth_def balance_of_def
      ledger_sum_def accounts_wf_def)

lemma recharged_order:
  "recharged p res s s' \<Longrightarrow> \<exists>o'\<in>set (orders s'). mo_user o' = rq_UserID p \<and> mo_request_id o' = rq_RequestID p
     \<and> mo_amount o' = rq_Amount p \<and> mo_id o' = rr_OrderID res"
  by (auto simp: recharged_def)

lemma keeps_Get [keeps_rules]: "relies env I \<Longrightarrow> keeps I (Get b env u)"
  unfolding Get_def Let_def by (intro keeps_if keeps_err keeps_then_ok keeps_query keeps_ok keeps_case_prod) auto

lemma keeps_recharge_round:
  assumes "relies env I" "\<And>s. I s \<Longrightarrow> accounts_wf s" "\<And>p res s s'. I s \<Longrightarrow> recharged p res s s' \<Longrightarrow> I s'"
  shows "keeps I (recharge_round b env params)"
proof -
  have tx: "keeps I (in_tx env (recharge_tx b p))" if "recharge_invalid p = None" for p
  proof (rule keeps_in_tx [OF assms(1)])
    fix w assume I: "I w"
    show "wp (recharge_tx b p (quiet env)) (\<lambda>r w1. case r of Rollback e \<Rightarrow> True | Commit a \<Rightarrow> I w1) w"
      by (rule wp_mono [OF wp_recharge_tx [OF assms(2) [OF I] that]])
         (auto split: tx_end.splits dest: assms(3) [OF I])
  qed
  show ?thesis
    unfolding recharge_round_def Let_def
    by (intro keeps_if keeps_err keeps_case_option keeps_then_ok keeps_Get keeps_case_prod keeps_ok tx assms(1))
       (auto simp: loadRecharge_def intro: keeps_query assms(1))
qed

lemma keeps_MockRecharge:
  assumes "relies env I" "\<And>s. I s \<Longrightarrow> accounts_wf s" "\<And>p res s s'. I s \<Longrightarrow> recharged p res s s' \<Longrightarrow> I s'"
  shows "keeps I (MockRecharge k b env params)"
proof (induction k arbitrary: params)
  case (Suc k)
  show ?case
    unfolding MockRecharge.simps
    by (intro keeps_bind keeps_case_sum keeps_case_option keeps_return keeps_ignore keeps_query keeps_recharge_round Suc assms(1))
       (fact assms)+
qed (simp add: keeps_return)

section \<open>Requests that were paid\<close>

definition paid_by :: "order_row \<Rightarrow> recharge_params \<Rightarrow> bool" where
  "paid_by r p \<longleftrightarrow> mo_user r = rq_UserID p \<and> mo_request_id r = rq_RequestID p"

text \<open>The unique key on (user, request) and the single status of the table's column.\<close>

definition orders_wf :: "bank \<Rightarrow> bool" where
  "orders_wf s \<longleftrightarrow> (\<forall>r\<in>set (orders s). mo_status r = ''paid'') \<and>
     distinct (map (\<lambda>r. (mo_user r, mo_request_id r)) (orders s))"

lemma found_paid:
  assumes "orders_wf s" "r \<in> set (orders s)" "paid_by r p"
  shows "find (\<lambda>r. mo_user r = rq_UserID p \<and> mo_request_id r = rq_RequestID p \<and> mo_status r = ''paid'') (orders s) = Some r"
proof -
  have "find (\<lambda>x. (mo_user x, mo_request_id x) = (mo_user r, mo_request_id r)) (orders s) = Some r"
    by (rule find_key) (use assms in \<open>simp_all add: orders_wf_def\<close>)
  moreover have "find (\<lambda>r. mo_user r = rq_UserID p \<and> mo_request_id r = rq_RequestID p \<and> mo_status r = ''paid'') (orders s)
      = find (\<lambda>x. (mo_user x, mo_request_id x) = (mo_user r, mo_request_id r)) (orders s)"
    by (rule find_cong_set) (use assms in \<open>auto simp: orders_wf_def paid_by_def\<close>)
  ultimately show ?thesis by simp
qed

text \<open>A request that was paid before is answered from its order, whatever condition the environment keeps with it.\<close>

lemma recharge_round_paid:
  assumes st: "relies env (\<lambda>s. P s \<and> o' \<in> set (orders s) \<and> orders_wf s)"
    and init: "P s" "o' \<in> set (orders s)" "orders_wf s" and paid: "paid_by o' (normalize_recharge params)"
  shows "wp (recharge_round b env params)
     (\<lambda>r s'. (P s' \<and> o' \<in> set (orders s') \<and> orders_wf s') \<and> (\<forall>x. r = Inr x \<longrightarrow>
        (\<exists>res. x = Some res \<and> rr_AlreadyPaid res \<and> rr_OrderID res = mo_id o' \<and> rr_Amount res = mo_amount o'))) s"
proof -
  let ?I = "\<lambda>s. P s \<and> o' \<in> set (orders s) \<and> orders_wf s"
  let ?p = "normalize_recharge params"
  have I: "?I s" using init by simp
  show ?thesis
    unfolding recharge_round_def Let_def
    apply (rule wp_if, rule wp_err, simp add: I)
    apply (rule wp_case_option)
     apply (rule wp_then_okI [where R = "\<lambda>r s'. ?I s' \<and> (\<forall>x. r = Inr x \<longrightarrow>
          (\<exists>e. x = Some e \<and> rr_OrderID e = mo_id o' \<and> rr_Amount e = mo_amount o'))"])
       apply (unfold loadRecharge_def, rule wp_query_stable [OF st I])
        apply simp
       apply (use found_paid [of _ o' ?p] paid in auto) [1]
      apply simp
     apply clarsimp
     apply (intro conjI impI)
      apply (simp add: wp_err)
     apply (rule wp_then_okI [where R = "\<lambda>_. ?I"])
       apply (rule keeps_wp [OF keeps_Get [OF st]], simp)
      apply simp
     apply (rule wp_case_prod, rule wp_ok, simp)
    apply (rule wp_err)
    apply (simp add: I)
    done
qed

lemma MockRecharge_paid:
  assumes st: "relies env (\<lambda>s. P s \<and> o' \<in> set (orders s) \<and> orders_wf s)"
    and init: "P s" "o' \<in> set (orders s)" "orders_wf s" and paid: "paid_by o' (normalize_recharge params)"
  shows "wp (MockRecharge (Suc k) b env params)
     (\<lambda>r s'. (P s' \<and> o' \<in> set (orders s') \<and> orders_wf s') \<and> r \<noteq> None \<and> (\<forall>res. r = Some (Inr res) \<longrightarrow>
        rr_AlreadyPaid res \<and> rr_OrderID res = mo_id o' \<and> rr_Amount res = mo_amount o')) s"
  unfolding MockRecharge.simps
  by (rule wp_bindI [OF recharge_round_paid [OF assms]]) (auto intro!: wp_return split: sum.split)

section \<open>Restarts\<close>

text \<open>New identifiers are fresh, orders are paid, and the user's request has an order.\<close>

definition fresh_orders :: "bank_cfg \<Rightarrow> bank \<Rightarrow> bool" where
  "fresh_orders b s \<longleftrightarrow> orders_wf s \<and> (\<forall>r\<in>set (orders s). \<forall>n. mo_id r \<noteq> ''pay-'' @ random_id b n)"

lemma order_clash:
  assumes "fresh_orders b s" "ins order_keys r (orders s) = Inl e" "mo_id r = ''pay'' @ ''-'' @ random_id b n"
  shows "\<exists>o'\<in>set (orders s). mo_user o' = mo_user r \<and> mo_request_id o' = mo_request_id r"
proof -
  obtain k where k: "clash order_keys r (orders s) = Some k" using ins_Inl_D [OF assms(2)] by blast
  from clash_Some_D [OF k] obtain same x where x: "(k, same) \<in> set order_keys" "x \<in> set (orders s)" "same r x"
    by (elim exE conjE)
  have "mo_id x \<noteq> mo_id r" using assms(1) x(2) unfolding assms(3) by (simp add: fresh_orders_def)
  moreover have "mo_id r = mo_id x \<or> mo_user r = mo_user x \<and> mo_request_id r = mo_request_id x"
    using x(1,3) by (fastforce simp: order_keys_def)
  ultimately have "mo_user x = mo_user r \<and> mo_request_id x = mo_request_id r" by metis
  with x(2) show ?thesis by blast
qed

text \<open>A round ends without an answer only if another process paid the request in the meantime.\<close>

lemma recharge_tx_race:
  assumes "fresh_orders b s"
  shows "wp (recharge_tx b p (quiet env))
    (\<lambda>r s'. (r = Rollback (Inr None) \<longrightarrow> (\<exists>o'\<in>set (orders s). paid_by o' p)) \<and> r \<noteq> Commit (Inr None)) s"
  unfolding recharge_tx_def Let_def
  apply (rule wp_bindI [where R = "\<lambda>_ s'. s' = s"], rule wp_clock, simp)
  apply (rule wp_bindI [where R = "\<lambda>i s'. s' = s \<and> (\<exists>n. i = ''pay'' @ ''-'' @ random_id b n)"])
   apply (unfold newID_def, rule wp_draw, blast)
  apply (rule wp_bindI [where R = "\<lambda>i s'. s' = s"], simp add: wp_draw)
  subgoal for now s1 oid s2 trade s3
  apply (rule wp_bindI [where R = "\<lambda>r s'. \<forall>e. r = Inl e \<longrightarrow> e = IoErr \<or> (\<exists>o'\<in>set (orders s). paid_by o' p)"])
   apply (rule wp_exec, simp)
   apply (simp add: run_insert_def split: sum.split)
   apply (use order_clash [OF assms] in \<open>force simp: paid_by_def\<close>)
  apply (rule wp_case_sum, rule wp_if)
    apply (auto intro!: wp_return) [2]
  apply (rule wp_then_txI [where R = "\<lambda>_ _. True"], simp, simp)
  apply (rule wp_bindI [where R = "\<lambda>_ _. True"], simp)
  apply (rule wp_then_txI [where R = "\<lambda>_ _. True"], simp, simp)
  apply (rule wp_return, simp)
  done
  done

lemma recharge_round_race:
  assumes "relies env (fresh_orders b)" "fresh_orders b s"
  shows "wp (recharge_round b env params) (\<lambda>r s'. r = Inr None \<longrightarrow>
      (\<exists>o'\<in>set (orders s'). paid_by o' (normalize_recharge params)) \<and> orders_wf s') s"
  unfolding recharge_round_def Let_def
  apply (rule wp_if, rule wp_err, simp)
  apply (rule wp_case_option)
   apply (rule wp_then_okI [where R = "\<lambda>_. fresh_orders b"])
     apply (unfold loadRecharge_def, rule keeps_wp [OF keeps_query [OF assms(1)] assms(2)])
    apply simp
   apply (rule wp_case_option)
    apply (rule wp_in_tx_stable [OF assms(1)], assumption, simp)
    apply (rule wp_mono [OF recharge_tx_race], assumption)
    apply (auto simp: fresh_orders_def split: tx_end.splits) [1]
   apply (rule wp_if, rule wp_err, simp)
   apply (rule wp_then_okI [where R = "\<lambda>_ _. True"], simp, simp)
   apply (rule wp_case_prod, rule wp_ok, simp)
  apply (rule wp_err, simp)
  done

lemma normalize_recharge_paid: "paid_by r (normalize_recharge (normalize_recharge p)) = paid_by r (normalize_recharge p)"
  by (simp add: paid_by_def normalize_recharge_def Let_def)

lemma MockRecharge_returns:
  assumes "relies env (fresh_orders b)" "fresh_orders b s"
    and "\<And>o'. relies env (\<lambda>s. o' \<in> set (orders s) \<and> orders_wf s)"
  shows "wp (MockRecharge (Suc (Suc k)) b env params) (\<lambda>r _. r \<noteq> None) s"
proof -
  have again: "wp (ignore (query env (\<lambda>_. ())) (MockRecharge (Suc k) b env (normalize_recharge params))) (\<lambda>r _. r \<noteq> None) s'"
    if o': "o' \<in> set (orders s')" "paid_by o' (normalize_recharge params)" "orders_wf s'" for o' s'
  proof (rule wp_ignoreI)
    show "wp (query env (\<lambda>_. ())) (\<lambda>_ s. o' \<in> set (orders s) \<and> orders_wf s) s'"
      by (rule keeps_wp [OF keeps_query [OF assms(3)]]) (use o' in simp)
    show "wp (MockRecharge (Suc k) b env (normalize_recharge params)) (\<lambda>r _. r \<noteq> None) s2"
      if "o' \<in> set (orders s2) \<and> orders_wf s2" for s2
      by (rule wp_mono [OF MockRecharge_paid [where P = "\<lambda>_. True" and o' = o']])
         (use that o' assms(3) in \<open>simp_all add: normalize_recharge_paid\<close>)
  qed
  show ?thesis
    unfolding MockRecharge.simps(2) [of "Suc k"]
    apply (rule wp_bindI [OF recharge_round_race [OF assms(1,2)]])
    apply (rule wp_case_sum, rule wp_return, simp)
    apply (rule wp_case_option)
     apply (use again in blast)
    apply (rule wp_return, simp)
    done
qed

text \<open>What a run unfolds.\<close>

lemmas wallet_run [exec_defs] =
  ledger_keys_def order_keys_def newID_def wrapf_def ErrWalletInvalid_def ErrInsufficientBalance_def ErrNoRows_def
  select_wallet_def select_ledger_def Get_def lockWallet_def updateWalletAndLedger_def loadRecharge_def
  normalize_recharge_def recharge_invalid_def recharge_tx_def recharge_round_def

section \<open>Properties\<close>

definition demo_bank :: bank_cfg where
  "demo_bank = \<lparr>bank_db = True, random_id = \<lambda>n. replicate n (CHR ''x'')\<rparr>"

definition empty_bank :: bank where
  "empty_bank = \<lparr>friend_rows = [], group_rows = [], member_rows = [], accounts = [], ledger = [], orders = [], packets = [], claims = []\<rparr>"

definition demo_recharge :: recharge_params where
  "demo_recharge = \<lparr>rq_UserID = ''al'', rq_RequestID = ''r1'', rq_Channel = ''mock_wechat'', rq_Amount = 500\<rparr>"

definition demo_order :: order_row where
  "demo_order = \<lparr>mo_id = ''pay-a'', mo_request_id = ''r1'', mo_user = ''al'', mo_channel = ''mock_wechat'', mo_amount = 500,
     mo_status = ''paid'', mo_trade_no = ''t'', mo_paid_at = 1\<rparr>"

lemma demo_recharge_normal: "normalize_recharge demo_recharge = demo_recharge"
proof -
  have "trim_space ''al'' = ''al''" "trim_space ''r1'' = ''r1''" "trim_space ''mock_wechat'' = ''mock_wechat''"
    by (rule trim_space_graphic, simp add: graphic_def)+
  moreover have "to_lower ''mock_wechat'' = ''mock_wechat''"
    by (simp add: to_lower_ascii lower_char_def del: to_lower.simps)
  ultimately show ?thesis by (simp add: normalize_recharge_def demo_recharge_def)
qed

text \<open>C27. A recharge is paid once: when the order of a request is in the table, repeating the request keeps every
  condition \<open>P\<close> on the bank that the other processes keep beside the order (for instance that nothing changes at all), and
  an answer without error names the first order and its amount and is marked as already paid, whatever calls fail.\<close>

theorem recharge_once:
  assumes "relies env (\<lambda>s. P s \<and> o' \<in> set (orders s) \<and> orders_wf s)"
    and "P s" "o' \<in> set (orders s)" "orders_wf s" "paid_by o' (normalize_recharge params)"
  shows "wp (MockRecharge (Suc k) b env params)
     (\<lambda>r s'. P s' \<and> r \<noteq> None \<and> (\<forall>res. r = Some (Inr res) \<longrightarrow>
        rr_AlreadyPaid res \<and> rr_OrderID res = mo_id o' \<and> rr_Amount res = mo_amount o')) s"
  by (rule wp_mono [OF MockRecharge_paid [OF assms]]) simp

theorem recharge_once_witness:
  "wp (MockRecharge 1 demo_bank (fails_from 3 7) demo_recharge)
     (\<lambda>r s'. accounts s' = [] \<and> r \<noteq> None \<and> (\<forall>res. r = Some (Inr res) \<longrightarrow>
        rr_AlreadyPaid res \<and> rr_OrderID res = ''pay-a'' \<and> rr_Amount res = 500)) (empty_bank\<lparr>orders := [demo_order]\<rparr>)"
proof -
  have "wp (MockRecharge (Suc 0) demo_bank (fails_from 3 7) demo_recharge)
     (\<lambda>r s'. accounts s' = [] \<and> r \<noteq> None \<and> (\<forall>res. r = Some (Inr res) \<longrightarrow>
        rr_AlreadyPaid res \<and> rr_OrderID res = mo_id demo_order \<and> rr_Amount res = mo_amount demo_order)) (empty_bank\<lparr>orders := [demo_order]\<rparr>)"
    by (rule recharge_once) (simp_all add: demo_recharge_normal, simp_all add: empty_bank_def orders_wf_def paid_by_def demo_order_def demo_recharge_def)
  then show ?thesis by (simp add: demo_order_def)
qed

text \<open>A recharge answers after at most two rounds: it starts over only when its order met a duplicate key, and then, as
  long as orders are never deleted and new order ids are fresh, the order of the process that won the race is
  found in the second round.\<close>

theorem recharge_returns:
  assumes "relies env (fresh_orders b)" "fresh_orders b s" "\<And>o'. relies env (\<lambda>s. o' \<in> set (orders s) \<and> orders_wf s)"
  shows "wp (MockRecharge (Suc (Suc k)) b env params) (\<lambda>r _. r \<noteq> None) s"
  using assms by (rule MockRecharge_returns)

theorem recharge_returns_witness:
  "wp (MockRecharge 2 demo_bank (calm 7) demo_recharge) (\<lambda>r _. r \<noteq> None) (empty_bank\<lparr>orders := [demo_order]\<rparr>)"
proof -
  have "wp (MockRecharge (Suc (Suc 0)) demo_bank (calm 7) demo_recharge) (\<lambda>r _. r \<noteq> None) (empty_bank\<lparr>orders := [demo_order]\<rparr>)"
    by (rule recharge_returns)
       (auto simp: fresh_orders_def orders_wf_def empty_bank_def demo_order_def demo_bank_def Cons_replicate_eq)
  then show ?thesis by (simp add: numeral_2_eq_2)
qed

end
