(* ===== verification/Red_Packet.thy ===== *)
theory Red_Packet
  imports Wallet
begin

text \<open>
  Red packets (internal/logic/redpacket.go): the sender's wallet pays when the packet is sent, each
  receiver is credited an equal share once, and what is left after the packet expired goes back to the sender.
\<close>

section \<open>Values and errors\<close>

definition defaultRedPacketTTL :: int where
  "defaultRedPacketTTL = 24 * 60 * 60 * 1000"

definition ErrRedPacketInvalid :: gerr where "ErrRedPacketInvalid = Msg ''invalid red packet''"
definition ErrRedPacketNotFound :: gerr where "ErrRedPacketNotFound = Msg ''red packet not found''"
definition ErrRedPacketAlreadyClaimed :: gerr where "ErrRedPacketAlreadyClaimed = Msg ''red packet already claimed''"
definition ErrRedPacketFinished :: gerr where "ErrRedPacketFinished = Msg ''red packet finished''"
definition ErrRedPacketExpired :: gerr where "ErrRedPacketExpired = Msg ''red packet expired''"
definition ErrRedPacketNotExpired :: gerr where "ErrRedPacketNotExpired = Msg ''red packet has not expired''"
definition ErrRedPacketNotSender :: gerr where "ErrRedPacketNotSender = Msg ''only the sender can refund a red packet''"

record create_params =
  cp_SenderID :: string
  cp_ConversationID :: string
  cp_ToType :: string
  cp_TotalAmount :: int
  cp_TotalCount :: int
  cp_Greeting :: string
  cp_ExpiresAt :: int

record refund_info =
  rf_RedPacketID :: string
  rf_SenderID :: string
  rf_Amount :: int
  rf_Balance :: int
  rf_RefundedAt :: int
  rf_AlreadyDone :: bool

definition normalizeRedPacketToType :: "string \<Rightarrow> string" where
  "normalizeRedPacketToType t = (let t = to_lower (trim_space t) in if t = [] then ''user'' else t)"

text \<open>
  The share of the next receiver.  Go's \<open>/\<close> and \<open>%\<close> agree with \<open>div\<close> and \<open>mod\<close> here: amount and count are
  positive.
\<close>

definition nextEqualClaimAmount :: "packet_row \<Rightarrow> int" where
  "nextEqualClaimAmount p =
     (if rp_total_count p \<le> 0 \<or> rp_remaining_count p \<le> 0 then 0
      else let base = rp_total_amount p div rp_total_count p;
               remainder = rp_total_amount p mod rp_total_count p;
               claimedCount = rp_total_count p - rp_remaining_count p;
               amount = (if claimedCount < remainder then base + 1 else base)
           in if rp_remaining_count p = 1 then rp_remaining_amount p else amount)"

section \<open>Creation\<close>

definition normalize_create :: "create_params \<Rightarrow> create_params" where
  "normalize_create p = p\<lparr>cp_SenderID := trim_space (cp_SenderID p), cp_ConversationID := trim_space (cp_ConversationID p),
     cp_ToType := normalizeRedPacketToType (cp_ToType p), cp_Greeting := take 255 (trim_space (cp_Greeting p))\<rparr>"

definition create_invalid :: "create_params \<Rightarrow> gerr option" where
  "create_invalid p =
     (if cp_SenderID p = [] \<or> cp_ConversationID p = []
        then Some (wrapf ErrRedPacketInvalid ''sender_id and conversation_id are required'')
      else if cp_ToType p \<noteq> ''user'' \<and> cp_ToType p \<noteq> ''group''
        then Some (wrapf ErrRedPacketInvalid ''to_type must be user or group'')
      else if cp_TotalAmount p \<le> 0 \<or> cp_TotalCount p \<le> 0 \<or> cp_TotalAmount p < cp_TotalCount p
        then Some (wrapf ErrRedPacketInvalid ''total_amount must be >= total_count and both must be positive'')
      else if cp_TotalCount p > 1000 then Some (wrapf ErrRedPacketInvalid ''total_count too large'')
      else None)"

definition packet_keys :: "packet_row unique_key list" where
  "packet_keys = [(''red_packets.PRIMARY'', \<lambda>a b. rp_id a = rp_id b)]"

definition claim_keys :: "claim_row unique_key list" where
  "claim_keys = [(''red_packet_claims.uk_red_packet_user'', \<lambda>a b. rc_packet a = rc_packet b \<and> rc_user a = rc_user b)]"

definition create_tx :: "bank_cfg \<Rightarrow> packet_row \<Rightarrow> bank env \<Rightarrow> (bank, packet_row tx_end) io" where
  "create_tx b p tx =
     then_tx (lockWallet tx (rp_sender p) (rp_created_at p)) (\<lambda>balance0.
     if balance0 < rp_total_amount p then State_Monad.return (Rollback (Inl ErrInsufficientBalance))
     else let balance = balance0 - rp_total_amount p in
       State_Monad.bind (newID b ''wallet'') (\<lambda>wid.
       then_tx (updateWalletAndLedger tx wid (rp_sender p) ''debit'' (rp_total_amount p) ''red_packet_send'' (rp_id p)
                 balance (rp_created_at p)) (\<lambda>_.
       then_tx (exec tx (run_insert packets packets_update (ins packet_keys p))) (\<lambda>_.
       State_Monad.return (Commit (Inr p))))))"

definition Create :: "bank_cfg \<Rightarrow> bank env \<Rightarrow> create_params \<Rightarrow> (bank, gerr + packet_row) io" where
  "Create b env params =
     (if \<not> bank_db b then err (Msg ''database is required'')
      else let p = normalize_create params in
      case create_invalid p of Some e \<Rightarrow> err e
      | None \<Rightarrow>
        State_Monad.bind (clock env) (\<lambda>now.
        let expires = (if cp_ExpiresAt p \<le> 0 then i64 (now + defaultRedPacketTTL) else cp_ExpiresAt p) in
        if expires \<le> now then err (wrapf ErrRedPacketInvalid ''expires_at must be in the future'')
        else State_Monad.bind (newID b ''rp'') (\<lambda>packetID.
          in_tx env (create_tx b \<lparr>rp_id = packetID, rp_sender = cp_SenderID p, rp_conversation = cp_ConversationID p,
            rp_to_type = cp_ToType p, rp_total_amount = cp_TotalAmount p, rp_total_count = cp_TotalCount p,
            rp_remaining_amount = cp_TotalAmount p, rp_remaining_count = cp_TotalCount p, rp_greeting = cp_Greeting p,
            rp_status = ''active'', rp_created_at = now, rp_expires_at = expires, rp_updated_at = now\<rparr>))))"

section \<open>Refunds\<close>

definition set_packet_status :: "bank env \<Rightarrow> string \<Rightarrow> string \<Rightarrow> int \<Rightarrow> (bank, gerr + unit) io" where
  "set_packet_status tx st pid now = update_w tx (packets_update (upd (\<lambda>p. rp_id p = pid)
     (\<lambda>p. p\<lparr>rp_status := st, rp_updated_at := now\<rparr>)))"

definition markRedPacketFinished :: "bank env \<Rightarrow> string \<Rightarrow> int \<Rightarrow> (bank, gerr + unit) io" where
  "markRedPacketFinished tx pid now = set_packet_status tx ''finished'' pid now"

definition markRedPacketExpired :: "bank env \<Rightarrow> string \<Rightarrow> int \<Rightarrow> (bank, gerr + unit) io" where
  "markRedPacketExpired tx pid now = set_packet_status tx ''expired'' pid now"

definition loadRedPacketForUpdate :: "bank env \<Rightarrow> string \<Rightarrow> (bank, gerr + packet_row) io" where
  "loadRedPacketForUpdate tx pid =
     then_ok (query tx (\<lambda>s. find (\<lambda>p. rp_id p = pid) (packets s))) (\<lambda>r.
       case r of None \<Rightarrow> err ErrRedPacketNotFound | Some p \<Rightarrow> ok p)"

definition refundRedPacketRemainder :: "bank_cfg \<Rightarrow> bank env \<Rightarrow> packet_row \<Rightarrow> int \<Rightarrow> (bank, gerr + refund_info) io" where
  "refundRedPacketRemainder b tx p now =
     (let refund = \<lparr>rf_RedPacketID = rp_id p, rf_SenderID = rp_sender p, rf_Amount = rp_remaining_amount p, rf_Balance = 0,
            rf_RefundedAt = now, rf_AlreadyDone = False\<rparr> in
      then_ok
        (if rp_remaining_amount p > 0 then
           then_ok (lockWallet tx (rp_sender p) now) (\<lambda>balance0. let balance = i64 (balance0 + rp_remaining_amount p) in
           State_Monad.bind (newID b ''wallet'') (\<lambda>wid.
           then_ok (updateWalletAndLedger tx wid (rp_sender p) ''credit'' (rp_remaining_amount p) ''red_packet_refund''
                     (rp_id p) balance now) (\<lambda>_.
           ok (refund\<lparr>rf_Balance := balance\<rparr>))))
         else ok refund) (\<lambda>refund.
      then_ok (markRedPacketExpired tx (rp_id p) now) (\<lambda>_. ok refund)))"

definition loadRedPacketRefund :: "bank env \<Rightarrow> string \<Rightarrow> string \<Rightarrow> (bank, gerr + refund_info) io" where
  "loadRedPacketRefund tx pid u =
     then_ok (query tx (\<lambda>s. find (\<lambda>l. wl_user l = u \<and> wl_business_type l = ''red_packet_refund'' \<and> wl_business_id l = pid) (ledger s)))
       (\<lambda>r. case r of
          None \<Rightarrow> err (Msg ''expired red packet is missing its refund ledger'')
        | Some l \<Rightarrow> ok \<lparr>rf_RedPacketID = pid, rf_SenderID = u, rf_Amount = wl_amount l, rf_Balance = wl_balance_after l,
            rf_RefundedAt = wl_created_at l, rf_AlreadyDone = False\<rparr>)"

definition refund_tx :: "bank_cfg \<Rightarrow> string \<Rightarrow> string \<Rightarrow> bank env \<Rightarrow> (bank, refund_info tx_end) io" where
  "refund_tx b pid u tx =
     then_tx (loadRedPacketForUpdate tx pid) (\<lambda>p.
     if rp_sender p \<noteq> u then State_Monad.return (Rollback (Inl ErrRedPacketNotSender))
     else if rp_status p = ''finished'' then State_Monad.return (Rollback (Inl ErrRedPacketFinished))
     else if rp_status p = ''expired'' then
       then_tx (loadRedPacketRefund tx (rp_id p) u) (\<lambda>refund.
       State_Monad.return (Rollback (Inr (refund\<lparr>rf_AlreadyDone := True\<rparr>))))
     else State_Monad.bind (clock tx) (\<lambda>now.
       if rp_expires_at p \<le> 0 \<or> rp_expires_at p > now then State_Monad.return (Rollback (Inl ErrRedPacketNotExpired))
       else then_tx (refundRedPacketRemainder b tx p now) (\<lambda>refund.
         State_Monad.return (Commit (Inr refund)))))"

definition RefundExpired :: "bank_cfg \<Rightarrow> bank env \<Rightarrow> string \<Rightarrow> string \<Rightarrow> (bank, gerr + refund_info) io" where
  "RefundExpired b env redPacketID senderID =
     (if \<not> bank_db b then err (Msg ''database is required'')
      else let pid = trim_space redPacketID; u = trim_space senderID in
      if pid = [] \<or> u = [] then err (wrapf ErrRedPacketInvalid ''red_packet_id and sender_id are required'')
      else in_tx env (refund_tx b pid u))"

section \<open>Claims\<close>

text \<open>
  \<open>Claim\<close> answers with a claim and no error, or with an earlier claim beside \<open>ErrRedPacketAlreadyClaimed\<close>.
\<close>

datatype claim_answer = NewClaim claim_row | OldClaim claim_row

definition loadClaim :: "bank env \<Rightarrow> string \<Rightarrow> string \<Rightarrow> (bank, gerr + claim_row option) io" where
  "loadClaim env pid u = query env (\<lambda>s. find (\<lambda>c. rc_packet c = pid \<and> rc_user c = u) (claims s))"

text \<open>The transaction; it answers \<open>None\<close> when the insert met the user's earlier claim.\<close>

definition grant_share :: "bank_cfg \<Rightarrow> packet_row \<Rightarrow> string \<Rightarrow> int \<Rightarrow> bank env \<Rightarrow> (bank, claim_row option tx_end) io" where
  "grant_share b p u now tx =
     (let amount = nextEqualClaimAmount p in
     if amount \<le> 0 \<or> amount > rp_remaining_amount p
     then State_Monad.return (Rollback (Inl (wrapf ErrRedPacketInvalid ''invalid claim amount'')))
     else let claim = \<lparr>rc_packet = rp_id p, rc_user = u, rc_amount = amount, rc_created_at = now\<rparr> in
     State_Monad.bind (exec tx (run_insert claims claims_update (ins claim_keys claim))) (\<lambda>r.
     case r of
       Inl e \<Rightarrow> if is_dup_key e then State_Monad.return (Rollback (Inr None)) else State_Monad.return (Rollback (Inl e))
     | Inr _ \<Rightarrow>
         let nextStatus = (if rp_remaining_count p = 1 \<or> rp_remaining_amount p = amount then ''finished'' else ''active'') in
         then_tx (exec tx (run_update packets packets_update
             (\<lambda>q. rp_id q = rp_id p \<and> rp_remaining_amount q \<ge> amount \<and> rp_remaining_count q > 0)
             (\<lambda>q. q\<lparr>rp_remaining_amount := rp_remaining_amount q - amount, rp_remaining_count := rp_remaining_count q - 1,
                   rp_status := nextStatus, rp_updated_at := now\<rparr>))) (\<lambda>n.
         if n \<noteq> 1 then State_Monad.return (Rollback (Inl ErrRedPacketFinished))
         else then_tx (lockWallet tx u now) (\<lambda>balance0. let balance = i64 (balance0 + amount) in
           State_Monad.bind (newID b ''wallet'') (\<lambda>wid.
           then_tx (updateWalletAndLedger tx wid u ''credit'' amount ''red_packet_claim'' (rp_id p) balance now) (\<lambda>_.
           State_Monad.return (Commit (Inr (Some claim)))))))))"

definition claim_tx :: "bank_cfg \<Rightarrow> string \<Rightarrow> string \<Rightarrow> bank env \<Rightarrow> (bank, claim_row option tx_end) io" where
  "claim_tx b pid u tx =
     then_tx (loadRedPacketForUpdate tx pid) (\<lambda>p.
     State_Monad.bind (clock tx) (\<lambda>now.
     if rp_status p = ''expired'' then State_Monad.return (Rollback (Inl ErrRedPacketExpired))
     else if rp_status p \<noteq> ''active'' then State_Monad.return (Rollback (Inl ErrRedPacketFinished))
     else if rp_expires_at p > 0 \<and> rp_expires_at p \<le> now then
       then_tx (refundRedPacketRemainder b tx p now) (\<lambda>_.
       State_Monad.return (Commit (Inl ErrRedPacketExpired)))
     else if rp_remaining_count p \<le> 0 \<or> rp_remaining_amount p \<le> 0 then
       then_tx (markRedPacketFinished tx (rp_id p) now) (\<lambda>_.
       State_Monad.return (Commit (Inl ErrRedPacketFinished)))
     else grant_share b p u now tx))"

definition Claim :: "bank_cfg \<Rightarrow> bank env \<Rightarrow> string \<Rightarrow> string \<Rightarrow> (bank, gerr + claim_answer) io" where
  "Claim b env redPacketID userID =
     (if \<not> bank_db b then err (Msg ''database is required'')
      else let pid = trim_space redPacketID; u = trim_space userID in
      if pid = [] \<or> u = [] then err (wrapf ErrRedPacketInvalid ''red_packet_id and user_id are required'')
      else then_ok (loadClaim env pid u) (\<lambda>old. case old of
        Some c \<Rightarrow> ok (OldClaim c)
      | None \<Rightarrow> then_ok (in_tx env (claim_tx b pid u)) (\<lambda>r. case r of
          Some c \<Rightarrow> ok (NewClaim c)
        | None \<Rightarrow> then_ok (query env (\<lambda>_. ())) (\<lambda>_.
            then_ok (loadClaim env pid u) (\<lambda>c. case c of
              Some c \<Rightarrow> ok (OldClaim c)
            | None \<Rightarrow> err ErrRedPacketAlreadyClaimed)))))"

section \<open>Reading\<close>

definition loadPacket :: "bank env \<Rightarrow> string \<Rightarrow> (bank, gerr + packet_row) io" where
  "loadPacket env pid =
     then_ok (query env (\<lambda>s. find (\<lambda>p. rp_id p = pid) (packets s))) (\<lambda>r.
       case r of None \<Rightarrow> err ErrRedPacketNotFound | Some p \<Rightarrow> ok p)"

definition listClaims :: "bank env \<Rightarrow> string \<Rightarrow> (bank, gerr + claim_row list) io" where
  "listClaims env pid = query env (\<lambda>s. order_asc rc_created_at (filter (\<lambda>c. rc_packet c = pid) (claims s)))"

record packet_detail =
  pd_Packet :: packet_row
  pd_Claims :: "claim_row list"
  pd_Claimed :: bool

definition Detail :: "bank_cfg \<Rightarrow> bank env \<Rightarrow> string \<Rightarrow> string \<Rightarrow> (bank, gerr + packet_detail) io" where
  "Detail b env redPacketID userID =
     (if \<not> bank_db b then err (Msg ''database is required'')
      else let pid = trim_space redPacketID in
      if pid = [] then err (wrapf ErrRedPacketInvalid ''red_packet_id is required'')
      else then_ok (loadPacket env pid) (\<lambda>packet.
        then_ok (listClaims env pid) (\<lambda>cs.
        ok \<lparr>pd_Packet = packet, pd_Claims = cs, pd_Claimed = list_ex (\<lambda>c. rc_user c = userID) cs\<rparr>)))"

section \<open>The equal split\<close>

definition base_share :: "packet_row \<Rightarrow> int" where
  "base_share p = rp_total_amount p div rp_total_count p"

definition big_shares :: "packet_row \<Rightarrow> int" where
  "big_shares p = rp_total_amount p mod rp_total_count p"

text \<open>What the receivers still to come get: the base share each, and a cent more for the first ones.\<close>

definition open_amount :: "packet_row \<Rightarrow> int" where
  "open_amount p = rp_remaining_count p * base_share p + max 0 (big_shares p - (rp_total_count p - rp_remaining_count p))"

definition sized :: "packet_row \<Rightarrow> bool" where
  "sized p \<longleftrightarrow> 0 < rp_total_count p \<and> rp_total_count p \<le> rp_total_amount p \<and> rp_total_amount p < 2 ^ 63"

lemma sized_shares:
  assumes "sized p"
  shows "1 \<le> base_share p" "0 \<le> big_shares p" "big_shares p < rp_total_count p"
    "rp_total_amount p = rp_total_count p * base_share p + big_shares p"
proof -
  have n: "0 < rp_total_count p" "rp_total_count p \<le> rp_total_amount p" using assms by (simp_all add: sized_def)
  have "rp_total_count p div rp_total_count p \<le> rp_total_amount p div rp_total_count p" using n by (intro zdiv_mono1)
  then show "1 \<le> base_share p" using n by (simp add: base_share_def)
  show "0 \<le> big_shares p" "big_shares p < rp_total_count p" using n by (simp_all add: big_shares_def)
  show "rp_total_amount p = rp_total_count p * base_share p + big_shares p"
    by (simp add: base_share_def big_shares_def)
qed

definition take_share :: "packet_row \<Rightarrow> packet_row" where
  "take_share p = p\<lparr>rp_remaining_amount := rp_remaining_amount p - nextEqualClaimAmount p,
     rp_remaining_count := rp_remaining_count p - 1\<rparr>"

lemma open_fresh: "sized p \<Longrightarrow> rp_remaining_count p = rp_total_count p \<Longrightarrow> open_amount p = rp_total_amount p"
  using sized_shares [of p] by (simp add: open_amount_def)

lemma next_share:
  assumes "sized p" "0 < rp_remaining_count p" "rp_remaining_count p \<le> rp_total_count p" "rp_remaining_amount p = open_amount p"
  shows "nextEqualClaimAmount p = (if rp_total_count p - rp_remaining_count p < big_shares p then base_share p + 1 else base_share p)"
  using assms sized_shares [OF assms(1)]
  by (auto simp: nextEqualClaimAmount_def Let_def open_amount_def base_share_def [symmetric] big_shares_def [symmetric])

lemma share_positive:
  assumes "sized p" "0 < rp_remaining_count p" "rp_remaining_count p \<le> rp_total_count p" "rp_remaining_amount p = open_amount p"
  shows "0 < nextEqualClaimAmount p" "nextEqualClaimAmount p \<le> rp_remaining_amount p"
    "nextEqualClaimAmount p = rp_remaining_amount p \<longleftrightarrow> rp_remaining_count p = 1"
proof -
  note sh = sized_shares [OF assms(1)]
  define x where "x = rp_remaining_count p * base_share p"
  have "1 * base_share p \<le> rp_remaining_count p * base_share p"
    by (rule mult_right_mono) (use sh assms(2) in auto)
  then have b: "base_share p \<le> x" unfolding x_def by simp
  have b2: "2 * base_share p \<le> x" if "rp_remaining_count p \<noteq> 1"
    unfolding x_def by (rule mult_right_mono) (use sh assms(2) that in auto)
  have rem: "rp_remaining_amount p = x + max 0 (big_shares p - (rp_total_count p - rp_remaining_count p))"
    using assms(4) by (simp add: open_amount_def x_def)
  have share: "nextEqualClaimAmount p = (if rp_total_count p - rp_remaining_count p < big_shares p then base_share p + 1 else base_share p)"
    by (rule next_share [OF assms])
  show "0 < nextEqualClaimAmount p" using share sh(1) by simp
  show "nextEqualClaimAmount p \<le> rp_remaining_amount p"
    using share rem b by (simp split: if_splits)
  show "nextEqualClaimAmount p = rp_remaining_amount p \<longleftrightarrow> rp_remaining_count p = 1"
  proof
    assume "rp_remaining_count p = 1"
    then show "nextEqualClaimAmount p = rp_remaining_amount p"
      using assms(1) by (simp add: nextEqualClaimAmount_def sized_def)
  next
    assume eq: "nextEqualClaimAmount p = rp_remaining_amount p"
    show "rp_remaining_count p = 1"
    proof (rule ccontr)
      assume "rp_remaining_count p \<noteq> 1"
      from b2 [OF this] share rem sh(1) eq show False by (simp split: if_splits)
    qed
  qed
qed

lemma take_share_open:
  assumes "sized p" "0 < rp_remaining_count p" "rp_remaining_count p \<le> rp_total_count p" "rp_remaining_amount p = open_amount p"
  shows "rp_remaining_amount (take_share p) = open_amount (take_share p)"
proof -
  have "open_amount (take_share p) = rp_remaining_count p * base_share p - base_share p
      + max 0 (big_shares p - (rp_total_count p - rp_remaining_count p + 1))"
    by (simp add: open_amount_def take_share_def base_share_def big_shares_def left_diff_distrib)
  moreover have "rp_remaining_amount (take_share p) = rp_remaining_count p * base_share p
      + max 0 (big_shares p - (rp_total_count p - rp_remaining_count p)) - nextEqualClaimAmount p"
    using assms(4) by (simp add: take_share_def open_amount_def)
  ultimately show ?thesis using next_share [OF assms] by (simp split: if_splits)
qed

text \<open>The amounts of the next \<open>k\<close> claims.\<close>

fun pay_out :: "nat \<Rightarrow> packet_row \<Rightarrow> int list" where
  "pay_out 0 p = []"
| "pay_out (Suc k) p = nextEqualClaimAmount p # pay_out k (take_share p)"

lemma take_share_simps [simp]:
  "rp_total_amount (take_share p) = rp_total_amount p" "rp_total_count (take_share p) = rp_total_count p"
  "sized (take_share p) = sized p" "base_share (take_share p) = base_share p" "big_shares (take_share p) = big_shares p"
  "rp_remaining_count (take_share p) = rp_remaining_count p - 1"
  by (simp_all add: take_share_def sized_def base_share_def big_shares_def)

lemma pay_out_map:
  "\<lbrakk>sized p; int k \<le> rp_remaining_count p; rp_remaining_count p \<le> rp_total_count p; rp_remaining_amount p = open_amount p\<rbrakk>
   \<Longrightarrow> pay_out k p = map (\<lambda>i. if rp_total_count p - rp_remaining_count p + int i < big_shares p then base_share p + 1 else base_share p) [0..<k]"
proof (induction k arbitrary: p)
  case (Suc k)
  have "pay_out k (take_share p) = map (\<lambda>i. if rp_total_count p - rp_remaining_count p + int (Suc i) < big_shares p
      then base_share p + 1 else base_share p) [0..<k]"
    using Suc.IH [of "take_share p"] Suc.prems take_share_open [of p] by (simp add: algebra_simps)
  with next_share [of p] Suc.prems show ?case by (simp add: map_upt_Suc del: upt_Suc)
qed simp

lemma map_threshold: "map (\<lambda>i. if int i < int r then a else b) [0..<n] = replicate (min r n) a @ replicate (n - r) b"
  by (rule nth_equalityI) (auto simp: nth_append)

section \<open>The invariant\<close>

definition claimed_amounts :: "packet_row \<Rightarrow> bank \<Rightarrow> int list" where
  "claimed_amounts p s = map rc_amount (filter (\<lambda>c. rc_packet c = rp_id p) (claims s))"

text \<open>
  A packet is sized, what was claimed and what remains add up to what was sent, in money and in number
  of shares, every claim got an equal share, and an active packet holds exactly the open shares.
\<close>

definition packet_wf :: "bank \<Rightarrow> packet_row \<Rightarrow> bool" where
  "packet_wf s p \<longleftrightarrow> sized p
     \<and> sum_list (claimed_amounts p s) + rp_remaining_amount p = rp_total_amount p
     \<and> int (length (claimed_amounts p s)) + rp_remaining_count p = rp_total_count p
     \<and> set (claimed_amounts p s) \<subseteq> {base_share p, base_share p + 1}
     \<and> (rp_status p = ''active'' \<longrightarrow> 0 < rp_remaining_count p \<and> rp_remaining_amount p = open_amount p)
     \<and> (rp_status p = ''finished'' \<longrightarrow> rp_remaining_count p = 0 \<and> rp_remaining_amount p = 0)
     \<and> rp_status p \<in> {''active'', ''finished'', ''expired''}"

definition packets_wf :: "bank \<Rightarrow> bool" where
  "packets_wf s \<longleftrightarrow> distinct (map rp_id (packets s)) \<and> (\<forall>p\<in>set (packets s). packet_wf s p)
     \<and> distinct (map (\<lambda>c. (rc_packet c, rc_user c)) (claims s)) \<and> rc_packet ` set (claims s) \<subseteq> rp_id ` set (packets s)"

definition bank_inv :: "bank \<Rightarrow> bool" where
  "bank_inv s \<longleftrightarrow> books s \<and> packets_wf s"

lemma bank_invD: "bank_inv s \<Longrightarrow> accounts_wf s" "bank_inv s \<Longrightarrow> packets_wf s" "bank_inv s \<Longrightarrow> books s"
  by (simp_all add: bank_inv_def books_def)

lemma packet_of: "packets_wf s \<Longrightarrow> p \<in> set (packets s) \<Longrightarrow> packet_wf s p"
  by (simp add: packets_wf_def)

lemma active_packet:
  assumes "packet_wf s p" "rp_status p = ''active''"
  shows "sized p" "0 < rp_remaining_count p" "rp_remaining_count p \<le> rp_total_count p" "rp_remaining_amount p = open_amount p"
  using assms by (auto simp: packet_wf_def)

lemma open_amount_pos: "sized p \<Longrightarrow> 0 < rp_remaining_count p \<Longrightarrow> rp_remaining_count p \<le> rp_total_count p \<Longrightarrow>
   rp_remaining_amount p = open_amount p \<Longrightarrow> 0 < rp_remaining_amount p"
  using share_positive(1,2) [of p] by linarith

lemma packet_wf_amounts: "packet_wf s p \<Longrightarrow> 0 \<le> rp_remaining_amount p \<Longrightarrow> rp_remaining_amount p < 2 ^ 63"
proof -
  assume wf: "packet_wf s p" and "0 \<le> rp_remaining_amount p"
  have "0 \<le> sum_list (claimed_amounts p s)"
    using wf sized_shares(1) [of p] by (intro sum_list_nonneg) (auto simp: packet_wf_def)
  with wf show ?thesis by (simp add: packet_wf_def sized_def)
qed

text \<open>Conditions that read nothing but packets and claims, or nothing but the books.\<close>

lemma packets_wf_cong: "packets s' = packets s \<Longrightarrow> claims s' = claims s \<Longrightarrow> packets_wf s' = packets_wf s"
  by (simp add: packets_wf_def packet_wf_def claimed_amounts_def)

lemma books_booked:
  assumes "books s" "booked u d s s1" "accounts s2 = accounts s1" "ledger s2 = ledger s1" "orders s2 = orders s1"
    "held s2 = held s - d"
  shows "books s2"
proof -
  have "balance_of v s2 = balance_of v s1" "ledger_sum v s2 = ledger_sum v s1" for v
    using assms(3,4) by (simp_all add: balance_of_def ledger_sum_def)
  moreover have "wealth s2 = wealth s1" "accounts_wf s2 = accounts_wf s1" "minted s2 = minted s"
    using assms(2,3,5) by (simp_all add: wealth_def accounts_wf_def minted_def booked_def)
  moreover have "explained s1" using booked_explained [OF assms(2)] assms(1) by (simp add: books_def)
  ultimately show ?thesis
    using assms(1,2,6) by (auto simp: books_def booked_def explained_iff)
qed

lemma held_upd:
  assumes "packets_wf s" "p \<in> set (packets s)" "packets s2 = upd (\<lambda>q. rp_id q = rp_id p) f (packets s)"
  shows "held s2 = held s - held_of p + held_of (f p)"
  using sum_upd_key [of rp_id "packets s" p held_of f] assms by (simp add: held_def packets_wf_def)

text \<open>Sending.\<close>

lemma create_inv:
  assumes inv: "bank_inv s" and b: "booked (rp_sender p) (- rp_total_amount p) s s1"
    and new: "sized p" "rp_remaining_amount p = rp_total_amount p" "rp_remaining_count p = rp_total_count p" "rp_status p = ''active''"
    and key: "rp_id p \<notin> rp_id ` set (packets s)"
  shows "bank_inv (packets_update (\<lambda>_. packets s @ [p]) s1)"
proof -
  let ?s = "packets_update (\<lambda>_. packets s @ [p]) s1"
  have cl: "claims ?s = claims s" using b by (simp add: booked_def)
  have wf: "packets_wf s" using inv by (rule bank_invD)
  have "rc_packet c \<noteq> rp_id p" if "c \<in> set (claims s)" for c
  proof -
    have "rc_packet c \<in> rp_id ` set (packets s)" using wf that unfolding packets_wf_def by blast
    with key show ?thesis by metis
  qed
  then have "filter (\<lambda>c. rc_packet c = rp_id p) (claims s) = []"
    by (simp add: filter_empty_conv)
  then have "packet_wf ?s p"
    using new open_fresh [OF new(1,3)] by (simp add: packet_wf_def claimed_amounts_def cl sized_def)
  moreover have "packet_wf ?s q" if "q \<in> set (packets s)" for q
    using packet_of [OF wf that] by (simp add: packet_wf_def claimed_amounts_def cl)
  ultimately have "packets_wf ?s"
    using wf key by (auto simp: packets_wf_def cl)
  moreover have "books ?s"
    by (rule books_booked [OF bank_invD(3) [OF inv] b]) (simp_all add: held_def held_of_def new)
  ultimately show ?thesis by (simp add: bank_inv_def)
qed

text \<open>Returning the rest.\<close>

definition expire :: "int \<Rightarrow> packet_row \<Rightarrow> packet_row" where
  "expire now p = p\<lparr>rp_status := ''expired'', rp_updated_at := now\<rparr>"

lemma expire_inv:
  assumes inv: "bank_inv s" and p: "p \<in> set (packets s)" "rp_status p = ''active''"
    and b: "booked (rp_sender p) (rp_remaining_amount p) s s1"
  shows "bank_inv (packets_update (upd (\<lambda>q. rp_id q = rp_id p) (expire now)) s1)"
proof -
  let ?s = "packets_update (upd (\<lambda>q. rp_id q = rp_id p) (expire now)) s1"
  have cl: "claims ?s = claims s" and pk: "packets ?s = upd (\<lambda>q. rp_id q = rp_id p) (expire now) (packets s)"
    using b by (simp_all add: booked_def)
  have wf: "packets_wf s" using inv by (rule bank_invD)
  have ex: "packet_wf ?s (expire now q)" if "packet_wf s q" for q
    using that by (simp add: packet_wf_def claimed_amounts_def cl expire_def sized_def base_share_def)
  have same: "packet_wf ?s q" if "packet_wf s q" for q
    using that by (simp add: packet_wf_def claimed_amounts_def cl)
  have ids: "map rp_id (packets ?s) = map rp_id (packets s)"
    unfolding pk by (rule map_key_upd) (simp add: expire_def)
  then have idset: "rp_id ` set (packets ?s) = rp_id ` set (packets s)" by (metis set_map)
  have "packets_wf ?s"
    unfolding packets_wf_def ids idset cl
  proof (intro conjI ballI)
    fix q assume "q \<in> set (packets ?s)"
    then show "packet_wf ?s q"
      unfolding pk in_upd_iff using ex same packet_of [OF wf] by (auto split: if_splits)
  qed (use wf in \<open>simp_all add: packets_wf_def\<close>)
  moreover have "books ?s"
    by (rule books_booked [OF bank_invD(3) [OF inv] b])
       (use held_upd [OF wf p(1) pk] p(2) in \<open>simp_all add: held_of_def expire_def\<close>)
  ultimately show ?thesis by (simp add: bank_inv_def)
qed

text \<open>Claiming a share.\<close>

definition share_taken :: "int \<Rightarrow> int \<Rightarrow> packet_row \<Rightarrow> packet_row" where
  "share_taken amount now p = p\<lparr>rp_remaining_amount := rp_remaining_amount p - amount,
     rp_remaining_count := rp_remaining_count p - 1,
     rp_status := (if rp_remaining_count p = 1 \<or> rp_remaining_amount p = amount then ''finished'' else ''active''),
     rp_updated_at := now\<rparr>"

lemma claim_inv:
  assumes inv: "bank_inv s" and p: "p \<in> set (packets s)" "rp_status p = ''active''"
    and c: "rc_packet c = rp_id p" "rc_amount c = nextEqualClaimAmount p"
      "(rp_id p, rc_user c) \<notin> (\<lambda>c. (rc_packet c, rc_user c)) ` set (claims s)"
    and b: "booked u (rc_amount c) s s1"
    and s2: "accounts s2 = accounts s1" "ledger s2 = ledger s1" "orders s2 = orders s1" "claims s2 = claims s @ [c]"
      "packets s2 = upd (\<lambda>q. rp_id q = rp_id p) (share_taken (rc_amount c) now) (packets s)"
  shows "bank_inv s2"
proof -
  let ?f = "share_taken (rc_amount c) now"
  have wf: "packets_wf s" using inv by (rule bank_invD)
  have pw: "packet_wf s p" by (rule packet_of [OF wf p(1)])
  note act = active_packet [OF pw p(2)]
  have amounts: "claimed_amounts p s2 = claimed_amounts p s @ [rc_amount c]"
    by (simp add: claimed_amounts_def s2(4) c(1))
  have amounts': "claimed_amounts (?f p) s2 = claimed_amounts p s @ [rc_amount c]"
    by (simp add: claimed_amounts_def s2(4) c(1) share_taken_def)
  have opn: "rp_remaining_amount p - rc_amount c = open_amount (take_share p)"
    using take_share_open [OF act] c(2) by (simp add: take_share_def)
  have f: "rp_total_amount (?f p) = rp_total_amount p" "rp_total_count (?f p) = rp_total_count p"
    "rp_remaining_amount (?f p) = rp_remaining_amount p - rc_amount c" "rp_remaining_count (?f p) = rp_remaining_count p - 1"
    "sized (?f p) = sized p" "base_share (?f p) = base_share p" "open_amount (?f p) = open_amount (take_share p)"
    "rp_status (?f p) = (if rp_remaining_count p = 1 then ''finished'' else ''active'')"
    using share_positive(3) [OF act]
    by (auto simp: open_amount_def share_taken_def take_share_def base_share_def big_shares_def sized_def c(2))
  have amt: "rc_amount c \<in> {base_share p, base_share p + 1}"
    using next_share [OF act] by (simp add: c(2))
  have rest: "rp_remaining_amount p = rc_amount c" if "rp_remaining_count p = 1"
    using share_positive(3) [OF act] that by (simp add: c(2))
  have pd: "sum_list (claimed_amounts p s) + rp_remaining_amount p = rp_total_amount p"
    "int (length (claimed_amounts p s)) + rp_remaining_count p = rp_total_count p"
    "set (claimed_amounts p s) \<subseteq> {base_share p, base_share p + 1}"
    using pw by (simp_all add: packet_wf_def)
  have fp: "packet_wf s2 (?f p)"
    unfolding packet_wf_def amounts' f
    using pd amt opn rest act(1,2) by auto
  have other: "packet_wf s2 q" if "q \<in> set (packets s)" "rp_id q \<noteq> rp_id p" for q
    using packet_of [OF wf that(1)] that(2) c(1) by (simp add: packet_wf_def claimed_amounts_def s2(4))
  have ids: "map rp_id (packets s2) = map rp_id (packets s)"
    unfolding s2(5) by (rule map_key_upd) (simp add: share_taken_def)
  then have idset: "rp_id ` set (packets s2) = rp_id ` set (packets s)" by (metis set_map)
  have d: "distinct (map rp_id (packets s))" using wf by (simp add: packets_wf_def)
  have "packets_wf s2"
    unfolding packets_wf_def ids idset
  proof (intro conjI ballI)
    fix q assume "q \<in> set (packets s2)"
    then obtain r where r: "r \<in> set (packets s)" "q = (if rp_id r = rp_id p then ?f r else r)"
      unfolding s2(5) in_upd_iff by blast
    show "packet_wf s2 q"
    proof (cases "rp_id r = rp_id p")
      case True
      with key_row_unique [OF d r(1) p(1)] r(2) fp show ?thesis by simp
    next
      case False
      with other [OF r(1)] r(2) show ?thesis by simp
    qed
  next
    show "distinct (map (\<lambda>c. (rc_packet c, rc_user c)) (claims s2))"
      using wf c(1,3) by (simp add: packets_wf_def s2(4))
    show "rc_packet ` set (claims s2) \<subseteq> rp_id ` set (packets s)"
      using wf c(1) p(1) by (auto simp: packets_wf_def s2(4))
  qed (rule d)
  moreover have "books s2"
    by (rule books_booked [OF bank_invD(3) [OF inv] b s2(1,2,3)])
       (use held_upd [OF wf p(1) s2(5)] p(2) share_positive(3) [OF act] c(2) in \<open>auto simp: held_of_def share_taken_def\<close>)
  ultimately show ?thesis by (simp add: bank_inv_def)
qed

section \<open>The operations keep the invariant\<close>

lemma wp_newID: "(\<And>i. Q i s) \<Longrightarrow> wp (newID b p) Q s"
  by (simp add: newID_def wp_draw)

lemma wp_create_tx:
  assumes inv: "bank_inv s"
    and new: "sized p" "rp_remaining_amount p = rp_total_amount p" "rp_remaining_count p = rp_total_count p" "rp_status p = ''active''"
  shows "wp (create_tx b p (quiet env)) (\<lambda>r s'. case r of Rollback _ \<Rightarrow> True | Commit _ \<Rightarrow> bank_inv s') s"
  unfolding create_tx_def Let_def
  apply (rule wp_locked [OF bank_invD(1) [OF inv]], simp)
  apply (rule wp_if, rule wp_return, simp)
  subgoal for s1
    apply (rule wp_bindI [where R = "\<lambda>_ s'. s' = s1"], rule wp_newID, simp)
    apply simp
    apply (rule wp_posted [where d = "- rp_total_amount p"])
         apply (simp add: booked_def)
        apply assumption
       apply simp
      apply (use balance_range [of s1 "rp_sender p"] in \<open>auto simp: booked_def\<close>) [1]
     apply simp
    subgoal for i s2 s3
      apply (rule wp_then_txI [where R = "\<lambda>r s'. r = Inr () \<longrightarrow> rp_id p \<notin> rp_id ` set (packets s3) \<and> s' = packets_update (\<lambda>_. packets s3 @ [p]) s3"])
        apply (rule wp_exec, simp)
        apply (auto simp: run_insert_def ins_Inr_iff clash_None_iff packet_keys_def split: sum.split) [1]
       apply simp
      apply (rule wp_return, simp)
      using create_inv [OF inv booked_trans [of "rp_sender p" 0 s s1 "- rp_total_amount p" s3, simplified] new]
      by (simp add: booked_def)
    done
  done

lemma create_sized: "create_invalid p = None \<Longrightarrow> in_i64 (cp_TotalAmount p) \<Longrightarrow>
    0 < cp_TotalCount p \<and> cp_TotalCount p \<le> cp_TotalAmount p \<and> cp_TotalAmount p < 2 ^ 63"
  by (auto simp: create_invalid_def in_i64_def split: if_splits)

lemma keeps_Create:
  assumes "relies env bank_inv" "in_i64 (cp_TotalAmount params)"
  shows "keeps bank_inv (Create b env params)"
proof -
  have [simp]: "cp_TotalAmount (normalize_create params) = cp_TotalAmount params" by (simp add: normalize_create_def)
  have tx: "keeps bank_inv (in_tx env (create_tx b p))"
    if "sized p" "rp_remaining_amount p = rp_total_amount p" "rp_remaining_count p = rp_total_count p" "rp_status p = ''active''" for p
    by (rule keeps_in_tx [OF assms(1)]) (rule wp_create_tx [OF _ that])
  show ?thesis
    unfolding Create_def Let_def
    apply (intro keeps_if keeps_err keeps_case_option keeps_bind keeps_clock)
     apply (simp add: newID_def keeps_draw)
    apply (rule tx)
       apply (use create_sized [of "normalize_create params"] assms(2) in \<open>simp_all add: sized_def\<close>)
    done
qed

lemma wp_set_packet_status:
  "wp (set_packet_status (quiet env) st pid now) (\<lambda>r s'. r = Inr () \<longrightarrow>
     s' = packets_update (upd (\<lambda>p. rp_id p = pid) (\<lambda>p. p\<lparr>rp_status := st, rp_updated_at := now\<rparr>)) s) s"
  unfolding set_packet_status_def by (rule wp_update_w) simp_all

lemma wp_refund:
  assumes "accounts_wf s" "0 < rp_remaining_amount p" "rp_remaining_amount p < 2 ^ 63"
  shows "wp (refundRedPacketRemainder b (quiet env) p now) (\<lambda>r s'. \<forall>x. r = Inr x \<longrightarrow>
     (\<exists>s1. booked (rp_sender p) (rp_remaining_amount p) s s1 \<and> rf_Amount x = rp_remaining_amount p
        \<and> s' = packets_update (upd (\<lambda>q. rp_id q = rp_id p) (expire now)) s1)) s"
  unfolding refundRedPacketRemainder_def Let_def if_P [OF assms(2)]
  apply (rule wp_then_okI [where R = "\<lambda>r s'. \<forall>x. r = Inr x \<longrightarrow> booked (rp_sender p) (rp_remaining_amount p) s s'
       \<and> rf_Amount x = rp_remaining_amount p"])
    apply (rule wp_then_okI [OF lockWallet_spec [OF assms(1)]], simp)
    subgoal for x s1
      apply (rule wp_bindI [where R = "\<lambda>_ s'. s' = s1"], rule wp_newID, simp)
      apply (rule wp_then_okI [OF updateWalletAndLedger_spec [where d = "rp_remaining_amount p"]])
           apply (simp add: booked_def)
          apply simp
         apply (use assms credit_exact [of s1 "rp_remaining_amount p" "rp_sender p"] in \<open>auto simp: booked_def\<close>) [1]
        apply simp
       apply simp
      apply (rule wp_ok)
      apply (auto dest: booked_trans)
      done
   apply simp
  subgoal for x s1
    apply (unfold markRedPacketExpired_def)
    apply (rule wp_then_okI [OF wp_set_packet_status], simp)
    apply (rule wp_ok)
    apply (auto simp: expire_def [abs_def])
    done
  done

lemma loadRedPacketForUpdate_spec:
  "wp (loadRedPacketForUpdate (quiet env) pid) (\<lambda>r s'. s' = s \<and> (\<forall>p. r = Inr p \<longrightarrow> p \<in> set (packets s) \<and> rp_id p = pid)) s"
  unfolding loadRedPacketForUpdate_def
  apply (rule wp_then_okI [where R = "\<lambda>r s'. s' = s \<and> (\<forall>x. r = Inr x \<longrightarrow> x = find (\<lambda>p. rp_id p = pid) (packets s))"])
    apply (rule wp_query, simp_all)
  apply (auto intro!: wp_case_option wp_err wp_ok dest!: find_Some_iff_in sym [of _ "find _ _"])
  done

lemma refund_keeps:
  assumes inv: "bank_inv s" and p: "p \<in> set (packets s)" "rp_status p = ''active''"
  shows "wp (refundRedPacketRemainder b (quiet env) p now) (\<lambda>r s'. \<forall>x. r = Inr x \<longrightarrow> bank_inv s') s"
proof -
  have pw: "packet_wf s p" using packet_of [OF bank_invD(2) [OF inv] p(1)] .
  have pos: "0 < rp_remaining_amount p" using open_amount_pos active_packet [OF pw p(2)] by blast
  show ?thesis
    apply (rule wp_mono [OF wp_refund [OF bank_invD(1) [OF inv] pos packet_wf_amounts [OF pw]]])
    using pos apply simp
    using expire_inv [OF inv p] by auto
qed

text \<open>The guarded update of the claim touches the locked packet only, whose guards hold.\<close>

lemma claim_update:
  assumes "packets_wf s" "p \<in> set (packets s)" "amount \<le> rp_remaining_amount p" "0 < rp_remaining_count p"
  shows "upd (\<lambda>q. rp_id q = rp_id p \<and> rp_remaining_amount q \<ge> amount \<and> rp_remaining_count q > 0)
      (\<lambda>q. q\<lparr>rp_remaining_amount := rp_remaining_amount q - amount, rp_remaining_count := rp_remaining_count q - 1,
             rp_status := (if rp_remaining_count p = 1 \<or> rp_remaining_amount p = amount then ''finished'' else ''active''),
             rp_updated_at := now\<rparr>) (packets s)
    = upd (\<lambda>q. rp_id q = rp_id p) (share_taken amount now) (packets s)"
proof -
  have d: "distinct (map rp_id (packets s))" using assms(1) by (simp add: packets_wf_def)
  show ?thesis
    unfolding upd_def
  proof (rule map_cong [OF refl])
    fix q assume q: "q \<in> set (packets s)"
    show "(if rp_id q = rp_id p \<and> rp_remaining_amount q \<ge> amount \<and> rp_remaining_count q > 0
           then q\<lparr>rp_remaining_amount := rp_remaining_amount q - amount, rp_remaining_count := rp_remaining_count q - 1,
             rp_status := (if rp_remaining_count p = 1 \<or> rp_remaining_amount p = amount then ''finished'' else ''active''),
             rp_updated_at := now\<rparr> else q)
        = (if rp_id q = rp_id p then share_taken amount now q else q)"
    proof (cases "rp_id q = rp_id p")
      case True
      then have "q = p" by (rule key_row_unique [OF d q assms(2)])
      with assms(3,4) show ?thesis by (simp add: share_taken_def)
    qed simp
  qed
qed

lemma booked_frame:
  "booked u d s1 s2 \<Longrightarrow> accounts s1 = accounts s \<Longrightarrow> ledger s1 = ledger s \<Longrightarrow> orders s1 = orders s
   \<Longrightarrow> booked u d s (s2\<lparr>packets := packets s, claims := claims s\<rparr>)"
  by (simp add: booked_def balance_of_def ledger_sum_def wealth_def accounts_wf_def)

lemma wp_grant_share:
  assumes inv: "bank_inv s" and p: "p \<in> set (packets s)" "rp_status p = ''active''"
  shows "wp (grant_share b p u now (quiet env)) (\<lambda>r s'. case r of Rollback _ \<Rightarrow> True | Commit _ \<Rightarrow> bank_inv s') s"
proof -
  let ?a = "nextEqualClaimAmount p"
  let ?c = "\<lparr>rc_packet = rp_id p, rc_user = u, rc_amount = ?a, rc_created_at = now\<rparr>"
  have wf: "packets_wf s" using inv by (rule bank_invD)
  have pw: "packet_wf s p" by (rule packet_of [OF wf p(1)])
  note act = active_packet [OF pw p(2)]
  have a: "0 < ?a" "?a \<le> rp_remaining_amount p" using share_positive [OF act] by simp_all
  then have a2: "?a < 2 ^ 63" using packet_wf_amounts [OF pw] by simp
  let ?s = "s\<lparr>claims := claims s @ [?c], packets := upd (\<lambda>q. rp_id q = rp_id p) (share_taken ?a now) (packets s)\<rparr>"
  have awf: "accounts_wf ?s" using inv by (simp add: bank_inv_def books_def accounts_wf_def)
  show ?thesis
    unfolding grant_share_def Let_def
    apply (rule wp_if, rule wp_return, simp)
    apply (rule wp_bindI [where R = "\<lambda>r s'. r = Inr () \<longrightarrow> s' = s\<lparr>claims := claims s @ [?c]\<rparr>
         \<and> (rp_id p, u) \<notin> (\<lambda>c. (rc_packet c, rc_user c)) ` set (claims s)"])
     apply (rule wp_exec, simp)
     apply (auto simp: run_insert_def ins_Inr_iff clash_None_iff claim_keys_def split: sum.split) [1]
    apply (rule wp_case_sum)
     apply (rule wp_if, rule wp_return, simp, rule wp_return, simp)
    subgoal for r s1 x
      apply (rule wp_then_txI [where R = "\<lambda>r s'. \<forall>n. r = Inr n \<longrightarrow> s' = ?s"])
        apply (rule wp_exec, simp)
        apply (simp add: run_update_def claim_update [OF wf p(1) a(2) act(2)])
       apply simp
      apply (rule wp_if, rule wp_return, simp)
      apply (rule wp_locked)
        apply (simp add: awf)
       apply simp
      subgoal for n s2 s3
        apply (rule wp_bindI [where R = "\<lambda>_ s'. s' = s3"], rule wp_newID, simp)
        apply (rule wp_posted [where d = ?a])
             apply (simp add: booked_def)
            apply simp
           apply simp
          apply (use a(1) a2 credit_exact [of s3 ?a u] in \<open>auto simp: booked_def\<close>) [1]
         apply simp
        subgoal for i s4 s5
          apply (rule wp_return, simp)
          apply (rule claim_inv [OF inv p, where c = ?c and u = u and ?s1.0 = "s5\<lparr>packets := packets s, claims := claims s\<rparr>" and now = now])
                 apply simp_all
           apply (rule booked_frame [where ?s1.0 = ?s])
              apply (drule booked_trans, assumption, simp)
             apply (simp_all add: booked_def)
          done
        done
      done
    done
qed

lemma wp_claim_tx:
  assumes inv: "bank_inv s"
  shows "wp (claim_tx b pid u (quiet env)) (\<lambda>r s'. case r of Rollback _ \<Rightarrow> True | Commit _ \<Rightarrow> bank_inv s') s"
  unfolding claim_tx_def
proof (rule wp_then_txI [OF loadRedPacketForUpdate_spec], simp)
  fix p s0
  assume "s0 = s \<and> (\<forall>q. Inr p = (Inr q :: gerr + packet_row) \<longrightarrow> q \<in> set (packets s) \<and> rp_id q = pid)"
  then have s0: "s0 = s" and p: "p \<in> set (packets s)" by simp_all
  have pw: "packet_wf s p" by (rule packet_of [OF bank_invD(2) [OF inv] p])
  show "wp (State_Monad.bind (clock (quiet env)) (\<lambda>now.
     if rp_status p = ''expired'' then State_Monad.return (Rollback (Inl ErrRedPacketExpired))
     else if rp_status p \<noteq> ''active'' then State_Monad.return (Rollback (Inl ErrRedPacketFinished))
     else if rp_expires_at p > 0 \<and> rp_expires_at p \<le> now then
       then_tx (refundRedPacketRemainder b (quiet env) p now) (\<lambda>_.
       State_Monad.return (Commit (Inl ErrRedPacketExpired)))
     else if rp_remaining_count p \<le> 0 \<or> rp_remaining_amount p \<le> 0 then
       then_tx (markRedPacketFinished (quiet env) (rp_id p) now) (\<lambda>_.
       State_Monad.return (Commit (Inl ErrRedPacketFinished)))
     else grant_share b p u now (quiet env))) (\<lambda>r s'. case r of Rollback _ \<Rightarrow> True | Commit _ \<Rightarrow> bank_inv s') s0"
    unfolding s0
    apply (rule wp_bindI [where R = "\<lambda>_ s'. s' = s"], rule wp_clock, simp, hypsubst)
    apply (rule wp_if, rule wp_return, simp)
    apply (rule wp_if, rule wp_return, simp)
    apply (rule wp_if)
     apply (rule wp_then_txI [OF refund_keeps [OF inv p]], simp, simp, simp)
     apply (rule wp_return, simp)
    apply (rule wp_if)
    subgoal
      using active_packet [OF pw] open_amount_pos [of p] by auto
    apply (rule wp_grant_share [OF inv p], simp)
    done
qed

lemma wp_refund_tx:
  assumes inv: "bank_inv s"
  shows "wp (refund_tx b pid u (quiet env)) (\<lambda>r s'. case r of Rollback _ \<Rightarrow> True | Commit _ \<Rightarrow> bank_inv s') s"
  unfolding refund_tx_def
proof (rule wp_then_txI [OF loadRedPacketForUpdate_spec], simp)
  fix p s0
  assume "s0 = s \<and> (\<forall>q. Inr p = (Inr q :: gerr + packet_row) \<longrightarrow> q \<in> set (packets s) \<and> rp_id q = pid)"
  then have s0: "s0 = s" and p: "p \<in> set (packets s)" by simp_all
  have act: "rp_status p = ''active''" if "rp_status p \<noteq> ''finished''" "rp_status p \<noteq> ''expired''"
    using packet_of [OF bank_invD(2) [OF inv] p] that by (simp add: packet_wf_def)
  show "wp (if rp_sender p \<noteq> u then State_Monad.return (Rollback (Inl ErrRedPacketNotSender))
     else if rp_status p = ''finished'' then State_Monad.return (Rollback (Inl ErrRedPacketFinished))
     else if rp_status p = ''expired'' then
       then_tx (loadRedPacketRefund (quiet env) (rp_id p) u) (\<lambda>refund.
       State_Monad.return (Rollback (Inr (refund\<lparr>rf_AlreadyDone := True\<rparr>))))
     else State_Monad.bind (clock (quiet env)) (\<lambda>now.
       if rp_expires_at p \<le> 0 \<or> rp_expires_at p > now then State_Monad.return (Rollback (Inl ErrRedPacketNotExpired))
       else then_tx (refundRedPacketRemainder b (quiet env) p now) (\<lambda>refund.
         State_Monad.return (Commit (Inr refund)))))
     (\<lambda>r s'. case r of Rollback _ \<Rightarrow> True | Commit _ \<Rightarrow> bank_inv s') s0"
    unfolding s0
    apply (rule wp_if, rule wp_return, simp)
    apply (rule wp_if, rule wp_return, simp)
    apply (rule wp_if)
     apply (rule wp_then_txI [where R = "\<lambda>_ _. True"], simp, simp, rule wp_return, simp)
    apply (rule wp_bindI [where R = "\<lambda>_ s'. s' = s"], rule wp_clock, simp, hypsubst)
    apply (rule wp_if, rule wp_return, simp)
    apply (rule wp_then_txI [OF refund_keeps [OF inv p act]], assumption, assumption, simp, simp)
    apply (rule wp_return, simp)
    done
qed

lemma keeps_Claim:
  assumes "relies env bank_inv"
  shows "keeps bank_inv (Claim b env pid u)"
proof -
  have tx: "keeps bank_inv (in_tx env (claim_tx b p u))" for p u
    by (rule keeps_in_tx [OF assms]) (rule wp_claim_tx)
  show ?thesis
    unfolding Claim_def Let_def loadClaim_def
    by (intro keeps_if keeps_err keeps_then_ok keeps_case_option keeps_query keeps_ok tx assms)
qed

lemma keeps_RefundExpired:
  assumes "relies env bank_inv"
  shows "keeps bank_inv (RefundExpired b env pid u)"
  unfolding RefundExpired_def Let_def
  by (intro keeps_if keeps_err keeps_in_tx [OF assms]) (rule wp_refund_tx)

lemma recharged_inv: "bank_inv s \<Longrightarrow> recharged p res s s' \<Longrightarrow> bank_inv s'"
  using recharged_books [of s p res s'] packets_wf_cong [of s' s]
  by (auto simp: bank_inv_def recharged_def booked_def)

lemma keeps_recharge: "relies env bank_inv \<Longrightarrow> keeps bank_inv (MockRecharge k b env p)"
  by (rule keeps_MockRecharge) (auto dest: bank_invD recharged_inv)

section \<open>Earlier claims and closed packets\<close>

lemma find_claim:
  assumes "packets_wf s" "c \<in> set (claims s)"
  shows "find (\<lambda>d. rc_packet d = rc_packet c \<and> rc_user d = rc_user c) (claims s) = Some c"
proof -
  have d: "distinct (map (\<lambda>c. (rc_packet c, rc_user c)) (claims s))" using assms(1) by (simp add: packets_wf_def)
  have "find (\<lambda>d. (rc_packet d, rc_user d) = (rc_packet c, rc_user c)) (claims s) = Some c"
    by (rule find_key [OF d assms(2)])
  then show ?thesis by simp
qed

lemma Claim_earlier:
  assumes st: "relies env (\<lambda>s. P s \<and> c \<in> set (claims s) \<and> packets_wf s)"
    and init: "P s" "c \<in> set (claims s)" "packets_wf s" and c: "rc_packet c = trim_space pid" "rc_user c = trim_space u"
  shows "wp (Claim b env pid u) (\<lambda>r s'. P s' \<and> (\<forall>x. r = Inr x \<longrightarrow> x = OldClaim c)) s"
  unfolding Claim_def Let_def
  apply (rule wp_if, rule wp_err, simp add: init)
  apply (rule wp_if, rule wp_err, simp add: init)
  apply (rule wp_then_okI [where R = "\<lambda>r s'. P s' \<and> (\<forall>x. r = Inr x \<longrightarrow> x = Some c)"])
    apply (unfold loadClaim_def)
    apply (rule wp_query_stable [OF st])
      apply (simp add: init)
     apply simp
    apply (use find_claim [of _ c] c in simp)
   apply simp
  apply clarsimp
  apply (rule wp_ok, simp)
  done

lemma find_packet:
  assumes "packets_wf s" "p \<in> set (packets s)" "rp_id p = pid"
  shows "find (\<lambda>p. rp_id p = pid) (packets s) = Some p"
  using find_key [of rp_id "packets s" p] assms by (simp add: packets_wf_def)

lemma load_packet_is:
  assumes "packets_wf s" "p \<in> set (packets s)" "rp_id p = pid"
  shows "wp (loadRedPacketForUpdate (quiet env) pid) (\<lambda>r s'. s' = s \<and> (\<forall>x. r = Inr x \<longrightarrow> x = p)) s"
  unfolding loadRedPacketForUpdate_def
  apply (rule wp_then_okI [where R = "\<lambda>r s'. s' = s \<and> (\<forall>x. r = Inr x \<longrightarrow> x = Some p)"])
    apply (rule wp_query, simp_all add: find_packet [OF assms])
  apply (auto intro!: wp_case_option wp_ok)
  done

lemma closed_claim_tx:
  assumes "packets_wf s" "p \<in> set (packets s)" "rp_id p = pid" "rp_status p \<noteq> ''active''"
  shows "wp (claim_tx b pid u (quiet env)) (\<lambda>r s'. \<exists>e. r = Rollback (Inl e)) s"
  unfolding claim_tx_def
  apply (rule wp_then_txI [OF load_packet_is [OF assms(1-3)]], simp)
  apply (rule wp_bindI [where R = "\<lambda>_ _. True"], rule wp_clock, simp)
  apply (use assms(4) in \<open>auto intro!: wp_return\<close>)
  done

lemma Claim_closed:
  assumes st: "relies env (\<lambda>s. P s \<and> p \<in> set (packets s) \<and> packets_wf s)"
    and init: "P s" "p \<in> set (packets s)" "packets_wf s" and p: "rp_id p = trim_space pid" "rp_status p \<noteq> ''active''"
  shows "wp (Claim b env pid u) (\<lambda>r s'. P s' \<and> (\<forall>c. r \<noteq> Inr (NewClaim c))) s"
proof -
  let ?I = "\<lambda>s. P s \<and> p \<in> set (packets s) \<and> packets_wf s"
  have load: "wp (loadClaim env q v) (\<lambda>_. ?I) s'" if "?I s'" for q v s'
    unfolding loadClaim_def by (rule keeps_wp [OF keeps_query [OF st] that])
  have tx: "wp (in_tx env (claim_tx b (trim_space pid) v)) (\<lambda>r s'. ?I s' \<and> (\<exists>e. r = Inl e)) s'" if "?I s'" for v s'
    apply (rule wp_in_tx_stable [OF st that], simp)
    apply (rule wp_mono [OF closed_claim_tx [OF _ _ p]], simp, simp)
    apply auto
    done
  show ?thesis
    unfolding Claim_def Let_def
    apply (rule wp_if, rule wp_err, simp add: init)
    apply (rule wp_if, rule wp_err, simp add: init)
    apply (rule wp_then_okI [OF load], simp add: init, simp)
    apply (rule wp_case_option)
     apply (rule wp_then_okI [OF tx], simp, simp, simp)
    apply (rule wp_ok, simp)
    done
qed

lemma closed_refund_tx:
  assumes "packets_wf s" "p \<in> set (packets s)" "rp_id p = pid" "rp_status p \<noteq> ''active''" "rp_status p \<in> {''active'', ''finished'', ''expired''}"
  shows "wp (refund_tx b pid u (quiet env)) (\<lambda>r s'. \<exists>x. r = Rollback x \<and> (\<forall>i. x = Inr i \<longrightarrow> rf_AlreadyDone i)) s"
  unfolding refund_tx_def
  apply (rule wp_then_txI [OF load_packet_is [OF assms(1-3)]], simp)
  subgoal for q s0
    apply (rule wp_if, rule wp_return, simp)
    apply (rule wp_if, rule wp_return, simp)
    apply (rule wp_if)
     apply (rule wp_then_txI [where R = "\<lambda>_ _. True"], simp, simp, rule wp_return, simp)
    using assms(4,5) by auto
  done

lemma RefundExpired_closed:
  assumes st: "relies env (\<lambda>s. P s \<and> p \<in> set (packets s) \<and> packets_wf s)"
    and init: "P s" "p \<in> set (packets s)" "packets_wf s" and p: "rp_id p = trim_space pid" "rp_status p \<noteq> ''active''"
  shows "wp (RefundExpired b env pid u) (\<lambda>r s'. P s' \<and> (\<forall>x. r = Inr x \<longrightarrow> rf_AlreadyDone x)) s"
proof -
  have stat: "rp_status p \<in> {''active'', ''finished'', ''expired''}"
    using packet_of [OF init(3,2)] by (simp add: packet_wf_def)
  show ?thesis
    unfolding RefundExpired_def Let_def
    apply (rule wp_if, rule wp_err, simp add: init)
    apply (rule wp_if, rule wp_err, simp add: init)
    apply (rule wp_in_tx_stable [OF st])
      apply (simp add: init)
     apply simp
    apply (rule wp_mono [OF closed_refund_tx [OF _ _ p stat]], simp, simp)
    apply auto
    done
qed

text \<open>What a run unfolds.\<close>

lemmas red_packet_run [exec_defs] =
  defaultRedPacketTTL_def ErrRedPacketInvalid_def ErrRedPacketNotFound_def ErrRedPacketAlreadyClaimed_def
  ErrRedPacketFinished_def ErrRedPacketExpired_def normalizeRedPacketToType_def nextEqualClaimAmount_def
  normalize_create_def create_invalid_def packet_keys_def claim_keys_def create_tx_def Create_def
  loadRedPacketForUpdate_def loadClaim_def grant_share_def claim_tx_def Claim_def loadPacket_def listClaims_def Detail_def

section \<open>Properties\<close>

text \<open>The four operations that move money, and a sequence of them.\<close>

datatype bank_call = Recharging nat recharge_params | Creating create_params | Claiming string string | Refunding string string

fun serve_call :: "bank_cfg \<Rightarrow> bank env \<Rightarrow> bank_call \<Rightarrow> (bank, unit) io" where
  "serve_call b env (Recharging k p) = ignore (MockRecharge k b env p) (State_Monad.return ())"
| "serve_call b env (Creating p) = ignore (Create b env p) (State_Monad.return ())"
| "serve_call b env (Claiming pid u) = ignore (Claim b env pid u) (State_Monad.return ())"
| "serve_call b env (Refunding pid u) = ignore (RefundExpired b env pid u) (State_Monad.return ())"

fun serve :: "bank_cfg \<Rightarrow> bank env \<Rightarrow> bank_call list \<Rightarrow> (bank, unit) io" where
  "serve b env [] = State_Monad.return ()"
| "serve b env (c # cs) = ignore (serve_call b env c) (serve b env cs)"

definition amounts_typed :: "bank_call list \<Rightarrow> bool" where
  "amounts_typed cs \<longleftrightarrow> (\<forall>p. Creating p \<in> set cs \<longrightarrow> in_i64 (cp_TotalAmount p))"

lemma keeps_serve: "relies env bank_inv \<Longrightarrow> amounts_typed cs \<Longrightarrow> keeps bank_inv (serve b env cs)"
proof (induction cs)
  case (Cons c cs)
  have "keeps bank_inv (serve_call b env c)"
    using Cons.prems by (cases c) (auto simp: amounts_typed_def intro!: keeps_ignore keeps_return keeps_recharge keeps_Create
        keeps_Claim keeps_RefundExpired)
  with Cons show ?case by (auto simp: amounts_typed_def intro: keeps_ignore)
qed (simp add: keeps_return)

lemma bank_inv_empty: "bank_inv empty_bank"
  by (simp add: bank_inv_def books_def accounts_wf_def explained_def wealth_def held_def minted_def packets_wf_def empty_bank_def)

text \<open>C23. Money is conserved: whatever sequence of recharges, sent packets, claims and refunds is served, whichever database
  calls fail or lose their reply, and whatever other processes that keep the invariant do in between, the balances and
  the money held by active packets add up to what was recharged, no balance is negative or overflows, every
  balance is the sum of its ledger, and claims and rest of every packet add up to what was sent.\<close>

theorem money_is_conserved:
  assumes "relies env bank_inv" "amounts_typed cs" "bank_inv s"
  shows "wp (serve b env cs) (\<lambda>_ s'. bank_inv s' \<and> wealth s' + held s' = minted s'
     \<and> (\<forall>a\<in>set (accounts s'). 0 \<le> wa_balance a \<and> wa_balance a = ledger_sum (wa_user a) s')) s"
proof (rule wp_mono [OF keeps_wp [OF keeps_serve [OF assms(1,2)] assms(3)]])
  fix s' assume inv: "bank_inv s'"
  have "wa_balance a = ledger_sum (wa_user a) s'" "0 \<le> wa_balance a" if "a \<in> set (accounts s')" for a
  proof -
    have "distinct (map wa_user (accounts s'))" using inv by (simp add: bank_inv_def books_def accounts_wf_def)
    from find_key [OF this that] have "wa_balance a = balance_of (wa_user a) s'" by (simp add: balance_of_def)
    then show "wa_balance a = ledger_sum (wa_user a) s'" using inv by (simp add: bank_inv_def books_def explained_iff)
    show "0 \<le> wa_balance a" using inv that by (simp add: bank_inv_def books_def accounts_wf_def)
  qed
  with inv show "bank_inv s' \<and> wealth s' + held s' = minted s'
     \<and> (\<forall>a\<in>set (accounts s'). 0 \<le> wa_balance a \<and> wa_balance a = ledger_sum (wa_user a) s')"
    by (simp add: bank_inv_def books_def)
qed

definition demo_calls :: "bank_call list" where
  "demo_calls = [Recharging 2 demo_recharge,
     Creating \<lparr>cp_SenderID = ''al'', cp_ConversationID = ''c2c:al:bo'', cp_ToType = ''user'', cp_TotalAmount = 100, cp_TotalCount = 3,
       cp_Greeting = [], cp_ExpiresAt = 0\<rparr>,
     Claiming ''rp-'' ''bo'', Refunding ''rp-'' ''al'']"

theorem money_is_conserved_witness:
  "wp (serve demo_bank (fails_from 20 7) demo_calls) (\<lambda>_ s'. bank_inv s' \<and> wealth s' + held s' = minted s'
     \<and> (\<forall>a\<in>set (accounts s'). 0 \<le> wa_balance a \<and> wa_balance a = ledger_sum (wa_user a) s')) empty_bank"
  by (rule money_is_conserved) (simp_all add: bank_inv_empty amounts_typed_def demo_calls_def in_i64_def)

text \<open>C26. The split is equal and exact: the successive claims of a fresh packet pay the total divided by the count,
  the first of them (as many as the remainder of the division) one unit more, and together exactly the total.\<close>

theorem equal_shares:
  assumes "sized p" "rp_remaining_amount p = rp_total_amount p" "rp_remaining_count p = rp_total_count p"
  shows "pay_out (nat (rp_total_count p)) p =
      replicate (nat (rp_total_amount p mod rp_total_count p)) (rp_total_amount p div rp_total_count p + 1)
      @ replicate (nat (rp_total_count p - rp_total_amount p mod rp_total_count p)) (rp_total_amount p div rp_total_count p)
    \<and> sum_list (pay_out (nat (rp_total_count p)) p) = rp_total_amount p"
proof -
  note sh = sized_shares [OF assms(1)]
  have n: "0 < rp_total_count p" using assms(1) by (simp add: sized_def)
  have "pay_out (nat (rp_total_count p)) p
      = map (\<lambda>i. if int i < int (nat (big_shares p)) then base_share p + 1 else base_share p) [0..<nat (rp_total_count p)]"
    using pay_out_map [of p "nat (rp_total_count p)"] assms n sh(2) open_fresh [OF assms(1,3)] by simp
  also have "\<dots> = replicate (nat (big_shares p)) (base_share p + 1)
      @ replicate (nat (rp_total_count p - big_shares p)) (base_share p)"
    unfolding map_threshold using sh by (simp add: min_def nat_diff_distrib)
  finally have eq: "pay_out (nat (rp_total_count p)) p = \<dots>" .
  have "sum_list (pay_out (nat (rp_total_count p)) p)
      = big_shares p * (base_share p + 1) + (rp_total_count p - big_shares p) * base_share p"
    using sh by (simp add: eq sum_list_replicate)
  also have "\<dots> = rp_total_count p * base_share p + big_shares p" by (simp add: algebra_simps)
  finally have "sum_list (pay_out (nat (rp_total_count p)) p) = rp_total_amount p" using sh(4) by simp
  with eq show ?thesis by (simp add: base_share_def big_shares_def)
qed

definition demo_packet :: packet_row where
  "demo_packet = \<lparr>rp_id = ''rp'', rp_sender = ''al'', rp_conversation = ''c2c:al:bo'', rp_to_type = ''user'', rp_total_amount = 100,
     rp_total_count = 3, rp_remaining_amount = 100, rp_remaining_count = 3, rp_greeting = [], rp_status = ''active'',
     rp_created_at = 1, rp_expires_at = 9, rp_updated_at = 1\<rparr>"

theorem equal_shares_witness: "pay_out 3 demo_packet = [34, 33, 33]"
  using equal_shares [of demo_packet] by (simp add: demo_packet_def sized_def numeral_eq_Suc)

text \<open>C25. A user claims once: after a claim of this user on this packet is in the table, \<open>Claim\<close> keeps every condition on the
  bank that the other processes keep beside it, and its only answer without a failure is that earlier claim.\<close>

theorem claim_once:
  assumes "relies env (\<lambda>s. P s \<and> c \<in> set (claims s) \<and> packets_wf s)" "P s" "c \<in> set (claims s)" "packets_wf s"
    and "rc_packet c = trim_space pid" "rc_user c = trim_space u"
  shows "wp (Claim b env pid u) (\<lambda>r s'. P s' \<and> (\<forall>x. r = Inr x \<longrightarrow> x = OldClaim c)) s"
  using assms by (rule Claim_earlier)

definition demo_claimed :: bank where
  "demo_claimed = empty_bank\<lparr>
     packets := [demo_packet\<lparr>rp_remaining_amount := 66, rp_remaining_count := 2, rp_status := ''expired''\<rparr>],
     claims := [\<lparr>rc_packet = ''rp'', rc_user = ''bo'', rc_amount = 34, rc_created_at = 2\<rparr>]\<rparr>"

lemma demo_claimed_wf: "packets_wf demo_claimed"
  by (simp add: packets_wf_def demo_claimed_def demo_packet_def empty_bank_def packet_wf_def claimed_amounts_def sized_def base_share_def)

lemma demo_claim_trim: "trim_space ''rp'' = ''rp''" "trim_space ''bo'' = ''bo''" "trim_space ''al'' = ''al''"
  by (rule trim_space_graphic, simp add: graphic_def)+

theorem claim_once_witness:
  "wp (Claim demo_bank (calm 5) ''rp'' ''bo'') (\<lambda>r s'. s' = demo_claimed \<and>
     (\<forall>x. r = Inr x \<longrightarrow> x = OldClaim \<lparr>rc_packet = ''rp'', rc_user = ''bo'', rc_amount = 34, rc_created_at = 2\<rparr>)) demo_claimed"
  by (rule claim_once) (simp_all add: demo_claimed_wf demo_claim_trim, simp add: demo_claimed_def)

text \<open>A closed packet pays nothing: for a finished or expired packet, neither a claim nor a refund changes the bank, a claim
  never succeeds anew, and a refund that answers without a failure is marked as done before.\<close>

theorem closed_packet_pays_nothing:
  assumes "relies env (\<lambda>s. P s \<and> p \<in> set (packets s) \<and> packets_wf s)" "P s" "p \<in> set (packets s)" "packets_wf s"
    and "rp_id p = trim_space pid" "rp_status p \<noteq> ''active''"
  shows "wp (Claim b env pid u) (\<lambda>r s'. P s' \<and> (\<forall>c. r \<noteq> Inr (NewClaim c))) s
       \<and> wp (RefundExpired b env pid u) (\<lambda>r s'. P s' \<and> (\<forall>x. r = Inr x \<longrightarrow> rf_AlreadyDone x)) s"
  by (rule conjI [OF Claim_closed [OF assms] RefundExpired_closed [OF assms]])

theorem closed_packet_pays_nothing_witness:
  "wp (Claim demo_bank (calm 5) ''rp'' ''al'') (\<lambda>r s'. s' = demo_claimed \<and> (\<forall>c. r \<noteq> Inr (NewClaim c))) demo_claimed"
  by (rule closed_packet_pays_nothing [where p =
        "demo_packet\<lparr>rp_remaining_amount := 66, rp_remaining_count := 2, rp_status := ''expired''\<rparr>", THEN conjunct1])
     (simp_all add: demo_claimed_wf demo_claim_trim, simp_all add: demo_claimed_def demo_packet_def)

end
