(* ===== verification/Gateway_Payments.thy ===== *)
theory Gateway_Payments
  imports Red_Packet Message_Ids
begin

text \<open>
  The gateway's wallet and red packet operations (cmd/gateway/internal/logic/redpacketlogic.go and
  walletlogic.go): who may send a packet into a conversation, and who may claim or see one.  The user is the
  one the access token names.  The lemmas show that somebody outside the conversation of a packet gets
  nothing from it; the last section shows a packet put into the conversation of another group.
  Metrics are not modelled.
\<close>

section \<open>Conversations as the gateway names them\<close>

definition normalizeToType :: "string \<Rightarrow> string \<Rightarrow> string" where
  "normalizeToType toType targetID =
     (let t = to_lower (trim_space toType) in
      if t \<noteq> [] then t else if has_prefix targetID ''G'' then ''group'' else ''user'')"

definition buildGatewayConversationID :: "string \<Rightarrow> string \<Rightarrow> string \<Rightarrow> string" where
  "buildGatewayConversationID uid targetID toType =
     (if uid = [] \<or> targetID = [] then []
      else if normalizeToType toType targetID = ''group'' then ''group:'' @ targetID
      else if targetID < uid then ''c2c:'' @ targetID @ '':'' @ uid else ''c2c:'' @ uid @ '':'' @ targetID)"

section \<open>Relations\<close>

text \<open>A failing query leaves the status empty, so it is answered like a missing row.\<close>

definition validateNormalFriend :: "bank env \<Rightarrow> string \<Rightarrow> string \<Rightarrow> (bank, gerr + unit) io" where
  "validateNormalFriend env uid friendID =
     State_Monad.bind (query env (\<lambda>s. find (\<lambda>r. fr_user r = uid \<and> fr_friend r = friendID) (friend_rows s))) (\<lambda>res.
       case res of Inr (Some r) \<Rightarrow>
           if fr_status r = ''normal'' then ok () else err (Msg ''target user is not a normal friend'')
       | _ \<Rightarrow> err (Msg ''target user is not a normal friend''))"

definition loadGroupMembership :: "bank env \<Rightarrow> string \<Rightarrow> string \<Rightarrow> (bank, gerr + (string \<times> int) option) io" where
  "loadGroupMembership env uid groupID =
     query env (\<lambda>s. map_option (\<lambda>r. (gm_status r, gm_mute_until r))
       (find (\<lambda>r. gm_group r = groupID \<and> gm_user r = uid) (member_rows s)))"

definition validateActiveGroupMember :: "bank env \<Rightarrow> string \<Rightarrow> string \<Rightarrow> (bank, gerr + unit) io" where
  "validateActiveGroupMember env uid groupID =
     then_ok (loadGroupMembership env uid groupID) (\<lambda>row. case row of
       None \<Rightarrow> err (Msg ''user is not an active group member'')
     | Some (status, _) \<Rightarrow>
         if status \<noteq> ''active'' then err (Msg ''user is not an active group member'') else ok ())"

definition validateGroupSendPermission :: "bank env \<Rightarrow> string \<Rightarrow> string \<Rightarrow> (bank, gerr + unit) io" where
  "validateGroupSendPermission env uid groupID =
     then_ok (loadGroupMembership env uid groupID) (\<lambda>row. case row of
       None \<Rightarrow> err (Msg ''user is not an active group member'')
     | Some (status, muteUntil) \<Rightarrow>
         if status \<noteq> ''active'' then err (Msg ''user is not an active group member'')
         else State_Monad.bind (clock env) (\<lambda>now.
           if muteUntil > now then err (Msg ''user is muted and cannot create a group red packet'') else ok ()))"

definition validateConversationAccess :: "bank env \<Rightarrow> string \<Rightarrow> string \<Rightarrow> string \<Rightarrow> string \<Rightarrow> (bank, gerr + unit) io" where
  "validateConversationAccess env uid targetID toType conversationID =
     (if toType = ''group'' then validateGroupSendPermission env uid targetID
      else if uid = targetID then err (Msg ''cannot send red packet to yourself'')
      else if buildGatewayConversationID uid targetID ''user'' \<noteq> conversationID
        then err (Msg ''conversation_id does not match target_id'')
      else validateNormalFriend env uid targetID)"

definition validatePacketParticipant :: "bank env \<Rightarrow> string \<Rightarrow> packet_row \<Rightarrow> (bank, gerr + unit) io" where
  "validatePacketParticipant env uid packet =
     (if rp_to_type packet = ''group'' then
        let groupID = trim_prefix (rp_conversation packet) ''group:'' in
        if groupID = [] then err (Msg ''invalid group conversation'')
        else validateActiveGroupMember env uid groupID
      else let parts = split_on (CHR '':'') (rp_conversation packet) in
        if length parts \<noteq> 3 \<or> parts ! 0 \<noteq> ''c2c'' then err (Msg ''invalid user conversation'')
        else if parts ! 1 \<noteq> uid \<and> parts ! 2 \<noteq> uid then err (Msg ''user is not in red packet conversation'')
        else ok ())"

section \<open>Red packets\<close>

record packet_req =
  cq_TargetID :: string
  cq_ConversationID :: string
  cq_ToType :: string
  cq_TotalAmount :: int
  cq_TotalCount :: int
  cq_Greeting :: string
  cq_ExpiresAt :: int

text \<open>The type, the target and the conversation a request stands for.\<close>

definition packet_address :: "string \<Rightarrow> packet_req \<Rightarrow> string \<times> string \<times> string" where
  "packet_address uid req =
     (let targetID = trim_space (cq_TargetID req);
          toType = normalizeToType (cq_ToType req) targetID;
          given = trim_space (cq_ConversationID req)
      in (toType, targetID, if given = [] then buildGatewayConversationID uid targetID toType else given))"

definition CreatePacket :: "bank_cfg \<Rightarrow> bank env \<Rightarrow> string \<Rightarrow> packet_req \<Rightarrow> (bank, gerr + packet_row) io" where
  "CreatePacket b env senderID req =
     (if \<not> bank_db b then err (Msg ''database is required'')
      else case packet_address senderID req of (toType, targetID, conversationID) \<Rightarrow>
        if senderID = [] \<or> targetID = [] \<or> conversationID = [] then err (Msg ''target_id is required'')
        else then_ok (validateConversationAccess env senderID targetID toType conversationID) (\<lambda>_.
          Create b env \<lparr>cp_SenderID = senderID, cp_ConversationID = conversationID, cp_ToType = toType,
            cp_TotalAmount = cq_TotalAmount req, cp_TotalCount = cq_TotalCount req, cp_Greeting = cq_Greeting req,
            cp_ExpiresAt = cq_ExpiresAt req\<rparr>))"

record claim_resp =
  cr_RedPacketID :: string
  cr_UserID :: string
  cr_Amount :: int
  cr_CreatedAt :: int
  cr_AlreadyClaimed :: bool
  cr_Status :: string

definition claim_response :: "claim_answer \<Rightarrow> claim_resp" where
  "claim_response a =
     (case a of
        OldClaim c \<Rightarrow> \<lparr>cr_RedPacketID = rc_packet c, cr_UserID = rc_user c, cr_Amount = rc_amount c,
          cr_CreatedAt = rc_created_at c, cr_AlreadyClaimed = True, cr_Status = ''already_claimed''\<rparr>
      | NewClaim c \<Rightarrow> \<lparr>cr_RedPacketID = rc_packet c, cr_UserID = rc_user c, cr_Amount = rc_amount c,
          cr_CreatedAt = rc_created_at c, cr_AlreadyClaimed = False, cr_Status = ''claimed''\<rparr>)"

definition ClaimPacket :: "bank_cfg \<Rightarrow> bank env \<Rightarrow> string \<Rightarrow> string \<Rightarrow> (bank, gerr + claim_resp) io" where
  "ClaimPacket b env userID redPacketID =
     (if \<not> bank_db b then err (Msg ''database is required'')
      else let packetID = trim_space redPacketID in
      if userID = [] \<or> packetID = [] then err (Msg ''red_packet_id is required'')
      else then_ok (Detail b env packetID userID) (\<lambda>detail.
        then_ok (validatePacketParticipant env userID (pd_Packet detail)) (\<lambda>_.
        then_ok (Claim b env packetID userID) (\<lambda>a. ok (claim_response a)))))"

definition PacketDetail :: "bank_cfg \<Rightarrow> bank env \<Rightarrow> string \<Rightarrow> string \<Rightarrow> (bank, gerr + packet_detail) io" where
  "PacketDetail b env userID redPacketID =
     (if \<not> bank_db b then err (Msg ''database is required'')
      else then_ok (Detail b env redPacketID userID) (\<lambda>detail.
        then_ok (validatePacketParticipant env userID (pd_Packet detail)) (\<lambda>_. ok detail)))"

definition RefundPacket :: "bank_cfg \<Rightarrow> bank env \<Rightarrow> string \<Rightarrow> string \<Rightarrow> (bank, gerr + refund_info) io" where
  "RefundPacket b env senderID redPacketID =
     (if \<not> bank_db b then err (Msg ''database is required'')
      else let packetID = trim_space redPacketID in
      if senderID = [] \<or> packetID = [] then err (Msg ''red_packet_id is required'')
      else RefundExpired b env packetID senderID)"

section \<open>The wallet\<close>

definition WalletDetail :: "bank_cfg \<Rightarrow> bank env \<Rightarrow> string \<Rightarrow> (bank, gerr + wallet_info \<times> ledger_row list) io" where
  "WalletDetail b env userID = (if \<not> bank_db b then err (Msg ''database is required'') else Get b env userID)"

definition WalletRecharge :: "nat \<Rightarrow> bank_cfg \<Rightarrow> bank env \<Rightarrow> string \<Rightarrow> recharge_params \<Rightarrow> (bank, (gerr + recharge_result) option) io" where
  "WalletRecharge fuel b env userID req =
     (if \<not> bank_db b then State_Monad.return (Some (Inl (Msg ''database is required'')))
      else MockRecharge fuel b env (req\<lparr>rq_UserID := userID, rq_RequestID := trim_space (rq_RequestID req),
             rq_Channel := trim_space (rq_Channel req)\<rparr>))"

section \<open>Outsiders\<close>

text \<open>Whom a conversation of type \<open>tt\<close> does not include.\<close>

definition outsider :: "string \<Rightarrow> string \<Rightarrow> string \<Rightarrow> bank \<Rightarrow> bool" where
  "outsider u tt conv s \<longleftrightarrow>
     (if tt = ''group''
      then \<forall>r\<in>set (member_rows s). gm_group r = trim_prefix conv ''group:'' \<and> gm_user r = u \<longrightarrow> gm_status r \<noteq> ''active''
      else \<forall>v. conv \<noteq> ''c2c:'' @ u @ '':'' @ v \<and> conv \<noteq> ''c2c:'' @ v @ '':'' @ u)"

definition barred_from :: "string \<Rightarrow> string \<Rightarrow> string \<Rightarrow> string \<Rightarrow> bank \<Rightarrow> bool" where
  "barred_from u pid tt conv s \<longleftrightarrow> outsider u tt conv s
     \<and> (\<forall>p\<in>set (packets s). rp_id p = pid \<longrightarrow> rp_to_type p = tt \<and> rp_conversation p = conv)"

lemma participant_refused:
  assumes "relies env I" "I s" and out: "\<And>s. I s \<Longrightarrow> outsider u (rp_to_type p) (rp_conversation p) s"
  shows "wp (validatePacketParticipant env u p) (\<lambda>r s. I s \<and> isl r) s"
proof -
  have parts: "\<exists>v. rp_conversation p = ''c2c:'' @ u @ '':'' @ v \<or> rp_conversation p = ''c2c:'' @ v @ '':'' @ u"
    if l: "length (split_on (CHR '':'') (rp_conversation p)) = 3" "split_on (CHR '':'') (rp_conversation p) ! 0 = ''c2c''"
      and m: "split_on (CHR '':'') (rp_conversation p) ! 1 = u \<or> split_on (CHR '':'') (rp_conversation p) ! 2 = u"
  proof -
    from l(1) obtain x y z where xyz: "split_on (CHR '':'') (rp_conversation p) = [x, y, z]"
      by (auto simp: numeral_3_eq_3 length_Suc_conv)
    with l(2) m split_on_three [OF this] show ?thesis by auto
  qed
  have member: "wp (validateActiveGroupMember env u (trim_prefix (rp_conversation p) ''group:'')) (\<lambda>r s. I s \<and> isl r) s"
    if g: "rp_to_type p = ''group''"
    unfolding validateActiveGroupMember_def loadGroupMembership_def
  proof (rule wp_then_okI [where R = "\<lambda>r s. I s \<and> (\<forall>st m. r = Inr (Some (st, m)) \<longrightarrow> st \<noteq> ''active'')"])
    show "wp (query env (\<lambda>s. map_option (\<lambda>r. (gm_status r, gm_mute_until r))
        (find (\<lambda>r. gm_group r = trim_prefix (rp_conversation p) ''group:'' \<and> gm_user r = u) (member_rows s))))
      (\<lambda>r s. I s \<and> (\<forall>st m. r = Inr (Some (st, m)) \<longrightarrow> st \<noteq> ''active'')) s"
      by (rule wp_query_stable [OF assms(1,2)]) (use out g in \<open>auto simp: outsider_def dest!: find_Some_iff_in\<close>)
  qed (auto split: option.splits intro!: wp_case_option wp_case_prod wp_if wp_err wp_ok)
  show ?thesis
    unfolding validatePacketParticipant_def Let_def
    by (use parts member out [OF assms(2)] assms(2) in \<open>auto intro!: wp_if wp_err wp_ok simp: outsider_def\<close>)
qed

lemma detail_barred:
  assumes "relies env (\<lambda>s. P s \<and> barred_from u pid tt conv s)" "P s \<and> barred_from u pid tt conv s" "trim_space raw = pid"
  shows "wp (Detail b env raw u) (\<lambda>r s. (P s \<and> barred_from u pid tt conv s)
           \<and> (\<forall>d. r = Inr d \<longrightarrow> rp_to_type (pd_Packet d) = tt \<and> rp_conversation (pd_Packet d) = conv)) s"
proof -
  let ?I = "\<lambda>s. P s \<and> barred_from u pid tt conv s"
  have load: "wp (loadPacket env pid) (\<lambda>r s. ?I s \<and> (\<forall>p. r = Inr p \<longrightarrow> rp_to_type p = tt \<and> rp_conversation p = conv)) s"
    unfolding loadPacket_def
    apply (rule wp_then_okI [where R = "\<lambda>r s. ?I s \<and> (\<forall>p. r = Inr (Some p) \<longrightarrow> rp_to_type p = tt \<and> rp_conversation p = conv)"])
      apply (rule wp_query_stable [OF assms(1,2)], simp)
      apply (auto simp: barred_from_def dest!: find_Some_iff_in) [1]
     apply simp
    apply (auto intro!: wp_case_option wp_err wp_ok)
    done
  show ?thesis
    unfolding Detail_def Let_def assms(3)
    apply (rule wp_if, rule wp_err, rule conjI, rule assms(2), simp)
    apply (rule wp_if, rule wp_err, rule conjI, rule assms(2), simp)
    apply (rule wp_then_okI [OF load], simp)
    subgoal for p s1
      apply (rule wp_then_okI [where R = "\<lambda>_. ?I"])
        apply (unfold listClaims_def)
        apply (rule keeps_wp [OF keeps_query [OF assms(1)]], simp)
       apply simp
      apply (rule wp_ok, simp)
      done
    done
qed

section \<open>Properties\<close>

text \<open>C24. Whoever is not in the conversation of a packet gets nothing from it: for a user who is no active member of the
  packet's group, or whom its one-to-one conversation does not name, claiming the packet and looking at it through the
  gateway are refused whatever calls fail, and change nothing the other processes keep.\<close>

theorem outsiders_get_nothing:
  assumes "relies env (\<lambda>s. P s \<and> barred_from u (trim_space pid) tt conv s)" "P s \<and> barred_from u (trim_space pid) tt conv s"
  shows "wp (ClaimPacket b env u pid) (\<lambda>r s. P s \<and> isl r) s \<and> wp (PacketDetail b env u pid) (\<lambda>r s. P s \<and> isl r) s"
proof -
  let ?I = "\<lambda>s. P s \<and> barred_from u (trim_space pid) tt conv s"
  have refused: "wp (validatePacketParticipant env u p) (\<lambda>r s. ?I s \<and> isl r) s"
    if "?I s" "rp_to_type p = tt" "rp_conversation p = conv" for p s
    by (rule participant_refused [OF assms(1) that(1)]) (simp add: that barred_from_def)
  have "wp (ClaimPacket b env u pid) (\<lambda>r s. P s \<and> isl r) s"
    unfolding ClaimPacket_def Let_def
    apply (rule wp_if, rule wp_err, simp add: assms(2))
    apply (rule wp_if, rule wp_err, simp add: assms(2))
    apply (rule wp_then_okI [OF detail_barred [OF assms trim_space_idem]], simp)
    apply (rule wp_then_okI [OF refused], simp_all)
    done
  moreover have "wp (PacketDetail b env u pid) (\<lambda>r s. P s \<and> isl r) s"
    unfolding PacketDetail_def
    apply (rule wp_if, rule wp_err, simp add: assms(2))
    apply (rule wp_then_okI [OF detail_barred [OF assms refl]], simp)
    apply (rule wp_then_okI [OF refused], simp_all)
    done
  ultimately show ?thesis by simp
qed

theorem outsiders_get_nothing_witness:
  "wp (ClaimPacket demo_bank (calm 5) ''cy'' ''rp'') (\<lambda>r s. s = demo_claimed \<and> isl r) demo_claimed"
proof -
  have "barred_from ''cy'' (trim_space ''rp'') ''user'' ''c2c:al:bo'' demo_claimed"
    by (auto simp: barred_from_def outsider_def demo_claimed_def demo_packet_def append_eq_Cons_conv)
  then show ?thesis
    by (intro outsiders_get_nothing [where P = "\<lambda>s. s = demo_claimed" and tt = "''user''" and conv = "''c2c:al:bo''", THEN conjunct1])
       simp_all
qed

text \<open>What a run unfolds.\<close>

lemmas gateway_payments_run [exec_defs] =
  normalizeToType_def buildGatewayConversationID_def validateNormalFriend_def loadGroupMembership_def
  validateActiveGroupMember_def validateGroupSendPermission_def validateConversationAccess_def
  validatePacketParticipant_def packet_address_def CreatePacket_def claim_response_def ClaimPacket_def

text \<open>Two groups with one member each; the member of the first has money.\<close>

definition demo_groups :: bank where
  "demo_groups = empty_bank\<lparr>
     member_rows := [\<lparr>gm_group = ''g1'', gm_user = ''al'', gm_role = ''member'', gm_mute_until = 0, gm_status = ''active'', gm_joined_at = 1\<rparr>,
                     \<lparr>gm_group = ''g2'', gm_user = ''cy'', gm_role = ''member'', gm_mute_until = 0, gm_status = ''active'', gm_joined_at = 1\<rparr>],
     accounts := [\<lparr>wa_user = ''al'', wa_balance = 50, wa_updated_at = 1\<rparr>]\<rparr>"

definition demo_stray :: packet_req where
  "demo_stray = \<lparr>cq_TargetID = ''g1'', cq_ConversationID = ''group:g2'', cq_ToType = ''group'', cq_TotalAmount = 10,
     cq_TotalCount = 1, cq_Greeting = [], cq_ExpiresAt = 9\<rparr>"

lemma demo_stray_text:
  "trim_space ''g1'' = ''g1''" "trim_space ''group:g2'' = ''group:g2''" "trim_space ''group'' = ''group''" "trim_space ''cy'' = ''cy''"
  "trim_space ''al'' = ''al''" "trim_space [] = []" "trim_space ''rp-xxx'' = ''rp-xxx''" "to_lower ''group'' = ''group''"
  by (simp_all add: trim_space_graphic graphic_def to_lower_ascii lower_char_def del: to_lower.simps)

text \<open>The conversation of a group packet is not checked against the group: a member of group \<open>g1\<close> only, who names \<open>g1\<close> as the
  target and the conversation of group \<open>g2\<close>, has a packet created in the conversation of \<open>g2\<close>, and a member of \<open>g2\<close>
  is paid from it.\<close>

theorem group_conversation_is_unchecked:
  "case run_state (CreatePacket demo_bank (calm 5) ''al'' demo_stray) (0, demo_groups) of (r, n, s) \<Rightarrow>
     (\<exists>p. r = Inr p \<and> rp_sender p = ''al'' \<and> rp_to_type p = ''group'' \<and> rp_conversation p = ''group:g2'' \<and>
       (\<exists>c. fst (run_state (ClaimPacket demo_bank (calm 6) ''cy'' (rp_id p)) (n, s)) = Inr c \<and> cr_Amount c = 10))"
  by (simp add: exec_defs run_calls demo_stray_def demo_groups_def empty_bank_def demo_stray_text demo_bank_def
      ins_def clash_def upd_def upsert_def affected_def i64_def cong: lazy_cong del: to_lower.simps)

end
