(* ===== verification/Task_Notifications.thy ===== *)
theory Task_Notifications
  imports Push_Safety Learning_Task
begin

text \<open>
  The bridge from the learning tasks to the messages: internal/logic/task_notifications.go.  A worker claims a
  row of the notification outbox, publishes the event it names as a message of the reserved account, through
  the same tables and outboxes as a user's message, and settles the row while its claim is the latest.  The lemmas show
  that the row is a fenced lease and that a notice reported done is exactly one durable message.
\<close>

section \<open>Notices\<close>

definition taskSystemUserID :: string where "taskSystemUserID = ''9002''"
definition taskNotificationLease :: int where "taskNotificationLease = 30000"
definition taskNotificationAttempts :: int where "taskNotificationAttempts = 10"

definition errTaskNotificationSkipped :: gerr where
  "errTaskNotificationSkipped = Msg ''task notification target is no longer active''"

record taskNotice =
  nt_ID :: int
  nt_EventID :: string
  nt_TargetType :: string
  nt_TargetID :: string
  nt_Attempts :: int

definition notice_of_row :: "notice_row \<Rightarrow> taskNotice" where
  "notice_of_row r = \<lparr>nt_ID = tn_ID r, nt_EventID = tn_EventID r, nt_TargetType = tn_TargetType r,
     nt_TargetID = tn_TargetID r, nt_Attempts = tn_Attempts r\<rparr>"

definition taskNotificationDelay :: "int \<Rightarrow> int" where
  "taskNotificationDelay attempt =
     (let a = (if attempt < 1 then 1 else attempt); a = (if a > 5 then 5 else a) in 2 ^ nat (a - 1) * 1000)"

section \<open>Publishing an event as a message\<close>

text \<open>
  The literals in UTF-8: the tag of a learning task and the full-width colon of the body; published, new
  submission, closed, approved, returned.
\<close>

definition notice_tag :: string where
  "notice_tag = bytes [91, 229, 173, 166, 228, 185, 160, 228, 187, 187, 229, 138, 161, 93, 32]"

definition notice_colon :: string where "notice_colon = bytes [239, 188, 154]"
definition verb_publish :: string where "verb_publish = bytes [229, 183, 178, 229, 143, 145, 229, 184, 131]"
definition verb_submit :: string where "verb_submit = bytes [230, 156, 137, 230, 150, 176, 230, 143, 144, 228, 186, 164]"
definition verb_close :: string where "verb_close = bytes [229, 183, 178, 229, 133, 179, 233, 151, 173]"
definition verb_approved :: string where "verb_approved = bytes [229, 174, 161, 230, 160, 184, 233, 128, 154, 232, 191, 135]"
definition verb_returned :: string where "verb_returned = bytes [229, 174, 161, 230, 160, 184, 233, 128, 128, 229, 155, 158]"

text \<open>The field \<open>status\<close> of a stored result.\<close>

fun result_status :: "task_result \<Rightarrow> string" where
  "result_status (TaskResult t) = tk_Status t"
| "result_status (SubResult b) = sb_Status b"

definition taskNoticeVerb :: "string \<Rightarrow> task_result \<Rightarrow> gerr + string" where
  "taskNoticeVerb action result =
     (if action = ''publish'' then Inr verb_publish
      else if action = ''submit'' then Inr verb_submit
      else if action = ''close'' then Inr verb_close
      else if action = ''review'' \<and> result_status result = ''approved'' then Inr verb_approved
      else if action = ''review'' \<and> result_status result = ''returned'' then Inr verb_returned
      else Inl (Msg ''unsupported task notification action or review status''))"

text \<open>The row is found by its primary key; an event has one task.\<close>

definition find_notice_event :: "taskNotice \<Rightarrow> tdb \<Rightarrow> (task_event \<times> task_row) option" where
  "find_notice_event n s =
     (case find (\<lambda>o'. tn_ID o' = nt_ID n \<and> tn_TargetType o' = nt_TargetType n \<and> tn_TargetID o' = nt_TargetID n) (notices s) of
        None \<Rightarrow> None
      | Some o' \<Rightarrow> (case find (\<lambda>e. te_ID e = tn_EventID o') (task_events s) of
          None \<Rightarrow> None
        | Some e \<Rightarrow> map_option (Pair e) (find (\<lambda>t. tk_ID t = te_TaskID e) (tasks s))))"

definition notice_client_id :: "taskNotice \<Rightarrow> string" where
  "notice_client_id n = ''task_event:'' @ nt_EventID n @ '':'' @ nt_TargetID n"

definition notice_body :: "string \<Rightarrow> task_row \<Rightarrow> string" where
  "notice_body verb t = notice_tag @ verb @ notice_colon @ trim_space (tk_Title t) @ '' task://'' @ tk_ID t"

definition notice_frame :: "taskNotice \<Rightarrow> string \<Rightarrow> int \<Rightarrow> wire" where
  "notice_frame n body now = empty_wire\<lparr>From := taskSystemUserID, To := nt_TargetID n, ToType := nt_TargetType n,
     Body := body, ClientMsgId := notice_client_id n, MsgType := NORMAL, SentAt := now,
     SessionId := buildSessionID taskSystemUserID (nt_TargetID n) (nt_TargetType n)\<rparr>"

text \<open>The notifier's account must be the reserved one, and disabled.\<close>

definition check_notifier :: "tdb env \<Rightarrow> (tdb, gerr + unit) io" where
  "check_notifier env =
     State_Monad.bind (query env (\<lambda>s. find (\<lambda>u. us_ID u = taskSystemUserID) (users s))) (\<lambda>r.
       let wrap = (\<lambda>e. err (Wrapped e (''task notifier account is unavailable: '' @ err_text e))) in
       case r of Inl e \<Rightarrow> wrap e
       | Inr None \<Rightarrow> wrap ErrNoRows
       | Inr (Some u) \<Rightarrow>
           if us_Username u \<noteq> ''task_notifier'' \<or> us_Status u \<noteq> 0
           then err (Msg ''task notifier account is not reserved and disabled'') else ok ())"

text \<open>The target must still be active: the group, and for a user the membership.\<close>

definition check_target :: "cfg \<Rightarrow> tdb env \<Rightarrow> taskNotice \<Rightarrow> string \<Rightarrow> (tdb, gerr + unit) io" where
  "check_target h env n groupID =
     (if nt_TargetType n \<noteq> ''group'' \<and> nt_TargetType n \<noteq> ''user'' then err (Msg ''invalid notification target type'')
      else if nt_TargetType n = ''group'' \<and> nt_TargetID n \<noteq> groupID then err (Msg ''notification group mismatch'')
      else then_ok (query env (\<lambda>s. find (\<lambda>g. gr_id g = groupID) (group_rows s))) (\<lambda>row.
        case row of None \<Rightarrow> err ErrNoRows
        | Some g \<Rightarrow>
          if gr_status g \<noteq> ''active'' then err errTaskNotificationSkipped
          else if nt_TargetType n = ''user'' then
            then_ok (isCurrentGroupMember (has_db h) env groupID (nt_TargetID n)) (\<lambda>allowed.
              if \<not> allowed then err errTaskNotificationSkipped else ok ())
          else ok ()))"

text \<open>From the check for an earlier attempt's message on: numbering, recipients, storing, first dispatch.\<close>

definition publish_notice :: "cfg \<Rightarrow> tdb env \<Rightarrow> taskNotice \<Rightarrow> task_event \<Rightarrow> task_row \<Rightarrow> (tdb, gerr + string) io" where
  "publish_notice h env n e t =
     then_ok (loadMessageByClientMsgID h env taskSystemUserID (notice_client_id n)) (\<lambda>existing.
     case existing of Some m \<Rightarrow> ok (MessageId m)
     | None \<Rightarrow>
       case taskNoticeVerb (te_Action e) (te_Result e) of Inl x \<Rightarrow> err x
       | Inr verb \<Rightarrow>
         State_Monad.bind (clock env) (\<lambda>now.
         let frame = notice_frame n (notice_body verb t) now in
         then_ok (nextSequence h env (SessionId frame)) (\<lambda>seq.
         let frame = frame\<lparr>SeqNo := seq, MessageId := SessionId frame @ ''-'' @ itoa seq\<rparr> in
         then_ok (if nt_TargetType n = ''group'' then loadGroupRecipientsFromDB env (nt_TargetID n) taskSystemUserID
                  else ok [nt_TargetID n]) (\<lambda>recipients.
         then_ok (saveMessageWithOutbox h env frame recipients) (\<lambda>saved.
         case saved of None \<Rightarrow> err (Msg ''required IM outbox schema is missing'')
         | Some (_, frame) \<Rightarrow>
             ignore (ProcessDeliveryOutboxMessage h env (MessageId frame)) (ok (MessageId frame)))))))"

definition publishTaskEventMessage :: "cfg \<Rightarrow> tdb env \<Rightarrow> taskNotice \<Rightarrow> (tdb, gerr + string) io" where
  "publishTaskEventMessage h env n =
     (if \<not> has_rdb h \<or> \<not> ConversationOutbox h \<or> \<not> DeliveryOutbox h then err (Msg ''durable IM message pipeline is unavailable'')
      else then_ok (check_notifier env) (\<lambda>_.
        then_ok (query env (find_notice_event n)) (\<lambda>row. case row of
          None \<Rightarrow> err ErrNoRows
        | Some (e, t) \<Rightarrow> then_ok (check_target h env n (tk_GroupID t)) (\<lambda>_. publish_notice h env n e t))))"

section \<open>Claiming and settling\<close>

definition tn_due :: "int \<Rightarrow> notice_row \<Rightarrow> bool" where
  "tn_due now r \<longleftrightarrow> (tn_Status r = Pending \<or> tn_Status r = Processing) \<and> tn_AvailableAt r \<le> now"

definition claim_notice :: "int \<Rightarrow> notice_row \<Rightarrow> notice_row" where
  "claim_notice now r = r\<lparr>tn_Status := Processing, tn_Attempts := tn_Attempts r + 1,
     tn_AvailableAt := now + taskNotificationLease, tn_UpdatedAt := now\<rparr>"

definition owned_notice :: "int \<Rightarrow> notice_row \<Rightarrow> bool" where
  "owned_notice generation r \<longleftrightarrow> tn_Status r = Processing \<and> tn_Attempts r = generation"

definition finish_notice :: "ob_status \<Rightarrow> int \<Rightarrow> string option \<Rightarrow> string \<Rightarrow> int \<Rightarrow> notice_row \<Rightarrow> notice_row" where
  "finish_notice status at mid e now r =
     r\<lparr>tn_Status := status, tn_AvailableAt := at, tn_MessageID := mid, tn_LastError := e, tn_UpdatedAt := now\<rparr>"

text \<open>
  The status a publication leads to, the delay before the next attempt (if any), the message id and the error
  text: done, skipped, or failed and then dead at the last attempt.
\<close>

definition notice_outcome :: "int \<Rightarrow> gerr + string \<Rightarrow> ob_status \<times> int \<times> string option \<times> string" where
  "notice_outcome generation answer = (case answer of
     Inr mid \<Rightarrow> (Finished, 0, (if mid = [] then None else Some mid), [])
   | Inl e \<Rightarrow>
       if e = errTaskNotificationSkipped then (Skipped, 0, None, take 512 (err_text e))
       else if taskNotificationAttempts \<le> generation then (Dead, 0, None, take 512 (err_text e))
       else (Pending, taskNotificationDelay generation, None, take 512 (err_text e)))"

text \<open>
  The clock is read for \<open>nextAt\<close>, once more when a retry is scheduled, and for \<open>updated_at\<close>.
\<close>

definition settle_notice :: "tdb env \<Rightarrow> taskNotice \<Rightarrow> int \<Rightarrow> gerr + string \<Rightarrow> (tdb, gerr + bool) io" where
  "settle_notice env n generation answer =
     (case notice_outcome generation answer of (status, delay, mid, e) \<Rightarrow>
      State_Monad.bind (clock env) (\<lambda>t1.
      State_Monad.bind (if status = Pending then clock env else State_Monad.return t1) (\<lambda>t2.
      State_Monad.bind (clock env) (\<lambda>t3.
      then_ok (exec env (run_update notices notices_update (\<lambda>r. tn_ID r = nt_ID n \<and> owned_notice generation r)
          (finish_notice status (t2 + delay) mid e t3))) (\<lambda>updated.
      if updated = 0 then err (Msg ''task notification lease was lost'') else ok (status = Finished))))))"

definition processTaskNotification :: "cfg \<Rightarrow> tdb env \<Rightarrow> taskNotice \<Rightarrow> (tdb, gerr + bool) io" where
  "processTaskNotification h env n =
     State_Monad.bind (clock env) (\<lambda>now.
     then_ok (exec env (run_update notices notices_update (\<lambda>r. tn_ID r = nt_ID n \<and> tn_due now r) (claim_notice now))) (\<lambda>claimed.
     if claimed = 0 then ok False
     else State_Monad.bind (publishTaskEventMessage h env n) (settle_notice env n (nt_Attempts n + 1))))"

fun process_notices :: "cfg \<Rightarrow> tdb env \<Rightarrow> taskNotice list \<Rightarrow> int \<Rightarrow> (tdb, int \<times> (gerr + unit)) io" where
  "process_notices h env [] processed = State_Monad.return (processed, Inr ())"
| "process_notices h env (n # ns) processed =
     State_Monad.bind (processTaskNotification h env n) (\<lambda>res. case res of
        Inl e \<Rightarrow> State_Monad.return (processed, Inl e)
      | Inr okay \<Rightarrow> process_notices h env ns (if okay then processed + 1 else processed))"

definition ProcessTaskNotifications :: "cfg \<Rightarrow> tdb env \<Rightarrow> int \<Rightarrow> (tdb, int \<times> (gerr + unit)) io" where
  "ProcessTaskNotifications h env limit =
     (if \<not> has_db h then State_Monad.return (0, Inr ())
      else let limit = (if limit \<le> 0 \<or> limit > 100 then 50 else limit) in
        State_Monad.bind (clock env) (\<lambda>now.
        State_Monad.bind (query env (\<lambda>s. map notice_of_row (take (nat limit) (order_asc tn_ID (filter (tn_due now) (notices s))))))
          (\<lambda>res. case res of Inl e \<Rightarrow> State_Monad.return (0, Inl e) | Inr ns \<Rightarrow> process_notices h env ns 0)))"

section \<open>The row of a notice is a fenced lease\<close>

definition claim_notice_if_due :: "int \<Rightarrow> notice_row \<Rightarrow> notice_row" where
  "claim_notice_if_due now r = (if tn_due now r then claim_notice now r else r)"

text \<open>A settlement: what the publication answered and the times read.\<close>

definition settle_notice_row :: "int \<Rightarrow> (gerr + string) \<times> int \<times> int \<Rightarrow> notice_row \<Rightarrow> notice_row" where
  "settle_notice_row g x r = (if owned_notice g r then (case x of (answer, at, now) \<Rightarrow>
     case notice_outcome g answer of (status, delay, mid, e) \<Rightarrow> finish_notice status (at + delay) mid e now r) else r)"

lemma notice_outcome_settles: "fst (notice_outcome g p) \<noteq> Processing"
  by (auto simp: notice_outcome_def split: sum.split)

interpretation notice_lease: fenced_lease "\<lambda>r. tn_Status r = Processing" tn_Attempts claim_notice_if_due tn_due settle_notice_row
proof (unfold_locales, goal_cases)
  case (4 s g x)
  then show ?case
    using notice_outcome_settles [of g "fst x"]
    by (auto simp: settle_notice_row_def owned_notice_def finish_notice_def split: prod.splits)
qed (auto simp: claim_notice_if_due_def claim_notice_def settle_notice_row_def owned_notice_def)


section \<open>A done notice is one durable message\<close>

definition notice_inv :: "'b im_scheme \<Rightarrow> bool" where
  "notice_inv s \<longleftrightarrow> accept_inv s \<and> messages_keyed s"

text \<open>The message \<open>mid\<close> is the stored message of sender \<open>u\<close> and client id \<open>c\<close>, and its delivery event exists.\<close>

definition stored_as :: "string \<Rightarrow> string \<Rightarrow> string \<Rightarrow> 'b im_scheme \<Rightarrow> bool" where
  "stored_as u c mid s \<longleftrightarrow>
     (\<exists>x\<in>set (msgs s). ms_from x = u \<and> ms_client_msg_id x = Some c \<and> ms_message_id x = mid \<and> has_event x s)"

lemma of_core_notice_inv: "of_core notice_inv"
  unfolding notice_inv_def [abs_def]
  by (rule of_core_conj [OF of_core_accept_inv]) (auto simp: of_core_def reads_def messages_keyed_def core_def)

lemma of_core_stored_as: "of_core (stored_as u c mid)"
  unfolding of_core_def reads_def stored_as_def has_event_def using core_eqD(1,2) by metis

lemma notice_inv_stored:
  assumes "notice_inv s" "clash all_messages_keys (row_of_frame f) (msgs s) = None"
  shows "notice_inv (stored_state f rs s)"
  using assms all_keys_sym unfolding notice_inv_def messages_keyed_def clash_None_iff
  by (simp add: accept_inv_stored keyed_snoc) blast

lemma stored_as_new: "stored_as (From f) (ClientMsgId f) (MessageId f) (stored_state f rs s)"
  using has_event_new [of f rs s] by (auto simp: stored_as_def row_of_frame_def)

lemma stored_as_found:
  "notice_inv s \<Longrightarrow> x \<in> set (msgs s) \<Longrightarrow> ms_client_msg_id x = Some c \<Longrightarrow> ms_from x = u \<Longrightarrow> stored_as u c (ms_message_id x) s"
  unfolding notice_inv_def accept_inv_def outbox_complete_def stored_as_def by (metis option.distinct(1))

text \<open>The unique keys leave one row.\<close>

lemma keyed_one:
  assumes "keyed ks rows" "(k, same) \<in> set ks" "x \<in> set rows" "p x" "\<And>a b. p a \<Longrightarrow> p b \<Longrightarrow> same a b"
  shows "filter p rows = [x]"
  using assms(1,3)
proof (induction rows)
  case (Cons r rows)
  have other: "\<not> p y" if "y \<in> set rows" "p r" for y
    using Cons.prems(1) assms(2,5) that by fastforce
  show ?case
  proof (cases "x = r")
    case True
    with other assms(4) show ?thesis by (auto simp: filter_empty_conv)
  next
    case False
    with Cons.prems(2) have "x \<in> set rows" by simp
    with other assms(4) have "\<not> p r" by blast
    with Cons \<open>x \<in> set rows\<close> show ?thesis by simp
  qed
qed simp

lemma stored_as_one:
  assumes "notice_inv s" "stored_as u c mid s"
  shows "map ms_message_id (filter (\<lambda>x. ms_from x = u \<and> ms_client_msg_id x = Some c) (msgs s)) = [mid]"
proof -
  from assms(2) obtain x where x: "x \<in> set (msgs s)" "ms_from x = u \<and> ms_client_msg_id x = Some c" "ms_message_id x = mid"
    by (auto simp: stored_as_def)
  have key: "(''messages.uk_sender_client_msg'', \<lambda>a b. ms_from a = ms_from b \<and> ms_client_msg_id a \<noteq> None
         \<and> ms_client_msg_id a = ms_client_msg_id b) \<in> set all_messages_keys"
    by (simp add: all_messages_keys_def)
  have "keyed all_messages_keys (msgs s)" using assms(1) by (simp add: notice_inv_def messages_keyed_def)
  from keyed_one [where p = "\<lambda>x. ms_from x = u \<and> ms_client_msg_id x = Some c", OF this key x(1,2)] x(3) show ?thesis by simp
qed

lemma load_stored:
  assumes "relies env notice_inv" "notice_inv w"
  shows "wp (loadMessageByClientMsgID h env u c) (\<lambda>r s. notice_inv s \<and> (\<forall>m. r = Inr (Some m) \<longrightarrow> stored_as u c (MessageId m) s)) w"
  by (rule wp_mono [OF wp_conj [OF keeps_wp [OF keeps_load [OF assms(1)] assms(2)] loadMessageByClientMsgID_sound]])
     (auto simp: frame_of_row_def, rule stored_as_found, simp_all)

lemma save_stored:
  assumes "production h" "relies env notice_inv" "notice_inv w"
  shows "wp (saveMessageWithOutbox h env f rs) (\<lambda>r s. notice_inv s \<and>
           (\<forall>b g. r = Inr (Some (b, g)) \<longrightarrow> stored_as (From f) (ClientMsgId f) (MessageId g) s)) w"
proof -
  have tx: "wp (in_tx env (outbox_tx h f rs)) (\<lambda>r s. notice_inv s
      \<and> (r = Inr Stored \<longrightarrow> stored_as (From f) (ClientMsgId f) (MessageId f) s)) w"
    by (rule wp_in_tx_stable [OF assms(2,3)], simp, rule wp_mono [OF outbox_tx_end [OF assms(1)]])
       (auto split: tx_end.splits simp: notice_inv_stored stored_as_new)
  have failed: "wp (after_failed_insert h env f e) (\<lambda>r s. notice_inv s \<and>
      (\<forall>b g. r = Inr (b, g) \<longrightarrow> stored_as (From f) (ClientMsgId f) (MessageId g) s)) s" if "notice_inv s" for e s
    unfolding after_failed_insert_def
    apply (rule wp_if)
     apply (rule wp_then_okI [OF load_stored [OF assms(2) that]], simp)
    subgoal for x s by (cases x) (auto intro!: wp_ok wp_err)
    by (simp add: wp_err that)
  show ?thesis
    unfolding saveMessageWithOutbox_def
    apply (rule wp_then_okI [OF tx], simp)
    subgoal for stage s
      apply (cases stage)
        apply (simp_all add: wp_ok)
      apply (rule wp_then_okI [OF failed])
        apply (auto intro!: wp_ok)
      done
    done
qed

text \<open>Numbering and the reads keep what the message core shows.\<close>

lemma keeps_nextSequence:
  assumes "relies env I" "of_core I"
  shows "keeps I (nextSequence h env sid)"
  unfolding nextSequence_def ensureSequenceInitialized_def Let_def seq_key_def
  by (intro keeps_if keeps_ok keeps_err keeps_then_ok keeps_query keeps_rds_core keeps_exec_core assms)
     (auto simp: r_setnx_def r_set_def r_incr_def on_rds_res_def core_def split: option.splits rvalue.splits prod.splits if_splits)

lemma keeps_check_notifier: "relies env I \<Longrightarrow> keeps I (check_notifier env)"
  unfolding check_notifier_def Let_def
  by (intro keeps_bind keeps_query keeps_case_sum keeps_case_option keeps_err keeps_if keeps_ok)

lemma keeps_check_target: "relies env I \<Longrightarrow> keeps I (check_target h env n g)"
  unfolding check_target_def
  by (intro keeps_if keeps_err keeps_then_ok keeps_query keeps_case_option keeps_ok keeps_isCurrentGroupMember)

text \<open>What a worker relies on: the others keep the invariant, and a stored message stays.\<close>

definition notice_rely :: "tdb env \<Rightarrow> taskNotice \<Rightarrow> bool" where
  "notice_rely env n \<longleftrightarrow> relies env notice_inv \<and>
     (\<forall>mid. relies env (\<lambda>s. notice_inv s \<and> stored_as taskSystemUserID (notice_client_id n) mid s))"

definition notice_stored :: "taskNotice \<Rightarrow> gerr + string \<Rightarrow> tdb \<Rightarrow> bool" where
  "notice_stored n r s \<longleftrightarrow> notice_inv s \<and> (\<forall>mid. r = Inr mid \<longrightarrow> stored_as taskSystemUserID (notice_client_id n) mid s)"

lemma of_core_notice_stored: "of_core (notice_stored n r)"
  using of_core_notice_inv of_core_stored_as unfolding of_core_def reads_def notice_stored_def by metis

lemma relies_notice_stored: "notice_rely env n \<Longrightarrow> relies env (notice_stored n r)"
  unfolding notice_rely_def relies_def notice_stored_def by (cases r) blast+

lemma notice_frame_simps [simp]:
  "From (notice_frame n b t) = taskSystemUserID" "ClientMsgId (notice_frame n b t) = notice_client_id n"
  by (simp_all add: notice_frame_def)

lemma publish_notice_stored:
  assumes "production h" "notice_rely env n" "notice_inv w"
  shows "wp (publish_notice h env n e t) (notice_stored n) w"
proof -
  note rely = assms(2) [unfolded notice_rely_def, THEN conjunct1]
  have err: "notice_stored n (Inl x) s = notice_inv s" for x s by (simp add: notice_stored_def)
  have seq: "wp (nextSequence h env sid) (\<lambda>_. notice_inv) s" if "notice_inv s" for sid s
    by (rule keeps_wp [OF keeps_nextSequence [OF rely of_core_notice_inv] that])
  have rcp: "wp (if b then loadGroupRecipientsFromDB env g u else ok us) (\<lambda>_. notice_inv) s" if "notice_inv s" for b g u us s
    by (rule keeps_wp [OF keeps_if [OF keeps_loadGroupRecipientsFromDB [OF rely] keeps_ok] that])
  have fin: "wp (ignore (ProcessDeliveryOutboxMessage h env m) (ok mid)) (notice_stored n) s"
    if "notice_stored n (Inr mid) s" for m mid s
    using keeps_wp [OF keeps_ProcessDeliveryOutboxMessage [OF relies_notice_stored [OF assms(2)] of_core_notice_stored] that]
    by (rule wp_ignoreI) (simp add: wp_ok)
  have save: "wp (then_ok (saveMessageWithOutbox h env g rs) (\<lambda>saved. case saved of
        None \<Rightarrow> err (Msg ''required IM outbox schema is missing'')
      | Some (_, g) \<Rightarrow> ignore (ProcessDeliveryOutboxMessage h env (MessageId g)) (ok (MessageId g)))) (notice_stored n) s"
    if "notice_inv s" "From g = taskSystemUserID" "ClientMsgId g = notice_client_id n" for g rs s
    by (rule wp_then_okI [OF save_stored [OF assms(1) rely that(1)]])
       (auto simp: err notice_stored_def that(2,3) intro!: wp_case_option wp_case_prod wp_err fin)
  show ?thesis
    unfolding publish_notice_def
    apply (rule wp_then_okI [OF load_stored [OF rely assms(3)]], simp add: err)
    apply (rule wp_case_option)
     apply (rule wp_case_sum, simp add: wp_err err)
     apply (intro wp_bind wp_clock wp_let, hypsubst)
     apply (rule wp_then_okI [OF seq], simp, simp add: err)
     apply (intro wp_let, hypsubst)
     apply (rule wp_then_okI [OF rcp], simp, simp add: err)
     apply (rule save, simp_all)
    apply (rule wp_ok, simp add: notice_stored_def)
    done
qed

lemma publish_stored:
  assumes "production h" "notice_rely env n" "notice_inv w"
  shows "wp (publishTaskEventMessage h env n) (notice_stored n) w"
proof -
  note rely = assms(2) [unfolded notice_rely_def, THEN conjunct1]
  have err: "notice_stored n (Inl x) s = notice_inv s" for x s by (simp add: notice_stored_def)
  note keep = keeps_wp [OF keeps_check_notifier [OF rely]] keeps_wp [OF keeps_query [OF rely]] keeps_wp [OF keeps_check_target [OF rely]]
  show ?thesis
    unfolding publishTaskEventMessage_def
    apply (rule wp_if, simp add: wp_err err assms)
    apply (rule wp_then_okI [OF keep(1) [OF assms(3)]], simp add: err)
    apply (rule wp_then_okI [OF keep(2)], assumption, simp add: err)
    apply (rule wp_case_option, simp add: wp_err err)
    apply (rule wp_case_prod)
    apply (rule wp_then_okI [OF keep(3)], assumption, simp add: err)
    apply (rule publish_notice_stored [OF assms(1,2)], assumption)
    done
qed

lemma core_notices: "core (notices_update f s) = core s"
  by (simp add: core_def)

lemma keeps_notices:
  "relies env I \<Longrightarrow> of_core I \<Longrightarrow> keeps I (exec env (run_update notices notices_update p f))"
  by (rule keeps_exec_core) (auto simp: run_update_def core_notices)

text \<open>The row of the notice names its message.\<close>

definition notice_done :: "taskNotice \<Rightarrow> string \<Rightarrow> tdb \<Rightarrow> bool" where
  "notice_done n mid s \<longleftrightarrow> (\<exists>r\<in>set (notices s). tn_ID r = nt_ID n \<and> tn_Status r = Finished
     \<and> tn_MessageID r = (if mid = [] then None else Some mid))"

lemma settled_row:
  assumes "affected p (finish_notice st at mid e t) rows \<noteq> 0" "\<And>r. p r \<Longrightarrow> tn_ID r = i"
  shows "\<exists>x\<in>set (upd p (finish_notice st at mid e t) rows). tn_ID x = i \<and> tn_Status x = st \<and> tn_MessageID x = mid"
proof -
  from assms(1) obtain r where "r \<in> set rows" "p r" by (auto simp: affected_pos_iff)
  then show ?thesis
    using assms(2) by (intro bexI [of _ "finish_notice st at mid e t r"]) (auto simp: finish_notice_def upd_def)
qed

lemma settle_notice_done:
  assumes "notice_rely env n" "notice_stored n answer w"
  shows "wp (settle_notice env n g answer) (\<lambda>r s. r = Inr True \<longrightarrow>
           (\<exists>mid. answer = Inr mid \<and> notice_done n mid s \<and> notice_stored n answer s)) w"
proof -
  let ?f = "\<lambda>st at mid e t. finish_notice st at mid e t"
  have upd: "wp (exec env (run_update notices notices_update (\<lambda>r. tn_ID r = nt_ID n \<and> owned_notice g r) (?f st at mid e t)))
      (\<lambda>r s. notice_stored n answer s \<and> (\<forall>k. r = Inr k \<longrightarrow> k \<noteq> 0 \<longrightarrow>
         (\<exists>x\<in>set (notices s). tn_ID x = nt_ID n \<and> tn_Status x = st \<and> tn_MessageID x = mid))) w" for st at mid e t
  proof (rule wp_exec_stable [OF relies_notice_stored [OF assms(1)] assms(2)])
    fix s r s2
    assume s: "notice_stored n answer s"
      and u: "run_update notices notices_update (\<lambda>r. tn_ID r = nt_ID n \<and> owned_notice g r) (?f st at mid e t) s = (r, s2)"
    from u have s2: "s2 = notices_update (upd (\<lambda>r. tn_ID r = nt_ID n \<and> owned_notice g r) (?f st at mid e t)) s"
      and r: "r = Inr (affected (\<lambda>r. tn_ID r = nt_ID n \<and> owned_notice g r) (?f st at mid e t) (notices s))"
      by (auto simp: run_update_def)
    have "notice_stored n answer s2"
      using s of_core_notice_stored [of n answer] core_notices [of _ s] unfolding s2 of_core_def reads_def by metis
    with r show "(notice_stored n answer s2 \<and> (\<forall>k. r = Inr k \<longrightarrow> k \<noteq> 0 \<longrightarrow>
         (\<exists>x\<in>set (notices s2). tn_ID x = nt_ID n \<and> tn_Status x = st \<and> tn_MessageID x = mid)))
       \<and> (notice_stored n answer s2 \<and> (\<forall>k. (Inl IoErr :: gerr + nat) = Inr k \<longrightarrow> k \<noteq> 0 \<longrightarrow>
         (\<exists>x\<in>set (notices s2). tn_ID x = nt_ID n \<and> tn_Status x = st \<and> tn_MessageID x = mid)))"
      using settled_row [of "\<lambda>r. tn_ID r = nt_ID n \<and> owned_notice g r" st at mid e t "notices s" "nt_ID n"]
      by (simp add: s2)
  qed auto
  have out: "\<exists>m. answer = Inr m \<and> mid = (if m = [] then None else Some m)"
    if "notice_outcome g answer = (Finished, d, mid, e)" for d mid e
    using that by (auto simp: notice_outcome_def split: sum.splits if_splits)
  have last: "wp (then_ok (exec env (run_update notices notices_update (\<lambda>r. tn_ID r = nt_ID n \<and> owned_notice g r) (?f st at mid e t)))
      (\<lambda>updated. if updated = 0 then err (Msg ''task notification lease was lost'') else ok (st = Finished)))
      (\<lambda>r s. r = Inr True \<longrightarrow> (\<exists>mid. answer = Inr mid \<and> notice_done n mid s \<and> notice_stored n answer s)) w"
    if o: "notice_outcome g answer = (st, d, mid, e)" for st d mid e at t
  proof (rule wp_then_okI [OF upd], simp, rule wp_if, simp add: wp_err, rule wp_ok, rule impI)
    fix k s
    assume s: "notice_stored n answer s \<and> (\<forall>k'. (Inr k :: gerr + nat) = Inr k' \<longrightarrow> k' \<noteq> 0 \<longrightarrow>
        (\<exists>x\<in>set (notices s). tn_ID x = nt_ID n \<and> tn_Status x = st \<and> tn_MessageID x = mid))" "k \<noteq> 0"
      and "(Inr (st = Finished) :: gerr + bool) = Inr True"
    then have st: "st = Finished" by simp
    with out o obtain m where m: "answer = Inr m" "mid = (if m = [] then None else Some m)" by blast
    from s st m(2) have "notice_done n m s" unfolding notice_done_def by blast
    with m(1) s show "\<exists>mid. answer = Inr mid \<and> notice_done n mid s \<and> notice_stored n answer s" by blast
  qed
  show ?thesis
    unfolding settle_notice_def
    apply (rule wp_case_prod, rule wp_case_prod, rule wp_case_prod)
    apply (intro wp_bind wp_clock wp_if wp_return)
     apply (rule last, simp)
    apply (rule last, simp)
    done
qed

text \<open>What a run unfolds.\<close>

lemmas task_notification_run [exec_defs] =
  taskSystemUserID_def taskNotificationLease_def taskNotificationAttempts_def errTaskNotificationSkipped_def
  taskNotificationDelay_def taskNoticeVerb_def find_notice_event_def notice_client_id_def notice_frame_def
  check_notifier_def check_target_def publish_notice_def publishTaskEventMessage_def tn_due_def claim_notice_def
  owned_notice_def finish_notice_def notice_outcome_def settle_notice_def processTaskNotification_def

section \<open>Properties\<close>

text \<open>C39. A notice reported done is exactly one message: in the production configuration, when the worker reports a task
  notification done, its row is settled with the id of a message, this is the only message the reserved account has sent
  under the notice's client id, however often the notice was attempted before, and the message has its delivery event;
  provided the other processes keep the invariants of the message tables and delete no message.\<close>

theorem done_notice_is_one_message:
  assumes "production h" "notice_rely env n" "notice_inv w"
  shows "wp (processTaskNotification h env n) (\<lambda>r s. r = Inr True \<longrightarrow> (\<exists>mid. notice_done n mid s
     \<and> map ms_message_id (filter (\<lambda>x. ms_from x = taskSystemUserID \<and> ms_client_msg_id x = Some (notice_client_id n)) (msgs s)) = [mid]
     \<and> mid \<in> do_message_id ` set (deliv_outbox s))) w"
proof -
  note rely = assms(2) [unfolded notice_rely_def, THEN conjunct1]
  have event: "stored_as u c mid s \<Longrightarrow> mid \<in> do_message_id ` set (deliv_outbox s)" for u c mid and s :: tdb
    by (auto simp: stored_as_def has_event_def)
  show ?thesis
    unfolding processTaskNotification_def
    apply (intro wp_bind wp_clock)
    apply (rule wp_then_okI [OF keeps_wp [OF keeps_notices [OF rely of_core_notice_inv] assms(3)]], simp)
    apply (rule wp_if, simp add: wp_ok)
    apply (rule wp_bindI [OF publish_stored [OF assms(1,2)]], assumption)
    apply (rule wp_mono [OF settle_notice_done [OF assms(2)]], assumption)
    apply (clarsimp simp: notice_stored_def)
    apply (intro exI conjI, assumption, erule (1) stored_as_one, erule event)
    done
qed

definition demo_notice :: notice_row where
  "demo_notice = \<lparr>tn_ID = 1, tn_EventID = ''te1'', tn_TargetType = ''group'', tn_TargetID = ''g1'', tn_Status = Pending,
     tn_Attempts = 0, tn_AvailableAt = 5, tn_MessageID = None, tn_LastError = [], tn_UpdatedAt = 5\<rparr>"

definition demo_notified :: tdb where
  "demo_notified = demo_tdb\<lparr>group_rows := [\<lparr>gr_id = ''g1'', gr_name = ''G'', gr_owner = ''al'', gr_status = ''active'', gr_created_at = 1\<rparr>],
     notices := [demo_notice],
     users := [\<lparr>us_ID = ''9002'', us_Username = ''task_notifier'', us_Password = [], us_Avatar = [], us_Status = 0\<rparr>]\<rparr>"

lemma demo_notified_simps [exec_defs]:
  "notices demo_notified = [demo_notice]" "tasks demo_notified = [demo_task]" "task_events demo_notified = [demo_task_event]"
  "users demo_notified = [\<lparr>us_ID = ''9002'', us_Username = ''task_notifier'', us_Password = [], us_Avatar = [], us_Status = 0\<rparr>]"
  "group_rows demo_notified = [\<lparr>gr_id = ''g1'', gr_name = ''G'', gr_owner = ''al'', gr_status = ''active'', gr_created_at = 1\<rparr>]"
  "member_rows demo_notified = member_rows demo_world" "msgs demo_notified = []" "deliv_outbox demo_notified = []"
  "conv_outbox demo_notified = []" "rds demo_notified = empty_redis"
  by (simp_all add: demo_notified_def demo_tdb_def im.defs demo_world_simps)

theorem done_notice_is_one_message_witness:
  "\<exists>n s. run_state (processTaskNotification demo (calm 9) (notice_of_row demo_notice)) (0, demo_notified) = (Inr True, n, s)
     \<and> length (filter (\<lambda>x. ms_from x = ''9002'' \<and> ms_client_msg_id x = Some ''task_event:te1:g1'') (msgs s)) = 1"
proof -
  have "notice_inv demo_notified"
    by (simp add: notice_inv_def accept_inv_def outbox_complete_def committed_sound_def messages_keyed_def
        demo_notified_simps empty_redis_def)
  moreover have "fst (run_state (processTaskNotification demo (calm 9) (notice_of_row demo_notice)) (0, demo_notified)) = Inr True"
    by (simp add: exec_defs run_calls upd_def affected_def demo_notice_def notice_of_row_def demo_task_event_def demo_task_def
        ins_def clash_def cong: lazy_cong)
  ultimately show ?thesis
    using done_notice_is_one_message [of demo "calm 9" "notice_of_row demo_notice" demo_notified]
    by (auto simp: notice_rely_def production_demo notice_client_id_def notice_of_row_def demo_notice_def taskSystemUserID_def
        dest!: wp_run dest: arg_cong [of _ _ length])
qed

end
