(* ===== verification/Task_Pages.thy ===== *)
theory Task_Pages
  imports Learning_Task
begin

text \<open>
  Paging through tasks and submissions (internal/learningtask: \<open>List\<close> and \<open>ListSubmissions\<close>): the cursor of a page
  is read back to the key it was made from, and following the cursors lists every row once, newest first.
\<close>

section \<open>Cursors\<close>

lemma digit_not_colon: "char_of (48 + n mod 10 :: nat) \<noteq> CHR '':''"
proof
  assume eq: "char_of (48 + n mod 10 :: nat) = CHR '':''"
  have "digit_val (char_of (48 + n mod 10)) = Some (n mod 10)" by (rule digit_val_digit) simp
  then show False unfolding eq by (simp add: digit_val_def)
qed

lemma digits_no_colon: "CHR '':'' \<notin> set (digits_of n)"
proof (induction n rule: digits_of.induct)
  case (1 n)
  show ?case
    by (subst digits_of.simps) (use 1 digit_not_colon [of n] in \<open>auto dest: sym\<close>)
qed

lemma itoa_no_colon: "CHR '':'' \<notin> set (itoa n)"
  using digits_no_colon by (simp add: itoa_def)

lemma take_before: "x \<notin> set a \<Longrightarrow> takeWhile (\<lambda>c. c \<noteq> x) (a @ x # b) = a" "x \<notin> set a \<Longrightarrow> dropWhile (\<lambda>c. c \<noteq> x) (a @ x # b) = x # b"
  by (induction a) auto

lemma split_colon_first: "CHR '':'' \<notin> set a \<Longrightarrow> split_colon (a @ '':'' @ b) = Some (a, b)"
  by (simp add: split_colon_def take_before)

lemma cursor_roundtrip: "in_i64 (fst k) \<Longrightarrow> decode_cursor (encode_cursor k) = Some k"
  by (simp add: decode_cursor_def encode_cursor_def raw_url_roundtrip split_colon_first [OF itoa_no_colon, unfolded append_Cons append_Nil] parse_int_itoa)

lemma encode_cursor_nonempty: "encode_cursor k \<noteq> []"
  by (simp add: encode_cursor_def raw_url_encode_nonempty)

section \<open>Pages\<close>

lemma before_cursor: "fst a < fst b \<or> fst a = fst b \<and> snd a < snd b \<longleftrightarrow> a < (b :: int \<times> string)"
  by (auto simp: less_prod_def' prod_eq_iff)

lemma page_eq:
  "page k rows None limit = take (nat (limit + 1)) (order_desc k rows)"
  "page k rows (Some c) limit = take (nat (limit + 1)) (filter (\<lambda>r. k r < c) (order_desc k rows))"
  using before_cursor [of _ c] by (simp_all add: page_def order_desc_filter [symmetric] split_beta)

text \<open>Following the cursors, for at most \<open>n\<close> pages.\<close>

fun follow :: "nat \<Rightarrow> ('r \<Rightarrow> int \<times> string) \<Rightarrow> 'r list \<Rightarrow> int \<Rightarrow> string \<Rightarrow> 'r list option" where
  "follow 0 k rows limit cur = None"
| "follow (Suc n) k rows limit cur =
     (case page_answer k (page k rows (if cur = [] then None else decode_cursor cur) limit) limit of
        (rs, next) \<Rightarrow> if next = [] then Some rs else map_option (\<lambda>t. rs @ t) (follow n k rows limit next))"

lemma follow_from:
  assumes keys: "distinct (map k rows)" "\<forall>r\<in>set rows. in_i64 (fst (k r))" and l: "1 \<le> limit"
    and n: "length (order_desc k rows) < n + j" and j: "j \<le> length (order_desc k rows)"
    and cur: "(cur = [] \<and> j = 0) \<or> (0 < j \<and> cur = encode_cursor (k (order_desc k rows ! (j - 1))))"
  shows "follow n k rows limit cur = Some (drop j (order_desc k rows))"
  using n j cur
proof (induction n arbitrary: j cur)
  case 0
  then show ?case by simp
next
  case (Suc n)
  let ?ys = "order_desc k rows"
  have st: "sorted_wrt (\<lambda>a b. k b < k a) ?ys" by (rule order_desc_strict [OF keys(1)])
  have rest: "page k rows (if cur = [] then None else decode_cursor cur) limit = take (nat (limit + 1)) (drop j ?ys)"
  proof (cases "j = 0")
    case True
    with Suc.prems show ?thesis by (simp add: page_eq)
  next
    case False
    with Suc.prems have c: "cur = encode_cursor (k (?ys ! (j - 1)))" and jl: "j - 1 < length ?ys" by auto
    then have "in_i64 (fst (k (?ys ! (j - 1))))" using keys(2) nth_mem [OF jl] by simp
    with c have "decode_cursor cur = Some (k (?ys ! (j - 1)))" "cur \<noteq> []" by (simp_all add: cursor_roundtrip encode_cursor_nonempty)
    with filter_below [OF st jl] False show ?thesis by (simp add: page_eq)
  qed
  show ?case
  proof (cases "int (length (drop j ?ys)) \<le> limit")
    case True
    then have "take (nat (limit + 1)) (drop j ?ys) = drop j ?ys" by simp
    with True show ?thesis unfolding follow.simps rest by (simp add: page_answer_def)
  next
    case False
    let ?m = "nat limit"
    have m: "0 < ?m" "j + ?m < length ?ys" using l False by auto
    have len: "limit < int (length (take (nat (limit + 1)) (drop j ?ys)))" using l False by simp
    have tk: "take ?m (take (nat (limit + 1)) (drop j ?ys)) = take ?m (drop j ?ys)" using l by (simp add: min_def)
    have "take ?m (drop j ?ys) \<noteq> []" using m by simp
    moreover have "length (take ?m (drop j ?ys)) = ?m" using m by simp
    ultimately have "last (take ?m (drop j ?ys)) = take ?m (drop j ?ys) ! (?m - 1)" by (simp add: last_conv_nth)
    also have "\<dots> = ?ys ! (j + ?m - 1)" using m by simp
    finally have lst: "last (take ?m (drop j ?ys)) = ?ys ! (j + ?m - 1)" .
    have ih: "follow n k rows limit (encode_cursor (k (?ys ! (j + ?m - 1)))) = Some (drop (j + ?m) ?ys)"
      by (rule Suc.IH) (use Suc.prems m in auto)
    have "take ?m (drop j ?ys) @ drop (j + ?m) ?ys = drop j ?ys"
      by (metis add.commute append_take_drop_id drop_drop)
    with ih len tk lst show ?thesis
      unfolding follow.simps rest by (simp add: page_answer_def encode_cursor_nonempty)
  qed
qed

section \<open>Properties\<close>

text \<open>C40. Paging is complete: for rows with distinct keys and 64-bit times, following the cursors from the first page
  with any limit of at least one lists every row exactly once in descending order, and more requests than rows
  are enough to reach the page without a cursor.\<close>

theorem pages_list_everything:
  assumes "distinct (map k rows)" "\<forall>r\<in>set rows. in_i64 (fst (k r))" "1 \<le> limit" "length rows < n"
  shows "follow n k rows limit [] = Some (order_desc k rows)"
proof -
  have "length (order_desc k rows) = length rows" by (simp add: order_desc_def)
  with follow_from [OF assms(1-3), of n 0 "[]"] assms(4) show ?thesis by simp
qed

definition page_demo :: "nat \<Rightarrow> string \<Rightarrow> sub_row" where
  "page_demo n i = \<lparr>sb_ID = i, sb_TaskID = ''lt'', sb_UserID = i, sb_Text = [], sb_Link = [], sb_AttachmentIDs = [], sb_Status = ''submitted'',
     sb_AttemptNo = 1, sb_Version = 1, sb_ReviewerID = [], sb_ReviewNote = [], sb_SubmittedAt = int n, sb_ReviewedAt = 0\<rparr>"

theorem pages_list_everything_witness:
  "follow 4 submission_key [page_demo 5 ''a'', page_demo 7 ''b'', page_demo 5 ''c''] 1 []
     = Some [page_demo 7 ''b'', page_demo 5 ''c'', page_demo 5 ''a'']"
proof -
  have "follow 4 submission_key [page_demo 5 ''a'', page_demo 7 ''b'', page_demo 5 ''c''] 1 []
     = Some (order_desc submission_key [page_demo 5 ''a'', page_demo 7 ''b'', page_demo 5 ''c''])"
    by (rule pages_list_everything) (simp_all add: submission_key_def page_demo_def in_i64_def)
  also have "order_desc submission_key [page_demo 5 ''a'', page_demo 7 ''b'', page_demo 5 ''c'']
     = [page_demo 7 ''b'', page_demo 5 ''c'', page_demo 5 ''a'']"
    by (simp add: order_desc_def submission_key_def page_demo_def)
  finally show ?thesis .
qed

end
