(* ===== verification/Spec2Isabelle.thy ===== *)
theory Spec2Isabelle
  imports Ai_Assistant Gateway_Api Gateway_Cleanup Discovery Frames Socket_Safety Replay Attachments History Contacts Accounts Rate_Limit Community_Events Push_Safety Group_Transfer Sync Push_Pool Gateway_Payments Task_Life_Cycle Task_Notifications Task_Pages
begin

text \<open>
  A verification development of linkgo-im, a messaging system with learning tasks, communities, red packets and an AI
  assistant (Go; the sources named here are under src/).

  \<^bold>\<open>The program.\<close>  A client connects to a \<^emph>\<open>gateway\<close> (cmd/gateway): it logs in, exchanges its access token for a ticket,
  opens a websocket and sends frames.  The gateway hands each frame, in order per user, to the \<^emph>\<open>logic\<close> service
  (internal/logic), which checks the relation of sender and recipient, numbers the message in its conversation,
  and stores it in MySQL together with the events of two outboxes.  Workers of the logic service take the events: one keeps the
  conversation summaries, one delivers to the recipients through Redis (internal/delivery), or hands a group
  message to Kafka, whose consumer (cmd/transfer) delivers to the members one by one.  A delivery is tracked in
  the recipient's pending set, pushed over Redis pub/sub to the gateway that holds the recipient's route
  (internal/server), repeated until it is acknowledged, and replayed when the client reconnects.  Beside the messages
  the gateway serves friends, groups, communities, learning tasks, wallets, red packets, attachments and the AI assistant.

  \<^bold>\<open>How effects are modelled.\<close>  A handler is a program of the state monad over the world (theory Io): the tables, the Redis keys,
  what was published.  An environment decides before each external call what other processes did to the world, what the clock
  shows, and whether the call succeeds, fails, or takes effect and loses its reply.  Theorems quantify over
  environments, so they cover every interleaving at call granularity and every pattern of failures;
  \<open>relies env I\<close> says which conditions the other processes keep, \<open>wp\<close> and \<open>keeps\<close> are the weakest precondition and the
  invariants of a handler.  A transaction runs undisturbed, since it locks the rows it works on, and its commit may fail in both ways.
  Errors are values of a sum type, with the error chains Go inspects; machine integers wrap where the code can overflow.

  \<^bold>\<open>Foundations.\<close>  Prelude (errors, 64-bit integers, generic facts), Io (calls, transactions, rules), Sql (statement forms on lists of
  rows), Redis_Store (keys by type and the commands used), Go_Text (strings, UTF-8, numbers as text, base64, paths), Schema (the
  shared tables of sql/init.sql), Demo (the small deployment the properties are tried on).

  \<^bold>\<open>Accepting messages.\<close>  Message_Ids, Relations, Idempotency, Sequence, Message_Store and Push_Message follow the files of
  internal/logic that make up \<open>LogicHandler.PushMessage\<close>: addressing and normalisation, permission, the idempotency record, numbering, storage.
  Their lemmas give each step's behaviour on every branch; Push_Message and Push_Safety compose them: what is
  accepted is durable and stored as the client submitted it, nothing is stored between strangers, and the message table
  keeps its keys.

  \<^bold>\<open>Delivering messages.\<close>  Route and Gateway_Cleanup (the routing table of internal/server/route.go), Delivery (internal/delivery and
  internal/server/ack.go), Delivery_Outbox, Conversation and Task_Notifications (the outbox workers), Group_Transfer
  (cmd/transfer), Push_Pool (the gateway's worker pool, a state machine), Gateway_Socket and Socket_Safety (handshake, read loop, pushes and retries),
  Sync and Replay (what a new connection is replayed, with the payload check each connection has), History (paging).  The locales \<open>owned_cell\<close>, \<open>monotone_cursor\<close>, \<open>pending_store\<close>, \<open>fenced_lease\<close>
  and \<open>exclusive_lease\<close> state what the clients of the Redis scripts and of the outbox rows rely on; each is interpreted on
  the model of the code, \<open>fenced_lease\<close> for two workers.  \<open>replay_check\<close> is what the replays rely on of the payload check, \<open>AuthorizePayload\<close> on
  the gateway.  \<open>view_invariant\<close> and \<open>connection_invariant\<close> carry a condition
  through every operation of the gateway once its few reads and writes are known to keep it.

  \<^bold>\<open>Money.\<close>  Wallet, Red_Packet and Gateway_Payments: the ledger, recharges, sending, claiming and refunding, and who may do so
  through the gateway.  One invariant ties wallets, ledger and packets together and gives the conservation of money.

  \<^bold>\<open>Tasks and communities.\<close>  Learning_Task, Task_Life_Cycle, Task_Pages (internal/learningtask), Community, Community_Rules,
  Community_Safety, Community_Events (internal/community), Contacts (friends and groups of the gateway), and Gateway_Api (their HTTP endpoints).  The life cycle of tasks and the
  rules of communities are step relations; the services refine them: they change the store by these steps only, so
  what the steps keep they keep, and invariants are proved by cases over the steps.

  \<^bold>\<open>Access.\<close>  Accounts (login, tokens, tickets), Rate_Limit (the sharded token buckets, equivalent to one bucket per key that is never swept),
  Attachments (upload, download, S3).

  \<^bold>\<open>The assistant and the rest.\<close>  Knowledge and Ai_Assistant (internal/ai and the bot); Discovery (etcd, rendezvous hashing, the
  wait for the logic service); Frames (pkg/codec).

  \<^bold>\<open>Bounds and fuel.\<close>  The replay of the message table has one unit of fuel per batch of two hundred rows; its theorem says that
  one more than the rows divided by two hundred suffices.  A recharge that meets a duplicate starts over, with one unit per round; \<open>recharge_returns\<close>
  shows that two suffice.  The retry loops of Group_Transfer and Community_Events go on until their context ends, which is the end of
  their fuel; their theorems hold for every amount.  Ticks of timers are numbers and the pages of a \<open>SCAN\<close> are lists, for all of which the theorems hold.
  The wait for the logic service is a partial function; \<open>wait_ends\<close> and \<open>wait_never_ends\<close> say when it returns.

  \<^bold>\<open>Assumptions on what is not under src/.\<close>  MySQL and Redis behave as their documentation says for the statements used.  JSON, protobuf,
  SHA-256, bcrypt, URL and JWT parsing, Unicode's tables, content sniffing, random ids and the replies of the AI model are
  parameters; what a theorem needs of them is a named hypothesis (for instance \<open>codec_ok\<close>), and its witness has an instance.

  \<^bold>\<open>Not modelled.\<close>  Expiry of keys and leases is a change the environment makes.  Numbers in Lua are exact (scores and numbers stay below
  2 to the 53), and the limiter's \<open>float64\<close> counts are rational.  SQL compares texts exactly; a \<open>NULL\<close> that the code reads through \<open>COALESCE\<close> is the
  value it is read as; foreign keys and most column lengths are left out, and an error between two rows of a result that the code
  does not look at.  Background goroutines run where they are started, or are interference.  Metrics, logs and
  traces have no effect.  The gateway's other HTTP handlers decode a request, call one modelled operation and copy its answer.
  Start-up, configuration, health endpoints and wiring (the main functions, the service contexts, internal/metrics, internal/health, config.go),
  cmd/secure-demo, the programs under tools/ and benchmark/, which are clients
  and measurements, and the generated protobuf code are not modelled.
\<close>

end
